(* ===== verification/Prelude.thy ===== *)
theory Prelude
  imports Complex_Main "HOL-Library.Char_ord" "HOL-Library.List_Lexorder"
begin

text \<open>
  Shared vocabulary of the development: Python exceptions as values, a result type with its
  bind, the list and table operations that the SQL statements of the program use, and the
  lemmas about them that the component theories rely on.

  \<^item> Timestamps are rationals: the program only compares, subtracts and stores the
    floats that \<^verbatim>\<open>time.time()\<close> returns.
  \<^item> Strings and byte strings are both \<^typ>\<open>string\<close>; a character is a code point
    (or byte) below 256. Comparison of strings is lexicographic by code, as in Python.
  \<^item> A table is the list of its rows in rowid order, so a query without ORDER BY
    enumerates the list.
\<close>

type_synonym timestamp = rat

named_theorems res_simps \<open>equations that evaluate or invert the result monad\<close>
named_theorems sql_simps \<open>equations for reading a table after an update or an insert\<close>

section \<open>Exceptions as values\<close>

datatype py_error =
    ValueError string
  | KeyError string
  | TypeError string
  | AttributeError string
  | OSError string
  | IntegrityError string
  | OverflowError string
  | RuntimeError string
  | HTTPException int string

type_synonym 'a result = "py_error + 'a"

definition bindr :: "'a result \<Rightarrow> ('a \<Rightarrow> 'b result) \<Rightarrow> 'b result" where
  "bindr m f = (case m of Inl e \<Rightarrow> Inl e | Inr x \<Rightarrow> f x)"

definition guardr :: "bool \<Rightarrow> py_error \<Rightarrow> unit result" where
  "guardr ok e = (if ok then Inr () else Inl e)"

fun foldr_res :: "('a \<Rightarrow> 's \<Rightarrow> 's result) \<Rightarrow> 'a list \<Rightarrow> 's \<Rightarrow> 's result" where
  "foldr_res f [] s = Inr s"
| "foldr_res f (x # xs) s = bindr (f x s) (foldr_res f xs)"

fun map_res :: "('a \<Rightarrow> 'b result) \<Rightarrow> 'a list \<Rightarrow> 'b list result" where
  "map_res f [] = Inr []"
| "map_res f (x # xs) = bindr (f x) (\<lambda>y. bindr (map_res f xs) (\<lambda>ys. Inr (y # ys)))"

lemma bindr_simps [simp, res_simps]:
  "bindr (Inl e) f = Inl e"
  "bindr (Inr x) f = f x"
  by (simp_all add: bindr_def)

lemma bindr_eq_Inr [res_simps]:
  "bindr m f = Inr y \<longleftrightarrow> (\<exists>x. m = Inr x \<and> f x = Inr y)"
  by (cases m) simp_all

lemma bindr_InrE:
  assumes "bindr m f = Inr y"
  obtains x where "m = Inr x" and "f x = Inr y"
  using assms by (cases m) simp_all

lemma guardr_eq_Inr [simp, res_simps]: "guardr ok e = Inr u \<longleftrightarrow> ok"
  by (simp add: guardr_def)

lemma guardr_simps [simp, res_simps]:
  "guardr True e = Inr ()"
  "guardr False e = Inl e"
  by (simp_all add: guardr_def)

lemma foldr_res_append [res_simps]:
  "foldr_res f (xs @ ys) s = bindr (foldr_res f xs s) (foldr_res f ys)"
  by (induction xs arbitrary: s) (auto simp: bindr_def split: sum.splits)

text \<open>What every step of a loop keeps, a loop that returns keeps.\<close>

lemma foldr_res_invariant:
  assumes "foldr_res f xs s = Inr t" and "P s"
    and "\<And>x s s'. x \<in> set xs \<Longrightarrow> P s \<Longrightarrow> f x s = Inr s' \<Longrightarrow> P s'"
  shows "P t"
  using assms
proof (induction xs arbitrary: s)
  case Nil
  then show ?case by simp
next
  case (Cons x xs)
  from Cons.prems(1) obtain u where u: "f x s = Inr u" "foldr_res f xs u = Inr t"
    by (auto simp: bindr_eq_Inr)
  then have "P u" using Cons.prems(2,3) by auto
  with u(2) show ?case by (rule Cons.IH) (use Cons.prems(3) in auto)
qed

lemma map_res_Inr_set:
  "map_res f xs = Inr ys \<Longrightarrow> y \<in> set ys \<Longrightarrow> \<exists>x\<in>set xs. f x = Inr y"
  by (induction xs arbitrary: ys) (auto simp: bindr_eq_Inr)

lemma map_res_length: "map_res f xs = Inr ys \<Longrightarrow> length ys = length xs"
  by (induction xs arbitrary: ys) (auto simp: bindr_eq_Inr)

section \<open>Lists\<close>

text \<open>\<^verbatim>\<open>list(dict.fromkeys(xs))\<close>: each element once, at its first position.\<close>

definition dedup :: "'a list \<Rightarrow> 'a list" where
  "dedup xs = rev (remdups (rev xs))"

lemma set_dedup [simp]: "set (dedup xs) = set xs"
  by (simp add: dedup_def)

lemma distinct_dedup [simp]: "distinct (dedup xs)"
  by (simp add: dedup_def)

lemma dedup_Nil [simp]: "dedup [] = []"
  by (simp add: dedup_def)

lemma dedup_eq_Nil [simp]: "dedup xs = [] \<longleftrightarrow> xs = []"
  by (simp add: dedup_def)

definition starts_with :: "'a list \<Rightarrow> 'a list \<Rightarrow> bool" where
  "starts_with p s \<longleftrightarrow> take (length p) s = p"

definition ends_with :: "'a list \<Rightarrow> 'a list \<Rightarrow> bool" where
  "ends_with p s \<longleftrightarrow> starts_with (rev p) (rev s)"

text \<open>\<^verbatim>\<open>needle in haystack\<close> for strings.\<close>

fun contains :: "'a list \<Rightarrow> 'a list \<Rightarrow> bool" where
  "contains p [] \<longleftrightarrow> p = []"
| "contains p (c # s) \<longleftrightarrow> starts_with p (c # s) \<or> contains p s"

text \<open>\<^verbatim>\<open>s.split(sep)\<close> with a one-character separator: never empty, and joining undoes it.\<close>

fun split_on :: "'a \<Rightarrow> 'a list \<Rightarrow> 'a list list" where
  "split_on c [] = [[]]"
| "split_on c (x # xs) =
     (if x = c then [] # split_on c xs
      else (case split_on c xs of [] \<Rightarrow> [[x]] | w # ws \<Rightarrow> (x # w) # ws))"

fun join_on :: "'a list \<Rightarrow> 'a list list \<Rightarrow> 'a list" where
  "join_on sep [] = []"
| "join_on sep [w] = w"
| "join_on sep (w # v # vs) = w @ sep @ join_on sep (v # vs)"

lemma split_on_not_Nil [simp]: "split_on c xs \<noteq> []"
  by (induction xs) (auto split: list.splits)

lemma join_on_split_on [simp]: "join_on [c] (split_on c xs) = xs"
proof (induction xs)
  case Nil
  then show ?case by simp
next
  case (Cons x xs)
  obtain w ws where ws: "split_on c xs = w # ws"
    by (cases "split_on c xs") auto
  with Cons show ?case by (cases ws) auto
qed

lemma split_on_no_sep: "w \<in> set (split_on c xs) \<Longrightarrow> c \<notin> set w"
proof (induction xs arbitrary: w)
  case Nil
  then show ?case by simp
next
  case (Cons x xs)
  obtain v vs where vs: "split_on c xs = v # vs"
    by (cases "split_on c xs") auto
  with Cons show ?case by (auto split: if_splits)
qed

lemma split_on_append_sep:
  "c \<notin> set w \<Longrightarrow> split_on c (w @ c # xs) = w # split_on c xs"
  by (induction w) auto

lemma split_on_single: "c \<notin> set w \<Longrightarrow> split_on c w = [w]"
  by (induction w) auto

text \<open>\<^verbatim>\<open>s.split()\<close> and \<^verbatim>\<open>s.strip()\<close> on ASCII white space.\<close>

definition is_space :: "char \<Rightarrow> bool" where
  "is_space c \<longleftrightarrow> of_char c \<in> {9, 10, 11, 12, 13, 28, 29, 30, 31, 32, 133, 160 :: nat}"

definition strip_left :: "string \<Rightarrow> string" where
  "strip_left = dropWhile is_space"

definition strip :: "string \<Rightarrow> string" where
  "strip s = rev (strip_left (rev (strip_left s)))"

fun words_acc :: "string \<Rightarrow> string \<Rightarrow> string list" where
  "words_acc acc [] = (if acc = [] then [] else [rev acc])"
| "words_acc acc (c # s) =
     (if is_space c then (if acc = [] then words_acc [] s else rev acc # words_acc [] s)
      else words_acc (c # acc) s)"

definition words :: "string \<Rightarrow> string list" where
  "words s = words_acc [] s"

text \<open>\<^verbatim>\<open>int(s)\<close> on a decimal string: optional white space and sign, then digits, with
  single underscores allowed between digits; anything else raises.\<close>

definition is_digit :: "char \<Rightarrow> bool" where
  "is_digit c \<longleftrightarrow> 48 \<le> (of_char c :: nat) \<and> (of_char c :: nat) \<le> 57"

definition digit_val :: "char \<Rightarrow> int" where
  "digit_val c = int (of_char c) - 48"

fun parse_digits :: "int \<Rightarrow> string \<Rightarrow> int option" where
  "parse_digits n [] = Some n"
| "parse_digits n (c # s) =
     (if is_digit c then parse_digits (10 * n + digit_val c) s
      else if c = CHR ''_'' then
        (case s of [] \<Rightarrow> None
         | d # s' \<Rightarrow> if is_digit d then parse_digits (10 * n + digit_val d) s' else None)
      else None)"

definition parse_nat :: "string \<Rightarrow> int option" where
  "parse_nat s =
     (case s of [] \<Rightarrow> None
      | c # s' \<Rightarrow> if is_digit c then parse_digits (digit_val c) s' else None)"

definition py_int :: "string \<Rightarrow> int option" where
  "py_int s =
     (case strip s of [] \<Rightarrow> None
      | c # s' \<Rightarrow> if c = CHR ''-'' then map_option uminus (parse_nat s')
                else if c = CHR ''+'' then parse_nat s'
                else parse_nat (c # s'))"

lemma parse_digits_nonneg: "0 \<le> n \<Longrightarrow> parse_digits n s = Some m \<Longrightarrow> 0 \<le> m"
proof (induction n s rule: parse_digits.induct)
  case (2 n c s)
  have "is_digit d \<Longrightarrow> 0 \<le> digit_val d" for d
    by (simp add: is_digit_def digit_val_def)
  with 2 show ?case by (auto split: if_splits list.splits)
qed simp

section \<open>Tables\<close>

text \<open>\<^verbatim>\<open>UPDATE t SET .. WHERE p\<close> and \<^verbatim>\<open>INSERT OR IGNORE\<close> with the given primary key.\<close>

definition sql_update :: "('r \<Rightarrow> bool) \<Rightarrow> ('r \<Rightarrow> 'r) \<Rightarrow> 'r list \<Rightarrow> 'r list" where
  "sql_update p f rows = map (\<lambda>r. if p r then f r else r) rows"

definition insert_or_ignore :: "('r \<Rightarrow> 'k) \<Rightarrow> 'r \<Rightarrow> 'r list \<Rightarrow> 'r list" where
  "insert_or_ignore key r rows =
     (if List.member (map key rows) (key r) then rows else rows @ [r])"

definition find_row :: "('r \<Rightarrow> 'k) \<Rightarrow> 'k \<Rightarrow> 'r list \<Rightarrow> 'r option" where
  "find_row key k rows = find (\<lambda>r. key r = k) rows"

definition unique_keys :: "('r \<Rightarrow> 'k) \<Rightarrow> 'r list \<Rightarrow> bool" where
  "unique_keys key rows \<longleftrightarrow> distinct (map key rows)"

lemma set_sql_update [sql_simps]:
  "set (sql_update p f rows) = {r \<in> set rows. \<not> p r} \<union> f ` {r \<in> set rows. p r}"
  by (auto simp: sql_update_def)

lemma sql_update_Nil [simp]: "sql_update p f [] = []"
  by (simp add: sql_update_def)

lemma sql_update_Cons [simp]:
  "sql_update p f (r # rows) = (if p r then f r else r) # sql_update p f rows"
  by (simp add: sql_update_def)

lemma length_sql_update [simp]: "length (sql_update p f rows) = length rows"
  by (simp add: sql_update_def)

lemma sql_update_False [simp]: "\<forall>r \<in> set rows. \<not> p r \<Longrightarrow> sql_update p f rows = rows"
  by (induction rows) auto

lemma map_sql_update [sql_simps]:
  "(\<And>r. g (f r) = g r) \<Longrightarrow> map g (sql_update p f rows) = map g rows"
  by (simp add: sql_update_def comp_def)

lemma set_insert_or_ignore [sql_simps]:
  "set (insert_or_ignore key r rows) =
     (if key r \<in> key ` set rows then set rows else insert r (set rows))"
  by (auto simp: insert_or_ignore_def)

lemma find_row_Some_set: "find_row key k rows = Some r \<Longrightarrow> r \<in> set rows \<and> key r = k"
  by (auto simp: find_row_def find_Some_iff)

lemma find_row_None [sql_simps]: "find_row key k rows = None \<longleftrightarrow> k \<notin> key ` set rows"
  by (auto simp: find_row_def find_None_iff)

lemma find_row_unique:
  "unique_keys key rows \<Longrightarrow> r \<in> set rows \<Longrightarrow> find_row key (key r) rows = Some r"
  unfolding find_row_def unique_keys_def
  by (induction rows) (auto simp: rev_image_eqI)

lemma unique_keysD:
  "unique_keys key rows \<Longrightarrow> r \<in> set rows \<Longrightarrow> s \<in> set rows \<Longrightarrow> key r = key s \<Longrightarrow> r = s"
  unfolding unique_keys_def by (meson distinct_map inj_onD)

lemma unique_keys_insert_or_ignore [intro]:
  "unique_keys key rows \<Longrightarrow> unique_keys key (insert_or_ignore key r rows)"
  by (auto simp: insert_or_ignore_def unique_keys_def)

lemma find_row_insert_or_ignore [sql_simps]:
  "find_row key k (insert_or_ignore key r rows) =
     (case find_row key k rows of Some s \<Rightarrow> Some s
      | None \<Rightarrow> if key r = k then Some r else None)"
proof -
  have app: "find P (xs @ [r]) = (case find P xs of Some s \<Rightarrow> Some s | None \<Rightarrow> if P r then Some r else None)"
    for P and xs by (induction xs) auto
  show ?thesis
    by (auto simp: insert_or_ignore_def find_row_def app split: option.splits)
      (auto simp: find_None_iff image_iff)
qed

text \<open>
  The contract of an update that keeps the primary key of a table: lookups by key commute
  with it and keys stay unique. Every table of the database interprets it on its own rows.
\<close>

locale keyed_update =
  fixes key :: "'r \<Rightarrow> 'k"
    and f :: "'r \<Rightarrow> 'r"
  assumes key_kept: "key (f r) = key r"
begin

lemma keys_kept: "map key (sql_update p f rows) = map key rows"
  by (rule map_sql_update) (rule key_kept)

lemma unique_kept: "unique_keys key rows \<Longrightarrow> unique_keys key (sql_update p f rows)"
  by (simp add: unique_keys_def keys_kept)

lemma find_row_update:
  "find_row key k (sql_update p f rows) =
     map_option (\<lambda>r. if p r then f r else r) (find_row key k rows)"
  unfolding find_row_def by (induction rows) (auto simp: key_kept)

lemma key_image_kept: "key ` set (sql_update p f rows) = key ` set rows"
  by (metis keys_kept list.set_map)

end

end
