(* ===== verification/Json.thy ===== *)
theory Json
  imports Prelude
begin

text \<open>
  JSON values as Python sees them after \<^verbatim>\<open>json.loads\<close>, the dictionary and list accesses the
  program makes on them (with the exceptions they raise), and the encoder
  \<^verbatim>\<open>encode\<close> of \<^verbatim>\<open>model.py\<close>: compact separators, sorted keys, ASCII output. Floats
  are rationals; their decimal text (\<^verbatim>\<open>float.__repr__\<close>) is a parameter of the encoder.
  The encoder is shown to be injective on values without floats whose keys are sorted and
  distinct, which is what the content hashes of the program rely on.
\<close>

datatype json =
    JNull
  | JBool bool
  | JInt int
  | JFloat rat
  | JStr string
  | JArr "json list"
  | JObj "(string \<times> json) list"

section \<open>Dictionary access\<close>

fun truthy :: "json \<Rightarrow> bool" where
  "truthy JNull = False"
| "truthy (JBool b) = b"
| "truthy (JInt n) = (n \<noteq> 0)"
| "truthy (JFloat x) = (x \<noteq> 0)"
| "truthy (JStr s) = (s \<noteq> [])"
| "truthy (JArr xs) = (xs \<noteq> [])"
| "truthy (JObj kvs) = (kvs \<noteq> [])"

definition truthy_opt :: "json option \<Rightarrow> bool" where
  "truthy_opt v = (case v of None \<Rightarrow> False | Some j \<Rightarrow> truthy j)"

text \<open>\<^verbatim>\<open>d.get(k)\<close> and \<^verbatim>\<open>d[k]\<close>; only a dictionary has them.\<close>

fun jitems :: "json \<Rightarrow> (string \<times> json) list result" where
  "jitems (JObj kvs) = Inr kvs"
| "jitems _ = Inl (AttributeError ''items'')"

fun jget :: "string \<Rightarrow> json \<Rightarrow> json option result" where
  "jget k (JObj kvs) = Inr (map_of kvs k)"
| "jget k _ = Inl (AttributeError ''get'')"

definition jindex :: "string \<Rightarrow> json \<Rightarrow> json result" where
  "jindex k d =
     (case d of
        JObj kvs \<Rightarrow> (case map_of kvs k of None \<Rightarrow> Inl (KeyError k) | Some v \<Rightarrow> Inr v)
      | _ \<Rightarrow> Inl (TypeError ''indices''))"

fun jstring :: "json \<Rightarrow> string result" where
  "jstring (JStr s) = Inr s"
| "jstring _ = Inl (AttributeError ''str'')"

text \<open>\<^verbatim>\<open>(d.get(k) or "")\<close> used as a string.\<close>

definition str_or_empty :: "json option \<Rightarrow> string result" where
  "str_or_empty v =
     (case v of None \<Rightarrow> Inr []
      | Some j \<Rightarrow> if truthy j then jstring j else Inr [])"

fun dict_set :: "string \<Rightarrow> 'v \<Rightarrow> (string \<times> 'v) list \<Rightarrow> (string \<times> 'v) list" where
  "dict_set k v [] = [(k, v)]"
| "dict_set k v ((k', v') # kvs) =
     (if k' = k then (k, v) # kvs else (k', v') # dict_set k v kvs)"

lemma map_of_dict_set [simp]: "map_of (dict_set k v kvs) = (map_of kvs)(k \<mapsto> v)"
  by (induction k v kvs rule: dict_set.induct) auto

lemma keys_dict_set: "fst ` set (dict_set k v kvs) = insert k (fst ` set kvs)"
  by (induction k v kvs rule: dict_set.induct) auto

lemma distinct_dict_set: "distinct (map fst kvs) \<Longrightarrow> distinct (map fst (dict_set k v kvs))"
  by (induction k v kvs rule: dict_set.induct) (auto simp: keys_dict_set)

section \<open>Encoding\<close>

definition hex_digit :: "nat \<Rightarrow> char" where
  "hex_digit n = (if n < 10 then char_of (48 + n) else char_of (87 + n))"

definition escape_char :: "char \<Rightarrow> string" where
  "escape_char c =
     (let n = of_char c :: nat in
      if n = 34 then [CHR 0x5C, CHR 0x22]
      else if n = 92 then [CHR 0x5C, CHR 0x5C]
      else if n = 10 then [CHR 0x5C, CHR ''n'']
      else if n = 13 then [CHR 0x5C, CHR ''r'']
      else if n = 9 then [CHR 0x5C, CHR ''t'']
      else if n = 8 then [CHR 0x5C, CHR ''b'']
      else if n = 12 then [CHR 0x5C, CHR ''f'']
      else if n < 32 \<or> 126 < n then
        CHR 0x5C # ''u00'' @ [hex_digit (n div 16), hex_digit (n mod 16)]
      else [c])"

definition encode_string :: "string \<Rightarrow> string" where
  "encode_string s = CHR 0x22 # concat (map escape_char s) @ [CHR 0x22]"

fun decimal :: "nat \<Rightarrow> string" where
  "decimal n = (if n < 10 then [char_of (48 + n)] else decimal (n div 10) @ [char_of (48 + n mod 10)])"

declare decimal.simps [simp del]

definition encode_int :: "int \<Rightarrow> string" where
  "encode_int n = (if n < 0 then CHR ''-'' # decimal (nat (- n)) else decimal (nat n))"

text \<open>\<^verbatim>\<open>json.dumps(value, sort_keys=.., separators=(item, key))\<close>.\<close>

fun dumps :: "(rat \<Rightarrow> string) \<Rightarrow> bool \<Rightarrow> string \<Rightarrow> string \<Rightarrow> json \<Rightarrow> string" where
  "dumps fl so isep ksep JNull = ''null''"
| "dumps fl so isep ksep (JBool b) = (if b then ''true'' else ''false'')"
| "dumps fl so isep ksep (JInt n) = encode_int n"
| "dumps fl so isep ksep (JFloat x) = fl x"
| "dumps fl so isep ksep (JStr s) = encode_string s"
| "dumps fl so isep ksep (JArr xs) =
     ''['' @ join_on isep (map (dumps fl so isep ksep) xs) @ '']''"
| "dumps fl so isep ksep (JObj kvs) =
     (let parts = map (\<lambda>(k, v). (k, dumps fl so isep ksep v)) kvs;
          parts' = (if so then sort_key fst parts else parts)
      in CHR 0x7B # join_on isep (map (\<lambda>(k, e). encode_string k @ ksep @ e) parts') @ [CHR 0x7D])"

definition encode :: "(rat \<Rightarrow> string) \<Rightarrow> json \<Rightarrow> string" where
  "encode fl v = dumps fl True '','' '':'' v"

definition identity :: "(string \<Rightarrow> string) \<Rightarrow> (rat \<Rightarrow> string) \<Rightarrow> json \<Rightarrow> string" where
  "identity sha256 fl v = sha256 (encode fl v)"

section \<open>Printable text\<close>

definition printable :: "char \<Rightarrow> bool" where
  "printable c \<longleftrightarrow> 32 \<le> (of_char c :: nat) \<and> (of_char c :: nat) \<le> 126"

text \<open>The JSON text of a value is printable ASCII.\<close>

lemma printable_hex: "n < 16 \<Longrightarrow> printable (hex_digit n)"
  by (auto simp: hex_digit_def printable_def)

lemma div16_char: "(of_char c :: nat) div 16 < 16"
  using nat_of_char_less_256 [of c] by (simp add: less_mult_imp_div_less)

lemma printable_escape: "d \<in> set (escape_char c) \<Longrightarrow> printable d"
  using printable_hex [OF div16_char, of c] printable_hex [of "of_char c mod 16"]
  by (auto simp: escape_char_def Let_def printable_def split: if_splits)

lemma printable_encode_string: "d \<in> set (encode_string s) \<Longrightarrow> printable d"
  using printable_escape by (auto simp: encode_string_def printable_def)

lemma printable_digit: "(n :: nat) < 10 \<Longrightarrow> printable (char_of (48 + n))"
  by (simp add: printable_def)

lemma printable_decimal: "d \<in> set (decimal n) \<Longrightarrow> printable d"
proof (induction n rule: decimal.induct)
  case (1 n)
  show ?case
  proof (cases "n < 10")
    case True
    with 1 show ?thesis by (subst (asm) decimal.simps) (auto simp: printable_digit)
  next
    case False
    with 1 show ?thesis by (subst (asm) (2) decimal.simps) (auto simp: printable_digit)
  qed
qed

lemma printable_encode_int: "d \<in> set (encode_int n) \<Longrightarrow> printable d"
  using printable_decimal by (auto simp: encode_int_def printable_def split: if_splits)

lemma set_join_on: "set (join_on sep ws) \<subseteq> set sep \<union> (\<Union>w \<in> set ws. set w)"
  by (induction sep ws rule: join_on.induct) auto

lemma printable_words: "list_all printable ''null''" "list_all printable ''true''" "list_all printable ''false''"
  by (simp_all add: printable_def)

lemma printable_list: "list_all printable (encode_int n)" "list_all printable (encode_string s)"
  by (simp_all add: list_all_iff printable_encode_int printable_encode_string)

lemma printable_dumps:
  assumes "\<forall>x. list_all printable (fl x)" and "list_all printable (isep @ ksep)"
  shows "list_all printable (dumps fl so isep ksep v)"
  using assms
proof (induction fl so isep ksep v rule: dumps.induct)
  case (6 fl so isep ksep xs)
  have "\<forall>w \<in> set (map (dumps fl so isep ksep) xs). list_all printable w" using 6 by auto
  then show ?case using set_join_on [of isep "map (dumps fl so isep ksep) xs"] 6(3)
    by (fastforce simp: list_all_iff printable_def)
next
  case (7 fl so isep ksep kvs)
  let ?parts = "map (\<lambda>(k, v). (k, dumps fl so isep ksep v)) kvs"
  define ps where "ps = (if so then sort_key fst ?parts else ?parts)"
  have "set ps = set ?parts" by (simp add: ps_def)
  then have "\<forall>(k, e) \<in> set ps. list_all printable e" using 7 by fastforce
  then have "\<forall>w \<in> set (map (\<lambda>(k, e). encode_string k @ ksep @ e) ps). list_all printable w"
    using 7(3) printable_encode_string by (auto simp: list_all_iff)
  then have "list_all printable (join_on isep (map (\<lambda>(k, e). encode_string k @ ksep @ e) ps))"
    using set_join_on [of isep "map (\<lambda>(k, e). encode_string k @ ksep @ e) ps"] 7(3) unfolding list_all_iff by fastforce
  moreover have "printable CHR 0x7B" "printable CHR 0x7D" by (simp_all add: printable_def)
  ultimately show ?case by (simp add: ps_def [symmetric] Let_def)
qed (use printable_words in \<open>auto simp: printable_list\<close>)

lemma printable_encode: "\<forall>x. list_all printable (fl x) \<Longrightarrow> list_all printable (encode fl v)"
  unfolding encode_def by (rule printable_dumps) (simp_all add: printable_def)

text \<open>On printable text the encoder escapes quotes and backslashes only.\<close>

lemma escape_printable:
  "printable c \<Longrightarrow> escape_char c = (if c = CHR 0x22 \<or> c = CHR 0x5C then [CHR 0x5C, c] else [c])"
proof -
  assume "printable c"
  moreover have "(of_char c :: nat) = 34 \<longleftrightarrow> c = CHR 0x22" "(of_char c :: nat) = 92 \<longleftrightarrow> c = CHR 0x5C"
    using of_char_eq_iff [of c "CHR 0x22", where 'a = nat] of_char_eq_iff [of c "CHR 0x5C", where 'a = nat] by simp_all
  ultimately show ?thesis by (auto simp: escape_char_def Let_def printable_def)
qed

section \<open>Encodings determine values\<close>

text \<open>Values without floats whose objects list their keys once and in order; such a value has one text.\<close>

fun canonical :: "json \<Rightarrow> bool" where
  "canonical (JFloat x) \<longleftrightarrow> False"
| "canonical (JArr xs) \<longleftrightarrow> list_all canonical xs"
| "canonical (JObj kvs) \<longleftrightarrow> sorted (map fst kvs) \<and> distinct (map fst kvs) \<and> list_all (\<lambda>(k, v). canonical v) kvs"
| "canonical _ \<longleftrightarrow> True"

lemma hex_digit_inj: "m < 16 \<Longrightarrow> n < 16 \<Longrightarrow> hex_digit m = hex_digit n \<Longrightarrow> m = n"
  by (auto simp: hex_digit_def char_of_eq_iff take_bit_eq_mod split: if_splits)

lemma char_nat_eq: "(of_char c :: nat) = of_char d \<Longrightarrow> c = d"
  by simp

lemma escape_shapes:
  obtains (plain) "escape_char c = [c]" "c \<noteq> CHR 0x22" "c \<noteq> CHR 0x5C"
  | (short) z where "escape_char c = [CHR 0x5C, z]" "z \<noteq> CHR ''u''" "map_of [(CHR 0x22, 34), (CHR 0x5C, 92), (CHR ''n'', 10), (CHR ''r'', 13), (CHR ''t'', 9), (CHR ''b'', 8), (CHR ''f'', 12)] z = Some (of_char c :: nat)"
  | (long) "escape_char c = CHR 0x5C # ''u00'' @ [hex_digit (of_char c div 16), hex_digit (of_char c mod 16)]"
proof -
  have "(of_char c :: nat) \<noteq> 34 \<Longrightarrow> c \<noteq> CHR 0x22" "(of_char c :: nat) \<noteq> 92 \<Longrightarrow> c \<noteq> CHR 0x5C" by auto
  note special = this
  consider (named) "(of_char c :: nat) \<in> {34, 92, 10, 13, 9, 8, 12}"
    | (hex) "(of_char c :: nat) \<notin> {34, 92, 10, 13, 9, 8, 12}" "(of_char c :: nat) < 32 \<or> 126 < (of_char c :: nat)"
    | (self) "(of_char c :: nat) \<notin> {34, 92, 10, 13, 9, 8, 12}" "\<not> ((of_char c :: nat) < 32 \<or> 126 < (of_char c :: nat))" by blast
  then show thesis
  proof cases
    case named
    then show thesis by (auto intro: short simp: escape_char_def)
  next
    case hex
    then have "escape_char c = CHR 0x5C # ''u00'' @ [hex_digit (of_char c div 16), hex_digit (of_char c mod 16)]"
      unfolding escape_char_def Let_def by (simp only: insert_iff empty_iff if_False if_True simp_thms de_Morgan_disj)
    then show thesis by (rule long)
  next
    case self
    then have "escape_char c = [c]" unfolding escape_char_def Let_def by (simp only: insert_iff empty_iff if_False simp_thms de_Morgan_disj)
    then show thesis using special self by (intro plain) auto
  qed
qed

lemma escape_char_prefix: "escape_char c @ u = escape_char d @ v \<Longrightarrow> c = d \<and> u = v"
proof -
  assume eq: "escape_char c @ u = escape_char d @ v"
  have hex: "c = d" if "hex_digit (of_char c div 16) = hex_digit (of_char d div 16)" "hex_digit (of_char c mod 16) = hex_digit (of_char d mod 16)"
  proof -
    have "(of_char c :: nat) div 16 < 16" "(of_char d :: nat) div 16 < 16"
      using nat_of_char_less_256 [of c] nat_of_char_less_256 [of d] by (simp_all add: less_mult_imp_div_less)
    then have "(of_char c :: nat) div 16 = of_char d div 16" "(of_char c :: nat) mod 16 = of_char d mod 16"
      using that hex_digit_inj by auto
    then have "(of_char c :: nat) = of_char d" by (metis div_mult_mod_eq)
    then show ?thesis by (rule char_nat_eq)
  qed
  show ?thesis
    by (rule escape_shapes [of c]; rule escape_shapes [of d]) (use eq hex char_nat_eq [of c d] in auto)
qed

lemma escape_char_head: "escape_char c = z # s \<Longrightarrow> z \<noteq> CHR 0x22"
  by (rule escape_shapes [of c]) auto

lemma escape_not_Nil: "escape_char c \<noteq> []"
  by (rule escape_shapes [of c]) auto

lemma escaped_prefix:
  "concat (map escape_char s) @ CHR 0x22 # x = concat (map escape_char t) @ CHR 0x22 # y \<Longrightarrow> s = t \<and> x = y"
proof (induction s arbitrary: t)
  case Nil
  show ?case
  proof (cases t)
    case (Cons d t')
    obtain z r where "escape_char d = z # r" using escape_not_Nil by (cases "escape_char d") auto
    with Nil Cons escape_char_head [of d] show ?thesis by auto
  qed (use Nil in simp)
next
  case (Cons c s)
  show ?case
  proof (cases t)
    case Nil
    obtain z r where "escape_char c = z # r" using escape_not_Nil by (cases "escape_char c") auto
    with Nil Cons escape_char_head [of c] show ?thesis by auto
  next
    case (Cons d t')
    with Cons.prems have "escape_char c @ (concat (map escape_char s) @ CHR 0x22 # x) = escape_char d @ (concat (map escape_char t') @ CHR 0x22 # y)" by simp
    from escape_char_prefix [OF this] Cons.IH [of t'] Cons show ?thesis by auto
  qed
qed

lemma encode_string_prefix: "encode_string s @ x = encode_string t @ y \<Longrightarrow> s = t \<and> x = y"
  by (rule escaped_prefix) (simp add: encode_string_def)

lemma decimal_not_Nil: "decimal n \<noteq> []"
  by (subst decimal.simps) simp

lemma decimal_digits: "list_all is_digit (decimal n)"
proof (induction n rule: decimal.induct)
  case (1 n)
  have "is_digit (char_of (48 + k))" if "k < 10" for k :: nat using that by (simp add: is_digit_def)
  with 1 show ?case by (subst decimal.simps) simp
qed

lemma decimal_inj: "decimal m = decimal n \<Longrightarrow> m = n"
proof (induction m arbitrary: n rule: decimal.induct)
  case (1 m)
  have digit: "char_of (48 + a) = (char_of (48 + b) :: char) \<Longrightarrow> a < 10 \<Longrightarrow> b < 10 \<Longrightarrow> a = b" for a b :: nat
    by (simp add: char_of_eq_iff take_bit_eq_mod)
  have e: "(if m < 10 then [char_of (48 + m)] else decimal (m div 10) @ [char_of (48 + m mod 10)])
     = (if n < 10 then [char_of (48 + n)] else decimal (n div 10) @ [char_of (48 + n mod 10)])"
    using 1(2) by (subst (asm) (1 2) decimal.simps)
  show ?case
  proof (cases "m < 10"; cases "n < 10")
    assume "\<not> m < 10" "\<not> n < 10"
    then have "m div 10 = n div 10" "m mod 10 = n mod 10" using e 1(1) digit [of "m mod 10" "n mod 10"] by auto
    then show ?thesis by (metis div_mult_mod_eq)
  qed (use e digit [of m n] decimal_not_Nil [of "n div 10"] decimal_not_Nil [of "m div 10"] in auto)
qed

definition ends_number :: "string \<Rightarrow> bool" where
  "ends_number x \<longleftrightarrow> x = [] \<or> \<not> is_digit (hd x)"

lemma digits_prefix:
  assumes "list_all is_digit a" and "list_all is_digit b" and "ends_number x" and "ends_number y" and "a @ x = b @ y"
  shows "a = b \<and> x = y"
proof -
  have "takeWhile is_digit (l @ r) = l" if "list_all is_digit l" and "ends_number r" for l r
    using that by (cases r) (simp_all add: takeWhile_append2 list_all_iff ends_number_def takeWhile_tail)
  then have "a = b" using assms by metis
  then show ?thesis using assms(5) by simp
qed

lemma encode_int_prefix:
  assumes "ends_number x" and "ends_number y" and "encode_int m @ x = encode_int n @ y"
  shows "m = n \<and> x = y"
proof -
  have first: "\<exists>c s. decimal k = c # s \<and> c \<noteq> CHR ''-''" for k
    using decimal_not_Nil [of k] decimal_digits [of k] by (cases "decimal k") (auto simp: is_digit_def)
  have nat: "decimal j @ x = decimal k @ y \<Longrightarrow> j = k \<and> x = y" for j k
    using digits_prefix [OF decimal_digits decimal_digits assms(1,2)] decimal_inj by blast
  show ?thesis
  proof (cases "m < 0"; cases "n < 0")
    assume "m < 0" "n < 0"
    then show ?thesis using assms(3) nat [of "nat (- m)" "nat (- n)"] by (auto simp: encode_int_def eq_nat_nat_iff)
  next
    assume "m < 0" "\<not> n < 0"
    then show ?thesis using assms(3) first [of "nat n"] by (auto simp: encode_int_def)
  next
    assume "\<not> m < 0" "n < 0"
    then show ?thesis using assms(3) first [of "nat m"] by (auto simp: encode_int_def)
  next
    assume "\<not> m < 0" "\<not> n < 0"
    then show ?thesis using assms(3) nat [of "nat m" "nat n"] by (auto simp: encode_int_def eq_nat_nat_iff)
  qed
qed

lemma join_on_Cons: "join_on sep (w # ws) = w @ (if ws = [] then [] else sep @ join_on sep ws)"
  by (cases ws) simp_all

text \<open>Lists of self-delimiting texts, separated by commas and closed by a bracket.\<close>

lemma join_prefix:
  assumes "\<And>a b x y. a \<in> set xs \<Longrightarrow> b \<in> set ys \<Longrightarrow> ends_number x \<Longrightarrow> ends_number y \<Longrightarrow> f a @ x = f b @ y \<Longrightarrow> a = b \<and> x = y"
    and "\<And>a. a \<in> set xs \<union> set ys \<Longrightarrow> f a \<noteq> [] \<and> hd (f a) \<noteq> cl" and "\<not> is_digit cl" and "cl \<noteq> CHR '',''"
    and "join_on '','' (map f xs) @ cl # x = join_on '','' (map f ys) @ cl # y"
  shows "xs = ys \<and> x = y"
  using assms
proof (induction xs arbitrary: ys)
  case Nil
  show ?case
  proof (cases ys)
    case (Cons b bs)
    then have "f b \<noteq> []" "hd (f b) \<noteq> cl" using Nil(2) [of b] by simp_all
    with Nil(5) Cons show ?thesis by (cases "f b") (auto simp: join_on_Cons)
  qed (use Nil in simp)
next
  case (Cons a as)
  show ?case
  proof (cases ys)
    case Nil
    have "f a \<noteq> []" "hd (f a) \<noteq> cl" using Cons.prems(2) [of a] by simp_all
    with Cons.prems(5) Nil show ?thesis by (cases "f a") (auto simp: join_on_Cons)
  next
    case ys: (Cons b bs)
    define rest where "rest zs z = (if zs = [] then [] else '','' @ join_on '','' (map f zs)) @ cl # z" for zs z
    have ends: "ends_number (rest zs z)" for zs z
      using Cons.prems(3) by (simp add: rest_def ends_number_def is_digit_def)
    have "f a @ rest as x = f b @ rest bs y"
      using Cons.prems(5) by (simp add: ys join_on_Cons rest_def)
    then have ab: "a = b" and r: "rest as x = rest bs y"
      using Cons.prems(1) [of a b, OF _ _ ends ends] by (simp_all add: ys)
    have "join_on '','' (map f as) @ cl # x = join_on '','' (map f bs) @ cl # y"
      using r Cons.prems(4) by (auto simp: rest_def split: if_splits)
    from Cons.IH [OF _ _ Cons.prems(3,4) this] Cons.prems(1,2) ab show ?thesis by (auto simp: ys)
  qed
qed

lemma encode_arr: "encode fl (JArr xs) = CHR ''['' # join_on '','' (map (encode fl) xs) @ [CHR '']'']"
  by (simp add: encode_def [abs_def])

lemma encode_obj:
  assumes "canonical (JObj kvs)"
  shows "encode fl (JObj kvs) = CHR 0x7B # join_on '','' (map (\<lambda>(k, v). encode_string k @ '':'' @ encode fl v) kvs) @ [CHR 0x7D]"
proof -
  let ?parts = "map (\<lambda>(k, v). (k, dumps fl True '','' '':'' v)) kvs"
  have "map fst ?parts = map fst kvs" by (simp add: comp_def case_prod_beta)
  then have "sorted (map fst ?parts)" using assms by (simp only: canonical.simps)
  then have "sort_key fst ?parts = ?parts" by (rule sort_key_id_if_sorted)
  then show ?thesis by (simp add: encode_def comp_def case_prod_unfold)
qed

lemma encode_head:
  assumes "canonical v"
  shows "encode fl v \<noteq> [] \<and> hd (encode fl v) \<notin> {CHR '']'', CHR 0x7D, CHR '',''}"
proof (cases v)
  case (JInt n)
  have "decimal k \<noteq> [] \<and> hd (decimal k) \<notin> {CHR '']'', CHR 0x7D, CHR '',''}" for k
    using decimal_not_Nil [of k] decimal_digits [of k] by (cases "decimal k") (auto simp: is_digit_def)
  then show ?thesis by (auto simp: encode_def JInt encode_int_def)
qed (use assms in \<open>auto simp: encode_arr encode_obj encode_string_def encode_def split: if_splits\<close>)

definition self_delimiting :: "(rat \<Rightarrow> string) \<Rightarrow> json \<Rightarrow> bool" where
  "self_delimiting fl v \<longleftrightarrow> (\<forall>w x y. canonical v \<longrightarrow> canonical w \<longrightarrow> ends_number x \<longrightarrow> ends_number y \<longrightarrow>
     encode fl v @ x = encode fl w @ y \<longrightarrow> v = w \<and> x = y)"

text \<open>The first character tells which kind of value follows.\<close>

definition tag :: "json \<Rightarrow> char \<Rightarrow> bool" where
  "tag v c = (case v of JNull \<Rightarrow> c = CHR ''n'' | JBool b \<Rightarrow> c = (if b then CHR ''t'' else CHR ''f'') | JInt n \<Rightarrow> is_digit c \<or> c = CHR ''-''
     | JFloat _ \<Rightarrow> False | JStr _ \<Rightarrow> c = CHR 0x22 | JArr _ \<Rightarrow> c = CHR ''['' | JObj _ \<Rightarrow> c = CHR 0x7B)"

lemma encode_tag:
  assumes "canonical v"
  shows "tag v (hd (encode fl v @ x))"
proof (cases v)
  case (JInt n)
  have "decimal k \<noteq> [] \<and> is_digit (hd (decimal k))" for k
    using decimal_not_Nil [of k] decimal_digits [of k] by (cases "decimal k") auto
  then show ?thesis by (auto simp: encode_def JInt encode_int_def tag_def)
qed (use assms in \<open>auto simp: encode_arr encode_obj encode_string_def encode_def tag_def split: if_splits\<close>)

lemma tag_eq: "tag v c \<Longrightarrow> tag w c \<Longrightarrow>
   (v = JNull \<and> w = JNull) \<or> (\<exists>b. v = JBool b \<and> w = JBool b) \<or> (\<exists>m n. v = JInt m \<and> w = JInt n) \<or> (\<exists>s t. v = JStr s \<and> w = JStr t)
   \<or> (\<exists>xs ys. v = JArr xs \<and> w = JArr ys) \<or> (\<exists>kvs lws. v = JObj kvs \<and> w = JObj lws)"
  by (cases v; cases w) (auto simp: tag_def is_digit_def split: if_splits)

lemma encode_delimits: "self_delimiting fl v"
proof (induction v)
  case (JArr xs)
  show ?case unfolding self_delimiting_def
  proof (intro allI impI)
    fix w x y assume c: "canonical (JArr xs)" "canonical w" and e: "ends_number x" "ends_number y"
      and eq: "encode fl (JArr xs) @ x = encode fl w @ y"
    then obtain ys where w: "w = JArr ys"
      using tag_eq [OF encode_tag [OF c(1), of fl x], of w] encode_tag [OF c(2), of fl y] by auto
    have "xs = ys \<and> x = y"
    proof (rule join_prefix [where f = "encode fl" and cl = "CHR '']''"])
      show "a = b \<and> u = v" if "a \<in> set xs" "b \<in> set ys" "ends_number u" "ends_number v" "encode fl a @ u = encode fl b @ v" for a b u v
      proof -
        have "canonical a" "canonical b" using that c by (auto simp: w list_all_iff)
        then show ?thesis using JArr [OF that(1)] that(3-5) unfolding self_delimiting_def by blast
      qed
    qed (use c eq encode_head in \<open>auto simp: w encode_arr list_all_iff is_digit_def\<close>)
    then show "JArr xs = w \<and> x = y" by (simp add: w)
  qed
next
  case (JObj kvs)
  show ?case unfolding self_delimiting_def
  proof (intro allI impI)
    fix w x y assume c: "canonical (JObj kvs)" "canonical w" and e: "ends_number x" "ends_number y"
      and eq: "encode fl (JObj kvs) @ x = encode fl w @ y"
    then obtain lws where w: "w = JObj lws"
      using tag_eq [OF encode_tag [OF c(1), of fl x], of w] encode_tag [OF c(2), of fl y] by auto
    have "kvs = lws \<and> x = y"
    proof (rule join_prefix [where f = "\<lambda>(k, v). encode_string k @ '':'' @ encode fl v" and cl = "CHR 0x7D"])
      show "a = b \<and> u = v" if m: "a \<in> set kvs" "b \<in> set lws" and n: "ends_number u" "ends_number v"
        and q: "(case a of (k, v) \<Rightarrow> encode_string k @ '':'' @ encode fl v) @ u = (case b of (k, v) \<Rightarrow> encode_string k @ '':'' @ encode fl v) @ v" for a b u v
      proof -
        obtain k j l i where ab: "a = (k, j)" "b = (l, i)" by (cases a; cases b) blast
        have s: "self_delimiting fl j" using JObj [of a j] m(1) by (simp add: ab)
        have cj: "canonical j" "canonical i" using c m by (auto simp: w ab list_all_iff)
        have "k = l \<and> '':'' @ encode fl j @ u = '':'' @ encode fl i @ v"
          by (rule encode_string_prefix) (use q in \<open>simp add: ab\<close>)
        then show ?thesis using s cj n by (auto simp: ab self_delimiting_def)
      qed
    qed (use c eq in \<open>auto simp: w encode_obj is_digit_def encode_string_def\<close>)
    then show "JObj kvs = w \<and> x = y" by (simp add: w)
  qed
next
  case (JInt m)
  show ?case unfolding self_delimiting_def
  proof (intro allI impI)
    fix w x y assume c: "canonical w" and e: "ends_number x" "ends_number y" and eq: "encode fl (JInt m) @ x = encode fl w @ y"
    then obtain n where "w = JInt n"
      using tag_eq [OF encode_tag [of "JInt m" fl x], of w] encode_tag [OF c, of fl y] by auto
    then show "JInt m = w \<and> x = y" using encode_int_prefix [OF e, of m n] eq by (simp add: encode_def)
  qed
next
  case (JStr s)
  show ?case unfolding self_delimiting_def
  proof (intro allI impI)
    fix w x y assume c: "canonical w" and eq: "encode fl (JStr s) @ x = encode fl w @ y"
    then obtain t where "w = JStr t"
      using tag_eq [OF encode_tag [of "JStr s" fl x], of w] encode_tag [OF c, of fl y] by auto
    then show "JStr s = w \<and> x = y" using encode_string_prefix [of s x t y] eq by (simp add: encode_def)
  qed
next
  case JNull
  show ?case unfolding self_delimiting_def
  proof (intro allI impI)
    fix w x y assume c: "canonical w" and eq: "encode fl JNull @ x = encode fl w @ y"
    then have "w = JNull" using tag_eq [OF encode_tag [of JNull fl x], of w] encode_tag [OF c, of fl y] by auto
    then show "JNull = w \<and> x = y" using eq by (simp add: encode_def)
  qed
next
  case (JBool b)
  show ?case unfolding self_delimiting_def
  proof (intro allI impI)
    fix w x y assume c: "canonical w" and eq: "encode fl (JBool b) @ x = encode fl w @ y"
    then have "w = JBool b" using tag_eq [OF encode_tag [of "JBool b" fl x], of w] encode_tag [OF c, of fl y] by auto
    then show "JBool b = w \<and> x = y" using eq by (simp add: encode_def)
  qed
qed (simp add: self_delimiting_def)

lemma encode_inj: "canonical v \<Longrightarrow> canonical w \<Longrightarrow> encode fl v = encode fl w \<Longrightarrow> v = w"
  using encode_delimits [of fl v] by (auto simp: self_delimiting_def ends_number_def)

end
