(* ===== verification/Regex.thy ===== *)
theory Regex
  imports Prelude
begin

text \<open>
  The part of Python's \<^verbatim>\<open>re\<close> that the program uses: language membership
  (\<^verbatim>\<open>fullmatch\<close>), anchored prefix matching (\<^verbatim>\<open>match\<close>), and leftmost search with a greedy
  group (\<^verbatim>\<open>search\<close>). Patterns are a datatype with intersection and complement, so a
  negative lookahead \<^verbatim>\<open>(?!r)\<close> in front of a pattern is an intersection. Matching is by
  derivatives, and is shown to decide the language of the pattern.
\<close>

datatype rx =
    REmpty
  | REps
  | RChar "char \<Rightarrow> bool"
  | RAlt rx rx
  | RSeq rx rx
  | RStar rx
  | RAnd rx rx
  | RNot rx

inductive_set star :: "string set \<Rightarrow> string set" for L where
  star_Nil [intro, simp]: "[] \<in> star L"
| star_app [intro]: "u \<in> L \<Longrightarrow> v \<in> star L \<Longrightarrow> u @ v \<in> star L"

fun lang :: "rx \<Rightarrow> string set" where
  "lang REmpty = {}"
| "lang REps = {[]}"
| "lang (RChar P) = {[c] | c. P c}"
| "lang (RAlt r s) = lang r \<union> lang s"
| "lang (RSeq r s) = {u @ v | u v. u \<in> lang r \<and> v \<in> lang s}"
| "lang (RStar r) = star (lang r)"
| "lang (RAnd r s) = lang r \<inter> lang s"
| "lang (RNot r) = - lang r"

fun nullable :: "rx \<Rightarrow> bool" where
  "nullable REmpty = False"
| "nullable REps = True"
| "nullable (RChar P) = False"
| "nullable (RAlt r s) = (nullable r \<or> nullable s)"
| "nullable (RSeq r s) = (nullable r \<and> nullable s)"
| "nullable (RStar r) = True"
| "nullable (RAnd r s) = (nullable r \<and> nullable s)"
| "nullable (RNot r) = (\<not> nullable r)"

text \<open>Smart constructors keep derivatives small; they do not change the language.\<close>

fun ralt :: "rx \<Rightarrow> rx \<Rightarrow> rx" where
  "ralt REmpty s = s"
| "ralt r REmpty = r"
| "ralt r s = RAlt r s"

fun rseq :: "rx \<Rightarrow> rx \<Rightarrow> rx" where
  "rseq REmpty s = REmpty"
| "rseq REps s = s"
| "rseq r s = RSeq r s"

fun deriv :: "char \<Rightarrow> rx \<Rightarrow> rx" where
  "deriv c REmpty = REmpty"
| "deriv c REps = REmpty"
| "deriv c (RChar P) = (if P c then REps else REmpty)"
| "deriv c (RAlt r s) = ralt (deriv c r) (deriv c s)"
| "deriv c (RSeq r s) =
     (if nullable r then ralt (rseq (deriv c r) s) (deriv c s) else rseq (deriv c r) s)"
| "deriv c (RStar r) = rseq (deriv c r) (RStar r)"
| "deriv c (RAnd r s) = RAnd (deriv c r) (deriv c s)"
| "deriv c (RNot r) = RNot (deriv c r)"

fun fullmatch :: "rx \<Rightarrow> string \<Rightarrow> bool" where
  "fullmatch r [] = nullable r"
| "fullmatch r (c # s) = fullmatch (deriv c r) s"

definition any_char :: rx where
  "any_char = RChar (\<lambda>c. c \<noteq> CHR ''\<newline>'')"

definition rany :: rx where
  "rany = RStar (RChar (\<lambda>_. True))"

text \<open>\<^verbatim>\<open>p.match(s)\<close>: some prefix of the string is in the language.\<close>

definition prefix_match :: "rx \<Rightarrow> string \<Rightarrow> bool" where
  "prefix_match r s \<longleftrightarrow> fullmatch (RSeq r rany) s"

text \<open>The longest prefix in the language, with what remains of the string.\<close>

fun longest :: "rx \<Rightarrow> string \<Rightarrow> string option" where
  "longest r [] = (if nullable r then Some [] else None)"
| "longest r (c # s) =
     (case longest (deriv c r) s of
        Some w \<Rightarrow> Some (c # w)
      | None \<Rightarrow> if nullable r then Some [] else None)"

text \<open>\<^verbatim>\<open>p.search(s).group()\<close> for a pattern whose greedy match is its longest one.\<close>

fun search_group :: "rx \<Rightarrow> string \<Rightarrow> string option" where
  "search_group r [] = longest r []"
| "search_group r (c # s) =
     (case longest r (c # s) of Some w \<Rightarrow> Some w | None \<Rightarrow> search_group r s)"

fun rlit :: "string \<Rightarrow> rx" where
  "rlit [] = REps"
| "rlit [c] = RChar (\<lambda>d. d = c)"
| "rlit (c # s) = RSeq (RChar (\<lambda>d. d = c)) (rlit s)"

fun rrep :: "nat \<Rightarrow> rx \<Rightarrow> rx" where
  "rrep 0 r = REps"
| "rrep (Suc n) r = RSeq r (rrep n r)"

definition rplus :: "rx \<Rightarrow> rx" where
  "rplus r = RSeq r (RStar r)"

fun ralts :: "rx list \<Rightarrow> rx" where
  "ralts [] = REmpty"
| "ralts [r] = r"
| "ralts (r # rs) = RAlt r (ralts rs)"

fun rseqs :: "rx list \<Rightarrow> rx" where
  "rseqs [] = REps"
| "rseqs [r] = r"
| "rseqs (r # rs) = RSeq r (rseqs rs)"

section \<open>Matching decides the language\<close>

lemma nullable_iff: "nullable r \<longleftrightarrow> [] \<in> lang r"
  by (induction r) auto

lemma lang_ralt [simp]: "lang (ralt r s) = lang r \<union> lang s"
  by (induction r s rule: ralt.induct) auto

lemma lang_rseq [simp]: "lang (rseq r s) = {u @ v | u v. u \<in> lang r \<and> v \<in> lang s}"
  by (induction r s rule: rseq.induct) auto

lemma star_ConsD:
  assumes "w \<in> star L" and "w = c # s"
  obtains u v where "s = u @ v" and "c # u \<in> L" and "v \<in> star L"
proof -
  have "\<exists>u v. s = u @ v \<and> c # u \<in> L \<and> v \<in> star L" using assms
  proof (induction arbitrary: s rule: star.induct)
    case star_Nil
    then show ?case by simp
  next
    case (star_app u v)
    then show ?case by (cases u) auto
  qed
  then show ?thesis using that by blast
qed

lemma star_Cons_iff: "c # s \<in> star L \<longleftrightarrow> (\<exists>u v. s = u @ v \<and> c # u \<in> L \<and> v \<in> star L)"
proof
  show "\<exists>u v. s = u @ v \<and> c # u \<in> L \<and> v \<in> star L \<Longrightarrow> c # s \<in> star L"
    by (metis append_Cons star.star_app)
qed (metis star_ConsD)

lemma seq_Cons_iff:
  "(\<exists>u v. c # s = u @ v \<and> u \<in> A \<and> v \<in> B) \<longleftrightarrow>
     (\<exists>u v. s = u @ v \<and> c # u \<in> A \<and> v \<in> B) \<or> ([] \<in> A \<and> c # s \<in> B)"
  by (auto simp: Cons_eq_append_conv)

lemma deriv_iff: "s \<in> lang (deriv c r) \<longleftrightarrow> c # s \<in> lang r"
proof (induction r arbitrary: s)
  case (RSeq r1 r2)
  then show ?case
    by (auto simp: seq_Cons_iff nullable_iff)
next
  case (RStar r)
  then show ?case by (auto simp: star_Cons_iff)
qed auto

theorem fullmatch_iff: "fullmatch r s \<longleftrightarrow> s \<in> lang r"
  by (induction r s rule: fullmatch.induct) (simp_all add: nullable_iff deriv_iff)

lemma lang_rany [simp]: "lang rany = UNIV"
proof -
  have "s \<in> star {[c] | c. True}" for s :: string
  proof (induction s)
    case (Cons c s)
    then have "[c] @ s \<in> star {[c] | c. True}" by (intro star.star_app) auto
    then show ?case by simp
  qed simp
  then show ?thesis by (auto simp: rany_def)
qed

theorem prefix_match_iff: "prefix_match r s \<longleftrightarrow> (\<exists>u v. s = u @ v \<and> u \<in> lang r)"
  by (auto simp: prefix_match_def fullmatch_iff)

lemma longest_sound: "longest r s = Some w \<Longrightarrow> w \<in> lang r \<and> (\<exists>v. s = w @ v)"
  by (induction r s arbitrary: w rule: longest.induct)
    (auto simp: nullable_iff deriv_iff split: option.splits if_splits)

lemma longest_None: "longest r s = None \<longleftrightarrow> (\<forall>u v. s = u @ v \<longrightarrow> u \<notin> lang r)"
proof (induction r s rule: longest.induct)
  case (2 r c s)
  have "(\<forall>u v. c # s = u @ v \<longrightarrow> u \<notin> lang r) \<longleftrightarrow>
    [] \<notin> lang r \<and> (\<forall>u v. s = u @ v \<longrightarrow> c # u \<notin> lang r)"
    by (auto simp: Cons_eq_append_conv)
  with 2 show ?case by (auto simp: nullable_iff deriv_iff split: option.splits)
qed (simp add: nullable_iff)

lemma longest_is_longest:
  "longest r s = Some w \<Longrightarrow> s = u @ v \<Longrightarrow> u \<in> lang r \<Longrightarrow> length u \<le> length w"
proof (induction r s arbitrary: w u rule: longest.induct)
  case (2 r c s)
  show ?case
  proof (cases u)
    case (Cons d u')
    with 2 have u': "s = u' @ v" "u' \<in> lang (deriv c r)" by (auto simp: deriv_iff)
    then obtain w' where "longest (deriv c r) s = Some w'"
      using longest_None [of "deriv c r" s] by fastforce
    with 2 u' Cons show ?thesis by auto
  qed simp
qed auto

lemma search_group_sound:
  "search_group r s = Some w \<Longrightarrow> w \<in> lang r \<and> (\<exists>u v. s = u @ w @ v)"
proof (induction r s rule: search_group.induct)
  case (1 r)
  then have "longest r [] = Some w" by simp
  then show ?case using longest_sound by force
next
  case (2 r c s)
  show ?case
  proof (cases "longest r (c # s)")
    case None
    with 2(2) have "search_group r s = Some w" by (simp del: longest.simps)
    with 2(1) [OF None] obtain u v where "w \<in> lang r" "s = u @ w @ v" by blast
    then have "c # s = (c # u) @ w @ v" by simp
    with \<open>w \<in> lang r\<close> show ?thesis by blast
  next
    case (Some x)
    with 2(2) have "longest r (c # s) = Some w" by (simp del: longest.simps)
    from longest_sound [OF this] obtain v where "w \<in> lang r" "c # s = [] @ w @ v" by auto
    then show ?thesis by blast
  qed
qed

lemma infix_Cons:
  "(\<forall>u w v. c # s = u @ w @ v \<longrightarrow> w \<notin> L) \<longleftrightarrow>
     (\<forall>w v. c # s = w @ v \<longrightarrow> w \<notin> L) \<and> (\<forall>u w v. s = u @ w @ v \<longrightarrow> w \<notin> L)"
proof (intro iffI conjI allI impI)
  fix u w v
  assume *: "(\<forall>w v. c # s = w @ v \<longrightarrow> w \<notin> L) \<and> (\<forall>u w v. s = u @ w @ v \<longrightarrow> w \<notin> L)"
    and "c # s = u @ w @ v"
  then show "w \<notin> L" by (cases u) auto
qed (metis append_Nil, metis append_Cons)

lemma search_group_None:
  "search_group r s = None \<longleftrightarrow> (\<forall>u w v. s = u @ w @ v \<longrightarrow> w \<notin> lang r)"
proof (induction r s rule: search_group.induct)
  case (1 r)
  then show ?case by (simp add: nullable_iff)
next
  case (2 r c s)
  have "search_group r (c # s) = None \<longleftrightarrow> longest r (c # s) = None \<and> search_group r s = None"
    by (simp del: longest.simps split: option.splits)
  also have "\<dots> \<longleftrightarrow> longest r (c # s) = None \<and> (\<forall>u w v. s = u @ w @ v \<longrightarrow> w \<notin> lang r)"
    using 2 by (auto simp del: longest.simps)
  also have "\<dots> \<longleftrightarrow> (\<forall>u w v. c # s = u @ w @ v \<longrightarrow> w \<notin> lang r)"
    by (simp only: longest_None infix_Cons)
  finally show ?case .
qed

lemma lang_rlit [simp]: "lang (rlit s) = {s}"
  by (induction s rule: rlit.induct) auto

end
