(* ===== verification/Scope.thy ===== *)
theory Scope
  imports Json Regex
begin

text \<open>
  Scope exclusions (\<^verbatim>\<open>experiment/scope.py\<close>): which derivations the campaign leaves out by
  policy. Kernels are recognised by their metadata or their builder's flags, compilers,
  JavaScript engines and shared-memory servers by name patterns.
\<close>

definition REASON :: string where
  "REASON = ''Linux kernel; outside the Fil-C userspace runtime''"

definition TOOLCHAIN_REASON :: string where
  "TOOLCHAIN_REASON = ''Compiler toolchain (rustc, GCC, LLVM, Go) built for or targeting Fil-C; outside the experiment, since filcc is the Fil-C compiler''"

definition INHERITED :: string where
  "INHERITED = ''Depends on a derivation outside the experiment'' @ [CHR 0x27] @ ''s scope''"

definition V8_REASON :: string where
  "V8_REASON = ''V8 or Chromium (Node.js, Electron, QtWebEngine); a JIT JavaScript engine outside the experiment'' @ [CHR 0x27] @ ''s scope''"

definition SHARED_MEMORY_REASON :: string where
  "SHARED_MEMORY_REASON = ''Multi-process server sharing pointer-containing memory between processes (PostgreSQL server, Apache httpd, nginx); outside the experiment'' @ [CHR 0x27] @ ''s scope''"

definition FILC :: string where
  "FILC = ''x86_64-unknown-linux-gnufilc0''"

definition rdigit :: rx where
  "rdigit = RChar is_digit"

definition names :: "string list \<Rightarrow> rx" where
  "names ns = ralts (map rlit ns)"

definition gcc_names :: rx where
  "gcc_names = names [''gcc'', ''gfortran'', ''gnat'', ''gccgo'', ''gdc'']"

text \<open>The last alternative is anchored by \<^verbatim>\<open>$\<close>, which also matches before a final newline; the
  prefix match of the others continues with anything.\<close>

definition TOOLCHAIN_NAME :: "string \<Rightarrow> bool" where
  "TOOLCHAIN_NAME name \<longleftrightarrow>
     prefix_match
       (RSeq (RAlt (rseqs [rlit (FILC @ ''-''), gcc_names])
                   (rseqs [names [''llvm'', ''clang'', ''compiler-rt'', ''compiler-rt-libc'', ''lld'', ''mlir'',
                                  ''libclang'', ''clang-tools'', ''libllvm'', ''polly'', ''openmp''],
                           rlit (''-'' @ FILC)]))
             (RSeq (rlit ''-'') rdigit)) name
     \<or> fullmatch
       (rseqs [gcc_names, rlit ''-'', rdigit, RStar (RChar (\<lambda>c. c \<noteq> CHR ''-'')), rlit (''-'' @ FILC),
               RAlt REps (RChar (\<lambda>c. c = CHR ''\<newline>''))]) name"

text \<open>\<^verbatim>\<open>^(?!.*-source)(?:..)-FILC-\d\<close>: no \<^verbatim>\<open>-source\<close> on the first line, then the pattern.\<close>

definition no_source :: rx where
  "no_source = RNot (rseqs [RStar any_char, rlit ''-source'', rany])"

definition scoped_name :: "string list \<Rightarrow> string \<Rightarrow> bool" where
  "scoped_name ns name \<longleftrightarrow>
     fullmatch (RAnd no_source (rseqs [names ns, rlit (''-'' @ FILC @ ''-''), rdigit, rany])) name"

definition V8_NAME :: "string \<Rightarrow> bool" where
  "V8_NAME = scoped_name [''nodejs'', ''nodejs-slim'', ''electron-unwrapped'', ''qtwebengine'']"

definition SHARED_MEMORY_NAME :: "string \<Rightarrow> bool" where
  "SHARED_MEMORY_NAME = scoped_name [''postgresql'', ''apache-httpd'', ''nginx'', ''nginxQuic'', ''freenginx'',
     ''angie'', ''angieQuic'', ''openresty'', ''tengine'']"

definition RUSTC_NAME :: "string \<Rightarrow> bool" where
  "RUSTC_NAME = prefix_match (rseqs [names [''rustc'', ''rustc-unwrapped'', ''go''], rlit ''-'', rdigit])"

definition OUT_OF_SCOPE :: "((string \<Rightarrow> bool) \<times> string) list" where
  "OUT_OF_SCOPE = [(V8_NAME, V8_REASON), (SHARED_MEMORY_NAME, SHARED_MEMORY_REASON)]"

text \<open>\<^verbatim>\<open>s.rsplit(":", 1)[0]\<close> and \<^verbatim>\<open>s.split(sep, 1)[1]\<close> when the separator occurs.\<close>

definition before_last :: "char \<Rightarrow> string \<Rightarrow> string" where
  "before_last c s =
     (if c \<in> set s then rev (tl (dropWhile (\<lambda>d. d \<noteq> c) (rev s))) else s)"

fun after_first :: "string \<Rightarrow> string \<Rightarrow> string" where
  "after_first p [] = []"
| "after_first p (c # s) =
     (if starts_with p (c # s) then drop (length p) (c # s) else after_first p s)"

definition kernel_source :: "json option \<Rightarrow> json \<Rightarrow> string result" where
  "kernel_source source_file metadata =
     (case source_file of
        Some j \<Rightarrow> if truthy j then jstring j
                   else bindr (jget ''position'' metadata) (\<lambda>p. bindr (str_or_empty p) (\<lambda>s. Inr (before_last CHR '':'' s)))
      | None \<Rightarrow> bindr (jget ''position'' metadata) (\<lambda>p. bindr (str_or_empty p) (\<lambda>s. Inr (before_last CHR '':'' s))))"

definition kernel_metadata :: "json \<Rightarrow> json option \<Rightarrow> bool result" where
  "kernel_metadata metadata source_file =
     bindr (jget ''isLinuxKernel'' metadata) (\<lambda>k.
     if truthy_opt k then Inr True
     else bindr (kernel_source source_file metadata) (\<lambda>src.
       let source = (if contains ''/pkgs/'' src then ''pkgs/'' @ after_first ''/pkgs/'' src else src) in
       if starts_with ''pkgs/os-specific/linux/kernel/'' source then Inr True
       else bindr (jget ''pname'' metadata) (\<lambda>p. bindr (str_or_empty p) (\<lambda>pname.
         Inr (source = ''pkgs/top-level/linux-kernels.nix''
              \<and> (pname = ''linux'' \<or> starts_with ''linux-'' pname)
              \<and> \<not> List.member [''linux-headers'', ''linux-api-headers'', ''linux-firmware''] pname)))))"

fun any_starts :: "string \<Rightarrow> json list \<Rightarrow> bool result" where
  "any_starts p [] = Inr False"
| "any_starts p (j # js) = bindr (jstring j) (\<lambda>s. if starts_with p s then Inr True else any_starts p js)"

definition kernel_flags :: "json option \<Rightarrow> json list result" where
  "kernel_flags v =
     (case v of
        None \<Rightarrow> Inr []
      | Some (JStr s) \<Rightarrow> Inr (map JStr (words s))
      | Some (JArr xs) \<Rightarrow> Inr xs
      | Some (JObj kvs) \<Rightarrow> Inr (map (JStr \<circ> fst) kvs)
      | Some _ \<Rightarrow> Inl (TypeError ''not iterable''))"

definition kernel_derivation :: "json \<Rightarrow> bool result" where
  "kernel_derivation info =
     bindr (jget ''env'' info) (\<lambda>e.
     bindr (jget ''buildFlags'' (case e of None \<Rightarrow> JObj [] | Some env \<Rightarrow> env)) (\<lambda>f.
     bindr (kernel_flags f) (\<lambda>flags.
     if List.member flags (JStr ''vmlinux'') then any_starts ''KBUILD_BUILD_VERSION='' flags
     else Inr False)))"

text \<open>\<^verbatim>\<open>json.dumps(info)\<close> with the default separators.\<close>

definition dumps_default :: "(rat \<Rightarrow> string) \<Rightarrow> json \<Rightarrow> string" where
  "dumps_default fl = dumps fl False '', '' '': ''"

definition toolchain_derivation :: "(rat \<Rightarrow> string) \<Rightarrow> string \<Rightarrow> json option \<Rightarrow> bool" where
  "toolchain_derivation fl name info =
     (if TOOLCHAIN_NAME name then True
      else if RUSTC_NAME name then
        (case info of None \<Rightarrow> False | Some i \<Rightarrow> contains FILC (dumps_default fl i))
      else False)"

fun first_reason :: "((string \<Rightarrow> bool) \<times> string) list \<Rightarrow> string \<Rightarrow> string option" where
  "first_reason [] name = None"
| "first_reason ((pattern, reason) # ps) name =
     (if pattern name then Some reason else first_reason ps name)"

definition exclusion :: "(rat \<Rightarrow> string) \<Rightarrow> string \<Rightarrow> json \<Rightarrow> string option result" where
  "exclusion fl name info =
     bindr (kernel_derivation info) (\<lambda>k.
     if k then Inr (Some REASON)
     else if toolchain_derivation fl name (Some info) then Inr (Some TOOLCHAIN_REASON)
     else Inr (first_reason OUT_OF_SCOPE name))"

section \<open>Lemmas\<close>

text \<open>A recorded exclusion is always one of four fixed, nonempty reasons, and never the
  inherited one, which only refreshing the candidates writes.\<close>

lemmas reason_defs = REASON_def TOOLCHAIN_REASON_def INHERITED_def V8_REASON_def SHARED_MEMORY_REASON_def

lemma exclusion_reasons:
  assumes "exclusion fl name info = Inr (Some r)"
  shows "r \<in> {REASON, TOOLCHAIN_REASON, V8_REASON, SHARED_MEMORY_REASON}"
  using assms by (auto simp: exclusion_def OUT_OF_SCOPE_def bindr_eq_Inr split: if_splits)

lemma reasons_not_inherited:
  "r \<in> {REASON, TOOLCHAIN_REASON, V8_REASON, SHARED_MEMORY_REASON} \<Longrightarrow> r \<noteq> INHERITED \<and> r \<noteq> []"
  by (auto simp: reason_defs)

lemma scoped_name_iff:
  "scoped_name ns name \<longleftrightarrow> name \<notin> lang (rseqs [RStar any_char, rlit ''-source'', rany]) \<and>
     name \<in> lang (rseqs [names ns, rlit (''-'' @ FILC @ ''-''), rdigit, rany])"
  by (simp add: scoped_name_def fullmatch_iff no_source_def)

lemma star_chars: "s \<in> star {[c] | c. P c} \<longleftrightarrow> list_all P s"
proof
  show "s \<in> star {[c] | c. P c} \<Longrightarrow> list_all P s" by (induction rule: star.induct) auto
  show "list_all P s \<Longrightarrow> s \<in> star {[c] | c. P c}"
  proof (induction s)
    case (Cons c s)
    then have "[c] @ s \<in> star {[c] | c. P c}" by (intro star_app) auto
    then show ?case by simp
  qed simp
qed

lemma lang_names [simp]: "lang (names ns) = set ns"
proof -
  have "lang (ralts rs) = \<Union> (lang ` set rs)" for rs by (induction rs rule: ralts.induct) auto
  then show ?thesis by (auto simp: names_def)
qed

lemma contains_iff: "contains p s \<longleftrightarrow> (\<exists>u v. s = u @ p @ v)"
proof (induction s)
  case (Cons c s)
  have "starts_with p t \<longleftrightarrow> (\<exists>v. t = p @ v)" for t :: "'a list" by (auto simp: starts_with_def) (metis append_take_drop_id)
  then have "contains p (c # s) \<longleftrightarrow> (\<exists>v. c # s = p @ v) \<or> (\<exists>u v. s = u @ p @ v)" using Cons by simp
  also have "\<dots> \<longleftrightarrow> (\<exists>u v. c # s = u @ p @ v)" by (metis append_Cons append_Nil list.inject neq_Nil_conv)
  finally show ?case .
qed auto

text \<open>The look-ahead: a marker without line breaks stands on the first line.\<close>

lemma first_line_marker:
  assumes "CHR ''\<newline>'' \<notin> set m"
  shows "s \<in> lang (rseqs [RStar any_char, rlit m, rany]) \<longleftrightarrow> contains m (takeWhile (\<lambda>c. c \<noteq> CHR ''\<newline>'') s)"
proof -
  let ?ok = "\<lambda>c. c \<noteq> CHR ''\<newline>''"
  have "s \<in> lang (rseqs [RStar any_char, rlit m, rany]) \<longleftrightarrow> (\<exists>u v. s = u @ m @ v \<and> list_all ?ok u)"
    by (auto simp: any_char_def star_chars)
  also have "\<dots> \<longleftrightarrow> (\<exists>u v. takeWhile ?ok s = u @ m @ v)"
  proof
    assume "\<exists>u v. s = u @ m @ v \<and> list_all ?ok u"
    then obtain u v where s: "s = u @ m @ v" "list_all ?ok u" by blast
    have "takeWhile ?ok s = (u @ m) @ takeWhile ?ok v" unfolding s(1) append_assoc [symmetric] using s(2) assms
      by (intro takeWhile_append2) (auto simp: list_all_iff)
    then show "\<exists>u v. takeWhile ?ok s = u @ m @ v" by auto
  next
    assume "\<exists>u v. takeWhile ?ok s = u @ m @ v"
    then obtain u v where t: "takeWhile ?ok s = u @ m @ v" by blast
    have "list_all ?ok u" using set_takeWhileD [of _ ?ok s] unfolding t by (auto simp: list_all_iff)
    moreover have "s = u @ m @ v @ dropWhile ?ok s" using takeWhile_dropWhile_id [of ?ok s] unfolding t by simp
    ultimately show "\<exists>u v. s = u @ m @ v \<and> list_all ?ok u" by blast
  qed
  finally show ?thesis by (simp add: contains_iff)
qed

lemma scoped_name_words:
  "scoped_name ns name \<longleftrightarrow> (\<exists>p d rest. p \<in> set ns \<and> is_digit d \<and> name = p @ ''-'' @ FILC @ ''-'' @ d # rest)
     \<and> \<not> contains ''-source'' (takeWhile (\<lambda>c. c \<noteq> CHR ''\<newline>'') name)"
proof -
  have "name \<in> lang (rseqs [names ns, rlit (''-'' @ FILC @ ''-''), rdigit, rany]) \<longleftrightarrow> (\<exists>p d rest. p \<in> set ns \<and> is_digit d \<and> name = p @ ''-'' @ FILC @ ''-'' @ d # rest)"
    by (auto simp: rdigit_def) (metis append_Cons append_Nil)+
  moreover have "CHR ''\<newline>'' \<notin> set ''-source''" by simp
  ultimately show ?thesis unfolding scoped_name_iff using first_line_marker [of "''-source''" name] by blast
qed

end
