(* ===== verification/Walk.thy ===== *)
theory Walk
  imports Prelude
begin

text \<open>
  Graph walks over a finite list of directed edges. The program walks the derivation graph in
  three ways: SQLite's recursive common table expressions (a FIFO queue of rows with UNION
  removing duplicates), a marking loop that pushes unmarked neighbours on a stack, and a
  breadth-first search that carries the chain that led to each node. Each is defined as the
  loop the code runs; the results are shown to be exactly the reachable nodes.
\<close>

definition succs :: "('n \<times> 'n) list \<Rightarrow> 'n \<Rightarrow> 'n list" where
  "succs es x = map snd (filter (\<lambda>e. fst e = x) es)"

definition reach :: "('n \<times> 'n) list \<Rightarrow> 'n set \<Rightarrow> 'n set" where
  "reach es S = (set es)\<^sup>* `` S"

definition fresh_succs :: "('n \<times> 'n) list \<Rightarrow> 'n \<Rightarrow> 'n list \<Rightarrow> 'n list" where
  "fresh_succs es x seen = dedup (filter (\<lambda>c. \<not> List.member seen c) (succs es x))"

text \<open>
  \<^verbatim>\<open>WITH RECURSIVE t(x) AS (start UNION SELECT .. FROM edges JOIN t)\<close>: a queue of rows; a row
  that was ever inserted is not inserted again.
\<close>

function cte_loop :: "('n \<times> 'n) list \<Rightarrow> 'n list \<Rightarrow> 'n list \<Rightarrow> 'n list" where
  "cte_loop es [] seen = []"
| "cte_loop es (x # q) seen =
     x # cte_loop es (q @ fresh_succs es x seen) (seen @ fresh_succs es x seen)"
  by pat_completeness auto

text \<open>
  \<^verbatim>\<open>while stack: for p in next[stack.pop()]: if p not in marked: marked.add(p); stack.append(p)\<close>.
  The head of the list is the top of the stack.
\<close>

function mark_loop :: "('n \<times> 'n) list \<Rightarrow> 'n list \<Rightarrow> 'n list \<Rightarrow> 'n list" where
  "mark_loop es [] marked = marked"
| "mark_loop es (x # st) marked =
     mark_loop es (rev (fresh_succs es x marked) @ st) (marked @ fresh_succs es x marked)"
  by pat_completeness auto

lemma set_succs [simp]: "c \<in> set (succs es x) \<longleftrightarrow> (x, c) \<in> set es"
  by (force simp: succs_def)

lemma set_fresh_succs [simp]:
  "set (fresh_succs es x seen) = {c. (x, c) \<in> set es \<and> c \<notin> set seen}"
  by (auto simp: fresh_succs_def)

lemma distinct_fresh_succs [simp]: "distinct (fresh_succs es x seen)"
  by (simp add: fresh_succs_def)

lemma unseen_decreases:
  assumes "fresh_succs es x seen \<noteq> []"
  shows "card (snd ` set es - set (seen @ fresh_succs es x seen)) < card (snd ` set es - set seen)"
proof (rule psubset_card_mono)
  show "finite (snd ` set es - set seen)" by simp
  from assms obtain c where "c \<in> set (fresh_succs es x seen)"
    using last_in_set by blast
  then have "(x, c) \<in> set es" "c \<notin> set seen" by simp_all
  then have "c \<in> snd ` set es - set seen" "c \<notin> snd ` set es - set (seen @ fresh_succs es x seen)"
    by (auto intro: rev_image_eqI)
  then show "snd ` set es - set (seen @ fresh_succs es x seen) \<subset> snd ` set es - set seen"
    by auto
qed

termination cte_loop
proof (relation "measures [\<lambda>(es, q, seen). card (snd ` set es - set seen), \<lambda>(es, q, seen). length q]")
  fix es x and q seen :: "'a list"
  show "((es, q @ fresh_succs es x seen, seen @ fresh_succs es x seen), (es, x # q, seen))
    \<in> measures [\<lambda>(es, q, seen). card (snd ` set es - set seen), \<lambda>(es, q, seen). length q]"
    using unseen_decreases [of es x seen] by (cases "fresh_succs es x seen = []") auto
qed simp

termination mark_loop
proof (relation "measures [\<lambda>(es, q, seen). card (snd ` set es - set seen), \<lambda>(es, q, seen). length q]")
  fix es x and st marked :: "'a list"
  show "((es, rev (fresh_succs es x marked) @ st, marked @ fresh_succs es x marked), (es, x # st, marked))
    \<in> measures [\<lambda>(es, q, seen). card (snd ` set es - set seen), \<lambda>(es, q, seen). length q]"
    using unseen_decreases [of es x marked] by (cases "fresh_succs es x marked = []") auto
qed simp

definition cte :: "('n \<times> 'n) list \<Rightarrow> 'n list \<Rightarrow> 'n list" where
  "cte es start = cte_loop es (dedup start) (dedup start)"

definition mark :: "('n \<times> 'n) list \<Rightarrow> 'n list \<Rightarrow> 'n list" where
  "mark es start = mark_loop es (rev start) start"

section \<open>Reachability\<close>

lemma reach_start [intro]: "x \<in> S \<Longrightarrow> x \<in> reach es S"
  by (auto simp: reach_def)

lemma reach_step [intro]: "x \<in> reach es S \<Longrightarrow> (x, c) \<in> set es \<Longrightarrow> c \<in> reach es S"
  by (auto simp: reach_def intro: rtrancl.rtrancl_into_rtrancl)

lemma reach_mono: "S \<subseteq> T \<Longrightarrow> reach es S \<subseteq> reach es T"
  by (auto simp: reach_def)

lemma reach_mono_edges: "set es \<subseteq> set fs \<Longrightarrow> reach es S \<subseteq> reach fs S"
  unfolding reach_def by (meson Image_mono rtrancl_mono subset_refl)

lemma reach_Un: "reach es (S \<union> T) = reach es S \<union> reach es T"
  by (auto simp: reach_def)

lemma reach_empty [simp]: "reach es {} = {}"
  by (simp add: reach_def)

lemma reach_induct [consumes 1, case_names start step]:
  assumes "x \<in> reach es S"
    and "\<And>x. x \<in> S \<Longrightarrow> P x"
    and "\<And>x c. x \<in> reach es S \<Longrightarrow> P x \<Longrightarrow> (x, c) \<in> set es \<Longrightarrow> P c"
  shows "P x"
proof -
  from assms(1) obtain s where s: "s \<in> S" and r: "(s, x) \<in> (set es)\<^sup>*"
    by (auto simp: reach_def)
  from r show ?thesis
  proof (induction rule: rtrancl_induct)
    case base
    from s show ?case by (rule assms(2))
  next
    case (step y z)
    then have "y \<in> reach es S" using s by (auto simp: reach_def)
    with step show ?case using assms(3) by blast
  qed
qed

text \<open>A set that holds the start, is closed under edges and holds only reachable nodes is the
  reachable set: the shape in which each walk's result is proved correct.\<close>

lemma reach_eqI:
  assumes "S \<subseteq> X" and "X \<subseteq> reach es S" and "\<And>x c. x \<in> X \<Longrightarrow> (x, c) \<in> set es \<Longrightarrow> c \<in> X"
  shows "X = reach es S"
proof
  show "reach es S \<subseteq> X"
  proof
    fix y assume "y \<in> reach es S"
    then show "y \<in> X" by (induction rule: reach_induct) (use assms in auto)
  qed
qed (rule assms(2))

text \<open>Reaching along reversed edges is reaching backwards.\<close>

definition flip :: "('n \<times> 'n) list \<Rightarrow> ('n \<times> 'n) list" where
  "flip es = map (\<lambda>(p, c). (c, p)) es"

lemma set_flip [simp]: "(c, p) \<in> set (flip es) \<longleftrightarrow> (p, c) \<in> set es"
  by (force simp: flip_def)

lemma reach_flip: "p \<in> reach (flip es) {c} \<longleftrightarrow> c \<in> reach es {p}"
proof -
  have "set (flip es) = (set es)\<inverse>" by (auto simp: flip_def)
  then show ?thesis by (simp add: reach_def rtrancl_converse)
qed

lemma reach_flip_set: "p \<in> reach (flip es) S \<longleftrightarrow> (\<exists>c \<in> S. c \<in> reach es {p})"
proof -
  have "p \<in> reach (flip es) S \<longleftrightarrow> (\<exists>c \<in> S. p \<in> reach (flip es) {c})"
    by (auto simp: reach_def)
  then show ?thesis by (simp add: reach_flip)
qed

section \<open>The loops compute reachable sets\<close>

lemma cte_loop_sound: "set q \<subseteq> reach es S \<Longrightarrow> set (cte_loop es q seen) \<subseteq> reach es S"
proof (induction es q seen rule: cte_loop.induct)
  case (2 es x q seen)
  then have "set (q @ fresh_succs es x seen) \<subseteq> reach es S" by auto
  with 2 show ?case by simp
qed simp

lemma cte_loop_start: "set q \<subseteq> set (cte_loop es q seen)"
  by (induction es q seen rule: cte_loop.induct) auto

lemma cte_loop_closed:
  assumes "y \<in> set (cte_loop es q seen)" and "(y, c) \<in> set es"
  shows "c \<in> set seen \<union> set (cte_loop es q seen)"
  using assms
proof (induction es q seen rule: cte_loop.induct)
  case (2 es x q seen)
  let ?new = "fresh_succs es x seen" and ?rest = "cte_loop es (q @ fresh_succs es x seen) (seen @ fresh_succs es x seen)"
  have new: "set ?new \<subseteq> set ?rest"
    using cte_loop_start [of "q @ ?new" es "seen @ ?new"] by simp
  show ?case
  proof (cases "y = x")
    case True
    with 2 have "c \<in> set seen \<or> c \<in> set ?new" by auto
    with new show ?thesis by auto
  next
    case False
    with 2 have "c \<in> set (seen @ ?new) \<union> set ?rest" by simp
    with new show ?thesis by auto
  qed
qed simp

theorem set_cte [simp]: "set (cte es start) = reach es (set start)"
proof -
  let ?d = "dedup start"
  have "set (cte_loop es ?d ?d) = reach es (set start)"
  proof (rule reach_eqI)
    show "set start \<subseteq> set (cte_loop es ?d ?d)"
      using cte_loop_start [of ?d es ?d] by simp
    show "set (cte_loop es ?d ?d) \<subseteq> reach es (set start)"
      by (rule cte_loop_sound) auto
    fix x c assume "x \<in> set (cte_loop es ?d ?d)" "(x, c) \<in> set es"
    then have "c \<in> set ?d \<union> set (cte_loop es ?d ?d)" by (rule cte_loop_closed)
    then show "c \<in> set (cte_loop es ?d ?d)" using cte_loop_start [of ?d es ?d] by auto
  qed
  then show ?thesis by (simp add: cte_def)
qed

text \<open>No row is returned twice.\<close>

lemma cte_loop_distinct:
  "distinct q \<Longrightarrow> set q \<subseteq> set seen \<Longrightarrow>
     distinct (cte_loop es q seen) \<and> set (cte_loop es q seen) \<inter> set seen = set q"
proof (induction es q seen rule: cte_loop.induct)
  case (2 es x q seen)
  let ?new = "fresh_succs es x seen"
  have "distinct (q @ ?new)" "set (q @ ?new) \<subseteq> set (seen @ ?new)" using 2 by auto
  with 2 have IH: "distinct (cte_loop es (q @ ?new) (seen @ ?new))"
    "set (cte_loop es (q @ ?new) (seen @ ?new)) \<inter> set (seen @ ?new) = set (q @ ?new)"
    by blast+
  have "x \<in> set seen" "x \<notin> set (q @ ?new)" using 2 by auto
  with IH(2) have "x \<notin> set (cte_loop es (q @ ?new) (seen @ ?new))" by auto
  with IH 2 show ?case by auto
qed simp

lemma distinct_cte [simp]: "distinct (cte es start)"
  using cte_loop_distinct [of "dedup start" "dedup start" es] by (simp add: cte_def)

lemma mark_loop_seen: "set marked \<subseteq> set (mark_loop es st marked)"
  by (induction es st marked rule: mark_loop.induct) auto

lemma mark_loop_sound:
  "set st \<subseteq> reach es S \<Longrightarrow> set marked \<subseteq> reach es S \<Longrightarrow> set (mark_loop es st marked) \<subseteq> reach es S"
proof (induction es st marked rule: mark_loop.induct)
  case (2 es x st marked)
  then have "set (rev (fresh_succs es x marked) @ st) \<subseteq> reach es S"
    "set (marked @ fresh_succs es x marked) \<subseteq> reach es S" by auto
  with 2 show ?case by simp
qed simp

lemma mark_loop_closed:
  assumes "\<And>y c. y \<in> set marked \<Longrightarrow> y \<notin> set st \<Longrightarrow> (y, c) \<in> set es \<Longrightarrow> c \<in> set marked"
    and "y \<in> set (mark_loop es st marked)" and "(y, c) \<in> set es"
  shows "c \<in> set (mark_loop es st marked)"
  using assms
proof (induction es st marked rule: mark_loop.induct)
  case (2 es x st marked)
  have "c' \<in> set (marked @ fresh_succs es x marked)"
    if "y' \<in> set (marked @ fresh_succs es x marked)" "y' \<notin> set (rev (fresh_succs es x marked) @ st)"
      "(y', c') \<in> set es" for y' c'
    using that 2(2) by auto
  with 2 show ?case by simp
qed simp

theorem set_mark [simp]: "set (mark es start) = reach es (set start)"
  unfolding mark_def
proof (rule reach_eqI)
  show "set start \<subseteq> set (mark_loop es (rev start) start)" by (rule mark_loop_seen)
  show "set (mark_loop es (rev start) start) \<subseteq> reach es (set start)"
    by (rule mark_loop_sound) auto
  show "\<And>x c. x \<in> set (mark_loop es (rev start) start) \<Longrightarrow> (x, c) \<in> set es \<Longrightarrow>
      c \<in> set (mark_loop es (rev start) start)"
    by (rule mark_loop_closed) auto
qed

end
