(* ===== verification/Model.thy ===== *)
theory Model
  imports Scope Walk
begin

text \<open>
  The persistent facts of the experiment (\<^verbatim>\<open>experiment/model.py\<close>): the tables of the SQLite
  schema as lists of records in rowid order, and the operations of that module. A column that
  holds JSON text is kept as the decoded value where the code only ever writes and reads it
  through \<^verbatim>\<open>encode\<close> and \<^verbatim>\<open>json.loads\<close>.
\<close>

section \<open>Tables\<close>

datatype mode = Paused | Running_mode

datatype cstate =
    Unplanned | Queued | Running | Available | Failed | Blocked | Excluded | Inconclusive
  | Evaluation_error

datatype akind = Plan | Build

datatype astate = Intended | At_running | Finished

datatype target = TPlan int json | TBuild string

datatype required = ReqList "string list" | ReqDict "string list option"

record policy =
  p_max_jobs :: int
  p_cores :: int
  p_batch_size :: int
  p_build_lanes :: "int option"
  p_plan_ahead :: "int option"
  p_scheduling :: "string option"
  p_wall_seconds :: int
  p_silent_seconds :: int
  p_log_bytes :: int
  p_eval_seconds :: int
  p_eval_memory :: int
  p_min_free_bytes :: int
  p_retained_log_bytes :: int
  p_slice :: string
  p_cpus :: string
  p_memory_fraction :: rat

record campaign =
  cp_id :: string
  cp_name :: string
  cp_created :: timestamp
  cp_mode :: mode
  cp_manifest :: json
  cp_source :: string
  cp_revision :: string
  cp_policy :: policy
  cp_nix_version :: string
  cp_hold :: string
  cp_heartbeat :: "timestamp option"

record candidate =
  c_id :: int
  c_campaign :: string
  c_attr :: json
  c_label :: string
  c_selection :: json
  c_state :: cstate
  c_drv :: "string option"
  c_recipe :: "json option"
  c_error :: "string option"

record drv_metadata =
  m_system :: "json option"
  m_features :: "string list"
  m_local_only :: bool

record derivation =
  d_drv :: string
  d_name :: string
  d_outputs :: "(string \<times> string option) list"
  d_available :: bool
  d_origin :: string
  d_failure :: "string option"
  d_evidence_attempt :: "string option"
  d_exclusion :: "string option"
  d_metadata :: "drv_metadata option"

record edge =
  e_parent :: string
  e_child :: string
  e_outputs :: required

record role =
  r_campaign :: string
  r_parent :: string
  r_child :: string
  r_role :: string

record replan =
  rp_candidate :: int
  rp_source :: string
  rp_revision :: string
  rp_request :: string
  rp_created :: timestamp

record prior_candidate =
  pr_id :: int
  pr_state :: cstate
  pr_drv :: "string option"
  pr_recipe :: "json option"
  pr_error :: "string option"

record attempt_spec =
  sp_kind :: akind
  sp_runner_version :: string
  sp_targets :: "target list"
  sp_policy :: policy
  sp_source :: string
  sp_revision :: string
  sp_nix_version :: string
  sp_build_location :: "string option"
  sp_output_paths :: "string list"
  sp_derivations :: "string list"
  sp_recipe_sources :: "(string \<times> (string \<times> string) list) list"
  sp_admission_available :: "string list option"
  sp_replan_requests :: "replan list"
  sp_previous_candidates :: "prior_candidate list option"

record attempt_result =
  re_reason :: string
  re_exit_code :: "int option"
  re_finished :: timestamp
  re_truncated :: bool
  re_error :: "string option"
  re_worker_reason :: "string option"
  re_build_outcomes :: "(string \<times> string) list option"
  re_build_outcomes_source :: "string option"

record attempt =
  at_id :: string
  at_campaign :: string
  at_kind :: akind
  at_targets :: "target list"
  at_state :: astate
  at_created :: timestamp
  at_finished :: "timestamp option"
  at_spec :: attempt_spec
  at_offset :: nat
  at_result :: "attempt_result option"
  at_cancel :: bool

record activity =
  av_attempt :: string
  av_activity :: string
  av_drv :: "string option"
  av_kind :: "string option"
  av_phase :: "string option"
  av_checks :: "string list"
  av_stopped :: bool

record test_row =
  t_attempt :: string
  t_drv :: string
  t_phase :: string
  t_evidence :: string

record event_row =
  ev_seq :: int
  ev_time :: timestamp
  ev_campaign :: string
  ev_kind :: string
  ev_payload :: json

record build_time =
  bt_attempt :: string
  bt_activity :: string
  bt_started :: timestamp
  bt_finished :: "timestamp option"

record classification =
  cl_campaign :: string
  cl_candidate :: int
  cl_kind :: string
  cl_subject :: string
  cl_provider :: string
  cl_model :: string
  cl_question_version :: string
  cl_source_hash :: string
  cl_evidence_hash :: string
  cl_evidence :: json
  cl_probabilities :: json
  cl_usage :: json
  cl_created :: timestamp

record database =
  campaigns :: "campaign list"
  candidates :: "candidate list"
  derivations :: "derivation list"
  edges :: "edge list"
  roles :: "role list"
  attempts :: "attempt list"
  activities :: "activity list"
  tests :: "test_row list"
  events :: "event_row list"
  build_times :: "build_time list"
  replans :: "replan list"
  classifications :: "classification list"

definition empty_db :: database where
  "empty_db = \<lparr>campaigns = [], candidates = [], derivations = [], edges = [], roles = [],
     attempts = [], activities = [], tests = [], events = [], build_times = [], replans = [],
     classifications = []\<rparr>"

definition find_campaign :: "database \<Rightarrow> string \<Rightarrow> campaign option" where
  "find_campaign db cid = find_row cp_id cid (campaigns db)"

definition find_candidate :: "database \<Rightarrow> int \<Rightarrow> candidate option" where
  "find_candidate db i = find_row c_id i (candidates db)"

definition find_drv :: "database \<Rightarrow> string \<Rightarrow> derivation option" where
  "find_drv db drv = find_row d_drv drv (derivations db)"

definition find_attempt :: "database \<Rightarrow> string \<Rightarrow> attempt option" where
  "find_attempt db aid = find_row at_id aid (attempts db)"

text \<open>Policies written before an option existed lack its key.\<close>

definition plan_ahead :: "policy \<Rightarrow> int" where
  "plan_ahead p = (case p_plan_ahead p of None \<Rightarrow> 0 | Some n \<Rightarrow> n)"

definition build_lanes :: "policy \<Rightarrow> int" where
  "build_lanes p = (case p_build_lanes p of None \<Rightarrow> 1 | Some n \<Rightarrow> n)"

definition rolling :: "policy \<Rightarrow> bool" where
  "rolling p \<longleftrightarrow> p_scheduling p = Some ''rolling''"

section \<open>Operations\<close>

definition event :: "timestamp \<Rightarrow> string \<Rightarrow> string \<Rightarrow> json \<Rightarrow> database \<Rightarrow> database" where
  "event now campaign kind payload db =
     db\<lparr>events := events db @ [\<lparr>ev_seq = int (length (events db)) + 1, ev_time = now,
       ev_campaign = campaign, ev_kind = kind, ev_payload = payload\<rparr>]\<rparr>"

definition next_candidate_id :: "database \<Rightarrow> int" where
  "next_candidate_id db = fold max (map c_id (candidates db)) 0 + 1"

fun valid_attr :: "json \<Rightarrow> bool" where
  "valid_attr (JArr xs) \<longleftrightarrow> xs \<noteq> [] \<and> list_all (\<lambda>x. case x of JStr s \<Rightarrow> s \<noteq> [] | _ \<Rightarrow> False) xs"
| "valid_attr _ \<longleftrightarrow> False"

fun attr_label :: "json \<Rightarrow> string" where
  "attr_label (JArr xs) = join_on ''.'' (map (\<lambda>x. case x of JStr s \<Rightarrow> s | _ \<Rightarrow> []) xs)"
| "attr_label _ = []"

fun jlist :: "json \<Rightarrow> json list result" where
  "jlist (JArr xs) = Inr xs"
| "jlist _ = Inl (TypeError ''list'')"

definition insert_candidates :: "(rat \<Rightarrow> string) \<Rightarrow> string \<Rightarrow> (string \<times> json) list \<Rightarrow> json list \<Rightarrow> database \<Rightarrow> database" where
  "insert_candidates fl cid selected paths db =
     fold (\<lambda>p db. db\<lparr>candidates := candidates db @ [\<lparr>c_id = next_candidate_id db, c_campaign = cid,
         c_attr = p, c_label = attr_label p,
         c_selection = (case map_of selected (encode fl p) of None \<Rightarrow> JObj [] | Some s \<Rightarrow> s),
         c_state = Unplanned, c_drv = None, c_recipe = None, c_error = None\<rparr>]\<rparr>) paths db"

text \<open>One selection of the import loop: exclude its candidate if the metadata says kernel.\<close>

definition exclude_selection :: "(rat \<Rightarrow> string) \<Rightarrow> string \<Rightarrow> json \<Rightarrow> database \<Rightarrow> database result" where
  "exclude_selection fl cid selection db =
     bindr (jget ''metadata'' selection) (\<lambda>m.
     bindr (jget ''sourceFile'' selection) (\<lambda>sf.
     bindr (kernel_metadata (case m of None \<Rightarrow> JObj [] | Some j \<Rightarrow> j) sf) (\<lambda>kernel.
     if kernel then
       bindr (jindex ''attrPath'' selection) (\<lambda>a.
       Inr (db\<lparr>candidates := sql_update (\<lambda>c. c_campaign c = cid \<and> encode fl (c_attr c) = encode fl a)
              (\<lambda>c. c\<lparr>c_state := Excluded, c_error := Some REASON\<rparr>) (candidates db)\<rparr>))
     else Inr db)))"

definition import_campaign :: "(rat \<Rightarrow> string) \<Rightarrow> (string \<Rightarrow> string) \<Rightarrow> timestamp \<Rightarrow> string \<Rightarrow> string \<Rightarrow> json \<Rightarrow>
    string \<Rightarrow> string \<Rightarrow> policy \<Rightarrow> string \<Rightarrow> json list \<Rightarrow> database \<Rightarrow> (string \<times> database) result" where
  "import_campaign fl sha now cid name manifest source revision pol nix_version selections db =
     bindr (bindr (jindex ''attrPaths'' manifest) jlist) (\<lambda>paths.
     bindr (guardr (distinct (map (encode fl) paths)) (ValueError ''duplicate input attributes'')) (\<lambda>_.
     bindr (guardr (paths \<noteq> [] \<and> list_all valid_attr paths)
              (ValueError ''attrPaths must contain nonempty arrays of attribute names'')) (\<lambda>_.
     bindr (foldr_res (\<lambda>s acc. bindr (jindex ''attrPath'' s) (\<lambda>a. Inr (dict_set (encode fl a) s acc))) selections [])
       (\<lambda>selected.
     let db1 = db\<lparr>campaigns := campaigns db @ [\<lparr>cp_id = cid, cp_name = name, cp_created = now,
           cp_mode = Paused, cp_manifest = manifest, cp_source = source, cp_revision = revision,
           cp_policy = pol, cp_nix_version = nix_version, cp_hold = [], cp_heartbeat = None\<rparr>]\<rparr>
     in bindr (foldr_res (exclude_selection fl cid) selections (insert_candidates fl cid selected paths db1)) (\<lambda>db2.
        Inr (cid, event now cid ''imported''
          (JObj [(''count'', JInt (int (length paths))), (''manifestSha256'', JStr (identity sha fl manifest))]) db2))))))"

definition edge_pairs :: "edge list \<Rightarrow> (string \<times> string) list" where
  "edge_pairs es = map (\<lambda>e. (e_parent e, e_child e)) es"

definition closure :: "database \<Rightarrow> string \<Rightarrow> string list" where
  "closure db drv = cte (edge_pairs (edges db)) [drv]"

definition problem :: "database \<Rightarrow> string \<Rightarrow> string option" where
  "problem db drv =
     (case find_drv db drv of None \<Rightarrow> None
      | Some d \<Rightarrow> (case d_exclusion d of Some x \<Rightarrow> Some x | None \<Rightarrow> d_failure d))"

record blocker =
  b_drv :: string
  b_failure :: string
  b_chain :: "string list"

text \<open>The queue of nodes with the chain that led to them; the loop body looks the node up,
  records a nonempty problem and appends the children not yet seen.\<close>

function blockers_loop :: "(string \<times> string) list \<Rightarrow> (string \<Rightarrow> string option) \<Rightarrow>
    (string \<times> string list) list \<Rightarrow> string list \<Rightarrow> blocker list" where
  "blockers_loop es prob [] seen = []"
| "blockers_loop es prob ((node, chain) # q) seen =
     (if List.member seen node then blockers_loop es prob q seen
      else (case prob node of
              Some p \<Rightarrow> if p = [] then [] else [\<lparr>b_drv = node, b_failure = p, b_chain = chain\<rparr>]
            | None \<Rightarrow> [])
           @ blockers_loop es prob
               (q @ map (\<lambda>c. (c, chain @ [c])) (filter (\<lambda>c. \<not> List.member (node # seen) c) (succs es node)))
               (node # seen))"
  by pat_completeness auto

lemma unseen_node_decreases:
  assumes "node \<notin> set seen"
  shows "card (insert node (fst ` set q \<union> snd ` set es) - set seen) >
    card (fst ` (set q \<union> {(c, f c) | c. (node, c) \<in> set es \<and> c \<notin> insert node (set seen)}) \<union> snd ` set es
      - insert node (set seen))"
proof (rule psubset_card_mono)
  show "finite (insert node (fst ` set q \<union> snd ` set es) - set seen)" by simp
  show "fst ` (set q \<union> {(c, f c) | c. (node, c) \<in> set es \<and> c \<notin> insert node (set seen)}) \<union> snd ` set es
      - insert node (set seen) \<subset> insert node (fst ` set q \<union> snd ` set es) - set seen"
    using assms by (auto simp: image_iff) force
qed

termination blockers_loop
proof (relation "measures [\<lambda>(es, prob, q, seen). card (fst ` set q \<union> snd ` set es - set seen),
    \<lambda>(es, prob, q, seen). length q]", goal_cases)
  case 1
  then show ?case by simp
next
  case (2 es prob node chain q seen)
  then have "fst ` set ((node, chain) # q) \<union> snd ` set es - set seen = fst ` set q \<union> snd ` set es - set seen"
    by auto
  then show ?case by simp
next
  case (3 es prob node chain q seen)
  have "set (map (\<lambda>c. (c, chain @ [c])) (filter (\<lambda>c. \<not> List.member (node # seen) c) (succs es node)))
    = {(c, chain @ [c]) | c. (node, c) \<in> set es \<and> c \<notin> insert node (set seen)}"
    by auto
  with 3 unseen_node_decreases [of node seen q "\<lambda>c. chain @ [c]" es] show ?case by simp
qed

definition blockers :: "database \<Rightarrow> string \<Rightarrow> blocker list" where
  "blockers db drv = blockers_loop (edge_pairs (edges db)) (problem db) [(drv, [drv])] []"

section \<open>Refreshing candidate states\<close>

definition has_drv :: "(derivation \<Rightarrow> bool) \<Rightarrow> database \<Rightarrow> string option \<Rightarrow> bool" where
  "has_drv P db d = list_ex (\<lambda>r. d = Some (d_drv r) \<and> P r) (derivations db)"

text \<open>Realization facts, for candidates whose state they decide.\<close>

definition refresh_facts :: "string \<Rightarrow> database \<Rightarrow> database" where
  "refresh_facts cid db = db\<lparr>candidates :=
     sql_update (\<lambda>c. c_campaign c = cid \<and> c_drv c \<noteq> None \<and> \<not> List.member [Running, Inconclusive, Excluded] (c_state c))
       (\<lambda>c. c\<lparr>c_state := (if has_drv d_available db (c_drv c) then Available
                            else if has_drv (\<lambda>d. d_failure d \<noteq> None) db (c_drv c) then Failed
                            else Queued)\<rparr>)
       (candidates db)\<rparr>"

definition bad_drvs :: "database \<Rightarrow> string list" where
  "bad_drvs db = cte (flip (edge_pairs (edges db)))
     (map d_drv (filter (\<lambda>d. d_failure d \<noteq> None \<and> d_exclusion d = None) (derivations db)))"

definition outside_drvs :: "database \<Rightarrow> string list" where
  "outside_drvs db = cte (flip (edge_pairs (edges db)))
     (map d_drv (filter (\<lambda>d. d_exclusion d \<noteq> None) (derivations db)))"

definition drv_in :: "string option \<Rightarrow> string list \<Rightarrow> bool" where
  "drv_in d ds = (case d of None \<Rightarrow> False | Some x \<Rightarrow> List.member ds x)"

definition refresh_blocked :: "string \<Rightarrow> database \<Rightarrow> database" where
  "refresh_blocked cid db = (let bad = bad_drvs db in db\<lparr>candidates :=
     sql_update (\<lambda>c. c_campaign c = cid \<and> c_state c = Queued \<and> drv_in (c_drv c) bad)
       (\<lambda>c. c\<lparr>c_state := Blocked\<rparr>) (candidates db)\<rparr>)"

text \<open>\<^verbatim>\<open>(SELECT exclusion FROM derivations WHERE drv=candidates.drv)\<close>.\<close>

definition drv_exclusion :: "database \<Rightarrow> string option \<Rightarrow> string option" where
  "drv_exclusion db d = Option.bind d (\<lambda>x. Option.bind (find_drv db x) d_exclusion)"

definition refresh_excluded :: "string \<Rightarrow> database \<Rightarrow> database" where
  "refresh_excluded cid db = db\<lparr>candidates :=
     sql_update (\<lambda>c. c_campaign c = cid \<and> has_drv (\<lambda>d. d_exclusion d \<noteq> None) db (c_drv c))
       (\<lambda>c. c\<lparr>c_state := Excluded, c_error := drv_exclusion db (c_drv c)\<rparr>)
       (candidates db)\<rparr>"

definition refresh_outside :: "string \<Rightarrow> database \<Rightarrow> database" where
  "refresh_outside cid db = (let outside = outside_drvs db in db\<lparr>candidates :=
     sql_update (\<lambda>c. c_campaign c = cid \<and> List.member [Queued, Blocked] (c_state c) \<and> drv_in (c_drv c) outside)
       (\<lambda>c. c\<lparr>c_state := Excluded, c_error := Some INHERITED\<rparr>) (candidates db)\<rparr>)"

definition refresh_candidates :: "string \<Rightarrow> database \<Rightarrow> database" where
  "refresh_candidates cid db =
     refresh_outside cid (refresh_excluded cid (refresh_blocked cid (refresh_facts cid db)))"

section \<open>Dependency closure\<close>

definition depends :: "database \<Rightarrow> string \<Rightarrow> string set" where
  "depends db drv = reach (edge_pairs (edges db)) {drv}"

text \<open>The closure query returns exactly the derivations a derivation depends on, each once.\<close>

lemma set_closure: "set (closure db drv) = depends db drv"
  by (simp add: closure_def depends_def)

lemma distinct_closure: "distinct (closure db drv)"
  by (simp add: closure_def)

section \<open>Refresh\<close>

definition facts_row :: "string \<Rightarrow> database \<Rightarrow> candidate \<Rightarrow> candidate" where
  "facts_row cid db c =
     (if c_campaign c = cid \<and> c_drv c \<noteq> None \<and> c_state c \<notin> {Running, Inconclusive, Excluded}
      then c\<lparr>c_state := (if has_drv d_available db (c_drv c) then Available
                         else if has_drv (\<lambda>d. d_failure d \<noteq> None) db (c_drv c) then Failed else Queued)\<rparr>
      else c)"

definition blocked_row :: "string \<Rightarrow> database \<Rightarrow> candidate \<Rightarrow> candidate" where
  "blocked_row cid db c =
     (if c_campaign c = cid \<and> c_state c = Queued \<and> drv_in (c_drv c) (bad_drvs db)
      then c\<lparr>c_state := Blocked\<rparr> else c)"

definition excluded_row :: "string \<Rightarrow> database \<Rightarrow> candidate \<Rightarrow> candidate" where
  "excluded_row cid db c =
     (if c_campaign c = cid \<and> has_drv (\<lambda>d. d_exclusion d \<noteq> None) db (c_drv c)
      then c\<lparr>c_state := Excluded, c_error := drv_exclusion db (c_drv c)\<rparr>
      else c)"

definition outside_row :: "string \<Rightarrow> database \<Rightarrow> candidate \<Rightarrow> candidate" where
  "outside_row cid db c =
     (if c_campaign c = cid \<and> c_state c \<in> {Queued, Blocked} \<and> drv_in (c_drv c) (outside_drvs db)
      then c\<lparr>c_state := Excluded, c_error := Some INHERITED\<rparr> else c)"

definition refresh_row :: "string \<Rightarrow> database \<Rightarrow> candidate \<Rightarrow> candidate" where
  "refresh_row cid db c = outside_row cid db (excluded_row cid db (blocked_row cid db (facts_row cid db c)))"

lemmas row_defs = facts_row_def blocked_row_def excluded_row_def outside_row_def

lemma refresh_tables [simp]:
  "campaigns (refresh_candidates cid db) = campaigns db"
  "derivations (refresh_candidates cid db) = derivations db"
  "edges (refresh_candidates cid db) = edges db"
  "roles (refresh_candidates cid db) = roles db"
  "attempts (refresh_candidates cid db) = attempts db"
  "activities (refresh_candidates cid db) = activities db"
  "tests (refresh_candidates cid db) = tests db"
  "events (refresh_candidates cid db) = events db"
  "build_times (refresh_candidates cid db) = build_times db"
  "replans (refresh_candidates cid db) = replans db"
  "classifications (refresh_candidates cid db) = classifications db"
  by (simp_all add: refresh_candidates_def refresh_outside_def refresh_excluded_def
      refresh_blocked_def refresh_facts_def Let_def)

lemma facts_cong:
  "derivations db = derivations db' \<Longrightarrow> has_drv P db d = has_drv P db' d"
  "derivations db = derivations db' \<Longrightarrow> find_drv db x = find_drv db' x"
  "derivations db = derivations db' \<Longrightarrow> edges db = edges db' \<Longrightarrow> bad_drvs db = bad_drvs db'"
  "derivations db = derivations db' \<Longrightarrow> edges db = edges db' \<Longrightarrow> outside_drvs db = outside_drvs db'"
  by (simp_all add: has_drv_def find_drv_def bad_drvs_def outside_drvs_def)

lemma candidates_upd_facts [simp]:
  "has_drv P (db\<lparr>candidates := cs\<rparr>) = has_drv P db"
  "find_drv (db\<lparr>candidates := cs\<rparr>) = find_drv db"
  "bad_drvs (db\<lparr>candidates := cs\<rparr>) = bad_drvs db"
  "outside_drvs (db\<lparr>candidates := cs\<rparr>) = outside_drvs db"
  "drv_exclusion (db\<lparr>candidates := cs\<rparr>) = drv_exclusion db"
  by (simp_all add: drv_exclusion_def has_drv_def find_drv_def bad_drvs_def outside_drvs_def fun_eq_iff)

lemma refresh_stages:
  "refresh_facts cid db = db\<lparr>candidates := map (facts_row cid db) (candidates db)\<rparr>"
  "refresh_blocked cid db = db\<lparr>candidates := map (blocked_row cid db) (candidates db)\<rparr>"
  "refresh_excluded cid db = db\<lparr>candidates := map (excluded_row cid db) (candidates db)\<rparr>"
  "refresh_outside cid db = db\<lparr>candidates := map (outside_row cid db) (candidates db)\<rparr>"
  by (simp_all add: refresh_facts_def refresh_blocked_def refresh_excluded_def refresh_outside_def
      row_defs sql_update_def Let_def)

lemma row_cong [simp]:
  "blocked_row cid (db\<lparr>candidates := cs\<rparr>) = blocked_row cid db"
  "excluded_row cid (db\<lparr>candidates := cs\<rparr>) = excluded_row cid db"
  "outside_row cid (db\<lparr>candidates := cs\<rparr>) = outside_row cid db"
  by (simp_all add: row_defs fun_eq_iff)

lemma refresh_candidates_rows:
  "refresh_candidates cid db = db\<lparr>candidates := map (refresh_row cid db) (candidates db)\<rparr>"
  by (simp add: refresh_candidates_def refresh_stages refresh_row_def comp_def)

text \<open>Refreshing touches only the state and the error of a candidate of its campaign.\<close>

lemma refresh_row_frame [simp]:
  "c_id (refresh_row cid db c) = c_id c"
  "c_campaign (refresh_row cid db c) = c_campaign c"
  "c_drv (refresh_row cid db c) = c_drv c"
  "c_attr (refresh_row cid db c) = c_attr c"
  "c_label (refresh_row cid db c) = c_label c"
  "c_recipe (refresh_row cid db c) = c_recipe c"
  "c_selection (refresh_row cid db c) = c_selection c"
  by (simp_all add: refresh_row_def row_defs)

lemma refresh_row_other: "c_campaign c \<noteq> cid \<Longrightarrow> refresh_row cid db c = c"
  by (simp add: refresh_row_def row_defs)

lemma drv_in_bad:
  "drv_in (Some x) (bad_drvs db) \<longleftrightarrow>
     (\<exists>d \<in> set (derivations db). d_failure d \<noteq> None \<and> d_exclusion d = None \<and> d_drv d \<in> depends db x)"
  by (auto simp: drv_in_def bad_drvs_def reach_flip_set depends_def)

lemma drv_in_outside:
  "drv_in (Some x) (outside_drvs db) \<longleftrightarrow>
     (\<exists>d \<in> set (derivations db). d_exclusion d \<noteq> None \<and> d_drv d \<in> depends db x)"
  by (auto simp: drv_in_def outside_drvs_def reach_flip_set depends_def)

lemma has_drv_iff: "has_drv P db (Some x) \<longleftrightarrow> (\<exists>d \<in> set (derivations db). d_drv d = x \<and> P d)"
  by (auto simp: has_drv_def list_ex_iff)

lemma has_drv_None [simp]: "\<not> has_drv P db None"
  by (simp add: has_drv_def list_ex_iff)

lemma drv_in_None [simp]: "\<not> drv_in None ds"
  by (simp add: drv_in_def)

lemma self_depends [simp]: "x \<in> depends db x"
  by (auto simp: depends_def)

lemma has_drv_excluded_outside:
  "has_drv (\<lambda>d. d_exclusion d \<noteq> None) db x \<Longrightarrow> drv_in x (outside_drvs db)"
  by (cases x) (auto simp: drv_in_outside has_drv_iff)

text \<open>The state a refreshed candidate ends in, by cases.\<close>

definition undecided :: "candidate \<Rightarrow> bool" where
  "undecided c \<longleftrightarrow> c_drv c \<noteq> None \<and> c_state c \<notin> {Running, Inconclusive, Excluded}"

lemma refresh_row_state:
  assumes "c_campaign c = cid" and "undecided c"
  shows "c_state (refresh_row cid db c) =
    (if has_drv (\<lambda>d. d_exclusion d \<noteq> None) db (c_drv c) then Excluded
     else if has_drv d_available db (c_drv c) then Available
     else if has_drv (\<lambda>d. d_failure d \<noteq> None) db (c_drv c) then Failed
     else if drv_in (c_drv c) (outside_drvs db) then Excluded
     else if drv_in (c_drv c) (bad_drvs db) then Blocked
     else Queued)"
  using assms by (simp add: refresh_row_def row_defs undecided_def)

lemma refresh_row_decided:
  assumes "c_state c \<in> {Running, Inconclusive, Excluded}"
  shows "c_state (refresh_row cid db c) \<in> {c_state c, Excluded}"
  using assms by (auto simp: refresh_row_def row_defs)

lemma settled_rows:
  "c_state c = Excluded \<Longrightarrow> facts_row cid db c = c"
  "c_state c \<noteq> Queued \<Longrightarrow> blocked_row cid db c = c"
  "c_state c \<notin> {Queued, Blocked} \<Longrightarrow> outside_row cid db c = c"
  by (simp_all add: row_defs)

lemma excluded_row_idem: "excluded_row cid db (excluded_row cid db c) = excluded_row cid db c"
  by (simp add: excluded_row_def)

lemma row_frame [simp]:
  "c_drv (facts_row cid db c) = c_drv c" "c_drv (blocked_row cid db c) = c_drv c"
  "c_campaign (facts_row cid db c) = c_campaign c" "c_campaign (blocked_row cid db c) = c_campaign c"
  by (simp_all add: row_defs)

lemma refresh_row_direct:
  assumes "c_campaign c = cid" and "has_drv (\<lambda>d. d_exclusion d \<noteq> None) db (c_drv c)"
  shows "refresh_row cid db c = excluded_row cid db (blocked_row cid db (facts_row cid db c))"
    and "c_state (refresh_row cid db c) = Excluded"
proof -
  have st: "c_state (excluded_row cid db (blocked_row cid db (facts_row cid db c))) = Excluded"
    using assms by (simp add: excluded_row_def)
  then show "refresh_row cid db c = excluded_row cid db (blocked_row cid db (facts_row cid db c))"
    unfolding refresh_row_def by (intro settled_rows) simp
  with st show "c_state (refresh_row cid db c) = Excluded" by simp
qed

lemma refresh_row_in_scope:
  assumes "c_campaign c = cid" and "\<not> has_drv (\<lambda>d. d_exclusion d \<noteq> None) db (c_drv c)"
  shows "refresh_row cid db c = outside_row cid db (blocked_row cid db (facts_row cid db c))"
  using assms by (simp add: refresh_row_def excluded_row_def)

lemma refresh_row_undecided:
  assumes "c_campaign c = cid" and "\<not> has_drv (\<lambda>d. d_exclusion d \<noteq> None) db (c_drv c)" and "undecided c"
  shows "refresh_row cid db c =
    (if has_drv d_available db (c_drv c) then c\<lparr>c_state := Available\<rparr>
     else if has_drv (\<lambda>d. d_failure d \<noteq> None) db (c_drv c) then c\<lparr>c_state := Failed\<rparr>
     else if drv_in (c_drv c) (outside_drvs db) then c\<lparr>c_state := Excluded, c_error := Some INHERITED\<rparr>
     else if drv_in (c_drv c) (bad_drvs db) then c\<lparr>c_state := Blocked\<rparr>
     else c\<lparr>c_state := Queued\<rparr>)"
  using assms by (simp add: refresh_row_in_scope row_defs undecided_def)

lemma refresh_row_kept:
  assumes "c_campaign c = cid" and "\<not> has_drv (\<lambda>d. d_exclusion d \<noteq> None) db (c_drv c)"
    and "c_state c \<in> {Running, Inconclusive, Excluded}"
  shows "refresh_row cid db c = c"
  using assms by (auto simp: refresh_row_in_scope row_defs)

lemma refresh_row_idem: "refresh_row cid db (refresh_row cid db c) = refresh_row cid db c"
proof -
  let ?r = "refresh_row cid db c"
  let ?excl = "has_drv (\<lambda>d. d_exclusion d \<noteq> None) db (c_drv c)"
  consider "c_campaign c \<noteq> cid" | "c_campaign c = cid" ?excl
    | "c_campaign c = cid" "\<not> ?excl" "c_drv c = None"
    | "c_campaign c = cid" "\<not> ?excl" "c_state c \<in> {Running, Inconclusive, Excluded}"
    | "c_campaign c = cid" "\<not> ?excl" "undecided c" "c_state ?r = Excluded"
    | "c_campaign c = cid" "\<not> ?excl" "undecided c" "c_state ?r \<noteq> Excluded"
    by (auto simp: undecided_def)
  then show ?thesis
  proof cases
    case 1
    then show ?thesis by (simp add: refresh_row_other)
  next
    case 2
    have r: "c_state ?r = Excluded" "c_campaign ?r = cid" "has_drv (\<lambda>d. d_exclusion d \<noteq> None) db (c_drv ?r)"
      using 2 refresh_row_direct(2) [OF 2] by simp_all
    have "refresh_row cid db ?r = excluded_row cid db ?r"
      using refresh_row_direct(1) [OF r(2,3)] r(1) by (simp add: settled_rows)
    also have "\<dots> = ?r"
      unfolding refresh_row_direct(1) [OF 2] by (rule excluded_row_idem)
    finally show ?thesis .
  next
    case 3
    then show ?thesis by (simp add: refresh_row_def row_defs)
  next
    case 4
    then show ?thesis by (simp add: refresh_row_kept)
  next
    case 5
    then show ?thesis by (intro refresh_row_kept) simp_all
  next
    case 6
    have u: "undecided ?r" using 6 by (auto simp: refresh_row_undecided undecided_def split: if_splits)
    have "refresh_row cid db ?r = ?r\<lparr>c_state := c_state ?r\<rparr>"
      using 6 u by (subst refresh_row_undecided) (auto simp: refresh_row_undecided split: if_splits)
    then show ?thesis by simp
  qed
qed

section \<open>Explaining chains\<close>

text \<open>A chain explains a node when it is a path of dependency edges from the start to it.\<close>

definition chain_to :: "(string \<times> string) list \<Rightarrow> string \<Rightarrow> string \<Rightarrow> string list \<Rightarrow> bool" where
  "chain_to es start x ch \<longleftrightarrow>
     ch \<noteq> [] \<and> hd ch = start \<and> last ch = x \<and> successively (\<lambda>a b. (a, b) \<in> set es) ch"

definition depth :: "(string \<times> string) list \<Rightarrow> string \<Rightarrow> string \<Rightarrow> nat" where
  "depth es start x = (LEAST n. \<exists>ch. chain_to es start x ch \<and> length ch = n)"

lemma chain_to_start [simp]: "chain_to es start start [start]"
  by (simp add: chain_to_def)

lemma chain_to_snoc:
  "chain_to es start x ch \<Longrightarrow> (x, y) \<in> set es \<Longrightarrow> chain_to es start y (ch @ [y])"
  by (auto simp: chain_to_def successively_append_iff)

lemma depth_le: "chain_to es start x ch \<Longrightarrow> depth es start x \<le> length ch"
  unfolding depth_def by (rule Least_le) blast

lemma shortest_chain:
  assumes "chain_to es start x ch"
  obtains p where "chain_to es start x p" and "length p = depth es start x"
proof -
  have "\<exists>p. chain_to es start x p \<and> length p = depth es start x"
    unfolding depth_def by (rule LeastI_ex) (use assms in blast)
  then show ?thesis using that by blast
qed

lemma chain_to_prefix:
  "chain_to es start x (u @ [a, b] @ v) \<Longrightarrow> chain_to es start a (u @ [a]) \<and> (a, b) \<in> set es"
proof -
  assume c: "chain_to es start x (u @ [a, b] @ v)"
  have "successively (\<lambda>a b. (a, b) \<in> set es) ((u @ [a]) @ (b # v))"
    using c by (simp add: chain_to_def)
  then have "successively (\<lambda>a b. (a, b) \<in> set es) (u @ [a])" "(a, b) \<in> set es"
    unfolding successively_append_iff by auto
  moreover have "hd (u @ [a]) = start" using c by (cases u) (auto simp: chain_to_def)
  ultimately show ?thesis by (simp add: chain_to_def)
qed

lemma chain_to_reach: "chain_to es start x ch \<Longrightarrow> x \<in> reach es {start}"
proof (induction ch arbitrary: x rule: rev_induct)
  case (snoc y ch)
  show ?case
  proof (cases "ch = []")
    case True
    with snoc show ?thesis by (auto simp: chain_to_def)
  next
    case False
    with snoc.prems have "chain_to es start (last ch) ch" "(last ch, x) \<in> set es"
      by (auto simp: chain_to_def successively_append_iff)
    with snoc.IH show ?thesis by blast
  qed
qed (simp add: chain_to_def)

text \<open>A path from a seen start to an unseen node crosses the border once.\<close>

lemma border_crossing:
  assumes "p \<noteq> []" and "hd p \<in> S" and "last p \<notin> S"
  obtains u a b v where "p = u @ [a, b] @ v" and "a \<in> S" and "b \<notin> S"
proof -
  have "\<exists>u a b v. p = u @ [a, b] @ v \<and> a \<in> S \<and> b \<notin> S" using assms
  proof (induction p)
    case (Cons x p)
    show ?case
    proof (cases p)
      case Nil
      with Cons show ?thesis by simp
    next
      case (Cons y p')
      show ?thesis
      proof (cases "y \<in> S")
        case True
        with Cons.IH Cons Cons.prems obtain u a b v where "p = u @ [a, b] @ v" "a \<in> S" "b \<notin> S"
          by auto
        then have "x # p = (x # u) @ [a, b] @ v" by simp
        with \<open>a \<in> S\<close> \<open>b \<notin> S\<close> show ?thesis by blast
      next
        case False
        with Cons Cons.prems have "x # p = [] @ [x, y] @ p'" by simp
        with False Cons.prems show ?thesis by (metis list.sel(1))
      qed
    qed
  qed simp
  then show ?thesis using that by blast
qed

text \<open>
  The invariant of the breadth-first loop: queued chains are paths in order of length, no
  two lengths more than one apart, and every unseen child of a seen node waits in the queue
  behind a chain no longer than its parent's depth plus one.
\<close>

definition bfs_inv :: "(string \<times> string) list \<Rightarrow> string \<Rightarrow> (string \<times> string list) list \<Rightarrow> string list \<Rightarrow> bool" where
  "bfs_inv es start q seen \<longleftrightarrow>
     (\<forall>(n, ch) \<in> set q. chain_to es start n ch)
   \<and> sorted (map (length \<circ> snd) q)
   \<and> (\<forall>e \<in> set q. length (snd e) \<le> length (snd (hd q)) + 1)
   \<and> (start \<in> set seen \<or> q = [(start, [start])] \<and> seen = [])
   \<and> (\<forall>x \<in> set seen. \<forall>y. (x, y) \<in> set es \<longrightarrow> y \<notin> set seen \<longrightarrow>
        (\<exists>ch. (y, ch) \<in> set q \<and> length ch \<le> depth es start x + 1))"

lemma bfs_inv_init: "bfs_inv es start [(start, [start])] []"
  by (simp add: bfs_inv_def)

lemma bfs_inv_chain: "bfs_inv es start ((n, ch) # q) seen \<Longrightarrow> chain_to es start n ch"
  by (auto simp: bfs_inv_def)

lemma bfs_inv_waits:
  assumes "bfs_inv es start ((n, ch) # q) seen" and "x \<in> set seen" and "(x, y) \<in> set es"
    and "y \<notin> set seen" and "y \<noteq> n"
  shows "\<exists>c. (y, c) \<in> set q \<and> length c \<le> depth es start x + 1"
proof -
  have "\<exists>c. (y, c) \<in> set ((n, ch) # q) \<and> length c \<le> depth es start x + 1"
    using assms(1-4) unfolding bfs_inv_def by blast
  with assms(5) show ?thesis by auto
qed

lemma bfs_head_shortest:
  assumes inv: "bfs_inv es start ((n, ch) # q) seen" and n: "n \<notin> set seen"
  shows "length ch = depth es start n"
proof (rule antisym)
  have ch: "chain_to es start n ch" using inv by (rule bfs_inv_chain)
  then show "depth es start n \<le> length ch" by (rule depth_le)
  obtain p where p: "chain_to es start n p" "length p = depth es start n"
    using ch by (rule shortest_chain)
  show "length ch \<le> depth es start n"
  proof (cases "start \<in> set seen")
    case False
    with inv have "ch = [start]" by (auto simp: bfs_inv_def)
    moreover have "p \<noteq> []" using p by (simp add: chain_to_def)
    ultimately show ?thesis using p(2) by (cases p) auto
  next
    case True
    have "p \<noteq> []" "hd p \<in> set seen" "last p \<notin> set seen"
      using p(1) True n by (simp_all add: chain_to_def)
    then obtain u a b v where uv: "p = u @ [a, b] @ v" "a \<in> set seen" "b \<notin> set seen"
      by (rule border_crossing)
    then have pre: "chain_to es start a (u @ [a])" "(a, b) \<in> set es"
      using p(1) chain_to_prefix by blast+
    with inv uv obtain ch' where ch': "(b, ch') \<in> set ((n, ch) # q)" "length ch' \<le> depth es start a + 1"
      unfolding bfs_inv_def by blast
    have "length ch \<le> length ch'"
      using inv ch'(1) by (auto simp: bfs_inv_def)
    also have "\<dots> \<le> length (u @ [a]) + 1"
      using ch'(2) depth_le [OF pre(1)] by simp
    also have "\<dots> \<le> length p" using uv(1) by simp
    finally show ?thesis using p(2) by simp
  qed
qed

lemma bfs_inv_skip:
  assumes "bfs_inv es start ((n, ch) # q) seen" and "n \<in> set seen"
  shows "bfs_inv es start q seen"
proof -
  have q: "q \<noteq> [] \<Longrightarrow> length ch \<le> length (snd (hd q))" "\<forall>e \<in> set q. length (snd e) \<le> length ch + 1"
    using assms(1) by (auto simp: bfs_inv_def)
  then have "length (snd e) \<le> length (snd (hd q)) + 1" if "e \<in> set q" for e
    using that by (cases q) force+
  moreover have "start \<in> set seen" using assms by (auto simp: bfs_inv_def)
  moreover have "\<exists>c. (y, c) \<in> set q \<and> length c \<le> depth es start x + 1"
    if "x \<in> set seen" "(x, y) \<in> set es" "y \<notin> set seen" for x y
    using that assms bfs_inv_waits by blast
  ultimately show ?thesis using assms(1) unfolding bfs_inv_def by auto
qed

lemma bfs_inv_expand:
  assumes inv: "bfs_inv es start ((n, ch) # q) seen" and n: "n \<notin> set seen"
  shows "bfs_inv es start
    (q @ map (\<lambda>c. (c, ch @ [c])) (filter (\<lambda>c. \<not> List.member (n # seen) c) (succs es n))) (n # seen)"
    (is "bfs_inv es start (q @ ?new) _")
proof -
  have ch: "chain_to es start n ch" using inv by (rule bfs_inv_chain)
  have len: "length ch = depth es start n" using inv n by (rule bfs_head_shortest)
  have q: "\<forall>e \<in> set q. length ch \<le> length (snd e) \<and> length (snd e) \<le> length ch + 1"
    using inv by (auto simp: bfs_inv_def)
  have new: "\<forall>e \<in> set ?new. length (snd e) = length ch + 1" by auto
  have chains: "\<forall>(m, c) \<in> set (q @ ?new). chain_to es start m c"
    using inv chain_to_snoc [OF ch] by (auto simp: bfs_inv_def)
  have "sorted (map (length \<circ> snd) q)" using inv by (simp add: bfs_inv_def)
  then have sorted: "sorted (map (length \<circ> snd) (q @ ?new))"
    using q by (auto simp: sorted_append comp_def map_replicate_const)
  have hd: "length ch \<le> length (snd (hd (q @ ?new)))" if "q @ ?new \<noteq> []"
    using that q new by (metis (no_types, lifting) Un_iff hd_in_set le_add1 set_append)
  have bound: "\<forall>e \<in> set (q @ ?new). length (snd e) \<le> length (snd (hd (q @ ?new))) + 1"
    using q new hd by (metis (no_types, lifting) Un_iff add_le_mono1 empty_iff le_trans list.set(1) order_refl set_append)
  have start: "start \<in> set (n # seen)" using inv by (auto simp: bfs_inv_def)
  have waits: "\<exists>c. (y, c) \<in> set (q @ ?new) \<and> length c \<le> depth es start x + 1"
    if x: "x \<in> set (n # seen)" "(x, y) \<in> set es" "y \<notin> set (n # seen)" for x y
  proof (cases "x = n")
    case True
    with x have "(y, ch @ [y]) \<in> set ?new" by (auto simp: image_iff)
    with len True show ?thesis by auto
  next
    case False
    with x bfs_inv_waits [OF inv, of x y] show ?thesis by auto
  qed
  show ?thesis
    unfolding bfs_inv_def using chains sorted bound start waits by blast
qed

lemma blockers_loop_correct:
  assumes "bfs_inv es start q seen"
  shows "(\<forall>b \<in> set (blockers_loop es prob q seen). chain_to es start (b_drv b) (b_chain b)
      \<and> length (b_chain b) = depth es start (b_drv b) \<and> prob (b_drv b) = Some (b_failure b)
      \<and> b_failure b \<noteq> [] \<and> b_drv b \<notin> set seen)
    \<and> distinct (map b_drv (blockers_loop es prob q seen))
    \<and> (\<forall>x \<in> reach es {start}. \<forall>p. x \<notin> set seen \<longrightarrow> prob x = Some p \<longrightarrow> p \<noteq> [] \<longrightarrow>
        x \<in> b_drv ` set (blockers_loop es prob q seen))"
  using assms
proof (induction es prob q seen rule: blockers_loop.induct)
  case (1 es prob seen)
  then have "start \<in> set seen" "\<forall>x y. x \<in> set seen \<longrightarrow> (x, y) \<in> set es \<longrightarrow> y \<in> set seen"
    by (auto simp: bfs_inv_def)
  then have "reach es {start} \<subseteq> set seen"
    by (auto elim: reach_induct)
  then show ?case by auto
next
  case (2 es prob node chain q seen)
  show ?case
  proof (cases "node \<in> set seen")
    case True
    with 2 show ?thesis by (auto dest: bfs_inv_skip)
  next
    case False
    let ?q = "q @ map (\<lambda>c. (c, chain @ [c])) (filter (\<lambda>c. \<not> List.member (node # seen) c) (succs es node))"
    let ?rest = "blockers_loop es prob ?q (node # seen)"
    have "bfs_inv es start ?q (node # seen)" using 2(3) False by (rule bfs_inv_expand)
    with 2(2) False have IH: "\<forall>b \<in> set ?rest. chain_to es start (b_drv b) (b_chain b)
      \<and> length (b_chain b) = depth es start (b_drv b) \<and> prob (b_drv b) = Some (b_failure b)
      \<and> b_failure b \<noteq> [] \<and> b_drv b \<notin> set (node # seen)" "distinct (map b_drv ?rest)"
      "\<forall>x \<in> reach es {start}. \<forall>p. x \<notin> set (node # seen) \<longrightarrow> prob x = Some p \<longrightarrow> p \<noteq> [] \<longrightarrow>
        x \<in> b_drv ` set ?rest"
      by simp_all
    have ch: "chain_to es start node chain" "length chain = depth es start node"
      using 2(3) False bfs_inv_chain bfs_head_shortest by blast+
    show ?thesis
    proof (cases "prob node = None \<or> prob node = Some []")
      case True
      then have "blockers_loop es prob ((node, chain) # q) seen = ?rest" using False by auto
      with IH True show ?thesis by auto
    next
      case pr: False
      then obtain p where p: "prob node = Some p" "p \<noteq> []" by auto
      then have "blockers_loop es prob ((node, chain) # q) seen =
          \<lparr>b_drv = node, b_failure = p, b_chain = chain\<rparr> # ?rest" using False by simp
      with IH p ch False show ?thesis by auto
    qed
  qed
qed

declare blockers_loop.simps [simp del]

lemma blockers_sound:
  "b \<in> set (blockers db drv) \<Longrightarrow>
     chain_to (edge_pairs (edges db)) drv (b_drv b) (b_chain b)
   \<and> (\<forall>ch. chain_to (edge_pairs (edges db)) drv (b_drv b) ch \<longrightarrow> length (b_chain b) \<le> length ch)
   \<and> problem db (b_drv b) = Some (b_failure b) \<and> b_failure b \<noteq> []"
  using blockers_loop_correct [OF bfs_inv_init [of "edge_pairs (edges db)" drv], of "problem db"]
  by (auto simp: blockers_def dest: depth_le)

lemma blockers_complete:
  "b_drv ` set (blockers db drv) = {x \<in> depends db drv. \<exists>p. problem db x = Some p \<and> p \<noteq> []}"
proof
  show "b_drv ` set (blockers db drv) \<subseteq> {x \<in> depends db drv. \<exists>p. problem db x = Some p \<and> p \<noteq> []}"
    using blockers_sound chain_to_reach unfolding depends_def by blast
  show "{x \<in> depends db drv. \<exists>p. problem db x = Some p \<and> p \<noteq> []} \<subseteq> b_drv ` set (blockers db drv)"
    using blockers_loop_correct [OF bfs_inv_init [of "edge_pairs (edges db)" drv], of "problem db"]
    unfolding blockers_def depends_def by auto
qed

lemma blockers_distinct: "distinct (map b_drv (blockers db drv))"
  using blockers_loop_correct [OF bfs_inv_init [of "edge_pairs (edges db)" drv], of "problem db"]
  by (simp add: blockers_def)

section \<open>What refreshing guarantees\<close>

text \<open>A candidate that is queued after a refresh can be built as far as the recorded facts tell:
  nothing it depends on has failed or is out of scope, and it is not already available.\<close>

lemma refresh_queued_clean:
  assumes "c \<in> set (candidates (refresh_candidates cid db))" and "c_campaign c = cid"
    and "c_state c = Queued" and "c_drv c = Some x"
    and "d \<in> set (derivations db)" and "d_drv d \<in> depends db x"
  shows "d_failure d = None \<and> d_exclusion d = None \<and> (d_drv d = x \<longrightarrow> \<not> d_available d)"
proof -
  obtain c0 where c0: "c0 \<in> set (candidates db)" "c = refresh_row cid db c0"
    using assms(1) by (auto simp: refresh_candidates_rows)
  have "undecided c0"
    using c0(2) assms(2-4) refresh_row_decided [of c0 cid db] by (auto simp: undecided_def)
  with c0(2) assms(2-4) have "\<not> has_drv d_available db (Some x)" "\<not> has_drv (\<lambda>d. d_failure d \<noteq> None) db (Some x)"
    "\<not> drv_in (Some x) (outside_drvs db)" "\<not> drv_in (Some x) (bad_drvs db)"
    by (simp_all add: refresh_row_state split: if_splits)
  with assms(5,6) show ?thesis unfolding has_drv_iff drv_in_bad drv_in_outside by blast
qed

text \<open>And a candidate is blocked exactly when some dependency failed in scope, while its own
  derivation has neither been built nor failed and none of its dependencies is out of scope.\<close>

lemma refresh_blocked_iff:
  assumes "c \<in> set (candidates db)" and "c_campaign c = cid" and "undecided c" and "c_drv c = Some x"
  shows "c_state (refresh_row cid db c) = Blocked \<longleftrightarrow>
     (\<exists>d \<in> set (derivations db). d_drv d \<in> depends db x \<and> d_failure d \<noteq> None)
   \<and> (\<forall>d \<in> set (derivations db). d_drv d \<in> depends db x \<longrightarrow> d_exclusion d = None)
   \<and> (\<forall>d \<in> set (derivations db). d_drv d = x \<longrightarrow> \<not> d_available d \<and> d_failure d = None)"
proof -
  have "c_state (refresh_row cid db c) = Blocked \<longleftrightarrow>
      \<not> has_drv (\<lambda>d. d_exclusion d \<noteq> None) db (Some x) \<and> \<not> has_drv d_available db (Some x)
    \<and> \<not> has_drv (\<lambda>d. d_failure d \<noteq> None) db (Some x) \<and> \<not> drv_in (Some x) (outside_drvs db)
    \<and> drv_in (Some x) (bad_drvs db)"
    using assms(2-4) by (simp add: refresh_row_state)
  also have "\<dots> \<longleftrightarrow> (\<forall>d \<in> set (derivations db). d_drv d = x \<longrightarrow> \<not> d_available d \<and> d_failure d = None)
    \<and> (\<forall>d \<in> set (derivations db). d_drv d \<in> depends db x \<longrightarrow> d_exclusion d = None)
    \<and> (\<exists>d \<in> set (derivations db). d_failure d \<noteq> None \<and> d_exclusion d = None \<and> d_drv d \<in> depends db x)"
    unfolding has_drv_iff drv_in_outside drv_in_bad using self_depends [of x db] by auto
  finally show ?thesis by auto
qed

end
