(* ===== verification/NixAdapter.thy ===== *)
theory NixAdapter
  imports Model
begin

text \<open>
  The Nix adapter (\<^verbatim>\<open>experiment/nix.py\<close>): derivation graphs and log events as Nix prints
  them, store queries, configured build machines and the resource policy. Everything the
  subprocesses and the file system answer is a parameter: the record \<^term>\<open>runtime\<close> holds the
  library functions on arbitrary text (\<^verbatim>\<open>json.loads\<close>, \<^verbatim>\<open>str\<close>, \<^verbatim>\<open>repr\<close> and SHA-256), the record
  \<^term>\<open>nix_obs\<close> the answers of Nix about derivation files.
\<close>

record runtime =
  rt_loads :: "string \<Rightarrow> json option"
  rt_str :: "json \<Rightarrow> string"
  rt_float :: "rat \<Rightarrow> string"
  rt_sha256 :: "string \<Rightarrow> string"

record nix_obs =
  nx_is_file :: "string \<Rightarrow> bool"
  nx_store_outputs :: "string \<Rightarrow> string list option"

section \<open>Names and defaults\<close>

definition is_lower_alnum :: "char \<Rightarrow> bool" where
  "is_lower_alnum c \<longleftrightarrow> is_digit c \<or> (97 \<le> (of_char c :: nat) \<and> (of_char c :: nat) \<le> 122)"

definition DRV :: rx where
  "DRV = rseqs [rlit ''/nix/store/'', rrep 32 (RChar is_lower_alnum), rlit ''-'',
     rplus (RChar (\<lambda>c. \<not> is_space c \<and> c \<noteq> CHR 0x27 \<and> c \<noteq> CHR 0x22 \<and> c \<noteq> CHR '';'')), rlit ''.drv'']"

definition DEFAULT_POLICY :: policy where
  "DEFAULT_POLICY = \<lparr>p_max_jobs = 4, p_cores = 7, p_batch_size = 8, p_build_lanes = Some 1,
     p_plan_ahead = Some 0, p_scheduling = Some ''batched'', p_wall_seconds = 7200,
     p_silent_seconds = 900, p_log_bytes = 128 * 1024 ^ 2, p_eval_seconds = 90,
     p_eval_memory = 4 * 1024 ^ 3, p_min_free_bytes = 50 * 1024 ^ 3,
     p_retained_log_bytes = 20 * 1024 ^ 3,
     p_slice = ''/sys/fs/cgroup/filnix.slice/filnix-workload.slice'',
     p_cpus = ''1-15,17-31'', p_memory_fraction = 4 / 5\<rparr>"

text \<open>\<^verbatim>\<open>bytes.splitlines()\<close> and \<^verbatim>\<open>str.splitlines()\<close>: a trailing line break ends the last line and
  starts no new one.\<close>

definition byte_break :: "char \<Rightarrow> bool" where
  "byte_break c \<longleftrightarrow> of_char c \<in> {10, 13 :: nat}"

definition str_break :: "char \<Rightarrow> bool" where
  "str_break c \<longleftrightarrow> of_char c \<in> {10, 11, 12, 13, 28, 29, 30, 133 :: nat}"

fun splitlines_acc :: "(char \<Rightarrow> bool) \<Rightarrow> string \<Rightarrow> string \<Rightarrow> string list" where
  "splitlines_acc br acc [] = (if acc = [] then [] else [rev acc])"
| "splitlines_acc br acc [c] =
     (if br c then [rev acc] else [rev (c # acc)])"
| "splitlines_acc br acc (c # d # s) =
     (if br c then
        (if c = CHR 0x0D \<and> d = CHR 0x0A then rev acc # splitlines_acc br [] s
         else rev acc # splitlines_acc br [] (d # s))
      else splitlines_acc br (c # acc) (d # s))"

definition splitlines :: "(char \<Rightarrow> bool) \<Rightarrow> string \<Rightarrow> string list" where
  "splitlines br s = splitlines_acc br [] s"

fun chunks :: "nat \<Rightarrow> 'a list \<Rightarrow> 'a list list" where
  "chunks n xs = (if xs = [] \<or> n = 0 then [] else take n xs # chunks n (drop n xs))"

declare chunks.simps [simp del]

section \<open>Store validity\<close>

definition info_valid :: "json \<Rightarrow> bool result" where
  "info_valid info = bindr (jget ''valid'' info) (\<lambda>v. Inr (case v of None \<Rightarrow> True | Some j \<Rightarrow> truthy j))"

fun valid_paths :: "json \<Rightarrow> string list result" where
  "valid_paths (JObj kvs) =
     bindr (map_res (\<lambda>(p, info). if info = JNull then Inr [] else
              bindr (info_valid info) (\<lambda>v. Inr (if v then [p] else []))) kvs) (\<lambda>pss. Inr (concat pss))"
| "valid_paths (JArr infos) =
     bindr (map_res (\<lambda>info. bindr (info_valid info) (\<lambda>v.
              if v then bindr (jindex ''path'' info) (\<lambda>j. bindr (jstring j) (\<lambda>p. Inr [p])) else Inr [])) infos)
       (\<lambda>pss. Inr (concat pss))"
| "valid_paths _ = Inl (TypeError ''not iterable'')"

text \<open>\<^verbatim>\<open>nix path-info --json\<close> on at most 128 paths; \<^verbatim>\<open>None\<close> is output that is not JSON.\<close>

definition valid_query :: "(string list \<Rightarrow> json option) \<Rightarrow> string list \<Rightarrow> string set result" where
  "valid_query path_info paths =
     (case path_info (sort paths) of
        None \<Rightarrow> Inl (ValueError ''Nix store validity query failed: '')
      | Some data \<Rightarrow> bindr (valid_paths data) (\<lambda>ps. Inr (set ps)))"

definition valid :: "(string list \<Rightarrow> json option) \<Rightarrow> string set \<Rightarrow> string set result" where
  "valid path_info paths =
     (if paths = {} then Inr {}
      else let ordered = sorted_list_of_set paths in
        if 128 < length ordered
        then bindr (map_res (valid_query path_info) (chunks 128 ordered)) (\<lambda>ss. Inr (\<Union> (set ss)))
        else valid_query path_info ordered)"

section \<open>Derivation graphs\<close>

definition store_path :: "string \<Rightarrow> string" where
  "store_path s = (if starts_with ''/'' s then s else ''/nix/store/'' @ s)"

definition normalize_output :: "json \<Rightarrow> json result" where
  "normalize_output v =
     bindr (jitems v) (\<lambda>kvs.
     bindr (jget ''path'' v) (\<lambda>p.
     if truthy_opt p then bindr (jstring (the p)) (\<lambda>s. Inr (JObj (dict_set ''path'' (JStr (store_path s)) kvs)))
     else Inr v))"

definition normalize_info :: "string \<Rightarrow> json \<Rightarrow> (string \<times> json) result" where
  "normalize_info drv0 info =
     bindr (jitems info) (\<lambda>kvs.
     let drv = store_path drv0 in
     case (map_of kvs ''outputs'', map_of kvs ''inputDrvs'') of
       (Some outs, Some ins) \<Rightarrow>
         if \<not> fullmatch DRV drv then Inl (ValueError ''unsupported derivation JSON; retain raw output and update adapter'')
         else bindr (jitems outs) (\<lambda>okvs.
              bindr (map_res (\<lambda>(k, v). bindr (normalize_output v) (\<lambda>v'. Inr (k, v'))) okvs) (\<lambda>outs'.
              bindr (jitems ins) (\<lambda>ikvs.
              let ins' = fold (\<lambda>(k, v) acc. dict_set (store_path k) v acc) ikvs [] in
              Inr (drv, JObj (dict_set ''inputDrvs'' (JObj ins') (dict_set ''outputs'' (JObj outs') kvs))))))
     | _ \<Rightarrow> Inl (ValueError ''unsupported derivation JSON; retain raw output and update adapter''))"

definition normalize_graph :: "json \<Rightarrow> (string \<times> json) list result" where
  "normalize_graph data =
     bindr (jitems data) (\<lambda>top.
     bindr (case map_of top ''derivations'' of None \<Rightarrow> Inr top | Some d \<Rightarrow> jitems d) (\<lambda>kvs.
     bindr (map_res (\<lambda>(drv, info). normalize_info drv info) kvs) (\<lambda>rows.
     Inr (fold (\<lambda>(drv, info) acc. dict_set drv info acc) rows []))))"

definition path_of :: "json option \<Rightarrow> string option" where
  "path_of v = (case v of Some (JStr s) \<Rightarrow> Some s | _ \<Rightarrow> None)"

definition known_path :: "string option \<Rightarrow> bool" where
  "known_path v \<longleftrightarrow> v \<noteq> None \<and> v \<noteq> Some []"

text \<open>Output names with their paths; one unresolved fixed output is looked up in the recorded
  row, then in the store.\<close>

definition graph_outputs :: "nix_obs \<Rightarrow> string \<Rightarrow> derivation option \<Rightarrow> json \<Rightarrow> (string \<times> string option) list result" where
  "graph_outputs nx drv old info =
     bindr (jindex ''outputs'' info) (\<lambda>outs.
     bindr (jitems outs) (\<lambda>okvs.
     bindr (map_res (\<lambda>(k, v). bindr (jget ''path'' v) (\<lambda>p. Inr (k, path_of p))) okvs) (\<lambda>outputs.
     if outputs = [(''out'', None)] then
       (let known = (case old of None \<Rightarrow> None
                     | Some d \<Rightarrow> (case map_of (d_outputs d) ''out'' of None \<Rightarrow> None | Some p \<Rightarrow> p)) in
        if known_path known then Inr [(''out'', known)]
        else if nx_is_file nx drv then
          (case nx_store_outputs nx drv of
             Some [p] \<Rightarrow> Inr [(''out'', Some p)]
           | _ \<Rightarrow> Inr outputs)
        else Inr outputs)
     else Inr outputs)))"

fun strings :: "json list \<Rightarrow> string list result" where
  "strings [] = Inr []"
| "strings (JStr s # js) = bindr (strings js) (\<lambda>ss. Inr (s # ss))"
| "strings (_ # js) = Inl (TypeError ''unorderable'')"

definition graph_attrs :: "runtime \<Rightarrow> json \<Rightarrow> json result" where
  "graph_attrs rt info =
     bindr (jget ''structuredAttrs'' info) (\<lambda>sa.
     bindr (jget ''env'' info) (\<lambda>env.
     let attrs = (if truthy_opt sa then the sa else (case env of None \<Rightarrow> JObj [] | Some e \<Rightarrow> e)) in
     bindr (jget ''__json'' attrs) (\<lambda>j.
     case j of None \<Rightarrow> Inr attrs
     | Some t \<Rightarrow> bindr (jstring t) (\<lambda>s. case rt_loads rt s of None \<Rightarrow> Inl (ValueError ''JSON'') | Some a \<Rightarrow> Inr a))))"

definition graph_features :: "json \<Rightarrow> string list result" where
  "graph_features attrs =
     bindr (jget ''requiredSystemFeatures'' attrs) (\<lambda>f.
     bindr (case f of None \<Rightarrow> Inr [] | Some (JStr s) \<Rightarrow> Inr (words s) | Some (JArr xs) \<Rightarrow> strings xs
            | Some _ \<Rightarrow> Inl (TypeError ''not iterable'')) (\<lambda>features.
     bindr (jget ''__contentAddressed'' attrs) (\<lambda>ca.
     Inr (if List.member [Some (JBool True), Some (JStr ''1''), Some (JInt 1), Some (JFloat 1)] ca
          then features @ [''ca-derivations''] else features))))"

definition drv_basename :: "string \<Rightarrow> string" where
  "drv_basename drv = (let n = last (split_on CHR ''/'' drv) in drop 33 (take (length n - 4) n))"

definition graph_name :: "string \<Rightarrow> json \<Rightarrow> string result" where
  "graph_name drv info =
     bindr (jget ''env'' info) (\<lambda>env.
     bindr (jget ''name'' (case env of None \<Rightarrow> JObj [] | Some e \<Rightarrow> e)) (\<lambda>en.
     bindr (jget ''name'' info) (\<lambda>n.
     case n of Some j \<Rightarrow> jstring j
     | None \<Rightarrow> (case en of Some j \<Rightarrow> jstring j | None \<Rightarrow> Inr (drv_basename drv)))))"

fun required_of :: "json \<Rightarrow> required result" where
  "required_of (JArr xs) = bindr (strings xs) (\<lambda>ss. Inr (ReqList ss))"
| "required_of (JObj kvs) =
     (case map_of kvs ''outputs'' of
        None \<Rightarrow> Inr (ReqDict None)
      | Some (JArr xs) \<Rightarrow> bindr (strings xs) (\<lambda>ss. Inr (ReqDict (Some ss)))
      | Some _ \<Rightarrow> Inl (TypeError ''outputs''))"
| "required_of _ = Inl (TypeError ''outputs'')"

definition graph_inputs :: "json \<Rightarrow> (string \<times> required) list result" where
  "graph_inputs info =
     bindr (jindex ''inputDrvs'' info) (\<lambda>i. bindr (jitems i) (\<lambda>ikvs.
     map_res (\<lambda>(child, r). bindr (required_of r) (\<lambda>q. Inr (child, q))) ikvs))"

text \<open>\<^verbatim>\<open>merged.update({k: v for k, v in outputs.items() if v})\<close>.\<close>

definition merge_outputs :: "derivation option \<Rightarrow> (string \<times> string option) list \<Rightarrow> (string \<times> string option) list" where
  "merge_outputs old outputs =
     fold (\<lambda>(k, v) acc. dict_set k v acc) (filter (\<lambda>(k, v). known_path v) outputs)
       (case old of None \<Rightarrow> outputs | Some d \<Rightarrow> d_outputs d)"

definition new_derivation :: "string \<Rightarrow> string \<Rightarrow> (string \<times> string option) list \<Rightarrow> derivation" where
  "new_derivation drv name outputs = \<lparr>d_drv = drv, d_name = name, d_outputs = outputs,
     d_available = False, d_origin = ''unknown'', d_failure = None, d_evidence_attempt = None,
     d_exclusion = None, d_metadata = None\<rparr>"

definition edge_key :: "edge \<Rightarrow> string \<times> string" where
  "edge_key e = (e_parent e, e_child e)"

text \<open>The writes of one graph node, once its fields are decoded.\<close>

definition record_drv :: "string \<Rightarrow> string \<Rightarrow> (string \<times> string option) list \<Rightarrow> drv_metadata \<Rightarrow> string option \<Rightarrow>
    (string \<times> required) list \<Rightarrow> database \<Rightarrow> database" where
  "record_drv drv name outputs meta reason inputs db =
     (let old = find_drv db drv;
          ds1 = insert_or_ignore d_drv (new_derivation drv name outputs) (derivations db);
          ds2 = sql_update (\<lambda>d. d_drv d = drv)
                  (\<lambda>d. d\<lparr>d_outputs := merge_outputs old outputs,
                         d_metadata := (case d_metadata d of None \<Rightarrow> Some meta | Some m \<Rightarrow> Some m)\<rparr>) ds1;
          ds3 = (case reason of
                   Some r \<Rightarrow> sql_update (\<lambda>d. d_drv d = drv \<and> d_exclusion d = None) (\<lambda>d. d\<lparr>d_exclusion := Some r\<rparr>) ds2
                 | None \<Rightarrow> ds2)
      in db\<lparr>derivations := ds3,
            edges := fold (\<lambda>(child, r). insert_or_ignore edge_key \<lparr>e_parent = drv, e_child = child, e_outputs = r\<rparr>)
                       inputs (edges db)\<rparr>)"

definition add_drv :: "runtime \<Rightarrow> nix_obs \<Rightarrow> string \<times> json \<Rightarrow> database \<Rightarrow> database result" where
  "add_drv rt nx row db =
     (let drv = fst row; info = snd row in
      bindr (graph_outputs nx drv (find_drv db drv) info) (\<lambda>outputs.
      bindr (graph_attrs rt info) (\<lambda>attrs.
      bindr (graph_features attrs) (\<lambda>features.
      bindr (jget ''system'' info) (\<lambda>system.
      bindr (graph_name drv info) (\<lambda>name.
      bindr (exclusion (rt_float rt) name info) (\<lambda>reason.
      bindr (graph_inputs info) (\<lambda>inputs.
      Inr (record_drv drv name outputs
             \<lparr>m_system = system, m_features = sort (remdups features), m_local_only = False\<rparr> reason inputs db)))))))))"

definition add_graph :: "runtime \<Rightarrow> nix_obs \<Rightarrow> json \<Rightarrow> database \<Rightarrow> database result" where
  "add_graph rt nx data db = bindr (normalize_graph data) (\<lambda>rows. foldr_res (add_drv rt nx) rows db)"

section \<open>Build machines\<close>

record machine =
  mc_uri :: string
  mc_systems :: "string list"
  mc_max_jobs :: int
  mc_supported :: "string list"
  mc_mandatory :: "string list"

definition machine_field :: "string list \<Rightarrow> nat \<Rightarrow> string \<Rightarrow> string" where
  "machine_field fs i d = (if i < length fs \<and> fs ! i \<noteq> ''-'' then fs ! i else d)"

definition machine_of :: "string \<Rightarrow> string list \<Rightarrow> machine result" where
  "machine_of system fs =
     (case py_int (machine_field fs 3 ''1'') of
        None \<Rightarrow> Inl (ValueError ''invalid literal for int()'')
      | Some n \<Rightarrow> Inr \<lparr>mc_uri = fs ! 0,
          mc_systems = split_on CHR '','' (machine_field fs 1 system), mc_max_jobs = n,
          mc_supported = (if machine_field fs 5 [] = [] then [] else split_on CHR '','' (machine_field fs 5 [])),
          mc_mandatory = (if machine_field fs 6 [] = [] then [] else split_on CHR '','' (machine_field fs 6 []))\<rparr>)"

definition parse_machines :: "string \<Rightarrow> string \<Rightarrow> machine list result" where
  "parse_machines system text =
     bindr (foldr_res (\<lambda>line acc.
        let fs = words (hd (split_on CHR ''#'' line)) in
        if fs = [] then Inr acc
        else bindr (machine_of system fs) (\<lambda>m. Inr (dict_set (mc_uri m) m acc)))
       (splitlines str_break (map (\<lambda>c. if c = CHR '';'' then CHR 0x0A else c) text)) [])
     (\<lambda>ms. Inr (map snd ms))"

definition build_machines :: "(string \<Rightarrow> string result) \<Rightarrow> string \<Rightarrow> string \<Rightarrow> machine list result" where
  "build_machines read_text builders system =
     bindr (if starts_with ''@'' builders then read_text (drop 1 builders) else Inr builders) (parse_machines system)"

section \<open>Log events\<close>

definition jeq_int :: "json option \<Rightarrow> int \<Rightarrow> bool" where
  "jeq_int v n = (case v of Some (JInt m) \<Rightarrow> m = n | Some (JFloat x) \<Rightarrow> x = of_int n | _ \<Rightarrow> False)"

fun py_str :: "runtime \<Rightarrow> json \<Rightarrow> string" where
  "py_str rt (JStr s) = s"
| "py_str rt (JInt n) = encode_int n"
| "py_str rt JNull = ''None''"
| "py_str rt (JBool b) = (if b then ''True'' else ''False'')"
| "py_str rt j = rt_str rt j"

text \<open>A log line that starts with \<^verbatim>\<open>@nix \<close> and holds a JSON object.\<close>

definition nix_event :: "runtime \<Rightarrow> string \<Rightarrow> (string \<times> json) list option" where
  "nix_event rt raw =
     (if starts_with ''@nix '' raw then
        (case rt_loads rt (drop 5 raw) of Some (JObj e) \<Rightarrow> Some e | _ \<Rightarrow> None)
      else None)"

definition event_fields :: "(string \<times> json) list \<Rightarrow> json list option" where
  "event_fields e = (case map_of e ''fields'' of None \<Rightarrow> Some [] | Some (JArr xs) \<Rightarrow> Some xs | Some _ \<Rightarrow> None)"

definition event_id :: "runtime \<Rightarrow> (string \<times> json) list \<Rightarrow> string" where
  "event_id rt e = (case map_of e ''id'' of None \<Rightarrow> [] | Some j \<Rightarrow> py_str rt j)"

definition activity_key :: "activity \<Rightarrow> string \<times> string" where
  "activity_key a = (av_attempt a, av_activity a)"

fun first_string :: "json list \<Rightarrow> string option" where
  "first_string (JStr s # js) = Some s"
| "first_string _ = None"

definition observe_event :: "string \<Rightarrow> string \<Rightarrow> json option \<Rightarrow> json option \<Rightarrow> string option \<Rightarrow> activity list \<Rightarrow> activity list" where
  "observe_event aid act action typ field rows =
     (if action = Some (JStr ''start'') \<and> jeq_int typ 105 \<and> field \<noteq> None then
        (if fullmatch DRV (the field)
         then insert_or_ignore activity_key \<lparr>av_attempt = aid, av_activity = act, av_drv = field,
                av_kind = Some ''build'', av_phase = None, av_checks = [], av_stopped = False\<rparr> rows
         else rows)
      else if action = Some (JStr ''result'') \<and> jeq_int typ 104 \<and> field \<noteq> None then
        sql_update (\<lambda>a. activity_key a = (aid, act))
          (\<lambda>a. a\<lparr>av_phase := field,
                 av_checks := (if List.member [''checkPhase'', ''installCheckPhase''] (the field)
                               then av_checks a @ [the field] else av_checks a)\<rparr>) rows
      else if action = Some (JStr ''stop'') then
        sql_update (\<lambda>a. activity_key a = (aid, act)) (\<lambda>a. a\<lparr>av_stopped := True\<rparr>) rows
      else rows)"

definition observe :: "runtime \<Rightarrow> string \<Rightarrow> string \<Rightarrow> database \<Rightarrow> database" where
  "observe rt aid raw db =
     (case nix_event rt raw of
        None \<Rightarrow> db
      | Some e \<Rightarrow> (case event_fields e of
          None \<Rightarrow> db
        | Some fs \<Rightarrow> db\<lparr>activities := observe_event aid (event_id rt e) (map_of e ''action'') (map_of e ''type'')
                           (first_string fs) (activities db)\<rparr>))"

text \<open>\<^verbatim>\<open>re.sub(pattern, "", text)\<close> for a pattern that never matches the empty string.\<close>

function resub :: "rx \<Rightarrow> string \<Rightarrow> string" where
  "resub r [] = []"
| "resub r (c # s) =
     (case longest r (c # s) of
        Some (d # w) \<Rightarrow> resub r (drop (length w) s)
      | _ \<Rightarrow> c # resub r s)"
  by pat_completeness auto
termination by (relation "measure (\<lambda>(r, s). length s)") auto

definition SGR :: rx where
  "SGR = rseqs [rlit [CHR 0x1B, CHR ''[''], RStar (RChar (\<lambda>c. is_digit c \<or> c = CHR '';'')), rlit ''m'']"

definition root_failure :: "string \<Rightarrow> bool" where
  "root_failure msg \<longleftrightarrow>
     contains ''builder for'' msg \<and> contains ''failed'' msg
   \<or> starts_with (''error: Cannot build '' @ [CHR 0x27]) msg \<and> contains ''Reason: builder failed with exit code'' msg"

definition failure_message :: "runtime \<Rightarrow> string \<Rightarrow> string option" where
  "failure_message rt line =
     (case nix_event rt line of
        None \<Rightarrow> None
      | Some e \<Rightarrow> (case (case map_of e ''msg'' of None \<Rightarrow> Some [] | Some (JStr m) \<Rightarrow> Some m | Some _ \<Rightarrow> None) of
          None \<Rightarrow> None
        | Some m \<Rightarrow> (let msg = resub SGR m in
            if map_of e ''action'' = Some (JStr ''msg'') \<and> root_failure msg then search_group DRV msg else None)))"

definition failure_messages :: "runtime \<Rightarrow> string \<Rightarrow> string set" where
  "failure_messages rt raw = set (List.map_filter (failure_message rt) (splitlines byte_break raw))"

section \<open>Resources\<close>

definition cpu_item :: "string \<Rightarrow> int set \<Rightarrow> int set result" where
  "cpu_item item acc =
     (if strip item = [] then Inr acc
      else let bits = split_on CHR ''-'' (strip item) in
        case (py_int (hd bits), py_int (last bits)) of
          (Some lo, Some hi) \<Rightarrow> Inr (acc \<union> {lo..hi})
        | _ \<Rightarrow> Inl (ValueError ''invalid literal for int()''))"

definition cpu_set :: "string \<Rightarrow> int set result" where
  "cpu_set value = foldr_res cpu_item (split_on CHR '','' value) {}"

record slice_obs =
  so_memory :: int
  so_maximum :: int
  so_high :: int
  so_cpus :: string
  so_total :: int
  so_daemon :: string
  so_events :: string

record resource_report =
  rr_verified :: bool
  rr_reason :: string
  rr_memory :: int
  rr_high :: "int option"
  rr_events :: "string option"

definition cgroup_relative :: "string \<Rightarrow> string" where
  "cgroup_relative slice = ''/'' @ drop (length ''/sys/fs/cgroup/'') slice"

text \<open>The observation is an error text when a file is missing or unreadable.\<close>

definition resources :: "string + slice_obs \<Rightarrow> policy \<Rightarrow> resource_report" where
  "resources obs pol =
     (case obs of
        Inl e \<Rightarrow> \<lparr>rr_verified = False, rr_reason = e, rr_memory = 0, rr_high = None, rr_events = None\<rparr>
      | Inr ob \<Rightarrow>
         (case (cpu_set (so_cpus ob), cpu_set (p_cpus pol)) of
            (Inr effective, Inr allowed) \<Rightarrow>
              (let configured = effective \<subseteq> allowed \<and> so_cpus ob \<noteq> [];
                   bounded = rat_of_int (so_maximum ob) \<le> rat_of_int (so_total ob) * p_memory_fraction pol * (1001 / 1000);
                   contained = starts_with (cgroup_relative (p_slice pol) @ ''/'') (so_daemon ob);
                   ok = configured \<and> bounded \<and> contained
               in \<lparr>rr_verified = ok,
                   rr_reason = (if ok then [] else ''daemon containment or resource limits do not match policy''),
                   rr_memory = so_memory ob, rr_high = Some (so_high ob), rr_events = Some (so_events ob)\<rparr>)
          | _ \<Rightarrow> \<lparr>rr_verified = False, rr_reason = ''invalid literal for int()'', rr_memory = 0,
                  rr_high = None, rr_events = None\<rparr>))"

section \<open>Chunked store queries are one query\<close>

lemma concat_chunks: "0 < n \<Longrightarrow> concat (chunks n xs) = xs"
  by (induction n xs rule: chunks.induct) (subst chunks.simps, auto)

lemma length_chunks: "ys \<in> set (chunks n xs) \<Longrightarrow> length ys \<le> n"
proof (induction n xs rule: chunks.induct)
  case (1 n xs)
  then show ?case by (auto simp: chunks.simps [of n xs] split: if_splits)
qed

text \<open>What \<^verbatim>\<open>nix path-info --json\<close> documents: an object with one entry per queried path, null for
  a path that is not valid.\<close>

definition answers_for :: "string set \<Rightarrow> (string list \<Rightarrow> json option) \<Rightarrow> bool" where
  "answers_for V path_info \<longleftrightarrow>
     (\<forall>ps. \<exists>kvs. path_info ps = Some (JObj kvs) \<and> map fst kvs = ps \<and>
        (\<forall>(p, i) \<in> set kvs. if p \<in> V then (\<exists>o'. i = JObj o' \<and> map_of o' ''valid'' = None) else i = JNull))"

lemma valid_paths_answer:
  assumes "\<forall>(p, i) \<in> set kvs. if p \<in> V then (\<exists>o'. i = JObj o' \<and> map_of o' ''valid'' = None) else i = JNull"
  shows "valid_paths (JObj kvs) = Inr (filter (\<lambda>p. p \<in> V) (map fst kvs))"
proof -
  have "map_res (\<lambda>(p, info). if info = JNull then Inr [] else
          bindr (info_valid info) (\<lambda>v. Inr (if v then [p] else []))) kvs
        = Inr (map (\<lambda>p. if p \<in> V then [p] else []) (map fst kvs))"
    using assms
  proof (induction kvs)
    case (Cons kv kvs)
    obtain p i where kv: "kv = (p, i)" by (cases kv)
    show ?case
    proof (cases "p \<in> V")
      case True
      then obtain o' where "i = JObj o'" "map_of o' ''valid'' = None"
        using Cons.prems kv by auto
      with Cons True kv show ?thesis by (auto simp: info_valid_def)
    next
      case False
      with Cons kv show ?thesis by auto
    qed
  qed simp
  moreover have "concat (map (\<lambda>p. if p \<in> V then [p] else []) ps) = filter (\<lambda>p. p \<in> V) ps" for ps :: "string list"
    by (induction ps) auto
  ultimately show ?thesis by (simp del: map_map)
qed

lemma valid_query_answer:
  assumes "answers_for V path_info"
  shows "valid_query path_info ps = Inr (set ps \<inter> V)"
proof -
  from assms obtain kvs where "path_info (sort ps) = Some (JObj kvs)" "map fst kvs = sort ps"
    "\<forall>(p, i) \<in> set kvs. if p \<in> V then (\<exists>o'. i = JObj o' \<and> map_of o' ''valid'' = None) else i = JNull"
    unfolding answers_for_def by blast
  with valid_paths_answer [of kvs V] show ?thesis
    by (auto simp: valid_query_def simp del: valid_paths.simps)
qed

lemma map_res_total: "(\<And>x. f x = Inr (g x)) \<Longrightarrow> map_res f xs = Inr (map g xs)"
  by (induction xs) simp_all

lemma valid_exact:
  assumes "answers_for V path_info" and "finite P"
  shows "valid path_info P = Inr (P \<inter> V)"
proof -
  let ?xs = "sorted_list_of_set P"
  have "(\<Union>ys \<in> set (chunks 128 ?xs). set ys) = set (concat (chunks 128 ?xs))" by simp
  also have "\<dots> = P" using assms(2) by (simp add: concat_chunks)
  finally have "(\<Union>ys \<in> set (chunks 128 ?xs). set ys \<inter> V) = P \<inter> V" by blast
  with assms show ?thesis
    by (simp add: valid_def Let_def valid_query_answer map_res_total image_image)
qed

section \<open>Recording a graph only adds knowledge\<close>

text \<open>What a later row keeps of an earlier one: identity and observed facts, and everything
  that was known about outputs, scope and scheduling metadata.\<close>

definition drv_grows :: "derivation \<Rightarrow> derivation \<Rightarrow> bool" where
  "drv_grows d d' \<longleftrightarrow>
     d_drv d' = d_drv d \<and> d_name d' = d_name d \<and> d_available d' = d_available d
   \<and> d_origin d' = d_origin d \<and> d_failure d' = d_failure d \<and> d_evidence_attempt d' = d_evidence_attempt d
   \<and> (d_exclusion d \<noteq> None \<longrightarrow> d_exclusion d' = d_exclusion d)
   \<and> (d_metadata d \<noteq> None \<longrightarrow> d_metadata d' = d_metadata d)
   \<and> (\<forall>k p. map_of (d_outputs d) k = Some p \<longrightarrow> known_path p \<longrightarrow>
        (\<exists>q. map_of (d_outputs d') k = Some q \<and> known_path q))"

definition graph_frame :: "database \<Rightarrow> database \<Rightarrow> bool" where
  "graph_frame db db' \<longleftrightarrow>
     campaigns db' = campaigns db \<and> candidates db' = candidates db \<and> roles db' = roles db
   \<and> attempts db' = attempts db \<and> activities db' = activities db \<and> tests db' = tests db
   \<and> events db' = events db \<and> build_times db' = build_times db \<and> replans db' = replans db
   \<and> classifications db' = classifications db"

definition graph_grows :: "database \<Rightarrow> database \<Rightarrow> bool" where
  "graph_grows db db' \<longleftrightarrow>
     (\<forall>d \<in> set (derivations db). \<exists>d' \<in> set (derivations db'). drv_grows d d')
   \<and> set (edges db) \<subseteq> set (edges db')
   \<and> graph_frame db db'"

lemma graph_growsD:
  "graph_grows db db' \<Longrightarrow> d \<in> set (derivations db) \<Longrightarrow> \<exists>d' \<in> set (derivations db'). drv_grows d d'"
  "graph_grows db db' \<Longrightarrow> e \<in> set (edges db) \<Longrightarrow> e \<in> set (edges db')"
  "graph_grows db db' \<Longrightarrow> graph_frame db db'"
  by (auto simp: graph_grows_def)

lemma drv_grows_key: "drv_grows d d' \<Longrightarrow> d_drv d = d_drv d'"
  by (simp add: drv_grows_def)

lemma drv_grows_refl [simp]: "drv_grows d d"
  by (auto simp: drv_grows_def)

lemma drv_grows_trans: "drv_grows a b \<Longrightarrow> drv_grows b c \<Longrightarrow> drv_grows a c"
  unfolding drv_grows_def by metis

lemma graph_grows_refl [simp]: "graph_grows db db"
  by (auto simp: graph_grows_def graph_frame_def intro: drv_grows_refl)

lemma graph_grows_trans:
  assumes "graph_grows a b" and "graph_grows b c"
  shows "graph_grows a c"
proof -
  have "\<exists>d' \<in> set (derivations c). drv_grows d d'" if "d \<in> set (derivations a)" for d
    using assms that unfolding graph_grows_def by (meson drv_grows_trans)
  moreover have "graph_frame a c"
    using assms by (simp add: graph_grows_def graph_frame_def)
  ultimately show ?thesis using assms unfolding graph_grows_def by blast
qed

lemma merge_fold_known:
  "(\<exists>q. map_of acc k = Some q \<and> known_path q) \<Longrightarrow> \<forall>(k, v) \<in> set kvs. known_path v \<Longrightarrow>
     \<exists>q. map_of (fold (\<lambda>(k, v) acc. dict_set k v acc) kvs acc) k = Some q \<and> known_path q"
  by (induction kvs arbitrary: acc) (auto split: prod.splits)

lemma merge_outputs_known:
  "map_of (d_outputs d) k = Some p \<Longrightarrow> known_path p \<Longrightarrow>
     \<exists>q. map_of (merge_outputs (Some d) outputs) k = Some q \<and> known_path q"
  unfolding merge_outputs_def by (rule merge_fold_known) auto

interpretation drv_rows: keyed_update d_drv "\<lambda>d. d\<lparr>d_outputs := outs, d_metadata := f (d_metadata d)\<rparr>" for outs f
  by unfold_locales simp

interpretation drv_excl: keyed_update d_drv "\<lambda>d. d\<lparr>d_exclusion := x\<rparr>" for x
  by unfold_locales simp

lemma fold_insert_or_ignore_subset:
  "set rows \<subseteq> set (fold (\<lambda>x. insert_or_ignore key (g x)) xs rows)"
proof (induction xs arbitrary: rows)
  case (Cons x xs)
  have "set rows \<subseteq> set (insert_or_ignore key (g x) rows)" by (auto simp: sql_simps)
  also have "\<dots> \<subseteq> set (fold (\<lambda>x. insert_or_ignore key (g x)) xs (insert_or_ignore key (g x) rows))"
    by (rule Cons.IH)
  finally show ?case by simp
qed simp

lemma fold_insert_or_ignore_keys:
  "key ` set (fold (\<lambda>x. insert_or_ignore key (g x)) xs rows) = key ` set rows \<union> (key \<circ> g) ` set xs"
  by (induction xs arbitrary: rows) (auto simp: sql_simps)

lemma fold_insert_or_ignore_unique:
  "unique_keys key rows \<Longrightarrow> unique_keys key (fold (\<lambda>x. insert_or_ignore key (g x)) xs rows)"
  by (induction xs arbitrary: rows) auto

lemma record_drv_edges:
  "edges (record_drv drv name outputs meta reason inputs db) =
     fold (\<lambda>x. insert_or_ignore edge_key \<lparr>e_parent = drv, e_child = fst x, e_outputs = snd x\<rparr>) inputs (edges db)"
  by (simp add: record_drv_def Let_def case_prod_unfold)

text \<open>The one row that recording a node writes, in closed form.\<close>

definition recorded_row :: "derivation option \<Rightarrow> (string \<times> string option) list \<Rightarrow> drv_metadata \<Rightarrow> string option \<Rightarrow> derivation \<Rightarrow> derivation" where
  "recorded_row old outputs meta reason d =
     d\<lparr>d_outputs := merge_outputs old outputs,
       d_metadata := (case d_metadata d of None \<Rightarrow> Some meta | Some m \<Rightarrow> Some m),
       d_exclusion := (case d_exclusion d of Some x \<Rightarrow> Some x | None \<Rightarrow> reason)\<rparr>"

lemma record_drv_rows:
  "derivations (record_drv drv name outputs meta reason inputs db) =
     sql_update (\<lambda>d. d_drv d = drv) (recorded_row (find_drv db drv) outputs meta reason)
       (insert_or_ignore d_drv (new_derivation drv name outputs) (derivations db))"
  by (cases reason)
    (auto simp: record_drv_def Let_def recorded_row_def sql_update_def split: option.splits)

lemma recorded_row_grows:
  assumes "old = Some d"
  shows "drv_grows d (recorded_row old outputs meta reason d)"
  using assms merge_outputs_known [of d]
  by (auto simp: recorded_row_def drv_grows_def split: option.splits)

lemma record_drv_grows:
  assumes "unique_keys d_drv (derivations db)"
  shows "graph_grows db (record_drv drv name outputs meta reason inputs db)"
proof -
  let ?db = "record_drv drv name outputs meta reason inputs db"
  have "\<exists>d' \<in> set (derivations ?db). drv_grows d d'" if d: "d \<in> set (derivations db)" for d
  proof (cases "d_drv d = drv")
    case True
    then have old: "find_drv db drv = Some d"
      using find_row_unique [OF assms d] by (simp add: find_drv_def)
    have "recorded_row (find_drv db drv) outputs meta reason d \<in> set (derivations ?db)"
      using d True by (auto simp: record_drv_rows sql_simps)
    with recorded_row_grows [OF old] show ?thesis by blast
  next
    case False
    with d have "d \<in> set (derivations ?db)" by (auto simp: record_drv_rows sql_simps)
    then show ?thesis by (intro bexI [of _ d]) simp_all
  qed
  moreover have "set (edges db) \<subseteq> set (edges ?db)"
    unfolding record_drv_edges by (rule fold_insert_or_ignore_subset)
  moreover have "graph_frame db ?db"
    by (simp add: record_drv_def Let_def graph_frame_def)
  ultimately show ?thesis unfolding graph_grows_def by blast
qed

lemma d_drv_recorded [simp]: "d_drv (recorded_row old outputs meta reason d) = d_drv d"
  by (simp add: recorded_row_def)

lemma d_drv_new [simp]: "d_drv (new_derivation drv name outputs) = drv"
  by (simp add: new_derivation_def)

lemma record_drv_unique:
  assumes "unique_keys d_drv (derivations db)"
  shows "unique_keys d_drv (derivations (record_drv drv name outputs meta reason inputs db))"
proof -
  have "unique_keys d_drv (insert_or_ignore d_drv (new_derivation drv name outputs) (derivations db))"
    using assms by (rule unique_keys_insert_or_ignore)
  then show ?thesis
    by (simp add: record_drv_rows unique_keys_def map_sql_update)
qed

lemma record_drv_present:
  "drv \<in> d_drv ` set (derivations (record_drv drv name outputs meta reason inputs db))"
proof -
  have "drv \<in> d_drv ` set (insert_or_ignore d_drv (new_derivation drv name outputs) (derivations db))"
    by (auto simp: sql_simps)
  moreover have "d_drv ` set (sql_update p (recorded_row old outputs meta reason) rows) = d_drv ` set rows" for p old rows
    by (metis d_drv_recorded list.set_map map_sql_update)
  ultimately show ?thesis by (simp add: record_drv_rows)
qed

lemma add_drv_record:
  assumes "add_drv rt nx row db = Inr db'"
  obtains name outputs meta reason inputs where
    "db' = record_drv (fst row) name outputs meta reason inputs db"
    and "graph_inputs (snd row) = Inr inputs" and "exclusion (rt_float rt) name (snd row) = Inr reason"
  using assms by (auto simp: add_drv_def Let_def bindr_eq_Inr)

lemma add_drv_grows:
  assumes "add_drv rt nx row db = Inr db'" and "unique_keys d_drv (derivations db)"
  shows "graph_grows db db' \<and> unique_keys d_drv (derivations db')"
proof -
  from assms(1) obtain name outputs meta reason inputs where
    "db' = record_drv (fst row) name outputs meta reason inputs db" by (blast elim: add_drv_record)
  then show ?thesis using record_drv_grows [OF assms(2)] record_drv_unique [OF assms(2)] by simp
qed

lemma add_graph_grows:
  assumes "add_graph rt nx data db = Inr db'" and "unique_keys d_drv (derivations db)"
  shows "graph_grows db db' \<and> unique_keys d_drv (derivations db')"
proof -
  from assms(1) obtain rows where rows: "foldr_res (add_drv rt nx) rows db = Inr db'"
    by (auto simp: add_graph_def bindr_eq_Inr)
  show ?thesis
  proof (rule foldr_res_invariant [OF rows, where P = "\<lambda>s. graph_grows db s \<and> unique_keys d_drv (derivations s)"])
    fix row s s'
    assume "graph_grows db s \<and> unique_keys d_drv (derivations s)" and "add_drv rt nx row s = Inr s'"
    then show "graph_grows db s' \<and> unique_keys d_drv (derivations s')"
      using add_drv_grows graph_grows_trans by blast
  qed (use assms(2) in simp)
qed

text \<open>Every node of the graph ends with a row, and with an edge to each of its inputs.\<close>

definition node_recorded :: "string \<times> json \<Rightarrow> database \<Rightarrow> bool" where
  "node_recorded row db \<longleftrightarrow>
     fst row \<in> d_drv ` set (derivations db)
   \<and> (\<forall>inputs. graph_inputs (snd row) = Inr inputs \<longrightarrow>
        (\<forall>child \<in> fst ` set inputs. (fst row, child) \<in> edge_key ` set (edges db)))"

lemma node_recorded_mono:
  assumes "graph_grows db db'" and "node_recorded row db"
  shows "node_recorded row db'"
proof -
  have "d_drv d \<in> d_drv ` set (derivations db')" if "d \<in> set (derivations db)" for d
  proof -
    from graph_growsD(1) [OF assms(1) that] obtain d' where "d' \<in> set (derivations db')" "drv_grows d d'" ..
    then show ?thesis by (auto simp: drv_grows_key)
  qed
  then have "d_drv ` set (derivations db) \<subseteq> d_drv ` set (derivations db')" by blast
  moreover have "edge_key ` set (edges db) \<subseteq> edge_key ` set (edges db')"
    using graph_growsD(2) [OF assms(1)] by blast
  ultimately show ?thesis using assms(2) unfolding node_recorded_def by blast
qed

lemma add_drv_recorded:
  assumes "add_drv rt nx row db = Inr db'"
  shows "node_recorded row db'"
proof -
  from assms obtain name outputs meta reason inputs where
    db': "db' = record_drv (fst row) name outputs meta reason inputs db"
    and inputs: "graph_inputs (snd row) = Inr inputs" by (blast elim: add_drv_record)
  have "edge_key ` set (edges db') = edge_key ` set (edges db) \<union>
      (\<lambda>x. (fst row, fst x)) ` set inputs"
    unfolding db' record_drv_edges fold_insert_or_ignore_keys by (simp add: edge_key_def comp_def)
  with inputs show ?thesis
    unfolding node_recorded_def db' using record_drv_present by auto
qed

lemma fold_add_drv_recorded:
  assumes "foldr_res (add_drv rt nx) rows db = Inr db'" and "unique_keys d_drv (derivations db)"
  shows "\<forall>row \<in> set rows. node_recorded row db'"
  using assms
proof (induction rows arbitrary: db)
  case (Cons row rows)
  then obtain db1 where db1: "add_drv rt nx row db = Inr db1" "foldr_res (add_drv rt nx) rows db1 = Inr db'"
    by (auto simp: bindr_eq_Inr)
  then have u: "unique_keys d_drv (derivations db1)"
    using Cons.prems(2) add_drv_grows by blast
  have "graph_grows db1 db'"
  proof (rule foldr_res_invariant [OF db1(2), where P = "\<lambda>s. graph_grows db1 s \<and> unique_keys d_drv (derivations s)", THEN conjunct1])
    fix row s s'
    assume "graph_grows db1 s \<and> unique_keys d_drv (derivations s)" "add_drv rt nx row s = Inr s'"
    then show "graph_grows db1 s' \<and> unique_keys d_drv (derivations s')"
      using add_drv_grows graph_grows_trans by blast
  qed (use u in simp)
  with add_drv_recorded [OF db1(1)] Cons.IH [OF db1(2) u] show ?case
    using node_recorded_mono by auto
qed simp

lemma add_graph_complete:
  assumes "add_graph rt nx data db = Inr db'" and "unique_keys d_drv (derivations db)"
    and "normalize_graph data = Inr rows" and "row \<in> set rows"
  shows "node_recorded row db'"
  using assms fold_add_drv_recorded by (force simp: add_graph_def)

section \<open>Log events touch activities only\<close>

lemma observe_frame:
  "campaigns (observe rt aid raw db) = campaigns db"
  "candidates (observe rt aid raw db) = candidates db"
  "derivations (observe rt aid raw db) = derivations db"
  "edges (observe rt aid raw db) = edges db"
  "roles (observe rt aid raw db) = roles db"
  "attempts (observe rt aid raw db) = attempts db"
  "tests (observe rt aid raw db) = tests db"
  "events (observe rt aid raw db) = events db"
  "build_times (observe rt aid raw db) = build_times db"
  "replans (observe rt aid raw db) = replans db"
  "classifications (observe rt aid raw db) = classifications db"
  by (simp_all add: observe_def split: option.splits)

lemma observe_plain: "\<not> starts_with ''@nix '' raw \<Longrightarrow> observe rt aid raw db = db"
  by (simp add: observe_def nix_event_def)

end
