(* ===== verification/Scheduling.thy ===== *)
theory Scheduling
  imports NixAdapter
begin

text \<open>
  Admission arithmetic and ownership of unrealized dependencies
  (\<^verbatim>\<open>experiment/scheduling.py\<close>). A build client reserves jobs times cores of the campaign's
  CPU set; a client owns the derivations its roots still need, and the walk that computes
  them stops at outputs that are already available. The cache of \<^verbatim>\<open>BuildGraph\<close> is not part of
  the model: the derivation rows it reads do not change while a graph object is in use.
\<close>

section \<open>Build policy\<close>

definition is_remote :: "attempt \<Rightarrow> bool" where
  "is_remote a \<longleftrightarrow> sp_build_location (at_spec a) = Some ''remote''"

definition limit_jobs :: "attempt \<Rightarrow> int" where
  "limit_jobs a = p_max_jobs (sp_policy (at_spec a))"

definition limit_cores :: "attempt \<Rightarrow> int" where
  "limit_cores a = p_cores (sp_policy (at_spec a))"

text \<open>What the immutable limits of the active clients leave; a client without positive limits
  makes the remainder unknown.\<close>

fun remaining_loop :: "attempt list \<Rightarrow> int \<Rightarrow> int \<Rightarrow> (int \<times> int) option" where
  "remaining_loop [] remaining jobs = Some (remaining, jobs)"
| "remaining_loop (a # as) remaining jobs =
     (if limit_jobs a \<le> 0 \<or> limit_cores a \<le> 0 then None
      else remaining_loop as (remaining - limit_jobs a * limit_cores a) (jobs - limit_jobs a))"

definition lanes :: "policy \<Rightarrow> int" where
  "lanes pol = (if rolling pol then p_max_jobs pol
                else if plan_ahead pol \<noteq> 0 then build_lanes pol else 1)"

definition reserve :: "policy \<Rightarrow> int \<Rightarrow> attempt list \<Rightarrow> policy option" where
  "reserve pol ncpus active =
     (let jobs = (if rolling pol then 1 else max 1 (p_max_jobs pol div lanes pol)); cores = p_cores pol in
      case remaining_loop active ncpus (p_max_jobs pol) of
        None \<Rightarrow> None
      | Some (remaining, remaining_jobs) \<Rightarrow>
          if rolling pol \<and> (remaining_jobs < 1 \<or> remaining < cores) then None
          else if remaining < 1 \<or> cores < 1 then None
          else let jobs' = min jobs (max 1 (remaining div cores)); cores' = min cores (remaining div jobs')
               in Some (pol\<lparr>p_max_jobs := jobs', p_cores := cores'\<rparr>))"

definition build_policy :: "policy \<Rightarrow> attempt list \<Rightarrow> string \<Rightarrow> machine list \<Rightarrow> policy option result" where
  "build_policy pol active location machines =
     (if rolling pol \<and> location = ''remote'' then
        Inr (if int (length (filter is_remote active)) \<ge> sum_list (map mc_max_jobs machines) then None
             else Some (pol\<lparr>p_max_jobs := 0\<rparr>))
      else
        let active' = (if rolling pol then filter (\<lambda>a. \<not> is_remote a) active else active) in
        if int (length active') \<ge> lanes pol then Inr None
        else bindr (cpu_set (p_cpus pol)) (\<lambda>cpus. Inr (reserve pol (int (card cpus)) active')))"

section \<open>Needed dependencies\<close>

definition drv_outputs :: "database \<Rightarrow> string \<Rightarrow> (string \<times> string option) list" where
  "drv_outputs db drv = (case find_drv db drv of None \<Rightarrow> [] | Some d \<Rightarrow> d_outputs d)"

definition output_paths :: "(string \<times> string option) list \<Rightarrow> string list" where
  "output_paths outs = List.map_filter (\<lambda>(k, v). if known_path v then v else None) outs"

definition graph_paths :: "database \<Rightarrow> string set \<Rightarrow> string set" where
  "graph_paths db drvs = (\<Union>d \<in> drvs. set (output_paths (drv_outputs db d)))"

text \<open>\<^verbatim>\<open>paths and None not in paths and paths <= available\<close>.\<close>

definition satisfied :: "database \<Rightarrow> string set \<Rightarrow> string \<times> string list \<Rightarrow> bool" where
  "satisfied db available item =
     (snd item \<noteq> [] \<and> list_all (\<lambda>k. case map_of (drv_outputs db (fst item)) k of
        Some (Some p) \<Rightarrow> p \<in> available | _ \<Rightarrow> False) (snd item))"

fun required_names :: "required \<Rightarrow> string list" where
  "required_names (ReqList ks) = ks"
| "required_names (ReqDict (Some ks)) = ks"
| "required_names (ReqDict None) = []"

definition edge_items :: "database \<Rightarrow> string \<Rightarrow> (string \<times> string list) list" where
  "edge_items db drv = map (\<lambda>e. (e_child e, required_names (e_outputs e)))
     (filter (\<lambda>e. e_parent e = drv) (edges db))"

function needed_loop :: "database \<Rightarrow> string set \<Rightarrow> (string \<times> string list) list \<Rightarrow> string list \<Rightarrow> string list" where
  "needed_loop db available [] need = need"
| "needed_loop db available (item # todo) need =
     (if satisfied db available item then needed_loop db available todo need
      else if List.member need (fst item) then needed_loop db available todo need
      else needed_loop db available (rev (edge_items db (fst item)) @ todo) (fst item # need))"
  by pat_completeness auto

lemma fst_edge_items: "fst ` set (edge_items db drv) \<subseteq> e_child ` set (edges db)"
  by (auto simp: edge_items_def)

lemma unneeded_decreases:
  assumes "x \<notin> set need"
  shows "card (fst ` set (rev (edge_items db x) @ todo) \<union> e_child ` set (edges db) - set (x # need))
    < card (insert x (fst ` set todo) \<union> e_child ` set (edges db) - set need)"
proof (rule psubset_card_mono)
  show "finite (insert x (fst ` set todo) \<union> e_child ` set (edges db) - set need)" by simp
  show "fst ` set (rev (edge_items db x) @ todo) \<union> e_child ` set (edges db) - set (x # need)
    \<subset> insert x (fst ` set todo) \<union> e_child ` set (edges db) - set need"
    using assms fst_edge_items [of db x] by auto
qed

termination needed_loop
proof (relation "measures [\<lambda>(db, av, todo, need). card (fst ` set todo \<union> e_child ` set (edges db) - set need),
    \<lambda>(db, av, todo, need). length todo]", goal_cases)
  case (2 db available item todo need)
  have "card (fst ` set todo \<union> e_child ` set (edges db) - set need)
    \<le> card (fst ` set (item # todo) \<union> e_child ` set (edges db) - set need)"
    by (rule card_mono) auto
  then show ?case by auto
next
  case (3 db available item todo need)
  have "card (fst ` set todo \<union> e_child ` set (edges db) - set need)
    \<le> card (fst ` set (item # todo) \<union> e_child ` set (edges db) - set need)"
    by (rule card_mono) auto
  then show ?case by auto
next
  case (4 db available item todo need)
  with unneeded_decreases [of "fst item" need db todo] show ?case by simp
qed simp

definition target_items :: "database \<Rightarrow> string list \<Rightarrow> (string \<times> string list) list" where
  "target_items db targets = map (\<lambda>d. (d, map fst (drv_outputs db d))) targets"

definition needed :: "database \<Rightarrow> string list \<Rightarrow> string set \<Rightarrow> string set" where
  "needed db targets available = set (needed_loop db available (rev (target_items db targets)) [])"

definition drv_eligible :: "database \<Rightarrow> machine list \<Rightarrow> string \<Rightarrow> bool" where
  "drv_eligible db machines drv =
     (case Option.bind (find_drv db drv) d_metadata of
        None \<Rightarrow> False
      | Some info \<Rightarrow> \<not> m_local_only info \<and> list_ex (\<lambda>m.
          (case m_system info of Some (JStr s) \<Rightarrow> List.member (mc_systems m) s | _ \<Rightarrow> False)
          \<and> set (m_features info) \<subseteq> set (mc_supported m)
          \<and> set (mc_mandatory m) \<subseteq> set (m_features info)) machines)"

definition remote_eligible :: "database \<Rightarrow> string set \<Rightarrow> machine list \<Rightarrow> bool" where
  "remote_eligible db drvs machines = (\<forall>drv \<in> drvs. drv_eligible db machines drv)"

section \<open>Reservations\<close>

definition build_roots :: "target list \<Rightarrow> string list" where
  "build_roots ts = List.map_filter (\<lambda>t. case t of TBuild d \<Rightarrow> Some d | TPlan _ _ \<Rightarrow> None) ts"

definition spec_before :: "(string \<Rightarrow> string list option) \<Rightarrow> attempt \<Rightarrow> string list" where
  "spec_before before a =
     (case before (at_id a) of Some b \<Rightarrow> b
      | None \<Rightarrow> (case sp_admission_available (at_spec a) of None \<Rightarrow> [] | Some b \<Rightarrow> b))"

definition attempt_needs :: "database \<Rightarrow> string set \<Rightarrow> attempt list \<Rightarrow> string set" where
  "attempt_needs db available active = (\<Union>a \<in> set active. needed db (build_roots (sp_targets (at_spec a))) available)"

definition recorded_available :: "database \<Rightarrow> string set" where
  "recorded_available db = (\<Union>d \<in> set (filter d_available (derivations db)). set (output_paths (d_outputs d)))"

definition reservations :: "(string list \<Rightarrow> json option) \<Rightarrow> (string \<Rightarrow> string list option) \<Rightarrow> database \<Rightarrow>
    attempt list \<Rightarrow> string set \<Rightarrow> (string set \<times> string set) result" where
  "reservations path_info before db active observed =
     (let available = observed \<union> recorded_available db \<union> (\<Union>a \<in> set active. set (spec_before before a));
          held = (\<Union>a \<in> set active. needed db (build_roots (sp_targets (at_spec a))) (set (spec_before before a)))
      in bindr (valid path_info (graph_paths db held)) (\<lambda>realized.
         let available' = available \<union> realized
         in Inr (attempt_needs db available' active, available')))"

section \<open>The reservation never exceeds the budget\<close>

definition cpu_load :: "attempt list \<Rightarrow> int" where
  "cpu_load as = sum_list (map (\<lambda>a. limit_jobs a * limit_cores a) as)"

definition job_load :: "attempt list \<Rightarrow> int" where
  "job_load as = sum_list (map limit_jobs as)"

lemma load_simps [simp]:
  "cpu_load [] = 0" "job_load [] = 0"
  "cpu_load (a # as) = limit_jobs a * limit_cores a + cpu_load as"
  "job_load (a # as) = limit_jobs a + job_load as"
  by (simp_all add: cpu_load_def job_load_def)

lemma remaining_loop_Some:
  assumes "remaining_loop as r j = Some (r', j')"
  shows "r' = r - cpu_load as" and "j' = j - job_load as"
    and "\<forall>a \<in> set as. 0 < limit_jobs a \<and> 0 < limit_cores a"
  using assms by (induction as arbitrary: r j) (fastforce split: if_splits)+

lemma min_div_fits:
  fixes jobs cores remaining :: int
  assumes "1 \<le> remaining" and "1 \<le> cores" and "1 \<le> jobs" and "j = min jobs (max 1 (remaining div cores))"
  shows "1 \<le> j" and "1 \<le> min cores (remaining div j)" and "j * min cores (remaining div j) \<le> remaining"
proof -
  show j1: "1 \<le> j" using assms by simp
  have "remaining div cores \<le> remaining div 1"
    using assms by (intro zdiv_mono2) auto
  then have jr: "j \<le> remaining" using assms by auto
  then have "1 \<le> remaining div j" using j1 by (simp add: pos_imp_zdiv_pos_iff int_one_le_iff_zero_less)
  then show "1 \<le> min cores (remaining div j)" using assms(2) by simp
  have "j * min cores (remaining div j) \<le> j * (remaining div j)"
    using j1 by (intro mult_left_mono) auto
  also have "\<dots> \<le> remaining"
    using j1 mult_div_mod_eq [of j remaining] pos_mod_sign [of j remaining] by linarith
  finally show "j * min cores (remaining div j) \<le> remaining" .
qed

lemma reserve_budget:
  assumes "reserve pol n active = Some eff"
  shows "1 \<le> p_max_jobs eff" and "1 \<le> p_cores eff"
    and "p_max_jobs eff * p_cores eff + cpu_load active \<le> n"
    and "rolling pol \<Longrightarrow> p_max_jobs eff + job_load active \<le> p_max_jobs pol"
    and "\<exists>j k. eff = pol\<lparr>p_max_jobs := j, p_cores := k\<rparr> \<and> k \<le> p_cores pol"
proof -
  define jobs where "jobs = (if rolling pol then 1 else max 1 (p_max_jobs pol div lanes pol))"
  obtain r rj where rem: "remaining_loop active n (p_max_jobs pol) = Some (r, rj)"
    using assms by (cases "remaining_loop active n (p_max_jobs pol)") (auto simp: reserve_def)
  note unfolded = assms [unfolded reserve_def Let_def rem option.case prod.case, folded jobs_def]
  have guards: "\<not> (rolling pol \<and> (rj < 1 \<or> r < p_cores pol))" "\<not> (r < 1 \<or> p_cores pol < 1)"
    using unfolded by (metis option.distinct(1))+
  then have roll: "rolling pol \<Longrightarrow> 1 \<le> rj" and r: "1 \<le> r" and c: "1 \<le> p_cores pol" by auto
  have eff: "eff = pol\<lparr>p_max_jobs := min jobs (max 1 (r div p_cores pol)),
        p_cores := min (p_cores pol) (r div (min jobs (max 1 (r div p_cores pol))))\<rparr>"
    using unfolded guards by simp
  have jobs: "1 \<le> jobs" by (simp add: jobs_def)
  note fits = min_div_fits [OF r c jobs refl]
  from eff fits(1) show "1 \<le> p_max_jobs eff" by simp
  from eff fits(2) show "1 \<le> p_cores eff" by simp
  from eff fits(3) remaining_loop_Some(1) [OF rem]
  show "p_max_jobs eff * p_cores eff + cpu_load active \<le> n" by simp
  show "p_max_jobs eff + job_load active \<le> p_max_jobs pol" if "rolling pol"
    using eff that roll [OF that] remaining_loop_Some(2) [OF rem] by (auto simp: jobs_def)
  show "\<exists>j k. eff = pol\<lparr>p_max_jobs := j, p_cores := k\<rparr> \<and> k \<le> p_cores pol"
    unfolding eff by (intro exI conjI, rule refl) simp
qed

text \<open>The clients whose reservations count against the local CPU set.\<close>

definition local_builds :: "attempt list \<Rightarrow> attempt list" where
  "local_builds as = filter (\<lambda>a. \<not> is_remote a) as"

lemma build_policy_local:
  assumes "build_policy pol active location machines = Inr (Some eff)" and "\<not> (rolling pol \<and> location = ''remote'')"
  obtains cpus where "cpu_set (p_cpus pol) = Inr cpus"
    and "reserve pol (int (card cpus)) (if rolling pol then local_builds active else active) = Some eff"
    and "int (length (if rolling pol then local_builds active else active)) < lanes pol"
  using assms by (auto simp: build_policy_def local_builds_def Let_def bindr_eq_Inr split: if_splits)

lemma local_load_le:
  "\<forall>a \<in> set as. 0 < limit_jobs a \<and> 0 < limit_cores a \<Longrightarrow> cpu_load (local_builds as) \<le> cpu_load as"
  by (induction as) (auto simp: local_builds_def add_increasing)

lemma reserve_positive:
  assumes "reserve pol n active = Some eff"
  shows "\<forall>a \<in> set active. 0 < limit_jobs a \<and> 0 < limit_cores a"
proof -
  from assms obtain r rj where "remaining_loop active n (p_max_jobs pol) = Some (r, rj)"
    by (auto simp: reserve_def Let_def split: option.splits)
  then show ?thesis by (rule remaining_loop_Some(3))
qed

lemma build_policy_budget:
  assumes "build_policy pol active location machines = Inr (Some eff)" and "\<not> (rolling pol \<and> location = ''remote'')"
    and "cpu_set (p_cpus pol) = Inr cpus"
  shows "1 \<le> p_max_jobs eff" and "1 \<le> p_cores eff"
    and "p_max_jobs eff * p_cores eff + cpu_load (local_builds active) \<le> int (card cpus)"
proof -
  obtain r: "reserve pol (int (card cpus)) (if rolling pol then local_builds active else active) = Some eff"
    using build_policy_local [OF assms(1,2)] assms(3) by (metis sum.inject(2))
  show "1 \<le> p_max_jobs eff" "1 \<le> p_cores eff" using reserve_budget(1,2) [OF r] .
  have "cpu_load (local_builds active) \<le> cpu_load (if rolling pol then local_builds active else active)"
    using local_load_le [of active] reserve_positive [OF r] by auto
  with reserve_budget(3) [OF r]
  show "p_max_jobs eff * p_cores eff + cpu_load (local_builds active) \<le> int (card cpus)" by linarith
qed

lemma build_policy_remote:
  assumes "build_policy pol active ''remote'' machines = Inr (Some eff)" and "rolling pol"
  shows "eff = pol\<lparr>p_max_jobs := 0\<rparr>"
    and "int (length (filter is_remote active)) < sum_list (map mc_max_jobs machines)"
  using assms by (auto simp: build_policy_def split: if_splits)

section \<open>What a client needs\<close>

text \<open>The contract of the walk: a root whose outputs are not all available is needed, and so
  is every input of a needed derivation whose required outputs are not all available.\<close>

inductive_set needs :: "database \<Rightarrow> string list \<Rightarrow> string set \<Rightarrow> string set"
  for db targets available where
  needs_target: "t \<in> set targets \<Longrightarrow> \<not> satisfied db available (t, map fst (drv_outputs db t)) \<Longrightarrow>
    t \<in> needs db targets available"
| needs_input: "d \<in> needs db targets available \<Longrightarrow> item \<in> set (edge_items db d) \<Longrightarrow>
    \<not> satisfied db available item \<Longrightarrow> fst item \<in> needs db targets available"

inductive_cases needs_cases: "d \<in> needs db targets available"

lemma needed_loop_sound:
  "\<forall>item \<in> set todo. satisfied db av item \<or> fst item \<in> N \<Longrightarrow> set need \<subseteq> N \<Longrightarrow>
   (\<And>d item. d \<in> N \<Longrightarrow> item \<in> set (edge_items db d) \<Longrightarrow> \<not> satisfied db av item \<Longrightarrow> fst item \<in> N) \<Longrightarrow>
   set (needed_loop db av todo need) \<subseteq> N"
proof (induction db av todo need rule: needed_loop.induct)
  case (2 db av item todo need)
  consider "satisfied db av item" | "\<not> satisfied db av item" "fst item \<in> set need"
    | "\<not> satisfied db av item" "fst item \<notin> set need" by blast
  then show ?case
  proof cases
    case 3
    then have "fst item \<in> N" using 2(4) by simp
    moreover have "\<forall>i \<in> set (rev (edge_items db (fst item)) @ todo). satisfied db av i \<or> fst i \<in> N"
      using 2(4,6) \<open>fst item \<in> N\<close> by auto
    ultimately show ?thesis using 3 2(3,5,6) by simp
  qed (use 2 in auto)
qed simp

lemma needed_loop_mono: "set need \<subseteq> set (needed_loop db av todo need)"
  by (induction db av todo need rule: needed_loop.induct) auto

lemma needed_loop_todo:
  "item \<in> set todo \<Longrightarrow> \<not> satisfied db av item \<Longrightarrow> fst item \<in> set (needed_loop db av todo need)"
proof (induction db av todo need rule: needed_loop.induct)
  case (2 db av it todo need)
  show ?case
  proof (cases "satisfied db av it \<or> fst it \<in> set need")
    case True
    with 2 needed_loop_mono [of need db av todo] show ?thesis by auto
  next
    case False
    with 2 needed_loop_mono [of "fst it # need" db av "rev (edge_items db (fst it)) @ todo"]
    show ?thesis by auto
  qed
qed simp

lemma needed_loop_closed:
  "\<forall>d \<in> set need. \<forall>i \<in> set (edge_items db d). satisfied db av i \<or> fst i \<in> set need \<or> i \<in> set todo \<Longrightarrow>
   d \<in> set (needed_loop db av todo need) \<Longrightarrow> item \<in> set (edge_items db d) \<Longrightarrow> \<not> satisfied db av item \<Longrightarrow>
   fst item \<in> set (needed_loop db av todo need)"
proof (induction db av todo need rule: needed_loop.induct)
  case (1 db av need)
  then show ?case by auto
next
  case (2 db av it todo need)
  show ?case
  proof (cases "satisfied db av it \<or> fst it \<in> set need")
    case True
    then have loop: "needed_loop db av (it # todo) need = needed_loop db av todo need" by auto
    have "\<forall>d \<in> set need. \<forall>i \<in> set (edge_items db d). satisfied db av i \<or> fst i \<in> set need \<or> i \<in> set todo"
      using 2(4) True by auto
    with True 2(1,2,5-7) show ?thesis unfolding loop by (metis List.member_iff)
  next
    case False
    have "\<forall>d \<in> set (fst it # need). \<forall>i \<in> set (edge_items db d).
        satisfied db av i \<or> fst i \<in> set (fst it # need) \<or> i \<in> set (rev (edge_items db (fst it)) @ todo)"
      using 2(4) by auto
    with False 2 show ?thesis by simp
  qed
qed

lemma needed_eq_needs: "needed db targets available = needs db targets available"
proof
  show "needed db targets available \<subseteq> needs db targets available"
    unfolding needed_def
    by (rule needed_loop_sound) (auto simp: target_items_def intro: needs.intros)
  show "needs db targets available \<subseteq> needed db targets available"
  proof
    fix d assume "d \<in> needs db targets available"
    then show "d \<in> needed db targets available"
    proof (induction rule: needs.induct)
      case (needs_target t)
      then have "(t, map fst (drv_outputs db t)) \<in> set (rev (target_items db targets))"
        by (auto simp: target_items_def)
      from needed_loop_todo [OF this needs_target(2)] show ?case by (simp add: needed_def)
    next
      case (needs_input d item)
      then show ?case unfolding needed_def by (intro needed_loop_closed) auto
    qed
  qed
qed

lemma finite_needed [simp]: "finite (needed db targets available)"
  by (simp add: needed_def)

lemma satisfied_mono: "satisfied db av item \<Longrightarrow> av \<subseteq> av' \<Longrightarrow> satisfied db av' item"
  by (auto simp: satisfied_def list_all_iff split: option.splits)

lemma needs_antimono:
  assumes "av \<subseteq> av'"
  shows "needs db ts av' \<subseteq> needs db ts av"
proof
  fix d assume "d \<in> needs db ts av'"
  then show "d \<in> needs db ts av"
    by (induction rule: needs.induct) (use assms satisfied_mono in \<open>blast intro: needs.intros\<close>)+
qed

lemma needs_mono_targets: "set ts \<subseteq> set us \<Longrightarrow> needs db ts av \<subseteq> needs db us av"
proof
  fix d assume "set ts \<subseteq> set us" "d \<in> needs db ts av"
  from this(2,1) show "d \<in> needs db us av"
    by (induction rule: needs.induct) (auto intro: needs.intros)
qed

lemma needs_depends: "d \<in> needs db ts av \<Longrightarrow> \<exists>t \<in> set ts. d \<in> depends db t"
proof (induction rule: needs.induct)
  case (needs_target t)
  then show ?case by (intro bexI [of _ t]) simp_all
next
  case (needs_input d item)
  then obtain t where "t \<in> set ts" "d \<in> depends db t" by blast
  moreover have "(d, fst item) \<in> set (edge_pairs (edges db))"
    using needs_input by (auto simp: edge_items_def edge_pairs_def)
  ultimately show ?case unfolding depends_def by blast
qed

lemma needs_append: "needs db (ts @ us) av = needs db ts av \<union> needs db us av"
proof
  show "needs db (ts @ us) av \<subseteq> needs db ts av \<union> needs db us av"
  proof
    fix d assume "d \<in> needs db (ts @ us) av"
    then show "d \<in> needs db ts av \<union> needs db us av"
      by (induction rule: needs.induct) (auto intro: needs.intros)
  qed
  have "set ts \<subseteq> set (ts @ us)" "set us \<subseteq> set (ts @ us)" by auto
  then show "needs db ts av \<union> needs db us av \<subseteq> needs db (ts @ us) av"
    using needs_mono_targets by blast
qed

lemma build_roots_iff: "d \<in> set (build_roots ts) \<longleftrightarrow> TBuild d \<in> set ts"
  by (induction ts) (auto simp: build_roots_def List.map_filter_simps split: target.splits)

section \<open>Ownership\<close>

text \<open>
  The interface between the walk and admission: needs shrink as outputs become available and
  a batch needs what its roots need. Under it, clients whose needs do not overlap keep out of
  each other's way as long as observations only accumulate.
\<close>

locale ownership =
  fixes need :: "'t list \<Rightarrow> 'p set \<Rightarrow> 'd set"
  assumes need_antimono: "av \<subseteq> av' \<Longrightarrow> need ts av' \<subseteq> need ts av"
    and need_append: "need (ts @ us) av = need ts av \<union> need us av"
begin

lemma disjoint_later:
  "need ts av \<inter> need us av = {} \<Longrightarrow> av \<subseteq> av' \<Longrightarrow> need ts av' \<inter> need us av' = {}"
  using need_antimono by blast

lemma batch_disjoint:
  "need (ts @ us) av \<inter> held = {} \<longleftrightarrow> need ts av \<inter> held = {} \<and> need us av \<inter> held = {}"
  by (auto simp: need_append)

lemma need_Cons: "need (t # ts) av = need [t] av \<union> need ts av"
  using need_append [of "[t]" ts av] by simp

end

interpretation graph_needs: ownership "needed db" for db
  by unfold_locales (simp_all add: needed_eq_needs needs_antimono needs_append)

lemma needed_Nil [simp]: "needed db [] av = {}"
  by (simp add: needed_def target_items_def)

lemma needed_batch: "needed db ts av = (\<Union>t \<in> set ts. needed db [t] av)"
proof (induction ts)
  case (Cons t ts)
  then show ?case by (subst graph_needs.need_Cons) auto
qed simp

lemma graph_paths_mono: "A \<subseteq> B \<Longrightarrow> graph_paths db A \<subseteq> graph_paths db B"
  by (auto simp: graph_paths_def)

lemma finite_graph_paths [simp]: "finite A \<Longrightarrow> finite (graph_paths db A)"
  by (simp add: graph_paths_def)

text \<open>What \<open>reservations\<close> calls held is what the active clients still need under the
  availability it returns, which contains every observation it was given.\<close>

lemma reservations_held:
  assumes "reservations path_info before db active observed = Inr (held, available)"
  shows "held = attempt_needs db available active"
    and "observed \<subseteq> available" and "recorded_available db \<subseteq> available"
    and "a \<in> set active \<Longrightarrow> set (spec_before before a) \<subseteq> available"
  using assms by (auto simp: reservations_def Let_def bindr_eq_Inr)

end
