(* ===== verification/Capture.thy ===== *)
theory Capture
  imports NixAdapter
begin

text \<open>
  Log capture of a build (\<^verbatim>\<open>experiment/capture.py\<close>) and worker-observed activity times
  (\<^verbatim>\<open>experiment/timing.py\<close>). Both read a byte stream in chunks as the operating system delivers
  it, and both promise that the chunking does not matter unless a record exceeds the buffer.
  Calls of \<^verbatim>\<open>stamp()\<close> while one chunk is processed share one timestamp.
\<close>

definition NL :: char where
  "NL = CHR 0x0A"

definition BUFFER :: nat where
  "BUFFER = 1024 ^ 2"

section \<open>The progress filter\<close>

record log_filter =
  lf_pending :: string
  lf_passthrough :: bool
  lf_omitted_records :: nat
  lf_omitted_bytes :: nat

definition new_filter :: log_filter where
  "new_filter = \<lparr>lf_pending = [], lf_passthrough = False, lf_omitted_records = 0, lf_omitted_bytes = 0\<rparr>"

fun is_jint :: "json \<Rightarrow> bool" where
  "is_jint (JInt n) = True"
| "is_jint _ = False"

text \<open>Download progress: a result of type 105 with four integer fields.\<close>

definition progress :: "runtime \<Rightarrow> string \<Rightarrow> bool" where
  "progress rt line \<longleftrightarrow>
     (case nix_event rt line of
        None \<Rightarrow> False
      | Some e \<Rightarrow> map_of e ''action'' = Some (JStr ''result'') \<and> jeq_int (map_of e ''type'') 105
          \<and> (case map_of e ''fields'' of Some (JArr xs) \<Rightarrow> length xs = 4 \<and> list_all is_jint xs | _ \<Rightarrow> False))"

definition keep :: "runtime \<Rightarrow> string \<Rightarrow> log_filter \<Rightarrow> log_filter \<times> string" where
  "keep rt line st =
     (if progress rt line
      then (st\<lparr>lf_omitted_records := lf_omitted_records st + 1,
              lf_omitted_bytes := lf_omitted_bytes st + length line\<rparr>, [])
      else (st, line))"

fun feed_lines :: "runtime \<Rightarrow> string list \<Rightarrow> log_filter \<Rightarrow> log_filter \<times> string" where
  "feed_lines rt [] st = (st, [])"
| "feed_lines rt (line # rest) st =
     (let (st1, out) = (if lf_passthrough st then (st, line @ [NL]) else keep rt (line @ [NL]) st);
          (st2, outs) = feed_lines rt rest (st1\<lparr>lf_passthrough := False\<rparr>)
      in (st2, out @ outs))"

definition filter_feed :: "runtime \<Rightarrow> string \<Rightarrow> log_filter \<Rightarrow> log_filter \<times> string" where
  "filter_feed rt data st =
     (let parts = split_on NL (lf_pending st @ data);
          (st1, out) = feed_lines rt (butlast parts) st;
          rest = last parts
      in if length rest > BUFFER
         then (st1\<lparr>lf_pending := [], lf_passthrough := True\<rparr>, out @ rest)
         else (st1\<lparr>lf_pending := rest\<rparr>, out))"

definition filter_finish :: "log_filter \<Rightarrow> log_filter \<times> string" where
  "filter_finish st = (st\<lparr>lf_pending := []\<rparr>, lf_pending st)"

section \<open>Activity times\<close>

record timing_row =
  tr_drv :: string
  tr_started :: timestamp
  tr_finished :: "timestamp option"

record times_state =
  ts_rows :: "(string \<times> timing_row) list"
  ts_pending :: string
  ts_skipping :: bool
  ts_saved :: "(string \<times> timing_row) list option"

definition new_times :: times_state where
  "new_times = \<lparr>ts_rows = [], ts_pending = [], ts_skipping = False, ts_saved = None\<rparr>"

definition times_event :: "timestamp \<Rightarrow> string \<Rightarrow> (string \<times> json) list \<Rightarrow> (string \<times> timing_row) list \<Rightarrow> (string \<times> timing_row) list" where
  "times_event now key e rows =
     (let field = (case map_of e ''fields'' of Some (JArr xs) \<Rightarrow> first_string xs | _ \<Rightarrow> None) in
      if map_of e ''action'' = Some (JStr ''start'') \<and> jeq_int (map_of e ''type'') 105
         \<and> (case field of Some d \<Rightarrow> fullmatch DRV d | None \<Rightarrow> False)
         \<and> map_of rows key = None \<and> length rows < 10000
      then rows @ [(key, \<lparr>tr_drv = the field, tr_started = now, tr_finished = None\<rparr>)]
      else if map_of e ''action'' = Some (JStr ''stop'')
      then (case map_of rows key of
              Some r \<Rightarrow> if tr_finished r = None then dict_set key (r\<lparr>tr_finished := Some now\<rparr>) rows else rows
            | None \<Rightarrow> rows)
      else rows)"

definition times_line :: "runtime \<Rightarrow> timestamp \<Rightarrow> string \<Rightarrow> times_state \<Rightarrow> times_state" where
  "times_line rt now line st =
     (if ts_skipping st then st\<lparr>ts_skipping := False\<rparr>
      else case nix_event rt line of
             None \<Rightarrow> st
           | Some e \<Rightarrow> st\<lparr>ts_rows := times_event now (event_id rt e) e (ts_rows st)\<rparr>)"

definition times_feed :: "runtime \<Rightarrow> timestamp \<Rightarrow> string \<Rightarrow> times_state \<Rightarrow> times_state" where
  "times_feed rt now data st =
     (let parts = split_on NL (ts_pending st @ data);
          st1 = fold (times_line rt now) (butlast parts) st;
          rest = last parts;
          st2 = (if length rest > BUFFER then st1\<lparr>ts_pending := [], ts_skipping := True\<rparr>
                 else st1\<lparr>ts_pending := rest\<rparr>)
      in if ts_rows st2 \<noteq> ts_rows st then st2\<lparr>ts_saved := Some (ts_rows st2)\<rparr> else st2)"

text \<open>Reading the saved times back into the database. A row whose times are not finite numbers
  is skipped; an end before its start is dropped.\<close>

definition LIMIT :: nat where
  "LIMIT = 4 * 1024 ^ 2"

fun jnumber :: "json \<Rightarrow> rat option" where
  "jnumber (JInt n) = Some (of_int n)"
| "jnumber (JFloat x) = Some x"
| "jnumber _ = None"

definition build_time_key :: "build_time \<Rightarrow> string \<times> string" where
  "build_time_key b = (bt_attempt b, bt_activity b)"

definition ingest_time :: "string \<Rightarrow> string \<times> json \<Rightarrow> database \<Rightarrow> database" where
  "ingest_time aid row db =
     (case snd row of
        JObj kvs \<Rightarrow>
          (case (map_of kvs ''drv'', Option.bind (map_of kvs ''started'') jnumber) of
             (Some (JStr drv), Some start) \<Rightarrow>
               (let end' = (case Option.bind (map_of kvs ''finished'') jnumber of
                              None \<Rightarrow> None | Some e \<Rightarrow> if e < start then None else Some e) in
                if list_ex (\<lambda>a. activity_key a = (aid, fst row) \<and> av_drv a = Some drv) (activities db)
                then (let bts = insert_or_ignore build_time_key
                                  \<lparr>bt_attempt = aid, bt_activity = fst row, bt_started = start, bt_finished = end'\<rparr>
                                  (build_times db)
                      in db\<lparr>build_times := (case end' of None \<Rightarrow> bts
                           | Some e \<Rightarrow> sql_update (\<lambda>b. build_time_key b = (aid, fst row) \<and> bt_finished b = None)
                                        (\<lambda>b. b\<lparr>bt_finished := Some e\<rparr>) bts)\<rparr>)
                else db)
           | _ \<Rightarrow> db)
      | _ \<Rightarrow> db)"

definition ingest_times :: "runtime \<Rightarrow> string option \<Rightarrow> string \<Rightarrow> database \<Rightarrow> database" where
  "ingest_times rt file aid db =
     (case file of
        None \<Rightarrow> db
      | Some raw \<Rightarrow>
          if length raw > LIMIT then db
          else (case rt_loads rt raw of
                  Some (JObj rows) \<Rightarrow> fold (ingest_time aid) rows db
                | _ \<Rightarrow> db))"

section \<open>Chunks and lines\<close>

lemma split_on_append:
  "split_on c (x @ y) = butlast (split_on c x) @ split_on c (last (split_on c x) @ y)"
proof (induction x)
  case (Cons d x)
  obtain w ws where s: "split_on c x = w # ws" by (cases "split_on c x") simp_all
  show ?case
  proof (cases "ws = []")
    case True
    then show ?thesis using Cons s by (auto split: list.splits)
  next
    case False
    then show ?thesis using Cons s by (auto simp: split_on.simps)
  qed
qed simp

lemma last_no_sep: "c \<notin> set (last (split_on c x))"
  using split_on_no_sep [OF last_in_set] by simp

text \<open>The lines that end in a chunk, and what is left over, when chunks are joined.\<close>

lemma butlast_split_append:
  "butlast (split_on c (x @ y)) = butlast (split_on c x) @ butlast (split_on c (last (split_on c x) @ y))"
  by (subst split_on_append) (simp add: butlast_append)

lemma last_split_append: "last (split_on c (x @ y)) = last (split_on c (last (split_on c x) @ y))"
  by (subst split_on_append) simp

text \<open>No record exceeds the buffer.\<close>

definition fits :: "string \<Rightarrow> bool" where
  "fits s \<longleftrightarrow> (\<forall>w \<in> set (split_on NL s). length w \<le> BUFFER)"

lemma fits_last: "fits s \<Longrightarrow> length (last (split_on NL s)) \<le> BUFFER"
  by (simp add: fits_def)

lemma split_hd_append: "hd (split_on c (w @ y)) = (if c \<in> set w then hd (split_on c w) else w @ hd (split_on c y))"
proof (induction w)
  case (Cons d w)
  then show ?case by (cases "split_on c (w @ y)"; cases "split_on c w"; cases "split_on c y") (auto split: list.splits)
qed simp

lemma fits_append:
  assumes "fits (x @ y)"
  shows "fits x" and "fits (last (split_on NL x) @ y)"
proof -
  let ?r = "last (split_on NL x)"
  have all: "\<forall>w \<in> set (butlast (split_on NL x)) \<union> set (split_on NL (?r @ y)). length w \<le> BUFFER"
    using assms unfolding fits_def by (subst (asm) split_on_append) auto
  then show "fits (?r @ y)" by (simp add: fits_def)
  have "hd (split_on NL (?r @ y)) = ?r @ hd (split_on NL y)" by (simp add: split_hd_append last_no_sep)
  then have "length ?r \<le> BUFFER"
    using bspec [OF all, of "hd (split_on NL (?r @ y))"] hd_in_set [of "split_on NL (?r @ y)"] by simp
  moreover have "set (split_on NL x) = insert ?r (set (butlast (split_on NL x)))"
    by (metis append_butlast_last_id list.simps(15) rotate1.simps(2) set_rotate1 split_on_not_Nil)
  ultimately show "fits x" using all by (auto simp: fits_def)
qed

text \<open>
  The contract of a consumer of a byte stream that keeps the beginning of an unfinished line:
  what a chunk leaves pending, and that feeding two chunks is feeding their concatenation. A
  consumer with this contract sees the same stream however it is cut.
\<close>

locale chunked =
  fixes feed :: "string \<Rightarrow> 's \<Rightarrow> 's \<times> string" and pend :: "'s \<Rightarrow> string" and ready :: "'s \<Rightarrow> bool"
  assumes feed_Nil: "ready s \<Longrightarrow> feed [] s = (s, [])"
    and feed_ready: "ready s \<Longrightarrow> fits (pend s @ a) \<Longrightarrow> ready (fst (feed a s)) \<and> pend (fst (feed a s)) = last (split_on NL (pend s @ a))"
    and feed_append: "ready s \<Longrightarrow> fits (pend s @ a @ b) \<Longrightarrow>
      feed (a @ b) s = (fst (feed b (fst (feed a s))), snd (feed a s) @ snd (feed b (fst (feed a s))))"
begin

fun feed_all :: "string list \<Rightarrow> 's \<Rightarrow> 's \<times> string" where
  "feed_all [] s = (s, [])"
| "feed_all (d # ds) s = (let (s1, out) = feed d s; (s2, outs) = feed_all ds s1 in (s2, out @ outs))"

lemma feed_all_concat: "ready s \<Longrightarrow> fits (pend s @ concat ds) \<Longrightarrow> feed_all ds s = feed (concat ds) s"
proof (induction ds arbitrary: s)
  case (Cons d ds)
  have fit: "fits (pend s @ d)" "fits (last (split_on NL (pend s @ d)) @ concat ds)"
    using fits_append [of "pend s @ d" "concat ds"] Cons.prems by simp_all
  note r = feed_ready [OF Cons.prems(1) fit(1)]
  have "feed_all ds (fst (feed d s)) = feed (concat ds) (fst (feed d s))"
    by (rule Cons.IH) (use r fit in simp_all)
  then show ?case
    using feed_append [of s d "concat ds"] Cons.prems by (simp add: case_prod_beta Let_def)
qed (simp add: feed_Nil)

text \<open>Two ways of cutting the same stream agree.\<close>

lemma cut_irrelevant:
  "ready s \<Longrightarrow> fits (pend s @ concat ds) \<Longrightarrow> concat ds = concat es \<Longrightarrow> feed_all ds s = feed_all es s"
  by (simp add: feed_all_concat)

end

section \<open>The progress filter\<close>

text \<open>The reference: whole progress records are dropped, everything else is copied.\<close>

definition kept :: "runtime \<Rightarrow> string list \<Rightarrow> string" where
  "kept rt ls = concat (filter (\<lambda>r. \<not> progress rt r) (map (\<lambda>l. l @ [NL]) ls))"

definition dropped :: "runtime \<Rightarrow> string list \<Rightarrow> string list" where
  "dropped rt ls = filter (progress rt) (map (\<lambda>l. l @ [NL]) ls)"

definition count_dropped :: "runtime \<Rightarrow> string list \<Rightarrow> log_filter \<Rightarrow> log_filter" where
  "count_dropped rt ls st = st\<lparr>lf_omitted_records := lf_omitted_records st + length (dropped rt ls),
     lf_omitted_bytes := lf_omitted_bytes st + length (concat (dropped rt ls)), lf_passthrough := False\<rparr>"

lemma feed_lines_kept:
  "\<not> lf_passthrough st \<Longrightarrow> feed_lines rt ls st = (count_dropped rt ls st, kept rt ls)"
proof (induction ls arbitrary: st)
  case (Cons l ls)
  then show ?case by (auto simp: count_dropped_def kept_def dropped_def keep_def Let_def)
qed (simp add: count_dropped_def kept_def dropped_def)

lemma kept_append [simp]: "kept rt (xs @ ys) = kept rt xs @ kept rt ys"
  by (simp add: kept_def)

lemma count_dropped_append: "count_dropped rt (xs @ ys) st = count_dropped rt ys (count_dropped rt xs st)"
  by (simp add: count_dropped_def dropped_def)

definition filter_ready :: "log_filter \<Rightarrow> bool" where
  "filter_ready st \<longleftrightarrow> \<not> lf_passthrough st \<and> NL \<notin> set (lf_pending st) \<and> length (lf_pending st) \<le> BUFFER"

lemma filter_feed_fits:
  assumes "filter_ready st" and "fits (lf_pending st @ data)"
  shows "filter_feed rt data st =
    ((count_dropped rt (butlast (split_on NL (lf_pending st @ data))) st)\<lparr>lf_pending := last (split_on NL (lf_pending st @ data))\<rparr>,
     kept rt (butlast (split_on NL (lf_pending st @ data))))"
  using assms fits_last [OF assms(2)] by (simp add: filter_feed_def filter_ready_def feed_lines_kept Let_def)

interpretation filter_stream: chunked "filter_feed rt" lf_pending filter_ready for rt
proof unfold_locales
  fix s assume r: "filter_ready s"
  then show "filter_feed rt [] s = (s, [])"
    by (simp add: filter_feed_def filter_ready_def split_on_single Let_def)
  show ready: "filter_ready (fst (filter_feed rt a s)) \<and> lf_pending (fst (filter_feed rt a s)) = last (split_on NL (lf_pending s @ a))"
    if "fits (lf_pending s @ a)" for a
    using fits_last [OF that] by (simp add: filter_feed_fits [OF r that]) (simp add: filter_ready_def count_dropped_def last_no_sep)
  fix a b assume fit: "fits (lf_pending s @ a @ b)"
  then have fa: "fits (lf_pending s @ a)" and fb: "fits (last (split_on NL (lf_pending s @ a)) @ b)"
    using fits_append [of "lf_pending s @ a" b] by simp_all
  have rb: "filter_ready (fst (filter_feed rt a s))" "lf_pending (fst (filter_feed rt a s)) = last (split_on NL (lf_pending s @ a))"
    using ready [OF fa] by simp_all
  show "filter_feed rt (a @ b) s = (fst (filter_feed rt b (fst (filter_feed rt a s))),
      snd (filter_feed rt a s) @ snd (filter_feed rt b (fst (filter_feed rt a s))))"
    unfolding filter_feed_fits [OF r fit] filter_feed_fits [OF rb(1), unfolded rb(2), OF fb]
    using butlast_split_append [of NL "lf_pending s @ a" b] last_split_append [of NL "lf_pending s @ a" b]
    by (simp add: filter_feed_fits [OF r fa] count_dropped_append) (simp add: count_dropped_def)
qed

text \<open>Nothing is lost: what a chunk brings leaves, is counted as omitted, or waits.\<close>

lemma length_feed_lines:
  "feed_lines rt ls st = (st', out) \<Longrightarrow>
     length out + lf_omitted_bytes st' = length (concat (map (\<lambda>l. l @ [NL]) ls)) + lf_omitted_bytes st \<and> lf_pending st' = lf_pending st"
proof (induction ls arbitrary: st st' out)
  case (Cons l ls)
  then show ?case
    by (fastforce simp: Let_def keep_def split: if_splits prod.splits)
qed simp

lemma length_split: "length (concat (map (\<lambda>l. l @ [c]) (butlast (split_on c x)))) + length (last (split_on c x)) = length x"
proof -
  have "length (join_on [c] ws) = length (concat (map (\<lambda>l. l @ [c]) (butlast ws))) + length (last ws)" if "ws \<noteq> []" for ws
    using that by (induction "[c]" ws rule: join_on.induct) auto
  from this [of "split_on c x"] show ?thesis by simp
qed

lemma filter_feed_conserves:
  assumes "filter_feed rt data st = (st', out)"
  shows "length out + lf_omitted_bytes st' + length (lf_pending st') = length data + lf_omitted_bytes st + length (lf_pending st)"
    and "length (lf_pending st') \<le> BUFFER"
proof -
  obtain st1 o1 where f: "feed_lines rt (butlast (split_on NL (lf_pending st @ data))) st = (st1, o1)" by fastforce
  show "length out + lf_omitted_bytes st' + length (lf_pending st') = length data + lf_omitted_bytes st + length (lf_pending st)"
    using assms length_feed_lines [OF f] length_split [of NL "lf_pending st @ data"]
    by (auto simp: filter_feed_def f Let_def split: if_splits)
  show "length (lf_pending st') \<le> BUFFER"
    using assms by (auto simp: filter_feed_def f Let_def split: if_splits)
qed

section \<open>Activity times\<close>

definition finished_count :: "(string \<times> timing_row) list \<Rightarrow> nat" where
  "finished_count rows = length (filter (\<lambda>r. tr_finished (snd r) \<noteq> None) rows)"

definition recorded :: "(string \<times> timing_row) list \<Rightarrow> nat" where
  "recorded rows = length rows + finished_count rows"

lemma dict_set_finishes:
  "map_of rows k = Some r \<Longrightarrow> tr_finished r = None \<Longrightarrow>
     length (dict_set k (r\<lparr>tr_finished := Some t\<rparr>) rows) = length rows
   \<and> finished_count (dict_set k (r\<lparr>tr_finished := Some t\<rparr>) rows) = Suc (finished_count rows)"
  by (induction rows) (auto simp: finished_count_def split: if_splits)

text \<open>An event leaves the rows alone or records one more fact, and never a row beyond the limit.\<close>

lemma times_event_grows: "times_event now key e rows = rows \<or> recorded rows < recorded (times_event now key e rows)"
  using dict_set_finishes [of rows key _ now]
  by (auto simp: times_event_def recorded_def finished_count_def Let_def split: option.splits if_splits)

lemma times_event_limit: "length rows \<le> 10000 \<Longrightarrow> length (times_event now key e rows) \<le> 10000"
  using dict_set_finishes [of rows key _ now]
  by (auto simp: times_event_def Let_def split: option.splits if_splits)

definition keyed_rows :: "runtime \<Rightarrow> timestamp \<Rightarrow> string list \<Rightarrow> (string \<times> timing_row) list \<Rightarrow> (string \<times> timing_row) list" where
  "keyed_rows rt now ls rows = fold (\<lambda>l rows. case nix_event rt l of None \<Rightarrow> rows | Some e \<Rightarrow> times_event now (event_id rt e) e rows) ls rows"

lemma keyed_rows_grows: "keyed_rows rt now ls rows = rows \<or> recorded rows < recorded (keyed_rows rt now ls rows)"
proof (induction ls arbitrary: rows)
  case (Cons l ls)
  show ?case
  proof (cases "nix_event rt l")
    case (Some e)
    then show ?thesis
      using Cons.IH [of "times_event now (event_id rt e) e rows"] times_event_grows [of now "event_id rt e" e rows]
      by (auto simp: keyed_rows_def)
  qed (use Cons.IH [of rows] in \<open>simp add: keyed_rows_def\<close>)
qed (simp add: keyed_rows_def)

lemma fold_times_line:
  "\<not> ts_skipping st \<Longrightarrow> fold (times_line rt now) ls st = st\<lparr>ts_rows := keyed_rows rt now ls (ts_rows st)\<rparr>"
  by (induction ls arbitrary: st) (auto simp: keyed_rows_def times_line_def split: option.splits)

definition times_ready :: "times_state \<Rightarrow> bool" where
  "times_ready st \<longleftrightarrow> \<not> ts_skipping st \<and> NL \<notin> set (ts_pending st) \<and> length (ts_pending st) \<le> BUFFER"

definition saved_as :: "(string \<times> timing_row) list \<Rightarrow> times_state \<Rightarrow> times_state" where
  "saved_as old st = (if ts_rows st \<noteq> old then st\<lparr>ts_saved := Some (ts_rows st)\<rparr> else st)"

lemma times_feed_fits:
  assumes "times_ready st" and "fits (ts_pending st @ data)"
  shows "times_feed rt now data st = saved_as (ts_rows st)
    (st\<lparr>ts_rows := keyed_rows rt now (butlast (split_on NL (ts_pending st @ data))) (ts_rows st),
        ts_pending := last (split_on NL (ts_pending st @ data))\<rparr>)"
  using assms fits_last [OF assms(2)] by (simp add: times_feed_def times_ready_def fold_times_line saved_as_def Let_def)

lemma keyed_rows_append: "keyed_rows rt now (xs @ ys) rows = keyed_rows rt now ys (keyed_rows rt now xs rows)"
  by (simp add: keyed_rows_def)

text \<open>Saving after each chunk is saving after both, since recorded facts are never taken back.\<close>

lemma saved_twice:
  assumes "r1 = keyed_rows rt now xs (ts_rows st)" and "r2 = keyed_rows rt now ys r1"
  shows "saved_as r1 ((saved_as (ts_rows st) (st\<lparr>ts_rows := r1, ts_pending := p\<rparr>))\<lparr>ts_rows := r2, ts_pending := q\<rparr>)
       = saved_as (ts_rows st) (st\<lparr>ts_rows := r2, ts_pending := q\<rparr>)"
  using keyed_rows_grows [of rt now xs "ts_rows st"] keyed_rows_grows [of rt now ys r1] assms
  by (cases "r1 = ts_rows st"; cases "r2 = r1") (auto simp: saved_as_def)

interpretation times_stream: chunked "\<lambda>d s. (times_feed rt now d s, [])" ts_pending times_ready for rt now
proof unfold_locales
  fix s assume r: "times_ready s"
  then show "(times_feed rt now [] s, []) = (s, [])"
    by (simp add: times_feed_def times_ready_def split_on_single Let_def)
  show ready: "times_ready (fst (times_feed rt now a s, [])) \<and> ts_pending (fst (times_feed rt now a s, [])) = last (split_on NL (ts_pending s @ a))"
    if "fits (ts_pending s @ a)" for a
    using fits_last [OF that] r by (simp add: times_feed_fits [OF r that]) (simp add: saved_as_def times_ready_def last_no_sep)
  fix a b assume fit: "fits (ts_pending s @ a @ b)"
  then have fa: "fits (ts_pending s @ a)" and fb: "fits (last (split_on NL (ts_pending s @ a)) @ b)"
    using fits_append [of "ts_pending s @ a" b] by simp_all
  have rb: "times_ready (times_feed rt now a s)" "ts_pending (times_feed rt now a s) = last (split_on NL (ts_pending s @ a))"
    using ready [OF fa] by simp_all
  have rows: "ts_rows (times_feed rt now a s) = keyed_rows rt now (butlast (split_on NL (ts_pending s @ a))) (ts_rows s)"
    by (simp add: times_feed_fits [OF r fa] saved_as_def)
  have "times_feed rt now (a @ b) s = times_feed rt now b (times_feed rt now a s)"
    unfolding times_feed_fits [OF r fit] times_feed_fits [OF rb(1), unfolded rb(2), OF fb] rows
    using butlast_split_append [of NL "ts_pending s @ a" b] last_split_append [of NL "ts_pending s @ a" b]
    by (simp add: times_feed_fits [OF r fa] keyed_rows_append saved_twice [symmetric])
  then show "(times_feed rt now (a @ b) s, []) = (fst (times_feed rt now b (fst (times_feed rt now a s, [])), []),
      snd (times_feed rt now a s, []) @ snd (times_feed rt now b (fst (times_feed rt now a s, [])), []))" by simp
qed

lemma times_line_limit: "length (ts_rows st) \<le> 10000 \<Longrightarrow> length (ts_rows (times_line rt now l st)) \<le> 10000"
  by (auto simp: times_line_def times_event_limit split: option.splits)

lemma times_feed_limit: "length (ts_rows st) \<le> 10000 \<Longrightarrow> length (ts_rows (times_feed rt now data st)) \<le> 10000"
proof -
  have "length (ts_rows (fold (times_line rt now) ls st)) \<le> 10000" if "length (ts_rows st) \<le> 10000" for ls st
    using that by (induction ls arbitrary: st) (simp_all add: times_line_limit)
  then show "length (ts_rows st) \<le> 10000 \<Longrightarrow> ?thesis" by (simp add: times_feed_def Let_def)
qed

end
