(* ===== verification/Effects.thy ===== *)
theory Effects
  imports Prelude
begin

text \<open>
  Stateful code that may raise: an operation maps a state to a result and the state it leaves,
  also when it raises, so that work committed before an exception is kept. The combinators
  follow the source: sequencing, guards, loops, and \<^verbatim>\<open>with self.db:\<close>, which restores the
  database when its body raises. Weakest preconditions of the combinators are simplification
  rules; \<open>keeps\<close> is the special case of an invariant that every outcome preserves.
\<close>

type_synonym ('s, 'a) op = "'s \<Rightarrow> 'a result \<times> 's"

definition returnM :: "'a \<Rightarrow> ('s, 'a) op" where
  "returnM x = (\<lambda>s. (Inr x, s))"

definition raiseM :: "py_error \<Rightarrow> ('s, 'a) op" where
  "raiseM e = (\<lambda>s. (Inl e, s))"

definition bindM :: "('s, 'a) op \<Rightarrow> ('a \<Rightarrow> ('s, 'b) op) \<Rightarrow> ('s, 'b) op" where
  "bindM m f = (\<lambda>s. case m s of (Inl e, s') \<Rightarrow> (Inl e, s') | (Inr x, s') \<Rightarrow> f x s')"

definition getsM :: "('s \<Rightarrow> 'a) \<Rightarrow> ('s, 'a) op" where
  "getsM f = (\<lambda>s. (Inr (f s), s))"

definition modifyM :: "('s \<Rightarrow> 's) \<Rightarrow> ('s, unit) op" where
  "modifyM f = (\<lambda>s. (Inr (), f s))"

text \<open>A pure computation on the state that may raise.\<close>

definition liftM :: "('s \<Rightarrow> 'a result) \<Rightarrow> ('s, 'a) op" where
  "liftM f = (\<lambda>s. (f s, s))"

definition whenM :: "bool \<Rightarrow> ('s, unit) op \<Rightarrow> ('s, unit) op" where
  "whenM b m = (if b then m else returnM ())"

fun foreachM :: "('a \<Rightarrow> ('s, unit) op) \<Rightarrow> 'a list \<Rightarrow> ('s, unit) op" where
  "foreachM f [] = returnM ()"
| "foreachM f (x # xs) = bindM (f x) (\<lambda>_. foreachM f xs)"

text \<open>A loop with local variables \<open>acc\<close>.\<close>

fun foldM :: "('a \<Rightarrow> 'b \<Rightarrow> ('s, 'b) op) \<Rightarrow> 'a list \<Rightarrow> 'b \<Rightarrow> ('s, 'b) op" where
  "foldM f [] acc = returnM acc"
| "foldM f (x # xs) acc = bindM (f x acc) (foldM f xs)"

text \<open>\<^verbatim>\<open>with self.db:\<close> commits the component \<open>get\<close> or, on an exception, restores it.\<close>

definition atomicallyM :: "('s \<Rightarrow> 'd) \<Rightarrow> ('d \<Rightarrow> 's \<Rightarrow> 's) \<Rightarrow> ('s, 'a) op \<Rightarrow> ('s, 'a) op" where
  "atomicallyM get put m = (\<lambda>s. case m s of (Inl e, s') \<Rightarrow> (Inl e, put (get s) s') | r \<Rightarrow> r)"

section \<open>Weakest preconditions\<close>

definition wp :: "('s, 'a) op \<Rightarrow> ('a \<Rightarrow> 's \<Rightarrow> bool) \<Rightarrow> ('s \<Rightarrow> bool) \<Rightarrow> 's \<Rightarrow> bool" where
  "wp m Q E s = (case m s of (Inl e, s') \<Rightarrow> E s' | (Inr x, s') \<Rightarrow> Q x s')"

lemma wp_simps [simp]:
  "wp (returnM x) Q E s \<longleftrightarrow> Q x s"
  "wp (raiseM e) Q E s \<longleftrightarrow> E s"
  "wp (getsM f) Q E s \<longleftrightarrow> Q (f s) s"
  by (simp_all add: wp_def returnM_def raiseM_def getsM_def)

lemma wp_modify [simp]: "wp (modifyM g) Q E s \<longleftrightarrow> Q () (g s)"
  by (simp add: wp_def modifyM_def)

lemma wp_bind [simp]: "wp (bindM m f) Q E s \<longleftrightarrow> wp m (\<lambda>x. wp (f x) Q E) E s"
  by (auto simp: wp_def bindM_def split: prod.splits sum.splits)

lemma wp_lift [simp]: "wp (liftM f) Q E s \<longleftrightarrow> (case f s of Inl e \<Rightarrow> E s | Inr x \<Rightarrow> Q x s)"
  by (simp add: wp_def liftM_def split: sum.splits)

lemma wp_if [simp]: "wp (if b then m else n) Q E s \<longleftrightarrow> (if b then wp m Q E s else wp n Q E s)"
  by simp

lemma wp_when [simp]: "wp (whenM b m) Q E s \<longleftrightarrow> (if b then wp m Q E s else Q () s)"
  by (simp add: whenM_def)

lemma wp_mono:
  "wp m Q E s \<Longrightarrow> (\<And>x s'. Q x s' \<Longrightarrow> Q' x s') \<Longrightarrow> (\<And>s'. E s' \<Longrightarrow> E' s') \<Longrightarrow> wp m Q' E' s"
  by (auto simp: wp_def split: prod.splits sum.splits)

lemma wp_conj: "wp m Q E s \<Longrightarrow> wp m Q' E' s \<Longrightarrow> wp m (\<lambda>x t. Q x t \<and> Q' x t) (\<lambda>t. E t \<and> E' t) s"
  by (auto simp: wp_def split: prod.splits sum.splits)

lemma wp_True [simp]: "wp m (\<lambda>_ _. True) (\<lambda>_. True) s"
  by (auto simp: wp_def split: prod.splits sum.splits)

lemma wp_foldM:
  assumes "I acc s" and "\<And>x acc s. x \<in> set xs \<Longrightarrow> I acc s \<Longrightarrow> wp (f x acc) I E s"
  shows "wp (foldM f xs acc) I E s"
  using assms
proof (induction xs arbitrary: acc s)
  case (Cons x xs)
  have "wp (f x acc) I E s" using Cons.prems by simp
  then show ?case by (simp, rule wp_mono) (use Cons in auto)
qed simp

lemma wp_foreachM:
  assumes "I s" and "\<And>x s. x \<in> set xs \<Longrightarrow> I s \<Longrightarrow> wp (f x) (\<lambda>_. I) E s"
  shows "wp (foreachM f xs) (\<lambda>_. I) E s"
  using assms
proof (induction xs arbitrary: s)
  case (Cons x xs)
  have "wp (f x) (\<lambda>_. I) E s" using Cons.prems by simp
  then show ?case by (simp, rule wp_mono) (use Cons in auto)
qed simp

lemma wp_atomicallyM:
  assumes "wp m Q (\<lambda>_. True) s" and "\<And>s'. E (put (get s) s')"
  shows "wp (atomicallyM get put m) Q E s"
  using assms by (auto simp: wp_def atomicallyM_def split: prod.splits sum.splits)

text \<open>What the outcome of a run says, from a weakest precondition.\<close>

lemma wp_run: "wp m Q E s \<Longrightarrow> m s = (Inr x, s') \<Longrightarrow> Q x s'"
  by (simp add: wp_def)

lemma wp_error: "wp m Q E s \<Longrightarrow> m s = (Inl e, s') \<Longrightarrow> E s'"
  by (simp add: wp_def)

lemma wp_outcome: "wp m (\<lambda>_. P) P s \<Longrightarrow> P (snd (m s))"
  by (auto simp: wp_def split: prod.splits sum.splits)

section \<open>Kept invariants\<close>

definition keeps :: "('s \<Rightarrow> bool) \<Rightarrow> ('s, 'a) op \<Rightarrow> bool" where
  "keeps P m \<longleftrightarrow> (\<forall>s. P s \<longrightarrow> P (snd (m s)))"

named_theorems keeps_intros \<open>operations that keep an invariant\<close>

lemma keeps_wp: "keeps P m \<longleftrightarrow> (\<forall>s. P s \<longrightarrow> wp m (\<lambda>_. P) P s)"
proof -
  have "P (snd (m s)) \<longleftrightarrow> wp m (\<lambda>_. P) P s" for s
    by (cases "m s", cases "fst (m s)") (simp_all add: wp_def)
  then show ?thesis by (simp add: keeps_def)
qed

lemma keepsD: "keeps P m \<Longrightarrow> P s \<Longrightarrow> wp m (\<lambda>_. P) P s"
  by (simp add: keeps_wp)

lemma keeps_basic [keeps_intros]:
  "keeps P (returnM x)" "keeps P (raiseM e)" "keeps P (getsM f)" "keeps P (liftM g)"
  by (simp_all add: keeps_def returnM_def raiseM_def getsM_def liftM_def)

lemma keeps_modify: "(\<And>s. P s \<Longrightarrow> P (f s)) \<Longrightarrow> keeps P (modifyM f)"
  by (simp add: keeps_def modifyM_def)

lemma keeps_bind [keeps_intros]: "keeps P m \<Longrightarrow> (\<And>x. keeps P (f x)) \<Longrightarrow> keeps P (bindM m f)"
  unfolding keeps_wp by (auto intro: wp_mono)

lemma keeps_if [keeps_intros]: "(b \<Longrightarrow> keeps P m) \<Longrightarrow> (\<not> b \<Longrightarrow> keeps P n) \<Longrightarrow> keeps P (if b then m else n)"
  by simp

lemma keeps_when [keeps_intros]: "(b \<Longrightarrow> keeps P m) \<Longrightarrow> keeps P (whenM b m)"
  by (simp add: whenM_def keeps_basic)

lemma keeps_option [keeps_intros]:
  "(x = None \<Longrightarrow> keeps P m) \<Longrightarrow> (\<And>y. x = Some y \<Longrightarrow> keeps P (f y)) \<Longrightarrow>
   keeps P (case x of None \<Rightarrow> m | Some y \<Rightarrow> f y)"
  by (cases x) simp_all

lemma keeps_foreach [keeps_intros]: "(\<And>x. x \<in> set xs \<Longrightarrow> keeps P (f x)) \<Longrightarrow> keeps P (foreachM f xs)"
  by (induction xs) (auto intro: keeps_intros)

lemma keeps_fold [keeps_intros]:
  "(\<And>x acc. x \<in> set xs \<Longrightarrow> keeps P (f x acc)) \<Longrightarrow> keeps P (foldM f xs acc)"
  by (induction xs arbitrary: acc) (auto intro: keeps_intros)

lemma keeps_prod [keeps_intros]: "(\<And>a b. x = (a, b) \<Longrightarrow> keeps P (f a b)) \<Longrightarrow> keeps P (case x of (a, b) \<Rightarrow> f a b)"
  by (cases x) simp

text \<open>A transaction keeps a property of the stored component when its body does.\<close>

lemma keeps_atomically:
  assumes "keeps P m" and "\<And>s s'. P s \<Longrightarrow> P (put (get s) s')"
  shows "keeps P (atomicallyM get put m)"
  unfolding keeps_wp
proof safe
  fix s assume "P s"
  then show "wp (atomicallyM get put m) (\<lambda>_. P) P s"
    using assms by (intro wp_atomicallyM) (auto simp: keeps_wp intro: wp_mono)
qed

section \<open>A stored component\<close>

text \<open>The interface between the state of the controller and its database: a component that can
  be read and replaced. A transaction on it keeps every property of the component that its
  body keeps, whatever the body does to the rest of the state before it raises.\<close>

locale stored =
  fixes get :: "'s \<Rightarrow> 'd" and put :: "'d \<Rightarrow> 's \<Rightarrow> 's"
  assumes get_put: "get (put d s) = d"
begin

lemma keeps_transaction:
  "keeps (\<lambda>s. I (get s)) m \<Longrightarrow> keeps (\<lambda>s. I (get s)) (atomicallyM get put m)"
  by (rule keeps_atomically) (simp_all add: get_put)

lemma keeps_update:
  "(\<And>d. I d \<Longrightarrow> I (f d)) \<Longrightarrow> keeps (\<lambda>s. I (get s)) (modifyM (\<lambda>s. put (f (get s)) s))"
  by (rule keeps_modify) (simp add: get_put)

lemma wp_transaction:
  "wp m Q (\<lambda>_. True) s \<Longrightarrow> I (get s) \<Longrightarrow> wp (atomicallyM get put m) Q (\<lambda>s. I (get s)) s"
  by (rule wp_atomicallyM) (simp_all add: get_put)

end

end
