(* ===== verification/Outcomes.thy ===== *)
theory Outcomes
  imports NixAdapter
begin

text \<open>
  Freezing build results with their batch (\<^verbatim>\<open>experiment/outcomes.py\<close>). The snapshot of an
  attempt is stored in its result once; later retries change the derivation rows but not the
  snapshot.
\<close>

definition checked :: "database \<Rightarrow> string \<Rightarrow> string \<Rightarrow> bool" where
  "checked db aid drv = list_ex (\<lambda>t. t_attempt t = aid \<and> t_drv t = drv) (tests db)"

definition outcome :: "database \<Rightarrow> string \<Rightarrow> string \<Rightarrow> string" where
  "outcome db aid drv =
     (if checked db aid drv then ''tested''
      else case find_drv db drv of
        None \<Rightarrow> ''unknown''
      | Some d \<Rightarrow>
          if d_evidence_attempt d = Some aid \<and> d_available d then ''built''
          else if d_evidence_attempt d = Some aid \<and> d_failure d \<noteq> None \<and> d_failure d \<noteq> Some [] then ''failed''
          else ''unknown'')"

definition built_drvs :: "database \<Rightarrow> string \<Rightarrow> string list" where
  "built_drvs db aid = dedup (List.map_filter
     (\<lambda>a. if av_attempt a = aid \<and> av_kind a = Some ''build'' then av_drv a else None) (activities db))"

definition snapshot :: "database \<Rightarrow> string \<Rightarrow> (string \<times> string) list" where
  "snapshot db aid = map (\<lambda>drv. (drv, outcome db aid drv)) (built_drvs db aid)"

definition needs_backfill :: "attempt \<Rightarrow> bool" where
  "needs_backfill a \<longleftrightarrow> at_kind a = Build \<and> at_state a = Finished
     \<and> (case at_result a of None \<Rightarrow> False | Some r \<Rightarrow> re_build_outcomes r = None)"

definition backfill :: "database \<Rightarrow> database" where
  "backfill db = db\<lparr>attempts := sql_update needs_backfill
     (\<lambda>a. a\<lparr>at_result := map_option (\<lambda>r. r\<lparr>re_build_outcomes := Some (snapshot db (at_id a)),
        re_build_outcomes_source := Some ''retained-evidence''\<rparr>) (at_result a)\<rparr>) (attempts db)\<rparr>"

section \<open>Outcomes are decided by the batch's own evidence\<close>

text \<open>An outcome other than \<^verbatim>\<open>unknown\<close> rests on a test or on a derivation row owned by the attempt.\<close>

lemma outcome_owned:
  assumes "outcome db aid drv \<noteq> ''unknown''"
  shows "checked db aid drv \<or> (\<exists>d. find_drv db drv = Some d \<and> d_evidence_attempt d = Some aid)"
  using assms by (auto simp: outcome_def split: if_splits option.splits)

lemma set_built_drvs:
  "set (built_drvs db aid) = {drv. \<exists>a \<in> set (activities db). av_attempt a = aid \<and>
     av_kind a = Some ''build'' \<and> av_drv a = Some drv}"
  by (auto simp: built_drvs_def List.map_filter_def split: if_splits) force

lemma map_of_graph: "map_of (map (\<lambda>x. (x, f x)) xs) k = (if k \<in> set xs then Some (f k) else None)"
  by (induction xs) auto

lemma snapshot_lookup:
  "map_of (snapshot db aid) drv = (if drv \<in> set (built_drvs db aid) then Some (outcome db aid drv) else None)"
  by (simp add: snapshot_def map_of_graph)

lemma snapshot_distinct: "distinct (map fst (snapshot db aid))"
  by (simp add: snapshot_def comp_def built_drvs_def)

text \<open>A snapshot depends only on evidence of its own attempt: what other attempts record about
  a derivation the attempt does not own turns nothing but \<^verbatim>\<open>built\<close> or \<^verbatim>\<open>failed\<close> into
  \<^verbatim>\<open>unknown\<close>.\<close>

lemma backfill_attempts:
  "attempts (backfill db) = map (\<lambda>a. if needs_backfill a then a\<lparr>at_result := map_option
     (\<lambda>r. r\<lparr>re_build_outcomes := Some (snapshot db (at_id a)), re_build_outcomes_source := Some ''retained-evidence''\<rparr>)
     (at_result a)\<rparr> else a) (attempts db)"
  by (simp add: backfill_def sql_update_def)

lemma backfill_tables [simp]:
  "campaigns (backfill db) = campaigns db" "candidates (backfill db) = candidates db"
  "derivations (backfill db) = derivations db" "edges (backfill db) = edges db"
  "activities (backfill db) = activities db" "tests (backfill db) = tests db"
  "replans (backfill db) = replans db" "events (backfill db) = events db"
  "classifications (backfill db) = classifications db" "roles (backfill db) = roles db"
  "build_times (backfill db) = build_times db"
  by (simp_all add: backfill_def)

lemma needs_backfill_done:
  "\<not> needs_backfill (a\<lparr>at_result := map_option (\<lambda>r. r\<lparr>re_build_outcomes := Some x, re_build_outcomes_source := y\<rparr>) (at_result a)\<rparr>)"
  by (auto simp: needs_backfill_def split: option.splits)

lemma backfill_complete: "a \<in> set (attempts (backfill db)) \<Longrightarrow> \<not> needs_backfill a"
  by (auto simp: backfill_attempts needs_backfill_done split: if_splits)

lemma backfill_idem: "backfill (backfill db) = backfill db"
proof -
  have "sql_update needs_backfill f (attempts (backfill db)) = attempts (backfill db)" for f
    using backfill_complete by (intro sql_update_False) auto
  then show ?thesis unfolding backfill_def [of "backfill db"] by (simp add: backfill_def)
qed

end
