(* ===== verification/Classifications.thy ===== *)
theory Classifications
  imports NixAdapter "HOL-Library.Product_Lexorder"
begin

text \<open>
  Evidence-bound suggestions (\<^verbatim>\<open>experiment/classifications.py\<close>): the rubrics, the hash that binds a
  classification to the rows it was made from, validation and persistence by the controller,
  and the index that hides classifications whose source has changed. The descriptions of the
  labels, the prompts and the HTTP clients of the worker are not part of the model. Columns of JSON
  text are read as the text \<^term>\<open>encode\<close> writes.
\<close>

section \<open>Rubrics\<close>

definition MODELS :: "(string \<times> string) list" where
  "MODELS = [(''jev'', ''jev-1.13.0''), (''openai'', ''gpt-6-luna'')]"

definition DEFINITIONS :: "(string \<times> string list) list" where
  "DEFINITIONS =
   [(''showcase'', [''Flagship'', ''Workhorse'', ''Specialist'', ''Supporting'', ''Unknown'']),
    (''package'', [''Application'', ''Library'', ''Build tool'', ''Language runtime'', ''FFI or bindings'',
       ''Graphics or desktop'', ''Audio or video'', ''Networking'', ''Cryptography or TLS'',
       ''Data or compression'', ''Testing support'']),
    (''diagnostic'', [''Pointer safety diagnostic'', ''Unsupported assembly'', ''Missing tool or module'',
       ''Compiler selection'', ''Cross-build configuration'', ''Extension ABI or loader'', ''Test assertion'',
       ''Timeout'', ''Platform evaluation refusal'', ''Broken-package evaluation refusal'', ''Mechanism unclear'']),
    (''patch'', [''Pointer representation'', ''Dependency or tool correction'', ''Build or cross adaptation'',
       ''Feature restriction'', ''Test adaptation'', ''Test coverage reduction'', ''Version workaround'',
       ''Platform integration''])]"

definition QUESTION_VERSIONS :: "(string \<times> string) list" where
  "QUESTION_VERSIONS = dict_set ''showcase'' ''showcase-1'' (map (\<lambda>(k, _). (k, ''facets-1'')) DEFINITIONS)"

section \<open>Sources\<close>

definition text_or_null :: "string option \<Rightarrow> json" where
  "text_or_null v = (case v of None \<Rightarrow> JNull | Some s \<Rightarrow> JStr s)"

text \<open>A row of \<^verbatim>\<open>candidates c LEFT JOIN derivations d ON d.drv=c.drv\<close>.\<close>

type_synonym joined_row = "candidate \<times> derivation option"

definition source_row :: "database \<Rightarrow> candidate \<Rightarrow> joined_row" where
  "source_row db c = (c, Option.bind (c_drv c) (find_drv db))"

definition selection_text :: "runtime \<Rightarrow> joined_row \<Rightarrow> json" where
  "selection_text rt r = JStr (encode (rt_float rt) (c_selection (fst r)))"

definition recipe_text :: "runtime \<Rightarrow> joined_row \<Rightarrow> json" where
  "recipe_text rt r = text_or_null (map_option (encode (rt_float rt)) (c_recipe (fst r)))"

definition source_fields :: "runtime \<Rightarrow> joined_row \<Rightarrow> string \<Rightarrow> json result" where
  "source_fields rt r kind =
     (if kind = ''showcase'' then Inr (JObj [(''selection'', selection_text rt r)])
      else if kind = ''package'' then
        Inr (JObj [(''selection'', selection_text rt r), (''recipe'', recipe_text rt r), (''drv'', text_or_null (c_drv (fst r)))])
      else if kind = ''diagnostic'' then
        Inr (JObj [(''drv'', text_or_null (c_drv (fst r))), (''error'', text_or_null (c_error (fst r))),
          (''failure'', text_or_null (Option.bind (snd r) d_failure)),
          (''evidence_attempt'', text_or_null (Option.bind (snd r) d_evidence_attempt))])
      else if kind = ''patch'' then
        Inr (JObj [(''recipe'', recipe_text rt r), (''drv'', text_or_null (c_drv (fst r)))])
      else Inl (ValueError ''unknown classification kind''))"

definition hash_of :: "runtime \<Rightarrow> json \<Rightarrow> string" where
  "hash_of rt v = identity (rt_sha256 rt) (rt_float rt) v"

definition candidate_rows :: "database \<Rightarrow> string \<Rightarrow> int option \<Rightarrow> joined_row list" where
  "candidate_rows db cid i = map (source_row db) (sort_key c_label
     (filter (\<lambda>c. c_campaign c = cid \<and> (i = None \<or> i = Some (c_id c))) (candidates db)))"

section \<open>Reading back\<close>

definition classification_key :: "classification \<Rightarrow> string \<times> int \<times> string \<times> string \<times> string \<times> string \<times> string" where
  "classification_key c = (cl_campaign c, cl_candidate c, cl_kind c, cl_subject c, cl_provider c,
     cl_model c, cl_question_version c)"

definition current_source :: "runtime \<Rightarrow> joined_row list \<Rightarrow> classification \<Rightarrow> bool result" where
  "current_source rt sources row =
     (case find (\<lambda>s. c_id (fst s) = cl_candidate row) sources of
        None \<Rightarrow> Inr False
      | Some s \<Rightarrow> bindr (source_fields rt s (cl_kind row)) (\<lambda>f. Inr (hash_of rt f = cl_source_hash row)))"

text \<open>The classifications of a candidate (or of all) whose source rows still have the hash they
  were made from, with where the probability comes from.\<close>

definition classification_index :: "runtime \<Rightarrow> database \<Rightarrow> string \<Rightarrow> int option \<Rightarrow> (classification \<times> string) list result" where
  "classification_index rt db cid i =
     (let sources = candidate_rows db cid i;
          rows = sort_key (\<lambda>r. (cl_kind r, cl_subject r, cl_provider r))
            (filter (\<lambda>r. cl_campaign r = cid \<and> (i = None \<or> i = Some (cl_candidate r))) (classifications db))
      in bindr (map_res (\<lambda>r. bindr (current_source rt sources r) (\<lambda>ok. Inr (if ok then
            [(r, if cl_provider r = ''jev'' then ''model probability'' else ''self-reported estimate'')] else []))) rows)
         (\<lambda>xss. Inr (concat xss)))"

definition annotations :: "runtime \<Rightarrow> database \<Rightarrow> string \<Rightarrow> int \<Rightarrow> (classification \<times> string) list result" where
  "annotations rt db cid i =
     bindr (classification_index rt db cid (Some i)) (\<lambda>rows. Inr (filter (\<lambda>(r, _). cl_candidate r = i) rows))"

section \<open>Validation and persistence\<close>

fun probability :: "json \<Rightarrow> rat option" where
  "probability (JInt n) = (if 0 \<le> n \<and> n \<le> 1 then Some (of_int n) else None)"
| "probability (JFloat x) = (if 0 \<le> x \<and> x \<le> 1 then Some x else None)"
| "probability _ = None"

definition isclose :: "rat \<Rightarrow> rat \<Rightarrow> rat \<Rightarrow> bool" where
  "isclose a b abs_tol \<longleftrightarrow> \<bar>a - b\<bar> \<le> max (max \<bar>a\<bar> \<bar>b\<bar> / 1000000000) abs_tol"

definition validate_probabilities :: "json \<Rightarrow> string \<Rightarrow> unit result" where
  "validate_probabilities values kind =
     (case values of
        JObj kvs \<Rightarrow>
          bindr (case map_of DEFINITIONS kind of None \<Rightarrow> Inl (KeyError kind) | Some ls \<Rightarrow> Inr ls) (\<lambda>labels.
          bindr (guardr (set (map fst kvs) = set labels) (ValueError ''classification labels do not match rubric'')) (\<lambda>_.
          bindr (guardr (list_all (\<lambda>(k, v). probability v \<noteq> None) kvs) (ValueError ''invalid classification probability'')) (\<lambda>_.
          guardr (kind \<noteq> ''showcase'' \<or> isclose (sum_list (List.map_filter (\<lambda>(k, v). probability v) kvs)) 1 (1 / 1000000))
            (ValueError ''showcase probabilities must sum to one''))))
      | _ \<Rightarrow> Inl (ValueError ''classification labels do not match rubric''))"

text \<open>An integer parameter of a query, and a value used as a dictionary key.\<close>

fun sql_int :: "json \<Rightarrow> int option" where
  "sql_int (JInt n) = Some n"
| "sql_int (JBool b) = Some (if b then 1 else 0)"
| "sql_int (JFloat x) = (if of_int (floor x) = x then Some (floor x) else None)"
| "sql_int (JStr s) = py_int s"
| "sql_int _ = None"

fun dict_key :: "json \<Rightarrow> string option result" where
  "dict_key (JStr s) = Inr (Some s)"
| "dict_key (JArr _) = Inl (TypeError ''unhashable'')"
| "dict_key (JObj _) = Inl (TypeError ''unhashable'')"
| "dict_key _ = Inr None"

definition known_key :: "(string \<times> 'a) list \<Rightarrow> string option \<Rightarrow> bool" where
  "known_key m k = (case k of None \<Rightarrow> False | Some s \<Rightarrow> map_of m s \<noteq> None)"

definition replace_classification :: "classification \<Rightarrow> classification list \<Rightarrow> classification list" where
  "replace_classification c rows = filter (\<lambda>r. classification_key r \<noteq> classification_key c) rows @ [c]"

definition save_classification :: "timestamp \<Rightarrow> string \<Rightarrow> candidate \<Rightarrow> classification \<Rightarrow> database \<Rightarrow> database" where
  "save_classification now cid c cl db =
     event now cid ''classified''
       (JObj [(''candidate'', JInt (c_id c)), (''kind'', JStr (cl_kind cl)), (''provider'', JStr (cl_provider cl))])
       (db\<lparr>classifications := replace_classification cl (classifications db)\<rparr>)"

text \<open>The candidate, kind and provider of an item that names a known rubric.\<close>

definition persist_target :: "string option \<Rightarrow> json \<Rightarrow> database \<Rightarrow> (candidate \<times> string \<times> string) result" where
  "persist_target cid item db =
     bindr (jindex ''candidate'' item) (\<lambda>jc.
     bindr (jindex ''kind'' item) (\<lambda>jk.
     bindr (jindex ''provider'' item) (\<lambda>jp.
     case find (\<lambda>c. Some (c_campaign c) = cid \<and> sql_int jc = Some (c_id c)) (candidates db) of
       None \<Rightarrow> Inl (ValueError ''classification target does not belong to campaign'')
     | Some c \<Rightarrow>
         bindr (dict_key jp) (\<lambda>provider.
         bindr (guardr (known_key MODELS provider) (ValueError ''classification target does not belong to campaign'')) (\<lambda>_.
         bindr (dict_key jk) (\<lambda>kind.
         bindr (guardr (known_key DEFINITIONS kind) (ValueError ''classification target does not belong to campaign'')) (\<lambda>_.
         Inr (c, the kind, the provider))))))))"

definition persist_rubric :: "json \<Rightarrow> string \<Rightarrow> string \<Rightarrow> unit result" where
  "persist_rubric item kind provider =
     bindr (jindex ''question_version'' item) (\<lambda>jq.
     bindr (guardr (Some jq = map_option JStr (map_of QUESTION_VERSIONS kind)) (ValueError ''unsupported classification model or rubric'')) (\<lambda>_.
     bindr (jindex ''model'' item) (\<lambda>jm.
     guardr (Some jm = map_option JStr (map_of MODELS provider)) (ValueError ''unsupported classification model or rubric''))))"

text \<open>Evidence, probabilities, subject and usage, once the source is known to be current.\<close>

definition persist_evidence :: "runtime \<Rightarrow> json \<Rightarrow> string \<Rightarrow> (json \<times> json \<times> string \<times> json) result" where
  "persist_evidence rt item kind =
     bindr (jindex ''evidence'' item) (\<lambda>je.
     bindr (jindex ''evidence_hash'' item) (\<lambda>jeh.
     bindr (guardr (JStr (hash_of rt je) = jeh) (ValueError ''classification evidence hash mismatch'')) (\<lambda>_.
     bindr (jindex ''probabilities'' item) (\<lambda>jps.
     bindr (validate_probabilities jps kind) (\<lambda>_.
     bindr (guardr (length (encode (rt_float rt) item) \<le> 60000) (ValueError ''classification exceeds evidence budget'')) (\<lambda>_.
     bindr (jindex ''subject'' item) (\<lambda>js.
     bindr (case js of JStr subject \<Rightarrow> guardr (length subject \<le> 1024) (ValueError ''classification exceeds evidence budget'')
            | _ \<Rightarrow> Inl (ValueError ''classification exceeds evidence budget'')) (\<lambda>_.
     bindr (jstring js) (\<lambda>subject.
     bindr (jget ''usage'' item) (\<lambda>ju.
     Inr (je, jps, subject, case ju of None \<Rightarrow> JObj [] | Some u \<Rightarrow> u)))))))))))"

definition new_classification :: "runtime \<Rightarrow> timestamp \<Rightarrow> candidate \<Rightarrow> string \<Rightarrow> string \<Rightarrow> json \<Rightarrow>
    json \<times> json \<times> string \<times> json \<Rightarrow> classification" where
  "new_classification rt now c kind provider src =
     (\<lambda>(evidence, probabilities, subject, usage).
       \<lparr>cl_campaign = c_campaign c, cl_candidate = c_id c, cl_kind = kind, cl_subject = subject, cl_provider = provider,
        cl_model = the (map_of MODELS provider), cl_question_version = the (map_of QUESTION_VERSIONS kind),
        cl_source_hash = hash_of rt src, cl_evidence_hash = hash_of rt evidence, cl_evidence = evidence,
        cl_probabilities = probabilities, cl_usage = usage, cl_created = now\<rparr>)"

definition persist :: "runtime \<Rightarrow> timestamp \<Rightarrow> string option \<Rightarrow> json \<Rightarrow> database \<Rightarrow> (string \<times> database) result" where
  "persist rt now cid item db =
     bindr (persist_target cid item db) (\<lambda>(c, kind, provider).
     bindr (persist_rubric item kind provider) (\<lambda>_.
     bindr (source_fields rt (source_row db c) kind) (\<lambda>src.
     bindr (jindex ''source_hash'' item) (\<lambda>jh.
     if JStr (hash_of rt src) \<noteq> jh then Inr (''stale evidence discarded'', db)
     else bindr (persist_evidence rt item kind) (\<lambda>ev.
       Inr (''classification saved'', save_classification now (c_campaign c) c
         (new_classification rt now c kind provider src ev) db))))))"

section \<open>What persistence guarantees\<close>

lemma persist_targetD:
  assumes "persist_target cid item db = Inr (c, kind, provider)"
  shows "c \<in> set (candidates db)" and "cid = Some (c_campaign c)"
    and "map_of MODELS provider \<noteq> None" and "map_of DEFINITIONS kind \<noteq> None"
proof -
  from assms obtain jc prov kd where f: "find (\<lambda>c. Some (c_campaign c) = cid \<and> sql_int jc = Some (c_id c)) (candidates db) = Some c"
    and k: "known_key MODELS prov" "provider = the prov" "known_key DEFINITIONS kd" "kind = the kd"
    by (auto simp: persist_target_def bindr_eq_Inr split: option.splits)
  show "c \<in> set (candidates db)" "cid = Some (c_campaign c)" using f by (auto simp: find_Some_iff)
  show "map_of MODELS provider \<noteq> None" "map_of DEFINITIONS kind \<noteq> None"
    using k by (auto simp: known_key_def split: option.splits)
qed

lemma persist_cases:
  assumes "persist rt now cid item db = Inr (msg, db')"
  obtains (stale) "msg = ''stale evidence discarded''" "db' = db"
  | (saved) c kind provider src ev where "msg = ''classification saved''"
      "persist_target cid item db = Inr (c, kind, provider)" "persist_evidence rt item kind = Inr ev"
      "source_fields rt (source_row db c) kind = Inr src"
      "db' = save_classification now (c_campaign c) c (new_classification rt now c kind provider src ev) db"
  using assms unfolding persist_def
  by (auto simp: bindr_eq_Inr split: if_splits)

text \<open>Classifications never touch what planning, building and admission read.\<close>

lemma persist_frame:
  assumes "persist rt now cid item db = Inr (msg, db')"
  shows "\<exists>cls evs. db' = db\<lparr>classifications := cls, events := evs\<rparr>"
  using assms
proof (cases rule: persist_cases)
  case stale
  then have "db' = db\<lparr>classifications := classifications db, events := events db\<rparr>" by simp
  then show ?thesis by blast
next
  case (saved c kind provider src ev)
  then show ?thesis by (auto simp: save_classification_def event_def)
qed

end
