(* ===== verification/Controller.thy ===== *)
theory Controller
  imports Scheduling Capture Effects Outcomes Classifications
begin

text \<open>
  The controller (\<^verbatim>\<open>experiment/controller.py\<close>): the single writer of the database. Its state is
  the database, the durable attempt folders, the GC roots it made and its caches; what the
  operating system, systemd and Nix answer during one operation is the record \<^term>\<open>world\<close>.
  Calls of \<^verbatim>\<open>stamp()\<close> during one operation share a timestamp. An exception keeps what was done
  before it, except that a transaction is undone as a whole.
\<close>

section \<open>State\<close>

record folder =
  f_spec :: "attempt_spec option"
  f_started :: bool
  f_exit :: "attempt_result option"
  f_before :: "string list option"
  f_log :: "string option"
  f_plan :: "string option"
  f_graphs :: "(string \<times> json) list"
  f_times :: "string option"

definition empty_folder :: folder where
  "empty_folder = \<lparr>f_spec = None, f_started = False, f_exit = None, f_before = None, f_log = None,
     f_plan = None, f_graphs = [], f_times = None\<rparr>"

datatype unit_call = Start string | Stop string

record ctl =
  k_db :: database
  k_folders :: "(string \<times> folder) list"
  k_machines :: "machine list"
  k_machines_observed :: timestamp
  k_inspected :: "string list"
  k_roots :: "(string \<times> string) list"
  k_uuids :: nat
  k_units :: "unit_call list"

record world =
  w_now :: timestamp
  w_uuid :: "nat \<Rightarrow> string"
  w_rt :: runtime
  w_nx :: nix_obs
  w_path_info :: "string list \<Rightarrow> json option"
  w_show :: "string list \<Rightarrow> json result"
  w_config :: "(string \<times> string) result"
  w_read_text :: "string \<Rightarrow> string result"
  w_exists :: "string \<Rightarrow> bool"
  w_start :: "string \<Rightarrow> unit result"
  w_stop :: "string \<Rightarrow> unit result"
  w_unit_state :: "string \<Rightarrow> string result"
  w_slice :: "string + slice_obs"
  w_free :: int
  w_log_bytes :: int

type_synonym 'a ctl_op = "(ctl, 'a) op"

definition VERSION :: string where
  "VERSION = ''0.18.0''"

definition dbM :: "(database \<Rightarrow> database) \<Rightarrow> unit ctl_op" where
  "dbM f = modifyM (\<lambda>s. s\<lparr>k_db := f (k_db s)\<rparr>)"

definition try_dbM :: "(database \<Rightarrow> database result) \<Rightarrow> unit ctl_op" where
  "try_dbM f = bindM (liftM (\<lambda>s. f (k_db s))) (\<lambda>db. dbM (\<lambda>_. db))"

definition readM :: "(database \<Rightarrow> 'a) \<Rightarrow> 'a ctl_op" where
  "readM f = getsM (\<lambda>s. f (k_db s))"

definition transactM :: "'a ctl_op \<Rightarrow> 'a ctl_op" where
  "transactM m = atomicallyM k_db (\<lambda>d s. s\<lparr>k_db := d\<rparr>) m"

definition requireM :: "bool \<Rightarrow> py_error \<Rightarrow> unit ctl_op" where
  "requireM ok e = (if ok then returnM () else raiseM e)"

definition folder_of :: "ctl \<Rightarrow> string \<Rightarrow> folder" where
  "folder_of s aid = (case map_of (k_folders s) aid of None \<Rightarrow> empty_folder | Some f \<Rightarrow> f)"

definition set_folder :: "string \<Rightarrow> folder \<Rightarrow> unit ctl_op" where
  "set_folder aid f = modifyM (\<lambda>s. s\<lparr>k_folders := dict_set aid f (k_folders s)\<rparr>)"

definition update_candidates :: "(candidate \<Rightarrow> bool) \<Rightarrow> (candidate \<Rightarrow> candidate) \<Rightarrow> database \<Rightarrow> database" where
  "update_candidates p f db = db\<lparr>candidates := sql_update p f (candidates db)\<rparr>"

definition update_derivations :: "(derivation \<Rightarrow> bool) \<Rightarrow> (derivation \<Rightarrow> derivation) \<Rightarrow> database \<Rightarrow> database" where
  "update_derivations p f db = db\<lparr>derivations := sql_update p f (derivations db)\<rparr>"

definition update_attempts :: "(attempt \<Rightarrow> bool) \<Rightarrow> (attempt \<Rightarrow> attempt) \<Rightarrow> database \<Rightarrow> database" where
  "update_attempts p f db = db\<lparr>attempts := sql_update p f (attempts db)\<rparr>"

definition update_campaigns :: "(campaign \<Rightarrow> bool) \<Rightarrow> (campaign \<Rightarrow> campaign) \<Rightarrow> database \<Rightarrow> database" where
  "update_campaigns p f db = db\<lparr>campaigns := sql_update p f (campaigns db)\<rparr>"

section \<open>Revision planning\<close>

definition is_hex :: "char \<Rightarrow> bool" where
  "is_hex c \<longleftrightarrow> is_digit c \<or> (97 \<le> (of_char c :: nat) \<and> (of_char c :: nat) \<le> 102)"

definition SOURCE :: rx where
  "SOURCE = rseqs [rlit ''/nix/store/'', rrep 32 (RChar is_lower_alnum), rlit ''-filnix-campaign-source'']"

definition REVISION :: rx where
  "REVISION = rrep 40 (RChar is_hex)"

definition validate_source :: "(string \<Rightarrow> bool) \<Rightarrow> json \<Rightarrow> json \<Rightarrow> (string \<times> string) result" where
  "validate_source is_file source revision =
     (case (source, revision) of
        (JStr s, JStr r) \<Rightarrow>
          if fullmatch SOURCE s \<and> fullmatch REVISION r
             \<and> is_file (s @ ''/flake.nix'') \<and> is_file (s @ ''/flake.lock'')
          then Inr (s, r)
          else Inl (ValueError ''revision planning requires a frozen committed flake'')
      | _ \<Rightarrow> Inl (ValueError ''revision planning requires a frozen committed flake''))"

text \<open>The state, recipe and error of a candidate row.\<close>

definition replan_eligible :: "candidate option \<Rightarrow> bool" where
  "replan_eligible row =
     (case row of
        None \<Rightarrow> False
      | Some c \<Rightarrow>
          if \<not> known_path (c_drv c) then List.member [Unplanned, Evaluation_error] (c_state c)
          else List.member [Failed, Blocked, Inconclusive] (c_state c)
               \<or> (c_state c = Excluded \<and> c_error c = Some INHERITED))"

section \<open>Units and roots\<close>

definition start_unit :: "world \<Rightarrow> string \<Rightarrow> unit ctl_op" where
  "start_unit w aid = bindM (modifyM (\<lambda>s. s\<lparr>k_units := k_units s @ [Start aid]\<rparr>)) (\<lambda>_. liftM (\<lambda>_. w_start w aid))"

definition stop_unit :: "world \<Rightarrow> string \<Rightarrow> unit ctl_op" where
  "stop_unit w aid = bindM (modifyM (\<lambda>s. s\<lparr>k_units := k_units s @ [Stop aid]\<rparr>)) (\<lambda>_. liftM (\<lambda>_. w_stop w aid))"

definition unit_active :: "world \<Rightarrow> string \<Rightarrow> bool result" where
  "unit_active w aid = bindr (w_unit_state w aid) (\<lambda>out.
     Inr (List.member [''active'', ''activating'', ''deactivating'', ''reloading''] (strip out)))"

definition campaign :: "database \<Rightarrow> string \<Rightarrow> campaign result" where
  "campaign db cid = (case find_campaign db cid of None \<Rightarrow> Inl (ValueError ''unknown campaign'') | Some c \<Rightarrow> Inr c)"

text \<open>\<^verbatim>\<open>Path(path).name\<close>: the last component that is neither empty nor a dot.\<close>

definition path_name :: "string \<Rightarrow> string" where
  "path_name p = (case rev (filter (\<lambda>x. x \<noteq> [] \<and> x \<noteq> ''.'') (split_on CHR ''/'' p)) of [] \<Rightarrow> [] | n # _ \<Rightarrow> n)"

definition gc_root :: "world \<Rightarrow> string \<Rightarrow> unit ctl_op" where
  "gc_root w path =
     whenM (path \<noteq> [] \<and> w_exists w path) (modifyM (\<lambda>s.
       if map_of (k_roots s) (path_name path) = None
       then s\<lparr>k_roots := k_roots s @ [(path_name path, path)]\<rparr> else s))"

definition active_attempts :: "database \<Rightarrow> attempt list" where
  "active_attempts db = filter (\<lambda>a. List.member [Intended, At_running] (at_state a)) (attempts db)"

definition is_build :: "attempt \<Rightarrow> bool" where
  "is_build a \<longleftrightarrow> at_kind a = Build"

definition is_plan :: "attempt \<Rightarrow> bool" where
  "is_plan a \<longleftrightarrow> at_kind a = Plan"

definition active_builds :: "database \<Rightarrow> attempt list" where
  "active_builds db = filter is_build (active_attempts db)"

definition plan_ids :: "target list \<Rightarrow> int list" where
  "plan_ids ts = List.map_filter (\<lambda>t. case t of TPlan i _ \<Rightarrow> Some i | TBuild _ \<Rightarrow> None) ts"

definition read_before :: "ctl \<Rightarrow> string \<Rightarrow> string list option" where
  "read_before s aid = f_before (folder_of s aid)"

section \<open>Scope of a build\<close>

definition scope_violation :: "database \<Rightarrow> string \<Rightarrow> derivation option" where
  "scope_violation db t = find (\<lambda>d. d_exclusion d \<noteq> None)
     (List.map_filter (find_drv db) (closure db t))"

definition check_scope :: "database \<Rightarrow> string list \<Rightarrow> unit result" where
  "check_scope db targets =
     foldr_res (\<lambda>t _. case scope_violation db t of
         None \<Rightarrow> Inr ()
       | Some d \<Rightarrow> Inl (ValueError (''excluded: '' @ d_name d @ '': '' @ the (d_exclusion d)))) targets ()"

section \<open>Durable intent\<close>

record intent_extra =
  x_source :: "string option"
  x_revision :: "string option"
  x_previous :: "prior_candidate list option"
  x_output_paths :: "string list"
  x_derivations :: "string list"
  x_recipe_sources :: "(string \<times> (string \<times> string) list) list"
  x_build_location :: "string option"
  x_observation :: "(string set \<times> string set) option"
  x_admission_available :: "string list option"
  x_replan_requests :: "replan list"

definition no_extra :: intent_extra where
  "no_extra = \<lparr>x_source = None, x_revision = None, x_previous = None, x_output_paths = [],
     x_derivations = [], x_recipe_sources = [], x_build_location = None, x_observation = None,
     x_admission_available = None, x_replan_requests = []\<rparr>"

text \<open>The guards that hold for both kinds of attempt.\<close>

definition check_active :: "database \<Rightarrow> campaign \<Rightarrow> akind \<Rightarrow> unit result" where
  "check_active db cp kind =
     (let active = active_attempts db in
      bindr (guardr (list_all (\<lambda>r. at_campaign r = cp_id cp) active) (ValueError ''another campaign is active'')) (\<lambda>_.
      bindr (guardr (\<not> (kind = Plan \<and> list_ex is_plan active)) (ValueError ''planner already occupied'')) (\<lambda>_.
      guardr (\<not> (active \<noteq> [] \<and> plan_ahead (cp_policy cp) = 0))
        (ValueError ''an attempt is already active; planning ahead is disabled''))))"

text \<open>The ownership check of a build: what it needs under the observed availability must not
  be needed by, nor share an output path with, another active build.\<close>

definition check_ownership :: "database \<Rightarrow> machine list \<Rightarrow> string \<Rightarrow> string list \<Rightarrow> string set \<Rightarrow> string set \<Rightarrow> unit result" where
  "check_ownership db machines location targets held available =
     (let need = needed db targets available in
      bindr (guardr (need \<inter> held = {} \<and> graph_paths db need \<inter> graph_paths db held = {})
               (ValueError ''build dependencies are owned by another attempt'')) (\<lambda>_.
      guardr (location = ''remote'' \<longrightarrow> remote_eligible db need machines)
        (ValueError ''build dependencies require a local builder'')))"

definition location_of :: "intent_extra \<Rightarrow> string" where
  "location_of x = (case x_build_location x of None \<Rightarrow> ''local'' | Some l \<Rightarrow> l)"

text \<open>The dependencies of a build are checked unless it is the only client of a single lane.\<close>

definition must_own :: "database \<Rightarrow> policy \<Rightarrow> intent_extra \<Rightarrow> bool" where
  "must_own db pol x \<longleftrightarrow> x_observation x \<noteq> None \<or> build_lanes pol > 1 \<or> active_builds db \<noteq> [] \<or> rolling pol"

definition observation_of :: "world \<Rightarrow> ctl \<Rightarrow> intent_extra \<Rightarrow> (string set \<times> string set) result" where
  "observation_of w s x =
     (case x_observation x of
        Some ob \<Rightarrow> Inr ob
      | None \<Rightarrow> reservations (w_path_info w) (read_before s) (k_db s) (active_builds (k_db s)) {})"

definition own_dependencies :: "world \<Rightarrow> ctl \<Rightarrow> campaign \<Rightarrow> string list \<Rightarrow> intent_extra \<Rightarrow> intent_extra result" where
  "own_dependencies w s cp targets x =
     (let x1 = (if rolling (cp_policy cp) then x\<lparr>x_build_location := Some (location_of x)\<rparr> else x) in
      if must_own (k_db s) (cp_policy cp) x then
        bindr (observation_of w s x) (\<lambda>(held, available).
        bindr (check_ownership (k_db s) (k_machines s) (location_of x) targets held available) (\<lambda>_.
        Inr (x1\<lparr>x_admission_available := Some (sorted_list_of_set available)\<rparr>)))
      else Inr x1)"

definition intent_build :: "world \<Rightarrow> ctl \<Rightarrow> campaign \<Rightarrow> string list \<Rightarrow> intent_extra \<Rightarrow> (policy \<times> intent_extra) result" where
  "intent_build w s cp targets x =
     bindr (check_scope (k_db s) targets) (\<lambda>_.
     bindr (build_policy (cp_policy cp) (active_builds (k_db s)) (location_of x) (k_machines s)) (\<lambda>effective.
     case effective of
       None \<Rightarrow> Inl (ValueError ''build lanes or requested CPU budget occupied'')
     | Some eff \<Rightarrow> bindr (own_dependencies w s cp targets x) (\<lambda>x'. Inr (eff, x'))))"

definition intent_plan :: "database \<Rightarrow> target list \<Rightarrow> intent_extra \<Rightarrow> intent_extra" where
  "intent_plan db targets x =
     x\<lparr>x_replan_requests := concat (map (\<lambda>i. filter (\<lambda>r. rp_candidate r = i) (replans db)) (plan_ids targets))\<rparr>"

definition make_spec :: "campaign \<Rightarrow> akind \<Rightarrow> target list \<Rightarrow> policy \<Rightarrow> intent_extra \<Rightarrow> attempt_spec" where
  "make_spec cp kind targets pol x =
     \<lparr>sp_kind = kind, sp_runner_version = VERSION, sp_targets = targets, sp_policy = pol,
      sp_source = (case x_source x of None \<Rightarrow> cp_source cp | Some v \<Rightarrow> v),
      sp_revision = (case x_revision x of None \<Rightarrow> cp_revision cp | Some v \<Rightarrow> v),
      sp_nix_version = cp_nix_version cp, sp_build_location = x_build_location x,
      sp_output_paths = x_output_paths x, sp_derivations = x_derivations x,
      sp_recipe_sources = x_recipe_sources x, sp_admission_available = x_admission_available x,
      sp_replan_requests = x_replan_requests x, sp_previous_candidates = x_previous x\<rparr>"

definition new_attempt :: "timestamp \<Rightarrow> string \<Rightarrow> campaign \<Rightarrow> akind \<Rightarrow> target list \<Rightarrow> attempt_spec \<Rightarrow> attempt" where
  "new_attempt now aid cp kind targets spec =
     \<lparr>at_id = aid, at_campaign = cp_id cp, at_kind = kind, at_targets = targets, at_state = Intended,
      at_created = now, at_finished = None, at_spec = spec, at_offset = 0, at_result = None, at_cancel = False\<rparr>"

definition insert_attempt :: "attempt \<Rightarrow> database \<Rightarrow> database result" where
  "insert_attempt a db =
     (if List.member (map at_id (attempts db)) (at_id a)
      then Inl (IntegrityError ''UNIQUE constraint failed: attempts.id'')
      else Inr (db\<lparr>attempts := attempts db @ [a]\<rparr>))"

definition claim_targets :: "campaign \<Rightarrow> attempt \<Rightarrow> database \<Rightarrow> database" where
  "claim_targets cp a db =
     (case at_kind a of
        Build \<Rightarrow> update_candidates (\<lambda>c. c_campaign c = cp_id cp \<and> drv_in (c_drv c) (build_roots (at_targets a)))
                   (\<lambda>c. c\<lparr>c_state := Running\<rparr>) db
      | Plan \<Rightarrow>
          let db1 = (if sp_previous_candidates (at_spec a) \<noteq> None \<and> sp_previous_candidates (at_spec a) \<noteq> Some [] then
                       update_candidates (\<lambda>c. List.member (plan_ids (at_targets a)) (c_id c) \<and> c_campaign c = cp_id cp)
                         (\<lambda>c. c\<lparr>c_state := Unplanned, c_drv := None, c_recipe := None, c_error := None\<rparr>) db
                     else db)
          in db1\<lparr>replans := filter (\<lambda>r. \<not> List.member (plan_ids (at_targets a)) (rp_candidate r)) (replans db1)\<rparr>)"

definition kind_text :: "akind \<Rightarrow> string" where
  "kind_text k = (case k of Plan \<Rightarrow> ''plan'' | Build \<Rightarrow> ''build'')"

definition record_intent :: "timestamp \<Rightarrow> campaign \<Rightarrow> attempt \<Rightarrow> database \<Rightarrow> database result" where
  "record_intent now cp a db =
     bindr (insert_attempt a db) (\<lambda>db1.
     Inr (event now (cp_id cp) ''attempt-intended''
       (JObj [(''id'', JStr (at_id a)), (''kind'', JStr (kind_text (at_kind a))),
              (''count'', JInt (int (length (at_targets a))))])
       (claim_targets cp a db1)))"

definition next_uuid :: "world \<Rightarrow> string ctl_op" where
  "next_uuid w = bindM (getsM (\<lambda>s. w_uuid w (k_uuids s))) (\<lambda>u.
     bindM (modifyM (\<lambda>s. s\<lparr>k_uuids := k_uuids s + 1\<rparr>)) (\<lambda>_. returnM u))"

text \<open>\<^verbatim>\<open>folder.mkdir()\<close> and the durable copy of the specification.\<close>

definition make_folder :: "string \<Rightarrow> attempt_spec \<Rightarrow> unit ctl_op" where
  "make_folder aid spec =
     bindM (getsM (\<lambda>s. map_of (k_folders s) aid)) (\<lambda>f.
     if f \<noteq> None then raiseM (OSError ''File exists'')
     else set_folder aid (empty_folder\<lparr>f_spec := Some spec\<rparr>))"

definition intent :: "world \<Rightarrow> campaign \<Rightarrow> akind \<Rightarrow> target list \<Rightarrow> intent_extra \<Rightarrow> string ctl_op" where
  "intent w cp kind targets x =
     bindM (liftM (\<lambda>s. check_active (k_db s) cp kind)) (\<lambda>_.
     bindM (liftM (\<lambda>s. case kind of
                Build \<Rightarrow> intent_build w s cp (build_roots targets) x
              | Plan \<Rightarrow> Inr (cp_policy cp, intent_plan (k_db s) targets x))) (\<lambda>(pol, x1).
     bindM (next_uuid w) (\<lambda>aid.
     let spec = make_spec cp kind targets pol x1 in
     bindM (make_folder aid spec) (\<lambda>_.
     bindM (transactM (try_dbM (record_intent (w_now w) cp (new_attempt (w_now w) aid cp kind targets spec)))) (\<lambda>_.
     returnM aid)))))"

section \<open>Planning\<close>

definition active_drvs :: "attempt list \<Rightarrow> string list" where
  "active_drvs as = concat (map (\<lambda>a. sp_derivations (at_spec a)) (filter is_build as))"

text \<open>The checks on one candidate; \<open>explicit\<close> says that a revision was given.\<close>

definition plan_candidate :: "database \<Rightarrow> string \<Rightarrow> bool \<Rightarrow> int \<Rightarrow> target result" where
  "plan_candidate db cid explicit i =
     (case find (\<lambda>c. c_id c = i \<and> c_campaign c = cid) (candidates db) of
        None \<Rightarrow> Inl (ValueError ''candidate absent or already planned'')
      | Some c \<Rightarrow>
          bindr (guardr (\<not> (c_state c = Excluded \<and> \<not> (explicit \<and> replan_eligible (Some c))))
                   (ValueError ''candidate absent or already planned'')) (\<lambda>_.
          bindr (guardr (explicit \<or> \<not> list_ex (\<lambda>r. rp_candidate r = c_id c) (replans db))
                   (ValueError ''candidate has a queued replan; use an explicit revision'')) (\<lambda>_.
          bindr (if known_path (c_drv c) then
                   bindr (guardr (explicit \<and> List.member [Queued, Failed, Blocked, Inconclusive, Excluded] (c_state c))
                            (ValueError ''candidate absent or already planned'')) (\<lambda>_.
                   guardr (\<not> drv_in (c_drv c) (active_drvs (active_attempts db)))
                     (ValueError ''candidate is a dependency of an active build''))
                 else Inr ()) (\<lambda>_.
          Inr (TPlan (c_id c) (c_attr c))))))"

definition prior :: "candidate \<Rightarrow> prior_candidate" where
  "prior c = \<lparr>pr_id = c_id c, pr_state = c_state c, pr_drv = c_drv c, pr_recipe = c_recipe c, pr_error = c_error c\<rparr>"

definition plan :: "world \<Rightarrow> string \<Rightarrow> int list \<Rightarrow> json \<Rightarrow> json \<Rightarrow> string ctl_op" where
  "plan w cid ids source revision =
     bindM (liftM (\<lambda>s. campaign (k_db s) cid)) (\<lambda>cp.
     bindM (requireM (ids \<noteq> [] \<and> length ids \<le> 64 \<and> distinct ids) (ValueError ''plan requires 1-64 candidate IDs'')) (\<lambda>_.
     let explicit = (source \<noteq> JNull \<or> revision \<noteq> JNull) in
     bindM (if explicit then liftM (\<lambda>_. bindr (validate_source (nx_is_file (w_nx w)) source revision)
              (\<lambda>(src, rev). Inr (no_extra\<lparr>x_source := Some src, x_revision := Some rev\<rparr>)))
            else returnM no_extra) (\<lambda>x.
     bindM (liftM (\<lambda>s. map_res (plan_candidate (k_db s) cid explicit) ids)) (\<lambda>targets.
     bindM (if explicit then
              bindM (readM (\<lambda>db. List.map_filter (find_candidate db) ids)) (\<lambda>rows.
              bindM (gc_root w (the (x_source x))) (\<lambda>_.
              returnM (x\<lparr>x_previous := Some (map prior rows)\<rparr>)))
            else returnM x) (\<lambda>x1.
     intent w cp Plan targets x1)))))"

definition REPLAN_LIMIT :: nat where
  "REPLAN_LIMIT = 8192"

definition replan_blocked :: "database \<Rightarrow> string \<Rightarrow> int \<Rightarrow> bool" where
  "replan_blocked db cid i =
     (let row = find (\<lambda>c. c_id c = i \<and> c_campaign c = cid) (candidates db); active = active_attempts db in
      \<not> replan_eligible row
      \<or> List.member (concat (map (\<lambda>a. plan_ids (at_targets a)) (filter is_plan active))) i
      \<or> drv_in (Option.bind row c_drv) (active_drvs active))"

text \<open>Whether a request is new (True), or already queued for the same revision.\<close>

definition replan_pending :: "database \<Rightarrow> string \<Rightarrow> string \<Rightarrow> string \<Rightarrow> int \<Rightarrow> bool result" where
  "replan_pending db cid source revision i =
     (if replan_blocked db cid i
      then Inl (ValueError (''candidate '' @ encode_int i @ '' must be an inactive revision-replan candidate''))
      else case find (\<lambda>r. rp_candidate r = i) (replans db) of
        None \<Rightarrow> Inr True
      | Some r \<Rightarrow> if (rp_source r, rp_revision r) \<noteq> (source, revision)
                  then Inl (ValueError (''candidate '' @ encode_int i @ '' already has a different revision queued''))
                  else Inr False)"

fun int_ids :: "json list \<Rightarrow> int list option" where
  "int_ids [] = Some []"
| "int_ids (JInt n # js) = map_option (Cons n) (int_ids js)"
| "int_ids (_ # js) = None"

definition replan_ids :: "json list \<Rightarrow> int list result" where
  "replan_ids js =
     (case int_ids js of
        Some ids \<Rightarrow> bindr (guardr (ids \<noteq> [] \<and> length ids \<le> REPLAN_LIMIT \<and> distinct ids)
                       (ValueError ''queue-replan requires 1-8192 distinct candidate IDs'')) (\<lambda>_. Inr ids)
      | None \<Rightarrow> Inl (ValueError ''queue-replan requires 1-8192 distinct candidate IDs''))"

definition enqueue_replans :: "timestamp \<Rightarrow> string \<Rightarrow> string \<Rightarrow> string \<Rightarrow> string \<Rightarrow> int list \<Rightarrow> database \<Rightarrow> database" where
  "enqueue_replans now cid source revision request pending db =
     event now cid ''replan-queued''
       (JObj [(''request'', JStr request), (''ids'', JArr (map JInt pending)), (''source'', JStr source), (''revision'', JStr revision)])
       (db\<lparr>replans := replans db @ map (\<lambda>i. \<lparr>rp_candidate = i, rp_source = source, rp_revision = revision,
          rp_request = request, rp_created = now\<rparr>) pending\<rparr>)"

definition queue_replan :: "world \<Rightarrow> string \<Rightarrow> json list \<Rightarrow> json \<Rightarrow> json \<Rightarrow> json ctl_op" where
  "queue_replan w cid jids source revision =
     bindM (liftM (\<lambda>s. campaign (k_db s) cid)) (\<lambda>_.
     bindM (liftM (\<lambda>_. validate_source (nx_is_file (w_nx w)) source revision)) (\<lambda>(src, rev).
     bindM (liftM (\<lambda>_. replan_ids jids)) (\<lambda>ids.
     bindM (liftM (\<lambda>s. map_res (replan_pending (k_db s) cid src rev) ids)) (\<lambda>flags.
     let pending = map fst (filter snd (zip ids flags)) in
     bindM (if pending \<noteq> [] then
              bindM (next_uuid w) (\<lambda>request.
              bindM (gc_root w src) (\<lambda>_.
              bindM (transactM (dbM (enqueue_replans (w_now w) cid src rev request pending))) (\<lambda>_.
              returnM (JStr request))))
            else returnM JNull) (\<lambda>request.
     returnM (JObj [(''request'', request), (''queued'', JInt (int (length pending))),
       (''already_queued'', JInt (int (length ids) - int (length pending)))]))))))"


end
