(* ===== verification/Reconcile.thy ===== *)
theory Reconcile
  imports Controller
begin

text \<open>
  Reconciliation of the active attempts with what their workers left in the attempt folders
  (\<^verbatim>\<open>ingest\<close>, \<^verbatim>\<open>finish_plan\<close>, \<^verbatim>\<open>finish_build\<close> and \<^verbatim>\<open>reconcile\<close> of
  \<^verbatim>\<open>experiment/controller.py\<close>): complete log lines are committed with the offset they end at, and
  a finished attempt is turned into facts about candidates and derivations in one transaction.
\<close>

section \<open>Log ingestion\<close>

definition READ_BLOCK :: nat where
  "READ_BLOCK = 4 * 1024 ^ 2"

text \<open>The number of bytes up to and including the last line break: \<^verbatim>\<open>data.rfind(b"\n") + 1\<close>.\<close>

definition complete_prefix :: "string \<Rightarrow> nat" where
  "complete_prefix data = length (dropWhile (\<lambda>c. c \<noteq> NL) (rev data))"

text \<open>The end of an oversized line: after its line break, or, once the attempt has exited, at
  the end of the file.\<close>

definition oversized_end :: "bool \<Rightarrow> string \<Rightarrow> nat option" where
  "oversized_end exited rest =
     (if NL \<in> set rest then Some (length (takeWhile (\<lambda>c. c \<noteq> NL) rest) + 1)
      else if exited then Some (length rest) else None)"

definition skip_oversized :: "timestamp \<Rightarrow> attempt \<Rightarrow> nat \<Rightarrow> database \<Rightarrow> database" where
  "skip_oversized now a n db =
     event now (at_campaign a) ''oversized-log-line''
       (JObj [(''attempt'', JStr (at_id a)), (''offset'', JInt (int (at_offset a))), (''bytes'', JInt (int n))])
       (update_attempts (\<lambda>r. at_id r = at_id a \<and> at_offset r = at_offset a) (\<lambda>r. r\<lparr>at_offset := at_offset a + n\<rparr>) db)"

definition commit_lines :: "runtime \<Rightarrow> attempt \<Rightarrow> string \<Rightarrow> database \<Rightarrow> database result" where
  "commit_lines rt a data db =
     (case find_attempt db (at_id a) of
        None \<Rightarrow> Inl (TypeError ''NoneType'')
      | Some r \<Rightarrow>
          Inr (if at_offset r \<noteq> at_offset a then db
               else update_attempts (\<lambda>r. at_id r = at_id a) (\<lambda>r. r\<lparr>at_offset := at_offset r + length data\<rparr>)
                      (fold (observe rt (at_id a)) (splitlines byte_break data) db)))"

definition ingest :: "world \<Rightarrow> attempt \<Rightarrow> unit ctl_op" where
  "ingest w a =
     bindM (getsM (\<lambda>s. folder_of s (at_id a))) (\<lambda>f.
     case f_log f of
       None \<Rightarrow> returnM ()
     | Some raw \<Rightarrow>
         let rest = drop (at_offset a) raw; data = take READ_BLOCK rest; n = complete_prefix data in
         if n = 0 \<and> length data = READ_BLOCK then
           (case oversized_end (f_exit f \<noteq> None) rest of
              None \<Rightarrow> returnM ()
            | Some k \<Rightarrow> transactM (dbM (skip_oversized (w_now w) a k)))
         else whenM (n \<noteq> 0) (transactM (try_dbM (commit_lines (w_rt w) a (take n data)))))"

section \<open>Finishing a plan\<close>

fun splitlines_keep_acc :: "string \<Rightarrow> string \<Rightarrow> string list" where
  "splitlines_keep_acc acc [] = (if acc = [] then [] else [rev acc])"
| "splitlines_keep_acc acc [c] = [rev (c # acc)]"
| "splitlines_keep_acc acc (c # d # s) =
     (if byte_break c then
        (if c = CHR 0x0D \<and> d = CHR 0x0A then rev (d # c # acc) # splitlines_keep_acc [] s
         else rev (c # acc) # splitlines_keep_acc [] (d # s))
      else splitlines_keep_acc (c # acc) (d # s))"

text \<open>Only rows that end in a line break are complete observations.\<close>

definition plan_lines :: "string \<Rightarrow> string list" where
  "plan_lines raw = filter (ends_with [NL]) (splitlines_keep_acc [] raw)"

fun jint :: "json \<Rightarrow> int result" where
  "jint (JInt n) = Inr n"
| "jint _ = Inl (TypeError ''int'')"

fun jdict :: "json \<Rightarrow> (string \<times> json) list result" where
  "jdict (JObj kvs) = Inr kvs"
| "jdict _ = Inl (TypeError ''item assignment'')"

definition set_candidate :: "int \<Rightarrow> (candidate \<Rightarrow> candidate) \<Rightarrow> database \<Rightarrow> database" where
  "set_candidate i f = update_candidates (\<lambda>c. c_id c = i) f"

definition evaluation_failed :: "string \<Rightarrow> candidate \<Rightarrow> candidate" where
  "evaluation_failed msg c = c\<lparr>c_state := Evaluation_error, c_error := Some msg\<rparr>"

definition stamped_recipe :: "attempt \<Rightarrow> (string \<times> json) list \<Rightarrow> (string \<times> json) list" where
  "stamped_recipe a recipe =
     dict_set ''plan_attempt'' (JStr (at_id a)) (dict_set ''revision'' (JStr (sp_revision (at_spec a)))
       (dict_set ''source'' (JStr (sp_source (at_spec a))) recipe))"

text \<open>A replanned candidate inherits an inconclusive sibling's hold on the same derivation.\<close>

definition planned :: "string \<Rightarrow> int \<Rightarrow> string \<Rightarrow> json \<Rightarrow> database \<Rightarrow> database" where
  "planned cid i drv recipe db =
     (let held = find (\<lambda>c. c_campaign c = cid \<and> c_drv c = Some drv \<and> c_state c = Inconclusive) (candidates db) in
      set_candidate i (\<lambda>c. c\<lparr>c_state := (if held = None then Queued else Inconclusive), c_drv := Some drv,
        c_recipe := Some recipe, c_error := Option.bind held c_error\<rparr>) db)"

definition role_key :: "role \<Rightarrow> string \<times> string \<times> string \<times> string" where
  "role_key r = (r_campaign r, r_parent r, r_child r, r_role r)"

definition add_role :: "string \<Rightarrow> string \<Rightarrow> json \<Rightarrow> database \<Rightarrow> database result" where
  "add_role cid drv r db =
     bindr (bindr (jindex ''drv'' r) jstring) (\<lambda>child.
     bindr (bindr (jindex ''role'' r) jstring) (\<lambda>name.
     Inr (db\<lparr>roles := insert_or_ignore role_key \<lparr>r_campaign = cid, r_parent = drv, r_child = child, r_role = name\<rparr> (roles db)\<rparr>)))"

definition plan_row :: "world \<Rightarrow> attempt \<Rightarrow> folder \<Rightarrow> json \<Rightarrow> int ctl_op" where
  "plan_row w a f row =
     bindM (liftM (\<lambda>_. bindr (jindex ''id'' row) jint)) (\<lambda>i.
     bindM (liftM (\<lambda>_. jget ''error'' row)) (\<lambda>err.
     case err of
       Some e \<Rightarrow> bindM (liftM (\<lambda>_. jstring e)) (\<lambda>msg.
                 bindM (dbM (set_candidate i (evaluation_failed msg))) (\<lambda>_. returnM i))
     | None \<Rightarrow>
         bindM (liftM (\<lambda>_. bindr (jindex ''recipe'' row) jdict)) (\<lambda>recipe0.
         let recipe = stamped_recipe a recipe0 in
         bindM (liftM (\<lambda>_. bindr (jindex ''graph'' row) jstring)) (\<lambda>name.
         bindM (liftM (\<lambda>_. case map_of (f_graphs f) name of None \<Rightarrow> Inl (OSError ''No such file or directory'') | Some g \<Rightarrow> Inr g)) (\<lambda>g.
         bindM (try_dbM (add_graph (w_rt w) (w_nx w) g)) (\<lambda>_.
         bindM (liftM (\<lambda>_. bindr (jindex ''drv'' (JObj recipe)) jstring)) (\<lambda>drv.
         bindM (gc_root w drv) (\<lambda>_.
         bindM (dbM (planned (at_campaign a) i drv (JObj recipe))) (\<lambda>_.
         bindM (liftM (\<lambda>_. bindr (jindex ''roles'' (JObj recipe)) jlist)) (\<lambda>rs.
         bindM (foreachM (\<lambda>r. try_dbM (add_role (at_campaign a) drv r)) rs) (\<lambda>_.
         returnM i)))))))))))"

definition plan_line :: "world \<Rightarrow> attempt \<Rightarrow> folder \<Rightarrow> string \<Rightarrow> int list \<Rightarrow> int list ctl_op" where
  "plan_line w a f line seen =
     bindM (liftM (\<lambda>_. case rt_loads (w_rt w) line of None \<Rightarrow> Inl (ValueError ''JSON'') | Some j \<Rightarrow> Inr j)) (\<lambda>row.
     bindM (plan_row w a f row) (\<lambda>i. returnM (i # seen)))"

text \<open>An alias discovered by the planner may name an active build root.\<close>

definition running_roots :: "database \<Rightarrow> string \<Rightarrow> string list" where
  "running_roots db cid = concat (map (\<lambda>a. build_roots (at_targets a))
     (filter (\<lambda>a. at_campaign a = cid) (active_builds db)))"

definition mark_running :: "string \<Rightarrow> database \<Rightarrow> database" where
  "mark_running cid db = update_candidates (\<lambda>c. c_campaign c = cid \<and> drv_in (c_drv c) (running_roots db cid))
     (\<lambda>c. c\<lparr>c_state := Running\<rparr>) db"

definition mark_unseen :: "attempt \<Rightarrow> int list \<Rightarrow> database \<Rightarrow> database" where
  "mark_unseen a seen = update_candidates (\<lambda>c. List.member (plan_ids (at_targets a)) (c_id c) \<and> \<not> List.member seen (c_id c))
     (evaluation_failed ''planning interrupted; no completed observation'')"

definition finish_plan :: "world \<Rightarrow> attempt \<Rightarrow> unit ctl_op" where
  "finish_plan w a =
     bindM (getsM (\<lambda>s. folder_of s (at_id a))) (\<lambda>f.
     bindM (foldM (plan_line w a f) (case f_plan f of None \<Rightarrow> [] | Some raw \<Rightarrow> plan_lines raw) []) (\<lambda>seen.
     bindM (dbM (mark_unseen a seen)) (\<lambda>_.
     bindM (dbM (refresh_candidates (at_campaign a))) (\<lambda>_.
     dbM (mark_running (at_campaign a))))))"

section \<open>Finishing a build\<close>

text \<open>The activity of a derivation in an attempt; a later row of the table replaces an earlier.\<close>

definition activity_of :: "database \<Rightarrow> string \<Rightarrow> string \<Rightarrow> activity option" where
  "activity_of db aid drv = find (\<lambda>a. av_attempt a = aid \<and> av_drv a = Some drv) (rev (activities db))"

definition realized :: "derivation \<Rightarrow> string set \<Rightarrow> bool" where
  "realized d available \<longleftrightarrow> d_outputs d \<noteq> [] \<and>
     list_all (\<lambda>(k, v). case v of None \<Rightarrow> False | Some p \<Rightarrow> p \<in> available) (d_outputs d)"

definition output_values :: "derivation \<Rightarrow> string list" where
  "output_values d = List.map_filter snd (d_outputs d)"

definition drv_origin :: "derivation \<Rightarrow> string set \<Rightarrow> activity option \<Rightarrow> string" where
  "drv_origin d before act =
     (if set (output_values d) \<subseteq> before then ''pre-existing''
      else if act \<noteq> None then ''local'' else ''unknown'')"

definition failure_class :: "activity option \<Rightarrow> string" where
  "failure_class act =
     (case Option.bind act av_phase of
        None \<Rightarrow> ''build''
      | Some p \<Rightarrow> (case map_of [(''configurePhase'', ''configure''), (''buildPhase'', ''compile-or-link''),
                     (''checkPhase'', ''check''), (''installCheckPhase'', ''check'')] p of
                     None \<Rightarrow> ''build'' | Some c \<Rightarrow> c))"

definition test_key :: "test_row \<Rightarrow> string \<times> string \<times> string" where
  "test_key t = (t_attempt t, t_drv t, t_phase t)"

definition PHASE_EVIDENCE :: string where
  "PHASE_EVIDENCE = ''phase observed in local build; outputs realized after attempt''"

definition add_tests :: "string \<Rightarrow> string \<Rightarrow> string list \<Rightarrow> database \<Rightarrow> database" where
  "add_tests aid drv phases db = db\<lparr>tests := fold (\<lambda>p. insert_or_ignore test_key
     \<lparr>t_attempt = aid, t_drv = drv, t_phase = p, t_evidence = PHASE_EVIDENCE\<rparr>) (dedup phases) (tests db)\<rparr>"

text \<open>The verdict on one derivation of the batch, from what the store says after it.\<close>

definition judge_drv :: "string \<Rightarrow> attempt_result \<Rightarrow> string set \<Rightarrow> string set \<Rightarrow> activity option \<Rightarrow> string set \<Rightarrow>
    derivation \<Rightarrow> database \<Rightarrow> database" where
  "judge_drv aid result before available act failures d db =
     (if realized d available then
        (let origin = drv_origin d before act;
             db1 = (if origin = ''local'' \<or> \<not> d_available d then
                      update_derivations (\<lambda>r. d_drv r = d_drv d) (\<lambda>r. r\<lparr>d_available := True, d_origin := origin,
                        d_failure := None, d_evidence_attempt := Some aid\<rparr>) db
                    else db)
         in case act of
              Some v \<Rightarrow> if origin = ''local'' \<and> \<not> re_truncated result then add_tests aid (d_drv d) (av_checks v) db1 else db1
            | None \<Rightarrow> db1)
      else if d_drv d \<in> failures then
        update_derivations (\<lambda>r. d_drv r = d_drv d) (\<lambda>r. r\<lparr>d_available := False,
          d_failure := Some (failure_class act), d_evidence_attempt := Some aid\<rparr>) db
      else db)"

definition finish_drv :: "world \<Rightarrow> attempt \<Rightarrow> attempt_result \<Rightarrow> string set \<Rightarrow> string set \<Rightarrow> string set \<Rightarrow> string \<Rightarrow> unit ctl_op" where
  "finish_drv w a result before available failures drv =
     bindM (readM (\<lambda>db. (find_drv db drv, activity_of db (at_id a) drv))) (\<lambda>(row, act).
     case row of
       None \<Rightarrow> raiseM (TypeError ''NoneType'')
     | Some d \<Rightarrow>
         bindM (dbM (judge_drv (at_id a) result before available act failures d)) (\<lambda>_.
         whenM (realized d available) (foreachM (gc_root w) (output_values d))))"

definition release_targets :: "attempt \<Rightarrow> attempt_result \<Rightarrow> database \<Rightarrow> database" where
  "release_targets a result db =
     (let mine = (\<lambda>c. c_campaign c = at_campaign a \<and> drv_in (c_drv c) (build_roots (at_targets a))) in
      update_candidates (\<lambda>c. mine c \<and> c_state c = Queued)
          (\<lambda>c. c\<lparr>c_state := Inconclusive, c_error := Some (re_reason result)\<rparr>)
        (refresh_candidates (at_campaign a)
          (update_candidates (\<lambda>c. mine c \<and> c_state c = Running) (\<lambda>c. c\<lparr>c_state := Queued\<rparr>) db)))"

definition CAPABILITY_MISMATCH :: string where
  "CAPABILITY_MISMATCH = ''Unable to start any build''"

definition capability_mismatch :: "attempt \<Rightarrow> attempt_result \<Rightarrow> string \<Rightarrow> string set \<Rightarrow> bool" where
  "capability_mismatch a result raw failures \<longleftrightarrow>
     sp_build_location (at_spec a) = Some ''remote'' \<and> re_reason result = ''build-error''
     \<and> contains CAPABILITY_MISMATCH raw \<and> failures = {}"

definition local_only :: "derivation \<Rightarrow> derivation" where
  "local_only d = d\<lparr>d_metadata := Some (case d_metadata d of
      None \<Rightarrow> \<lparr>m_system = None, m_features = [], m_local_only = True\<rparr>
    | Some m \<Rightarrow> m\<lparr>m_local_only := True\<rparr>)\<rparr>"

definition route_local :: "attempt \<Rightarrow> database \<Rightarrow> database" where
  "route_local a db =
     update_candidates (\<lambda>c. c_campaign c = at_campaign a \<and> drv_in (c_drv c) (build_roots (at_targets a)) \<and> c_state c = Inconclusive)
         (\<lambda>c. c\<lparr>c_state := Queued, c_error := None\<rparr>)
       (update_derivations (\<lambda>d. List.member (build_roots (at_targets a)) (d_drv d)) local_only db)"

definition finish_build :: "world \<Rightarrow> attempt \<Rightarrow> attempt_result \<Rightarrow> attempt_result ctl_op" where
  "finish_build w a result =
     bindM (getsM (\<lambda>s. folder_of s (at_id a))) (\<lambda>f.
     bindM (liftM (\<lambda>_. valid (w_path_info w) (set (sp_output_paths (at_spec a))))) (\<lambda>available.
     let before = set (case f_before f of None \<Rightarrow> [] | Some b \<Rightarrow> b);
         raw = (case f_log f of None \<Rightarrow> [] | Some r \<Rightarrow> r);
         failures = (if re_reason result = ''build-error'' then failure_messages (w_rt w) raw else {}) in
     bindM (foreachM (finish_drv w a result before available failures) (sp_derivations (at_spec a))) (\<lambda>_.
     bindM (dbM (release_targets a result)) (\<lambda>_.
     bindM (whenM (capability_mismatch a result raw failures) (dbM (route_local a))) (\<lambda>_.
     bindM (readM (\<lambda>db. snapshot db (at_id a))) (\<lambda>outcomes.
     returnM (result\<lparr>re_build_outcomes := Some outcomes, re_build_outcomes_source := Some ''batch-completion''\<rparr>)))))))"

section \<open>Reconciliation\<close>

definition finish_attempt :: "timestamp \<Rightarrow> attempt \<Rightarrow> attempt_result \<Rightarrow> database \<Rightarrow> database" where
  "finish_attempt now a result db =
     update_campaigns (\<lambda>c. cp_id c = at_campaign a \<and> cp_mode c = Running_mode) (\<lambda>c. c\<lparr>cp_heartbeat := Some now\<rparr>)
       (event now (at_campaign a) ''attempt-finished'' (JObj [(''id'', JStr (at_id a)), (''reason'', JStr (re_reason result))])
         (update_attempts (\<lambda>r. at_id r = at_id a)
           (\<lambda>r. r\<lparr>at_state := Finished, at_finished := Some (re_finished result), at_result := Some result\<rparr>) db))"

definition complete :: "world \<Rightarrow> attempt \<Rightarrow> attempt_result \<Rightarrow> unit ctl_op" where
  "complete w a result = transactM (
     bindM (case at_kind a of
              Plan \<Rightarrow> bindM (finish_plan w a) (\<lambda>_. returnM result)
            | Build \<Rightarrow> finish_build w a result) (\<lambda>result'.
     dbM (finish_attempt (w_now w) a result')))"

definition bare_result :: "string \<Rightarrow> timestamp \<Rightarrow> attempt_result" where
  "bare_result reason now = \<lparr>re_reason = reason, re_exit_code = None, re_finished = now, re_truncated = False,
     re_error = None, re_worker_reason = None, re_build_outcomes = None, re_build_outcomes_source = None\<rparr>"

definition ensure_folder :: "attempt \<Rightarrow> unit ctl_op" where
  "ensure_folder a = bindM (getsM (\<lambda>s. folder_of s (at_id a))) (\<lambda>f.
     set_folder (at_id a) (if f_spec f = None then f\<lparr>f_spec := Some (at_spec a)\<rparr> else f))"

definition ingest_timesM :: "world \<Rightarrow> attempt \<Rightarrow> unit ctl_op" where
  "ingest_timesM w a = bindM (getsM (\<lambda>s. f_times (folder_of s (at_id a)))) (\<lambda>file.
     transactM (dbM (ingest_times (w_rt w) file (at_id a))))"

definition drain :: "world \<Rightarrow> attempt \<Rightarrow> attempt_result \<Rightarrow> unit ctl_op" where
  "drain w a result =
     bindM (readM (\<lambda>db. find_attempt db (at_id a))) (\<lambda>row.
     case row of
       None \<Rightarrow> raiseM (TypeError ''NoneType'')
     | Some current \<Rightarrow>
         bindM (getsM (\<lambda>s. case f_log (folder_of s (at_id a)) of None \<Rightarrow> 0 | Some raw \<Rightarrow> length raw)) (\<lambda>size.
         if int size - int (at_offset current) > int READ_BLOCK then returnM ()
         else bindM (ingest w current) (\<lambda>_. bindM (ingest_timesM w a) (\<lambda>_. complete w a result))))"

definition set_running :: "attempt \<Rightarrow> database \<Rightarrow> database" where
  "set_running a = update_attempts (\<lambda>r. at_id r = at_id a) (\<lambda>r. r\<lparr>at_state := At_running\<rparr>)"

definition reconcile_attempt :: "world \<Rightarrow> attempt \<Rightarrow> unit ctl_op" where
  "reconcile_attempt w a =
     bindM (ensure_folder a) (\<lambda>_.
     bindM (ingest w a) (\<lambda>_.
     bindM (ingest_timesM w a) (\<lambda>_.
     bindM (getsM (\<lambda>s. folder_of s (at_id a))) (\<lambda>f.
     case f_exit f of
       Some result \<Rightarrow> drain w a result
     | None \<Rightarrow>
         bindM (liftM (\<lambda>_. unit_active w (at_id a))) (\<lambda>alive.
         if alive then
           bindM (whenM (at_cancel a) (stop_unit w (at_id a))) (\<lambda>_. transactM (dbM (set_running a)))
         else if \<not> f_started f \<and> at_state a = Intended then
           (if at_cancel a then complete w a (bare_result ''cancelled'' (w_now w)) else start_unit w (at_id a))
         else complete w a (bare_result (if at_cancel a then ''cancelled'' else ''interrupted'') (w_now w)))))))"

definition reconcile :: "world \<Rightarrow> unit ctl_op" where
  "reconcile w = bindM (readM active_attempts) (\<lambda>rows. foreachM (reconcile_attempt w) rows)"


end
