(* ===== verification/Admission.thy ===== *)
theory Admission
  imports Reconcile
begin

text \<open>
  Admission of new attempts (\<^verbatim>\<open>admission_reason\<close>, \<^verbatim>\<open>prepare_graph\<close>, \<^verbatim>\<open>admit\<close>, \<^verbatim>\<open>build_targets\<close> and
  \<^verbatim>\<open>tick\<close> of \<^verbatim>\<open>experiment/controller.py\<close>).
\<close>

section \<open>Admission\<close>

definition admission_reason :: "world \<Rightarrow> policy \<Rightarrow> string" where
  "admission_reason w pol =
     (let rr = resources (w_slice w) pol;
          r1 = (if rr_verified rr then [] else rr_reason rr);
          r2 = (case rr_high rr of None \<Rightarrow> r1
                | Some h \<Rightarrow> if rr_memory rr \<ge> h then ''memory pressure: waiting below MemoryHigh'' else r1);
          r3 = (if w_free w < p_min_free_bytes pol then ''disk reserve reached'' else r2)
      in if w_log_bytes w \<ge> p_retained_log_bytes pol
         then ''retained log budget reached; archive attempts before continuing'' else r3)"

definition unknown_output :: "derivation \<Rightarrow> bool" where
  "unknown_output d \<longleftrightarrow> list_ex (\<lambda>(k, v). v = None) (d_outputs d)"

definition to_inspect :: "database \<Rightarrow> string set \<Rightarrow> bool \<Rightarrow> string list" where
  "to_inspect db need roll = map d_drv (sort_key (\<lambda>d. (\<not> unknown_output d, d_drv d))
     (filter (\<lambda>d. d_drv d \<in> need \<and> ((roll \<and> d_metadata d = None) \<or> unknown_output d)) (derivations db)))"

definition prepare_graph :: "world \<Rightarrow> string list \<Rightarrow> bool \<Rightarrow> string set ctl_op" where
  "prepare_graph w targets roll =
     bindM (liftM (\<lambda>s. reservations (w_path_info w) (read_before s) (k_db s) (active_builds (k_db s)) {})) (\<lambda>(_, available).
     bindM (liftM (\<lambda>s. valid (w_path_info w) (graph_paths (k_db s) (needed (k_db s) targets available)))) (\<lambda>more.
     let available1 = available \<union> more in
     bindM (readM (\<lambda>db. needed db targets available1)) (\<lambda>need.
     bindM (getsM (\<lambda>s. take 64 (filter (\<lambda>d. \<not> List.member (k_inspected s) d \<and> nx_is_file (w_nx w) d)
              (to_inspect (k_db s) need roll)))) (\<lambda>drvs.
     if drvs = [] then returnM available1
     else
       bindM (liftM (\<lambda>_. w_show w drvs)) (\<lambda>data.
       bindM (transactM (try_dbM (add_graph (w_rt w) (w_nx w) data))) (\<lambda>_.
       bindM (modifyM (\<lambda>s. s\<lparr>k_inspected := k_inspected s @ drvs\<rparr>)) (\<lambda>_.
       bindM (liftM (\<lambda>s. valid (w_path_info w) (graph_paths (k_db s) need))) (\<lambda>extra.
       returnM (available1 \<union> extra)))))))))"

definition recipe_origin :: "campaign \<Rightarrow> candidate \<Rightarrow> (string \<times> string) result" where
  "recipe_origin cp c =
     (let recipe = (case c_recipe c of None \<Rightarrow> JObj [] | Some r \<Rightarrow> r) in
      bindr (jget ''source'' recipe) (\<lambda>src. bindr (jget ''revision'' recipe) (\<lambda>rev.
      bindr (case src of None \<Rightarrow> Inr (cp_source cp) | Some j \<Rightarrow> jstring j) (\<lambda>s.
      bindr (if truthy_opt rev then jstring (the rev) else Inr (cp_revision cp)) (\<lambda>r. Inr (s, r))))))"

definition recipe_sources :: "database \<Rightarrow> campaign \<Rightarrow> string \<Rightarrow> (string \<times> (string \<times> string) list) result" where
  "recipe_sources db cp target =
     bindr (map_res (recipe_origin cp) (sort_key c_id
       (filter (\<lambda>c. c_campaign c = cp_id cp \<and> c_drv c = Some target) (candidates db)))) (\<lambda>origins.
     Inr (target, if origins = [] then [(cp_source cp, cp_revision cp)] else dedup origins))"

definition build_targets :: "world \<Rightarrow> campaign \<Rightarrow> string list \<Rightarrow> string option \<Rightarrow> (string set \<times> string set) option \<Rightarrow> string ctl_op" where
  "build_targets w cp targets location observation =
     bindM (liftM (\<lambda>s. map_res (recipe_sources (k_db s) cp) targets)) (\<lambda>sources.
     bindM (readM (\<lambda>db. remdups (concat (map (closure db) targets)))) (\<lambda>drvs.
     bindM (readM (\<lambda>db. concat (map (\<lambda>d. output_paths (drv_outputs db d)) drvs))) (\<lambda>outputs.
     intent w cp Build (map TBuild targets) (no_extra\<lparr>x_output_paths := sort (remdups outputs), x_derivations := sort drvs,
       x_recipe_sources := sources, x_build_location := location, x_observation := observation\<rparr>))))"

text \<open>Queued derivations in the order of their least label.\<close>

definition queued_drvs :: "database \<Rightarrow> string \<Rightarrow> string list" where
  "queued_drvs db cid =
     (let cs = filter (\<lambda>c. c_campaign c = cid \<and> c_state c = Queued) (candidates db);
          label = (\<lambda>d. hd (sort (map c_label (filter (\<lambda>c. c_drv c = Some d) cs))))
      in sort_key label (sort (remdups (List.map_filter c_drv cs))))"

record lane =
  l_builds :: "attempt list"
  l_held :: "string set"
  l_held_paths :: "string set"
  l_remote :: bool
  l_local :: bool
  l_admitted :: bool

definition capacity :: "policy \<Rightarrow> machine list \<Rightarrow> lane \<Rightarrow> lane result" where
  "capacity pol machines l =
     bindr (build_policy pol (l_builds l) ''remote'' machines) (\<lambda>r.
     bindr (build_policy pol (l_builds l) ''local'' []) (\<lambda>loc.
     Inr (l\<lparr>l_remote := (r \<noteq> None), l_local := (loc \<noteq> None)\<rparr>)))"

text \<open>One candidate of the rolling loop; without capacity the loop has ended.\<close>

definition roll_one :: "world \<Rightarrow> campaign \<Rightarrow> string set \<Rightarrow> string \<Rightarrow> lane \<Rightarrow> lane ctl_op" where
  "roll_one w cp available drv l =
     (if \<not> (l_remote l \<or> l_local l) then returnM l
      else bindM (getsM id) (\<lambda>s.
        let need = needed (k_db s) [drv] available; paths = graph_paths (k_db s) need in
        if need \<inter> l_held l \<noteq> {} \<or> paths \<inter> l_held_paths l \<noteq> {} then returnM l
        else let location = (if l_remote l \<and> remote_eligible (k_db s) need (k_machines s) then Some ''remote''
                             else if l_local l then Some ''local'' else None) in
          case location of
            None \<Rightarrow> returnM l
          | Some loc \<Rightarrow>
              bindM (build_targets w cp [drv] (Some loc) (Some (l_held l, available))) (\<lambda>aid.
              bindM (readM (\<lambda>db. find_attempt db aid)) (\<lambda>row.
              liftM (\<lambda>s'. capacity (cp_policy cp) (k_machines s')
                (l\<lparr>l_builds := l_builds l @ (case row of None \<Rightarrow> [] | Some a \<Rightarrow> [a]),
                   l_held := l_held l \<union> need, l_held_paths := l_held_paths l \<union> paths, l_admitted := True\<rparr>))))))"

fun select_batch :: "database \<Rightarrow> string set \<Rightarrow> string set \<Rightarrow> string set \<Rightarrow> int \<Rightarrow> string list \<Rightarrow> string list \<Rightarrow> string list" where
  "select_batch db held held_paths available limit [] targets = targets"
| "select_batch db held held_paths available limit (drv # drvs) targets =
     (let need = needed db [drv] available in
      if need \<inter> held \<noteq> {} \<or> graph_paths db need \<inter> held_paths \<noteq> {}
      then select_batch db held held_paths available limit drvs targets
      else let targets' = targets @ [drv] in
        if int (length targets') \<ge> limit then targets'
        else select_batch db held held_paths available limit drvs targets')"

text \<open>Admission of builds: whether one was admitted, and the active builds the caller goes on
  with, to which only the rolling loop adds.\<close>

definition admit_rolling :: "world \<Rightarrow> campaign \<Rightarrow> attempt list \<Rightarrow> string list \<Rightarrow> string set \<Rightarrow> string set \<Rightarrow> (bool \<times> attempt list) ctl_op" where
  "admit_rolling w cp builds cands held available =
     bindM (liftM (\<lambda>s. capacity (cp_policy cp) (k_machines s) \<lparr>l_builds = builds, l_held = held,
              l_held_paths = graph_paths (k_db s) held, l_remote = False, l_local = False, l_admitted = False\<rparr>)) (\<lambda>l.
     bindM (foldM (roll_one w cp available) cands l) (\<lambda>l'. returnM (l_admitted l', l_builds l')))"

definition admit_batch :: "world \<Rightarrow> campaign \<Rightarrow> attempt list \<Rightarrow> string list \<Rightarrow> string set \<Rightarrow> string set \<Rightarrow> (bool \<times> attempt list) ctl_op" where
  "admit_batch w cp builds cands held available =
     bindM (readM (\<lambda>db. select_batch db held (graph_paths db held) available (p_batch_size (cp_policy cp)) cands [])) (\<lambda>targets.
     if targets = [] then returnM (False, builds)
     else bindM (build_targets w cp targets None (Some (held, available))) (\<lambda>_. returnM (True, builds)))"

definition admit_selected :: "world \<Rightarrow> campaign \<Rightarrow> attempt list \<Rightarrow> string list \<Rightarrow> string set \<Rightarrow> (bool \<times> attempt list) ctl_op" where
  "admit_selected w cp builds cands observed =
     bindM (liftM (\<lambda>s. reservations (w_path_info w) (read_before s) (k_db s) builds observed)) (\<lambda>(held, available).
     if rolling (cp_policy cp) then admit_rolling w cp builds cands held available
     else admit_batch w cp builds cands held available)"

definition admit_builds :: "world \<Rightarrow> campaign \<Rightarrow> attempt list \<Rightarrow> (bool \<times> attempt list) ctl_op" where
  "admit_builds w cp builds =
     (let pol = cp_policy cp in
      bindM (readM (\<lambda>db. take (nat (max (p_batch_size pol) (min 256 (plan_ahead pol)))) (queued_drvs db (cp_id cp)))) (\<lambda>cands.
      bindM (prepare_graph w (cands @ concat (map (\<lambda>r. build_roots (at_targets r)) builds)) (rolling pol))
        (admit_selected w cp builds cands)))"

text \<open>Requests overtaken by an exclusion, another result or an active build are dropped, with
  an event that names them.\<close>

definition replan_join :: "database \<Rightarrow> string \<Rightarrow> (replan \<times> candidate) list" where
  "replan_join db cid = List.map_filter (\<lambda>r. case find_candidate db (rp_candidate r) of
     None \<Rightarrow> None | Some c \<Rightarrow> if c_campaign c = cid then Some (r, c) else None) (replans db)"

definition state_text :: "cstate \<Rightarrow> string" where
  "state_text st = (case st of Unplanned \<Rightarrow> ''unplanned'' | Queued \<Rightarrow> ''queued'' | Running \<Rightarrow> ''running''
     | Available \<Rightarrow> ''available'' | Failed \<Rightarrow> ''failed'' | Blocked \<Rightarrow> ''blocked'' | Excluded \<Rightarrow> ''excluded''
     | Inconclusive \<Rightarrow> ''inconclusive'' | Evaluation_error \<Rightarrow> ''evaluation-error'')"

definition skip_replans :: "timestamp \<Rightarrow> string \<Rightarrow> string list \<Rightarrow> database \<Rightarrow> database" where
  "skip_replans now cid busy db =
     (let skipped = filter (\<lambda>(r, c). \<not> replan_eligible (Some c) \<or> drv_in (c_drv c) busy) (replan_join db cid) in
      if skipped = [] then db
      else event now cid ''replan-skipped'' (JObj [(''candidates'', JArr (map (\<lambda>(r, c).
             JObj [(''candidate'', JInt (rp_candidate r)), (''request'', JStr (rp_request r)),
               (''state'', JStr (state_text (c_state c))), (''drv'', text_or_null (c_drv c)), (''error'', text_or_null (c_error c))])
             skipped))])
           (db\<lparr>replans := filter (\<lambda>r. \<not> List.member (map (rp_candidate \<circ> fst) skipped) (rp_candidate r)) (replans db)\<rparr>))"

definition plan_quota :: "database \<Rightarrow> campaign \<Rightarrow> nat" where
  "plan_quota db cp =
     (let ahead = plan_ahead (cp_policy cp) in
      if ahead = 0 then 32 else nat (min 32 (max 0 (ahead - int (length (queued_drvs db (cp_id cp)))))))"

definition admit_plans :: "world \<Rightarrow> campaign \<Rightarrow> attempt list \<Rightarrow> unit ctl_op" where
  "admit_plans w cp builds =
     bindM (readM (\<lambda>db. plan_quota db cp)) (\<lambda>quota.
     if quota = 0 then returnM ()
     else
       bindM (transactM (dbM (skip_replans (w_now w) (cp_id cp) (active_drvs builds)))) (\<lambda>_.
       bindM (readM (\<lambda>db. sort_key (\<lambda>r. (rp_created r, rp_candidate r)) (map fst (replan_join db (cp_id cp))))) (\<lambda>requests.
       case requests of
         request # _ \<Rightarrow>
           bindM (readM (\<lambda>db. take quota (sort (map rp_candidate (filter (\<lambda>r. rp_request r = rp_request request) (replans db)))))) (\<lambda>ids.
           bindM (plan w (cp_id cp) ids (JStr (rp_source request)) (JStr (rp_revision request))) (\<lambda>_. returnM ()))
       | [] \<Rightarrow>
           bindM (readM (\<lambda>db. take quota (map c_id (sort_key c_label
                    (filter (\<lambda>c. c_campaign c = cp_id cp \<and> c_state c = Unplanned) (candidates db)))))) (\<lambda>ids.
           if ids = [] then returnM ()
           else bindM (plan w (cp_id cp) ids JNull JNull) (\<lambda>_. returnM ())))))"

definition set_hold :: "string \<Rightarrow> string \<Rightarrow> database \<Rightarrow> database" where
  "set_hold cid reason = update_campaigns (\<lambda>c. cp_id c = cid) (\<lambda>c. c\<lparr>cp_hold := reason\<rparr>)"

definition refresh_machines :: "world \<Rightarrow> policy \<Rightarrow> unit ctl_op" where
  "refresh_machines w pol =
     bindM (getsM k_machines_observed) (\<lambda>seen.
     whenM (rolling pol \<and> w_now w - seen \<ge> 60)
       (bindM (liftM (\<lambda>_. bindr (w_config w) (\<lambda>(builders, system). build_machines (w_read_text w) builders system))) (\<lambda>ms.
        modifyM (\<lambda>s. s\<lparr>k_machines := ms, k_machines_observed := w_now w\<rparr>))))"

definition can_build :: "campaign \<Rightarrow> ctl \<Rightarrow> bool result" where
  "can_build cp s =
     (let pol = cp_policy cp; builds = active_builds (k_db s) in
      bindr (build_policy pol builds ''local'' []) (\<lambda>loc.
      if loc \<noteq> None then Inr True
      else if rolling pol then bindr (build_policy pol builds ''remote'' (k_machines s)) (\<lambda>r. Inr (r \<noteq> None))
      else Inr False))"

definition admit :: "world \<Rightarrow> campaign \<Rightarrow> unit ctl_op" where
  "admit w cp =
     (let pol = cp_policy cp; ahead = plan_ahead pol in
      bindM (refresh_machines w pol) (\<lambda>_.
      bindM (readM active_attempts) (\<lambda>active.
      if list_ex (\<lambda>r. at_campaign r \<noteq> cp_id cp) active then returnM ()
      else
      bindM (liftM (can_build cp)) (\<lambda>can.
      if active \<noteq> [] \<and> (ahead = 0 \<or> (\<not> can \<and> list_ex is_plan active)) then returnM ()
      else
      let reason = admission_reason w pol in
      bindM (transactM (dbM (set_hold (cp_id cp) reason))) (\<lambda>_.
      if reason \<noteq> [] then returnM ()
      else
      bindM (if can then admit_builds w cp (filter is_build active) else returnM (False, filter is_build active)) (\<lambda>(admitted, builds).
      if list_ex is_plan active \<or> ((list_ex is_build active \<or> admitted) \<and> ahead = 0) then returnM ()
      else admit_plans w cp builds))))))"

definition heartbeat :: "timestamp \<Rightarrow> string \<Rightarrow> database \<Rightarrow> database" where
  "heartbeat now cid = update_campaigns (\<lambda>c. cp_id c = cid) (\<lambda>c. c\<lparr>cp_heartbeat := Some now\<rparr>)"

definition tick_campaign :: "world \<Rightarrow> campaign \<Rightarrow> unit ctl_op" where
  "tick_campaign w c =
     bindM (whenM (cp_mode c = Running_mode) (admit w c)) (\<lambda>_.
     transactM (dbM (heartbeat (w_now w) (cp_id c))))"

definition tick_campaigns :: "world \<Rightarrow> unit ctl_op" where
  "tick_campaigns w = bindM (readM (\<lambda>db. sort_key cp_created (campaigns db))) (foreachM (tick_campaign w))"

definition tick :: "world \<Rightarrow> unit ctl_op" where
  "tick w = bindM (reconcile w) (\<lambda>_. tick_campaigns w)"

end
