(* ===== verification/Commands.thy ===== *)
theory Commands
  imports Admission
begin

text \<open>
  The commands of the control socket (\<^verbatim>\<open>exclude_kernels\<close>, \<^verbatim>\<open>exclude_toolchains\<close>, \<^verbatim>\<open>dispatch\<close> and the
  request handling of \<^verbatim>\<open>serve\<close> in \<^verbatim>\<open>experiment/controller.py\<close>), and the steps of the whole system.
\<close>

section \<open>Reclassifying scope\<close>

definition ascii_lower :: "char \<Rightarrow> char" where
  "ascii_lower c = (if 65 \<le> (of_char c :: nat) \<and> (of_char c :: nat) \<le> 90 then char_of (of_char c + 32 :: nat) else c)"

definition require_paused :: "campaign \<Rightarrow> unit ctl_op" where
  "require_paused cp = requireM (cp_mode cp = Paused) (ValueError ''pause the campaign before reclassifying its scope'')"

definition cancelled_build :: "database \<Rightarrow> string \<Rightarrow> string \<Rightarrow> attempt result" where
  "cancelled_build db cid aid =
     (case find (\<lambda>a. at_id a = aid \<and> at_campaign a = cid) (attempts db) of
        None \<Rightarrow> Inl (ValueError ''attempt must be a cancelled build in this campaign'')
      | Some a \<Rightarrow> bindr (guardr (at_kind a = Build \<and> at_state a = Finished
            \<and> (case at_result a of None \<Rightarrow> False | Some r \<Rightarrow> List.member [''cancelled'', ''excluded''] (re_reason r)))
            (ValueError ''attempt must be a cancelled build in this campaign'')) (\<lambda>_. Inr a))"

definition kernel_selected :: "candidate \<Rightarrow> bool result" where
  "kernel_selected c =
     bindr (jget ''metadata'' (c_selection c)) (\<lambda>m.
     bindr (jget ''sourceFile'' (c_selection c)) (\<lambda>sf.
     kernel_metadata (case m of None \<Rightarrow> JObj [] | Some j \<Rightarrow> j) sf))"

definition select_kernels :: "database \<Rightarrow> string \<Rightarrow> candidate list result" where
  "select_kernels db cid =
     (let cs = filter (\<lambda>c. c_campaign c = cid) (candidates db) in
      bindr (map_res kernel_selected cs) (\<lambda>flags. Inr (map fst (filter snd (zip cs flags)))))"

definition kernel_suspects :: "database \<Rightarrow> candidate list \<Rightarrow> string list" where
  "kernel_suspects db selected =
     sort (remdups (map d_drv (filter (\<lambda>d. starts_with ''linux-'' (map ascii_lower (d_name d))) (derivations db))
       @ filter (\<lambda>d. d \<noteq> []) (List.map_filter c_drv selected)))"

definition exclude_candidate :: "candidate \<Rightarrow> database \<Rightarrow> database" where
  "exclude_candidate row db =
     (let db1 = set_candidate (c_id row) (\<lambda>c. c\<lparr>c_state := Excluded, c_error := Some REASON\<rparr>) db in
      if known_path (c_drv row)
      then update_derivations (\<lambda>d. Some (d_drv d) = c_drv row) (\<lambda>d. d\<lparr>d_exclusion := Some REASON\<rparr>) db1 else db1)"

text \<open>The cancelled batch becomes an excluded one; only its own inconclusive collateral is
  queued again.\<close>

definition exclude_batch :: "string \<Rightarrow> attempt \<Rightarrow> database \<Rightarrow> database result" where
  "exclude_batch cid a db =
     bindr (guardr (list_ex (\<lambda>t. list_ex (\<lambda>d. d_drv d = t \<and> d_exclusion d \<noteq> None) (derivations db)) (build_roots (at_targets a)))
              (ValueError ''cancelled batch has no excluded kernel root'')) (\<lambda>_.
     Inr (update_candidates (\<lambda>c. c_campaign c = cid \<and> drv_in (c_drv c) (build_roots (at_targets a))
              \<and> c_state c = Inconclusive \<and> c_error c = Some ''cancelled'')
            (\<lambda>c. c\<lparr>c_state := Queued, c_error := None\<rparr>)
          (update_attempts (\<lambda>r. at_id r = at_id a)
            (\<lambda>r. r\<lparr>at_result := map_option (\<lambda>re. re\<lparr>re_reason := ''excluded'',
               re_worker_reason := Some (case re_worker_reason re of None \<Rightarrow> re_reason re | Some x \<Rightarrow> x),
               re_error := Some REASON\<rparr>) (at_result a)\<rparr>) db)))"

definition excluded_rows :: "database \<Rightarrow> string \<Rightarrow> json" where
  "excluded_rows db cid = JArr (map (\<lambda>c. JObj [(''id'', JInt (c_id c)), (''label'', JStr (c_label c)),
       (''drv'', text_or_null (c_drv c)), (''error'', text_or_null (c_error c))])
     (sort_key c_label (filter (\<lambda>c. c_campaign c = cid \<and> c_state c = Excluded) (candidates db))))"

definition exclude_kernels :: "world \<Rightarrow> string \<Rightarrow> string option \<Rightarrow> json ctl_op" where
  "exclude_kernels w cid aid =
     bindM (liftM (\<lambda>s. campaign (k_db s) cid)) (\<lambda>cp.
     bindM (require_paused cp) (\<lambda>_.
     bindM (if known_path aid then bindM (liftM (\<lambda>s. cancelled_build (k_db s) cid (the aid))) (\<lambda>a. returnM (Some a))
            else returnM None) (\<lambda>attempt.
     bindM (liftM (\<lambda>s. select_kernels (k_db s) cid)) (\<lambda>selected.
     bindM (readM (\<lambda>db. kernel_suspects db selected)) (\<lambda>suspects.
     bindM (liftM (\<lambda>_. map_res (w_show w) (chunks 64 suspects))) (\<lambda>defs.
     transactM (
       bindM (foreachM (\<lambda>g. try_dbM (add_graph (w_rt w) (w_nx w) g)) defs) (\<lambda>_.
       bindM (foreachM (\<lambda>row. dbM (exclude_candidate row)) selected) (\<lambda>_.
       bindM (case attempt of None \<Rightarrow> returnM () | Some a \<Rightarrow> try_dbM (exclude_batch cid a)) (\<lambda>_.
       bindM (dbM (refresh_candidates cid)) (\<lambda>_.
       bindM (readM (\<lambda>db. JObj [(''reason'', JStr REASON), (''attempt'', text_or_null aid),
                (''runner_version'', JStr VERSION), (''excluded'', excluded_rows db cid)])) (\<lambda>report.
       bindM (dbM (event (w_now w) cid ''kernels-excluded'' report)) (\<lambda>_.
       returnM report)))))))))))))"

text \<open>\<^verbatim>\<open>rustc\<close> definitions are inspected 64 at a time.\<close>

definition rustc_toolchains :: "world \<Rightarrow> string list \<Rightarrow> string list result" where
  "rustc_toolchains w drvs =
     bindr (bindr (w_show w drvs) normalize_graph) (\<lambda>rows.
     bindr (map_res (\<lambda>(drv, info). bindr (jget ''name'' info) (\<lambda>n.
              bindr (case n of None \<Rightarrow> Inr [] | Some j \<Rightarrow> jstring j) (\<lambda>name.
              Inr (drv, toolchain_derivation (rt_float (w_rt w)) name (Some info))))) rows) (\<lambda>flags.
     Inr (map fst (filter snd flags))))"

definition exclude_named :: "(string \<times> string) list \<Rightarrow> database \<Rightarrow> database" where
  "exclude_named rows db = fold (\<lambda>(reason, drv). update_derivations (\<lambda>d. d_drv d = drv \<and> d_exclusion d = None)
     (\<lambda>d. d\<lparr>d_exclusion := Some reason\<rparr>)) rows db"

definition count_state :: "database \<Rightarrow> string \<Rightarrow> cstate \<Rightarrow> int" where
  "count_state db cid st = int (length (filter (\<lambda>c. c_campaign c = cid \<and> c_state c = st) (candidates db)))"

definition requeue_blocked :: "string \<Rightarrow> database \<Rightarrow> database" where
  "requeue_blocked cid = update_candidates (\<lambda>c. c_campaign c = cid \<and> c_state c = Blocked) (\<lambda>c. c\<lparr>c_state := Queued\<rparr>)"

definition exclude_toolchains :: "world \<Rightarrow> string \<Rightarrow> json ctl_op" where
  "exclude_toolchains w cid =
     bindM (liftM (\<lambda>s. campaign (k_db s) cid)) (\<lambda>cp.
     bindM (require_paused cp) (\<lambda>_.
     bindM (readM (\<lambda>db. filter (\<lambda>d. d_exclusion d = None) (derivations db))) (\<lambda>rows.
     let named0 = map d_drv (filter (\<lambda>d. TOOLCHAIN_NAME (d_name d)) rows);
         rustc = sort (map d_drv (filter (\<lambda>d. RUSTC_NAME (d_name d) \<and> w_exists w (d_drv d)) rows));
         others = List.map_filter (\<lambda>d. map_option (\<lambda>r. (r, d_drv d)) (first_reason OUT_OF_SCOPE (d_name d))) rows in
     bindM (liftM (\<lambda>_. map_res (rustc_toolchains w) (chunks 64 rustc))) (\<lambda>more.
     let named = named0 @ concat more in
     transactM (
       bindM (dbM (exclude_named (map (\<lambda>d. (TOOLCHAIN_REASON, d)) named @ others))) (\<lambda>_.
       bindM (readM id) (\<lambda>before.
       bindM (dbM (requeue_blocked cid)) (\<lambda>_.
       bindM (dbM (refresh_candidates cid)) (\<lambda>_.
       bindM (readM (\<lambda>db. JObj [(''reason'', JStr TOOLCHAIN_REASON), (''runner_version'', JStr VERSION),
           (''derivations'', JArr (map JStr (sort (named @ map snd others)))),
           (''excluded'', JInt (count_state db cid Excluded - count_state before cid Excluded)),
           (''blocked'', JInt (count_state db cid Blocked - count_state before cid Blocked))])) (\<lambda>report.
       bindM (dbM (event (w_now w) cid ''toolchains-excluded'' report)) (\<lambda>_.
       returnM report)))))))))))"

section \<open>Commands\<close>

text \<open>The admission settings that the command \<^verbatim>\<open>schedule\<close> may change.\<close>

record settings =
  s_batch_size :: int
  s_plan_ahead :: int
  s_build_lanes :: int
  s_scheduling :: string

definition settings_of :: "policy \<Rightarrow> settings" where
  "settings_of pol = \<lparr>s_batch_size = p_batch_size pol, s_plan_ahead = plan_ahead pol, s_build_lanes = build_lanes pol,
     s_scheduling = (case p_scheduling pol of None \<Rightarrow> ''batched'' | Some x \<Rightarrow> x)\<rparr>"

definition settings_json :: "settings \<Rightarrow> json" where
  "settings_json s = JObj [(''batch_size'', JInt (s_batch_size s)), (''plan_ahead'', JInt (s_plan_ahead s)),
     (''build_lanes'', JInt (s_build_lanes s)), (''scheduling'', JStr (s_scheduling s))]"

text \<open>A request parameter that is absent or null leaves a setting alone.\<close>

definition bounded_setting :: "string \<Rightarrow> int \<Rightarrow> int \<Rightarrow> json option \<Rightarrow> int \<Rightarrow> int result" where
  "bounded_setting key low high value old =
     (case value of
        None \<Rightarrow> Inr old
      | Some JNull \<Rightarrow> Inr old
      | Some (JInt n) \<Rightarrow> if low \<le> n \<and> n \<le> high then Inr n
                       else Inl (ValueError (key @ '' must be an integer from '' @ encode_int low @ '' to '' @ encode_int high))
      | Some _ \<Rightarrow> Inl (ValueError (key @ '' must be an integer from '' @ encode_int low @ '' to '' @ encode_int high)))"

definition scheduling_setting :: "json option \<Rightarrow> string \<Rightarrow> string result" where
  "scheduling_setting value old =
     (case value of
        None \<Rightarrow> Inr old
      | Some JNull \<Rightarrow> Inr old
      | Some (JStr s) \<Rightarrow> if List.member [''batched'', ''rolling''] s then Inr s
                       else Inl (ValueError ''scheduling must be batched or rolling'')
      | Some _ \<Rightarrow> Inl (ValueError ''scheduling must be batched or rolling''))"

definition new_settings :: "(string \<times> json) list \<Rightarrow> settings \<Rightarrow> settings result" where
  "new_settings req before =
     bindr (bounded_setting ''batch_size'' 1 64 (map_of req ''batch_size'') (s_batch_size before)) (\<lambda>b.
     bindr (bounded_setting ''plan_ahead'' 0 256 (map_of req ''plan_ahead'') (s_plan_ahead before)) (\<lambda>a.
     bindr (bounded_setting ''build_lanes'' 1 2 (map_of req ''build_lanes'') (s_build_lanes before)) (\<lambda>l.
     bindr (scheduling_setting (map_of req ''scheduling'') (s_scheduling before)) (\<lambda>sch.
     bindr (guardr (\<not> (sch = ''rolling'' \<and> a = 0)) (ValueError ''rolling scheduling requires nonzero plan_ahead'')) (\<lambda>_.
     Inr \<lparr>s_batch_size = b, s_plan_ahead = a, s_build_lanes = l, s_scheduling = sch\<rparr>)))))"

definition apply_settings :: "settings \<Rightarrow> policy \<Rightarrow> policy" where
  "apply_settings s pol = pol\<lparr>p_batch_size := s_batch_size s, p_plan_ahead := Some (s_plan_ahead s),
     p_build_lanes := Some (s_build_lanes s), p_scheduling := Some (s_scheduling s)\<rparr>"

definition update_schedule :: "timestamp \<Rightarrow> campaign \<Rightarrow> settings \<Rightarrow> settings \<Rightarrow> database \<Rightarrow> database" where
  "update_schedule now cp before after db =
     event now (cp_id cp) ''scheduling-updated''
       (JObj [(''before'', settings_json before), (''after'', settings_json after), (''runner_version'', JStr VERSION)])
       (update_campaigns (\<lambda>c. cp_id c = cp_id cp) (\<lambda>c. c\<lparr>cp_policy := apply_settings after (cp_policy cp)\<rparr>) db)"

definition schedule :: "world \<Rightarrow> string \<Rightarrow> (string \<times> json) list \<Rightarrow> json ctl_op" where
  "schedule w cid req =
     bindM (liftM (\<lambda>s. campaign (k_db s) cid)) (\<lambda>cp.
     let before = settings_of (cp_policy cp) in
     bindM (liftM (\<lambda>_. new_settings req before)) (\<lambda>after.
     bindM (whenM (after \<noteq> before) (transactM (dbM (update_schedule (w_now w) cp before after)))) (\<lambda>_.
     returnM (settings_json after))))"

definition ready_drv :: "database \<Rightarrow> string \<Rightarrow> int \<Rightarrow> string result" where
  "ready_drv db cid i =
     (case find (\<lambda>c. c_campaign c = cid \<and> c_id c = i) (candidates db) of
        None \<Rightarrow> Inl (ValueError ''candidate must be planned and ready; explicitly retry failures first'')
      | Some c \<Rightarrow> bindr (guardr (known_path (c_drv c) \<and> List.member [Queued, Available] (c_state c))
                     (ValueError ''candidate must be planned and ready; explicitly retry failures first'')) (\<lambda>_.
                   Inr (the (c_drv c))))"

definition build_once :: "world \<Rightarrow> string \<Rightarrow> int list result \<Rightarrow> string ctl_op" where
  "build_once w cid jids =
     bindM (liftM (\<lambda>s. campaign (k_db s) cid)) (\<lambda>cp.
     let pol = cp_policy cp; reason = admission_reason w pol in
     bindM (requireM (reason = []) (ValueError reason)) (\<lambda>_.
     bindM (requireM (cp_mode cp = Paused) (ValueError ''pause the campaign before submitting a bounded batch'')) (\<lambda>_.
     bindM (liftM (\<lambda>_. jids)) (\<lambda>ids.
     bindM (requireM (ids \<noteq> [] \<and> int (length ids) \<le> p_batch_size pol) (ValueError ''batch exceeds campaign size budget'')) (\<lambda>_.
     bindM (liftM (\<lambda>s. map_res (ready_drv (k_db s) cid) ids)) (\<lambda>targets.
     build_targets w cp (sort (remdups targets)) None None))))))"

definition campaign_graph :: "database \<Rightarrow> string \<Rightarrow> string list" where
  "campaign_graph db cid = cte (edge_pairs (edges db))
     (List.map_filter (\<lambda>c. if c_campaign c = cid then c_drv c else None) (candidates db))"

definition clear_failure :: "string \<Rightarrow> database \<Rightarrow> database" where
  "clear_failure drv = update_derivations (\<lambda>d. d_drv d = drv) (\<lambda>d. d\<lparr>d_failure := None\<rparr>)"

definition retry_derivation :: "world \<Rightarrow> string \<Rightarrow> json \<Rightarrow> json ctl_op" where
  "retry_derivation w cid jdrv =
     bindM (liftM (\<lambda>s. campaign (k_db s) cid)) (\<lambda>_.
     case jdrv of
       JStr drv \<Rightarrow>
         bindM (readM (\<lambda>db. List.member (campaign_graph db cid) drv)) (\<lambda>belongs.
         bindM (requireM belongs (ValueError ''derivation does not belong to the planned campaign graph'')) (\<lambda>_.
         bindM (liftM (\<lambda>s. check_scope (k_db s) [drv])) (\<lambda>_.
         bindM (transactM (dbM (\<lambda>db. event (w_now w) cid ''retry-derivation'' (JObj [(''drv'', JStr drv)])
                  (refresh_candidates cid (clear_failure drv db))))) (\<lambda>_.
         returnM (JStr ''failure cleared for explicit retry'')))))
     | _ \<Rightarrow> raiseM (ValueError ''derivation does not belong to the planned campaign graph''))"

definition set_mode :: "world \<Rightarrow> string \<Rightarrow> string \<Rightarrow> json ctl_op" where
  "set_mode w command cid =
     bindM (liftM (\<lambda>s. campaign (k_db s) cid)) (\<lambda>_.
     bindM (transactM (dbM (\<lambda>db. event (w_now w) cid command (JObj [])
       (update_campaigns (\<lambda>c. cp_id c = cid)
         (\<lambda>c. c\<lparr>cp_mode := (if command = ''run'' then Running_mode else Paused), cp_hold := []\<rparr>) db)))) (\<lambda>_.
     returnM (JStr command)))"

definition request_cancel :: "attempt \<Rightarrow> database \<Rightarrow> database" where
  "request_cancel a db =
     update_campaigns (\<lambda>c. cp_id c = at_campaign a) (\<lambda>c. c\<lparr>cp_mode := Paused\<rparr>)
       (update_attempts (\<lambda>r. at_id r = at_id a) (\<lambda>r. r\<lparr>at_cancel := True\<rparr>) db)"

definition cancel :: "world \<Rightarrow> string \<Rightarrow> json ctl_op" where
  "cancel w aid =
     bindM (readM (\<lambda>db. find (\<lambda>a. at_id a = aid) (active_attempts db))) (\<lambda>row.
     case row of
       None \<Rightarrow> raiseM (ValueError ''attempt is not active'')
     | Some a \<Rightarrow>
         bindM (transactM (dbM (request_cancel a))) (\<lambda>_.
         bindM (liftM (\<lambda>_. unit_active w aid)) (\<lambda>alive.
         bindM (whenM alive (stop_unit w aid)) (\<lambda>_.
         returnM (JStr ''cancellation requested; campaign paused'')))))"

definition retry_candidate :: "string \<Rightarrow> int \<Rightarrow> database \<Rightarrow> database result" where
  "retry_candidate cid i db =
     (case find (\<lambda>c. c_campaign c = cid \<and> c_id c = i) (candidates db) of
        None \<Rightarrow> Inl (ValueError ''retry requires a planned, inactive candidate'')
      | Some c \<Rightarrow>
          bindr (guardr (known_path (c_drv c) \<and> \<not> List.member [Running, Excluded] (c_state c))
                   (ValueError ''retry requires a planned, inactive candidate'')) (\<lambda>_.
          bindr (check_scope db [the (c_drv c)]) (\<lambda>_.
          Inr (update_candidates (\<lambda>r. c_campaign r = cid \<and> c_drv r = c_drv c)
                 (\<lambda>r. r\<lparr>c_state := Queued, c_error := None\<rparr>) (clear_failure (the (c_drv c)) db)))))"

definition retry :: "world \<Rightarrow> string \<Rightarrow> int list result \<Rightarrow> json ctl_op" where
  "retry w cid jids =
     bindM (liftM (\<lambda>s. campaign (k_db s) cid)) (\<lambda>_.
     bindM (liftM (\<lambda>_. jids)) (\<lambda>ids.
     bindM (transactM (
       bindM (foreachM (\<lambda>i. try_dbM (retry_candidate cid i)) ids) (\<lambda>_.
       bindM (dbM (refresh_candidates cid)) (\<lambda>_.
       dbM (event (w_now w) cid ''retry'' (JObj [(''ids'', JArr (map JInt ids))])))))) (\<lambda>_.
     returnM (JStr ''queued; retry failed dependencies explicitly if still blocked''))))"

text \<open>Candidate identifiers of a request are a list of integers, as the command line sends them.\<close>

definition request_ids :: "(string \<times> json) list \<Rightarrow> int list result" where
  "request_ids req =
     bindr (jindex ''ids'' (JObj req)) (\<lambda>j. bindr (jlist j) (\<lambda>js.
     case int_ids js of None \<Rightarrow> Inl (TypeError ''ids'') | Some ids \<Rightarrow> Inr ids))"

definition as_text :: "json option \<Rightarrow> string option" where
  "as_text v = (case v of Some (JStr s) \<Rightarrow> Some s | _ \<Rightarrow> None)"

definition value_or_null :: "json option \<Rightarrow> json" where
  "value_or_null v = (case v of None \<Rightarrow> JNull | Some j \<Rightarrow> j)"

definition with_campaign :: "string option \<Rightarrow> (string \<Rightarrow> json ctl_op) \<Rightarrow> json ctl_op" where
  "with_campaign cid f = (case cid of None \<Rightarrow> raiseM (ValueError ''unknown campaign'') | Some c \<Rightarrow> f c)"

definition textM :: "string ctl_op \<Rightarrow> json ctl_op" where
  "textM m = bindM m (\<lambda>x. returnM (JStr x))"

definition classify :: "world \<Rightarrow> string option \<Rightarrow> json \<Rightarrow> json ctl_op" where
  "classify w cid item =
     bindM (liftM (\<lambda>s. persist (w_rt w) (w_now w) cid item (k_db s))) (\<lambda>(msg, db).
     bindM (dbM (\<lambda>_. db)) (\<lambda>_. returnM (JStr msg)))"

definition dispatch :: "world \<Rightarrow> (string \<times> json) list \<Rightarrow> json ctl_op" where
  "dispatch w req =
     bindM (liftM (\<lambda>_. jindex ''op'' (JObj req))) (\<lambda>command.
     let cid = as_text (map_of req ''campaign'') in
     if command = JStr ''classification-import'' then
       bindM (liftM (\<lambda>_. jindex ''item'' (JObj req))) (classify w cid)
     else if command = JStr ''exclude-kernels'' then
       with_campaign cid (\<lambda>c. exclude_kernels w c (as_text (map_of req ''attempt'')))
     else if command = JStr ''exclude-toolchains'' then with_campaign cid (exclude_toolchains w)
     else if command = JStr ''schedule'' then with_campaign cid (\<lambda>c. schedule w c req)
     else if command = JStr ''plan'' then
       bindM (liftM (\<lambda>_. request_ids req)) (\<lambda>ids. with_campaign cid (\<lambda>c.
         textM (plan w c ids (value_or_null (map_of req ''source'')) (value_or_null (map_of req ''revision'')))))
     else if command = JStr ''queue-replan'' then
       bindM (liftM (\<lambda>_. bindr (jindex ''ids'' (JObj req)) jlist)) (\<lambda>ids.
       bindM (liftM (\<lambda>_. jindex ''source'' (JObj req))) (\<lambda>source.
       bindM (liftM (\<lambda>_. jindex ''revision'' (JObj req))) (\<lambda>revision.
       with_campaign cid (\<lambda>c. queue_replan w c ids source revision))))
     else if command = JStr ''build-once'' then with_campaign cid (\<lambda>c. textM (build_once w c (request_ids req)))
     else if command = JStr ''retry-derivation'' then
       with_campaign cid (\<lambda>c. bindM (liftM (\<lambda>_. jindex ''drv'' (JObj req))) (retry_derivation w c))
     else if command = JStr ''run'' then with_campaign cid (set_mode w ''run'')
     else if command = JStr ''pause'' then with_campaign cid (set_mode w ''pause'')
     else if command = JStr ''cancel'' then
       bindM (liftM (\<lambda>_. jindex ''attempt'' (JObj req))) (\<lambda>j.
         case j of JStr aid \<Rightarrow> cancel w aid | _ \<Rightarrow> raiseM (ValueError ''attempt is not active''))
     else if command = JStr ''retry'' then with_campaign cid (\<lambda>c. retry w c (request_ids req))
     else raiseM (ValueError ''unknown command''))"

section \<open>The server loop\<close>

text \<open>The exceptions that the loop turns into an error response (errors of subprocesses are
  \<^verbatim>\<open>OSError\<close> here); any other exception ends the process.\<close>

fun caught :: "py_error \<Rightarrow> string option" where
  "caught (ValueError msg) = Some msg"
| "caught (KeyError k) = Some ([CHR 0x27] @ k @ [CHR 0x27])"
| "caught (OSError msg) = Some msg"
| "caught _ = None"

definition serve_request :: "world \<Rightarrow> string \<Rightarrow> json ctl_op" where
  "serve_request w raw s =
     (case rt_loads (w_rt w) raw of
        None \<Rightarrow> (Inr (JObj [(''error'', JStr ''Expecting value'')]), s)
      | Some (JObj req) \<Rightarrow>
          (case dispatch w req s of
             (Inr v, s') \<Rightarrow> (Inr (JObj [(''ok'', v)]), s')
           | (Inl e, s') \<Rightarrow> (case caught e of
               Some msg \<Rightarrow> (Inr (JObj [(''error'', JStr msg)]), s')
             | None \<Rightarrow> (Inl e, s')))
      | Some _ \<Rightarrow> (Inl (AttributeError ''get''), s))"

text \<open>A new process: caches are empty, old results are completed, everything durable is kept.\<close>

definition restart :: "ctl \<Rightarrow> ctl" where
  "restart s = s\<lparr>k_db := backfill (k_db s), k_machines := [], k_machines_observed := 0, k_inspected := []\<rparr>"

text \<open>One step of the system: a tick, a command, a restart, or anything the workers do to the
  attempt folders.\<close>

datatype action =
    Tick world
  | Command world string
  | Restart
  | Worker "(string \<times> folder) list"

fun ctl_step :: "action \<Rightarrow> ctl \<Rightarrow> ctl" where
  "ctl_step (Tick w) s = snd (tick w s)"
| "ctl_step (Command w raw) s = snd (serve_request w raw s)"
| "ctl_step Restart s = restart s"
| "ctl_step (Worker fs) s = s\<lparr>k_folders := fs\<rparr>"

inductive reachable_from :: "ctl \<Rightarrow> ctl \<Rightarrow> bool" for s0 where
  reach_init: "reachable_from s0 s0"
| reach_step: "reachable_from s0 s \<Longrightarrow> reachable_from s0 (ctl_step a s)"

end
