(* ===== verification/Invariants.thy ===== *)
theory Invariants
  imports Commands
begin

text \<open>
  The invariant of the controller's database: which attempts may be active together, what
  they may reserve, and what the state of a candidate implies. The invariant reads a few columns
  of attempts, candidates and campaigns; an operation that leaves those columns alone keeps it
  (\<open>same_view\<close>), and an update of candidates keeps it row by row (\<open>stable\<close>).
\<close>

section \<open>Invariant\<close>

definition is_active :: "attempt \<Rightarrow> bool" where
  "is_active a \<longleftrightarrow> at_state a \<in> {Intended, At_running}"

text \<open>The fields of an attempt, a candidate and a campaign that the invariant speaks about.\<close>

definition core :: "attempt \<Rightarrow> string \<times> string \<times> akind \<times> target list \<times> bool \<times> attempt_spec" where
  "core a = (at_id a, at_campaign a, at_kind a, at_targets a, is_active a, at_spec a)"

definition ccore :: "candidate \<Rightarrow> int \<times> string \<times> cstate \<times> string option" where
  "ccore c = (c_id c, c_campaign c, c_state c, c_drv c)"

definition pcore :: "campaign \<Rightarrow> string \<times> string" where
  "pcore p = (cp_id p, p_cpus (cp_policy p))"

definition well_formed :: "attempt \<Rightarrow> bool" where
  "well_formed a \<longleftrightarrow> sp_targets (at_spec a) = at_targets a \<and> sp_kind (at_spec a) = at_kind a"

definition one_campaign :: "database \<Rightarrow> bool" where
  "one_campaign db \<longleftrightarrow> (\<forall>a \<in> set (active_attempts db). \<forall>b \<in> set (active_attempts db). at_campaign a = at_campaign b)"

definition one_planner :: "database \<Rightarrow> bool" where
  "one_planner db \<longleftrightarrow> length (filter is_plan (active_attempts db)) \<le> 1"

definition local_load :: "database \<Rightarrow> int" where
  "local_load db = cpu_load (local_builds (active_builds db))"

definition positive_limits :: "database \<Rightarrow> bool" where
  "positive_limits db \<longleftrightarrow> (\<forall>a \<in> set (local_builds (active_builds db)). 1 \<le> limit_jobs a \<and> 1 \<le> limit_cores a)"

text \<open>The local builds of a campaign never reserve more than its CPU set.\<close>

definition within_budget :: "database \<Rightarrow> bool" where
  "within_budget db \<longleftrightarrow> (\<forall>p \<in> set (campaigns db). \<forall>cpus.
     active_builds db \<noteq> [] \<and> (\<forall>a \<in> set (active_builds db). at_campaign a = cp_id p) \<and> cpu_set (p_cpus (cp_policy p)) = Inr cpus
     \<longrightarrow> local_load db \<le> int (card cpus))"

definition attempts_ok :: "database \<Rightarrow> bool" where
  "attempts_ok db \<longleftrightarrow> unique_keys at_id (attempts db) \<and> list_all well_formed (attempts db)
     \<and> one_campaign db \<and> one_planner db \<and> positive_limits db \<and> within_budget db"

text \<open>A running candidate is the root of an active build of its campaign, and a candidate past
  planning has a derivation.\<close>

definition candidate_ok :: "(string \<Rightarrow> string list) \<Rightarrow> candidate \<Rightarrow> bool" where
  "candidate_ok roots c \<longleftrightarrow>
     (c_state c = Running \<longrightarrow> drv_in (c_drv c) (roots (c_campaign c)))
   \<and> (c_state c \<notin> {Unplanned, Excluded, Evaluation_error} \<longrightarrow> c_drv c \<noteq> None)"

definition candidates_ok :: "database \<Rightarrow> bool" where
  "candidates_ok db \<longleftrightarrow> unique_keys c_id (candidates db) \<and> list_all (candidate_ok (running_roots db)) (candidates db)"

definition consistent :: "database \<Rightarrow> bool" where
  "consistent db \<longleftrightarrow> attempts_ok db \<and> candidates_ok db \<and> unique_keys cp_id (campaigns db)"

section \<open>What the invariant depends on\<close>

definition same_attempts :: "database \<Rightarrow> database \<Rightarrow> bool" where
  "same_attempts db db' \<longleftrightarrow> map core (attempts db') = map core (attempts db)"

definition same_candidates :: "database \<Rightarrow> database \<Rightarrow> bool" where
  "same_candidates db db' \<longleftrightarrow> map ccore (candidates db') = map ccore (candidates db)"

definition same_campaigns :: "database \<Rightarrow> database \<Rightarrow> bool" where
  "same_campaigns db db' \<longleftrightarrow> map pcore (campaigns db') = map pcore (campaigns db)"

definition same_view :: "database \<Rightarrow> database \<Rightarrow> bool" where
  "same_view db db' \<longleftrightarrow> same_attempts db db' \<and> same_candidates db db' \<and> same_campaigns db db'"

lemmas same_defs = same_view_def same_attempts_def same_candidates_def same_campaigns_def

lemma same_view_refl [simp]: "same_view db db"
  by (simp add: same_defs)

lemma same_view_trans: "same_view a b \<Longrightarrow> same_view b c \<Longrightarrow> same_view a c"
  by (simp add: same_defs)

lemma same_view_sym: "same_view a b \<Longrightarrow> same_view b a"
  by (simp add: same_defs)

lemma member_active [simp]: "List.member [Intended, At_running] (at_state a) \<longleftrightarrow> is_active a"
  by (auto simp: is_active_def)

lemma active_attempts_alt: "active_attempts db = filter is_active (attempts db)"
  by (simp add: active_attempts_def is_active_def [abs_def])

text \<open>Everything below reads attempts through \<^term>\<open>core\<close>.\<close>

lemma map_core_filter:
  assumes "map core as = map core bs" and "\<And>a. P a = Q (core a)"
  shows "map core (filter P as) = map core (filter P bs)"
proof -
  have "P = Q \<circ> core" using assms(2) by (simp add: fun_eq_iff)
  then have "map core (filter P xs) = filter Q (map core xs)" for xs by (simp add: filter_map)
  with assms(1) show ?thesis by metis
qed

lemma map_core_image:
  assumes "map core as = map core bs" and "\<And>a. h a = k (core a)"
  shows "map h as = map h bs"
proof -
  have "h = k \<circ> core" using assms(2) by (simp add: fun_eq_iff)
  then have "map h xs = map k (map core xs)" for xs by simp
  with assms(1) show ?thesis by metis
qed

lemma core_reads:
  "is_active a = (\<lambda>(_, _, _, _, st, _). st) (core a)"
  "is_build a = (\<lambda>(_, _, k, _, _, _). k = Build) (core a)"
  "is_plan a = (\<lambda>(_, _, k, _, _, _). k = Plan) (core a)"
  "is_remote a = (\<lambda>(_, _, _, _, _, sp). sp_build_location sp = Some ''remote'') (core a)"
  "limit_jobs a = (\<lambda>(_, _, _, _, _, sp). p_max_jobs (sp_policy sp)) (core a)"
  "limit_cores a = (\<lambda>(_, _, _, _, _, sp). p_cores (sp_policy sp)) (core a)"
  "at_campaign a = (\<lambda>(_, c, _, _, _, _). c) (core a)"
  "at_id a = (\<lambda>(i, _, _, _, _, _). i) (core a)"
  "at_targets a = (\<lambda>(_, _, _, ts, _, _). ts) (core a)"
  by (simp_all add: core_def is_build_def is_plan_def is_remote_def limit_jobs_def limit_cores_def)

lemma same_active:
  assumes "same_attempts db db'"
  shows "map core (active_attempts db') = map core (active_attempts db)"
  unfolding active_attempts_alt
  by (rule map_core_filter [OF assms [unfolded same_attempts_def]]) (rule core_reads(1))

lemma same_builds:
  assumes "same_attempts db db'"
  shows "map core (active_builds db') = map core (active_builds db)"
  unfolding active_builds_def
  by (rule map_core_filter [OF same_active [OF assms]]) (rule core_reads(2))

lemma same_locals:
  assumes "same_attempts db db'"
  shows "map core (local_builds (active_builds db')) = map core (local_builds (active_builds db))"
  unfolding local_builds_def
  by (rule map_core_filter [OF same_builds [OF assms], where Q = "\<lambda>x. \<not> (\<lambda>(_, _, _, _, _, sp). sp_build_location sp = Some ''remote'') x"])
    (simp add: core_reads(4))

lemma running_roots_set:
  "running_roots db cid = concat (map (\<lambda>a. if at_campaign a = cid then build_roots (at_targets a) else []) (active_builds db))"
proof -
  have "concat (map f (filter P as)) = concat (map (\<lambda>a. if P a then f a else []) as)" for f :: "attempt \<Rightarrow> string list" and P as
    by (induction as) auto
  then show ?thesis by (simp add: running_roots_def)
qed

lemma same_roots:
  assumes "same_attempts db db'"
  shows "running_roots db' = running_roots db"
proof
  fix cid
  have "map (\<lambda>a. if at_campaign a = cid then build_roots (at_targets a) else []) (active_builds db')
      = map (\<lambda>a. if at_campaign a = cid then build_roots (at_targets a) else []) (active_builds db)"
    by (rule map_core_image [OF same_builds [OF assms], where k = "\<lambda>(_, c, _, ts, _, _). if c = cid then build_roots ts else []"])
      (simp add: core_def)
  then show "running_roots db' cid = running_roots db cid" by (simp add: running_roots_set)
qed

lemma map_core_ball:
  assumes "map core as = map core bs" and "\<And>a. P a = Q (core a)"
  shows "(\<forall>a \<in> set as. P a) \<longleftrightarrow> (\<forall>a \<in> set bs. P a)"
proof -
  have "(\<forall>a \<in> set xs. P a) \<longleftrightarrow> (\<forall>x \<in> set (map core xs). Q x)" for xs by (simp add: assms(2))
  with assms(1) show ?thesis by metis
qed

lemma one_campaign_image:
  "one_campaign db \<longleftrightarrow> (let C = at_campaign ` set (active_attempts db) in \<forall>x \<in> C. \<forall>y \<in> C. x = y)"
  by (simp add: one_campaign_def)

lemma same_attempts_ok:
  assumes "same_attempts db db'" and "same_campaigns db db'" and "attempts_ok db"
  shows "attempts_ok db'"
proof -
  note ok = assms(3) [unfolded attempts_ok_def]
  have "map at_id (attempts db') = map at_id (attempts db)"
    by (rule map_core_image [OF assms(1) [unfolded same_attempts_def], where k = fst]) (simp add: core_def)
  moreover have "list_all well_formed (attempts db')"
    using ok map_core_ball [of "attempts db'" "attempts db" well_formed
        "\<lambda>(_, _, k, ts, _, sp). sp_targets sp = ts \<and> sp_kind sp = k"] assms(1)
    by (simp add: same_attempts_def list_all_iff well_formed_def core_def)
  moreover have camps: "at_campaign ` set (active_attempts db') = at_campaign ` set (active_attempts db)"
    using map_core_image [OF same_active [OF assms(1)], where h = at_campaign and k = "fst \<circ> snd"]
    by (simp add: core_def flip: set_map)
  have "one_campaign db" using ok by blast
  then have "one_campaign db'" unfolding one_campaign_image camps .
  moreover have "map core (filter is_plan (active_attempts db')) = map core (filter is_plan (active_attempts db))"
    by (rule map_core_filter [OF same_active [OF assms(1)], where P = is_plan]) (rule core_reads(3))
  then have "length (filter is_plan (active_attempts db')) = length (filter is_plan (active_attempts db))"
    by (metis length_map)
  then have "one_planner db'" using ok by (simp add: one_planner_def)
  moreover have "positive_limits db'"
    using ok map_core_ball [OF same_locals [OF assms(1)], where P = "\<lambda>a. 1 \<le> limit_jobs a \<and> 1 \<le> limit_cores a"
        and Q = "\<lambda>(_, _, _, _, _, sp). 1 \<le> p_max_jobs (sp_policy sp) \<and> 1 \<le> p_cores (sp_policy sp)"]
    by (simp add: positive_limits_def core_def limit_jobs_def limit_cores_def)
  moreover have "within_budget db'"
  proof -
    have load: "local_load db' = local_load db"
      unfolding local_load_def cpu_load_def
      using map_core_image [OF same_locals [OF assms(1)], where h = "\<lambda>a. limit_jobs a * limit_cores a"
          and k = "\<lambda>(_, _, _, _, _, sp). p_max_jobs (sp_policy sp) * p_cores (sp_policy sp)"]
      by (simp add: core_def limit_jobs_def limit_cores_def)
    have empty: "(active_builds db' = []) = (active_builds db = [])"
      using same_builds [OF assms(1)] by (metis map_is_Nil_conv)
    have camp: "(\<forall>a \<in> set (active_builds db'). at_campaign a = c) \<longleftrightarrow> (\<forall>a \<in> set (active_builds db). at_campaign a = c)" for c
      by (rule map_core_ball [OF same_builds [OF assms(1)], where Q = "\<lambda>(_, x, _, _, _, _). x = c"]) (simp add: core_def)
    have eq: "pcore ` set (campaigns db') = pcore ` set (campaigns db)"
      using assms(2) by (metis same_campaigns_def set_map)
    show ?thesis unfolding within_budget_def load empty camp
    proof (intro ballI allI impI)
      fix p' cpus
      assume "p' \<in> set (campaigns db')"
        and hyps: "active_builds db \<noteq> [] \<and> (\<forall>a \<in> set (active_builds db). at_campaign a = cp_id p') \<and> cpu_set (p_cpus (cp_policy p')) = Inr cpus"
      then have "pcore p' \<in> pcore ` set (campaigns db)" using eq by blast
      then obtain p where "p \<in> set (campaigns db)" "cp_id p = cp_id p'" "p_cpus (cp_policy p) = p_cpus (cp_policy p')"
        by (auto simp: pcore_def)
      moreover have "within_budget db" using ok by blast
      ultimately show "local_load db \<le> int (card cpus)" using hyps unfolding within_budget_def by metis
    qed
  qed
  ultimately show ?thesis using ok by (simp add: attempts_ok_def unique_keys_def)
qed

lemma candidate_ok_core:
  "candidate_ok r c = (\<lambda>(_, cid, st, d). (st = Running \<longrightarrow> drv_in d (r cid))
     \<and> (st \<notin> {Unplanned, Excluded, Evaluation_error} \<longrightarrow> d \<noteq> None)) (ccore c)"
  by (simp add: candidate_ok_def ccore_def)

lemma same_candidates_ok:
  assumes "same_attempts db db'" and "same_candidates db db'" and "candidates_ok db"
  shows "candidates_ok db'"
proof -
  have cc: "map ccore (candidates db') = map ccore (candidates db)"
    using assms(2) by (simp add: same_candidates_def)
  have "map c_id cs = map fst (map ccore cs)" for cs by (simp add: ccore_def comp_def)
  then have "map c_id (candidates db') = map c_id (candidates db)" using cc by metis
  moreover have "list_all (candidate_ok r) cs = list_all (\<lambda>(_, cid, st, d). (st = Running \<longrightarrow> drv_in d (r cid))
      \<and> (st \<notin> {Unplanned, Excluded, Evaluation_error} \<longrightarrow> d \<noteq> None)) (map ccore cs)" for r cs
    by (simp add: list.pred_map comp_def candidate_ok_core [abs_def])
  ultimately show ?thesis
    using assms(3) cc same_roots [OF assms(1)] by (simp add: candidates_ok_def unique_keys_def)
qed

lemma same_consistent:
  assumes "same_view db db'" and "consistent db"
  shows "consistent db'"
proof -
  have "map cp_id ps = map fst (map pcore ps)" for ps by (simp add: pcore_def comp_def)
  then have "map cp_id (campaigns db') = map cp_id (campaigns db)"
    using assms(1) by (metis same_campaigns_def same_view_def)
  with assms show ?thesis
    unfolding consistent_def same_view_def unique_keys_def by (metis same_attempts_ok same_candidates_ok)
qed

section \<open>Operations and the database\<close>

interpretation ctl_db: stored k_db "\<lambda>d s. s\<lparr>k_db := d\<rparr>"
  by unfold_locales simp

lemma keeps_transactM [keeps_intros]:
  "keeps (\<lambda>s. I (k_db s)) m \<Longrightarrow> keeps (\<lambda>s. I (k_db s)) (transactM m)"
  unfolding transactM_def by (rule ctl_db.keeps_transaction)

lemma wp_dbM [simp]: "wp (dbM f) Q E s \<longleftrightarrow> Q () (s\<lparr>k_db := f (k_db s)\<rparr>)"
  by (simp add: dbM_def)

lemma wp_readM [simp]: "wp (readM f) Q E s \<longleftrightarrow> Q (f (k_db s)) s"
  by (simp add: readM_def)

lemma wp_try_dbM [simp]:
  "wp (try_dbM f) Q E s \<longleftrightarrow> (case f (k_db s) of Inl e \<Rightarrow> E s | Inr d \<Rightarrow> Q () (s\<lparr>k_db := d\<rparr>))"
  by (simp add: try_dbM_def split: sum.splits)

lemma wp_requireM [simp]: "wp (requireM ok e) Q E s \<longleftrightarrow> (if ok then Q () s else E s)"
  by (simp add: requireM_def)

lemma wp_transactM:
  "wp m Q (\<lambda>_. True) s \<Longrightarrow> I (k_db s) \<Longrightarrow> wp (transactM m) Q (\<lambda>s. I (k_db s)) s"
  unfolding transactM_def by (rule ctl_db.wp_transaction)

lemma keeps_dbM: "(\<And>d. I d \<Longrightarrow> I (f d)) \<Longrightarrow> keeps (\<lambda>s. I (k_db s)) (dbM f)"
  unfolding dbM_def by (rule ctl_db.keeps_update)

lemma keeps_try_dbM: "(\<And>d d'. I d \<Longrightarrow> f d = Inr d' \<Longrightarrow> I d') \<Longrightarrow> keeps (\<lambda>s. I (k_db s)) (try_dbM f)"
  by (auto simp: keeps_wp split: sum.splits)

lemma keeps_readM [keeps_intros]: "keeps P (readM f)"
  by (simp add: readM_def keeps_intros)

lemma keeps_requireM [keeps_intros]: "keeps P (requireM ok e)"
  by (simp add: requireM_def keeps_intros)

text \<open>Effects outside the database.\<close>

lemma keeps_elsewhere: "(\<And>s. k_db (f s) = k_db s) \<Longrightarrow> keeps (\<lambda>s. I (k_db s)) (modifyM f)"
  by (rule keeps_modify) simp

lemma keeps_outside [keeps_intros]:
  "keeps (\<lambda>s. I (k_db s)) (set_folder aid f)"
  "keeps (\<lambda>s. I (k_db s)) (gc_root w p)"
  "keeps (\<lambda>s. I (k_db s)) (start_unit w aid)"
  "keeps (\<lambda>s. I (k_db s)) (stop_unit w aid)"
  "keeps (\<lambda>s. I (k_db s)) (make_folder aid spec)"
  "keeps (\<lambda>s. I (k_db s)) (ensure_folder a)"
  by (auto simp: set_folder_def gc_root_def start_unit_def stop_unit_def make_folder_def ensure_folder_def
      intro!: keeps_intros keeps_elsewhere)

lemma keeps_next_uuid [keeps_intros]: "keeps (\<lambda>s. I (k_db s)) (next_uuid w)"
  by (auto simp: next_uuid_def intro!: keeps_intros keeps_elsewhere)

section \<open>Updates that leave the view alone\<close>

named_theorems view_simps \<open>database updates that do not change the view of the invariant\<close>

lemma map_map_eq: "(\<And>x. x \<in> set xs \<Longrightarrow> g (f x) = g x) \<Longrightarrow> map g (map f xs) = map g xs"
  by simp

lemma same_view_event [view_simps]: "same_view db (event now cid k p db)"
  by (simp add: same_defs event_def)

lemma same_view_campaigns:
  "(\<And>c. pcore (f c) = pcore c) \<Longrightarrow> same_view db (update_campaigns p f db)"
  by (simp add: same_defs update_campaigns_def map_sql_update)

lemma same_view_attempts:
  "(\<And>r. core (f r) = core r) \<Longrightarrow> same_view db (update_attempts p f db)"
  by (simp add: same_defs update_attempts_def map_sql_update)

lemma same_view_derivations [view_simps]: "same_view db (update_derivations p f db)"
  by (simp add: same_defs update_derivations_def)

lemma same_view_graph: "graph_frame db db' \<Longrightarrow> same_view db db'"
  by (simp add: same_defs graph_frame_def)

lemma same_view_tables [view_simps]:
  "same_view db (db\<lparr>replans := r\<rparr>)" "same_view db (db\<lparr>roles := ro\<rparr>)" "same_view db (db\<lparr>tests := t\<rparr>)"
  "same_view db (db\<lparr>classifications := cl\<rparr>)" "same_view db (db\<lparr>build_times := bt\<rparr>)"
  "same_view db (db\<lparr>activities := ac\<rparr>)"
  by (simp_all add: same_defs)

lemma same_view_add_drv: "add_drv rt nx row db = Inr db' \<Longrightarrow> same_view db db'"
  by (auto simp: add_drv_def Let_def bindr_eq_Inr record_drv_def same_defs)

lemma same_view_add_graph:
  assumes "add_graph rt nx g db = Inr db'"
  shows "same_view db db'"
proof -
  from assms obtain rows where "foldr_res (add_drv rt nx) rows db = Inr db'"
    by (auto simp: add_graph_def bindr_eq_Inr)
  then show ?thesis
    by (rule foldr_res_invariant [where P = "same_view db"]) (auto dest: same_view_add_drv intro: same_view_trans)
qed

lemma same_view_fold: "(\<And>x d. same_view d (f x d)) \<Longrightarrow> same_view db (fold f xs db)"
  by (induction xs arbitrary: db) (auto intro: same_view_trans)

lemma same_view_observe [view_simps]: "same_view db (observe rt aid raw db)"
  by (simp add: observe_def view_simps split: option.splits)

lemma core_upd [simp]:
  "core (r\<lparr>at_offset := n\<rparr>) = core r" "core (r\<lparr>at_result := x\<rparr>) = core r" "core (r\<lparr>at_cancel := b\<rparr>) = core r"
  "core (r\<lparr>at_finished := t\<rparr>) = core r"
  by (simp_all add: core_def is_active_def)

lemma pcore_upd [simp]:
  "pcore (c\<lparr>cp_hold := h\<rparr>) = pcore c" "pcore (c\<lparr>cp_heartbeat := t\<rparr>) = pcore c" "pcore (c\<lparr>cp_mode := m\<rparr>) = pcore c"
  by (simp_all add: pcore_def)

lemma same_view_ingest_times [view_simps]: "same_view db (ingest_times rt file aid db)"
proof -
  have "same_view d (ingest_time aid row d)" for row d
    by (auto simp: ingest_time_def Let_def view_simps split: json.splits option.splits prod.splits)
  then show ?thesis
    by (auto simp: ingest_times_def intro: same_view_fold split: option.splits json.splits)
qed

lemma same_view_skip [view_simps]: "same_view db (skip_oversized now a n db)"
  unfolding skip_oversized_def by (rule same_view_trans [OF same_view_attempts same_view_event]) simp

lemma same_view_commit:
  assumes "commit_lines rt a data db = Inr db'"
  shows "same_view db db'"
proof -
  let ?db1 = "fold (observe rt (at_id a)) (splitlines byte_break data) db"
  have "same_view db (update_attempts (\<lambda>r. at_id r = at_id a) (\<lambda>r. r\<lparr>at_offset := at_offset r + length data\<rparr>) ?db1)"
    by (rule same_view_trans [OF same_view_fold same_view_attempts]) (simp_all add: view_simps)
  with assms show ?thesis by (auto simp: commit_lines_def split: option.splits if_splits)
qed

lemma same_view_hold [view_simps]: "same_view db (set_hold cid reason db)"
  by (simp add: set_hold_def same_view_campaigns)

lemma same_view_heartbeat [view_simps]: "same_view db (heartbeat now cid db)"
  by (simp add: heartbeat_def same_view_campaigns)

lemma same_view_skip_replans [view_simps]: "same_view db (skip_replans now cid busy db)"
proof -
  have "same_view db (event now cid k p (db\<lparr>replans := r\<rparr>))" for k p r
    by (rule same_view_trans [OF same_view_tables(1) same_view_event])
  then show ?thesis by (simp add: skip_replans_def Let_def)
qed

lemma same_view_enqueue [view_simps]: "same_view db (enqueue_replans now cid src rv req pending db)"
  unfolding enqueue_replans_def by (rule same_view_trans [OF same_view_tables(1) same_view_event])

lemma same_view_judge [view_simps]: "same_view db (judge_drv aid result before available act failures d db)"
  by (auto simp: judge_drv_def Let_def add_tests_def view_simps split: option.splits
      intro: same_view_trans [OF same_view_derivations same_view_tables(3)])

lemma same_view_backfill [view_simps]: "same_view db (backfill db)"
  using same_view_attempts [of _ db needs_backfill] by (simp add: backfill_def update_attempts_def)

section \<open>Operations that leave the view alone\<close>

lemma frame_dbM: "(\<And>db. same_view db (f db)) \<Longrightarrow> keeps (\<lambda>s. same_view v (k_db s)) (dbM f)"
  by (rule keeps_dbM) (rule same_view_trans)

lemma frame_try_dbM: "(\<And>db db'. f db = Inr db' \<Longrightarrow> same_view db db') \<Longrightarrow> keeps (\<lambda>s. same_view v (k_db s)) (try_dbM f)"
  by (rule keeps_try_dbM) (metis same_view_trans)

lemma frame_ingest [keeps_intros]: "keeps (\<lambda>s. same_view v (k_db s)) (ingest w a)"
  unfolding ingest_def Let_def
  by (intro keeps_intros frame_dbM frame_try_dbM) (simp_all add: view_simps same_view_commit)

lemma frame_ingest_times [keeps_intros]: "keeps (\<lambda>s. same_view v (k_db s)) (ingest_timesM w a)"
  unfolding ingest_timesM_def by (intro keeps_intros frame_dbM) (simp add: view_simps)

lemma frame_machines [keeps_intros]: "keeps (\<lambda>s. I (k_db s)) (refresh_machines w pol)"
  unfolding refresh_machines_def by (intro keeps_intros keeps_elsewhere) simp

lemma frame_prepare [keeps_intros]: "keeps (\<lambda>s. same_view v (k_db s)) (prepare_graph w targets roll)"
  unfolding prepare_graph_def Let_def
  by (intro keeps_intros frame_try_dbM keeps_elsewhere) (simp_all add: same_view_add_graph)

lemma frame_keeps:
  fixes m :: "'a ctl_op"
  assumes "\<And>v. keeps (\<lambda>s. same_view v (k_db s)) m" and "\<And>d d'. same_view d d' \<Longrightarrow> I d \<Longrightarrow> I d'"
  shows "keeps (\<lambda>s. I (k_db s)) m"
  unfolding keeps_def
proof safe
  fix s :: ctl assume "I (k_db s)"
  moreover have "same_view (k_db s) (k_db (snd (m s)))"
    using assms(1) [of "k_db s"] by (simp add: keeps_def)
  ultimately show "I (k_db (snd (m s)))" by (rule assms(2) [rotated])
qed

section \<open>Updating candidates\<close>

text \<open>The part of the invariant that an operation on candidates has to keep: attempts and
  campaigns stay as they are in \<open>v\<close>, candidates stay in order.\<close>

definition stable :: "database \<Rightarrow> database \<Rightarrow> bool" where
  "stable v db \<longleftrightarrow> same_attempts v db \<and> same_campaigns v db \<and> candidates_ok db"

lemma stable_refl: "consistent db \<Longrightarrow> stable db db"
  by (simp add: stable_def consistent_def same_defs)

lemma stable_view: "same_view d d' \<Longrightarrow> stable v d \<Longrightarrow> stable v d'"
  using same_candidates_ok [of d d'] by (simp add: stable_def same_view_def same_attempts_def same_campaigns_def)

lemma stable_consistent:
  assumes "stable v db" and "consistent v"
  shows "consistent db"
proof -
  have "map cp_id ps = map fst (map pcore ps)" for ps by (simp add: pcore_def comp_def)
  then have "map cp_id (campaigns db) = map cp_id (campaigns v)"
    using assms(1) by (metis same_campaigns_def stable_def)
  moreover have "attempts_ok db"
    using assms same_attempts_ok by (auto simp: stable_def consistent_def)
  ultimately show ?thesis using assms by (simp add: stable_def consistent_def unique_keys_def)
qed

lemma stable_map:
  assumes "stable v db" and "attempts db' = attempts db" and "campaigns db' = campaigns db"
    and "candidates db' = map g (candidates db)"
    and "\<And>c. c \<in> set (candidates db) \<Longrightarrow> c_id (g c) = c_id c"
    and "\<And>c. c \<in> set (candidates db) \<Longrightarrow> candidate_ok (running_roots db) c \<Longrightarrow> candidate_ok (running_roots db) (g c)"
  shows "stable v db'"
proof -
  have "running_roots db' = running_roots db"
    by (rule same_roots) (simp add: same_attempts_def assms(2))
  moreover have "map (c_id \<circ> g) (candidates db) = map c_id (candidates db)"
    using assms(5) by simp
  ultimately show ?thesis
    using assms(1,2,3,6) unfolding stable_def candidates_ok_def same_attempts_def same_campaigns_def
      assms(4) unique_keys_def map_map by (auto simp: list_all_iff simp del: map_eq_conv)
qed

lemma stable_update:
  assumes "stable v db" and "\<And>c. c_id (f c) = c_id c"
    and "\<And>c. p c \<Longrightarrow> candidate_ok (running_roots db) c \<Longrightarrow> candidate_ok (running_roots db) (f c)"
  shows "stable v (update_candidates p f db)"
  by (rule stable_map [OF assms(1), where g = "\<lambda>c. if p c then f c else c"])
    (auto simp: update_candidates_def sql_update_def assms)

lemma undecided_drv [simp]: "\<not> drv_in None ds"
  by (simp add: drv_in_def)

lemma refresh_row_never_running: "c_state (refresh_row cid db c) = Running \<Longrightarrow> c_state c = Running"
  by (auto simp: refresh_row_def facts_row_def blocked_row_def excluded_row_def outside_row_def split: if_splits)

lemma refresh_row_needs_drv:
  "c_state (refresh_row cid db c) \<notin> {Unplanned, Excluded, Evaluation_error} \<Longrightarrow>
   c_state c \<notin> {Unplanned, Excluded, Evaluation_error} \<or> c_drv c \<noteq> None"
  by (auto simp: refresh_row_def facts_row_def blocked_row_def excluded_row_def outside_row_def split: if_splits)

lemma stable_refresh:
  assumes "stable v db"
  shows "stable v (refresh_candidates cid db)"
proof (rule stable_map [OF assms, where g = "refresh_row cid db"])
  fix c assume "candidate_ok (running_roots db) c"
  then show "candidate_ok (running_roots db) (refresh_row cid db c)"
    using refresh_row_never_running [of cid db c] refresh_row_needs_drv [of cid db c]
    by (auto simp: candidate_ok_def)
qed (simp_all add: refresh_candidates_rows)

lemma stable_mark_running: "stable v db \<Longrightarrow> stable v (mark_running cid db)"
  unfolding mark_running_def
  by (rule stable_update) (auto simp: candidate_ok_def drv_in_def split: option.splits)

lemma stable_planned: "stable v db \<Longrightarrow> stable v (planned cid i drv recipe db)"
  unfolding planned_def set_candidate_def Let_def
  by (rule stable_update) (auto simp: candidate_ok_def)

lemma stable_failed: "stable v db \<Longrightarrow> stable v (set_candidate i (evaluation_failed msg) db)"
  unfolding set_candidate_def
  by (rule stable_update) (auto simp: candidate_ok_def evaluation_failed_def)

lemma stable_unseen: "stable v db \<Longrightarrow> stable v (mark_unseen a seen db)"
  unfolding mark_unseen_def
  by (rule stable_update) (auto simp: candidate_ok_def evaluation_failed_def)

lemma stable_role: "add_role cid drv r db = Inr db' \<Longrightarrow> stable v db \<Longrightarrow> stable v db'"
  by (auto simp: add_role_def bindr_eq_Inr intro: stable_view [OF same_view_tables(2)])

section \<open>Finishing a plan\<close>

lemma stable_try: "(\<And>d d'. f d = Inr d' \<Longrightarrow> stable v d \<Longrightarrow> stable v d') \<Longrightarrow> keeps (\<lambda>s. stable v (k_db s)) (try_dbM f)"
  by (rule keeps_try_dbM) blast

lemma keeps_plan_row [keeps_intros]: "keeps (\<lambda>s. stable v (k_db s)) (plan_row w a f row)"
  unfolding plan_row_def Let_def
  by (intro keeps_intros keeps_dbM stable_try)
    (auto intro: stable_failed stable_planned stable_role stable_view [OF same_view_add_graph])

lemma keeps_finish_plan: "keeps (\<lambda>s. stable v (k_db s)) (finish_plan w a)"
  unfolding finish_plan_def plan_line_def
  by (intro keeps_intros keeps_dbM) (auto intro: stable_unseen stable_refresh stable_mark_running)

section \<open>Finishing a build\<close>

definition released :: "attempt \<Rightarrow> database \<Rightarrow> bool" where
  "released a db \<longleftrightarrow> (\<forall>c \<in> set (candidates db). c_state c = Running \<longrightarrow>
     \<not> (c_campaign c = at_campaign a \<and> drv_in (c_drv c) (build_roots (at_targets a))))"

lemma stable_release:
  assumes "stable v db"
  shows "stable v (release_targets a result db)"
proof -
  define mine :: "candidate \<Rightarrow> bool" where "mine = (\<lambda>c. c_campaign c = at_campaign a \<and> drv_in (c_drv c) (build_roots (at_targets a)))"
  have "stable v (update_candidates (\<lambda>c. mine c \<and> c_state c = Running) (\<lambda>c. c\<lparr>c_state := Queued\<rparr>) db)"
    by (rule stable_update [OF assms]) (auto simp: candidate_ok_def mine_def drv_in_def split: option.splits)
  then have "stable v (refresh_candidates (at_campaign a)
      (update_candidates (\<lambda>c. mine c \<and> c_state c = Running) (\<lambda>c. c\<lparr>c_state := Queued\<rparr>) db))"
    by (rule stable_refresh)
  then show ?thesis unfolding release_targets_def Let_def mine_def
    by (rule stable_update) (auto simp: candidate_ok_def drv_in_def split: option.splits)
qed

lemma released_release: "released a (release_targets a result db)"
proof -
  define mine :: "candidate \<Rightarrow> bool" where "mine = (\<lambda>c. c_campaign c = at_campaign a \<and> drv_in (c_drv c) (build_roots (at_targets a)))"
  let ?db1 = "update_candidates (\<lambda>c. mine c \<and> c_state c = Running) (\<lambda>c. c\<lparr>c_state := Queued\<rparr>) db"
  let ?row = "refresh_row (at_campaign a) ?db1"
  have mine_row: "mine (?row c) = mine c" for c by (simp add: mine_def)
  have mine_upd: "mine (c\<lparr>c_state := st\<rparr>) = mine c" for c st by (simp add: mine_def)
  have none: "\<not> (mine c \<and> c_state c = Running)" if "c \<in> set (candidates ?db1)" for c
    using that mine_upd by (auto simp: update_candidates_def set_sql_update)
  have clean: "\<not> (mine c \<and> c_state c = Running)" if "c \<in> set (candidates (refresh_candidates (at_campaign a) ?db1))" for c
  proof -
    from that obtain c0 where "c0 \<in> set (candidates ?db1)" "c = ?row c0"
      by (auto simp: refresh_candidates_rows)
    with none mine_row refresh_row_never_running show ?thesis by metis
  qed
  have "candidates (release_targets a result db) = sql_update (\<lambda>c. mine c \<and> c_state c = Queued)
      (\<lambda>c. c\<lparr>c_state := Inconclusive, c_error := Some (re_reason result)\<rparr>) (candidates (refresh_candidates (at_campaign a) ?db1))"
    by (simp add: release_targets_def Let_def mine_def update_candidates_def)
  then have "c \<in> set (candidates (release_targets a result db)) \<Longrightarrow> c_state c = Running \<Longrightarrow> \<not> mine c" for c
    using clean by (fastforce simp: set_sql_update)
  then show ?thesis by (auto simp: released_def mine_def)
qed

lemma stable_route: "stable v db \<Longrightarrow> stable v (route_local a db)"
proof -
  assume "stable v db"
  then have "stable v (update_derivations p f db)" for p f by (rule stable_view [OF same_view_derivations])
  then show ?thesis unfolding route_local_def
    by (rule stable_update) (auto simp: candidate_ok_def drv_in_def split: option.splits)
qed

lemma released_route: "released a db \<Longrightarrow> released a (route_local a db)"
  by (auto simp: released_def route_local_def update_candidates_def update_derivations_def set_sql_update)

lemma wp_finish_build:
  assumes "stable v (k_db s)"
  shows "wp (finish_build w a result) (\<lambda>_ s. stable v (k_db s) \<and> released a (k_db s)) (\<lambda>_. True) s"
proof -
  have drvs: "keeps (\<lambda>s. stable v (k_db s)) (finish_drv w a result before available failures drv)" for before available failures drv
    unfolding finish_drv_def
    by (intro keeps_intros keeps_dbM) (auto intro: stable_view [OF same_view_judge])
  have loop: "wp (foreachM (finish_drv w a result before available failures) ds)
      (\<lambda>_ s. stable v (k_db s)) (\<lambda>_. True) s" for before available failures ds
    using keepsD [OF keeps_foreach [OF drvs] assms] by (rule wp_mono) simp_all
  have finish: "stable v (release_targets a result d) \<and> released a (release_targets a result d)
      \<and> stable v (route_local a (release_targets a result d)) \<and> released a (route_local a (release_targets a result d))"
    if "stable v d" for d
    using that by (simp add: stable_release released_release stable_route released_route)
  show ?thesis
  proof (cases "valid (w_path_info w) (set (sp_output_paths (at_spec a)))")
    case (Inr available)
    show ?thesis
      unfolding finish_build_def Let_def wp_bind wp_simps wp_lift Inr sum.case
      by (rule wp_mono [OF loop]) (auto simp: finish)
  qed (simp add: finish_build_def)
qed

end
