(* ===== verification/Lifecycle.thy ===== *)
theory Lifecycle
  imports Invariants
begin

text \<open>
  The life of an attempt: admission appends a row that the guards of \<^term>\<open>intent\<close> make
  compatible with the active ones, and reconciliation ends an attempt after its candidates have
  been released. Both keep the invariant, also when they raise.
\<close>

section \<open>Ending an attempt\<close>

definition static :: "attempt \<Rightarrow> string \<times> string \<times> akind \<times> target list \<times> attempt_spec" where
  "static a = (at_id a, at_campaign a, at_kind a, at_targets a, at_spec a)"

text \<open>The row read at the start of reconciliation still stands for an active attempt.\<close>

definition tracked :: "attempt \<Rightarrow> database \<Rightarrow> bool" where
  "tracked a db \<longleftrightarrow> (\<exists>r \<in> set (active_attempts db). static r = static a)"

lemma drv_in_iff: "drv_in d ds \<longleftrightarrow> (\<exists>x \<in> set ds. d = Some x)"
  by (cases d) (auto simp: drv_in_def)

lemma set_running_roots:
  "set (running_roots db cid) = (\<Union>a \<in> {a \<in> set (active_builds db). at_campaign a = cid}. set (build_roots (at_targets a)))"
  by (auto simp: running_roots_def)

lemma filter_deactivated:
  assumes "\<And>r. \<not> is_active (f r)"
  shows "filter is_active (sql_update (\<lambda>r. at_id r = i) f as) = filter (\<lambda>r. at_id r \<noteq> i) (filter is_active as)"
  using assms by (induction as) auto

definition close_attempt :: "attempt_result \<Rightarrow> attempt \<Rightarrow> attempt" where
  "close_attempt result r = r\<lparr>at_state := Finished, at_finished := Some (re_finished result), at_result := Some result\<rparr>"

lemma close_simps [simp]:
  "\<not> is_active (close_attempt result r)" "at_id (close_attempt result r) = at_id r"
  "well_formed (close_attempt result r) = well_formed r"
  by (simp_all add: close_attempt_def is_active_def well_formed_def)

lemma cpu_load_filter:
  "\<forall>a \<in> set as. 1 \<le> limit_jobs a \<and> 1 \<le> limit_cores a \<Longrightarrow> cpu_load (filter P as) \<le> cpu_load as"
  by (induction as) (auto simp: add_increasing)

lemma closed_attempts_ok:
  assumes active': "active_attempts db' = filter (\<lambda>r. at_id r \<noteq> i) (active_attempts db)"
    and campaigns': "campaigns db' = campaigns db"
    and ids': "map at_id (attempts db') = map at_id (attempts db)"
    and formed': "list_all well_formed (attempts db')"
    and ok: "attempts_ok db"
  shows "attempts_ok db'"
proof -
  have closed_builds: "active_builds db' = filter (\<lambda>r. at_id r \<noteq> i) (active_builds db)"
    by (simp add: active_builds_def active' conj_commute)
  then have closed_locals: "local_builds (active_builds db') = filter (\<lambda>r. at_id r \<noteq> i) (local_builds (active_builds db))"
    by (simp add: local_builds_def conj_commute)
  have "positive_limits db" using ok by (simp add: attempts_ok_def)
  then have pos: "\<forall>a \<in> set (local_builds (active_builds db)). 1 \<le> limit_jobs a \<and> 1 \<le> limit_cores a"
    by (simp add: positive_limits_def)
  have sub: "set (active_attempts db') \<subseteq> set (active_attempts db)" by (auto simp: active')
  then have one: "one_campaign db'" using ok by (auto simp: attempts_ok_def one_campaign_def)
  have "length (filter is_plan (active_attempts db')) \<le> length (filter is_plan (active_attempts db))"
    using length_filter_le [of "\<lambda>r. at_id r \<noteq> i" "filter is_plan (active_attempts db)"]
    by (simp add: active' conj_commute)
  then have planner: "one_planner db'" using ok by (simp add: attempts_ok_def one_planner_def)
  have limits: "positive_limits db'" using pos by (simp add: positive_limits_def closed_locals)
  have "within_budget db'"
    unfolding within_budget_def campaigns'
  proof (intro ballI allI impI)
    fix p cpus
    assume p: "p \<in> set (campaigns db)" and h: "active_builds db' \<noteq> [] \<and> (\<forall>a \<in> set (active_builds db'). at_campaign a = cp_id p)
      \<and> cpu_set (p_cpus (cp_policy p)) = Inr cpus"
    then obtain b where b: "b \<in> set (active_builds db')" "at_campaign b = cp_id p"
      by (cases "active_builds db'") auto
    have one: "one_campaign db" using ok by (simp add: attempts_ok_def)
    have "b \<in> set (active_attempts db)" using b(1) by (simp add: closed_builds) (simp add: active_builds_def)
    then have "\<forall>a \<in> set (active_attempts db). at_campaign a = cp_id p"
      using one b(2) unfolding one_campaign_def by metis
    then have "\<forall>a \<in> set (active_builds db). at_campaign a = cp_id p" by (simp add: active_builds_def)
    moreover have "active_builds db \<noteq> []" using h by (auto simp: closed_builds)
    moreover have "within_budget db" using ok by (simp add: attempts_ok_def)
    ultimately have "local_load db \<le> int (card cpus)"
      using p h unfolding within_budget_def by blast
    moreover have "local_load db' \<le> local_load db"
      unfolding local_load_def closed_locals by (rule cpu_load_filter [OF pos])
    ultimately show "local_load db' \<le> int (card cpus)" by linarith
  qed
  with one planner limits show ?thesis
    using ok ids' formed' by (simp add: attempts_ok_def unique_keys_def)
qed

lemma closed_candidates_ok:
  assumes active': "active_attempts db' = filter (\<lambda>r. at_id r \<noteq> at_id a) (active_attempts db)"
    and cands': "candidates db' = candidates db"
    and ok: "candidates_ok db" and unique: "unique_keys at_id (attempts db)"
    and "tracked a db" and rel: "at_kind a = Build \<Longrightarrow> released a db"
  shows "candidates_ok db'"
proof -
  obtain r where r: "r \<in> set (active_attempts db)" "static r = static a"
    using assms(5) by (auto simp: tracked_def)
  have "candidate_ok (running_roots db') c" if c: "c \<in> set (candidates db)" for c
  proof -
    have okc: "candidate_ok (running_roots db) c" using ok c by (simp add: candidates_ok_def list_all_iff)
    have "drv_in (c_drv c) (running_roots db' (c_campaign c))" if run: "c_state c = Running"
    proof -
      obtain x b where b: "c_drv c = Some x" "b \<in> set (active_builds db)" "at_campaign b = c_campaign c"
          "x \<in> set (build_roots (at_targets b))"
        using okc run by (auto simp: candidate_ok_def drv_in_iff set_running_roots)
      have "at_id b \<noteq> at_id a"
      proof
        assume "at_id b = at_id a"
        then have "b = r"
          using unique_keysD [OF unique] b(2) r by (auto simp: active_builds_def active_attempts_alt static_def)
        then have "at_kind a = Build" "at_campaign a = c_campaign c" "x \<in> set (build_roots (at_targets a))"
          using b r by (auto simp: static_def active_builds_def is_build_def)
        with rel c run b(1) show False by (auto simp: released_def drv_in_iff)
      qed
      then show ?thesis using b by (auto simp: drv_in_iff set_running_roots active_builds_def active')
    qed
    with okc show ?thesis by (simp add: candidate_ok_def)
  qed
  with ok show ?thesis by (simp add: candidates_ok_def cands' list_all_iff)
qed

lemma finish_attempt_consistent:
  assumes "consistent db" and "tracked a db" and "at_kind a = Build \<Longrightarrow> released a db"
  shows "consistent (finish_attempt now a result db)"
proof -
  let ?D = "update_attempts (\<lambda>r. at_id r = at_id a) (close_attempt result) db"
  have act: "active_attempts ?D = filter (\<lambda>r. at_id r \<noteq> at_id a) (active_attempts db)"
    by (simp add: active_attempts_alt update_attempts_def filter_deactivated)
  have tables: "campaigns ?D = campaigns db" "candidates ?D = candidates db"
    by (simp_all add: update_attempts_def)
  have ids: "map at_id (attempts ?D) = map at_id (attempts db)"
    by (simp add: update_attempts_def map_sql_update)
  have formed: "list_all well_formed (attempts ?D)"
    using assms(1) by (auto simp: update_attempts_def set_sql_update list_all_iff consistent_def attempts_ok_def)
  have "consistent ?D"
    using assms closed_attempts_ok [OF act tables(1) ids formed] closed_candidates_ok [OF act tables(2) _ _ assms(2,3)]
    by (simp add: consistent_def attempts_ok_def tables)
  moreover have "same_view ?D (finish_attempt now a result db)"
  proof -
    have fold: "(\<lambda>r. r\<lparr>at_state := Finished, at_finished := Some (re_finished result), at_result := Some result\<rparr>) = close_attempt result"
      by (simp add: close_attempt_def fun_eq_iff)
    show ?thesis unfolding finish_attempt_def fold
      by (rule same_view_trans [OF same_view_event same_view_campaigns]) simp
  qed
  ultimately show ?thesis by (rule same_consistent [rotated])
qed

section \<open>Reconciliation\<close>

text \<open>How attempts evolve: rows are only added, what an attempt was asked to do never changes,
  and an attempt that has ended stays ended.\<close>

definition advances :: "attempt \<Rightarrow> attempt \<Rightarrow> bool" where
  "advances a b \<longleftrightarrow> static b = static a \<and> (is_active b \<longrightarrow> is_active a)"

definition evolved :: "database \<Rightarrow> database \<Rightarrow> bool" where
  "evolved v db \<longleftrightarrow> length (attempts v) \<le> length (attempts db)
     \<and> (\<forall>i < length (attempts v). advances (attempts v ! i) (attempts db ! i))"

lemma evolved_refl [simp]: "evolved db db"
  by (simp add: evolved_def advances_def)

lemma advances_core: "core b' = core b \<Longrightarrow> advances a b \<Longrightarrow> advances a b'"
  by (simp add: advances_def static_def core_def)

lemma evolved_same:
  assumes "same_attempts d d'" and "evolved v d"
  shows "evolved v d'"
proof -
  have len: "length (attempts d') = length (attempts d)"
    by (rule map_eq_imp_length_eq [OF assms(1) [unfolded same_attempts_def]])
  have "core (attempts d' ! i) = core (attempts d ! i)" if "i < length (attempts d)" for i
    using arg_cong [OF assms(1) [unfolded same_attempts_def], of "\<lambda>xs. xs ! i"] that len by simp
  with len show ?thesis using assms(2) by (auto simp: evolved_def intro: advances_core)
qed

lemma evolved_finish: "evolved v db \<Longrightarrow> evolved v (finish_attempt now a result db)"
  by (auto simp: evolved_def finish_attempt_def update_campaigns_def update_attempts_def event_def sql_update_def
      advances_def static_def is_active_def)

lemma evolved_append: "evolved v db \<Longrightarrow> evolved v (db\<lparr>attempts := attempts db @ as\<rparr>)"
  by (auto simp: evolved_def nth_append)

definition known_campaign :: "campaign \<Rightarrow> database \<Rightarrow> bool" where
  "known_campaign cp db \<longleftrightarrow> pcore cp \<in> set (map pcore (campaigns db))"

text \<open>The invariant of every operation: the database is consistent, campaigns keep their
  identity and CPU set, and attempts evolve.\<close>

definition good :: "database \<Rightarrow> database \<Rightarrow> bool" where
  "good v db \<longleftrightarrow> consistent db \<and> map pcore (campaigns db) = map pcore (campaigns v) \<and> evolved v db"

lemma good_view: "same_view d d' \<Longrightarrow> good v d \<Longrightarrow> good v d'"
  using same_consistent [of d d'] evolved_same [of d d' v] by (auto simp: good_def same_view_def same_campaigns_def)

lemma good_stable:
  assumes "stable u db" and "good v u"
  shows "good v db"
  using assms stable_consistent [OF assms(1)] by (auto simp: good_def stable_def same_campaigns_def intro: evolved_same)

text \<open>The invariant during reconciliation: the rows still to be visited are active.\<close>

definition pending :: "database \<Rightarrow> attempt list \<Rightarrow> database \<Rightarrow> bool" where
  "pending v rows db \<longleftrightarrow> good v db \<and> (\<forall>b \<in> set rows. tracked b db)"

lemma tracked_core:
  "tracked a db \<longleftrightarrow> (\<exists>x \<in> set (map core (active_attempts db)). \<exists>st.
     x = (at_id a, at_campaign a, at_kind a, at_targets a, st, at_spec a))"
  by (auto simp: tracked_def static_def core_def)

lemma tracked_view: "same_view d d' \<Longrightarrow> tracked a d \<Longrightarrow> tracked a d'"
  unfolding tracked_core by (metis same_active same_view_def)

lemma pending_view: "same_view d d' \<Longrightarrow> pending v rows d \<Longrightarrow> pending v rows d'"
  unfolding pending_def by (metis good_view tracked_view)

lemma tracked_others:
  assumes "active_attempts db' = filter (\<lambda>r. at_id r \<noteq> i) (active_attempts db)" and "at_id b \<noteq> i" and "tracked b db"
  shows "tracked b db'"
  using assms by (auto simp: tracked_def static_def)

lemma finish_attempt_active:
  "active_attempts (finish_attempt now a result db) = filter (\<lambda>r. at_id r \<noteq> at_id a) (active_attempts db)"
proof -
  have "\<not> is_active (r\<lparr>at_state := Finished, at_finished := x, at_result := y\<rparr>)" for r x y
    by (simp add: is_active_def)
  then show ?thesis
    by (simp add: active_attempts_alt finish_attempt_def update_campaigns_def update_attempts_def event_def filter_deactivated)
qed

lemma stable_tracked: "stable v d \<Longrightarrow> tracked a v \<Longrightarrow> tracked a d"
  unfolding tracked_core stable_def by (metis same_active)

lemma finish_attempt_campaigns: "map pcore (campaigns (finish_attempt now a result db)) = map pcore (campaigns db)"
  by (simp add: finish_attempt_def update_campaigns_def update_attempts_def event_def map_sql_update)

lemma pending_finish:
  assumes "stable u db" and "pending v (a # rows) u" and "at_id a \<notin> at_id ` set rows"
    and "at_kind a = Build \<Longrightarrow> released a db"
  shows "pending v rows (finish_attempt now a result db)"
proof -
  have db: "good v db" using assms(1,2) by (auto simp: pending_def intro: good_stable)
  then have con: "consistent db" by (simp add: good_def)
  have tr: "tracked b db" if "b \<in> set (a # rows)" for b
    using assms(1,2) that by (auto simp: pending_def intro: stable_tracked)
  have "consistent (finish_attempt now a result db)"
    using finish_attempt_consistent [OF con] tr assms(4) by simp
  then have "good v (finish_attempt now a result db)"
    using db by (simp add: good_def finish_attempt_campaigns evolved_finish)
  moreover have "tracked b (finish_attempt now a result db)" if "b \<in> set rows" for b
  proof (rule tracked_others [OF finish_attempt_active])
    show "at_id b \<noteq> at_id a" using that assms(3) by (metis imageI)
    show "tracked b db" using tr that by simp
  qed
  ultimately show ?thesis by (simp add: pending_def)
qed

lemma pending_tail: "pending v (a # rows) db \<Longrightarrow> pending v rows db"
  by (simp add: pending_def)

lemma wp_complete:
  assumes "pending v (a # rows) (k_db s)" and "at_id a \<notin> at_id ` set rows"
  shows "wp (complete w a result) (\<lambda>_ s. pending v rows (k_db s)) (\<lambda>s. pending v rows (k_db s)) s"
proof -
  have st: "stable (k_db s) (k_db s)" using assms(1) by (simp add: pending_def good_def stable_refl)
  note finish = pending_finish [OF _ assms]
  have "wp (bindM (case at_kind a of Plan \<Rightarrow> bindM (finish_plan w a) (\<lambda>_. returnM result) | Build \<Rightarrow> finish_build w a result)
      (\<lambda>result'. dbM (finish_attempt (w_now w) a result'))) (\<lambda>_ s. pending v rows (k_db s)) (\<lambda>_. True) s"
  proof (cases "at_kind a")
    case Plan
    show ?thesis unfolding wp_bind Plan akind.case
      by (rule wp_mono [OF keepsD [OF keeps_finish_plan [where v = "k_db s"]]]) (use st Plan in \<open>auto intro: finish\<close>)
  next
    case Build
    show ?thesis unfolding wp_bind Build akind.case
      by (rule wp_mono [OF wp_finish_build [OF st]]) (auto intro: finish)
  qed
  then show ?thesis unfolding complete_def
    by (rule wp_transactM) (rule pending_tail [OF assms(1)])
qed

lemma set_running_view:
  assumes "tracked a db" and "unique_keys at_id (attempts db)"
  shows "same_view db (set_running a db)"
proof -
  obtain r where r: "r \<in> set (attempts db)" "is_active r" "at_id r = at_id a"
    using assms(1) by (auto simp: tracked_def static_def active_attempts_alt)
  have "core (if at_id x = at_id a then x\<lparr>at_state := At_running\<rparr> else x) = core x" if "x \<in> set (attempts db)" for x
    using unique_keysD [OF assms(2) that r(1)] r by (auto simp: core_def is_active_def)
  then show ?thesis
    by (simp add: same_defs set_running_def update_attempts_def sql_update_def)
qed

lemma pending_ingest:
  "pending v rows (k_db s) \<Longrightarrow> wp (ingest w b) (\<lambda>_ s. pending v rows (k_db s)) (\<lambda>s. pending v rows (k_db s)) s"
  by (rule keepsD [where P = "\<lambda>s. pending v rows (k_db s)"], rule frame_keeps [where I = "pending v rows"])
    (auto intro: frame_ingest pending_view)

lemma pending_times:
  "pending v rows (k_db s) \<Longrightarrow> wp (ingest_timesM w b) (\<lambda>_ s. pending v rows (k_db s)) (\<lambda>s. pending v rows (k_db s)) s"
  by (rule keepsD [where P = "\<lambda>s. pending v rows (k_db s)"], rule frame_keeps [where I = "pending v rows"])
    (auto intro: frame_ingest_times pending_view)

lemma wp_drain:
  assumes "pending v (a # rows) (k_db s)" and "at_id a \<notin> at_id ` set rows"
  shows "wp (drain w a result) (\<lambda>_ s. pending v rows (k_db s)) (\<lambda>s. pending v rows (k_db s)) s"
proof -
  note ing = pending_ingest [where rows = "a # rows"] and times = pending_times [where rows = "a # rows"]
  have "wp (bindM (ingest w b) (\<lambda>_. bindM (ingest_timesM w a) (\<lambda>_. complete w a result)))
      (\<lambda>_ s. pending v rows (k_db s)) (\<lambda>s. pending v rows (k_db s)) s" for b
    unfolding wp_bind
    by (rule wp_mono [OF ing [OF assms(1)]], rule wp_mono [OF times])
      (auto intro: wp_complete [OF _ assms(2)] pending_tail)
  then show ?thesis unfolding drain_def
    using pending_tail [OF assms(1)] by (simp split: option.splits)
qed

lemma wp_reconcile_attempt:
  assumes "pending v (a # rows) (k_db s)" and "at_id a \<notin> at_id ` set rows"
  shows "wp (reconcile_attempt w a) (\<lambda>_ s. pending v rows (k_db s)) (\<lambda>s. pending v rows (k_db s)) s"
proof -
  let ?J = "\<lambda>s :: ctl. pending v (a # rows) (k_db s)"
  note ing = pending_ingest [where rows = "a # rows"] and times = pending_times [where rows = "a # rows"]
  have running: "wp (transactM (dbM (set_running a))) (\<lambda>_ s. pending v rows (k_db s)) (\<lambda>s. pending v rows (k_db s)) s" if "?J s" for s
  proof (rule wp_transactM)
    have "same_view (k_db s) (set_running a (k_db s))"
      using that by (intro set_running_view) (simp_all add: pending_def good_def consistent_def attempts_ok_def)
    then have "pending v rows (set_running a (k_db s))"
      by (rule pending_view) (rule pending_tail [OF that])
    then show "wp (dbM (set_running a)) (\<lambda>_ s. pending v rows (k_db s)) (\<lambda>_. True) s" by simp
  qed (rule pending_tail [OF that])
  have stop: "wp (whenM b (stop_unit w aid)) (\<lambda>_ s. ?J s) ?J s" if "?J s" for b aid s
    using that by (rule keepsD [OF keeps_when [OF keeps_outside(4) [where I = "pending v (a # rows)"]]])
  have start: "wp (start_unit w aid) (\<lambda>_ s. pending v rows (k_db s)) (\<lambda>s. pending v rows (k_db s)) s" if "?J s" for aid s
    using keepsD [OF keeps_outside(3) [where I = "pending v rows"]] pending_tail [OF that] .
  have end_here: "wp (case f_exit f of Some result \<Rightarrow> drain w a result
     | None \<Rightarrow>
         bindM (liftM (\<lambda>_. unit_active w (at_id a))) (\<lambda>alive.
         if alive then
           bindM (whenM (at_cancel a) (stop_unit w (at_id a))) (\<lambda>_. transactM (dbM (set_running a)))
         else if \<not> f_started f \<and> at_state a = Intended then
           (if at_cancel a then complete w a (bare_result ''cancelled'' (w_now w)) else start_unit w (at_id a))
         else complete w a (bare_result (if at_cancel a then ''cancelled'' else ''interrupted'') (w_now w))))
      (\<lambda>_ s. pending v rows (k_db s)) (\<lambda>s. pending v rows (k_db s)) s" if J: "?J s" for f s
  proof (cases "f_exit f")
    case None
    have alive: "wp (bindM (whenM (at_cancel a) (stop_unit w (at_id a))) (\<lambda>_. transactM (dbM (set_running a))))
        (\<lambda>_ s. pending v rows (k_db s)) (\<lambda>s. pending v rows (k_db s)) s"
      unfolding wp_bind by (rule wp_mono [OF stop [OF J]]) (auto intro: running pending_tail)
    show ?thesis
      unfolding None option.case wp_bind wp_lift
      using alive start [OF J] wp_complete [OF J assms(2)] pending_tail [OF J]
      by (cases "unit_active w (at_id a)") simp_all
  qed (simp add: wp_drain [OF J assms(2)])
  have folder: "wp (ensure_folder a) (\<lambda>_ s. ?J s) ?J s"
    using assms(1) by (rule keepsD [OF keeps_outside(6) [where I = "pending v (a # rows)"]])
  show ?thesis
    unfolding reconcile_attempt_def wp_bind wp_simps
    by (rule wp_mono [OF folder], rule wp_mono [OF ing], assumption, rule wp_mono [OF times], assumption)
      (erule end_here pending_tail)+
qed

lemma wp_reconcile_rows:
  assumes "pending v rows (k_db s)" and "distinct (map at_id rows)"
  shows "wp (foreachM (reconcile_attempt w) rows) (\<lambda>_ s. good v (k_db s)) (\<lambda>s. good v (k_db s)) s"
  using assms
proof (induction rows arbitrary: s)
  case (Cons a rows)
  have "wp (reconcile_attempt w a) (\<lambda>_ s. pending v rows (k_db s)) (\<lambda>s. pending v rows (k_db s)) s"
    using Cons.prems by (intro wp_reconcile_attempt) auto
  then show ?case
    unfolding foreachM.simps wp_bind
    by (rule wp_mono) (use Cons in \<open>auto simp: pending_def\<close>)
qed (simp add: pending_def)

lemma distinct_active: "unique_keys at_id (attempts db) \<Longrightarrow> distinct (map at_id (active_attempts db))"
  by (simp add: unique_keys_def active_attempts_alt distinct_map_filter)

lemma keeps_reconcile: "keeps (\<lambda>s. good v (k_db s)) (reconcile w)"
  unfolding keeps_wp reconcile_def
proof safe
  fix s :: ctl assume con: "good v (k_db s)"
  then have "pending v (active_attempts (k_db s)) (k_db s)" by (auto simp: pending_def tracked_def)
  moreover have "distinct (map at_id (active_attempts (k_db s)))"
    using con by (intro distinct_active) (simp add: good_def consistent_def attempts_ok_def)
  ultimately show "wp (bindM (readM active_attempts) (\<lambda>rows. foreachM (reconcile_attempt w) rows))
      (\<lambda>_ s. good v (k_db s)) (\<lambda>s. good v (k_db s)) s"
    by (simp add: wp_reconcile_rows)
qed

section \<open>Admitting an attempt\<close>

lemma known_view: "same_view d d' \<Longrightarrow> known_campaign cp d \<Longrightarrow> known_campaign cp d'"
  by (simp add: known_campaign_def same_view_def same_campaigns_def del: set_map)

text \<open>What the guards of \<^term>\<open>intent\<close> establish about the new attempt.\<close>

definition admissible :: "campaign \<Rightarrow> attempt \<Rightarrow> database \<Rightarrow> bool" where
  "admissible cp a db \<longleftrightarrow> at_campaign a = cp_id cp \<and> is_active a \<and> well_formed a
   \<and> (\<forall>r \<in> set (active_attempts db). at_campaign r = cp_id cp)
   \<and> (at_kind a = Plan \<longrightarrow> filter is_plan (active_attempts db) = [])
   \<and> (at_kind a = Build \<and> \<not> is_remote a \<longrightarrow> 1 \<le> limit_jobs a \<and> 1 \<le> limit_cores a \<and>
        (\<forall>cpus. cpu_set (p_cpus (cp_policy cp)) = Inr cpus \<longrightarrow> limit_jobs a * limit_cores a + local_load db \<le> int (card cpus)))"

lemma cpu_load_append [simp]: "cpu_load (as @ bs) = cpu_load as + cpu_load bs"
  by (simp add: cpu_load_def)

lemma known_cpus:
  assumes "known_campaign cp db" and "unique_keys cp_id (campaigns db)" and "p \<in> set (campaigns db)" and "cp_id p = cp_id cp"
  shows "p_cpus (cp_policy p) = p_cpus (cp_policy cp)"
proof -
  obtain q where "q \<in> set (campaigns db)" "cp_id q = cp_id cp" "p_cpus (cp_policy q) = p_cpus (cp_policy cp)"
    using assms(1) by (auto simp: known_campaign_def pcore_def)
  then show ?thesis using unique_keysD [OF assms(2,3)] assms(4) by metis
qed

lemma insert_attempts_ok:
  assumes con: "consistent db" and known: "known_campaign cp db" and adm: "admissible cp a db"
    and fresh: "at_id a \<notin> at_id ` set (attempts db)" and db': "attempts db' = attempts db @ [a]" "campaigns db' = campaigns db"
  shows "attempts_ok db'"
proof -
  have ok: "attempts_ok db" using con by (simp add: consistent_def)
  have active: "active_attempts db' = active_attempts db @ [a]"
    using adm by (simp add: active_attempts_alt db' admissible_def)
  then have builds: "active_builds db' = active_builds db @ (if at_kind a = Build then [a] else [])"
    by (simp add: active_builds_def is_build_def)
  then have locals: "local_builds (active_builds db') = local_builds (active_builds db) @ (if at_kind a = Build \<and> \<not> is_remote a then [a] else [])"
    by (simp add: local_builds_def)
  have camp: "\<forall>r \<in> set (active_attempts db'). at_campaign r = cp_id cp"
    using adm by (simp add: active admissible_def)
  then have "one_campaign db'" by (simp add: one_campaign_def)
  moreover have "one_planner db'"
    using adm ok by (cases "at_kind a") (auto simp: one_planner_def active admissible_def is_plan_def attempts_ok_def)
  moreover have "positive_limits db'"
    using adm ok by (auto simp: positive_limits_def locals admissible_def attempts_ok_def)
  moreover have "within_budget db'"
    unfolding within_budget_def db'(2)
  proof (intro ballI allI impI)
    fix p cpus
    assume p: "p \<in> set (campaigns db)" and h: "active_builds db' \<noteq> [] \<and> (\<forall>a \<in> set (active_builds db'). at_campaign a = cp_id p)
      \<and> cpu_set (p_cpus (cp_policy p)) = Inr cpus"
    have "\<forall>r \<in> set (active_builds db'). at_campaign r = cp_id cp" using camp by (simp add: active_builds_def)
    then have "cp_id p = cp_id cp" using h by (metis last_in_set)
    then have cpus: "cpu_set (p_cpus (cp_policy cp)) = Inr cpus"
      using known_cpus [OF known _ p] con h by (simp add: consistent_def)
    have old: "local_load db \<le> int (card cpus)"
    proof (cases "active_builds db = []")
      case True
      then show ?thesis by (simp add: local_load_def local_builds_def)
    next
      case False
      have "\<forall>r \<in> set (active_builds db). at_campaign r = cp_id p" using h by (simp add: builds)
      moreover have "within_budget db" using ok by (simp add: attempts_ok_def)
      ultimately show ?thesis using p h False unfolding within_budget_def by blast
    qed
    have "local_load db' = local_load db + (if at_kind a = Build \<and> \<not> is_remote a then limit_jobs a * limit_cores a else 0)"
      by (simp add: local_load_def locals)
    with old cpus adm show "local_load db' \<le> int (card cpus)"
      by (auto simp: admissible_def split: if_splits)
  qed
  ultimately show ?thesis
    using ok fresh adm by (simp add: attempts_ok_def unique_keys_def db' admissible_def)
qed

lemma candidate_ok_mono: "(\<And>cid. set (r cid) \<subseteq> set (r' cid)) \<Longrightarrow> candidate_ok r c \<Longrightarrow> candidate_ok r' c"
  by (auto simp: candidate_ok_def drv_in_iff)

lemma insert_consistent:
  assumes con: "consistent db" and known: "known_campaign cp db" and adm: "admissible cp a db"
    and fresh: "at_id a \<notin> at_id ` set (attempts db)"
  shows "consistent (db\<lparr>attempts := attempts db @ [a]\<rparr>)" (is "consistent ?db'")
proof -
  have "active_attempts ?db' = active_attempts db @ [a]"
    using adm by (simp add: active_attempts_alt admissible_def)
  then have "set (running_roots db cid) \<subseteq> set (running_roots ?db' cid)" for cid
    unfolding set_running_roots active_builds_def by auto
  then have "candidates_ok ?db'"
    using con candidate_ok_mono [of "running_roots db" "running_roots ?db'"]
    by (auto simp: consistent_def candidates_ok_def list_all_iff)
  moreover have "attempts_ok ?db'" by (rule insert_attempts_ok [OF con known adm fresh]) simp_all
  ultimately show ?thesis using con by (simp add: consistent_def)
qed

lemma claim_stable:
  assumes "consistent db" and "a \<in> set (active_attempts db)" and "at_campaign a = cp_id cp"
  shows "stable db (claim_targets cp a db)"
proof (cases "at_kind a")
  case Build
  have roots: "set (build_roots (at_targets a)) \<subseteq> set (running_roots db (cp_id cp))"
    using assms(2,3) Build by (auto simp: set_running_roots active_builds_def is_build_def)
  show ?thesis unfolding claim_targets_def Build akind.case
    by (rule stable_update [OF stable_refl [OF assms(1)]])
      (use roots in \<open>auto simp: candidate_ok_def drv_in_iff\<close>)
next
  case Plan
  have "stable db (update_candidates p (\<lambda>c. c\<lparr>c_state := Unplanned, c_drv := None, c_recipe := None, c_error := None\<rparr>) db)" for p
    by (rule stable_update [OF stable_refl [OF assms(1)]]) (auto simp: candidate_ok_def)
  then show ?thesis unfolding claim_targets_def Plan akind.case Let_def
    using stable_refl [OF assms(1)] by (auto intro: stable_view [OF same_view_tables(1)])
qed

lemma record_intent_stable:
  assumes con: "consistent db" and known: "known_campaign cp db" and adm: "admissible cp a db"
    and rec: "record_intent now cp a db = Inr db'"
  shows "stable (db\<lparr>attempts := attempts db @ [a]\<rparr>) db'" and "consistent (db\<lparr>attempts := attempts db @ [a]\<rparr>)"
proof -
  let ?db1 = "db\<lparr>attempts := attempts db @ [a]\<rparr>"
  have fresh: "at_id a \<notin> at_id ` set (attempts db)"
    and db': "\<exists>k p. db' = event now (cp_id cp) k p (claim_targets cp a ?db1)"
    using rec by (auto simp: record_intent_def insert_attempt_def bindr_eq_Inr split: if_splits)
  show con1: "consistent ?db1" by (rule insert_consistent [OF con known adm fresh])
  have "a \<in> set (active_attempts ?db1)" using adm by (simp add: active_attempts_alt admissible_def)
  then have "stable ?db1 (claim_targets cp a ?db1)"
    using adm by (intro claim_stable [OF con1]) (simp_all add: admissible_def)
  with db' show "stable ?db1 db'" by (auto intro: stable_view [OF same_view_event])
qed

section \<open>The guards of intent\<close>

lemma check_activeD:
  assumes "check_active db cp kind = Inr u"
  shows "\<forall>r \<in> set (active_attempts db). at_campaign r = cp_id cp"
    and "kind = Plan \<Longrightarrow> filter is_plan (active_attempts db) = []"
    and "active_attempts db = [] \<or> plan_ahead (cp_policy cp) \<noteq> 0"
  using assms by (auto simp: check_active_def Let_def bindr_eq_Inr list_all_iff list_ex_iff filter_empty_conv)

lemma own_dependencies_location:
  assumes "own_dependencies w s cp targets x = Inr x'" and "rolling (cp_policy cp)"
  shows "x_build_location x' = Some (location_of x)"
  using assms by (auto simp: own_dependencies_def Let_def bindr_eq_Inr split: if_splits)

lemma intent_buildD:
  assumes "intent_build w s cp targets x = Inr (eff, x')"
  shows "check_scope (k_db s) targets = Inr ()"
    and "build_policy (cp_policy cp) (active_builds (k_db s)) (location_of x) (k_machines s) = Inr (Some eff)"
    and "own_dependencies w s cp targets x = Inr x'"
  using assms by (auto simp: intent_build_def bindr_eq_Inr split: option.splits)

lemma spec_reads [simp]:
  "sp_targets (make_spec cp kind targets pol x) = targets" "sp_kind (make_spec cp kind targets pol x) = kind"
  "sp_policy (make_spec cp kind targets pol x) = pol" "sp_build_location (make_spec cp kind targets pol x) = x_build_location x"
  by (simp_all add: make_spec_def)

lemma new_attempt_reads [simp]:
  "at_id (new_attempt now aid cp kind ts spec) = aid" "at_campaign (new_attempt now aid cp kind ts spec) = cp_id cp"
  "at_kind (new_attempt now aid cp kind ts spec) = kind" "at_targets (new_attempt now aid cp kind ts spec) = ts"
  "at_spec (new_attempt now aid cp kind ts spec) = spec" "at_state (new_attempt now aid cp kind ts spec) = Intended"
  by (simp_all add: new_attempt_def)

lemma admissible_build:
  assumes act: "check_active (k_db s) cp Build = Inr u" and chk: "intent_build w s cp (build_roots targets) x = Inr (eff, x')"
  shows "admissible cp (new_attempt now aid cp Build targets (make_spec cp Build targets eff x')) (k_db s)"
proof -
  let ?a = "new_attempt now aid cp Build targets (make_spec cp Build targets eff x')"
  note D = intent_buildD [OF chk]
  have budget: "1 \<le> p_max_jobs eff \<and> 1 \<le> p_cores eff \<and> (\<forall>cpus. cpu_set (p_cpus (cp_policy cp)) = Inr cpus \<longrightarrow>
      p_max_jobs eff * p_cores eff + local_load (k_db s) \<le> int (card cpus))" if "\<not> is_remote ?a"
  proof -
    have not_remote: "\<not> (rolling (cp_policy cp) \<and> location_of x = ''remote'')"
      using that own_dependencies_location [OF D(3)] by (auto simp: is_remote_def)
    obtain cpus where "cpu_set (p_cpus (cp_policy cp)) = Inr cpus"
      using build_policy_local [OF D(2) not_remote] by blast
    then show ?thesis
      using build_policy_budget [OF D(2) not_remote] by (simp add: local_load_def)
  qed
  show ?thesis
    using check_activeD(1) [OF act] budget
    by (auto simp: admissible_def is_active_def well_formed_def limit_jobs_def limit_cores_def)
qed

lemma admissible_plan:
  assumes "check_active db cp Plan = Inr u"
  shows "admissible cp (new_attempt now aid cp Plan targets (make_spec cp Plan targets pol x)) db"
  using check_activeD(1,2) [OF assms] by (simp add: admissible_def is_active_def well_formed_def)

end
