(* ===== verification/Safety.thy ===== *)
theory Safety
  imports Lifecycle
begin

text \<open>
  Every operation of the controller keeps the invariant, so every reachable state has it.
\<close>

lemma good_frame: "(\<And>u. keeps (\<lambda>s. same_view u (k_db s)) m) \<Longrightarrow> keeps (\<lambda>s. good v (k_db s)) (m :: 'a ctl_op)"
  by (rule frame_keeps) (auto intro: good_view)

lemma good_dbM: "(\<And>db. same_view db (f db)) \<Longrightarrow> keeps (\<lambda>s. good v (k_db s)) (dbM f)"
  by (rule keeps_dbM) (rule good_view)

lemma good_update:
  assumes "\<And>db. consistent db \<Longrightarrow> stable db (f db)"
  shows "keeps (\<lambda>s. good v (k_db s)) (dbM f)"
  by (rule keeps_dbM) (metis assms good_def good_stable)

lemma good_try:
  assumes "\<And>db db'. consistent db \<Longrightarrow> f db = Inr db' \<Longrightarrow> stable db db'"
  shows "keeps (\<lambda>s. good v (k_db s)) (try_dbM f)"
  by (rule keeps_try_dbM) (metis assms good_def good_stable)

lemma good_record:
  assumes "good v db" and "known_campaign cp v" and "admissible cp a db" and "record_intent now cp a db = Inr db'"
  shows "good v db'"
proof -
  have "consistent db" "known_campaign cp db" using assms(1,2) by (simp_all add: good_def known_campaign_def del: set_map)
  note rec = record_intent_stable [OF this assms(3,4)]
  have "good v (db\<lparr>attempts := attempts db @ [a]\<rparr>)" using rec(2) assms(1) by (simp add: good_def evolved_append)
  with rec(1) show ?thesis by (rule good_stable)
qed

lemma wp_commit:
  assumes "good v (k_db s)" and "known_campaign cp v" and "\<And>aid. admissible cp (new_attempt (w_now w) aid cp kind targets spec) (k_db s)"
  shows "wp (bindM (next_uuid w) (\<lambda>aid. bindM (make_folder aid spec) (\<lambda>_.
      bindM (transactM (try_dbM (record_intent (w_now w) cp (new_attempt (w_now w) aid cp kind targets spec)))) (\<lambda>_.
      returnM aid)))) (\<lambda>_ s. good v (k_db s)) (\<lambda>s. good v (k_db s)) s"
proof -
  let ?same = "\<lambda>d. d = k_db s"
  have uuid: "wp (next_uuid w) (\<lambda>_ s. ?same (k_db s)) (\<lambda>s. ?same (k_db s)) s"
    by (rule keepsD [OF keeps_next_uuid [where I = ?same]]) simp
  have folder: "wp (make_folder aid spec) (\<lambda>_ s. ?same (k_db s)) (\<lambda>s. ?same (k_db s)) s'" if "?same (k_db s')" for aid s'
    by (rule keepsD [OF keeps_outside(5) [where I = ?same]]) (rule that)
  have commit: "wp (transactM (try_dbM (record_intent (w_now w) cp (new_attempt (w_now w) aid cp kind targets spec))))
      (\<lambda>_ s. good v (k_db s)) (\<lambda>s. good v (k_db s)) s'" if "?same (k_db s')" for aid s'
    by (rule wp_transactM) (use that assms good_record [OF assms(1,2)] in \<open>auto split: sum.splits\<close>)
  show ?thesis
    unfolding wp_bind
    by (rule wp_mono [OF uuid], rule wp_mono [OF folder], assumption, rule wp_mono [OF commit], assumption)
      (use assms(1) in simp_all)
qed

lemma keeps_intent:
  assumes "known_campaign cp v"
  shows "keeps (\<lambda>s. good v (k_db s)) (intent w cp kind targets x)"
  unfolding keeps_wp
proof safe
  fix s :: ctl assume good: "good v (k_db s)"
  show "wp (intent w cp kind targets x) (\<lambda>_ s. good v (k_db s)) (\<lambda>s. good v (k_db s)) s"
  proof (cases "check_active (k_db s) cp kind")
    case act: (Inr u)
    show ?thesis
    proof (cases kind)
      case Plan
      show ?thesis
        unfolding intent_def Let_def wp_bind [where m = "liftM f" for f] wp_lift Plan act [unfolded Plan] sum.case akind.case prod.case
        by (rule wp_commit [OF good assms]) (rule admissible_plan [OF act [unfolded Plan]])
    next
      case Build
      show ?thesis
      proof (cases "intent_build w s cp (build_roots targets) x")
        case chk: (Inr r)
        obtain eff x' where r: "r = (eff, x')" by (cases r)
        show ?thesis
          unfolding intent_def Let_def wp_bind [where m = "liftM f" for f] wp_lift Build act [unfolded Build] sum.case akind.case chk r prod.case
          by (rule wp_commit [OF good assms])
            (rule admissible_build [OF act [unfolded Build] chk [unfolded r]])
      qed (simp add: intent_def act [unfolded Build] Build good)
    qed
  qed (simp add: intent_def good)
qed

section \<open>Planning and admission\<close>

lemma keeps_lift_bind [keeps_intros]:
  assumes "\<And>s x. P s \<Longrightarrow> f s = Inr x \<Longrightarrow> wp (g x) (\<lambda>_. P) P s"
  shows "keeps P (bindM (liftM f) g)"
  using assms by (auto simp: keeps_wp split: sum.splits)

lemma campaign_known:
  assumes "campaign db cid = Inr cp" and "map pcore (campaigns db) = map pcore (campaigns v)"
  shows "known_campaign cp v"
proof -
  have "cp \<in> set (campaigns db)"
    using assms(1) by (auto simp: campaign_def find_campaign_def split: option.splits dest: find_row_Some_set)
  then have "pcore cp \<in> set (map pcore (campaigns db))" by simp
  then show ?thesis by (simp only: known_campaign_def assms(2))
qed

lemma with_campaign_keeps:
  assumes "\<And>cp. known_campaign cp v \<Longrightarrow> keeps (\<lambda>s. good v (k_db s)) (f cp)"
  shows "keeps (\<lambda>s. good v (k_db s)) (bindM (liftM (\<lambda>s. campaign (k_db s) cid)) f)"
  unfolding keeps_wp wp_bind wp_lift
  using assms by (auto split: sum.splits simp: good_def keeps_wp dest: campaign_known)

lemma keeps_plan [keeps_intros]: "keeps (\<lambda>s. good v (k_db s)) (plan w cid ids source revision)"
  unfolding plan_def Let_def
  by (rule with_campaign_keeps) (intro keeps_bind keeps_intent keeps_if keeps_basic keeps_requireM keeps_readM keeps_outside)

lemma keeps_build_targets: "known_campaign cp v \<Longrightarrow> keeps (\<lambda>s. good v (k_db s)) (build_targets w cp targets loc ob)"
  unfolding build_targets_def by (intro keeps_bind keeps_intent keeps_basic keeps_readM)

lemma good_prepare [keeps_intros]: "keeps (\<lambda>s. good v (k_db s)) (prepare_graph w targets roll)"
  by (rule good_frame) (rule frame_prepare)

lemma keeps_roll_one: "known_campaign cp v \<Longrightarrow> keeps (\<lambda>s. good v (k_db s)) (roll_one w cp available drv l)"
  unfolding roll_one_def Let_def
  by (intro keeps_if keeps_option keeps_bind keeps_basic keeps_readM keeps_build_targets)

lemma keeps_admit_builds: "known_campaign cp v \<Longrightarrow> keeps (\<lambda>s. good v (k_db s)) (admit_builds w cp builds)"
  unfolding admit_builds_def admit_selected_def admit_rolling_def admit_batch_def Let_def
  by (intro keeps_bind keeps_if keeps_prod keeps_basic keeps_readM keeps_fold keeps_roll_one keeps_build_targets good_prepare)

lemma keeps_list [keeps_intros]:
  "(xs = [] \<Longrightarrow> keeps P m) \<Longrightarrow> (\<And>y ys. xs = y # ys \<Longrightarrow> keeps P (f y ys)) \<Longrightarrow> keeps P (case xs of [] \<Rightarrow> m | y # ys \<Rightarrow> f y ys)"
  by (cases xs) simp_all

lemma keeps_admit_plans: "keeps (\<lambda>s. good v (k_db s)) (admit_plans w cp builds)"
  unfolding admit_plans_def
  by (intro keeps_bind keeps_if keeps_basic keeps_readM keeps_list keeps_plan keeps_transactM good_dbM)
    (simp add: view_simps)

lemma keeps_admit: "known_campaign cp v \<Longrightarrow> keeps (\<lambda>s. good v (k_db s)) (admit w cp)"
  unfolding admit_def Let_def
  by (intro keeps_bind keeps_if keeps_prod keeps_basic keeps_readM keeps_transactM good_dbM frame_machines
      keeps_admit_builds keeps_admit_plans) (simp_all add: view_simps)


lemma keeps_tick_campaign: "known_campaign c v \<Longrightarrow> keeps (\<lambda>s. good v (k_db s)) (tick_campaign w c)"
  unfolding tick_campaign_def
  by (intro keeps_bind keeps_when keeps_admit keeps_transactM good_dbM) (simp_all add: view_simps)

lemma keeps_tick_campaigns: "keeps (\<lambda>s. good v (k_db s)) (tick_campaigns w)"
  unfolding keeps_wp
proof safe
  fix s :: ctl assume good: "good v (k_db s)"
  then have "\<forall>c \<in> set (sort_key cp_created (campaigns (k_db s))). known_campaign c v"
    by (simp add: good_def known_campaign_def) (metis imageI set_map)
  then have "keeps (\<lambda>s. good v (k_db s)) (foreachM (tick_campaign w) (sort_key cp_created (campaigns (k_db s))))"
    by (intro keeps_foreach keeps_tick_campaign) simp
  from keepsD [OF this good]
  show "wp (tick_campaigns w) (\<lambda>_ s. good v (k_db s)) (\<lambda>s. good v (k_db s)) s" by (simp add: tick_campaigns_def)
qed

lemma keeps_tick: "keeps (\<lambda>s. good v (k_db s)) (tick w)"
  unfolding tick_def by (intro keeps_bind keeps_reconcile keeps_tick_campaigns)

section \<open>Commands\<close>

lemma stable_frame: "consistent db \<Longrightarrow> same_view db db' \<Longrightarrow> stable db db'"
  using stable_view [OF _ stable_refl] .

lemma stable_trans: "stable a b \<Longrightarrow> consistent a \<Longrightarrow> stable b c \<Longrightarrow> stable a c"
  by (simp add: stable_def same_attempts_def same_campaigns_def)

lemma good_graphs [keeps_intros]: "keeps (\<lambda>s. good v (k_db s)) (try_dbM (add_graph rt nx g))"
  by (rule good_try) (auto intro: stable_frame same_view_add_graph)

lemma good_event [keeps_intros]: "keeps (\<lambda>s. good v (k_db s)) (dbM (event now cid k p))"
  by (rule good_dbM) (simp add: view_simps)

lemma good_refresh [keeps_intros]: "keeps (\<lambda>s. good v (k_db s)) (dbM (refresh_candidates cid))"
  by (rule good_update) (auto intro: stable_refresh stable_refl)

lemma good_exclude [keeps_intros]: "keeps (\<lambda>s. good v (k_db s)) (dbM (exclude_candidate row))"
proof (rule good_update)
  fix db assume "consistent db"
  then have "stable db (set_candidate (c_id row) (\<lambda>c. c\<lparr>c_state := Excluded, c_error := Some REASON\<rparr>) db)"
    unfolding set_candidate_def by (intro stable_update stable_refl) (auto simp: candidate_ok_def)
  then show "stable db (exclude_candidate row db)"
    unfolding exclude_candidate_def Let_def by (auto intro: stable_view [OF same_view_derivations])
qed

lemma good_exclude_batch [keeps_intros]: "keeps (\<lambda>s. good v (k_db s)) (try_dbM (exclude_batch cid a))"
proof (rule good_try)
  fix db db' assume "consistent db" and "exclude_batch cid a db = Inr db'"
  then have "stable db (update_attempts p (\<lambda>r. r\<lparr>at_result := x\<rparr>) db)" for p x
    by (intro stable_frame same_view_attempts) simp_all
  then have "stable db (update_candidates (\<lambda>c. c_campaign c = cid \<and> drv_in (c_drv c) (build_roots (at_targets a))
      \<and> c_state c = Inconclusive \<and> c_error c = Some ''cancelled'') (\<lambda>c. c\<lparr>c_state := Queued, c_error := None\<rparr>)
      (update_attempts p (\<lambda>r. r\<lparr>at_result := x\<rparr>) db))" for p x
    by (rule stable_update) (auto simp: candidate_ok_def)
  with \<open>exclude_batch cid a db = Inr db'\<close> show "stable db db'"
    by (auto simp: exclude_batch_def bindr_eq_Inr)
qed

lemma keeps_exclude_kernels [keeps_intros]: "keeps (\<lambda>s. good v (k_db s)) (exclude_kernels w cid aid)"
  unfolding exclude_kernels_def require_paused_def
  by (intro keeps_bind keeps_if keeps_option keeps_basic keeps_readM keeps_requireM keeps_transactM keeps_foreach
      good_graphs good_exclude good_exclude_batch good_refresh good_event)

lemma good_named [keeps_intros]: "keeps (\<lambda>s. good v (k_db s)) (dbM (exclude_named rows))"
  unfolding exclude_named_def by (rule good_dbM, rule same_view_fold) (auto simp: view_simps)

lemma good_requeue [keeps_intros]: "keeps (\<lambda>s. good v (k_db s)) (dbM (requeue_blocked cid))"
  unfolding requeue_blocked_def
  by (rule good_update, rule stable_update [OF stable_refl]) (auto simp: candidate_ok_def)

lemma keeps_exclude_toolchains [keeps_intros]: "keeps (\<lambda>s. good v (k_db s)) (exclude_toolchains w cid)"
  unfolding exclude_toolchains_def Let_def require_paused_def
  by (intro keeps_bind keeps_basic keeps_readM keeps_requireM keeps_transactM
      good_named good_requeue good_refresh good_event)


lemma good_enqueue: "keeps (\<lambda>s. good v (k_db s)) (dbM (enqueue_replans now cid src rv req new))"
  by (rule good_dbM) (simp add: view_simps)

lemma keeps_queue_replan [keeps_intros]: "keeps (\<lambda>s. good v (k_db s)) (queue_replan w cid jids source revision)"
  unfolding queue_replan_def Let_def
  by (intro keeps_bind keeps_prod keeps_if keeps_basic keeps_next_uuid keeps_outside keeps_transactM good_enqueue)

lemma good_schedule:
  assumes "known_campaign cp v"
  shows "keeps (\<lambda>s. good v (k_db s)) (dbM (update_schedule now cp before after))"
proof (rule keeps_dbM)
  fix db assume good: "good v db"
  then have unique: "unique_keys cp_id (campaigns db)" and known: "known_campaign cp db"
    using assms by (simp_all add: good_def consistent_def known_campaign_def del: set_map)
  have "pcore (c\<lparr>cp_policy := apply_settings after (cp_policy cp)\<rparr>) = pcore c"
    if "c \<in> set (campaigns db)" "cp_id c = cp_id cp" for c
    using known_cpus [OF known unique that] that by (simp add: pcore_def apply_settings_def)
  then have "same_view db (update_campaigns (\<lambda>c. cp_id c = cp_id cp) (\<lambda>c. c\<lparr>cp_policy := apply_settings after (cp_policy cp)\<rparr>) db)"
    by (simp add: same_defs update_campaigns_def sql_update_def)
  then have "same_view db (update_schedule now cp before after db)"
    unfolding update_schedule_def by (rule same_view_trans [OF _ same_view_event])
  then show "good v (update_schedule now cp before after db)" using good by (rule good_view)
qed

lemma keeps_schedule [keeps_intros]: "keeps (\<lambda>s. good v (k_db s)) (schedule w cid req)"
  unfolding schedule_def Let_def
  by (rule with_campaign_keeps) (intro keeps_bind keeps_basic keeps_when keeps_transactM good_schedule)

lemma keeps_build_once [keeps_intros]: "keeps (\<lambda>s. good v (k_db s)) (build_once w cid jids)"
  unfolding build_once_def Let_def
  by (rule with_campaign_keeps) (intro keeps_bind keeps_basic keeps_requireM keeps_build_targets)

lemma stable_clear: "consistent db \<Longrightarrow> stable db (clear_failure drv db)"
  unfolding clear_failure_def by (rule stable_frame) (simp_all add: view_simps)

lemma good_retry_drv: "keeps (\<lambda>s. good v (k_db s)) (dbM (\<lambda>db. event now cid k p (refresh_candidates cid (clear_failure drv db))))"
  by (rule good_update) (intro stable_view [OF same_view_event] stable_refresh stable_clear)

lemma keeps_retry_derivation [keeps_intros]: "keeps (\<lambda>s. good v (k_db s)) (retry_derivation w cid jdrv)"
  unfolding retry_derivation_def
  by (cases jdrv) (simp_all, (intro keeps_bind keeps_basic keeps_requireM keeps_readM keeps_transactM good_retry_drv)+)

lemma keeps_set_mode [keeps_intros]: "keeps (\<lambda>s. good v (k_db s)) (set_mode w command cid)"
proof -
  have "same_view db (event now cid command p (update_campaigns (\<lambda>c. cp_id c = cid)
      (\<lambda>c. c\<lparr>cp_mode := m, cp_hold := h\<rparr>) db))" for db now p m h
    by (rule same_view_trans [OF same_view_campaigns same_view_event]) simp
  then show ?thesis unfolding set_mode_def by (intro keeps_bind keeps_basic keeps_transactM good_dbM)
qed

lemma keeps_cancel [keeps_intros]: "keeps (\<lambda>s. good v (k_db s)) (cancel w aid)"
proof -
  have "same_view db (request_cancel a db)" for a db
    unfolding request_cancel_def by (rule same_view_trans [OF same_view_attempts same_view_campaigns]) simp_all
  then show ?thesis unfolding cancel_def
    by (intro keeps_bind keeps_option keeps_basic keeps_readM keeps_transactM keeps_when keeps_outside good_dbM)
qed

lemma good_retry: "keeps (\<lambda>s. good v (k_db s)) (try_dbM (retry_candidate cid i))"
proof (rule good_try)
  fix db db' assume con: "consistent db" and "retry_candidate cid i db = Inr db'"
  then obtain c :: candidate where c: "known_path (c_drv c)"
    and db': "db' = update_candidates (\<lambda>r. c_campaign r = cid \<and> c_drv r = c_drv c)
      (\<lambda>r. r\<lparr>c_state := Queued, c_error := None\<rparr>) (clear_failure (the (c_drv c)) db)"
    by (auto simp: retry_candidate_def bindr_eq_Inr split: option.splits intro: that)
  show "stable db db'" unfolding db'
    by (rule stable_update [OF stable_clear [OF con]]) (use c in \<open>auto simp: candidate_ok_def known_path_def\<close>)
qed

lemma keeps_retry [keeps_intros]: "keeps (\<lambda>s. good v (k_db s)) (retry w cid jids)"
  unfolding retry_def
  by (intro keeps_bind keeps_basic keeps_transactM keeps_foreach good_retry good_refresh good_event)

lemma persist_view: "persist rt now cid item db = Inr (msg, db') \<Longrightarrow> same_view db db'"
  by (drule persist_frame) (auto simp: same_defs)

lemma keeps_classify [keeps_intros]: "keeps (\<lambda>s. good v (k_db s)) (classify w cid item)"
  unfolding keeps_wp classify_def
  using good_view persist_view by (fastforce split: sum.splits prod.splits)

lemma keeps_with_campaign: "(\<And>c. keeps P (f c)) \<Longrightarrow> keeps P (with_campaign cid f)"
  by (auto simp: with_campaign_def keeps_basic split: option.splits)

lemma keeps_text: "keeps P m \<Longrightarrow> keeps P (textM m)"
  unfolding textM_def by (intro keeps_bind keeps_basic)

lemma keeps_dispatch: "keeps (\<lambda>s. good v (k_db s)) (dispatch w req)"
  unfolding dispatch_def Let_def
  by (intro keeps_bind keeps_if keeps_basic keeps_with_campaign keeps_text keeps_classify keeps_exclude_kernels
      keeps_exclude_toolchains keeps_schedule keeps_plan keeps_queue_replan keeps_build_once keeps_retry_derivation
      keeps_set_mode keeps_retry)
    (auto split: json.splits intro: keeps_cancel keeps_basic)

lemma serve_outcome: "snd (serve_request w raw s) = s \<or> (\<exists>req. snd (serve_request w raw s) = snd (dispatch w req s))"
proof (cases "rt_loads (w_rt w) raw")
  case (Some j)
  show ?thesis
  proof (cases j)
    case (JObj req)
    have "snd (serve_request w raw s) = snd (dispatch w req s)"
      by (simp add: serve_request_def Some JObj split: prod.splits sum.splits option.splits)
    then show ?thesis by blast
  qed (simp_all add: serve_request_def Some)
qed (simp add: serve_request_def)

lemma keeps_serve: "keeps (\<lambda>s. good v (k_db s)) (serve_request w raw)"
  unfolding keeps_def
proof safe
  fix s :: ctl assume "good v (k_db s)"
  then have "good v (k_db (snd (dispatch w req s)))" for req
    using keeps_dispatch by (simp add: keeps_def)
  with \<open>good v (k_db s)\<close> show "good v (k_db (snd (serve_request w raw s)))"
    using serve_outcome [of w raw s] by auto
qed

section \<open>Reachable states\<close>

lemma good_restart: "good v (k_db s) \<Longrightarrow> good v (k_db (restart s))"
  by (auto simp: restart_def intro: good_view [OF same_view_backfill])

lemma good_step: "good v (k_db s) \<Longrightarrow> good v (k_db (ctl_step a s))"
  using keeps_tick keeps_serve good_restart by (cases a) (auto simp: keeps_def)

lemma good_reachable:
  assumes "reachable_from s0 s" and "good v (k_db s0)"
  shows "good v (k_db s)"
  using assms by (induction rule: reachable_from.induct) (auto intro: good_step)

lemma reachable_consistent: "reachable_from s0 s \<Longrightarrow> consistent (k_db s0) \<Longrightarrow> consistent (k_db s)"
  using good_reachable [of s0 s "k_db s0"] by (simp add: good_def)

end
