(* ===== verification/Ownership.thy ===== *)
theory Ownership
  imports Safety
begin

text \<open>
  Ownership of unrealized dependencies: what one intent changes in the database, and that
  admission, rolling or batched, only adds builds whose needs are apart from those of every build
  that is already active, under the observation of the store that it records.
\<close>

section \<open>What an intent changes\<close>

text \<open>The graph that ownership is computed from.\<close>

definition same_graph :: "database \<Rightarrow> database \<Rightarrow> bool" where
  "same_graph db db' \<longleftrightarrow> derivations db' = derivations db \<and> edges db' = edges db"

lemma same_graph_refl [simp]: "same_graph db db"
  by (simp add: same_graph_def)

lemma drv_outputs_same: "same_graph db db' \<Longrightarrow> drv_outputs db' = drv_outputs db"
  by (simp add: same_graph_def drv_outputs_def find_drv_def fun_eq_iff)

lemma needs_same_sub:
  assumes "same_graph db db'"
  shows "needs db ts av \<subseteq> needs db' ts av"
proof
  fix d assume "d \<in> needs db ts av"
  then show "d \<in> needs db' ts av"
  proof (induction rule: needs.induct)
    case (needs_target t)
    then show ?case using drv_outputs_same [OF assms]
      by (intro needs.needs_target) (simp_all add: satisfied_def)
  next
    case (needs_input d item)
    then show ?case using drv_outputs_same [OF assms] assms
      by (intro needs.needs_input [of d]) (simp_all add: satisfied_def edge_items_def same_graph_def)
  qed
qed

lemma needed_same: "same_graph db db' \<Longrightarrow> needed db' ts av = needed db ts av"
  using needs_same_sub [of db db'] needs_same_sub [of db' db]
  by (simp add: needed_eq_needs same_graph_def subset_antisym)

lemma graph_paths_same: "same_graph db db' \<Longrightarrow> graph_paths db' D = graph_paths db D"
  by (simp add: graph_paths_def drv_outputs_same)

lemma same_graph_intent:
  assumes "record_intent now cp a db = Inr db'"
  shows "attempts db' = attempts db @ [a]" and "same_graph db db'"
  using assms by (auto simp: record_intent_def insert_attempt_def bindr_eq_Inr event_def claim_targets_def
      update_candidates_def same_graph_def Let_def split: if_splits akind.splits)

definition intended :: "world \<Rightarrow> ctl \<Rightarrow> campaign \<Rightarrow> akind \<Rightarrow> target list \<Rightarrow> intent_extra \<Rightarrow> string \<Rightarrow> ctl \<Rightarrow> bool" where
  "intended w s cp kind targets x aid s' \<longleftrightarrow> (\<exists>pol x'.
     (case kind of Build \<Rightarrow> intent_build w s cp (build_roots targets) x | Plan \<Rightarrow> Inr (cp_policy cp, intent_plan (k_db s) targets x)) = Inr (pol, x')
     \<and> record_intent (w_now w) cp (new_attempt (w_now w) aid cp kind targets (make_spec cp kind targets pol x')) (k_db s) = Inr (k_db s')
     \<and> k_machines s' = k_machines s)"

lemma keeps_unrelated:
  "keeps (\<lambda>s. k_db s = d \<and> k_machines s = m) (next_uuid w)"
  "keeps (\<lambda>s. k_db s = d \<and> k_machines s = m) (make_folder aid spec)"
  by (auto simp: next_uuid_def make_folder_def set_folder_def keeps_wp)

lemma wp_intent:
  "wp (intent w cp kind targets x) (\<lambda>aid s'. intended w s cp kind targets x aid s') (\<lambda>s'. k_db s' = k_db s) s"
proof -
  let ?same = "\<lambda>s'. k_db s' = k_db s \<and> k_machines s' = k_machines s"
  have uuid: "wp (next_uuid w) (\<lambda>_. ?same) ?same s" by (rule keepsD [OF keeps_unrelated(1)]) simp
  have folder: "wp (make_folder aid spec) (\<lambda>_. ?same) ?same s'" if "?same s'" for aid spec s'
    by (rule keepsD [OF keeps_unrelated(2)]) (rule that)
  show ?thesis
  proof (cases "check_active (k_db s) cp kind")
    case act: (Inr u)
    show ?thesis
    proof (cases "case kind of Build \<Rightarrow> intent_build w s cp (build_roots targets) x | Plan \<Rightarrow> Inr (cp_policy cp, intent_plan (k_db s) targets x)")
      case chk: (Inr r)
      obtain pol x' where r: "r = (pol, x')" by (cases r)
      have commit: "wp (transactM (try_dbM (record_intent (w_now w) cp (new_attempt (w_now w) aid cp kind targets (make_spec cp kind targets pol x')))))
          (\<lambda>_ s'. intended w s cp kind targets x aid s') (\<lambda>s'. k_db s' = k_db s) s'" if "?same s'" for aid s'
        by (rule wp_transactM [where I = "\<lambda>d. d = k_db s"])
          (use that chk r in \<open>auto simp: intended_def split: sum.splits\<close>)
      show ?thesis
        unfolding intent_def Let_def wp_bind [where m = "liftM f" for f] wp_lift act sum.case chk r prod.case
        unfolding wp_bind
        by (rule wp_mono [OF uuid], rule wp_mono [OF folder], assumption, rule wp_mono [OF commit], assumption) simp_all
    qed (simp add: intent_def act)
  qed (simp add: intent_def)
qed

lemma wp_build_targets:
  "wp (build_targets w cp targets loc ob)
     (\<lambda>aid s'. \<exists>x. x_observation x = ob \<and> intended w s cp Build (map TBuild targets) x aid s') (\<lambda>s'. k_db s' = k_db s) s"
proof (cases "map_res (recipe_sources (k_db s) cp) targets")
  case (Inr sources)
  show ?thesis
    unfolding build_targets_def wp_bind [where m = "liftM f" for f] wp_bind [where m = "readM f" for f] wp_lift wp_readM Inr sum.case
    by (rule wp_mono [OF wp_intent]) (rule exI, rule conjI [rotated], assumption, simp_all)
qed (simp add: build_targets_def)

section \<open>Exclusive ownership\<close>

abbreviation roots_of :: "attempt \<Rightarrow> string list" where
  "roots_of a \<equiv> build_roots (sp_targets (at_spec a))"

text \<open>Two clients keep out of each other's way under an observation of the store.\<close>

definition apart :: "database \<Rightarrow> string set \<Rightarrow> attempt \<Rightarrow> attempt \<Rightarrow> bool" where
  "apart db av a b \<longleftrightarrow> needed db (roots_of a) av \<inter> needed db (roots_of b) av = {}
     \<and> graph_paths db (needed db (roots_of a) av) \<inter> graph_paths db (needed db (roots_of b) av) = {}"

text \<open>Every active build from position \<open>n\<close> on was admitted apart from all earlier ones, under the
  observation stored in its specification.\<close>

definition exclusive_from :: "nat \<Rightarrow> database \<Rightarrow> bool" where
  "exclusive_from n db \<longleftrightarrow> (let B = active_builds db in \<forall>j < length B. n \<le> j \<longrightarrow>
     (\<exists>av. finite av \<and> sp_admission_available (at_spec (B ! j)) = Some (sorted_list_of_set av)
       \<and> recorded_available db \<subseteq> av \<and> (\<forall>i < j. apart db av (B ! i) (B ! j))))"

lemma exclusive_here: "length (active_builds db) \<le> n \<Longrightarrow> exclusive_from n db"
  by (simp add: exclusive_from_def Let_def)

lemma finite_valid: "valid path_info P = Inr V \<Longrightarrow> finite V"
proof -
  have q: "valid_query path_info ps = Inr V \<Longrightarrow> finite V" for ps V
    by (auto simp: valid_query_def bindr_eq_Inr split: option.splits)
  assume "valid path_info P = Inr V"
  then show ?thesis
    by (auto simp: valid_def Let_def bindr_eq_Inr split: if_splits dest: q map_res_Inr_set)
qed

lemma reservations_finite:
  assumes "reservations path_info before db active observed = Inr (held, available)" and "finite observed"
  shows "finite available"
  using assms by (auto simp: reservations_def Let_def bindr_eq_Inr recorded_available_def dest: finite_valid)

lemma apart_same: "same_graph db db' \<Longrightarrow> apart db' av a b = apart db av a b"
  by (simp add: apart_def needed_same graph_paths_same)

lemma recorded_same: "same_graph db db' \<Longrightarrow> recorded_available db' = recorded_available db"
  by (simp add: same_graph_def recorded_available_def)

lemma attempt_needs_append:
  "attempt_needs db av (as @ bs) = attempt_needs db av as \<union> attempt_needs db av bs"
  by (auto simp: attempt_needs_def)

lemma graph_paths_un: "graph_paths db (A \<union> B) = graph_paths db A \<union> graph_paths db B"
  by (auto simp: graph_paths_def)

text \<open>One admission: what the new attempt needs is apart from everything held.\<close>

lemma intended_exclusive:
  assumes int: "intended w s cp Build (map TBuild targets) x aid s'" and ob: "x_observation x = Some (held, av)"
    and held: "attempt_needs (k_db s) av (active_builds (k_db s)) \<subseteq> held"
    and av: "finite av" "recorded_available (k_db s) \<subseteq> av"
    and ex: "exclusive_from n (k_db s)"
  shows "exclusive_from n (k_db s')" and "same_graph (k_db s) (k_db s')"
    and "\<exists>a. active_builds (k_db s') = active_builds (k_db s) @ [a] \<and> roots_of a = targets"
    and "needed (k_db s) targets av \<inter> held = {}"
proof -
  let ?db = "k_db s" and ?db' = "k_db s'"
  have roots: "build_roots (map TBuild targets) = targets"
    by (induction targets) (simp_all add: build_roots_def List.map_filter_simps)
  from int obtain pol x' where chk: "intent_build w s cp targets x = Inr (pol, x')"
    and rec: "record_intent (w_now w) cp (new_attempt (w_now w) aid cp Build (map TBuild targets)
      (make_spec cp Build (map TBuild targets) pol x')) ?db = Inr ?db'"
    by (auto simp: intended_def roots)
  define a where "a = new_attempt (w_now w) aid cp Build (map TBuild targets) (make_spec cp Build (map TBuild targets) pol x')"
  have own: "check_ownership ?db (k_machines s) (location_of x) targets held av = Inr ()"
    and avx: "x_admission_available x' = Some (sorted_list_of_set av)"
    using intent_buildD(3) [OF chk] ob
    by (auto simp: own_dependencies_def Let_def must_own_def observation_of_def bindr_eq_Inr)
  show sg: "same_graph ?db ?db'" by (rule same_graph_intent(2) [OF rec])
  have B: "active_builds ?db' = active_builds ?db @ [a]"
    using same_graph_intent(1) [OF rec]
    by (simp add: active_builds_def active_attempts_alt a_def is_active_def is_build_def)
  have ra: "roots_of a = targets" by (simp add: a_def roots)
  show "\<exists>a. active_builds ?db' = active_builds ?db @ [a] \<and> roots_of a = targets" using B ra by blast
  have guard: "needed ?db targets av \<inter> held = {}" "graph_paths ?db (needed ?db targets av) \<inter> graph_paths ?db held = {}"
    using own by (auto simp: check_ownership_def Let_def bindr_eq_Inr)
  show "needed ?db targets av \<inter> held = {}" by (rule guard(1))
  have new: "apart ?db av b a" if "b \<in> set (active_builds ?db)" for b
  proof -
    have "needed ?db (roots_of b) av \<subseteq> held" using held that by (auto simp: attempt_needs_def)
    then show ?thesis using guard graph_paths_mono [of _ held ?db] unfolding apart_def ra by blast
  qed
  show "exclusive_from n ?db'"
    unfolding exclusive_from_def Let_def B
  proof (intro allI impI)
    fix j assume j: "j < length (active_builds ?db @ [a])" "n \<le> j"
    show "\<exists>av. finite av \<and> sp_admission_available (at_spec ((active_builds ?db @ [a]) ! j)) = Some (sorted_list_of_set av)
        \<and> recorded_available ?db' \<subseteq> av \<and> (\<forall>i<j. apart ?db' av ((active_builds ?db @ [a]) ! i) ((active_builds ?db @ [a]) ! j))"
    proof (cases "j < length (active_builds ?db)")
      case True
      with ex j show ?thesis
        by (simp add: exclusive_from_def Let_def nth_append apart_same [OF sg] recorded_same [OF sg])
    next
      case False
      with j have last: "j = length (active_builds ?db)" by simp
      have "sp_admission_available (at_spec a) = Some (sorted_list_of_set av)"
        using avx by (simp add: a_def make_spec_def)
      then show ?thesis
        using av new by (intro exI [of _ av]) (simp add: last nth_append apart_same [OF sg] recorded_same [OF sg])
    qed
  qed
qed


section \<open>Admission\<close>

text \<open>The loop invariant of rolling admission.\<close>

definition rolling_inv :: "nat \<Rightarrow> database \<Rightarrow> string set \<Rightarrow> lane \<Rightarrow> ctl \<Rightarrow> bool" where
  "rolling_inv n db av l s \<longleftrightarrow> same_graph db (k_db s) \<and> exclusive_from n (k_db s)
     \<and> attempt_needs (k_db s) av (active_builds (k_db s)) \<subseteq> l_held l"

lemma attempt_needs_same: "same_graph db db' \<Longrightarrow> attempt_needs db' av as = attempt_needs db av as"
  by (simp add: attempt_needs_def needed_same)

lemma same_graph_trans: "same_graph a b \<Longrightarrow> same_graph b c \<Longrightarrow> same_graph a c"
  by (simp add: same_graph_def)

lemma capacity_held: "capacity pol ms l = Inr l' \<Longrightarrow> l_held l' = l_held l"
  by (auto simp: capacity_def bindr_eq_Inr)

lemma wp_roll_one:
  assumes inv: "rolling_inv n db av l s" and av: "finite av" "recorded_available db \<subseteq> av"
  shows "wp (roll_one w cp av drv l) (rolling_inv n db av) (\<lambda>s'. exclusive_from n (k_db s')) s"
proof -
  define need where "need = needed (k_db s) [drv] av"
  have sg: "same_graph db (k_db s)" and ex: "exclusive_from n (k_db s)"
    and held: "attempt_needs (k_db s) av (active_builds (k_db s)) \<subseteq> l_held l"
    using inv by (auto simp: rolling_inv_def)
  have rec: "recorded_available (k_db s) \<subseteq> av" using av(2) recorded_same [OF sg] by simp
  have step: "rolling_inv n db av (l'\<lparr>l_held := l_held l \<union> need\<rparr>) s'"
    if int: "intended w s cp Build (map TBuild [drv]) x aid s'" and ob: "x_observation x = Some (l_held l, av)" for x aid s' and l' :: lane
  proof -
    note I = intended_exclusive [OF int ob held av(1) rec ex]
    obtain a where B: "active_builds (k_db s') = active_builds (k_db s) @ [a]" "roots_of a = [drv]" using I(3) by blast
    have "attempt_needs (k_db s') av (active_builds (k_db s')) \<subseteq> l_held l \<union> need"
      using held by (auto simp: attempt_needs_same [OF I(2)] B attempt_needs_append) (auto simp: attempt_needs_def B need_def)
    then show ?thesis using I(1,2) sg by (auto simp: rolling_inv_def intro: same_graph_trans)
  qed
  have build: "wp (bindM (build_targets w cp [drv] (Some loc) (Some (l_held l, av))) (\<lambda>aid.
      bindM (readM (\<lambda>db. find_attempt db aid)) (\<lambda>row.
      liftM (\<lambda>s'. capacity (cp_policy cp) (k_machines s') (l\<lparr>l_builds := l_builds l @ (case row of None \<Rightarrow> [] | Some a \<Rightarrow> [a]),
        l_held := l_held l \<union> need, l_held_paths := hp, l_admitted := True\<rparr>)))))
      (rolling_inv n db av) (\<lambda>s'. exclusive_from n (k_db s')) s" for loc hp
    unfolding wp_bind
  proof (rule wp_mono [OF wp_build_targets])
    fix aid s'
    assume "\<exists>x. x_observation x = Some (l_held l, av) \<and> intended w s cp Build (map TBuild [drv]) x aid s'"
    then have new: "rolling_inv n db av (l'\<lparr>l_held := l_held l \<union> need\<rparr>) s'" for l' :: lane using step by blast
    have rl: "rolling_inv n db av l2 s'" if "l_held l2 = l_held l \<union> need" for l2
      using new [of l2] that by (simp add: rolling_inv_def)
    have ex': "exclusive_from n (k_db s')" using new by (simp add: rolling_inv_def)
    show "wp (readM (\<lambda>db. find_attempt db aid)) (\<lambda>row. wp (liftM (\<lambda>s'. capacity (cp_policy cp) (k_machines s')
        (l\<lparr>l_builds := l_builds l @ (case row of None \<Rightarrow> [] | Some a \<Rightarrow> [a]), l_held := l_held l \<union> need,
          l_held_paths := hp, l_admitted := True\<rparr>))) (rolling_inv n db av) (\<lambda>s'. exclusive_from n (k_db s')))
      (\<lambda>s'. exclusive_from n (k_db s')) s'"
      by (auto split: sum.splits intro: rl [OF capacity_held [THEN trans]] ex')
  qed (use ex in simp)
  show ?thesis
    unfolding roll_one_def Let_def need_def [symmetric]
    using inv build by (simp add: need_def [symmetric] split: option.splits)
qed

lemma add_graph_attempts:
  assumes "add_graph rt nx g db = Inr db'"
  shows "attempts db' = attempts db"
proof -
  from assms obtain rows where "foldr_res (add_drv rt nx) rows db = Inr db'"
    by (auto simp: add_graph_def bindr_eq_Inr)
  then show ?thesis
    by (rule foldr_res_invariant [where P = "\<lambda>d. attempts d = attempts db"])
      (auto simp: add_drv_def Let_def bindr_eq_Inr record_drv_def)
qed

lemma wp_prepare:
  "wp (prepare_graph w targets roll) (\<lambda>ob s'. finite ob \<and> attempts (k_db s') = attempts (k_db s))
     (\<lambda>s'. attempts (k_db s') = attempts (k_db s)) s"
proof (cases "reservations (w_path_info w) (read_before s) (k_db s) (active_builds (k_db s)) {}")
  case r1: (Inr r)
  obtain held av where r: "r = (held, av)" by (cases r)
  have fav: "finite av" using reservations_finite [OF r1 [unfolded r]] by simp
  show ?thesis
  proof (cases "valid (w_path_info w) (graph_paths (k_db s) (needed (k_db s) targets av))")
    case v1: (Inr more)
    let ?ok = "\<lambda>s'. attempts (k_db s') = attempts (k_db s)"
    have "wp (transactM (try_dbM (add_graph (w_rt w) (w_nx w) data))) (\<lambda>_. ?ok) ?ok s" for data
      by (rule wp_transactM [where I = "\<lambda>d. attempts d = attempts (k_db s)"])
        (auto split: sum.splits dest: add_graph_attempts)
    then have "wp (bindM (transactM (try_dbM (add_graph (w_rt w) (w_nx w) data))) (\<lambda>_.
        bindM (modifyM (\<lambda>s. s\<lparr>k_inspected := k_inspected s @ drvs\<rparr>)) (\<lambda>_.
        bindM (liftM (\<lambda>s. valid (w_path_info w) (graph_paths (k_db s) need))) (\<lambda>extra.
        returnM (av \<union> more \<union> extra))))) (\<lambda>ob s'. finite ob \<and> ?ok s') ?ok s" for data drvs need
      unfolding wp_bind
      by (rule wp_mono) (use fav finite_valid [OF v1] in \<open>auto split: sum.splits dest: finite_valid\<close>)
    then show ?thesis
      unfolding prepare_graph_def Let_def
      using fav finite_valid [OF v1] by (auto simp: r1 r v1 split: sum.splits)
  qed (simp add: prepare_graph_def r1 r)
qed (simp add: prepare_graph_def)

lemma wp_admit_rolling:
  assumes ex: "exclusive_from n (k_db s)" and held: "attempt_needs (k_db s) av (active_builds (k_db s)) \<subseteq> held"
    and av: "finite av" "recorded_available (k_db s) \<subseteq> av"
  shows "wp (admit_rolling w cp builds cands held av) (\<lambda>_ s. exclusive_from n (k_db s)) (\<lambda>s. exclusive_from n (k_db s)) s"
proof -
  have loop: "wp (foldM (roll_one w cp av) cands l) (rolling_inv n (k_db s) av) (\<lambda>s. exclusive_from n (k_db s)) s"
    if "l_held l = held" for l
    by (rule wp_foldM) (use that held ex av in \<open>auto simp: rolling_inv_def [of _ _ _ _ s] intro: wp_roll_one\<close>)
  have "wp (bindM (foldM (roll_one w cp av) cands l) (\<lambda>l'. returnM (l_admitted l', l_builds l')))
      (\<lambda>_ s. exclusive_from n (k_db s)) (\<lambda>s. exclusive_from n (k_db s)) s" if "l_held l = held" for l
    unfolding wp_bind by (rule wp_mono [OF loop [OF that]]) (simp_all add: rolling_inv_def)
  then show ?thesis
    unfolding admit_rolling_def wp_bind [where m = "liftM f" for f] wp_lift
    using ex by (auto split: sum.splits dest!: capacity_held)
qed

lemma wp_admit_batch:
  assumes ex: "exclusive_from n (k_db s)" and held: "attempt_needs (k_db s) av (active_builds (k_db s)) \<subseteq> held"
    and av: "finite av" "recorded_available (k_db s) \<subseteq> av"
  shows "wp (admit_batch w cp builds cands held av) (\<lambda>_ s. exclusive_from n (k_db s)) (\<lambda>s. exclusive_from n (k_db s)) s"
proof -
  have "wp (bindM (build_targets w cp targets None (Some (held, av))) (\<lambda>_. returnM (True, builds)))
      (\<lambda>_ s. exclusive_from n (k_db s)) (\<lambda>s. exclusive_from n (k_db s)) s" for targets
    unfolding wp_bind by (rule wp_mono [OF wp_build_targets]) (use intended_exclusive(1) [OF _ _ held av ex] ex in auto)
  then show ?thesis unfolding admit_batch_def wp_bind [where m = "readM f" for f] wp_readM using ex by auto
qed

text \<open>Admission starts from what the active builds hold under the availability it observed.\<close>

lemma wp_admit_builds:
  assumes n: "n = length (active_builds (k_db s))" and builds: "builds = active_builds (k_db s)"
  shows "wp (admit_builds w cp builds) (\<lambda>_ s'. exclusive_from n (k_db s')) (\<lambda>s'. exclusive_from n (k_db s')) s"
proof -
  let ?E = "\<lambda>s'. exclusive_from n (k_db s')"
  have here: "?E s'" if "attempts (k_db s') = attempts (k_db s)" for s'
    by (rule exclusive_here) (simp add: n active_builds_def active_attempts_alt that)
  have rest: "wp (admit_selected w cp builds cands ob) (\<lambda>_. ?E) ?E s'"
    if fin: "finite ob" and same: "attempts (k_db s') = attempts (k_db s)" for ob cands s'
  proof (cases "reservations (w_path_info w) (read_before s') (k_db s') builds ob")
    case res: (Inr r)
    obtain held av where r: "r = (held, av)" by (cases r)
    note R = res [unfolded r]
    have B: "active_builds (k_db s') = builds" by (simp add: builds active_builds_def active_attempts_alt same)
    have av: "finite av" "recorded_available (k_db s') \<subseteq> av"
      using reservations_finite [OF R fin] reservations_held(3) [OF R] by auto
    have held: "attempt_needs (k_db s') av (active_builds (k_db s')) \<subseteq> held"
      using reservations_held(1) [OF R] B by simp
    have "wp (admit_rolling w cp builds cands held av) (\<lambda>_. ?E) ?E s'"
      by (rule wp_admit_rolling [OF here [OF same] held av])
    moreover have "wp (admit_batch w cp builds cands held av) (\<lambda>_. ?E) ?E s'"
      by (rule wp_admit_batch [OF here [OF same] held av])
    ultimately show ?thesis by (simp add: admit_selected_def R)
  qed (simp add: admit_selected_def here [OF same])
  show ?thesis
    unfolding admit_builds_def Let_def wp_bind wp_readM
    by (rule wp_mono [OF wp_prepare]) (auto intro: rest here)
qed

end
