(* ===== verification/Samples.thy ===== *)
theory Samples
  imports Commands
begin

text \<open>
  A small concrete system on which the theorems are instantiated: one running campaign with a
  planned and an unplanned candidate, a store in which nothing is valid, and an operating system
  in which every call succeeds.
\<close>

definition sample_policy :: policy where
  "sample_policy = DEFAULT_POLICY\<lparr>p_cpus := ''0-3'', p_slice := ''/sys/fs/cgroup/f'', p_plan_ahead := Some 2, p_build_lanes := Some 2\<rparr>"

definition sample_campaign :: campaign where
  "sample_campaign = \<lparr>cp_id = ''c1'', cp_name = ''sample'', cp_created = 1, cp_mode = Running_mode, cp_manifest = JNull,
     cp_source = ''src'', cp_revision = ''rev'', cp_policy = sample_policy, cp_nix_version = ''2'', cp_hold = [], cp_heartbeat = None\<rparr>"

definition sample_candidate :: "int \<Rightarrow> cstate \<Rightarrow> string option \<Rightarrow> candidate" where
  "sample_candidate i st d = \<lparr>c_id = i, c_campaign = ''c1'', c_attr = JArr [JStr ''a''], c_label = ''a'', c_selection = JObj [],
     c_state = st, c_drv = d, c_recipe = None, c_error = None\<rparr>"

definition sample_edge :: edge where
  "sample_edge = \<lparr>e_parent = ''d1'', e_child = ''d2'', e_outputs = ReqList [''out'']\<rparr>"

definition sample_db :: database where
  "sample_db = empty_db\<lparr>campaigns := [sample_campaign],
     candidates := [sample_candidate 1 Queued (Some ''d1''), sample_candidate 2 Unplanned None],
     derivations := [new_derivation ''d1'' ''n1'' [(''out'', Some ''o1'')], new_derivation ''d2'' ''n2'' [(''out'', Some ''o2'')]],
     edges := [sample_edge]\<rparr>"

definition sample_state :: "database \<Rightarrow> ctl" where
  "sample_state d = \<lparr>k_db = d, k_folders = [], k_machines = [], k_machines_observed = 0, k_inspected = [], k_roots = [],
     k_uuids = 0, k_units = []\<rparr>"

definition pause_request :: string where
  "pause_request = ''pause''"

definition sample_runtime :: runtime where
  "sample_runtime = \<lparr>rt_loads = (\<lambda>s. if s = pause_request then Some (JObj [(''op'', JStr ''pause''), (''campaign'', JStr ''c1'')]) else None),
     rt_str = (\<lambda>_. ''?''), rt_float = (\<lambda>_. ''0.5''), rt_sha256 = (\<lambda>s. s)\<rparr>"

definition sample_world :: world where
  "sample_world = \<lparr>w_now = 100, w_uuid = (\<lambda>n. ''u'' @ decimal n), w_rt = sample_runtime,
     w_nx = \<lparr>nx_is_file = (\<lambda>_. False), nx_store_outputs = (\<lambda>_. None)\<rparr>,
     w_path_info = (\<lambda>ps. Some (JObj (map (\<lambda>p. (p, JNull)) ps))), w_show = (\<lambda>_. Inr (JObj [])), w_config = Inr ([], ''x''),
     w_read_text = (\<lambda>_. Inr []), w_exists = (\<lambda>_. False), w_start = (\<lambda>_. Inr ()), w_stop = (\<lambda>_. Inr ()),
     w_unit_state = (\<lambda>_. Inr ''active''), w_slice = Inr \<lparr>so_memory = 1, so_maximum = 1, so_high = 10, so_cpus = ''0-3'',
       so_total = 100, so_daemon = ''/f/x'', so_events = ''''\<rparr>, w_free = 10 ^ 12, w_log_bytes = 0\<rparr>"

end
