(* ===== verification/Scenario.thy ===== *)
theory Scenario
  imports Ownership Samples
begin

text \<open>
  A run of the sample system: its states are computed from the definitions, and the theorems
  about reachable states are instantiated on it.
\<close>

text \<open>Two ticks and a command: the first tick admits a build and a plan, the second finds both
  units alive, and the campaign is then paused.\<close>

definition ticked :: ctl where
  "ticked = ctl_step (Tick sample_world) (sample_state sample_db)"

definition sample_run :: ctl where
  "sample_run = ctl_step (Command sample_world pause_request) (ctl_step (Tick sample_world) ticked)"

lemma sample_reachable: "reachable_from (sample_state sample_db) sample_run"
  unfolding sample_run_def ticked_def by (intro reachable_from.intros)

lemma sample_consistent: "consistent (k_db (sample_state sample_db))"
  by (simp add: consistent_def sample_state_def sample_db_def empty_db_def attempts_ok_def candidates_ok_def unique_keys_def
      one_campaign_def one_planner_def positive_limits_def within_budget_def active_builds_def active_attempts_def
      local_builds_def candidate_ok_def sample_candidate_def)

lemma ticked_attempts:
  "map (\<lambda>a. (at_id a, at_kind a, at_state a)) (attempts (k_db ticked)) = [(''u0'', Build, Intended), (''u1'', Plan, Intended)]"
  by code_simp

lemma ticked_length [simp]: "length (attempts (k_db ticked)) = 2"
  using arg_cong [OF ticked_attempts, of length] by simp

lemma ticked_reachable: "reachable_from ticked sample_run"
  unfolding sample_run_def by (intro reachable_from.intros)

lemma ticked_consistent: "consistent (k_db ticked)"
  by (rule reachable_consistent [OF _ sample_consistent]) (unfold ticked_def, intro reachable_from.intros)

lemma sample_run_rows:
  "(map (\<lambda>a. (is_active a, at_campaign a, at_kind a)) (attempts (k_db sample_run)), map (\<lambda>c. (c_state c, c_drv c)) (candidates (k_db sample_run)), 
    map (\<lambda>c. (cp_id c, cp_mode c, p_cpus (cp_policy c))) (campaigns (k_db sample_run)))
     = ([(True, ''c1'', Build), (True, ''c1'', Plan)], [(Running, Some ''d1''), (Unplanned, None)], [(''c1'', Paused, ''0-3'')])"
  by code_simp

lemma sample_run_active: "length (active_attempts (k_db sample_run)) = 2"
  using sample_run_rows by (auto simp: active_attempts_alt map_eq_Cons_conv)

lemma sample_run_campaign: "hd (campaigns (k_db sample_run)) \<in> set (campaigns (k_db sample_run))"
  using sample_run_rows by (auto simp: map_eq_Cons_conv)

lemma sample_run_build: "cpu_set (p_cpus (cp_policy (hd (campaigns (k_db sample_run))))) = Inr {0..3}"
  "hd (attempts (k_db sample_run)) \<in> set (active_builds (k_db sample_run))"
  "at_campaign (hd (attempts (k_db sample_run))) = cp_id (hd (campaigns (k_db sample_run)))"
proof -
  have "cpu_set ''0-3'' = Inr {0..3}" by code_simp
  then show "cpu_set (p_cpus (cp_policy (hd (campaigns (k_db sample_run))))) = Inr {0..3}"
    using sample_run_rows by (auto simp: map_eq_Cons_conv)
qed (use sample_run_rows in \<open>auto simp: active_builds_def active_attempts_alt is_build_def map_eq_Cons_conv\<close>)

lemma sample_run_candidate: "hd (candidates (k_db sample_run)) \<in> set (candidates (k_db sample_run))"
  using sample_run_rows by (auto simp: map_eq_Cons_conv)

lemma sample_run_candidate_facts: "c_state (hd (candidates (k_db sample_run))) = Running" "c_drv (hd (candidates (k_db sample_run))) = Some ''d1''"
  using sample_run_rows by (auto simp: map_eq_Cons_conv)

end
