(* ===== verification/GraphGuarantees.thy ===== *)
theory GraphGuarantees
  imports Samples
begin

text \<open>
  What the derivation graph operations of \<^verbatim>\<open>model.py\<close>, \<^verbatim>\<open>scheduling.py\<close> and \<^verbatim>\<open>nix.py\<close> promise: the
  states of candidates follow from recorded facts, explanations are shortest and complete, the
  needs of a client are the least set the walk must hold, and recording a graph only adds.
\<close>

section \<open>Candidate states\<close>

text \<open>The specification of a refreshed state: facts about the candidate's own derivation first,
  then what its dependencies imply.\<close>

definition dependency_state :: "database \<Rightarrow> string \<Rightarrow> cstate" where
  "dependency_state db x =
     (let own = (\<lambda>P. \<exists>d \<in> set (derivations db). d_drv d = x \<and> P d);
          dep = (\<lambda>P. \<exists>d \<in> set (derivations db). P d \<and> d_drv d \<in> depends db x) in
      if own (\<lambda>d. d_exclusion d \<noteq> None) then Excluded
      else if own d_available then Available
      else if own (\<lambda>d. d_failure d \<noteq> None) then Failed
      else if dep (\<lambda>d. d_exclusion d \<noteq> None) then Excluded
      else if dep (\<lambda>d. d_failure d \<noteq> None) then Blocked
      else Queued)"

lemma refresh_row_dependency:
  assumes "c_campaign c = cid" and "c_drv c = Some x" and "c_state c \<notin> {Running, Inconclusive, Excluded}"
  shows "c_state (refresh_row cid db c) = dependency_state db x"
proof -
  have u: "undecided c" using assms by (simp add: undecided_def)
  have bad: "(\<exists>d \<in> set (derivations db). d_failure d \<noteq> None \<and> d_drv d \<in> depends db x) \<longleftrightarrow> drv_in (Some x) (bad_drvs db)"
    if "\<not> drv_in (Some x) (outside_drvs db)"
    using that unfolding drv_in_bad drv_in_outside by blast
  show ?thesis
    unfolding refresh_row_state [OF assms(1) u] assms(2) dependency_state_def Let_def has_drv_iff [symmetric] drv_in_outside [symmetric]
    using bad by (simp cong: if_cong)
qed



text \<open>C13. The blocker search terminates with exactly the dependencies that have a recorded problem,
  each once, each with its problem and a chain of edges to it that no other chain undercuts.\<close>

theorem blockers_exact:
  "b_drv ` set (blockers db drv) = {x \<in> depends db drv. \<exists>p. problem db x = Some p \<and> p \<noteq> []}
   \<and> distinct (map b_drv (blockers db drv))
   \<and> (\<forall>b \<in> set (blockers db drv). chain_to (edge_pairs (edges db)) drv (b_drv b) (b_chain b)
        \<and> (\<forall>ch. chain_to (edge_pairs (edges db)) drv (b_drv b) ch \<longrightarrow> length (b_chain b) \<le> length ch)
        \<and> problem db (b_drv b) = Some (b_failure b))"
  using blockers_complete blockers_distinct blockers_sound by blast

theorem blockers_exact_witness:
  "blockers (sample_db\<lparr>derivations := [(new_derivation ''d2'' ''n2'' [])\<lparr>d_failure := Some ''check''\<rparr>]\<rparr>) ''d1''
     = [\<lparr>b_drv = ''d2'', b_failure = ''check'', b_chain = [''d1'', ''d2'']\<rparr>]
   \<and> distinct (map b_drv (blockers sample_db ''d1''))"
proof
  show "blockers (sample_db\<lparr>derivations := [(new_derivation ''d2'' ''n2'' [])\<lparr>d_failure := Some ''check''\<rparr>]\<rparr>) ''d1''
     = [\<lparr>b_drv = ''d2'', b_failure = ''check'', b_chain = [''d1'', ''d2'']\<rparr>]" by code_simp
qed (use blockers_exact [of sample_db "''d1''"] in blast)

section \<open>Needs and reservations\<close>

text \<open>C14. The worklist loop computes the least set that holds every root with a missing output and
  every input, of a derivation in it, with a missing required output; a satisfied walk stops, and a
  larger observed store never enlarges it.\<close>

theorem needed_least:
  "needed db targets av = \<Inter> {N. (\<forall>t \<in> set targets. \<not> satisfied db av (t, map fst (drv_outputs db t)) \<longrightarrow> t \<in> N)
      \<and> (\<forall>d \<in> N. \<forall>item \<in> set (edge_items db d). \<not> satisfied db av item \<longrightarrow> fst item \<in> N)}
   \<and> (av \<subseteq> av' \<longrightarrow> needed db targets av' \<subseteq> needed db targets av)
   \<and> needed db targets av \<subseteq> (\<Union>t \<in> set targets. depends db t)"
proof (intro conjI impI)
  let ?closed = "\<lambda>N. (\<forall>t \<in> set targets. \<not> satisfied db av (t, map fst (drv_outputs db t)) \<longrightarrow> t \<in> N)
      \<and> (\<forall>d \<in> N. \<forall>item \<in> set (edge_items db d). \<not> satisfied db av item \<longrightarrow> fst item \<in> N)"
  have least: "d \<in> N" if "d \<in> needs db targets av" and "?closed N" for d N
    using that by (induction rule: needs.induct) auto
  have "?closed (needs db targets av)" by (auto intro: needs.intros)
  with least show "needed db targets av = \<Inter> {N. ?closed N}" unfolding needed_eq_needs by blast
  show "needed db targets av \<subseteq> (\<Union>t \<in> set targets. depends db t)"
    using needs_depends by (fastforce simp: needed_eq_needs)
  show "needed db targets av' \<subseteq> needed db targets av" if "av \<subseteq> av'"
    using needs_antimono [OF that] by (simp add: needed_eq_needs)
qed

theorem needed_least_witness:
  "needed sample_db [''d1''] {''o2''} \<subseteq> needed sample_db [''d1''] {} \<and> needed sample_db [''d1''] {''o2''} = {''d1''}
   \<and> needed sample_db [''d1''] {} = {''d1'', ''d2''}"
proof (intro conjI)
  show "needed sample_db [''d1''] {''o2''} \<subseteq> needed sample_db [''d1''] {}" using needed_least [of sample_db "[''d1'']" "{}" "{''o2''}"] by blast
  show "needed sample_db [''d1''] {''o2''} = {''d1''}" by code_simp
  show "needed sample_db [''d1''] {} = {''d1'', ''d2''}" by code_simp
qed

text \<open>An admitted client fits: with the immutable limits of the active local clients it stays
  within the CPU set and gets at least one job and one core, a rolling local client also stays
  within the job limit, and a rolling remote client only starts when a remote slot is free.\<close>

theorem build_policy_fits:
  assumes "build_policy pol active location machines = Inr (Some eff)" and "cpu_set (p_cpus pol) = Inr cpus"
  shows "if rolling pol \<and> location = ''remote''
     then p_max_jobs eff = 0 \<and> int (length (filter is_remote active)) < sum_list (map mc_max_jobs machines)
     else 1 \<le> p_max_jobs eff \<and> 1 \<le> p_cores eff
        \<and> p_max_jobs eff * p_cores eff + cpu_load (local_builds active) \<le> int (card cpus)
        \<and> p_cores eff \<le> p_cores pol
        \<and> (rolling pol \<longrightarrow> p_max_jobs eff + job_load (local_builds active) \<le> p_max_jobs pol)"
proof (cases "rolling pol \<and> location = ''remote''")
  case True
  then have "build_policy pol active ''remote'' machines = Inr (Some eff)" using assms(1) by simp
  from build_policy_remote [OF this] True show ?thesis by simp
next
  case False
  note budget = build_policy_budget [OF assms(1) False assms(2)]
  obtain cs :: "int set" where r: "reserve pol (int (card cs)) (if rolling pol then local_builds active else active) = Some eff"
    by (rule build_policy_local [OF assms(1) False]) (rule that)
  from reserve_budget(4,5) [OF r] have "p_cores eff \<le> p_cores pol"
    and "rolling pol \<Longrightarrow> p_max_jobs eff + job_load (local_builds active) \<le> p_max_jobs pol" by auto
  then show ?thesis unfolding if_not_P [OF False] using budget by blast
qed

theorem build_policy_fits_witness:
  "\<exists>eff. build_policy sample_policy [] ''local'' [] = Inr (Some eff) \<and> 1 \<le> p_max_jobs eff \<and> p_max_jobs eff * p_cores eff \<le> 4"
proof -
  let ?eff = "sample_policy\<lparr>p_max_jobs := 1, p_cores := 4\<rparr>"
  have run: "build_policy sample_policy [] ''local'' [] = Inr (Some ?eff)" by code_simp
  have cpus: "cpu_set (p_cpus sample_policy) = Inr {0..3}" by code_simp
  have "\<not> rolling sample_policy" by code_simp
  then have "1 \<le> p_max_jobs ?eff \<and> p_max_jobs ?eff * p_cores ?eff \<le> 4"
    using build_policy_fits [OF run cpus] by (simp add: local_builds_def)
  with run show ?thesis by blast
qed

section \<open>The store and the graph\<close>

text \<open>When \<^verbatim>\<open>nix path-info\<close> answers as documented, the batched validity query returns exactly the
  valid paths among those asked for, however many there are.\<close>

theorem valid_is_exact:
  assumes "answers_for V path_info" and "finite P"
  shows "valid path_info P = Inr (P \<inter> V)"
  using assms by (rule valid_exact)

definition sample_path_info :: "string list \<Rightarrow> json option" where
  "sample_path_info ps = Some (JObj (map (\<lambda>p. (p, if p = ''o2'' then JObj [] else JNull)) ps))"

theorem valid_is_exact_witness: "valid sample_path_info {''o1'', ''o2''} = Inr {''o2''}"
proof -
  have "answers_for {''o2''} sample_path_info"
    by (auto simp: answers_for_def sample_path_info_def comp_def)
  then show ?thesis using valid_is_exact [of "{''o2''}" sample_path_info "{''o1'', ''o2''}"] by simp
qed

text \<open>Recording a graph that Nix printed never loses knowledge: every row keeps its observed
  facts, its exclusion, its metadata and its known outputs, every edge stays, other tables are
  untouched, and each node of the graph ends with a row and an edge to each of its inputs.\<close>

theorem add_graph_adds:
  assumes "add_graph rt nx data db = Inr db'" and "unique_keys d_drv (derivations db)"
  shows "graph_grows db db' \<and> unique_keys d_drv (derivations db')
     \<and> (\<forall>rows row. normalize_graph data = Inr rows \<and> row \<in> set rows \<longrightarrow> node_recorded row db')"
  using add_graph_grows [OF assms] add_graph_complete [OF assms] by blast

definition sample_drv_path :: string where
  "sample_drv_path = ''/nix/store/'' @ replicate 32 CHR ''a'' @ ''-x.drv''"

definition sample_graph :: json where
  "sample_graph = JObj [(sample_drv_path, JObj [(''outputs'', JObj [(''out'', JObj [(''path'', JStr ''o3'')])]), (''inputDrvs'', JObj [])])]"

theorem add_graph_adds_witness:
  "\<exists>db'. add_graph sample_runtime (w_nx sample_world) sample_graph sample_db = Inr db' \<and> graph_grows sample_db db'
     \<and> sample_drv_path \<in> d_drv ` set (derivations db')"
proof -
  obtain db' where db': "add_graph sample_runtime (w_nx sample_world) sample_graph sample_db = Inr db'"
    "sample_drv_path \<in> d_drv ` set (derivations db')"
  proof -
    have "case add_graph sample_runtime (w_nx sample_world) sample_graph sample_db of
        Inl _ \<Rightarrow> False | Inr db' \<Rightarrow> sample_drv_path \<in> d_drv ` set (derivations db')" by code_simp
    then show thesis by (auto split: sum.splits intro: that)
  qed
  moreover have "unique_keys d_drv (derivations sample_db)" by (simp add: unique_keys_def sample_db_def)
  ultimately show ?thesis using add_graph_adds by blast
qed

end
