(* ===== verification/AttemptWorker.thy ===== *)
theory AttemptWorker
  imports Controller
begin

text \<open>
  The worker that executes one attempt (\<^verbatim>\<open>experiment/attempt.py\<close>): it owns the files of the attempt
  folder, runs at most once, evaluates or builds, and always leaves an exit record unless it is killed.
  Subprocesses, clocks and the kernel are observations: the evaluator's answers for a plan, and
  for a build the turns of its event loop (what the clock, \<^verbatim>\<open>select\<close> and signal delivery gave
  in each turn). Exceptions other than those the code names are values too, since \<^verbatim>\<open>run\<close> catches
  every one of them.
\<close>

type_synonym 'a file_op = "(folder, 'a) op"

section \<open>Planning\<close>

text \<open>What the evaluator and \<^verbatim>\<open>nix derivation show\<close> answer; \<^verbatim>\<open>SubprocessError\<close> is an \<open>OSError\<close> here.\<close>

record eval_run =
  er_code :: int
  er_stdout :: string
  er_stderr :: string

record plan_world =
  pw_rt :: runtime
  pw_planner :: string
  pw_decode :: "string \<Rightarrow> string"
  pw_eval :: "string \<Rightarrow> eval_run result"
  pw_graph :: "string \<Rightarrow> json result"

definition last_chars :: "nat \<Rightarrow> string \<Rightarrow> string" where
  "last_chars n s = drop (length s - n) s"

definition error_text :: "py_error \<Rightarrow> string" where
  "error_text e = (case e of ValueError m \<Rightarrow> m | KeyError k \<Rightarrow> [CHR 0x27] @ k @ [CHR 0x27] | TypeError m \<Rightarrow> m
     | AttributeError m \<Rightarrow> m | OSError m \<Rightarrow> m | IntegrityError m \<Rightarrow> m
     | OverflowError m \<Rightarrow> m | RuntimeError m \<Rightarrow> m | HTTPException n m \<Rightarrow> encode_int n @ '': '' @ m)"

text \<open>The exceptions that planning one target catches.\<close>

fun plan_catches :: "py_error \<Rightarrow> bool" where
  "plan_catches (ValueError _) = True"
| "plan_catches (OSError _) = True"
| "plan_catches _ = False"

definition graph_file :: "int \<Rightarrow> string" where
  "graph_file i = ''graph-'' @ encode_int i @ ''.json.gz''"

definition append_log :: "string \<Rightarrow> unit file_op" where
  "append_log data = modifyM (\<lambda>f. f\<lparr>f_log := Some ((case f_log f of None \<Rightarrow> [] | Some l \<Rightarrow> l) @ data)\<rparr>)"

text \<open>\<^verbatim>\<open>s.replace("${", "\${")\<close>, and the value as a Nix string literal that holds its JSON text.\<close>

fun escape_dollar :: "string \<Rightarrow> string" where
  "escape_dollar [] = []"
| "escape_dollar [c] = [c]"
| "escape_dollar (c # d # s) =
     (if c = CHR ''$'' \<and> d = CHR 0x7B then [CHR 0x5C, CHR ''$'', CHR 0x7B] @ escape_dollar s
      else c # escape_dollar (d # s))"

definition nix_literal :: "(rat \<Rightarrow> string) \<Rightarrow> json \<Rightarrow> string" where
  "nix_literal fl v = escape_dollar (encode fl (JStr (encode fl v)))"

definition planner_expr :: "plan_world \<Rightarrow> string \<Rightarrow> json \<Rightarrow> string" where
  "planner_expr w source attr =
     ''import '' @ pw_planner w @ '' { source = builtins.fromJSON '' @ nix_literal (rt_float (pw_rt w)) (JStr source)
       @ ''; attrPath = builtins.fromJSON '' @ nix_literal (rt_float (pw_rt w)) attr @ ''; }''"

text \<open>Evaluation of one target: the recipe it printed and the graph file written for it.\<close>

definition plan_recipe :: "plan_world \<Rightarrow> string \<Rightarrow> int \<Rightarrow> json \<Rightarrow> (json \<times> string) file_op" where
  "plan_recipe w source i attr =
     bindM (liftM (\<lambda>_. pw_eval w (planner_expr w source attr))) (\<lambda>r.
     bindM (append_log (take (1024 * 1024) (er_stderr r))) (\<lambda>_.
     if er_code r \<noteq> 0 then raiseM (ValueError (last_chars 8000 (pw_decode w (er_stderr r))))
     else
     bindM (liftM (\<lambda>_. case rt_loads (pw_rt w) (er_stdout r) of None \<Rightarrow> Inl (ValueError ''Expecting value'') | Some j \<Rightarrow> Inr j)) (\<lambda>recipe.
     bindM (liftM (\<lambda>_. bindr (jindex ''drv'' recipe) jstring)) (\<lambda>drv.
     bindM (liftM (\<lambda>_. pw_graph w drv)) (\<lambda>g.
     bindM (liftM (\<lambda>_. normalize_graph g)) (\<lambda>_.
     bindM (modifyM (\<lambda>f. f\<lparr>f_graphs := dict_set (graph_file i) g (f_graphs f)\<rparr>)) (\<lambda>_.
     returnM (recipe, graph_file i))))))))"

text \<open>\<^verbatim>\<open>try .. except\<close>: what was done before the exception stays done.\<close>

definition caughtM :: "'a file_op \<Rightarrow> (py_error \<Rightarrow> bool) \<Rightarrow> (py_error \<Rightarrow> 'a file_op) \<Rightarrow> 'a file_op" where
  "caughtM m p h = (\<lambda>s. case m s of (Inl e, s') \<Rightarrow> if p e then h e s' else (Inl e, s') | r \<Rightarrow> r)"

definition plan_row_of :: "plan_world \<Rightarrow> string \<Rightarrow> int \<Rightarrow> json \<Rightarrow> json file_op" where
  "plan_row_of w source i attr = caughtM
     (bindM (plan_recipe w source i attr) (\<lambda>(recipe, g). returnM (JObj [(''id'', JInt i), (''recipe'', recipe), (''graph'', JStr g)])))
     plan_catches (\<lambda>e. returnM (JObj [(''id'', JInt i), (''error'', JStr (last_chars 8000 (error_text e)))]))"

definition write_row :: "plan_world \<Rightarrow> json \<Rightarrow> unit file_op" where
  "write_row w row = modifyM (\<lambda>f. f\<lparr>f_plan := Some ((case f_plan f of None \<Rightarrow> [] | Some p \<Rightarrow> p) @ encode (rt_float (pw_rt w)) row @ [NL])\<rparr>)"

definition plan_target :: "plan_world \<Rightarrow> string \<Rightarrow> target \<Rightarrow> unit file_op" where
  "plan_target w source t = (case t of TPlan i attr \<Rightarrow> bindM (plan_row_of w source i attr) (write_row w) | TBuild _ \<Rightarrow> raiseM (TypeError ''indices''))"

definition plain_result :: "int option \<Rightarrow> string \<Rightarrow> string option \<Rightarrow> attempt_result" where
  "plain_result code reason err = \<lparr>re_reason = reason, re_exit_code = code, re_finished = 0, re_truncated = False,
     re_error = err, re_worker_reason = None, re_build_outcomes = None, re_build_outcomes_source = None\<rparr>"

definition worker_plan :: "plan_world \<Rightarrow> attempt_spec \<Rightarrow> attempt_result file_op" where
  "worker_plan w spec =
     bindM (modifyM (\<lambda>f. f\<lparr>f_plan := Some [], f_log := Some (case f_log f of None \<Rightarrow> [] | Some l \<Rightarrow> l)\<rparr>)) (\<lambda>_.
     bindM (foreachM (plan_target w (sp_source spec)) (sp_targets spec)) (\<lambda>_.
     returnM (plain_result (Some 0) ''completed'' None)))"

section \<open>The build loop\<close>

definition SILENCE_GRACE :: rat where
  "SILENCE_GRACE = 300"

datatype unix_signal = SIGINT | SIGKILL

text \<open>One thing that happens in a turn of the loop: bytes (or, when empty, the end) of a stream, or
  the delivery of \<^verbatim>\<open>SIGTERM\<close>.\<close>

datatype io_event = Out_bytes string | Err_bytes string | Sigterm

record loop_turn =
  lt_alive :: bool
  lt_now :: rat
  lt_stamp :: timestamp
  lt_exited :: bool
  lt_events :: "io_event list"

record build_state =
  bs_start :: rat
  bs_last :: rat
  bs_reason :: "string option"
  bs_signalled :: "rat option"
  bs_written :: int
  bs_out :: string
  bs_err :: string
  bs_out_open :: bool
  bs_err_open :: bool
  bs_filter :: log_filter
  bs_times :: times_state
  bs_kills :: "unix_signal list"

definition start_build :: "rat \<Rightarrow> build_state" where
  "start_build now = \<lparr>bs_start = now, bs_last = now, bs_reason = None, bs_signalled = None, bs_written = 0, bs_out = [],
     bs_err = [], bs_out_open = True, bs_err_open = True, bs_filter = new_filter, bs_times = new_times, bs_kills = []\<rparr>"

text \<open>\<^verbatim>\<open>not signalled\<close>: Python treats a monotonic time of zero like no time.\<close>

definition unsignalled :: "build_state \<Rightarrow> bool" where
  "unsignalled st \<longleftrightarrow> bs_signalled st = None \<or> bs_signalled st = Some 0"

definition stop_build :: "rat \<Rightarrow> string \<Rightarrow> build_state \<Rightarrow> build_state" where
  "stop_build now why st =
     (if bs_signalled st = None then st\<lparr>bs_reason := Some why, bs_signalled := Some now, bs_kills := bs_kills st @ [SIGINT]\<rparr> else st)"

text \<open>\<^verbatim>\<open>stop(SIGINT)\<close> followed by the loop's own reason.\<close>

definition interrupt_build :: "rat \<Rightarrow> string \<Rightarrow> build_state \<Rightarrow> build_state" where
  "interrupt_build now why st = (stop_build now ''interrupted'' st)\<lparr>bs_reason := Some why\<rparr>"

definition watchdog :: "policy \<Rightarrow> loop_turn \<Rightarrow> build_state \<Rightarrow> build_state" where
  "watchdog pol t st =
     (let st1 = (if unsignalled st \<and> (lt_now t - bs_start st > of_int (p_wall_seconds pol)
                      \<or> lt_now t - bs_last st > of_int (p_silent_seconds pol) + SILENCE_GRACE)
                 then interrupt_build (lt_now t) ''timeout'' st else st)
      in if \<not> unsignalled st1 \<and> lt_now t - the (bs_signalled st1) > 15 \<and> \<not> lt_exited t
         then st1\<lparr>bs_kills := bs_kills st1 @ [SIGKILL]\<rparr> else st1)"

text \<open>The bytes that a read adds to its log within the byte budget of the attempt.\<close>

definition write_bytes :: "runtime \<Rightarrow> policy \<Rightarrow> loop_turn \<Rightarrow> bool \<Rightarrow> string \<Rightarrow> build_state \<Rightarrow> build_state" where
  "write_bytes rt pol t is_err data st =
     (let remaining = nat (max 0 (p_log_bytes pol - bs_written st)); part = take remaining data;
          st1 = (if is_err then st\<lparr>bs_err := bs_err st @ part, bs_times := times_feed rt (lt_stamp t) part (bs_times st)\<rparr>
                 else st\<lparr>bs_out := bs_out st @ part\<rparr>);
          st2 = st1\<lparr>bs_written := bs_written st + int (min (length data) remaining)\<rparr>
      in if length data > remaining \<and> unsignalled st2 then interrupt_build (lt_now t) ''log-limit'' st2 else st2)"

fun handle_io :: "runtime \<Rightarrow> policy \<Rightarrow> loop_turn \<Rightarrow> io_event \<Rightarrow> build_state \<Rightarrow> build_state" where
  "handle_io rt pol t Sigterm st = stop_build (lt_now t) ''cancelled'' st"
| "handle_io rt pol t (Out_bytes data) st =
     (if \<not> bs_out_open st then st
      else if data = [] then write_bytes rt pol t False [] (st\<lparr>bs_out_open := False\<rparr>)
      else write_bytes rt pol t False data (st\<lparr>bs_last := lt_now t\<rparr>))"
| "handle_io rt pol t (Err_bytes data) st =
     (if \<not> bs_err_open st then st
      else if data = [] then
        (let (f, rest) = filter_finish (bs_filter st)
         in write_bytes rt pol t True rest (st\<lparr>bs_err_open := False, bs_filter := f\<rparr>))
      else
        (let (f, kept) = filter_feed rt data (bs_filter st)
         in write_bytes rt pol t True kept (st\<lparr>bs_last := lt_now t, bs_filter := f\<rparr>)))"

definition build_turn :: "runtime \<Rightarrow> policy \<Rightarrow> loop_turn \<Rightarrow> build_state \<Rightarrow> build_state" where
  "build_turn rt pol t st = fold (handle_io rt pol t) (lt_events t) (watchdog pol t st)"

text \<open>\<^verbatim>\<open>while selector.get_map() or proc.poll() is None\<close>. The flag says whether the loop ended;
  otherwise the observed turns ran out while it still runs.\<close>

fun build_loop :: "runtime \<Rightarrow> policy \<Rightarrow> loop_turn list \<Rightarrow> build_state \<Rightarrow> bool \<times> build_state" where
  "build_loop rt pol [] st = (False, st)"
| "build_loop rt pol (t # ts) st =
     (if bs_out_open st \<or> bs_err_open st \<or> lt_alive t then build_loop rt pol ts (build_turn rt pol t st)
      else (True, st))"

section \<open>The result of a build\<close>

definition oom_pair :: "string \<Rightarrow> (string \<times> string) result" where
  "oom_pair line = (case words line of [k, v] \<Rightarrow> Inr (k, v) | _ \<Rightarrow> Inl (ValueError ''dictionary update sequence''))"

definition oom_kills :: "resource_report \<Rightarrow> int result" where
  "oom_kills r =
     bindr (map_res oom_pair (splitlines str_break (case rr_events r of None \<Rightarrow> [] | Some e \<Rightarrow> e))) (\<lambda>kvs.
     case map_of (rev kvs) ''oom_kill'' of
       None \<Rightarrow> Inr 0
     | Some v \<Rightarrow> (case py_int v of None \<Rightarrow> Inl (ValueError ''invalid literal for int()'') | Some n \<Rightarrow> Inr n))"

definition final_reason :: "resource_report \<Rightarrow> resource_report \<Rightarrow> string option \<Rightarrow> string option result" where
  "final_reason initial after reason =
     (if rr_events initial \<noteq> rr_events after \<and> contains ''oom_kill'' (case rr_events after of None \<Rightarrow> [] | Some e \<Rightarrow> e)
      then bindr (oom_kills after) (\<lambda>a. bindr (oom_kills initial) (\<lambda>b.
           Inr (if a > b then Some ''resource-interruption'' else reason)))
      else Inr reason)"

definition build_result :: "int \<Rightarrow> string option \<Rightarrow> attempt_result" where
  "build_result code reason =
     (plain_result (Some code) (case reason of Some r \<Rightarrow> r | None \<Rightarrow> if code = 0 then ''completed'' else ''build-error'') None)
       \<lparr>re_truncated := (reason = Some ''log-limit'')\<rparr>"

record build_world =
  bw_rt :: runtime
  bw_path_info :: "string list \<Rightarrow> json option"
  bw_limits :: "string + slice_obs"
  bw_initial :: "string + slice_obs"
  bw_after :: "string + slice_obs"
  bw_spawn :: "unit result"
  bw_start :: rat
  bw_turns :: "loop_turn list"
  bw_code :: int

text \<open>The activity times as \<^verbatim>\<open>atomic_json\<close> writes them, and the files the loop has written so far.\<close>

definition times_text :: "runtime \<Rightarrow> (string \<times> timing_row) list \<Rightarrow> string" where
  "times_text rt rows = dumps (rt_float rt) True '', '' '': '' (JObj (map (\<lambda>(k, r). (k, JObj [(''drv'', JStr (tr_drv r)),
     (''started'', JFloat (tr_started r)), (''finished'', case tr_finished r of None \<Rightarrow> JNull | Some x \<Rightarrow> JFloat x)])) rows))"

definition save_logs :: "runtime \<Rightarrow> build_state \<Rightarrow> folder \<Rightarrow> folder" where
  "save_logs rt st f = f\<lparr>f_log := Some (bs_err st),
     f_times := (case ts_saved (bs_times st) of None \<Rightarrow> f_times f | Some rows \<Rightarrow> Some (times_text rt rows))\<rparr>"

definition worker_build :: "build_world \<Rightarrow> attempt_spec \<Rightarrow> attempt_result option file_op" where
  "worker_build w spec =
     (let pol = sp_policy spec; limits = resources (bw_limits w) pol in
      if \<not> rr_verified limits then returnM (Some (plain_result None ''resource-policy'' (Some (rr_reason limits))))
      else
      bindM (liftM (\<lambda>_. valid (bw_path_info w) (set (sp_output_paths spec)))) (\<lambda>present.
      bindM (modifyM (\<lambda>f. f\<lparr>f_before := Some (sorted_list_of_set present)\<rparr>)) (\<lambda>_.
      bindM (liftM (\<lambda>_. bw_spawn w)) (\<lambda>_.
      let (ended, st) = build_loop (bw_rt w) pol (bw_turns w) (start_build (bw_start w)) in
      bindM (modifyM (save_logs (bw_rt w) st)) (\<lambda>_.
      if \<not> ended then returnM None
      else bindM (liftM (\<lambda>_. final_reason (resources (bw_initial w) pol) (resources (bw_after w) pol) (bs_reason st))) (\<lambda>reason.
           returnM (Some (build_result (bw_code w) reason))))))))"

definition build_command :: "string \<Rightarrow> attempt_spec \<Rightarrow> string list" where
  "build_command nix spec =
     [nix, ''--extra-experimental-features'', ''nix-command flakes'', ''build'', ''--no-link'', ''--json'', ''--keep-going'',
      ''--log-format'', ''internal-json'', ''-L'', ''--max-jobs'', encode_int (p_max_jobs (sp_policy spec)),
      ''--cores'', encode_int (p_cores (sp_policy spec)), ''--timeout'', encode_int (p_wall_seconds (sp_policy spec)),
      ''--max-silent-time'', encode_int (p_silent_seconds (sp_policy spec))]
     @ (if sp_build_location spec = Some ''local'' then [''--builders'', []] else [])
     @ map (\<lambda>d. d @ ''^*'') (build_roots (sp_targets spec))"

section \<open>Running an attempt once\<close>

record run_world =
  rw_locked :: bool
  rw_now :: timestamp
  rw_version :: "string result"
  rw_plan :: plan_world
  rw_build :: build_world

definition is_hex_at :: "string \<Rightarrow> nat \<Rightarrow> bool" where
  "is_hex_at s i \<longleftrightarrow> (if List.member [8, 13, 18, 23] i then s ! i = CHR ''-'' else is_hex (s ! i))"

text \<open>\<^verbatim>\<open>str(uuid.UUID(aid)) == aid\<close>: the canonical lower-case form.\<close>

definition canonical_uuid :: "string \<Rightarrow> bool" where
  "canonical_uuid s \<longleftrightarrow> length s = 36 \<and> list_all (is_hex_at s) [0..<36]"

definition run_work :: "run_world \<Rightarrow> attempt_spec \<Rightarrow> attempt_result option file_op" where
  "run_work w spec =
     bindM (liftM (\<lambda>_. rw_version w)) (\<lambda>actual.
     if sp_nix_version spec \<noteq> [] \<and> sp_nix_version spec \<noteq> strip actual
     then raiseM (ValueError ''Nix version changed since campaign import; create a new campaign'')
     else (case sp_kind spec of
             Plan \<Rightarrow> bindM (worker_plan (rw_plan w) spec) (\<lambda>r. returnM (Some r))
           | Build \<Rightarrow> worker_build (rw_build w) spec))"

definition worker_error :: "py_error \<Rightarrow> attempt_result" where
  "worker_error e = plain_result (Some 1) ''worker-error'' (Some (error_text e))"

definition run :: "run_world \<Rightarrow> string \<Rightarrow> unit file_op" where
  "run w aid =
     bindM (liftM (\<lambda>_. guardr (canonical_uuid aid) (ValueError ''invalid attempt UUID''))) (\<lambda>_.
     bindM (liftM (\<lambda>_. guardr (\<not> rw_locked w) (OSError ''Resource temporarily unavailable''))) (\<lambda>_.
     bindM (getsM id) (\<lambda>f.
     if f_started f then returnM ()
     else
     bindM (liftM (\<lambda>f. case f_spec f of None \<Rightarrow> Inl (OSError ''No such file or directory'') | Some spec \<Rightarrow> Inr spec)) (\<lambda>spec.
     bindM (modifyM (\<lambda>f. f\<lparr>f_started := True\<rparr>)) (\<lambda>_.
     bindM (caughtM (run_work w spec) (\<lambda>_. True) (\<lambda>e. returnM (Some (worker_error e)))) (\<lambda>result.
     case result of
       None \<Rightarrow> returnM ()
     | Some r \<Rightarrow> modifyM (\<lambda>f. f\<lparr>f_exit := Some (r\<lparr>re_finished := rw_now w\<rparr>)\<rparr>)))))))"

section \<open>The log budget and the signals\<close>

text \<open>What the loop maintains: bytes written are the bytes in the two logs and within the budget,
  and the process group is interrupted exactly once, with a reason, when the loop has decided to stop.\<close>

definition loop_inv :: "policy \<Rightarrow> build_state \<Rightarrow> bool" where
  "loop_inv pol st \<longleftrightarrow> bs_written st = int (length (bs_out st) + length (bs_err st)) \<and> bs_written st \<le> max 0 (p_log_bytes pol)
     \<and> (bs_signalled st = None \<longleftrightarrow> bs_reason st = None)
     \<and> filter (\<lambda>k. k = SIGINT) (bs_kills st) = (if bs_signalled st = None then [] else [SIGINT])
     \<and> (bs_signalled st = None \<longrightarrow> bs_kills st = [])"

lemma loop_inv_start: "loop_inv pol (start_build now)"
  by (simp add: loop_inv_def start_build_def)

lemma loop_inv_stop: "loop_inv pol st \<Longrightarrow> loop_inv pol (stop_build now why st)"
  by (auto simp: loop_inv_def stop_build_def)

lemma loop_inv_interrupt: "loop_inv pol st \<Longrightarrow> loop_inv pol (interrupt_build now why st)"
  by (auto simp: loop_inv_def interrupt_build_def stop_build_def)

lemma loop_inv_watchdog: "loop_inv pol st \<Longrightarrow> loop_inv pol (watchdog pol t st)"
proof -
  assume inv: "loop_inv pol st"
  have kill: "loop_inv pol (s\<lparr>bs_kills := bs_kills s @ [SIGKILL]\<rparr>)" if "loop_inv pol s" and "\<not> unsignalled s" for s :: build_state
    using that by (auto simp: loop_inv_def unsignalled_def)
  show ?thesis using inv kill loop_inv_interrupt by (auto simp: watchdog_def Let_def)
qed

lemma loop_inv_write:
  assumes "loop_inv pol st"
  shows "loop_inv pol (write_bytes rt pol t is_err data st)"
proof -
  let ?rem = "nat (max 0 (p_log_bytes pol - bs_written st))"
  have fits: "bs_written st + int (min (length data) ?rem) \<le> max 0 (p_log_bytes pol)"
    using assms by (auto simp: loop_inv_def)
  have "loop_inv pol (st'\<lparr>bs_written := bs_written st + int (min (length data) ?rem)\<rparr>)"
    if "st' = (if is_err then st\<lparr>bs_err := bs_err st @ take ?rem data, bs_times := ts\<rparr> else st\<lparr>bs_out := bs_out st @ take ?rem data\<rparr>)"
    for st' :: build_state and ts
    using assms fits that by (auto simp: loop_inv_def min.commute)
  then show ?thesis unfolding write_bytes_def Let_def by (auto intro: loop_inv_interrupt)
qed

lemma loop_inv_irrelevant [simp]:
  "loop_inv pol (st\<lparr>bs_last := x\<rparr>) = loop_inv pol st"
  "loop_inv pol (st\<lparr>bs_out_open := b\<rparr>) = loop_inv pol st"
  "loop_inv pol (st\<lparr>bs_err_open := b\<rparr>) = loop_inv pol st"
  "loop_inv pol (st\<lparr>bs_filter := f\<rparr>) = loop_inv pol st"
  by (simp_all add: loop_inv_def)

lemma loop_inv_io: "loop_inv pol st \<Longrightarrow> loop_inv pol (handle_io rt pol t ev st)"
  by (cases ev) (auto intro!: loop_inv_write loop_inv_stop simp: Let_def case_prod_beta)

lemma loop_inv_turn: "loop_inv pol st \<Longrightarrow> loop_inv pol (build_turn rt pol t st)"
proof -
  have "loop_inv pol s \<Longrightarrow> loop_inv pol (fold (handle_io rt pol t) es s)" for es s
    by (induction es arbitrary: s) (simp_all add: loop_inv_io)
  then show "loop_inv pol st \<Longrightarrow> ?thesis" by (simp add: build_turn_def loop_inv_watchdog)
qed

lemma loop_inv_loop: "loop_inv pol st \<Longrightarrow> loop_inv pol (snd (build_loop rt pol ts st))"
  by (induction ts arbitrary: st) (simp_all add: loop_inv_turn)

section \<open>One run per attempt\<close>

lemma caughtM_all: "\<exists>r s'. caughtM m (\<lambda>_. True) (\<lambda>e. returnM (h e)) s = (Inr r, s') \<and> (\<forall>x. m s = (Inr x, s') \<longrightarrow> r = x) \<and> s' = snd (m s)"
  by (cases "m s"; cases "fst (m s)") (auto simp: caughtM_def returnM_def)

definition still :: "folder \<Rightarrow> folder \<Rightarrow> bool" where
  "still f f' \<longleftrightarrow> f_spec f' = f_spec f \<and> f_started f' = f_started f \<and> f_exit f' = f_exit f"

lemma still_keeps [simp]: "still f f" by (simp add: still_def)

lemma keeps_caught: "keeps P m \<Longrightarrow> (\<And>e. keeps P (h e)) \<Longrightarrow> keeps P (caughtM m p h)"
  by (fastforce simp: keeps_def caughtM_def split: prod.splits sum.splits)

lemma still_plan: "keeps (still f) (worker_plan w spec)"
proof -
  have t: "keeps (still f) (plan_target w src t)" for src t
    by (cases t) (auto simp: plan_target_def plan_row_of_def plan_recipe_def write_row_def append_log_def still_def case_prod_beta
        intro!: keeps_bind keeps_caught keeps_basic keeps_if keeps_modify)
  show ?thesis unfolding worker_plan_def
    by (intro keeps_bind keeps_foreach t keeps_basic keeps_modify) (simp add: still_def)
qed

lemma still_build: "keeps (still f) (worker_build w spec)"
  unfolding worker_build_def Let_def case_prod_beta
  by (intro keeps_bind keeps_if keeps_basic keeps_modify) (simp_all add: still_def save_logs_def)

lemma still_work: "keeps (still f) (run_work w spec)"
  unfolding run_work_def
  by (intro keeps_bind keeps_if keeps_basic)
    (auto split: akind.splits intro!: keeps_bind keeps_basic still_plan still_build)

lemma run_started: "f_started f \<Longrightarrow> snd (run w aid f) = f"
  by (auto simp: run_def bindM_def liftM_def guardr_def getsM_def returnM_def split: sum.splits prod.splits)

text \<open>The worker produced a result: every outcome but a build loop that is still running.\<close>

definition work_done :: "run_world \<Rightarrow> attempt_spec \<Rightarrow> folder \<Rightarrow> bool" where
  "work_done w spec f \<longleftrightarrow> fst (run_work w spec f) \<noteq> Inr None"

lemma run_fresh:
  assumes "canonical_uuid aid" and "\<not> rw_locked w" and "f_spec f = Some spec" and "\<not> f_started f"
  defines "g \<equiv> f\<lparr>f_started := True\<rparr>"
  shows "run w aid f = (case fst (run_work w spec g) of
      Inl e \<Rightarrow> (Inr (), (snd (run_work w spec g))\<lparr>f_exit := Some ((worker_error e)\<lparr>re_finished := rw_now w\<rparr>)\<rparr>)
    | Inr None \<Rightarrow> (Inr (), snd (run_work w spec g))
    | Inr (Some r) \<Rightarrow> (Inr (), (snd (run_work w spec g))\<lparr>f_exit := Some (r\<lparr>re_finished := rw_now w\<rparr>)\<rparr>))"
  using assms(1-4)
  by (cases "run_work w spec g")
    (auto simp: run_def bindM_def liftM_def guardr_def getsM_def returnM_def modifyM_def caughtM_def g_def split: sum.splits option.splits)

lemma run_result:
  assumes "canonical_uuid aid" and "\<not> rw_locked w" and "f_spec f = Some spec" and "\<not> f_started f"
    and "work_done w spec (f\<lparr>f_started := True\<rparr>)"
  shows "\<exists>r. f_exit (snd (run w aid f)) = Some r \<and> re_finished r = rw_now w \<and> f_started (snd (run w aid f)) \<and> f_spec (snd (run w aid f)) = Some spec"
proof -
  let ?g = "f\<lparr>f_started := True\<rparr>"
  have "still ?g (snd (run_work w spec ?g))" using still_work by (simp add: keeps_def)
  then show ?thesis
    using assms(3,5) by (auto simp: run_fresh [OF assms(1-4)] still_def work_done_def split: sum.splits option.splits)
qed

section \<open>Planning rows\<close>

fun json_id :: "json \<Rightarrow> json option" where
  "json_id (JObj kvs) = map_of kvs ''id''"
| "json_id _ = None"

text \<open>A complete observation of one target: an error, or a recipe with its graph on disk.\<close>

definition row_complete :: "folder \<Rightarrow> json \<Rightarrow> bool" where
  "row_complete f row \<longleftrightarrow> (\<exists>i msg. row = JObj [(''id'', JInt i), (''error'', JStr msg)] \<and> length msg \<le> 8000)
     \<or> (\<exists>i recipe drv g rows. row = JObj [(''id'', JInt i), (''recipe'', recipe), (''graph'', JStr (graph_file i))]
          \<and> jindex ''drv'' recipe = Inr (JStr drv) \<and> map_of (f_graphs f) (graph_file i) = Some g \<and> normalize_graph g = Inr rows)"

definition rows_text :: "plan_world \<Rightarrow> json list \<Rightarrow> string" where
  "rows_text w rows = concat (map (\<lambda>r. encode (rt_float (pw_rt w)) r @ [NL]) rows)"

lemma last_chars_length [simp]: "length (last_chars n s) \<le> n"
  by (simp add: last_chars_def)

text \<open>Graphs on disk are only added or replaced by other graphs of the known schema.\<close>

definition graph_ready :: "folder \<Rightarrow> string \<Rightarrow> bool" where
  "graph_ready f n \<longleftrightarrow> (\<exists>g rows. map_of (f_graphs f) n = Some g \<and> normalize_graph g = Inr rows)"

definition extends :: "folder \<Rightarrow> folder \<Rightarrow> bool" where
  "extends f f' \<longleftrightarrow> f_plan f' = f_plan f \<and> (\<forall>n. graph_ready f n \<longrightarrow> graph_ready f' n)"

lemma row_complete_mono: "(\<forall>n. graph_ready f n \<longrightarrow> graph_ready f' n) \<Longrightarrow> row_complete f row \<Longrightarrow> row_complete f' row"
  unfolding row_complete_def graph_ready_def by blast

lemma wp_caught:
  assumes "wp m Q (\<lambda>s'. (\<forall>e. wp (h e) Q E s') \<and> E s') s"
  shows "wp (caughtM m p h) Q E s"
proof (cases "m s")
  case (Pair r s')
  show ?thesis
  proof (cases r)
    case (Inl e)
    with assms Pair have "wp (h e) Q E s'" and "E s'" by (simp_all add: wp_def)
    then show ?thesis by (simp add: wp_def caughtM_def Pair Inl)
  qed (use assms Pair in \<open>simp add: wp_def caughtM_def\<close>)
qed

lemma wp_plan_recipe:
  "wp (plan_recipe w src i attr)
     (\<lambda>(recipe, name) f'. extends f f' \<and> name = graph_file i \<and> (\<exists>drv. jindex ''drv'' recipe = Inr (JStr drv)) \<and> graph_ready f' (graph_file i))
     (extends f) f"
proof -
  have drv: "\<exists>d. jindex ''drv'' r = Inr (JStr d) \<and> x = d" if "bindr (jindex ''drv'' r) jstring = Inr x" for r x
    using that by (auto simp: bindr_eq_Inr elim: jstring.elims)
  show ?thesis
    unfolding plan_recipe_def append_log_def
    by (auto simp: extends_def graph_ready_def split: sum.splits option.splits dest: drv)
qed

lemma wp_plan_row_of:
  "wp (plan_row_of w src i attr) (\<lambda>row f'. extends f f' \<and> row_complete f' row \<and> json_id row = Some (JInt i)) (extends f) f"
  unfolding plan_row_of_def
  by (rule wp_caught, simp only: wp_bind, rule wp_mono [OF wp_plan_recipe])
    (auto simp: row_complete_def graph_ready_def)

lemma wp_plan_targets:
  assumes "f_plan f = Some (rows_text w rows)" and "\<forall>r \<in> set rows. row_complete f r"
  shows "wp (foreachM (plan_target w src) ts)
    (\<lambda>_ f'. \<exists>new. f_plan f' = Some (rows_text w (rows @ new)) \<and> (\<forall>r \<in> set (rows @ new). row_complete f' r)
       \<and> map json_id new = map (Some \<circ> JInt) (plan_ids ts)) (\<lambda>_. True) f"
  using assms
proof (induction ts arbitrary: f rows)
  case (Cons t ts)
  show ?case
  proof (cases t)
    case (TPlan i attr)
    have "wp (foreachM (plan_target w src) ts)
        (\<lambda>_ f'. \<exists>new. f_plan f' = Some (rows_text w (rows @ new)) \<and> (\<forall>r \<in> set (rows @ new). row_complete f' r)
           \<and> map json_id new = map (Some \<circ> JInt) (plan_ids (t # ts))) (\<lambda>_. True)
        (f'\<lparr>f_plan := Some (rows_text w (rows @ [row]))\<rparr>)"
      if ex: "extends f f'" and row: "row_complete f' row" "json_id row = Some (JInt i)" for f' row
    proof -
      let ?f = "f'\<lparr>f_plan := Some (rows_text w (rows @ [row]))\<rparr>"
      have rdy: "graph_ready f' n \<Longrightarrow> graph_ready ?f n" for n by (simp add: graph_ready_def)
      have "\<forall>r \<in> set (rows @ [row]). row_complete ?f r"
        using Cons.prems(2) ex row(1) rdy by (auto simp: extends_def intro: row_complete_mono)
      from Cons.IH [OF _ this] show ?thesis
      proof (rule wp_mono)
        fix x f''
        assume "\<exists>new. f_plan f'' = Some (rows_text w ((rows @ [row]) @ new)) \<and> (\<forall>r \<in> set ((rows @ [row]) @ new). row_complete f'' r)
           \<and> map json_id new = map (Some \<circ> JInt) (plan_ids ts)"
        then obtain new where "f_plan f'' = Some (rows_text w (rows @ row # new))" "\<forall>r \<in> set (rows @ row # new). row_complete f'' r"
          "map json_id new = map (Some \<circ> JInt) (plan_ids ts)" by auto
        then show "\<exists>new. f_plan f'' = Some (rows_text w (rows @ new)) \<and> (\<forall>r \<in> set (rows @ new). row_complete f'' r)
           \<and> map json_id new = map (Some \<circ> JInt) (plan_ids (t # ts))"
          using row(2) by (intro exI [of _ "row # new"]) (simp add: plan_ids_def List.map_filter_simps TPlan)
      qed simp_all
    qed
    then show ?thesis
      unfolding foreachM.simps wp_bind plan_target_def TPlan target.case
      using Cons.prems(1)
      by (intro wp_mono [OF wp_plan_row_of]) (auto simp: write_row_def extends_def rows_text_def)
  qed (simp add: plan_target_def)
qed (use assms in \<open>simp add: plan_ids_def List.map_filter_simps\<close>)

lemma worker_plan_rows:
  assumes "worker_plan w spec f = (Inr r, f')"
  shows "re_reason r = ''completed'' \<and> (\<exists>rows. f_plan f' = Some (rows_text w rows) \<and> (\<forall>row \<in> set rows. row_complete f' row)
     \<and> map json_id rows = map (Some \<circ> JInt) (plan_ids (sp_targets spec)))"
proof -
  let ?g = "f\<lparr>f_plan := Some [], f_log := Some (case f_log f of None \<Rightarrow> [] | Some l \<Rightarrow> l)\<rparr>"
  have "wp (worker_plan w spec) (\<lambda>r f'. re_reason r = ''completed'' \<and> (\<exists>rows. f_plan f' = Some (rows_text w rows)
      \<and> (\<forall>row \<in> set rows. row_complete f' row) \<and> map json_id rows = map (Some \<circ> JInt) (plan_ids (sp_targets spec)))) (\<lambda>_. True) f"
    unfolding worker_plan_def wp_bind wp_modify
    by (rule wp_mono [OF wp_plan_targets [where rows = "[]"]]) (auto simp: rows_text_def plain_result_def)
  from wp_run [OF this assms] show ?thesis .
qed

section \<open>Nix string literals\<close>

text \<open>The value of a double-quoted string of the Nix language: a backslash escapes the next
  character, a double dollar stands for itself, and an interpolation is not a constant.\<close>

definition nix_unescape :: "char \<Rightarrow> char" where
  "nix_unescape c = (if c = CHR ''n'' then CHR 0x0A else if c = CHR ''r'' then CHR 0x0D else if c = CHR ''t'' then CHR 0x09 else c)"

fun nix_chars :: "string \<Rightarrow> string option" where
  "nix_chars [] = None"
| "nix_chars [c] = (if c = CHR 0x22 then Some [] else None)"
| "nix_chars (c # d # s) =
     (if c = CHR 0x22 then None
      else if c = CHR 0x5C then map_option (Cons (nix_unescape d)) (nix_chars s)
      else if c = CHR ''$'' \<and> d = CHR 0x7B then None
      else if c = CHR ''$'' \<and> d = CHR ''$'' then map_option (\<lambda>r. c # d # r) (nix_chars s)
      else map_option (Cons c) (nix_chars (d # s)))"

definition nix_string :: "string \<Rightarrow> string option" where
  "nix_string s = (case s of c # r \<Rightarrow> if c = CHR 0x22 then nix_chars r else None | [] \<Rightarrow> None)"

lemma escape_dollar_Cons:
  "s \<noteq> [] \<Longrightarrow> escape_dollar (c # s) =
     (if c = CHR ''$'' \<and> hd s = CHR 0x7B then [CHR 0x5C, CHR ''$'', CHR 0x7B] @ escape_dollar (tl s) else c # escape_dollar s)"
  by (cases s) simp_all

definition quoted :: "string \<Rightarrow> string" where
  "quoted s = escape_dollar (concat (map escape_char s) @ [CHR 0x22])"

lemma quoted_Nil [simp]: "quoted [] = [CHR 0x22]"
  by (simp add: quoted_def)

lemma hd_escaped: "list_all printable s \<Longrightarrow> hd (concat (map escape_char s) @ [CHR 0x22]) = CHR 0x7B \<longleftrightarrow> (\<exists>t. s = CHR 0x7B # t)"
  by (cases s) (auto simp: escape_printable)

lemma quoted_Cons:
  assumes "list_all printable (c # s)"
  shows "quoted (c # s) = (if c = CHR 0x22 \<or> c = CHR 0x5C then [CHR 0x5C, c] @ quoted s
     else if c = CHR ''$'' \<and> s \<noteq> [] \<and> hd s = CHR 0x7B then [CHR 0x5C, CHR ''$'', CHR 0x7B] @ quoted (tl s)
     else c # quoted s)"
proof -
  have p: "printable c" and ps: "list_all printable s" using assms by simp_all
  show ?thesis
    using hd_escaped [OF ps] ps
    by (cases s) (auto simp: quoted_def escape_printable [OF p] escape_dollar_Cons escape_printable)
qed

lemma quoted_not_Nil [simp]: "quoted s \<noteq> []"
proof -
  have "escape_dollar (c # t) \<noteq> []" for c t by (cases t) simp_all
  then show ?thesis unfolding quoted_def by (metis append_is_Nil_conv list.exhaust not_Cons_self2)
qed

lemma hd_quoted: "list_all printable s \<Longrightarrow> hd (quoted s) = CHR 0x7B \<Longrightarrow> \<exists>t. s = CHR 0x7B # t"
  by (cases s) (auto simp: quoted_Cons split: if_splits)

lemma hd_quoted_dollar: "list_all printable s \<Longrightarrow> hd (quoted s) = CHR ''$'' \<Longrightarrow> \<exists>t. s = CHR ''$'' # t \<and> quoted s = CHR ''$'' # quoted t"
  by (cases s) (auto simp: quoted_Cons split: if_splits)

lemma nix_chars_quoted: "list_all printable s \<Longrightarrow> nix_chars (quoted s) = Some s"
proof (induction s rule: measure_induct_rule [of length])
  case (less s)
  show ?case
  proof (cases s)
    case (Cons c t)
    note ps = less.prems [unfolded Cons]
    have IH: "list_all printable u \<Longrightarrow> length u \<le> length t \<Longrightarrow> nix_chars (quoted u) = Some u" for u
      using less.IH [of u] by (simp add: Cons)
    obtain d q where q: "quoted t = d # q" using quoted_not_Nil by (cases "quoted t") auto
    consider (esc) "c = CHR 0x22 \<or> c = CHR 0x5C" | (interp) "c = CHR ''$''" "t \<noteq> []" "hd t = CHR 0x7B"
      | (plain) "c \<noteq> CHR 0x22" "c \<noteq> CHR 0x5C" "\<not> (c = CHR ''$'' \<and> t \<noteq> [] \<and> hd t = CHR 0x7B)" by blast
    then show ?thesis
    proof cases
      case esc
      then show ?thesis using IH [of t] ps q by (auto simp: Cons quoted_Cons nix_unescape_def)
    next
      case interp
      then obtain u where t: "t = CHR 0x7B # u" by (cases t) auto
      obtain e r where r: "quoted u = e # r" using quoted_not_Nil by (cases "quoted u") auto
      then show ?thesis using IH [of u] ps interp t by (auto simp: Cons quoted_Cons nix_unescape_def)
    next
      case plain
      then have c: "quoted s = c # d # q" using ps q by (simp add: Cons quoted_Cons)
      show ?thesis
      proof (cases "c = CHR ''$'' \<and> d = CHR ''$''")
        case True
        then obtain u where u: "t = CHR ''$'' # u" "quoted t = CHR ''$'' # quoted u"
          using hd_quoted_dollar [of t] ps q by auto
        then show ?thesis using IH [of u] ps True q by (simp add: c) (simp add: Cons)
      next
        case False
        moreover have "\<not> (c = CHR ''$'' \<and> d = CHR 0x7B)" using plain(3) hd_quoted [of t] ps q by auto
        ultimately show ?thesis using IH [of t] ps plain q by (auto simp: c) (simp_all add: Cons)
      qed
    qed
  qed simp
qed

lemma nix_string_literal:
  assumes "\<forall>x. list_all printable (fl x)"
  shows "nix_string (nix_literal fl v) = Some (encode fl v)"
proof -
  have "escape_dollar (CHR 0x22 # t) = CHR 0x22 # escape_dollar t" for t by (cases t) simp_all
  then have "nix_literal fl v = CHR 0x22 # quoted (encode fl v)"
    by (simp add: nix_literal_def quoted_def) (simp add: encode_def encode_string_def)
  then show ?thesis using nix_chars_quoted [OF printable_encode [OF assms]] by (simp add: nix_string_def)
qed

end
