(* ===== verification/ControllerGuarantees.thy ===== *)
theory ControllerGuarantees
  imports Ownership AttemptWorker Scenario
begin

text \<open>
  What single operations of the controller guarantee, errors included: admission, recording an
  intent, reading a log, judging a finished batch, and reading the rows that a planner wrote.
\<close>

section \<open>Admission\<close>



section \<open>Reading a log\<close>

lemma complete_prefix_le: "complete_prefix data \<le> length data"
  by (simp add: complete_prefix_def) (metis length_dropWhile_le length_rev)

lemma complete_prefix_nl:
  assumes "complete_prefix data \<noteq> 0"
  shows "data ! (complete_prefix data - 1) = NL"
proof -
  let ?d = "dropWhile (\<lambda>c. c \<noteq> NL) (rev data)"
  have ne: "?d \<noteq> []" using assms by (auto simp: complete_prefix_def)
  have split: "data = rev ?d @ rev (takeWhile (\<lambda>c. c \<noteq> NL) (rev data))"
    by (metis rev_append rev_rev_ident takeWhile_dropWhile_id)
  have "data ! (length ?d - 1) = rev ?d ! (length ?d - 1)" using ne by (subst split) (simp add: nth_append)
  also have "\<dots> = hd ?d" using ne by (simp add: rev_nth hd_conv_nth)
  also have "\<dots> = NL" using hd_dropWhile [OF ne] by simp
  finally show ?thesis by (simp add: complete_prefix_def)
qed

lemma complete_prefix_0: "complete_prefix data = 0 \<longleftrightarrow> NL \<notin> set data"
  by (auto simp: complete_prefix_def dropWhile_eq_Nil_conv)

lemma oversized_end_spec:
  assumes "oversized_end exited rest = Some k"
  shows "k \<le> length rest \<and> (k \<noteq> 0 \<and> rest ! (k - 1) = NL \<or> exited \<and> k = length rest)"
proof (cases "NL \<in> set rest")
  case True
  let ?n = "length (takeWhile (\<lambda>c. c \<noteq> NL) rest)"
  have less: "?n < length rest" using True by (metis (mono_tags, lifting) length_takeWhile_le le_neq_implies_less takeWhile_eq_all_conv takeWhile_eq_take take_all_iff order_refl)
  moreover have "rest ! ?n = NL" using nth_length_takeWhile [OF less] by simp
  ultimately show ?thesis using assms True by (auto simp: oversized_end_def)
qed (use assms in \<open>auto simp: oversized_end_def split: if_splits\<close>)


lemma fold_observe_attempts [simp]: "attempts (fold (observe rt aid) ls db) = attempts db"
  by (induction ls arbitrary: db) (simp_all add: observe_frame)

lemma find_attempt_cong: "attempts db' = attempts db \<Longrightarrow> find_attempt db' aid = find_attempt db aid"
  by (simp add: find_attempt_def)

interpretation offset_rows: keyed_update at_id "\<lambda>r. r\<lparr>at_offset := g r\<rparr>" for g
  by unfold_locales simp

lemma skip_moves:
  assumes "find_attempt db (at_id a) = Some a"
  shows "find_attempt (skip_oversized now a n db) (at_id a) = Some (a\<lparr>at_offset := at_offset a + n\<rparr>)"
  using assms by (simp add: skip_oversized_def event_def update_attempts_def find_attempt_def offset_rows.find_row_update)

lemma commit_moves:
  assumes "find_attempt db (at_id a) = Some a"
  shows "\<exists>db'. commit_lines rt a data db = Inr db' \<and> find_attempt db' (at_id a) = Some (a\<lparr>at_offset := at_offset a + length data\<rparr>)"
  using assms by (simp add: commit_lines_def update_attempts_def find_attempt_def offset_rows.find_row_update)

lemma transact_db: "transactM (dbM f) s = (Inr (), s\<lparr>k_db := f (k_db s)\<rparr>)"
  by (simp add: transactM_def atomicallyM_def dbM_def modifyM_def)

lemma transact_try: "f (k_db s) = Inr d \<Longrightarrow> transactM (try_dbM f) s = (Inr (), s\<lparr>k_db := d\<rparr>)"
  by (simp add: transactM_def atomicallyM_def try_dbM_def dbM_def modifyM_def bindM_def liftM_def)

text \<open>Reading the log of an attempt consumes whole lines: the new offset is not before the old
  one, within the file, and stands after a line break, or at the end of the log of an exited worker.
  And reading never gets stuck: while a line break is left, also behind a line larger than the read
  block, the offset advances.\<close>

theorem log_reading_advances:
  assumes "find_attempt (k_db s) (at_id a) = Some a" and "f_log (folder_of s (at_id a)) = Some raw" and "at_offset a \<le> length raw"
  shows "\<exists>a'. find_attempt (k_db (snd (ingest w a s))) (at_id a) = Some a' \<and> at_offset a \<le> at_offset a' \<and> at_offset a' \<le> length raw
     \<and> (at_offset a' = at_offset a \<or> raw ! (at_offset a' - 1) = NL \<or> f_exit (folder_of s (at_id a)) \<noteq> None \<and> at_offset a' = length raw)
     \<and> (NL \<in> set (drop (at_offset a) raw) \<longrightarrow> at_offset a < at_offset a')"
proof -
  define rest where "rest = drop (at_offset a) raw"
  define data where "data = take READ_BLOCK rest"
  define n where "n = complete_prefix data"
  have at: "raw ! (at_offset a + k - 1) = rest ! (k - 1)" if "k \<noteq> 0" "k \<le> length rest" for k
    using that assms(3) by (simp add: rest_def nth_drop)
  have run: "ingest w a s = (if n = 0 \<and> length data = READ_BLOCK then
       (case oversized_end (f_exit (folder_of s (at_id a)) \<noteq> None) rest of None \<Rightarrow> (Inr (), s) | Some k \<Rightarrow> transactM (dbM (skip_oversized (w_now w) a k)) s)
       else if n \<noteq> 0 then transactM (try_dbM (commit_lines (w_rt w) a (take n data))) s else (Inr (), s))"
    unfolding ingest_def bindM_def getsM_def rest_def data_def n_def Let_def
    using assms(2) by (auto simp: whenM_def returnM_def split: option.splits)
  consider (skip) k where "n = 0" "length data = READ_BLOCK" "oversized_end (f_exit (folder_of s (at_id a)) \<noteq> None) rest = Some k"
    | (lines) "n \<noteq> 0" | (wait) "n = 0" "length data = READ_BLOCK" "oversized_end (f_exit (folder_of s (at_id a)) \<noteq> None) rest = None"
    | (short) "n = 0" "length data \<noteq> READ_BLOCK"
    by (cases "oversized_end (f_exit (folder_of s (at_id a)) \<noteq> None) rest") auto
  then show ?thesis
  proof cases
    case skip
    have "find_attempt (k_db (snd (ingest w a s))) (at_id a) = Some (a\<lparr>at_offset := at_offset a + k\<rparr>)"
      using skip run skip_moves [OF assms(1)] by (simp add: transact_db)
    moreover note oversized_end_spec [OF skip(3)]
    moreover have "NL \<in> set rest \<Longrightarrow> k \<noteq> 0" using skip(3) by (auto simp: oversized_end_def)
    ultimately show ?thesis using at [of k] assms(3) unfolding rest_def by (cases "k = 0") auto
  next
    case lines
    have le: "n \<le> length data" "length data \<le> length rest" using complete_prefix_le [of data] by (auto simp: n_def data_def)
    have "find_attempt (k_db (snd (ingest w a s))) (at_id a) = Some (a\<lparr>at_offset := at_offset a + n\<rparr>)"
      using lines run commit_moves [OF assms(1), of "w_rt w" "take n data"] le by (auto simp: transact_try)
    moreover have "rest ! (n - 1) = NL" using complete_prefix_nl lines le unfolding n_def data_def
      by (metis diff_less dual_order.strict_trans1 less_numeral_extra(1) nth_take gr_zeroI length_take min.strict_boundedE)
    ultimately show ?thesis using at [of n] lines le assms(3) by (auto simp: rest_def)
  next
    case wait
    then have "NL \<notin> set rest" by (auto simp: oversized_end_def split: if_splits)
    then show ?thesis using wait run assms by (simp add: rest_def)
  next
    case short
    then have "data = rest" by (auto simp: data_def)
    then have "NL \<notin> set rest" using short complete_prefix_0 by (simp add: n_def)
    then show ?thesis using short run assms by (simp add: rest_def)
  qed
qed

definition logged_state :: ctl where
  "logged_state = (sample_state (sample_db\<lparr>attempts := [new_attempt 1 ''a1'' sample_campaign Build [] (make_spec sample_campaign Build [] sample_policy no_extra)]\<rparr>))
     \<lparr>k_folders := [(''a1'', empty_folder\<lparr>f_log := Some (''ab'' @ [NL] @ ''c'')\<rparr>)]\<rparr>"

theorem log_reading_advances_witness:
  "\<exists>a'. find_attempt (k_db (snd (ingest sample_world (hd (attempts (k_db logged_state))) logged_state))) ''a1'' = Some a' \<and> 0 < at_offset a'"
proof -
  let ?a = "hd (attempts (k_db logged_state))"
  have "find_attempt (k_db logged_state) (at_id ?a) = Some ?a" "at_id ?a = ''a1''" "at_offset ?a = 0"
    by (simp_all add: logged_state_def sample_state_def find_attempt_def find_row_def new_attempt_def)
  moreover have "f_log (folder_of logged_state ''a1'') = Some (''ab'' @ [NL] @ ''c'')" by (simp add: logged_state_def folder_of_def empty_folder_def)
  ultimately show ?thesis using log_reading_advances [of logged_state ?a "''ab'' @ [NL] @ ''c''" sample_world] by fastforce
qed

section \<open>Judging a batch\<close>

text \<open>What a build's completion may say of a derivation, when \<open>V\<close> is the set of valid outputs and \<open>F\<close> the
  derivations whose failure the log reports.\<close>

definition judged :: "string set \<Rightarrow> string set \<Rightarrow> string list \<Rightarrow> derivation \<Rightarrow> derivation \<Rightarrow> bool" where
  "judged V F ds d d' \<longleftrightarrow> d_drv d' = d_drv d \<and> d_outputs d' = d_outputs d \<and> d_exclusion d' = d_exclusion d
     \<and> (d_available d' \<longrightarrow> d_available d \<or> d_drv d \<in> set ds \<and> realized d V)
     \<and> (d_failure d' \<noteq> None \<longrightarrow> d_failure d' = d_failure d \<or> d_drv d \<in> set ds \<and> d_drv d \<in> F \<and> \<not> realized d V \<and> \<not> d_available d')"

definition judged_all :: "string set \<Rightarrow> string set \<Rightarrow> string list \<Rightarrow> derivation list \<Rightarrow> derivation list \<Rightarrow> bool" where
  "judged_all V F ds old new \<longleftrightarrow> list_all2 (judged V F ds) old new"

lemma judged_refl [simp]: "judged V F ds d d"
  by (simp add: judged_def)

lemma judged_all_refl [simp]: "judged_all V F ds xs xs"
  by (simp add: judged_all_def list_all2_refl)

lemma realized_cong: "d_outputs d' = d_outputs d \<Longrightarrow> realized d' V = realized d V"
  by (simp add: realized_def)

lemma judged_all_update:
  assumes "judged_all V F ds old rows" and "\<And>d r. judged V F ds d r \<Longrightarrow> P r \<Longrightarrow> judged V F ds d (g r)"
  shows "judged_all V F ds old (sql_update P g rows)"
  using assms unfolding judged_all_def sql_update_def by (auto simp: list_all2_conv_all_nth)

lemma judged_all_keys: "judged_all V F ds old rows \<Longrightarrow> map d_drv rows = map d_drv old"
  unfolding judged_all_def by (auto simp: judged_def list_all2_conv_all_nth intro!: nth_equalityI)

lemma judge_judged:
  assumes j: "judged_all V F ds old (derivations db)" and u: "unique_keys d_drv old"
    and d: "find_drv db drv = Some d" and drv: "drv \<in> set ds"
  shows "judged_all V F ds old (derivations (judge_drv aid result before V act F d db))"
proof -
  have key: "d_drv d = drv" and mem: "d \<in> set (derivations db)" using find_row_Some_set [of d_drv drv "derivations db" d] d by (simp_all add: find_drv_def)
  have "distinct (map d_drv (derivations db))" using u judged_all_keys [OF j] by (simp add: unique_keys_def)
  then have same: "r = d" if "r \<in> set (derivations db)" "d_drv r = d_drv d" for r
    using that mem by (metis inj_on_def distinct_map)
  have up: "judged_all V F ds old (sql_update (\<lambda>r. d_drv r = d_drv d) g (derivations db))"
    if g: "\<And>d0. judged V F ds d0 d \<Longrightarrow> judged V F ds d0 (g d)" for g
    using j same g unfolding judged_all_def sql_update_def list_all2_conv_all_nth by (auto simp: in_set_conv_nth) (metis nth_mem)
  let ?good = "\<lambda>org r. r\<lparr>d_available := True, d_origin := org, d_failure := None, d_evidence_attempt := Some aid\<rparr>"
  let ?bad = "\<lambda>r. r\<lparr>d_available := False, d_failure := Some (failure_class act), d_evidence_attempt := Some aid\<rparr>"
  have ok: "judged_all V F ds old (sql_update (\<lambda>r. d_drv r = d_drv d) (?good org) (derivations db))" if "realized d V" for org
    by (rule up) (use that key drv realized_cong [of d _ V] in \<open>auto simp: judged_def\<close>)
  have bad: "judged_all V F ds old (sql_update (\<lambda>r. d_drv r = d_drv d) ?bad (derivations db))" if "\<not> realized d V" "d_drv d \<in> F"
    by (rule up) (use that key drv realized_cong [of d _ V] in \<open>auto simp: judged_def\<close>)
  show ?thesis
    unfolding judge_drv_def Let_def update_derivations_def add_tests_def using j ok bad by (auto split: option.splits)
qed

lemma judged_loop:
  assumes j: "judged_all V F ds old (derivations (k_db s))" and u: "unique_keys d_drv old" and sub: "set todo \<subseteq> set ds"
  shows "wp (foreachM (finish_drv w a result before V F) todo) (\<lambda>_ s. judged_all V F ds old (derivations (k_db s))) (\<lambda>_. True) s"
proof (rule wp_foreachM [where I = "\<lambda>s. judged_all V F ds old (derivations (k_db s))"])
  fix drv and s' :: ctl assume "drv \<in> set todo" and I: "judged_all V F ds old (derivations (k_db s'))"
  then have drv: "drv \<in> set ds" using sub by blast
  have keep: "keeps (\<lambda>s. judged_all V F ds old (derivations (k_db s))) (foreachM (gc_root w) ps)" for ps
    by (intro keeps_foreach keeps_outside(2) [where I = "\<lambda>d. judged_all V F ds old (derivations d)"])
  have roots: "judged_all V F ds old (derivations (k_db t)) \<Longrightarrow>
      wp (foreachM (gc_root w) ps) (\<lambda>_ s. judged_all V F ds old (derivations (k_db s))) (\<lambda>_. True) t" for ps and t :: ctl
    using keepsD [OF keep] by (rule wp_mono) simp_all
  show "wp (finish_drv w a result before V F drv) (\<lambda>_ s. judged_all V F ds old (derivations (k_db s))) (\<lambda>_. True) s'"
  proof (cases "find_drv (k_db s') drv")
    case None
    then show ?thesis by (simp add: finish_drv_def readM_def)
  next
    case (Some d)
    have "judged_all V F ds old (derivations (judge_drv (at_id a) result before V act F d (k_db s')))" for act
      by (rule judge_judged [OF I u Some drv])
    then show ?thesis using Some roots by (simp add: finish_drv_def readM_def dbM_def)
  qed
qed (rule j)

lemma release_tables [simp]: "derivations (release_targets a result db) = derivations db"
  by (simp add: release_targets_def update_candidates_def Let_def)

lemma judged_route: "judged_all V F ds old (derivations db) \<Longrightarrow> judged_all V F ds old (derivations (route_local a db))"
  unfolding route_local_def update_candidates_def update_derivations_def
  by (auto intro!: judged_all_update simp: judged_def local_only_def)

text \<open>C7. Completing a batch says nothing of a derivation that was not observed: a row becomes
  available only when it belongs to the batch and the store holds all its outputs, it becomes failed
  only when it belongs to the batch, the log names its failure and some output is missing, and its
  outputs and exclusion stay as they were.\<close>

theorem batch_judged_on_evidence:
  assumes "finish_build w a result s = (Inr result', s')" and "unique_keys d_drv (derivations (k_db s))"
    and "valid (w_path_info w) (set (sp_output_paths (at_spec a))) = Inr V"
  shows "judged_all V (if re_reason result = ''build-error'' then failure_messages (w_rt w) (case f_log (folder_of s (at_id a)) of None \<Rightarrow> [] | Some r \<Rightarrow> r) else {})
     (sp_derivations (at_spec a)) (derivations (k_db s)) (derivations (k_db s'))"
    (is "judged_all V ?F ?ds ?old _")
proof -
  have loop: "wp (foreachM (finish_drv w a result before V ?F) ?ds) (\<lambda>_ s. judged_all V ?F ?ds ?old (derivations (k_db s))) (\<lambda>_. True) s" for before
    by (rule judged_loop [OF judged_all_refl assms(2)]) simp
  have "wp (finish_build w a result) (\<lambda>_ s'. judged_all V ?F ?ds ?old (derivations (k_db s'))) (\<lambda>_. True) s"
    unfolding finish_build_def Let_def wp_bind wp_simps wp_lift assms(3) sum.case
    by (rule wp_mono [OF loop]) (auto simp: judged_route)
  from wp_run [OF this assms(1)] show ?thesis .
qed

definition built_world :: world where
  "built_world = sample_world\<lparr>w_path_info := (\<lambda>ps. Some (JObj (map (\<lambda>p. (p, JObj [])) ps)))\<rparr>"

definition built_attempt :: attempt where
  "built_attempt = new_attempt 1 ''a1'' sample_campaign Build [TBuild ''d1'']
     (make_spec sample_campaign Build [TBuild ''d1''] sample_policy (no_extra\<lparr>x_output_paths := [''o1''], x_derivations := [''d1'']\<rparr>))"

definition built_state :: ctl where
  "built_state = sample_state (sample_db\<lparr>attempts := [built_attempt]\<rparr>)"

theorem batch_judged_on_evidence_witness:
  "\<exists>result' s' V. finish_build built_world built_attempt (bare_result ''completed'' 2) built_state = (Inr result', s')
     \<and> valid (w_path_info built_world) (set (sp_output_paths (at_spec built_attempt))) = Inr V
     \<and> judged_all V {} [''d1''] (derivations (k_db built_state)) (derivations (k_db s'))"
proof -
  have v: "valid (w_path_info built_world) (set (sp_output_paths (at_spec built_attempt))) = Inr {''o1''}" by code_simp
  have a: "sp_derivations (at_spec built_attempt) = [''d1'']" "unique_keys d_drv (derivations (k_db built_state))" by code_simp+
  have "isl (fst (finish_build built_world built_attempt (bare_result ''completed'' 2) built_state)) = False" by code_simp
  moreover obtain r s' where f: "finish_build built_world built_attempt (bare_result ''completed'' 2) built_state = (r, s')" by fastforce
  ultimately obtain r' where "r = Inr r'" by (cases r) simp_all
  with f have "finish_build built_world built_attempt (bare_result ''completed'' 2) built_state = (Inr r', s')" by simp
  from batch_judged_on_evidence [OF this a(2) v] this v a(1) show ?thesis by (auto simp: bare_result_def)
qed

section \<open>The rows of a planner\<close>

lemma printable_no_break: "printable c \<Longrightarrow> \<not> byte_break c"
  by (auto simp: printable_def byte_break_def)

lemma keep_line:
  "list_all printable s \<Longrightarrow> splitlines_keep_acc acc (s @ NL # rest) = (rev acc @ s @ [NL]) # splitlines_keep_acc [] rest"
proof (induction s arbitrary: acc)
  case Nil
  then show ?case by (cases rest) (auto simp: byte_break_def NL_def)
next
  case (Cons c s)
  obtain d t where t: "s @ NL # rest = d # t" by (cases s) auto
  have "splitlines_keep_acc acc (c # d # t) = splitlines_keep_acc (c # acc) (d # t)" using Cons.prems printable_no_break by simp
  then show ?case using Cons.IH [of "c # acc"] Cons.prems t by simp
qed

lemma ends_with_last: "ends_with [c] (s @ [c])"
  by (simp add: ends_with_def starts_with_def)

text \<open>The controller reads back exactly what the worker wrote: splitting the planner's file
  gives the canonical text of each row as one line, whatever the values contain, and the same rows
  when a last line is torn.\<close>

theorem plan_rows_survive:
  assumes "\<forall>x. list_all printable (rt_float (pw_rt w) x)" and "list_all printable torn"
  shows "plan_lines (rows_text w rows @ torn) = map (\<lambda>r. encode (rt_float (pw_rt w)) r @ [NL]) rows"
proof -
  let ?e = "encode (rt_float (pw_rt w))"
  have p: "list_all printable (?e r)" for r using printable_encode assms(1) by (auto simp: list_all_iff)
  have nl: "\<not> printable NL" by (simp add: printable_def NL_def)
  have torn: "list_all printable (rev acc @ t) \<Longrightarrow> filter (ends_with [NL]) (splitlines_keep_acc acc t) = []" for acc t
  proof (induction acc t rule: splitlines_keep_acc.induct)
    case (1 acc)
    then show ?case using nl by (auto simp: ends_with_def starts_with_def list_all_iff) (metis list.set_intros(1) list.exhaust take0 take_Suc_Cons list.sel(1))
  next
    case (2 acc c)
    then show ?case using nl by (auto simp: ends_with_def starts_with_def)
  next
    case (3 acc c d s)
    then show ?case using printable_no_break by (simp add: list_all_iff)
  qed
  have "splitlines_keep_acc [] (rows_text w rows @ torn) = map (\<lambda>r. ?e r @ [NL]) rows @ splitlines_keep_acc [] torn"
  proof (induction rows)
    case (Cons r rows)
    have "rows_text w (r # rows) @ torn = ?e r @ NL # (rows_text w rows @ torn)" by (simp add: rows_text_def)
    then show ?case using keep_line [OF p, of "[]" r "rows_text w rows @ torn"] Cons by simp
  qed (simp add: rows_text_def)
  moreover have "filter (ends_with [NL]) (map (\<lambda>r. ?e r @ [NL]) rows) = map (\<lambda>r. ?e r @ [NL]) rows"
    by (simp add: filter_id_conv ends_with_last)
  ultimately show ?thesis using torn [of "[]" torn] assms(2) by (simp add: plan_lines_def)
qed

definition plain_plan_world :: plan_world where
  "plain_plan_world = \<lparr>pw_rt = sample_runtime, pw_planner = [], pw_decode = (\<lambda>s. s), pw_eval = (\<lambda>_. Inl (OSError [])), pw_graph = (\<lambda>_. Inl (OSError []))\<rparr>"

theorem plan_rows_survive_witness:
  "plan_lines (rows_text plain_plan_world [JObj [(''id'', JInt 1)], JStr [NL]] @ ''x'') = map (\<lambda>r. encode (rt_float (pw_rt plain_plan_world)) r @ [NL]) [JObj [(''id'', JInt 1)], JStr [NL]]"
  by (rule plan_rows_survive) (simp_all add: plain_plan_world_def sample_runtime_def printable_def)

section \<open>Pausing\<close>

text \<open>What reconciliation leaves alone: which attempts exist, and the mode of every campaign.\<close>

definition standing :: "database \<Rightarrow> string list \<times> mode list" where
  "standing db = (map at_id (attempts db), map cp_mode (campaigns db))"

lemma standing_dbM: "(\<And>db. standing (f db) = standing db) \<Longrightarrow> keeps (\<lambda>s. standing (k_db s) = v) (dbM f)"
  by (rule keeps_dbM) simp

lemma standing_try: "(\<And>db db'. f db = Inr db' \<Longrightarrow> standing db' = standing db) \<Longrightarrow> keeps (\<lambda>s. standing (k_db s) = v) (try_dbM f)"
  by (rule keeps_try_dbM) simp

lemma standing_tables [simp]:
  "standing (event now cid k p db) = standing db" "standing (update_candidates P f db) = standing db"
  "standing (update_derivations Q g db) = standing db" "standing (refresh_candidates cid db) = standing db"
  by (simp_all add: standing_def event_def update_candidates_def update_derivations_def)

lemma standing_attempts: "(\<And>r. at_id (f r) = at_id r) \<Longrightarrow> standing (update_attempts P f db) = standing db"
  by (simp add: standing_def update_attempts_def map_sql_update)

lemma standing_campaigns: "(\<And>c. cp_mode (f c) = cp_mode c) \<Longrightarrow> standing (update_campaigns P f db) = standing db"
  by (simp add: standing_def update_campaigns_def map_sql_update)

lemma standing_observe: "standing (fold (observe rt aid) ls db) = standing db"
  by (induction ls arbitrary: db) (simp_all add: standing_def observe_frame)

lemma standing_commit: "commit_lines rt a data db = Inr db' \<Longrightarrow> standing db' = standing db"
  by (auto simp: commit_lines_def standing_attempts standing_observe split: option.splits if_splits)

lemma standing_skip: "standing (skip_oversized now a n db) = standing db"
  by (simp add: skip_oversized_def standing_attempts)

lemma standing_time: "standing (ingest_time aid row db) = standing db"
  by (auto simp: ingest_time_def standing_def Let_def split: json.splits option.splits)

lemma standing_times: "standing (ingest_times rt file' aid db) = standing db"
proof -
  have "standing (fold (ingest_time aid) rows db) = standing db" for rows by (induction rows arbitrary: db) (simp_all add: standing_time)
  then show ?thesis by (auto simp: ingest_times_def split: option.splits json.splits)
qed

lemma standing_graph: "add_graph rt nx g db = Inr db' \<Longrightarrow> standing db' = standing db"
proof -
  have rec: "standing (record_drv drv name outputs meta reason inputs db) = standing db" for drv name outputs meta reason inputs db
    by (auto simp: record_drv_def Let_def standing_def split: option.splits)
  have "add_drv rt nx row d = Inr d' \<Longrightarrow> standing d' = standing d" for row d d'
    using rec by (auto elim!: add_drv_record)
  then show "add_graph rt nx g db = Inr db' \<Longrightarrow> standing db' = standing db"
    unfolding add_graph_def by (auto simp: bindr_eq_Inr intro: foldr_res_invariant [where P = "\<lambda>d. standing d = standing db"])
qed

lemma standing_role: "add_role cid drv r db = Inr db' \<Longrightarrow> standing db' = standing db"
  by (auto simp: add_role_def bindr_eq_Inr standing_def)

lemma standing_judge: "standing (judge_drv aid result bef av act fl d db) = standing db"
  by (auto simp: judge_drv_def add_tests_def Let_def standing_def update_derivations_def split: option.splits)

lemma standing_release: "standing (release_targets a result db) = standing db" "standing (route_local a db) = standing db"
  "standing (mark_unseen a seen db) = standing db" "standing (mark_running cid db) = standing db" "standing (set_candidate i f db) = standing db"
  "standing (planned cid i drv recipe db) = standing db" "standing (finish_attempt now a result db) = standing db" "standing (set_running a db) = standing db"
  "standing (heartbeat now cid db) = standing db"
  by (simp_all add: release_targets_def route_local_def mark_unseen_def mark_running_def set_candidate_def planned_def finish_attempt_def set_running_def heartbeat_def
      Let_def standing_attempts standing_campaigns)

lemmas standing_facts = standing_commit standing_skip standing_times standing_graph standing_role standing_judge standing_release

lemma standing_ingest: "keeps (\<lambda>s. standing (k_db s) = v) (ingest w a)" "keeps (\<lambda>s. standing (k_db s) = v) (ingest_timesM w a)"
  unfolding ingest_def ingest_timesM_def Let_def
  by (intro keeps_intros standing_dbM standing_try; simp add: standing_facts)+

lemma standing_plan: "keeps (\<lambda>s. standing (k_db s) = v) (finish_plan w a)"
  unfolding finish_plan_def plan_line_def plan_row_def Let_def
  by (intro keeps_intros standing_dbM standing_try; simp add: standing_facts)

lemma standing_build: "keeps (\<lambda>s. standing (k_db s) = v) (finish_build w a result)"
  unfolding finish_build_def finish_drv_def Let_def
  by (intro keeps_intros standing_dbM standing_try; simp add: standing_facts)

lemma standing_complete: "keeps (\<lambda>s. standing (k_db s) = v) (complete w a result)"
  unfolding complete_def
  by (cases "at_kind a") (auto intro!: keeps_intros standing_dbM standing_plan standing_build simp: standing_facts)

lemma standing_reconcile: "keeps (\<lambda>s. standing (k_db s) = v) (reconcile w)"
  unfolding reconcile_def reconcile_attempt_def drain_def
  by (intro keeps_intros standing_dbM standing_complete standing_ingest; simp add: standing_facts)

lemma standing_tick_campaign: "cp_mode c \<noteq> Running_mode \<Longrightarrow> keeps (\<lambda>s. standing (k_db s) = v) (tick_campaign w c)"
  unfolding tick_campaign_def by (intro keeps_intros standing_dbM; simp add: standing_facts)

lemma standing_modes: "standing db' = standing db \<Longrightarrow> list_all (\<lambda>c. cp_mode c \<noteq> Running_mode) (campaigns db) \<Longrightarrow> list_all (\<lambda>c. cp_mode c \<noteq> Running_mode) (campaigns db')"
proof -
  assume a: "standing db' = standing db" and b: "list_all (\<lambda>c. cp_mode c \<noteq> Running_mode) (campaigns db)"
  have "set (map cp_mode (campaigns db')) = set (map cp_mode (campaigns db))" using a by (simp add: standing_def)
  then show ?thesis using b by (auto simp: list_all_iff) (metis image_iff)
qed

lemma standing_tick_campaigns:
  assumes "list_all (\<lambda>c. cp_mode c \<noteq> Running_mode) (campaigns (k_db s))" and "standing (k_db s) = v"
  shows "wp (tick_campaigns w) (\<lambda>_ s. standing (k_db s) = v) (\<lambda>s. standing (k_db s) = v) s"
proof -
  have "keeps (\<lambda>s. standing (k_db s) = v) (foreachM (tick_campaign w) (sort_key cp_created (campaigns (k_db s))))"
    using assms(1) by (intro keeps_foreach standing_tick_campaign) (auto simp: list_all_iff)
  then show ?thesis using keepsD assms(2) by (simp add: tick_campaigns_def)
qed

text \<open>C6. While no campaign is running, a tick starts nothing: it may finish attempts, but no attempt
  is added, removed or reordered and no campaign changes its mode, also when the tick fails half way.\<close>

theorem paused_admits_nothing:
  assumes "list_all (\<lambda>c. cp_mode c \<noteq> Running_mode) (campaigns (k_db s))"
  shows "map at_id (attempts (k_db (snd (tick w s)))) = map at_id (attempts (k_db s))
     \<and> map cp_mode (campaigns (k_db (snd (tick w s)))) = map cp_mode (campaigns (k_db s))"
proof -
  let ?S = "\<lambda>t. standing (k_db t) = standing (k_db s)"
  have "wp (reconcile w) (\<lambda>_. ?S) ?S s" by (rule keepsD [OF standing_reconcile]) simp
  then have "wp (tick w) (\<lambda>_. ?S) ?S s"
    unfolding tick_def wp_bind by (rule wp_mono) (use standing_tick_campaigns standing_modes assms in blast)+
  from wp_outcome [OF this] show ?thesis by (simp add: standing_def)
qed

definition paused_state :: ctl where
  "paused_state = sample_state (sample_db\<lparr>campaigns := [sample_campaign\<lparr>cp_mode := Paused\<rparr>]\<rparr>)"

theorem paused_admits_nothing_witness:
  "map at_id (attempts (k_db (snd (tick sample_world paused_state)))) = []"
  using paused_admits_nothing [of paused_state sample_world] by (simp add: paused_state_def sample_state_def sample_db_def empty_db_def)

end
