(* ===== verification/WorkerGuarantees.thy ===== *)
theory WorkerGuarantees
  imports AttemptWorker Samples
begin

text \<open>
  What the worker of an attempt guarantees: the log it keeps, the limits it respects, that it runs
  once and leaves a record, and that its evaluator sees exactly the value it was given.
\<close>

section \<open>The captured log\<close>

lemma new_filter_ready [simp]: "filter_ready new_filter"
  by (simp add: filter_ready_def new_filter_def BUFFER_def)

lemma new_filter_pending [simp]: "lf_pending new_filter = []" "lf_omitted_records new_filter = 0" "lf_omitted_bytes new_filter = 0"
  by (simp_all add: new_filter_def)


definition progress_runtime :: runtime where
  "progress_runtime = sample_runtime\<lparr>rt_loads := (\<lambda>s. if starts_with ''p'' s then Some (JObj [(''action'', JStr ''result''), (''type'', JInt 105),
     (''fields'', JArr [JInt 1, JInt 2, JInt 3, JInt 4])]) else None)\<rparr>"

definition sample_chunks :: "string list" where
  "sample_chunks = [''ab@n'', [NL] @ ''@ni'', ''x p'' @ [NL] @ ''q'']"

lemma sample_chunks_fit: "fits (concat sample_chunks)"
  by (simp add: fits_def sample_chunks_def BUFFER_def NL_def)


text \<open>Whatever the log contains, lines of any length included, every byte the filter was fed
  has been written, counted as omitted or still waits, and at most one buffer waits.\<close>

theorem filter_loses_nothing:
  assumes "filter_stream.feed_all rt ds new_filter = (st, out)"
  shows "length out + lf_omitted_bytes st + length (lf_pending st) = length (concat ds) \<and> length (lf_pending st) \<le> BUFFER"
proof -
  have "filter_stream.feed_all rt ds s = (t, o') \<Longrightarrow> length (lf_pending s) \<le> BUFFER \<Longrightarrow>
    length o' + lf_omitted_bytes t + length (lf_pending t) = length (concat ds) + lf_omitted_bytes s + length (lf_pending s)
    \<and> length (lf_pending t) \<le> BUFFER" for s t o'
  proof (induction ds arbitrary: s t o')
    case (Cons d es)
    obtain s1 o1 where 1: "filter_feed rt d s = (s1, o1)" by fastforce
    obtain o2 where 2: "filter_stream.feed_all rt es s1 = (t, o2)" "o' = o1 @ o2" using Cons.prems(1) 1 by (auto split: prod.splits)
    show ?case using filter_feed_conserves [OF 1] Cons.IH [OF 2(1)] 2(2) by simp
  qed auto
  from this [OF assms] show ?thesis by simp
qed

theorem filter_loses_nothing_witness:
  "\<exists>st out. filter_stream.feed_all progress_runtime [replicate 5 CHR ''x'', [NL]] new_filter = (st, out)
     \<and> length out + lf_omitted_bytes st + length (lf_pending st) = 6"
proof -
  obtain st out where "filter_stream.feed_all progress_runtime [replicate 5 CHR ''x'', [NL]] new_filter = (st, out)" by fastforce
  from filter_loses_nothing [OF this] this show ?thesis by auto
qed

section \<open>Activity times\<close>

text \<open>What the clock of a build maintains while time does not run backwards.\<close>

definition times_ok :: "timestamp \<Rightarrow> (string \<times> timing_row) list \<Rightarrow> bool" where
  "times_ok now rows \<longleftrightarrow> length rows \<le> 10000 \<and> distinct (map fst rows)
     \<and> (\<forall>r \<in> snd ` set rows. tr_started r \<le> now \<and> (\<forall>t. tr_finished r = Some t \<longrightarrow> tr_started r \<le> t \<and> t \<le> now))"

definition times_saved :: "times_state \<Rightarrow> bool" where
  "times_saved st \<longleftrightarrow> ts_saved st = (if ts_rows st = [] then None else Some (ts_rows st))"

lemma times_ok_later: "times_ok now rows \<Longrightarrow> now \<le> now' \<Longrightarrow> times_ok now' rows"
  by (fastforce simp: times_ok_def)

lemma dict_set_subset: "set (dict_set k v kvs) \<subseteq> insert (k, v) (set kvs)"
  by (induction k v kvs rule: dict_set.induct) auto

lemma times_ok_start: "times_ok now rows \<Longrightarrow> map_of rows key = None \<Longrightarrow> length rows < 10000 \<Longrightarrow>
   times_ok now (rows @ [(key, \<lparr>tr_drv = d, tr_started = now, tr_finished = None\<rparr>)])"
  by (auto simp: times_ok_def map_of_eq_None_iff)

lemma times_ok_stop:
  assumes "times_ok now rows" and "map_of rows key = Some r" and "tr_finished r = None"
  shows "times_ok now (dict_set key (r\<lparr>tr_finished := Some now\<rparr>) rows)"
proof -
  have "tr_started r \<le> now" using assms(1) map_of_SomeD [OF assms(2)] by (force simp: times_ok_def)
  moreover have "snd ` set (dict_set key (r\<lparr>tr_finished := Some now\<rparr>) rows) \<subseteq> insert (r\<lparr>tr_finished := Some now\<rparr>) (snd ` set rows)"
    using dict_set_subset [of key "r\<lparr>tr_finished := Some now\<rparr>" rows] by force
  moreover have "length (dict_set key (r\<lparr>tr_finished := Some now\<rparr>) rows) = length rows" using dict_set_finishes [OF assms(2,3)] by simp
  ultimately show ?thesis using assms(1) distinct_dict_set unfolding times_ok_def by fastforce
qed

lemma times_ok_event: "times_ok now rows \<Longrightarrow> times_ok now (times_event now key e rows)"
  unfolding times_event_def Let_def by (auto split: option.splits intro: times_ok_start times_ok_stop)

lemma times_ok_line: "times_ok now (ts_rows st) \<Longrightarrow> times_ok now (ts_rows (times_line rt now l st))"
  by (auto simp: times_line_def times_ok_event split: option.splits)

lemma times_line_saved [simp]: "ts_saved (times_line rt now l st) = ts_saved st"
  by (simp add: times_line_def split: option.splits)

lemma times_lines: 
  "times_ok now (ts_rows st) \<Longrightarrow> times_ok now (ts_rows (fold (times_line rt now) ls st)) \<and> ts_saved (fold (times_line rt now) ls st) = ts_saved st"
  by (induction ls arbitrary: st) (auto simp: times_ok_line)

lemma times_event_nonempty: "rows \<noteq> [] \<Longrightarrow> times_event now key e rows \<noteq> []"
  using times_event_grows [of now key e rows] by (auto simp: recorded_def finished_count_def)

lemma times_lines_nonempty: "ts_rows st \<noteq> [] \<Longrightarrow> ts_rows (fold (times_line rt now) ls st) \<noteq> []"
  by (induction ls arbitrary: st) (auto simp: times_line_def times_event_nonempty split: option.splits)

lemma times_feed_ok:
  assumes "times_ok now (ts_rows st)" and "times_saved st"
  shows "times_ok now (ts_rows (times_feed rt now data st)) \<and> times_saved (times_feed rt now data st)"
proof -
  let ?ls = "butlast (split_on NL (ts_pending st @ data))"
  have "times_ok now (ts_rows (fold (times_line rt now) ?ls st))" "ts_saved (fold (times_line rt now) ?ls st) = ts_saved st"
    using times_lines [OF assms(1)] by auto
  then show ?thesis using assms times_lines_nonempty [of st rt now ?ls]
    by (auto simp: times_feed_def Let_def times_saved_def)
qed

text \<open>Chunks with the times at which they arrive.\<close>

fun clocked :: "runtime \<Rightarrow> (timestamp \<times> string) list \<Rightarrow> times_state \<Rightarrow> times_state" where
  "clocked rt [] st = st"
| "clocked rt ((now, data) # rest) st = clocked rt rest (times_feed rt now data st)"

text \<open>While the clock does not run backwards, the recorded times stay within 10,000
  activities, one row each, every end is at or after its start and not in the future, and the
  file on disk always holds the recorded rows.\<close>

theorem activity_times_ordered:
  assumes "sorted (map fst feeds)" and "\<forall>t \<in> set (map fst feeds). t \<le> now"
  shows "times_ok now (ts_rows (clocked rt feeds new_times)) \<and> times_saved (clocked rt feeds new_times)"
proof -
  have "times_ok t (ts_rows st) \<Longrightarrow> times_saved st \<Longrightarrow> sorted (map fst feeds) \<Longrightarrow> \<forall>u \<in> set (map fst feeds). t \<le> u \<and> u \<le> now \<Longrightarrow> t \<le> now \<Longrightarrow>
    times_ok now (ts_rows (clocked rt feeds st)) \<and> times_saved (clocked rt feeds st)" for t st
  proof (induction feeds arbitrary: t st)
    case (Cons f feeds)
    obtain u d where f: "f = (u, d)" by (cases f)
    have "times_ok u (ts_rows st)" using Cons.prems times_ok_later f by auto
    then show ?case using Cons.IH [of u "times_feed rt u d st"] Cons.prems times_feed_ok f by simp
  qed (auto intro: times_ok_later)
  from this [of "if feeds = [] then now else fst (hd feeds)" new_times] assms show ?thesis
    by (cases feeds) (auto simp: times_ok_def times_saved_def new_times_def)
qed

definition start_runtime :: runtime where
  "start_runtime = sample_runtime\<lparr>rt_loads := (\<lambda>s. if starts_with ''s'' s then Some (JObj [(''action'', JStr ''start''), (''id'', JInt 7), (''type'', JInt 105),
       (''fields'', JArr [JStr (''/nix/store/'' @ replicate 32 CHR ''a'' @ ''-x.drv'')])])
     else if starts_with ''e'' s then Some (JObj [(''action'', JStr ''stop''), (''id'', JInt 7)]) else None)\<rparr>"

definition sample_feeds :: "(timestamp \<times> string) list" where
  "sample_feeds = [(1, ''@nix s''), (2, [NL] @ ''@nix e'' @ [NL])]"

theorem activity_times_ordered_witness:
  "times_ok 3 (ts_rows (clocked start_runtime sample_feeds new_times)) \<and> times_saved (clocked start_runtime sample_feeds new_times)"
  by (rule activity_times_ordered) (simp_all add: sample_feeds_def)

section \<open>The build loop\<close>

text \<open>C23. Whatever the build prints and whenever it is cancelled: the two logs together stay within
  the byte budget, the count of written bytes is exact, the process group is interrupted at most
  once and only with a recorded reason, and it is killed only after it was interrupted.\<close>

theorem worker_respects_limits:
  assumes "build_loop rt pol turns (start_build now) = (ended, st)"
  shows "int (length (bs_out st) + length (bs_err st)) \<le> max 0 (p_log_bytes pol)
     \<and> bs_written st = int (length (bs_out st) + length (bs_err st))
     \<and> length (filter (\<lambda>k. k = SIGINT) (bs_kills st)) \<le> 1
     \<and> (bs_kills st \<noteq> [] \<longrightarrow> SIGINT \<in> set (bs_kills st) \<and> bs_reason st \<noteq> None)
     \<and> (bs_reason st \<noteq> None \<longrightarrow> bs_signalled st \<noteq> None)"
proof -
  have inv: "loop_inv pol st" using loop_inv_loop [OF loop_inv_start, of pol rt turns now] assms by simp
  then have "filter (\<lambda>k. k = SIGINT) (bs_kills st) = (if bs_signalled st = None then [] else [SIGINT])" by (simp add: loop_inv_def)
  then have "length (filter (\<lambda>k. k = SIGINT) (bs_kills st)) \<le> 1" "bs_signalled st \<noteq> None \<Longrightarrow> SIGINT \<in> set (bs_kills st)"
    by (auto simp: filter_eq_Cons_iff)
  then show ?thesis using inv unfolding loop_inv_def by auto
qed

definition sample_turn :: "rat \<Rightarrow> io_event list \<Rightarrow> loop_turn" where
  "sample_turn t evs = \<lparr>lt_alive = True, lt_now = t, lt_stamp = t, lt_exited = False, lt_events = evs\<rparr>"

theorem worker_respects_limits_witness:
  "\<exists>ended st. build_loop sample_runtime (sample_policy\<lparr>p_log_bytes := 3\<rparr>) [sample_turn 1 [Out_bytes ''abcdef''], sample_turn 20 []] (start_build 1) = (ended, st)
     \<and> bs_out st = ''abc'' \<and> bs_reason st = Some ''log-limit'' \<and> int (length (bs_out st) + length (bs_err st)) \<le> 3 \<and> length (filter (\<lambda>k. k = SIGINT) (bs_kills st)) \<le> 1"
proof -
  let ?p = "sample_policy\<lparr>p_log_bytes := 3\<rparr>"
  obtain ended st where r: "build_loop sample_runtime ?p [sample_turn 1 [Out_bytes ''abcdef''], sample_turn 20 []] (start_build 1) = (ended, st)" by fastforce
  then have "bs_out st = ''abc'' \<and> bs_reason st = Some ''log-limit''"
    by (auto simp: sample_turn_def build_turn_def watchdog_def write_bytes_def start_build_def unsignalled_def interrupt_build_def stop_build_def
        Let_def sample_policy_def DEFAULT_POLICY_def SILENCE_GRACE_def)
  then show ?thesis using worker_respects_limits [OF r] r by auto
qed

text \<open>The record of a build that is cancelled before its output exceeds the budget says that nothing
  was cut, although the log lacks the bytes beyond the budget.\<close>

lemma cancelled_log_cut:
  "\<exists>st. build_loop sample_runtime (sample_policy\<lparr>p_log_bytes := 3\<rparr>) [sample_turn 1 [Sigterm, Out_bytes ''abcdef'']] (start_build 1) = (False, st)
     \<and> bs_out st = ''abc'' \<and> \<not> re_truncated (build_result 1 (bs_reason st))"
  by (simp add: sample_turn_def build_turn_def watchdog_def write_bytes_def start_build_def unsignalled_def interrupt_build_def stop_build_def
      Let_def sample_policy_def DEFAULT_POLICY_def SILENCE_GRACE_def build_result_def plain_result_def)

text \<open>Once interrupted, a build stays interrupted and nothing is taken back from the signals sent.\<close>

definition signals_kept :: "build_state \<Rightarrow> build_state \<Rightarrow> bool" where
  "signals_kept a b \<longleftrightarrow> (\<exists>new. bs_kills b = bs_kills a @ new) \<and> (bs_signalled a \<noteq> None \<longrightarrow> bs_signalled b = bs_signalled a)"

lemma signals_kept_refl [simp]: "signals_kept a a"
  by (simp add: signals_kept_def)

lemma signals_kept_trans: "signals_kept a b \<Longrightarrow> signals_kept b c \<Longrightarrow> signals_kept a c"
  by (auto simp: signals_kept_def)

lemma signals_kept_fields [simp]:
  "signals_kept a (b\<lparr>bs_last := x\<rparr>) = signals_kept a b" "signals_kept a (b\<lparr>bs_out_open := o'\<rparr>) = signals_kept a b"
  "signals_kept a (b\<lparr>bs_err_open := o'\<rparr>) = signals_kept a b" "signals_kept a (b\<lparr>bs_filter := f\<rparr>) = signals_kept a b"
  "signals_kept a (b\<lparr>bs_out := x'\<rparr>) = signals_kept a b" "signals_kept a (b\<lparr>bs_err := x'\<rparr>) = signals_kept a b"
  "signals_kept a (b\<lparr>bs_times := ts\<rparr>) = signals_kept a b" "signals_kept a (b\<lparr>bs_written := n\<rparr>) = signals_kept a b"
  by (simp_all add: signals_kept_def)

lemma signals_kept_stop: "signals_kept a b \<Longrightarrow> signals_kept a (stop_build now why b)"
  by (auto simp: signals_kept_def stop_build_def)

lemma signals_kept_interrupt: "signals_kept a b \<Longrightarrow> signals_kept a (interrupt_build now why b)"
  using signals_kept_stop [of a b now "''interrupted''"] by (auto simp: signals_kept_def interrupt_build_def)

lemma signals_kept_write: "signals_kept a b \<Longrightarrow> signals_kept a (write_bytes rt pol t e data b)"
  unfolding write_bytes_def Let_def by (auto intro!: signals_kept_interrupt)

lemma signals_kept_watchdog: "signals_kept a b \<Longrightarrow> signals_kept a (watchdog pol t b)"
  using signals_kept_interrupt [of a b "lt_now t" "''timeout''"] by (auto simp: watchdog_def Let_def signals_kept_def)

lemma signals_kept_io: "signals_kept a b \<Longrightarrow> signals_kept a (handle_io rt pol t ev b)"
  by (cases ev) (auto intro!: signals_kept_stop signals_kept_write simp: Let_def split: prod.splits)

lemma signals_kept_events: "signals_kept a b \<Longrightarrow> signals_kept a (fold (handle_io rt pol t) evs b)"
  by (induction evs arbitrary: b) (auto intro: signals_kept_io)

lemma signals_kept_turn: "signals_kept a b \<Longrightarrow> signals_kept a (build_turn rt pol t b)"
  unfolding build_turn_def by (intro signals_kept_events signals_kept_watchdog)

lemma signals_kept_loop: "signals_kept a b \<Longrightarrow> signals_kept a (snd (build_loop rt pol ts b))"
  by (induction ts arbitrary: b) (auto intro: signals_kept_turn)

text \<open>C24. A build that exceeds its wall time is interrupted in the first turn that sees it, and if
  it still runs more than 15 seconds later it is killed, whatever happens in between.\<close>

theorem overlong_build_killed:
  assumes "bs_signalled st = None" and "lt_now t - bs_start st > of_int (p_wall_seconds pol)" and "0 < lt_now t"
    and "bs_out_open st \<or> bs_err_open st \<or> lt_alive t"
    and "lt_now u - lt_now t > 15" and "\<not> lt_exited u" and "lt_alive u" and "\<forall>m \<in> set between. lt_alive m"
  shows "bs_signalled (build_turn rt pol t st) = Some (lt_now t)
     \<and> SIGKILL \<in> set (bs_kills (snd (build_loop rt pol (t # between @ u # later) st)))"
proof -
  have w: "bs_signalled (watchdog pol t st) = Some (lt_now t)"
    using assms(1-3) by (auto simp: watchdog_def Let_def unsignalled_def interrupt_build_def stop_build_def)
  have t: "bs_signalled (build_turn rt pol t st) = Some (lt_now t)"
    using signals_kept_events [OF signals_kept_refl, of "watchdog pol t st" rt pol t "lt_events t"] w
    by (auto simp: build_turn_def signals_kept_def)
  have run: "bs_signalled s = Some (lt_now t) \<Longrightarrow> \<forall>m \<in> set ms. lt_alive m \<Longrightarrow>
      SIGKILL \<in> set (bs_kills (snd (build_loop rt pol (ms @ u # later) s)))" for ms s
  proof (induction ms arbitrary: s)
    case Nil
    have "SIGKILL \<in> set (bs_kills (watchdog pol u s))" using Nil assms(3,5,6) by (auto simp: watchdog_def Let_def unsignalled_def)
    moreover have "signals_kept (watchdog pol u s) (snd (build_loop rt pol later (build_turn rt pol u s)))"
      unfolding build_turn_def by (intro signals_kept_loop signals_kept_events) simp
    ultimately show ?case using assms(7) by (auto simp: signals_kept_def)
  next
    case (Cons m ms)
    have "bs_signalled (build_turn rt pol m s) = Some (lt_now t)"
      using signals_kept_turn [OF signals_kept_refl, of s rt pol m] Cons.prems(1) by (simp add: signals_kept_def)
    then show ?case using Cons by simp
  qed
  show ?thesis using t run [OF t assms(8)] assms(4) by auto
qed

theorem overlong_build_killed_witness:
  "SIGKILL \<in> set (bs_kills (snd (build_loop sample_runtime (sample_policy\<lparr>p_wall_seconds := 5\<rparr>)
     ([sample_turn 7 [Err_bytes ''x'']] @ sample_turn 8 [Sigterm] # sample_turn 23 [] # []) (start_build 1))))"
  using overlong_build_killed [where st = "start_build 1" and t = "sample_turn 7 [Err_bytes ''x'']" and pol = "sample_policy\<lparr>p_wall_seconds := 5\<rparr>"
      and u = "sample_turn 23 []" and between = "[sample_turn 8 [Sigterm]]" and rt = sample_runtime and later = "[]"]
  by (simp add: start_build_def sample_turn_def)

section \<open>One run\<close>

lemma plan_work_done: "sp_kind spec = Plan \<Longrightarrow> work_done w spec f"
  by (auto simp: work_done_def run_work_def bindM_def liftM_def raiseM_def returnM_def split: sum.splits prod.splits)


definition plan_spec :: attempt_spec where
  "plan_spec = make_spec sample_campaign Plan [TPlan 1 (JArr [JStr ''hello'']), TPlan 2 (JArr [JStr ''bad''])] sample_policy no_extra"

definition hello_drv :: string where
  "hello_drv = ''/nix/store/'' @ replicate 32 CHR ''a'' @ ''-hello.drv''"

definition sample_recipe :: json where
  "sample_recipe = JObj [(''drv'', JStr hello_drv)]"

definition sample_plan_world :: plan_world where
  "sample_plan_world = \<lparr>pw_rt = sample_runtime\<lparr>rt_loads := (\<lambda>s. if s = ''r'' then Some sample_recipe else None)\<rparr>, pw_planner = ''planner.nix'', pw_decode = (\<lambda>s. s),
     pw_eval = (\<lambda>e. if contains ''hello'' e then Inr \<lparr>er_code = 0, er_stdout = ''r'', er_stderr = []\<rparr> else Inr \<lparr>er_code = 1, er_stdout = [], er_stderr = ''no such attribute''\<rparr>),
     pw_graph = (\<lambda>d. Inr (JObj [(d, JObj [(''name'', JStr ''n''), (''outputs'', JObj []), (''inputDrvs'', JObj [])])]))\<rparr>"

definition sample_run_world :: run_world where
  "sample_run_world = \<lparr>rw_locked = False, rw_now = 9, rw_version = Inr ''2'', rw_plan = sample_plan_world,
     rw_build = \<lparr>bw_rt = sample_runtime, bw_path_info = (\<lambda>_. None), bw_limits = Inl [], bw_initial = Inl [], bw_after = Inl [],
       bw_spawn = Inr (), bw_start = 0, bw_turns = [], bw_code = 0\<rparr>\<rparr>"

definition sample_uuid :: string where
  "sample_uuid = ''01234567-89ab-4cde-8f01-23456789abcd''"

lemma sample_uuid_canonical: "canonical_uuid sample_uuid"
  by code_simp


section \<open>Planning\<close>

text \<open>When planning returns, the rows on disk are one line per target of the specification, in
  its order: either an error of at most 8,000 characters, or a recipe with a derivation whose graph,
  of the known schema, is already on disk under the name the row gives.\<close>

theorem plan_rows_complete:
  assumes "worker_plan w spec f = (Inr r, f')"
  shows "re_reason r = ''completed'' \<and> (\<exists>rows. f_plan f' = Some (rows_text w rows) \<and> (\<forall>row \<in> set rows. row_complete f' row)
     \<and> map json_id rows = map (Some \<circ> JInt) (plan_ids (sp_targets spec)))"
  by (rule worker_plan_rows [OF assms])

theorem plan_rows_complete_witness:
  "\<exists>r f' rows. worker_plan sample_plan_world plan_spec empty_folder = (Inr r, f') \<and> f_plan f' = Some (rows_text sample_plan_world rows)
     \<and> map json_id rows = [Some (JInt 1), Some (JInt 2)]"
proof -
  have hello: "contains ''hello'' (planner_expr sample_plan_world ''src'' (JArr [JStr ''hello'']))"
    and bad: "\<not> contains ''hello'' (planner_expr sample_plan_world ''src'' (JArr [JStr ''bad'']))" by code_simp+
  have "\<not> isl (normalize_graph (JObj [(hello_drv, JObj [(''name'', JStr ''n''), (''outputs'', JObj []), (''inputDrvs'', JObj [])])]))" by code_simp
  then obtain rows where g: "normalize_graph (JObj [(hello_drv, JObj [(''name'', JStr ''n''), (''outputs'', JObj []), (''inputDrvs'', JObj [])])]) = Inr rows"
    by (auto simp: isl_def split: sum.splits) (metis sum.exhaust)
  have graph: "pw_graph sample_plan_world d = Inr (JObj [(d, JObj [(''name'', JStr ''n''), (''outputs'', JObj []), (''inputDrvs'', JObj [])])])" for d
    by (simp add: sample_plan_world_def)
  have eval: "pw_eval sample_plan_world e = (if contains ''hello'' e then Inr \<lparr>er_code = 0, er_stdout = ''r'', er_stderr = []\<rparr> else Inr \<lparr>er_code = 1, er_stdout = [], er_stderr = ''no such attribute''\<rparr>)" for e
    by (simp add: sample_plan_world_def)
  have load: "rt_loads (pw_rt sample_plan_world) ''r'' = Some sample_recipe" by (simp add: sample_plan_world_def)
  have "\<exists>r f'. worker_plan sample_plan_world plan_spec empty_folder = (Inr r, f')" using g
    by (auto simp: worker_plan_def plan_spec_def make_spec_def sample_campaign_def no_extra_def plan_target_def plan_row_of_def plan_recipe_def eval load hello bad
        bindM_def modifyM_def liftM_def returnM_def raiseM_def caughtM_def append_log_def write_row_def sample_recipe_def jindex_def graph)
  then obtain r f' where "worker_plan sample_plan_world plan_spec empty_folder = (Inr r, f')" by blast
  moreover have "map (Some \<circ> JInt) (plan_ids (sp_targets plan_spec)) = [Some (JInt 1), Some (JInt 2)]" by code_simp
  ultimately show ?thesis using plan_rows_complete [of sample_plan_world plan_spec empty_folder r f'] by auto
qed

section \<open>Values for the evaluator\<close>

text \<open>The literal that the worker splices into a Nix expression is one constant string of the
  Nix language, never an interpolation, and its value is the canonical JSON text of the given value,
  whatever characters that has.\<close>

theorem literal_is_constant:
  assumes "\<forall>x. list_all printable (fl x)"
  shows "nix_string (nix_literal fl v) = Some (encode fl v)"
  using nix_string_literal assms by blast

theorem literal_is_constant_witness:
  "nix_string (nix_literal (\<lambda>_. ''0'') (JStr (''$'' @ [CHR 0x7B, CHR 0x22, CHR 0x5C]))) = Some (encode (\<lambda>_. ''0'') (JStr (''$'' @ [CHR 0x7B, CHR 0x22, CHR 0x5C])))"
  by (rule literal_is_constant) (simp add: printable_def)

text \<open>Two manifests without floats have the same identity exactly when they are equal: the
  canonical text is injective, so only a collision of the hash could confuse them.\<close>

theorem identity_injective:
  assumes "canonical v" and "canonical w" and "inj sha256"
  shows "identity sha256 fl v = identity sha256 fl w \<longleftrightarrow> v = w"
  using encode_inj [OF assms(1,2), of fl] assms(3) by (auto simp: identity_def inj_def)

theorem identity_injective_witness:
  "identity (\<lambda>s. s) (\<lambda>_. ''0'') (JObj [(''a'', JArr [JInt 1, JInt 2])]) \<noteq> identity (\<lambda>s. s) (\<lambda>_. ''0'') (JObj [(''a'', JArr [JInt 12])])"
  using identity_injective [of "JObj [(''a'', JArr [JInt 1, JInt 2])]" "JObj [(''a'', JArr [JInt 12])]" "\<lambda>s. s" "\<lambda>_. ''0''"] by simp

end
