(* ===== verification/RecordGuarantees.thy ===== *)
theory RecordGuarantees
  imports Safety Samples
begin

text \<open>
  What the records of the database guarantee: how a campaign enters it, whose evidence an outcome
  rests on, which observations are accepted, and what the server does with a malformed request.
\<close>

section \<open>Importing a campaign\<close>

text \<open>The candidates that an import has added so far.\<close>

definition imported :: "database \<Rightarrow> string \<Rightarrow> json list \<Rightarrow> database \<Rightarrow> bool" where
  "imported db cid paths d \<longleftrightarrow> (\<exists>new. d = db\<lparr>candidates := candidates db @ new\<rparr> \<and> map c_attr new = paths
     \<and> unique_keys c_id (candidates db @ new) \<and> list_all (\<lambda>c. c_campaign c = cid \<and> c_state c \<in> {Unplanned, Excluded}) new)"

lemma next_candidate_fresh: "c \<in> set (candidates db) \<Longrightarrow> c_id c < next_candidate_id db"
proof -
  have "x \<in> set xs \<Longrightarrow> x \<le> fold max xs (a :: int)" and "a \<le> fold max xs a" for x xs a
    by (induction xs arbitrary: a) (auto, (meson max.cobounded1 max.cobounded2 order_trans)+)
  then show "c \<in> set (candidates db) \<Longrightarrow> c_id c < next_candidate_id db" by (force simp: next_candidate_id_def)
qed

lemma imported_insert:
  "imported db cid ps d \<Longrightarrow> imported db cid (ps @ paths) (insert_candidates fl cid selected paths d)"
proof (induction paths arbitrary: ps d)
  case (Cons p paths)
  let ?c = "\<lparr>c_id = next_candidate_id d, c_campaign = cid, c_attr = p, c_label = attr_label p,
         c_selection = (case map_of selected (encode fl p) of None \<Rightarrow> JObj [] | Some s \<Rightarrow> s),
         c_state = Unplanned, c_drv = None, c_recipe = None, c_error = None\<rparr>"
  obtain new where new: "d = db\<lparr>candidates := candidates db @ new\<rparr>" "map c_attr new = ps" "unique_keys c_id (candidates db @ new)"
    "list_all (\<lambda>c. c_campaign c = cid \<and> c_state c \<in> {Unplanned, Excluded}) new"
    using Cons.prems unfolding imported_def by blast
  have "next_candidate_id d \<notin> c_id ` set (candidates d)" using next_candidate_fresh by fastforce
  then have "unique_keys c_id (candidates db @ new @ [?c])" using new(1,3) by (auto simp: unique_keys_def)
  then have "imported db cid (ps @ [p]) (d\<lparr>candidates := candidates d @ [?c]\<rparr>)"
    unfolding imported_def using new by (intro exI [of _ "new @ [?c]"]) simp
  from Cons.IH [OF this] show ?case by (simp add: insert_candidates_def)
qed (simp add: insert_candidates_def)

lemma imported_exclude:
  assumes "imported db cid ps d" and "\<forall>c \<in> set (candidates db). c_campaign c \<noteq> cid" and "exclude_selection fl cid sel d = Inr d'"
  shows "imported db cid ps d'"
proof -
  obtain new where new: "d = db\<lparr>candidates := candidates db @ new\<rparr>" "map c_attr new = ps" "unique_keys c_id (candidates db @ new)"
    "list_all (\<lambda>c. c_campaign c = cid \<and> c_state c \<in> {Unplanned, Excluded}) new"
    using assms(1) unfolding imported_def by blast
  from assms(3) consider "d' = d" | P where "d' = d\<lparr>candidates := sql_update (\<lambda>c. c_campaign c = cid \<and> P c) (\<lambda>c. c\<lparr>c_state := Excluded, c_error := Some REASON\<rparr>) (candidates d)\<rparr>"
    by (auto simp: exclude_selection_def bindr_eq_Inr split: if_splits)
  then show ?thesis
  proof cases
    case (2 P)
    let ?u = "\<lambda>c. if c_campaign c = cid \<and> P c then c\<lparr>c_state := Excluded, c_error := Some REASON\<rparr> else c"
    have "map ?u (candidates db) = candidates db" using assms(2) by (simp add: map_idI)
    then have "d' = db\<lparr>candidates := candidates db @ map ?u new\<rparr>" using 2 new(1) by (simp add: sql_update_def)
    moreover have "map c_attr (map ?u new) = ps" using new(2) by auto
    moreover have "map c_id (map ?u new) = map c_id new" by simp
    then have "map c_id (candidates db @ map ?u new) = map c_id (candidates db @ new)" by (simp only: map_append)
    then have "unique_keys c_id (candidates db @ map ?u new)" using new(3) by (simp only: unique_keys_def)
    moreover have "list_all (\<lambda>c. c_campaign c = cid \<and> c_state c \<in> {Unplanned, Excluded}) (map ?u new)" using new(4) by (auto simp: list_all_iff)
    ultimately show ?thesis unfolding imported_def by blast
  qed (use assms(1) in simp)
qed

lemma import_rows:
  assumes "import_campaign fl sha now cid name manifest source revision pol nix_version selections db = Inr (r, db')"
    and "\<forall>c \<in> set (candidates db). c_campaign c \<noteq> cid" and "unique_keys c_id (candidates db)"
  obtains paths d new e where "bindr (jindex ''attrPaths'' manifest) jlist = Inr paths" and "paths \<noteq> []" and "distinct (map (encode fl) paths)"
    and "r = cid" and "imported (db\<lparr>campaigns := campaigns db @ [new]\<rparr>) cid paths d" and "cp_id new = cid" and "cp_mode new = Paused" and "db' = event now cid ''imported'' e d"
proof -
  obtain paths selected d where f: "bindr (jindex ''attrPaths'' manifest) jlist = Inr paths" "paths \<noteq> []" "distinct (map (encode fl) paths)"
    "foldr_res (exclude_selection fl cid) selections (insert_candidates fl cid selected paths (db\<lparr>campaigns := campaigns db @ [\<lparr>cp_id = cid, cp_name = name, cp_created = now,
           cp_mode = Paused, cp_manifest = manifest, cp_source = source, cp_revision = revision,
           cp_policy = pol, cp_nix_version = nix_version, cp_hold = [], cp_heartbeat = None\<rparr>]\<rparr>)) = Inr d"
    "r = cid" "db' = event now cid ''imported'' (JObj [(''count'', JInt (int (length paths))), (''manifestSha256'', JStr (identity sha fl manifest))]) d"
    using assms(1) by (auto simp: import_campaign_def Let_def bindr_eq_Inr)
  let ?new = "\<lparr>cp_id = cid, cp_name = name, cp_created = now, cp_mode = Paused, cp_manifest = manifest, cp_source = source, cp_revision = revision,
           cp_policy = pol, cp_nix_version = nix_version, cp_hold = [], cp_heartbeat = None\<rparr>"
  let ?db = "db\<lparr>campaigns := campaigns db @ [?new]\<rparr>"
  have "imported ?db cid [] ?db" using assms(3) by (auto simp: imported_def)
  from imported_insert [OF this] have i: "imported ?db cid paths (insert_candidates fl cid selected paths ?db)" by simp
  have "imported ?db cid paths d"
    by (rule foldr_res_invariant [where P = "imported ?db cid paths", OF f(4) i]) (rule imported_exclude, assumption, simp add: assms(2), assumption)
  then show thesis using that [of paths ?new d] f by simp
qed

lemma imported_consistent:
  assumes "consistent db" and "imported (db\<lparr>campaigns := campaigns db @ [new]\<rparr>) cid paths d" and "cp_id new = cid"
    and "cid \<notin> cp_id ` set (campaigns db)" and "\<forall>a \<in> set (attempts db). at_campaign a \<noteq> cid"
  shows "consistent d"
proof -
  obtain add where d: "d = db\<lparr>campaigns := campaigns db @ [new], candidates := candidates db @ add\<rparr>" "unique_keys c_id (candidates db @ add)"
    "list_all (\<lambda>c. c_campaign c = cid \<and> c_state c \<in> {Unplanned, Excluded}) add"
    using assms(2) by (auto simp: imported_def)
  have act: "active_attempts d = active_attempts db" "active_builds d = active_builds db" using d(1) by (simp_all add: active_attempts_def active_builds_def)
  have own: "\<exists>a \<in> set (active_builds db). at_campaign a \<noteq> cid" if "active_builds db \<noteq> []"
  proof -
    have "hd (active_builds db) \<in> set (active_builds db)" using that by simp
    moreover have "set (active_builds db) \<subseteq> set (attempts db)" by (auto simp: active_builds_def active_attempts_def)
    ultimately show ?thesis using assms(5) by blast
  qed
  have "within_budget d" unfolding within_budget_def
  proof (intro ballI allI impI)
    fix p cpus assume p: "p \<in> set (campaigns d)" and c: "active_builds d \<noteq> [] \<and> (\<forall>a \<in> set (active_builds d). at_campaign a = cp_id p) \<and> cpu_set (p_cpus (cp_policy p)) = Inr cpus"
    have "cp_id p \<noteq> cid" using own c act by auto
    then have "p \<in> set (campaigns db)" using p assms(3) d(1) by auto
    then show "local_load d \<le> int (card cpus)" using assms(1) c act by (simp add: consistent_def attempts_ok_def within_budget_def local_load_def)
  qed
  moreover have "attempts d = attempts db" using d(1) by simp
  moreover have "one_campaign d = one_campaign db" "one_planner d = one_planner db" "positive_limits d = positive_limits db"
    by (simp_all only: one_campaign_def one_planner_def positive_limits_def act)
  ultimately have "attempts_ok d" using assms(1) unfolding consistent_def attempts_ok_def by simp
  moreover have roots: "running_roots d = running_roots db" using act by (simp add: running_roots_def fun_eq_iff)
  have "list_all (candidate_ok (running_roots d)) add" using d(3) by (auto simp: list_all_iff candidate_ok_def)
  then have "candidates_ok d" using assms(1) d(1,2) roots by (simp add: consistent_def candidates_ok_def)
  moreover have "unique_keys cp_id (campaigns d)" using assms(1,3,4) d(1) by (simp add: consistent_def unique_keys_def)
  ultimately show ?thesis by (simp add: consistent_def)
qed


text \<open>C9. Importing a campaign under a new identifier keeps the database consistent and adds the
  campaign, paused, with one candidate per attribute path of its manifest, in order, unplanned or
  excluded, so that everything that holds in reachable states holds from the first import on.\<close>

theorem import_starts_consistent:
  assumes "consistent db" and "import_campaign fl sha now cid name manifest source revision pol nix_version selections db = Inr (r, db')"
    and "cid \<notin> cp_id ` set (campaigns db)" and "\<forall>c \<in> set (candidates db). c_campaign c \<noteq> cid" and "\<forall>a \<in> set (attempts db). at_campaign a \<noteq> cid"
  shows "consistent db' \<and> r = cid \<and> (\<exists>p. campaigns db' = campaigns db @ [p] \<and> cp_id p = cid \<and> cp_mode p = Paused)
     \<and> (\<exists>paths add. bindr (jindex ''attrPaths'' manifest) jlist = Inr paths \<and> candidates db' = candidates db @ add \<and> map c_attr add = paths \<and> paths \<noteq> []
          \<and> list_all (\<lambda>c. c_campaign c = cid \<and> c_state c \<in> {Unplanned, Excluded}) add)"
proof -
  have u: "unique_keys c_id (candidates db)" using assms(1) by (simp add: consistent_def candidates_ok_def)
  obtain paths d new e where f: "bindr (jindex ''attrPaths'' manifest) jlist = Inr paths" "paths \<noteq> []" "r = cid"
    "imported (db\<lparr>campaigns := campaigns db @ [new]\<rparr>) cid paths d" "cp_id new = cid" "cp_mode new = Paused" "db' = event now cid ''imported'' e d"
    by (rule import_rows [OF assms(2,4) u]) blast
  have "consistent d" by (rule imported_consistent [OF assms(1) f(4,5) assms(3,5)])
  then have "consistent db'" unfolding f(7) by (rule same_consistent [OF same_view_event])
  moreover obtain add where "d = db\<lparr>campaigns := campaigns db @ [new], candidates := candidates db @ add\<rparr>" "map c_attr add = paths"
    "list_all (\<lambda>c. c_campaign c = cid \<and> c_state c \<in> {Unplanned, Excluded}) add" using f(4) by (auto simp: imported_def)
  ultimately show ?thesis using f by (simp add: event_def)
qed

definition sample_manifest :: json where
  "sample_manifest = JObj [(''attrPaths'', JArr [JArr [JStr ''hello''], JArr [JStr ''linux'']])]"

definition sample_selections :: "json list" where
  "sample_selections = [JObj [(''attrPath'', JArr [JStr ''hello''])]]"

lemma empty_consistent: "consistent empty_db"
  by (simp add: consistent_def attempts_ok_def candidates_ok_def unique_keys_def one_campaign_def one_planner_def positive_limits_def within_budget_def
      empty_db_def active_attempts_def active_builds_def local_builds_def)

theorem import_starts_consistent_witness:
  "\<exists>db'. import_campaign (\<lambda>_. ''0'') (\<lambda>s. s) 1 ''c1'' ''n'' sample_manifest ''src'' ''rev'' sample_policy ''2'' sample_selections empty_db = Inr (''c1'', db')
     \<and> consistent db' \<and> length (candidates db') = 2"
proof -
  let ?i = "import_campaign (\<lambda>_. ''0'') (\<lambda>s. s) 1 ''c1'' ''n'' sample_manifest ''src'' ''rev'' sample_policy ''2'' sample_selections empty_db"
  have "isl ?i = False" by code_simp
  then obtain r db' where i: "?i = Inr (r, db')" by (cases ?i) auto
  have p: "bindr (jindex ''attrPaths'' sample_manifest) jlist = Inr [JArr [JStr ''hello''], JArr [JStr ''linux'']]" by code_simp
  have "consistent db' \<and> r = ''c1'' \<and> (\<exists>paths add. bindr (jindex ''attrPaths'' sample_manifest) jlist = Inr paths \<and> candidates db' = candidates empty_db @ add \<and> map c_attr add = paths)"
    using import_starts_consistent [OF empty_consistent i] by (auto simp: empty_db_def)
  then show ?thesis using i p by (auto simp: empty_db_def dest: arg_cong [of _ _ length])
qed

section \<open>Outcomes\<close>

text \<open>The outcome that a batch records for a derivation is about that batch: the derivation was
  built in it, and an outcome other than unknown rests on a check that the batch itself ran or on
  evidence recorded by the batch itself, never on the outputs of another.\<close>

theorem outcome_is_own:
  assumes "map_of (snapshot db aid) drv = Some out"
  shows "(\<exists>a \<in> set (activities db). av_attempt a = aid \<and> av_kind a = Some ''build'' \<and> av_drv a = Some drv)
     \<and> (out = ''unknown'' \<or> checked db aid drv \<or> (\<exists>d. find_drv db drv = Some d \<and> d_evidence_attempt d = Some aid))"
proof -
  have m: "drv \<in> set (built_drvs db aid)" "out = outcome db aid drv" using assms snapshot_lookup [of db aid drv] by (auto split: if_splits)
  then have "\<exists>a \<in> set (activities db). av_attempt a = aid \<and> av_kind a = Some ''build'' \<and> av_drv a = Some drv" unfolding set_built_drvs by blast
  then show ?thesis using outcome_owned [of db aid drv] m(2) by blast
qed

definition observed_db :: database where
  "observed_db = sample_db\<lparr>activities := [\<lparr>av_attempt = ''a1'', av_activity = ''1'', av_drv = Some ''d1'', av_kind = Some ''build'', av_phase = None, av_checks = [], av_stopped = True\<rparr>],
     derivations := [(new_derivation ''d1'' ''n1'' [])\<lparr>d_failure := Some ''build'', d_evidence_attempt := Some ''a1''\<rparr>]\<rparr>"

theorem outcome_is_own_witness:
  "map_of (snapshot observed_db ''a1'') ''d1'' = Some ''failed'' \<and> (\<exists>d. find_drv observed_db ''d1'' = Some d \<and> d_evidence_attempt d = Some ''a1'')"
proof -
  have s: "map_of (snapshot observed_db ''a1'') ''d1'' = Some ''failed''" by code_simp
  moreover have "\<not> checked observed_db ''a1'' ''d1''" by code_simp
  ultimately show ?thesis using outcome_is_own [OF s] by auto
qed

text \<open>Completing old records is idempotent, leaves none incomplete, and changes nothing but
  the results of finished builds that had no outcomes: attempts keep their number, order, identity and
  state.\<close>

theorem backfill_completes_once:
  "backfill (backfill db) = backfill db \<and> filter needs_backfill (attempts (backfill db)) = []
   \<and> map (\<lambda>a. (at_id a, at_kind a, at_state a, at_spec a, at_targets a, at_created a, at_finished a, at_offset a)) (attempts (backfill db))
     = map (\<lambda>a. (at_id a, at_kind a, at_state a, at_spec a, at_targets a, at_created a, at_finished a, at_offset a)) (attempts db)
   \<and> derivations (backfill db) = derivations db \<and> candidates (backfill db) = candidates db"
proof -
  have "filter needs_backfill (attempts (backfill db)) = []" unfolding filter_empty_conv using backfill_complete by blast
  moreover have "map (\<lambda>a. (at_id a, at_kind a, at_state a, at_spec a, at_targets a, at_created a, at_finished a, at_offset a)) (attempts (backfill db))
     = map (\<lambda>a. (at_id a, at_kind a, at_state a, at_spec a, at_targets a, at_created a, at_finished a, at_offset a)) (attempts db)"
    unfolding backfill_attempts by simp
  ultimately show ?thesis using backfill_idem [of db] by simp
qed

section \<open>Classifications\<close>


definition stale_item :: json where
  "stale_item = JObj [(''candidate'', JInt 1), (''kind'', JStr ''showcase''), (''provider'', JStr ''jev''), (''question_version'', JStr ''showcase-1''),
     (''model'', JStr ''jev-1.13.0''), (''source_hash'', JStr ''old'')]"


section \<open>Scope\<close>

text \<open>The name tests that put builds of JavaScript engines and of shared-memory servers out of
  scope hold exactly for the names that are a listed package name, the compiler's triple and a version,
  separated by hyphens, without the word that marks a source archive on the first line.\<close>

theorem scope_names_exact:
  "(V8_NAME name \<longleftrightarrow>
     (\<exists>p d rest. p \<in> set [''nodejs'', ''nodejs-slim'', ''electron-unwrapped'', ''qtwebengine''] \<and> is_digit d \<and> name = p @ ''-'' @ FILC @ ''-'' @ d # rest)
     \<and> \<not> contains ''-source'' (takeWhile (\<lambda>c. c \<noteq> CHR ''\<newline>'') name))
   \<and> (SHARED_MEMORY_NAME name \<longleftrightarrow>
     (\<exists>p d rest. p \<in> set [''postgresql'', ''apache-httpd'', ''nginx'', ''nginxQuic'', ''freenginx'', ''angie'', ''angieQuic'', ''openresty'', ''tengine'']
        \<and> is_digit d \<and> name = p @ ''-'' @ FILC @ ''-'' @ d # rest)
     \<and> \<not> contains ''-source'' (takeWhile (\<lambda>c. c \<noteq> CHR ''\<newline>'') name))"
  unfolding V8_NAME_def SHARED_MEMORY_NAME_def scoped_name_words by (rule conjI; rule refl)

section \<open>Requests\<close>

text \<open>A request that is a JSON value other than an object is not answered: the handler asks it for
  its operation before anything is caught, and the exception ends the server loop.\<close>

lemma bare_value_stops_server:
  "rt_loads (w_rt w) raw = Some (JArr xs) \<Longrightarrow> serve_request w raw s = (Inl (AttributeError ''get''), s)"
  by (simp add: serve_request_def)

end
