(* ===== verification/Logs.thy ===== *)
theory Logs
  imports Controller
begin

text \<open>
  Bounded windows into captured logs (\<^verbatim>\<open>experiment/logs.py\<close>). A window is a list of whole records with
  their byte offsets; a torn line of a live log is never consumed, and a reader that follows the
  returned cursor sees every record once. Decoding of UTF-8 is a parameter; strings are code points, and
  the arrow that marks a phase is the parameter's text too.
\<close>

definition PAGE :: nat where
  "PAGE = 256 * 1024"

definition MAX_LINE :: nat where
  "MAX_LINE = 1024 * 1024"

section \<open>Cleaning text\<close>

definition in_range :: "nat \<Rightarrow> nat \<Rightarrow> char \<Rightarrow> bool" where
  "in_range lo hi c \<longleftrightarrow> lo \<le> (of_char c :: nat) \<and> (of_char c :: nat) \<le> hi"

text \<open>Operating-system commands, control sequences and two-character escapes of a terminal.\<close>

definition ANSI :: rx where
  "ANSI = ralts [
     rseqs [rlit [CHR 0x1B, CHR 0x5D], RStar (RChar (\<lambda>c. c \<noteq> CHR 0x07 \<and> c \<noteq> CHR 0x1B)), RAlt (rlit [CHR 0x07]) (rlit [CHR 0x1B, CHR 0x5C])],
     rseqs [rlit [CHR 0x1B, CHR 0x5B], RStar (RChar (in_range 48 63)), RStar (RChar (in_range 32 47)), RChar (in_range 64 126)],
     rseqs [rlit [CHR 0x1B], RChar (in_range 64 95)]]"

definition is_control :: "char \<Rightarrow> bool" where
  "is_control c \<longleftrightarrow> in_range 0 8 c \<or> of_char c \<in> {11, 12, 127 :: nat} \<or> in_range 14 31 c"

text \<open>A carriage return replaces a terminal progress line, not the whole entry.\<close>

definition clean_line :: "string \<Rightarrow> string" where
  "clean_line line = last (split_on CHR 0x0D line)"

definition clean :: "string \<Rightarrow> string" where
  "clean text = join_on [NL] (map clean_line (split_on NL (filter (\<lambda>c. \<not> is_control c) (resub ANSI text))))"

definition lower :: "string \<Rightarrow> string" where
  "lower = map (\<lambda>c. if in_range 65 90 c then char_of (of_char c + 32 :: nat) else c)"

definition is_word :: "char \<Rightarrow> bool" where
  "is_word c \<longleftrightarrow> in_range 48 57 c \<or> in_range 65 90 c \<or> in_range 97 122 c \<or> c = CHR ''_''
     \<or> of_char c \<in> {170, 178, 179, 181, 185, 186, 188, 189, 190 :: nat} \<or> (in_range 192 255 c \<and> of_char c \<notin> {215, 247 :: nat})"

text \<open>\<^verbatim>\<open>\b(?:error:|..)\<close> without case: every alternative starts with a letter, so the boundary is
  the start of the text or a non-word character before it.\<close>

definition ERROR_WORDS :: "string list" where
  "ERROR_WORDS = [''error:'', ''fatal:'', ''failed'', ''fail:'', ''panic:'', ''safety error'']"

fun error_search :: "bool \<Rightarrow> string \<Rightarrow> bool" where
  "error_search boundary [] = False"
| "error_search boundary (c # s) =
     (boundary \<and> list_ex (\<lambda>w. starts_with w (c # s)) ERROR_WORDS \<or> error_search (\<not> is_word c) s)"

definition ERROR :: "string \<Rightarrow> bool" where
  "ERROR text = error_search True (lower text)"

section \<open>Decoding a record\<close>

record log_world =
  lg_rt :: runtime
  lg_decode :: "string \<Rightarrow> string"
  lg_arrow :: string

record log_entry =
  le_offset :: nat
  le_drv :: "string option"
  le_kind :: string
  le_text :: string

type_synonym activity_map = "(string \<times> string option) list"

fun strip_newlines :: "string \<Rightarrow> string" where
  "strip_newlines s = rev (dropWhile (\<lambda>c. c = NL) (rev s))"

declare strip_newlines.simps [simp del]

definition finish_entry :: "nat \<Rightarrow> string option \<Rightarrow> string \<Rightarrow> string \<Rightarrow> log_entry option" where
  "finish_entry offset drv kind raw =
     (let text = clean raw in
      if strip text = [] then None
      else Some \<lparr>le_offset = offset, le_drv = drv, le_kind = (if ERROR text then ''error'' else kind), le_text = text\<rparr>)"

text \<open>\<^verbatim>\<open>activities.get(str(e.get("id")))\<close>.\<close>

definition event_key :: "runtime \<Rightarrow> (string \<times> json) list \<Rightarrow> string" where
  "event_key rt e = (case map_of e ''id'' of None \<Rightarrow> ''None'' | Some j \<Rightarrow> py_str rt j)"

definition known_drv :: "activity_map \<Rightarrow> string \<Rightarrow> string option" where
  "known_drv acts k = (case map_of acts k of None \<Rightarrow> None | Some d \<Rightarrow> d)"

text \<open>\<^verbatim>\<open>e.get("level") == 0\<close>, which false satisfies too.\<close>

definition level_zero :: "json option \<Rightarrow> bool" where
  "level_zero v \<longleftrightarrow> jeq_int v 0 \<or> v = Some (JBool False)"

definition decode_event :: "log_world \<Rightarrow> nat \<Rightarrow> (string \<times> json) list \<Rightarrow> activity_map \<Rightarrow> activity_map \<times> log_entry option" where
  "decode_event w offset e acts =
     (case event_fields e of
        None \<Rightarrow> (acts, None)
      | Some fs \<Rightarrow>
          let action = map_of e ''action''; typ = map_of e ''type''; key = event_key (lg_rt w) e; field = first_string fs in
          if action = Some (JStr ''start'') \<and> jeq_int typ 105 \<and> fs \<noteq> [] then
            (case field of
               Some d \<Rightarrow> if fullmatch DRV d then (dict_set key (Some d) acts, finish_entry offset (Some d) ''phase'' ''Build started'')
                        else (acts, None)
             | None \<Rightarrow> (acts, None))
          else if action = Some (JStr ''result'') \<and> (jeq_int typ 101 \<or> jeq_int typ 104) \<and> fs \<noteq> [] then
            (case field of
               Some t \<Rightarrow> if jeq_int typ 104 then (acts, finish_entry offset (known_drv acts key) ''phase'' (lg_arrow w @ t))
                        else if starts_with ''Running phase: '' t then (acts, None)
                        else (acts, finish_entry offset (known_drv acts key) ''output'' t)
             | None \<Rightarrow> (acts, None))
          else if action = Some (JStr ''msg'') then
            (case map_of e ''msg'' of
               Some (JStr m) \<Rightarrow> (acts, finish_entry offset (search_group DRV (clean m))
                                  (if level_zero (map_of e ''level'') then ''error'' else ''message'') m)
             | _ \<Rightarrow> (acts, None))
          else (acts, None))"

definition decode_line :: "log_world \<Rightarrow> string \<Rightarrow> nat \<Rightarrow> activity_map \<Rightarrow> activity_map \<times> log_entry option" where
  "decode_line w raw offset acts =
     (let text = strip_newlines (lg_decode w raw) in
      case nix_event (lg_rt w) text of
        Some e \<Rightarrow> decode_event w offset e acts
      | None \<Rightarrow> (acts, finish_entry offset None ''output'' text))"

section \<open>Windows\<close>

datatype direction = Tail | Before | After

text \<open>\<^verbatim>\<open>f.readline(n)\<close> at a position: up to and including the next line break, at most \<open>n\<close> bytes.\<close>

fun line_take :: "nat \<Rightarrow> string \<Rightarrow> string" where
  "line_take n [] = []"
| "line_take n (c # s) = (if n = 0 then [] else if c = NL then [c] else c # line_take (n - 1) s)"

definition readline :: "string \<Rightarrow> nat \<Rightarrow> nat \<Rightarrow> string" where
  "readline bytes pos n = line_take n (drop pos bytes)"

definition complete_line :: "string \<Rightarrow> bool" where
  "complete_line raw \<longleftrightarrow> raw \<noteq> [] \<and> last raw = NL"

text \<open>The reading loop: the records so far, the position after them, and whether a pathological
  record was skipped.\<close>

function window_loop :: "string \<Rightarrow> nat \<Rightarrow> nat \<Rightarrow> bool \<Rightarrow> nat \<Rightarrow> nat \<times> (nat \<times> string) list \<times> bool" where
  "window_loop bytes stop bound finished pos =
     (if \<not> pos < stop then (pos, [], False)
      else let raw = readline bytes pos (min MAX_LINE (bound - pos)) in
        if raw = [] then (pos, [], False)
        else if \<not> complete_line raw \<and> pos + length raw = bound \<and> \<not> finished then (pos, [], False)
        else if \<not> complete_line raw \<and> length raw = MAX_LINE then (pos + length raw, [], True)
        else let (p, records, skipped) = window_loop bytes stop bound finished (pos + length raw)
             in (p, (pos, raw) # records, skipped))"
  by pat_completeness auto
termination by (relation "measure (\<lambda>(bytes, stop, bound, finished, pos). stop - pos)") (auto intro!: diff_less_mono2)

declare window_loop.simps [simp del]

text \<open>The start of the first whole record at or after a position, or None when the rest is torn.\<close>

definition align :: "string \<Rightarrow> nat \<Rightarrow> nat \<Rightarrow> nat \<times> bool" where
  "align bytes start bound =
     (if start = 0 \<or> (start - 1 < length bytes \<and> bytes ! (start - 1) = NL) then (start, True)
      else let fragment = readline bytes start (min MAX_LINE (bound - start)); aligned = start + length fragment
           in if \<not> complete_line fragment \<or> aligned \<ge> bound then (aligned, False) else (aligned, True))"

definition window :: "string option \<Rightarrow> nat \<Rightarrow> direction \<Rightarrow> int \<Rightarrow> bool \<Rightarrow> nat \<times> nat \<times> (nat \<times> string) list \<times> bool" where
  "window path len direction cursor0 finished =
     (let cursor = nat (max 0 (min cursor0 (int len)));
          bound = (if direction = Before then cursor else len);
          start = (if direction = After then cursor else bound - PAGE) in
      case path of
        None \<Rightarrow> (0, 0, [], False)
      | Some bytes \<Rightarrow>
          (case align bytes start bound of
             (aligned, False) \<Rightarrow> (start, aligned, [], True)
           | (aligned, True) \<Rightarrow>
               let stop = (if direction = After then min bound (aligned + PAGE) else bound);
                   (pos, records, skipped) = window_loop bytes stop bound finished aligned
               in (aligned, pos, records, skipped)))"

section \<open>The log of an attempt\<close>

text \<open>\<^verbatim>\<open>status\<close> reads nothing; any other word is refused when the window is opened.\<close>

definition parse_direction :: "string \<Rightarrow> direction option result" where
  "parse_direction d =
     (if d = ''status'' then Inr None
      else case map_of [(''tail'', Tail), (''before'', Before), (''after'', After)] d of
        None \<Rightarrow> Inl (ValueError ''invalid log direction'')
      | Some x \<Rightarrow> Inr (Some x))"

record log_view =
  lv_attempt :: attempt
  lv_sources :: "(activity \<times> string option) list"
  lv_entries :: "log_entry list"
  lv_start :: int
  lv_end :: int
  lv_size :: nat
  lv_captured :: nat
  lv_before :: bool
  lv_more :: bool
  lv_reset :: bool
  lv_skipped :: bool
  lv_finished :: bool

text \<open>The activities of the attempt, by identifier; a later row of the ordering replaces an earlier.\<close>

definition log_sources :: "database \<Rightarrow> string \<Rightarrow> activity list" where
  "log_sources db aid = sort_key (\<lambda>a. (av_stopped a, case av_drv a of None \<Rightarrow> (False, []) | Some d \<Rightarrow> (True, d)))
     (filter (\<lambda>a. av_attempt a = aid) (activities db))"

definition source_map :: "activity list \<Rightarrow> activity_map" where
  "source_map rows = fold (\<lambda>a acc. dict_set (av_activity a) (av_drv a) acc) rows []"

fun decode_all :: "log_world \<Rightarrow> string option \<Rightarrow> (nat \<times> string) list \<Rightarrow> activity_map \<Rightarrow> log_entry list" where
  "decode_all w drv [] acts = []"
| "decode_all w drv ((pos, line) # rest) acts =
     (case decode_line w line pos acts of
        (acts', None) \<Rightarrow> decode_all w drv rest acts'
      | (acts', Some entry) \<Rightarrow>
          (if drv = None \<or> le_drv entry = drv then entry # decode_all w drv rest acts' else decode_all w drv rest acts'))"

definition build_log :: "log_world \<Rightarrow> database \<Rightarrow> (string \<Rightarrow> string option) \<Rightarrow> string \<Rightarrow> string \<Rightarrow> int \<Rightarrow> string \<Rightarrow> log_view result" where
  "build_log w db stderr_log aid word cursor drv =
     (case find_attempt db aid of
        None \<Rightarrow> Inl (ValueError ''unknown attempt'')
      | Some a \<Rightarrow>
          bindr (guardr (drv = [] \<or> fullmatch DRV drv) (ValueError ''invalid derivation'')) (\<lambda>_.
          bindr (parse_direction word) (\<lambda>direction.
          let path = stderr_log aid;
              captured = (case path of None \<Rightarrow> 0 | Some raw \<Rightarrow> length raw);
              finished = (at_state a = Finished);
              size' = (if finished then captured else min captured (at_offset a));
              (start, bound, records, skipped) =
                (case direction of None \<Rightarrow> (cursor, cursor, [], False)
                 | Some d \<Rightarrow> (let (s, e, r, k) = window path size' d cursor finished in (int s, int e, r, k)))
          in Inr \<lparr>lv_attempt = a, lv_sources = map (\<lambda>v. (v, map_option d_name (Option.bind (av_drv v) (find_drv db)))) (log_sources db aid),
                lv_entries = decode_all w (if drv = [] then None else Some drv) records (source_map (log_sources db aid)),
                lv_start = start, lv_end = bound, lv_size = size', lv_captured = captured, lv_before = (start > 0), lv_more = (bound < int size'),
                lv_reset = (cursor > int size'), lv_skipped = skipped, lv_finished = finished\<rparr>)))"

section \<open>Windows hold whole records\<close>

text \<open>The records of a run of the loop tile the bytes from its start to the position it returns,
  and each of them is a whole line of the file, or the last bytes of a finished log.\<close>

definition whole :: "string \<Rightarrow> nat \<Rightarrow> bool \<Rightarrow> nat \<times> string \<Rightarrow> bool" where
  "whole bytes bound finished r \<longleftrightarrow> snd r = take (length (snd r)) (drop (fst r) bytes) \<and> snd r \<noteq> []
     \<and> NL \<notin> set (butlast (snd r)) \<and> (last (snd r) = NL \<or> finished \<and> (fst r + length (snd r) = bound \<or> fst r + length (snd r) = length bytes))"

fun tiles :: "nat \<Rightarrow> (nat \<times> string) list \<Rightarrow> nat \<Rightarrow> bool" where
  "tiles p [] q \<longleftrightarrow> p = q"
| "tiles p (r # rs) q \<longleftrightarrow> fst r = p \<and> tiles (p + length (snd r)) rs q"

lemma line_take_length: "length (line_take n s) \<le> n"
  by (induction n s rule: line_take.induct) auto

lemma line_take_prefix: "line_take n s = take (length (line_take n s)) s"
  by (induction n s rule: line_take.induct) auto

lemma line_take_butlast: "NL \<notin> set (butlast (line_take n s))"
  by (induction n s rule: line_take.induct) auto

lemma line_take_torn: "\<not> complete_line (line_take n s) \<Longrightarrow> length (line_take n s) = min n (length s)"
  by (induction n s rule: line_take.induct) (auto simp: complete_line_def split: if_splits)

lemmas line_take_facts = line_take_length line_take_prefix line_take_butlast line_take_torn

lemma window_loop_tiles:
  assumes "window_loop bytes stop bound finished pos = (q, records, skipped)" and "stop \<le> bound" and "bound \<le> length bytes"
  shows "tiles pos records (if skipped then q - MAX_LINE else q) \<and> (\<forall>r \<in> set records. whole bytes bound finished r)
     \<and> pos \<le> q \<and> (skipped \<longrightarrow> MAX_LINE \<le> q) \<and> (pos \<le> bound \<longrightarrow> q \<le> bound)"
  using assms
proof (induction bytes stop bound finished pos arbitrary: q records skipped rule: window_loop.induct)
  case (1 bytes stop bound finished pos)
  define raw where "raw = readline bytes pos (min MAX_LINE (bound - pos))"
  note step = window_loop.simps [of bytes stop bound finished pos, folded raw_def]
  have len: "length raw \<le> min MAX_LINE (bound - pos)" and pre: "raw = take (length raw) (drop pos bytes)" and nl: "NL \<notin> set (butlast raw)"
    unfolding raw_def readline_def by (rule line_take_facts)+
  have torn: "\<not> complete_line raw \<Longrightarrow> length raw = min (min MAX_LINE (bound - pos)) (length bytes - pos)"
    unfolding raw_def readline_def using line_take_torn by fastforce
  show ?case
  proof (cases "\<not> pos < stop \<or> raw = [] \<or> (\<not> complete_line raw \<and> pos + length raw = bound \<and> \<not> finished)")
    case True
    then have "window_loop bytes stop bound finished pos = (pos, [], False)" by (subst step) (auto simp: Let_def)
    then show ?thesis using 1(2) by simp
  next
    case more: False
    show ?thesis
    proof (cases "\<not> complete_line raw \<and> length raw = MAX_LINE")
      case True
      then have "window_loop bytes stop bound finished pos = (pos + length raw, [], True)"
        using more by (subst step) (simp add: Let_def)
      then show ?thesis using 1(2) True len by auto
    next
      case False
      obtain p rs sk where rec: "window_loop bytes stop bound finished (pos + length raw) = (p, rs, sk)" by (cases "window_loop bytes stop bound finished (pos + length raw)")
      then have eq: "q = p" "records = (pos, raw) # rs" "skipped = sk"
        using 1(2) more False by (subst (asm) step; auto simp: Let_def)+
      have IH: "tiles (pos + length raw) rs (if sk then p - MAX_LINE else p) \<and> (\<forall>r \<in> set rs. whole bytes bound finished r)
          \<and> pos + length raw \<le> p \<and> (sk \<longrightarrow> MAX_LINE \<le> p) \<and> (pos + length raw \<le> bound \<longrightarrow> p \<le> bound)"
        by (rule 1(1) [folded raw_def, OF _ refl _ _ _ rec 1(3,4)]) (use more False in auto)
      have "last raw = NL \<or> finished \<and> pos + length raw = bound" if "raw \<noteq> []"
        using more False torn that 1(3,4) by (auto simp: complete_line_def min_def split: if_splits)
      then have "whole bytes bound finished (pos, raw)" using more pre nl by (auto simp: whole_def)
      then show ?thesis using IH eq len by auto
    qed
  qed
qed

lemma align_bounds:
  assumes "align bytes start bound = (a, ok)" and "start \<le> bound"
  shows "start \<le> a" and "a \<le> bound"
proof -
  let ?f = "readline bytes start (min MAX_LINE (bound - start))"
  have len: "length ?f \<le> min MAX_LINE (bound - start)" unfolding readline_def by (rule line_take_length)
  have "a = start \<or> a = start + length ?f" using assms(1) by (auto simp: align_def Let_def split: if_splits)
  then show "start \<le> a" "a \<le> bound" using assms(2) len by auto
qed

text \<open>A window that skipped nothing holds consecutive whole records between the cursors it returns.\<close>

lemma window_whole:
  assumes "window (Some bytes) len d cursor finished = (s, e, records, False)" and "len \<le> length bytes"
  shows "tiles s records e \<and> s \<le> e \<and> e \<le> len \<and> (\<forall>r \<in> set records. whole bytes len finished r \<or> d = Before \<and> snd r \<noteq> [])"
proof -
  define c where "c = nat (max 0 (min cursor (int len)))"
  define bound where "bound = (if d = Before then c else len)"
  define start where "start = (if d = After then c else bound - PAGE)"
  have cl: "c \<le> len" by (simp add: c_def)
  then have bl: "bound \<le> len" "start \<le> bound" by (simp_all add: bound_def start_def)
  obtain a ok where al: "align bytes start bound = (a, ok)" by fastforce
  have w: "window (Some bytes) len d cursor finished = (case (a, ok) of (aligned, False) \<Rightarrow> (start, aligned, [], True)
      | (aligned, True) \<Rightarrow> let stop = (if d = After then min bound (aligned + PAGE) else bound);
          (pos, records, skipped) = window_loop bytes stop bound finished aligned in (aligned, pos, records, skipped))"
    unfolding window_def Let_def c_def [symmetric] bound_def [symmetric] start_def [symmetric] al option.case ..
  then have ok: ok using assms(1) by (cases ok) auto
  let ?stop = "if d = After then min bound (a + PAGE) else bound"
  have run: "window_loop bytes ?stop bound finished a = (e, records, False)" and s: "s = a"
    using assms(1) w ok by (auto simp: Let_def split: prod.splits)
  have "tiles a records e \<and> (\<forall>r \<in> set records. whole bytes bound finished r) \<and> a \<le> e \<and> (a \<le> bound \<longrightarrow> e \<le> bound)"
    using window_loop_tiles [OF run] bl assms(2) by auto
  then show ?thesis using align_bounds(2) [OF al bl(2)] bl(1) s by (auto simp: bound_def whole_def split: if_splits)
qed

section \<open>Following a log\<close>

definition aligned :: "string \<Rightarrow> nat \<Rightarrow> bool" where
  "aligned bytes c \<longleftrightarrow> c = 0 \<or> c \<le> length bytes \<and> bytes ! (c - 1) = NL"

text \<open>Up to the indexed size every line ends, within the line limit.\<close>

definition short_lines :: "string \<Rightarrow> nat \<Rightarrow> bool" where
  "short_lines bytes len \<longleftrightarrow> len \<le> length bytes \<and> (\<forall>c < len. aligned bytes c \<longrightarrow> (\<exists>n < MAX_LINE. c + n < len \<and> bytes ! (c + n) = NL))"

lemma line_take_complete: "n < k \<Longrightarrow> n < length s \<Longrightarrow> s ! n = NL \<Longrightarrow> complete_line (line_take k s)"
proof (induction k s arbitrary: n rule: line_take.induct)
  case (2 k c s)
  show ?case
  proof (cases n)
    case (Suc m)
    with 2 have "c \<noteq> NL \<Longrightarrow> complete_line (line_take (k - 1) s)" by (intro 2(1) [of m]) auto
    then show ?thesis using 2(2) by (auto simp: complete_line_def)
  qed (use 2 in \<open>auto simp: complete_line_def\<close>)
qed simp

lemma next_record:
  assumes "short_lines bytes len" and "aligned bytes pos" and "pos < len"
  defines "raw \<equiv> readline bytes pos (min MAX_LINE (len - pos))"
  shows "complete_line raw" and "aligned bytes (pos + length raw)" and "pos + length raw \<le> len"
proof -
  obtain n where "n < MAX_LINE" "pos + n < len" "bytes ! (pos + n) = NL" using assms by (auto simp: short_lines_def)
  moreover have "len \<le> length bytes" using assms(1) by (simp add: short_lines_def)
  ultimately show c: "complete_line raw" unfolding raw_def readline_def by (intro line_take_complete [of n]) auto
  have len: "length raw \<le> min MAX_LINE (len - pos)" and pre: "raw = take (length raw) (drop pos bytes)"
    unfolding raw_def readline_def by (rule line_take_facts)+
  show l: "pos + length raw \<le> len" using len assms(3) by linarith
  have "raw \<noteq> []" "last raw = NL" using c by (simp_all add: complete_line_def)
  moreover have "last raw = bytes ! (pos + (length raw - 1))"
  proof -
    have "last raw = raw ! (length raw - 1)" using \<open>raw \<noteq> []\<close> by (rule last_conv_nth)
    also have "\<dots> = (take (length raw) (drop pos bytes)) ! (length raw - 1)" using pre by simp
    also have "\<dots> = bytes ! (pos + (length raw - 1))" using \<open>raw \<noteq> []\<close> l \<open>len \<le> length bytes\<close> by simp
    finally show ?thesis .
  qed
  ultimately show "aligned bytes (pos + length raw)" using l \<open>len \<le> length bytes\<close> by (cases raw) (auto simp: aligned_def)
qed

lemma window_loop_short:
  assumes "window_loop bytes stop len finished pos = (q, records, skipped)" and "short_lines bytes len" and "aligned bytes pos" and "stop \<le> len"
  shows "\<not> skipped \<and> aligned bytes q \<and> (pos < stop \<longrightarrow> pos < q)"
  using assms
proof (induction bytes stop len finished pos arbitrary: q records skipped rule: window_loop.induct)
  case (1 bytes stop len finished pos)
  define raw where "raw = readline bytes pos (min MAX_LINE (len - pos))"
  note step = window_loop.simps [of bytes stop len finished pos, folded raw_def]
  show ?case
  proof (cases "pos < stop")
    case False
    then have "window_loop bytes stop len finished pos = (pos, [], False)" by (subst step) simp
    then show ?thesis using 1(2,4) False by simp
  next
    case True
    note nr = next_record [OF 1(3,4), folded raw_def]
    have raw: "complete_line raw" "aligned bytes (pos + length raw)" "raw \<noteq> []"
      using nr True 1(5) by (auto simp: complete_line_def)
    obtain p rs sk where rec: "window_loop bytes stop len finished (pos + length raw) = (p, rs, sk)"
      by (cases "window_loop bytes stop len finished (pos + length raw)")
    then have eq: "q = p" "skipped = sk" using 1(2) True raw by (subst (asm) step; auto simp: Let_def)+
    have IH: "\<not> sk \<and> aligned bytes p \<and> (pos + length raw < stop \<longrightarrow> pos + length raw < p)"
      by (rule 1(1) [folded raw_def, OF _ refl _ _ _ rec 1(3) raw(2) 1(5)]) (use True raw in auto)
    have "p = pos + length raw" if "\<not> pos + length raw < stop"
      using rec that by (subst (asm) window_loop.simps) simp
    then show ?thesis using IH eq raw(3) by (cases "pos + length raw < stop") auto
  qed
qed

text \<open>A reader that asks for the records after the cursor it was given last.\<close>

fun follow :: "nat \<Rightarrow> string \<Rightarrow> nat \<Rightarrow> nat \<Rightarrow> (nat \<times> string) list" where
  "follow 0 bytes len c = []"
| "follow (Suc n) bytes len c = (let (s, e, records, skipped) = window (Some bytes) len After (int c) False in records @ follow n bytes len e)"

lemma tiles_bytes:
  "tiles p rs q \<Longrightarrow> \<forall>r \<in> set rs. snd r = take (length (snd r)) (drop (fst r) bytes) \<Longrightarrow> q \<le> length bytes \<Longrightarrow>
     p \<le> q \<and> concat (map snd rs) = take (q - p) (drop p bytes)"
proof (induction rs arbitrary: p)
  case (Cons r rs)
  let ?n = "length (snd r)"
  have r: "snd r = take ?n (drop p bytes)" and t: "tiles (p + ?n) rs q" using Cons.prems by auto
  from Cons.IH [OF t] Cons.prems have le: "p + ?n \<le> q" and IH: "concat (map snd rs) = take (q - (p + ?n)) (drop (p + ?n) bytes)" by auto
  have "take (q - p) (drop p bytes) = take ?n (drop p bytes) @ take (q - p - ?n) (drop ?n (drop p bytes))"
    using le by (metis le_add_diff_inverse take_add add_diff_cancel_left' diff_le_mono diff_add_inverse le_add1)
  then show ?case using le IH r by (simp add: add.commute)
qed simp

lemma window_after:
  assumes "short_lines bytes len" and "aligned bytes c" and "c \<le> len"
  obtains e records where "window (Some bytes) len After (int c) False = (c, e, records, False)"
    and "aligned bytes e" and "c < len \<Longrightarrow> c < e" and "e \<le> len" and "concat (map snd records) = take (e - c) (drop c bytes)"
proof -
  have lb: "len \<le> length bytes" using assms(1) by (simp add: short_lines_def)
  have al: "align bytes c len = (c, True)" using assms(2,3) lb by (cases c) (auto simp: align_def aligned_def)
  obtain e rs sk where run: "window_loop bytes (min len (c + PAGE)) len False c = (e, rs, sk)"
    by (cases "window_loop bytes (min len (c + PAGE)) len False c")
  have w: "window (Some bytes) len After (int c) False = (c, e, rs, sk)"
    using assms(3) run by (simp add: window_def Let_def al)
  have short: "\<not> sk \<and> aligned bytes e \<and> (c < min len (c + PAGE) \<longrightarrow> c < e)"
    by (rule window_loop_short [OF run assms(1,2)]) simp
  then have w': "window (Some bytes) len After (int c) False = (c, e, rs, False)" using w by simp
  from window_whole [OF w' lb] have t: "tiles c rs e" "e \<le> len" "\<forall>r \<in> set rs. whole bytes len False r" by auto
  have "concat (map snd rs) = take (e - c) (drop c bytes)"
    using tiles_bytes [OF t(1), of bytes] t lb by (auto simp: whole_def)
  then show thesis using that [OF w'] short t(2) by (auto simp: PAGE_def)
qed

lemma follow_complete:
  assumes "short_lines bytes len" and "aligned bytes c" and "c \<le> len" and "len - c \<le> n"
  shows "concat (map snd (follow n bytes len c)) = take (len - c) (drop c bytes)"
  using assms
proof (induction n arbitrary: c)
  case (Suc n)
  obtain e rs where w: "window (Some bytes) len After (int c) False = (c, e, rs, False)"
    and e: "aligned bytes e" "c < len \<Longrightarrow> c < e" "e \<le> len" "concat (map snd rs) = take (e - c) (drop c bytes)"
    by (rule window_after [OF Suc.prems(1-3)]) blast
  have ce: "c \<le> e" using window_whole [OF w] Suc.prems(1) by (auto simp: short_lines_def)
  have "len - e \<le> n" using Suc.prems(3,4) e(2,3) ce by (cases "c < len") auto
  from Suc.IH [OF Suc.prems(1) e(1,3) this] have "concat (map snd (follow n bytes len e)) = take (len - e) (drop e bytes)" .
  moreover have "take (len - c) (drop c bytes) = take (e - c) (drop c bytes) @ take (len - e) (drop e bytes)"
    using ce e(3) take_add [of "e - c" "len - e" "drop c bytes"] by simp
  ultimately show ?case using w e(4) by simp
qed simp

end
