(* ===== verification/Ranking.thy ===== *)
theory Ranking
  imports Commands
begin

text \<open>
  The blocker ranking (\<^verbatim>\<open>experiment/blockers.py\<close>): which failed derivations keep how many packages from
  building, from one walk over the dependency graph of a campaign, and the per-campaign cache that
  serves the previous result while a new one is computed. Nodes are derivation names, where the code
  numbers them; packages of one failure are listed in table order before they are sorted, where the
  code iterates over a set.
\<close>

section \<open>The walk\<close>

text \<open>The edges below the packages of a campaign.\<close>

definition walk_edges :: "database \<Rightarrow> string \<Rightarrow> (string \<times> string) list" where
  "walk_edges db cid = (let g = campaign_graph db cid in filter (\<lambda>(p, c). List.member g p) (edge_pairs (edges db)))"

definition walk_scope :: "database \<Rightarrow> string \<Rightarrow> string list" where
  "walk_scope db cid = remdups (concat (map (\<lambda>(p, c). [c, p]) (walk_edges db cid))
     @ List.map_filter (\<lambda>c. if c_campaign c = cid then c_drv c else None) (candidates db))"

definition packages_of :: "database \<Rightarrow> string \<Rightarrow> string \<Rightarrow> candidate list" where
  "packages_of db cid drv = filter (\<lambda>c. c_campaign c = cid \<and> c_drv c = Some drv) (candidates db)"

definition failing :: "database \<Rightarrow> string \<Rightarrow> derivation list" where
  "failing db cid = filter (\<lambda>d. d_failure d \<noteq> None \<and> d_exclusion d = None \<and> List.member (walk_scope db cid) (d_drv d)) (derivations db)"

definition out_of_scope :: "database \<Rightarrow> string \<Rightarrow> string list" where
  "out_of_scope db cid = map d_drv (filter (\<lambda>d. d_exclusion d \<noteq> None \<and> List.member (walk_scope db cid) (d_drv d)) (derivations db))"

text \<open>Everything that depends on a failure or an exclusion, itself included.\<close>

definition walk_bad :: "database \<Rightarrow> string \<Rightarrow> string list" where
  "walk_bad db cid = mark (flip (walk_edges db cid)) (map d_drv (failing db cid) @ out_of_scope db cid)"

section \<open>Blocked packages\<close>

definition dependents :: "database \<Rightarrow> string \<Rightarrow> string \<Rightarrow> string list" where
  "dependents db cid drv = filter (\<lambda>x. x \<noteq> drv) (mark (flip (walk_edges db cid)) [drv])"

definition hits :: "database \<Rightarrow> string \<Rightarrow> string \<Rightarrow> candidate list" where
  "hits db cid drv = filter (\<lambda>c. c_state c = Blocked) (concat (map (packages_of db cid) (dependents db cid drv)))"

definition causes :: "database \<Rightarrow> string \<Rightarrow> int \<Rightarrow> string list" where
  "causes db cid i = map d_drv (filter (\<lambda>d. list_ex (\<lambda>c. c_id c = i) (hits db cid (d_drv d))) (failing db cid))"

definition sole :: "database \<Rightarrow> string \<Rightarrow> string \<Rightarrow> int list" where
  "sole db cid drv = remdups (filter (\<lambda>i. causes db cid i = [drv]) (map c_id (hits db cid drv)))"

record example =
  ex_id :: int
  ex_label :: string
  ex_only :: bool

record ranking_row =
  rk_drv :: string
  rk_name :: string
  rk_failure :: string
  rk_package :: "int option"
  rk_blocks :: nat
  rk_only :: nat
  rk_examples :: "example list"

definition ranking_row_of :: "database \<Rightarrow> string \<Rightarrow> derivation \<Rightarrow> ranking_row" where
  "ranking_row_of db cid d =
     (let hs = hits db cid (d_drv d); only = sole db cid (d_drv d);
          examples = sort_key (\<lambda>c. (\<not> List.member only (c_id c), c_label c)) hs in
      \<lparr>rk_drv = d_drv d, rk_name = d_name d, rk_failure = the (d_failure d),
       rk_package = (case packages_of db cid (d_drv d) of [] \<Rightarrow> None | c # _ \<Rightarrow> Some (c_id c)),
       rk_blocks = length hs, rk_only = length only,
       rk_examples = map (\<lambda>c. \<lparr>ex_id = c_id c, ex_label = c_label c, ex_only = List.member only (c_id c)\<rparr>) (take 8 examples)\<rparr>)"

record ranking =
  rg_rows :: "ranking_row list"
  rg_blocked :: nat
  rg_multiple :: nat
  rg_computed :: timestamp
  rg_scope :: "string list"
  rg_bad :: "string list"

definition caused :: "database \<Rightarrow> string \<Rightarrow> int list" where
  "caused db cid = remdups (concat (map (\<lambda>d. map c_id (hits db cid (d_drv d))) (failing db cid)))"

definition compute :: "timestamp \<Rightarrow> database \<Rightarrow> string \<Rightarrow> ranking" where
  "compute now db cid =
     \<lparr>rg_rows = sort_key (\<lambda>r. (- int (rk_blocks r), - int (rk_only r), rk_name r))
        (map (ranking_row_of db cid) (filter (\<lambda>d. hits db cid (d_drv d) \<noteq> []) (failing db cid))),
      rg_blocked = length (caused db cid),
      rg_multiple = length (filter (\<lambda>i. 1 < length (causes db cid i)) (caused db cid)),
      rg_computed = now, rg_scope = walk_scope db cid, rg_bad = walk_bad db cid\<rparr>"

section \<open>The cache\<close>

definition TTL :: rat where
  "TTL = 60"

record ranking_cache =
  rc_cache :: "(string \<times> (rat \<times> ranking)) list"
  rc_refreshing :: "string list"

text \<open>A read: the result served, and whether it starts a refresh in the background.\<close>

definition serve_ranking :: "bool \<Rightarrow> rat \<Rightarrow> ranking \<Rightarrow> string \<Rightarrow> ranking_cache \<Rightarrow> (ranking \<times> bool) \<times> ranking_cache" where
  "serve_ranking synchronous clock fresh cid st =
     (case (synchronous, map_of (rc_cache st) cid) of
        (False, Some (since, old)) \<Rightarrow>
          if clock - since \<ge> TTL then
            ((old, \<not> List.member (rc_refreshing st) cid), st\<lparr>rc_refreshing := insert_or_ignore id cid (rc_refreshing st)\<rparr>)
          else ((old, False), st)
      | _ \<Rightarrow> ((fresh, False), st\<lparr>rc_cache := dict_set cid (clock, fresh) (rc_cache st)\<rparr>))"

text \<open>The background thread: it stores its result, or fails, and is then no longer running.\<close>

definition finish_refresh :: "rat \<Rightarrow> ranking option \<Rightarrow> string \<Rightarrow> ranking_cache \<Rightarrow> ranking_cache" where
  "finish_refresh clock result cid st =
     (let st1 = (case result of None \<Rightarrow> st | Some r \<Rightarrow> st\<lparr>rc_cache := dict_set cid (clock, r) (rc_cache st)\<rparr>)
      in st1\<lparr>rc_refreshing := filter (\<lambda>c. c \<noteq> cid) (rc_refreshing st1)\<rparr>)"

section \<open>The walk finds the dependents\<close>

lemma set_map_filter: "y \<in> set (List.map_filter f xs) \<longleftrightarrow> (\<exists>x \<in> set xs. f x = Some y)"
  by (force simp: List.map_filter_def)

lemma distinct_mark_loop: "distinct marked \<Longrightarrow> distinct (mark_loop es st marked)"
  by (induction es st marked rule: mark_loop.induct) auto

lemma distinct_mark: "distinct start \<Longrightarrow> distinct (mark es start)"
  by (simp add: mark_def distinct_mark_loop)

lemma set_campaign_graph:
  "set (campaign_graph db cid) = reach (edge_pairs (edges db)) {x. \<exists>c \<in> set (candidates db). c_campaign c = cid \<and> c_drv c = Some x}"
proof -
  have "set (List.map_filter (\<lambda>c. if c_campaign c = cid then c_drv c else None) (candidates db)) = {x. \<exists>c \<in> set (candidates db). c_campaign c = cid \<and> c_drv c = Some x}"
    by (auto simp: set_map_filter split: if_splits)
  then show ?thesis by (simp add: campaign_graph_def)
qed

lemma set_walk_edges: "(p, c) \<in> set (walk_edges db cid) \<longleftrightarrow> p \<in> set (campaign_graph db cid) \<and> (p, c) \<in> set (edge_pairs (edges db))"
  by (auto simp: walk_edges_def Let_def)

lemma campaign_graph_closed: "p \<in> set (campaign_graph db cid) \<Longrightarrow> (p, c) \<in> set (edge_pairs (edges db)) \<Longrightarrow> c \<in> set (campaign_graph db cid)"
  unfolding set_campaign_graph by (rule Walk.reach_step)

lemma set_walk_scope: "set (walk_scope db cid) = set (campaign_graph db cid)"
proof (intro equalityI subsetI)
  fix x assume "x \<in> set (walk_scope db cid)"
  then consider (edge) p c where "(p, c) \<in> set (walk_edges db cid)" "x = p \<or> x = c"
    | (package) c where "c \<in> set (candidates db)" "c_campaign c = cid" "c_drv c = Some x"
    by (fastforce simp: walk_scope_def set_map_filter split: if_splits)
  then show "x \<in> set (campaign_graph db cid)"
  proof cases
    case edge
    then show ?thesis using campaign_graph_closed by (auto simp: set_walk_edges)
  next
    case package
    then show ?thesis unfolding set_campaign_graph by (intro reach_start) auto
  qed
next
  fix x assume "x \<in> set (campaign_graph db cid)"
  then have "x \<in> reach (edge_pairs (edges db)) {x. \<exists>c \<in> set (candidates db). c_campaign c = cid \<and> c_drv c = Some x}"
    by (simp add: set_campaign_graph)
  then show "x \<in> set (walk_scope db cid)"
  proof (induction rule: reach_induct)
    case (start x)
    then show ?case by (force simp: walk_scope_def set_map_filter)
  next
    case (step x c)
    then have "(x, c) \<in> set (walk_edges db cid)" by (simp add: set_walk_edges set_campaign_graph)
    then show ?case by (force simp: walk_scope_def)
  qed
qed

text \<open>Inside the graph of a campaign, the restricted edges lead exactly where all edges lead.\<close>

lemma walk_reach:
  assumes "p \<in> set (campaign_graph db cid)"
  shows "reach (walk_edges db cid) {p} = depends db p"
proof (intro equalityI subsetI)
  fix x assume "x \<in> reach (walk_edges db cid) {p}"
  then show "x \<in> depends db p"
    unfolding depends_def by (rule subsetD [OF reach_mono_edges, rotated]) (auto simp: walk_edges_def Let_def)
next
  fix x assume "x \<in> depends db p"
  then have "x \<in> reach (walk_edges db cid) {p} \<and> x \<in> set (campaign_graph db cid)"
    unfolding depends_def
  proof (induction rule: reach_induct)
    case (step x c)
    then show ?case using campaign_graph_closed by (auto simp: set_walk_edges intro!: Walk.reach_step [of x])
  qed (use assms in auto)
  then show "x \<in> reach (walk_edges db cid) {p}" ..
qed

lemma reach_walk_parent: "x \<in> reach (flip (walk_edges db cid)) S \<Longrightarrow> x \<in> S \<or> x \<in> set (campaign_graph db cid)"
  by (induction rule: reach_induct) (auto simp: set_walk_edges)

lemma set_dependents:
  assumes "drv \<in> set (campaign_graph db cid)"
  shows "set (dependents db cid drv) = {p \<in> set (campaign_graph db cid). p \<noteq> drv \<and> drv \<in> depends db p}"
  using assms reach_walk_parent [of _ db cid "{drv}"] walk_reach [of _ db cid]
  by (auto simp: dependents_def reach_flip)

lemma set_walk_bad:
  "set (walk_bad db cid) = {p \<in> set (campaign_graph db cid). \<exists>d \<in> set (derivations db). d_drv d \<in> depends db p \<and> (d_failure d \<noteq> None \<or> d_exclusion d \<noteq> None)}"
proof -
  define S where "S = {x \<in> set (campaign_graph db cid). \<exists>d \<in> set (derivations db). d_drv d = x \<and> (d_failure d \<noteq> None \<or> d_exclusion d \<noteq> None)}"
  have start: "set (map d_drv (failing db cid) @ out_of_scope db cid) = S"
  proof (intro equalityI subsetI)
    fix x assume "x \<in> S"
    then obtain d where "d \<in> set (derivations db)" "d_drv d = x" "d_failure d \<noteq> None \<or> d_exclusion d \<noteq> None" "x \<in> set (campaign_graph db cid)"
      by (auto simp: S_def)
    then show "x \<in> set (map d_drv (failing db cid) @ out_of_scope db cid)"
      by (cases "d_exclusion d = None") (auto simp: failing_def out_of_scope_def set_walk_scope)
  qed (auto simp: failing_def out_of_scope_def set_walk_scope S_def)
  have "p \<in> reach (flip (walk_edges db cid)) S \<longleftrightarrow> p \<in> set (campaign_graph db cid) \<and> (\<exists>x \<in> S. x \<in> depends db p)" for p
  proof -
    have "S \<subseteq> set (campaign_graph db cid)" by (auto simp: S_def)
    then have "p \<in> set (campaign_graph db cid)" if "p \<in> reach (flip (walk_edges db cid)) S"
      using reach_walk_parent [OF that] by blast
    then show ?thesis unfolding reach_flip_set using walk_reach [of p db cid] by blast
  qed
  then have bad: "set (walk_bad db cid) = {p \<in> set (campaign_graph db cid). \<exists>x \<in> S. x \<in> depends db p}"
    unfolding walk_bad_def set_mark start by blast
  have closed: "x \<in> set (campaign_graph db cid)" if "p \<in> set (campaign_graph db cid)" "x \<in> depends db p" for p x
    using that unfolding set_campaign_graph depends_def
    by (metis (no_types, lifting) reach_mono_edges reach_def rtrancl_trans Image_singleton_iff ImageE ImageI)
  have "(\<exists>x \<in> S. x \<in> depends db p) \<longleftrightarrow> (\<exists>d \<in> set (derivations db). d_drv d \<in> depends db p \<and> (d_failure d \<noteq> None \<or> d_exclusion d \<noteq> None))"
    if "p \<in> set (campaign_graph db cid)" for p
    using closed [OF that] unfolding S_def by blast
  then show ?thesis unfolding bad by blast
qed

text \<open>A blocked package has a cause exactly when it depends on a failure in scope other than itself.\<close>

lemma hits_iff:
  assumes "drv \<in> set (campaign_graph db cid)"
  shows "c \<in> set (hits db cid drv) \<longleftrightarrow> c \<in> set (candidates db) \<and> c_campaign c = cid \<and> c_state c = Blocked
     \<and> (\<exists>x. c_drv c = Some x \<and> x \<noteq> drv \<and> drv \<in> depends db x)"
proof -
  have "x \<in> set (campaign_graph db cid)" if "c \<in> set (candidates db)" "c_campaign c = cid" "c_drv c = Some x" for x
    unfolding set_campaign_graph using that by (intro reach_start) auto
  then show ?thesis by (auto simp: hits_def set_dependents [OF assms] packages_of_def)
qed

lemma failing_scope: "d \<in> set (failing db cid) \<Longrightarrow> d_drv d \<in> set (campaign_graph db cid)"
  by (simp add: failing_def set_walk_scope)

lemma distinct_hits:
  assumes "unique_keys c_id (candidates db)"
  shows "distinct (map c_id (hits db cid drv))"
proof -
  have d: "distinct (dependents db cid drv)" by (simp add: dependents_def distinct_mark)
  have cs: "distinct (candidates db)" using assms by (simp add: unique_keys_def distinct_map)
  have "distinct (concat (map (packages_of db cid) xs))" if "distinct xs" for xs
    using that by (induction xs) (auto simp: packages_of_def cs)
  then have "distinct (hits db cid drv)" using d by (simp add: hits_def)
  moreover have "inj_on c_id (set (hits db cid drv))"
    using assms by (auto simp: inj_on_def unique_keys_def hits_def packages_of_def dest: inj_onD [OF distinct_map [THEN iffD1, THEN conjunct2]])
  ultimately show ?thesis by (simp add: distinct_map)
qed

text \<open>What a row says: the number of blocked packages that depend on the failure, and the number
  of those that no other failure in scope blocks.\<close>

definition blocked_by :: "database \<Rightarrow> string \<Rightarrow> string \<Rightarrow> int set" where
  "blocked_by db cid drv = {c_id c | c. c \<in> set (candidates db) \<and> c_campaign c = cid \<and> c_state c = Blocked
     \<and> (\<exists>x. c_drv c = Some x \<and> x \<noteq> drv \<and> drv \<in> depends db x)}"

lemma set_hits_ids: "drv \<in> set (campaign_graph db cid) \<Longrightarrow> c_id ` set (hits db cid drv) = blocked_by db cid drv"
  by (auto simp: blocked_by_def hits_iff image_iff)

lemma singleton_list: "distinct xs \<Longrightarrow> xs = [d] \<longleftrightarrow> set xs = {d}"
  by (cases xs) (auto simp: subset_singleton_iff)

lemma row_counts:
  assumes "unique_keys c_id (candidates db)" and "unique_keys d_drv (derivations db)" and "d \<in> set (failing db cid)"
  shows "rk_blocks (ranking_row_of db cid d) = card (blocked_by db cid (d_drv d))"
    and "rk_only (ranking_row_of db cid d) = card {i \<in> blocked_by db cid (d_drv d). \<forall>e \<in> set (failing db cid). i \<in> blocked_by db cid (d_drv e) \<longrightarrow> e = d}"
proof -
  have ids: "set (map c_id (hits db cid (d_drv e))) = blocked_by db cid (d_drv e)" if "e \<in> set (failing db cid)" for e
    using set_hits_ids [OF failing_scope [OF that]] by simp
  show "rk_blocks (ranking_row_of db cid d) = card (blocked_by db cid (d_drv d))"
    using distinct_card [OF distinct_hits [OF assms(1), of cid "d_drv d"]] ids [OF assms(3)] by (simp add: ranking_row_of_def Let_def)
  have mem: "list_ex (\<lambda>c. c_id c = i) (hits db cid (d_drv e)) \<longleftrightarrow> i \<in> blocked_by db cid (d_drv e)" if "e \<in> set (failing db cid)" for e i
    unfolding ids [OF that, symmetric] by (auto simp: list_ex_iff)
  have dist: "distinct (failing db cid)" using assms(2) by (simp add: failing_def unique_keys_def distinct_map)
  have "causes db cid i = [d_drv d] \<longleftrightarrow> (\<forall>e \<in> set (failing db cid). i \<in> blocked_by db cid (d_drv e) \<longrightarrow> e = d)"
    if "i \<in> blocked_by db cid (d_drv d)" for i
  proof -
    let ?F = "filter (\<lambda>e. list_ex (\<lambda>c. c_id c = i) (hits db cid (d_drv e))) (failing db cid)"
    have sF: "set ?F = {e \<in> set (failing db cid). i \<in> blocked_by db cid (d_drv e)}" using mem by auto
    have dF: "d \<in> set ?F" using assms(3) that sF by simp
    have "causes db cid i = [d_drv d] \<longleftrightarrow> ?F = [d]"
    proof
      assume "causes db cid i = [d_drv d]"
      then obtain z where "?F = [z]" by (auto simp: causes_def map_eq_Cons_conv)
      with dF show "?F = [d]" by (metis empty_iff list.set(1) set_ConsD)
    qed (simp add: causes_def)
    also have "\<dots> \<longleftrightarrow> set ?F = {d}" by (rule singleton_list) (simp add: dist)
    finally show ?thesis unfolding sF using assms(3) that by blast
  qed
  then have "set (sole db cid (d_drv d)) = {i \<in> blocked_by db cid (d_drv d). \<forall>e \<in> set (failing db cid). i \<in> blocked_by db cid (d_drv e) \<longrightarrow> e = d}"
    using ids [OF assms(3)] by (auto simp: sole_def)
  then show "rk_only (ranking_row_of db cid d) = card {i \<in> blocked_by db cid (d_drv d). \<forall>e \<in> set (failing db cid). i \<in> blocked_by db cid (d_drv e) \<longrightarrow> e = d}"
    using distinct_card [of "sole db cid (d_drv d)"] by (simp add: ranking_row_of_def Let_def sole_def)
qed

end
