(* ===== verification/LiveGraph.thy ===== *)
theory LiveGraph
  imports Ranking
begin

text \<open>
  The live neighbourhood of the build graph (\<^verbatim>\<open>experiment/graph.py\<close>) and the batch that owns evidence
  (\<^verbatim>\<open>experiment/evidence.py\<close>). The view reads the database, the files of active attempts and the
  ranking walk, which may be older than the database and is an argument.
\<close>

section \<open>Evidence\<close>

record evidence =
  vd_attempt :: attempt
  vd_campaign_name :: string
  vd_drv :: string
  vd_phase :: "string option"

definition last_activity :: "database \<Rightarrow> string \<Rightarrow> string \<Rightarrow> activity option" where
  "last_activity db aid drv = find (\<lambda>a. av_attempt a = aid \<and> av_drv a = Some drv \<and> av_kind a = Some ''build'') (rev (activities db))"

definition attempt_evidence :: "database \<Rightarrow> string \<Rightarrow> string \<Rightarrow> evidence option" where
  "attempt_evidence db aid drv =
     (case find_attempt db aid of
        None \<Rightarrow> None
      | Some a \<Rightarrow> (case find_campaign db (at_campaign a) of
          None \<Rightarrow> None
        | Some c \<Rightarrow> (let act = last_activity db aid drv in
            Some \<lparr>vd_attempt = a, vd_campaign_name = cp_name c, vd_drv = (if act = None then [] else drv), vd_phase = Option.bind act av_phase\<rparr>)))"

definition failure_evidence :: "database \<Rightarrow> string \<Rightarrow> evidence option" where
  "failure_evidence db drv =
     (case Option.bind (find_drv db drv) d_evidence_attempt of
        None \<Rightarrow> None
      | Some aid \<Rightarrow> if aid = [] then None else attempt_evidence db aid drv)"

section \<open>Observations of the active batches\<close>

definition FILE_LIMIT :: nat where
  "FILE_LIMIT = 8 * 1024 ^ 2"

text \<open>A JSON file of an attempt; a missing, oversized or malformed one is no observation.\<close>

definition attempt_file :: "runtime \<Rightarrow> string option \<Rightarrow> json option" where
  "attempt_file rt raw = (case raw of None \<Rightarrow> None | Some r \<Rightarrow> if length r > FILE_LIMIT then None else rt_loads rt r)"

record live_files =
  lf_before :: "string \<Rightarrow> string option"
  lf_plan_rows :: "string \<Rightarrow> string option"

definition live_active :: "database \<Rightarrow> string \<Rightarrow> attempt list" where
  "live_active db cid = sort_key (\<lambda>a. (\<not> is_build a, - at_created a)) (filter (\<lambda>a. at_campaign a = cid) (active_attempts db))"

definition latest_build :: "database \<Rightarrow> string \<Rightarrow> attempt option" where
  "latest_build db cid = (case sort_key (\<lambda>a. - at_created a) (filter (\<lambda>a. at_campaign a = cid \<and> is_build a) (attempts db)) of
     [] \<Rightarrow> None | a # _ \<Rightarrow> Some a)"

text \<open>The activities of the given builds by derivation, a later one replacing an earlier.\<close>

definition live_activities :: "database \<Rightarrow> attempt list \<Rightarrow> (string \<times> activity) list" where
  "live_activities db builds = fold (\<lambda>b acc. fold (\<lambda>a acc. case av_drv a of None \<Rightarrow> acc | Some d \<Rightarrow> dict_set d a acc)
     (filter (\<lambda>a. av_attempt a = at_id b) (activities db)) acc) builds []"

text \<open>A consumer in a build phase establishes that its required input outputs exist.\<close>

definition provided_outputs :: "database \<Rightarrow> attempt list \<Rightarrow> string set" where
  "provided_outputs db builds = {p. \<exists>b \<in> set builds. \<exists>a \<in> set (activities db). av_attempt a = at_id b \<and> av_phase a \<noteq> None
     \<and> (\<exists>e \<in> set (edges db). av_drv a = Some (e_parent e)
          \<and> p \<noteq> [] \<and> (\<exists>k \<in> set (required_names (e_outputs e)). map_of (drv_outputs db (e_child e)) k = Some (Some p)))}"

text \<open>The same set, computed.\<close>

definition edge_provides :: "database \<Rightarrow> edge \<Rightarrow> string list" where
  "edge_provides db e = List.map_filter (\<lambda>k. case map_of (drv_outputs db (e_child e)) k of Some (Some p) \<Rightarrow> if p = [] then None else Some p | _ \<Rightarrow> None)
     (required_names (e_outputs e))"

definition provided_list :: "database \<Rightarrow> attempt list \<Rightarrow> string list" where
  "provided_list db builds = concat (map (\<lambda>b. concat (map (\<lambda>a.
       concat (map (edge_provides db) (filter (\<lambda>e. av_drv a = Some (e_parent e)) (edges db))))
     (filter (\<lambda>a. av_attempt a = at_id b \<and> av_phase a \<noteq> None) (activities db)))) builds)"

record live_context =
  lc_in_flight :: bool
  lc_existing :: "string list"
  lc_provided :: "string list"
  lc_requested :: "string list"
  lc_activities :: "(string \<times> activity) list"
  lc_walk :: ranking

section \<open>Nodes\<close>

record graph_node =
  gn_drv :: string
  gn_name :: string
  gn_state :: string
  gn_phase :: "string option"
  gn_failure :: "string option"
  gn_origin :: string
  gn_availability :: "string option"
  gn_labels :: "(int \<times> string \<times> cstate) list"
  gn_required :: "string list"
  gn_attempt :: "string option"
  gn_evidence :: "evidence option"
  gn_roles :: "string list"

definition node_record :: "database \<Rightarrow> string \<Rightarrow> derivation" where
  "node_record db drv = (case find_drv db drv of Some d \<Rightarrow> d | None \<Rightarrow> new_derivation drv (drv_basename drv) [])"

definition truthy_text :: "string option \<Rightarrow> string option" where
  "truthy_text v = (case v of Some s \<Rightarrow> if s = [] then None else Some s | None \<Rightarrow> None)"

definition node_labels :: "database \<Rightarrow> string \<Rightarrow> string \<Rightarrow> (int \<times> string \<times> cstate) list" where
  "node_labels db cid drv = take 8 (map (\<lambda>c. (c_id c, c_label c, c_state c))
     (sort_key c_label (filter (\<lambda>c. c_campaign c = cid \<and> c_drv c = Some drv) (candidates db))))"

definition node_paths :: "derivation \<Rightarrow> string list \<Rightarrow> string option list" where
  "node_paths d wanted = map (\<lambda>k. case map_of (d_outputs d) k of None \<Rightarrow> None | Some p \<Rightarrow> p) wanted"

definition all_in :: "string option list \<Rightarrow> string list \<Rightarrow> bool" where
  "all_in paths S \<longleftrightarrow> paths \<noteq> [] \<and> list_all (\<lambda>p. case p of None \<Rightarrow> False | Some x \<Rightarrow> List.member S x) paths"

definition node_status :: "live_context \<Rightarrow> derivation \<Rightarrow> string list \<Rightarrow> activity option \<Rightarrow> string" where
  "node_status lc d wanted act =
     (let paths = node_paths d wanted;
          present = all_in paths (lc_existing lc);
          consumed = all_in paths (lc_existing lc @ lc_provided lc) in
      if (case act of Some a \<Rightarrow> \<not> av_stopped a | None \<Rightarrow> False) then ''building''
      else if truthy_text (d_exclusion d) \<noteq> None then ''excluded''
      else if consumed then ''available''
      else if act \<noteq> None then ''settling''
      else if d_available d \<or> present then ''available''
      else if truthy_text (d_failure d) \<noteq> None then ''failed''
      else if List.member (rg_bad (lc_walk lc)) (d_drv d) then ''blocked''
      else if List.member (lc_requested lc) (d_drv d) then ''waiting''
      else ''unknown'')"

definition graph_node_of :: "database \<Rightarrow> string \<Rightarrow> live_context \<Rightarrow> string \<Rightarrow> string list option \<Rightarrow> graph_node" where
  "graph_node_of db cid lc drv required =
     (let d = node_record db drv;
          wanted = (case required of Some r \<Rightarrow> r | None \<Rightarrow> map fst (d_outputs d));
          act = (if lc_in_flight lc then map_of (lc_activities lc) drv else None);
          status0 = node_status lc d wanted act;
          labels = node_labels db cid drv;
          status = (if status0 = ''unknown'' \<and> list_ex (\<lambda>(_, _, st). st = Queued) labels then ''queued'' else status0);
          present = all_in (node_paths d wanted) (lc_existing lc);
          consumed = all_in (node_paths d wanted) (lc_existing lc @ lc_provided lc);
          aid = (case act of Some a \<Rightarrow> Some (av_attempt a) | None \<Rightarrow> d_evidence_attempt d) in
      \<lparr>gn_drv = drv, gn_name = d_name d, gn_state = status, gn_phase = Option.bind act av_phase,
       gn_failure = (case truthy_text (d_exclusion d) of Some x \<Rightarrow> Some x | None \<Rightarrow> d_failure d),
       gn_origin = (if present then ''pre-existing'' else d_origin d),
       gn_availability = (if consumed \<and> \<not> present \<and> \<not> d_available d then Some ''consumer-phase''
                          else if status = ''available'' then Some ''store-observation'' else None),
       gn_labels = labels, gn_required = wanted, gn_attempt = aid,
       gn_evidence = (case truthy_text aid of None \<Rightarrow> None | Some i \<Rightarrow> attempt_evidence db i drv), gn_roles = []\<rparr>)"

section \<open>The view\<close>

definition priority :: "string \<Rightarrow> int" where
  "priority st = the (map_of [(''queued'', 5), (''building'', 0), (''excluded'', 1), (''failed'', 1), (''blocked'', 2), (''settling'', 3),
     (''waiting'', 4), (''unknown'', 5), (''available'', 6)] st)"

definition node_order :: "graph_node \<Rightarrow> int \<times> string \<times> string" where
  "node_order n = (priority (gn_state n), gn_name n, gn_drv n)"

definition input_roles :: "database \<Rightarrow> string \<Rightarrow> string \<Rightarrow> string \<Rightarrow> string list" where
  "input_roles db cid focus child = sort (map r_role (filter (\<lambda>r. r_campaign r = cid \<and> r_parent r = focus \<and> r_child r = child) (roles db)))"

definition focus_inputs :: "database \<Rightarrow> string \<Rightarrow> live_context \<Rightarrow> string \<Rightarrow> graph_node list" where
  "focus_inputs db cid lc focus = sort_key node_order (map (\<lambda>e. (graph_node_of db cid lc (e_child e) (Some (required_names (e_outputs e))))
       \<lparr>gn_roles := input_roles db cid focus (e_child e)\<rparr>) (sort_key e_child (filter (\<lambda>e. e_parent e = focus) (edges db))))"

definition focus_consumers :: "database \<Rightarrow> string \<Rightarrow> live_context \<Rightarrow> string \<Rightarrow> graph_node list" where
  "focus_consumers db cid lc focus = sort_key node_order (map (\<lambda>p. graph_node_of db cid lc p None)
     (filter (List.member (rg_scope (lc_walk lc))) (sort (map e_parent (filter (\<lambda>e. e_child e = focus) (edges db))))))"

definition clamp_page :: "int \<Rightarrow> nat \<Rightarrow> nat" where
  "clamp_page page n = nat (max 0 (min page (max 0 ((int n - 1) div 6))))"

definition page_slice :: "nat \<Rightarrow> 'a list \<Rightarrow> 'a list" where
  "page_slice page xs = take 6 (drop (page * 6) xs)"

text \<open>The derivations that need the focus, itself included.\<close>

definition upward :: "database \<Rightarrow> string \<Rightarrow> string list" where
  "upward db focus = cte (flip (edge_pairs (edges db))) [focus]"

definition default_focus :: "graph_node list \<Rightarrow> graph_node list \<Rightarrow> string list \<Rightarrow> string list \<Rightarrow> string option" where
  "default_focus building roots targets scope =
     (case building of
        n # _ \<Rightarrow> Some (gn_drv n)
      | [] \<Rightarrow> (case find (\<lambda>n. List.member [''failed'', ''blocked''] (gn_state n)) roots of
          Some n \<Rightarrow> Some (gn_drv n)
        | None \<Rightarrow> (case find (\<lambda>n. gn_state n \<noteq> ''available'') roots of
            Some n \<Rightarrow> Some (gn_drv n)
          | None \<Rightarrow> (case targets of t # _ \<Rightarrow> Some t | [] \<Rightarrow> (case sort scope of [] \<Rightarrow> None | d # _ \<Rightarrow> Some d)))))"

record planning_view =
  pv_attempt :: string
  pv_completed :: nat
  pv_total :: nat

definition planning_of :: "live_files \<Rightarrow> attempt list \<Rightarrow> planning_view option" where
  "planning_of fs active = (case find is_plan active of
     None \<Rightarrow> None
   | Some p \<Rightarrow> (let total = length (at_targets p);
         completed = (case lf_plan_rows fs (at_id p) of None \<Rightarrow> 0 | Some raw \<Rightarrow> length (filter (\<lambda>c. c = NL) (take FILE_LIMIT raw)))
       in Some \<lparr>pv_attempt = at_id p, pv_completed = min completed total, pv_total = total\<rparr>))"

record live_view =
  gv_mode :: mode
  gv_heartbeat :: "timestamp option"
  gv_active :: "attempt option"
  gv_work :: string
  gv_stage :: "string option"
  gv_planning :: "planning_view option"
  gv_batches :: "attempt list"
  gv_roots :: "graph_node list"
  gv_building :: "graph_node list"
  gv_focus :: "graph_node option"
  gv_inputs :: "graph_node list"
  gv_consumers :: "graph_node list"
  gv_input_count :: nat
  gv_consumer_count :: nat
  gv_hidden :: nat
  gv_input_states :: "(string \<times> nat) list"
  gv_more :: bool
  gv_page :: int
  gv_edges :: "(string \<times> string) list"
  gv_affected :: "graph_node list"
  gv_dependents :: nat

definition live_batches :: "database \<Rightarrow> string \<Rightarrow> attempt list" where
  "live_batches db cid = (let builds = filter is_build (live_active db cid) in
     if builds \<noteq> [] then builds else (case latest_build db cid of None \<Rightarrow> [] | Some b \<Rightarrow> [b]))"

definition observed_before :: "runtime \<Rightarrow> live_files \<Rightarrow> attempt list \<Rightarrow> json option list" where
  "observed_before rt fs builds = map (\<lambda>b. attempt_file rt (lf_before fs (at_id b))) builds"

definition existing_paths :: "json option list \<Rightarrow> string list result" where
  "existing_paths obs = bindr (map_res (\<lambda>v. case v of None \<Rightarrow> Inr [] | Some j \<Rightarrow> if truthy j then bindr (jlist j) strings else Inr []) obs)
     (\<lambda>pss. Inr (concat pss))"

definition live_context_of :: "runtime \<Rightarrow> live_files \<Rightarrow> ranking \<Rightarrow> database \<Rightarrow> string \<Rightarrow> live_context result" where
  "live_context_of rt fs walk db cid =
     (let builds = filter is_build (live_active db cid) in
      bindr (existing_paths (observed_before rt fs builds)) (\<lambda>existing.
      Inr \<lparr>lc_in_flight = (builds \<noteq> []), lc_existing = existing, lc_provided = provided_list db builds,
        lc_requested = concat (map (\<lambda>b. sp_derivations (at_spec b)) builds), lc_activities = live_activities db builds, lc_walk = walk\<rparr>))"

definition state_counts :: "graph_node list \<Rightarrow> (string \<times> nat) list" where
  "state_counts ns = map (\<lambda>st. (st, length (filter (\<lambda>n. gn_state n = st) ns))) (dedup (map gn_state ns))"

text \<open>The part of the view around the focus.\<close>

definition focus_view :: "database \<Rightarrow> string \<Rightarrow> live_context \<Rightarrow> bool \<Rightarrow> int \<Rightarrow> string \<Rightarrow> live_view \<Rightarrow> live_view" where
  "focus_view db cid lc show_available page focus v =
     (let inputs = focus_inputs db cid lc focus; consumers = focus_consumers db cid lc focus;
          visible = (if show_available then inputs else filter (\<lambda>n. gn_state n \<noteq> ''available'') inputs);
          n = max (length visible) (length consumers); pg = clamp_page page n; up = upward db focus in
      v\<lparr>gv_focus := Some (graph_node_of db cid lc focus None),
        gv_page := int pg, gv_inputs := page_slice pg visible, gv_consumers := page_slice pg consumers,
        gv_input_count := length inputs, gv_consumer_count := length consumers,
        gv_hidden := (if show_available then 0 else length (filter (\<lambda>n. gn_state n = ''available'') inputs)),
        gv_input_states := state_counts inputs,
        gv_more := ((pg + 1) * 6 < n),
        gv_edges := map (\<lambda>m. (gn_drv m, focus)) (page_slice pg visible) @ map (\<lambda>m. (focus, gn_drv m)) (page_slice pg consumers),
        gv_affected := filter (\<lambda>m. List.member up (gn_drv m) \<and> gn_drv m \<noteq> focus) (gv_roots v),
        gv_dependents := length (filter (\<lambda>c. c_campaign c = cid \<and> (case c_drv c of None \<Rightarrow> False | Some d \<Rightarrow> List.member up d \<and> d \<noteq> focus)) (candidates db))\<rparr>)"

definition live_graph :: "runtime \<Rightarrow> live_files \<Rightarrow> ranking \<Rightarrow> database \<Rightarrow> string \<Rightarrow> string option \<Rightarrow> bool \<Rightarrow> int \<Rightarrow> live_view result" where
  "live_graph rt fs walk db cid focus show_available page =
     (case find_campaign db cid of
        None \<Rightarrow> Inl (ValueError ''unknown campaign'')
      | Some c \<Rightarrow>
         let active = live_active db cid; builds = filter is_build active; batches = live_batches db cid;
             targets = dedup (concat (map (\<lambda>b. build_roots (at_targets b)) batches)) in
         bindr (live_context_of rt fs walk db cid) (\<lambda>lc.
         let roots = map (\<lambda>d. graph_node_of db cid lc d None) targets;
             building = map (\<lambda>(d, a). graph_node_of db cid lc d None)
               (filter (\<lambda>(d, a). builds \<noteq> [] \<and> \<not> av_stopped a \<and> List.member (rg_scope walk) d) (lc_activities lc)) in
         bindr (case focus of
                  None \<Rightarrow> Inr (default_focus building roots targets (rg_scope walk))
                | Some f \<Rightarrow> if List.member (rg_scope walk) f then Inr (Some f)
                            else Inl (ValueError ''derivation is outside this campaign's evaluated graph'')) (\<lambda>chosen.
         let v = \<lparr>gv_mode = cp_mode c, gv_heartbeat = cp_heartbeat c, gv_active = (case active of [] \<Rightarrow> None | a # _ \<Rightarrow> Some a), gv_work = (case active of [] \<Rightarrow> ''idle'' | a # _ \<Rightarrow> kind_text (at_kind a)),
              gv_stage = (if builds = [] then None else Some (if building \<noteq> [] then ''building''
                 else if list_all (\<lambda>x. x = None) (observed_before rt fs builds) then ''preflight'' else ''resolving'')),
              gv_planning = planning_of fs active, gv_batches = batches, gv_roots = roots, gv_building = take 30 building,
              gv_focus = None, gv_inputs = [], gv_consumers = [], gv_input_count = 0, gv_consumer_count = 0, gv_hidden = 0, gv_input_states = [], gv_more = False,
              gv_page = page, gv_edges = [], gv_affected = [], gv_dependents = 0\<rparr>
         in Inr (case chosen of None \<Rightarrow> v | Some f \<Rightarrow> focus_view db cid lc show_available page f v))))"

section \<open>What the view claims\<close>

text \<open>Availability is claimed only on evidence: a recorded realization, or all wanted outputs observed
  or consumed. That an activity stopped is not evidence.\<close>

lemma node_status_available:
  assumes "node_status lc d wanted act = ''available''"
  shows "d_available d \<or> (node_paths d wanted \<noteq> [] \<and> (\<forall>p \<in> set (node_paths d wanted). \<exists>x. p = Some x \<and> x \<in> set (lc_existing lc) \<union> set (lc_provided lc)))"
  using assms by (auto simp: node_status_def Let_def all_in_def list_all_iff split: if_splits option.splits)

lemma node_status_stopped:
  assumes "act = Some a" and "av_stopped a" and "truthy_text (d_exclusion d) = None" and "\<not> all_in (node_paths d wanted) (lc_existing lc @ lc_provided lc)"
  shows "node_status lc d wanted act = ''settling''"
  using assms by (simp add: node_status_def Let_def)

lemma set_edge_provides:
  "p \<in> set (edge_provides db e) \<longleftrightarrow> p \<noteq> [] \<and> (\<exists>k \<in> set (required_names (e_outputs e)). map_of (drv_outputs db (e_child e)) k = Some (Some p))"
proof -
  have "(case x of Some (Some q) \<Rightarrow> if q = [] then None else Some q | _ \<Rightarrow> None) = Some p \<longleftrightarrow> p \<noteq> [] \<and> x = Some (Some p)" for x :: "string option option"
    by (auto split: option.splits)
  then show ?thesis unfolding edge_provides_def set_map_filter by blast
qed

lemma set_provided_list: "set (provided_list db builds) = provided_outputs db builds"
proof (rule set_eqI)
  fix p
  have "p \<in> set (provided_list db builds) \<longleftrightarrow> (\<exists>b \<in> set builds. \<exists>a \<in> set (activities db). (av_attempt a = at_id b \<and> av_phase a \<noteq> None)
      \<and> (\<exists>e \<in> set (edges db). av_drv a = Some (e_parent e) \<and> p \<in> set (edge_provides db e)))"
    unfolding provided_list_def by (simp only: set_concat set_map set_filter image_image Union_iff bex_simps(7) UN_iff mem_Collect_eq) auto
  then show "p \<in> set (provided_list db builds) \<longleftrightarrow> p \<in> provided_outputs db builds"
    unfolding provided_outputs_def mem_Collect_eq set_edge_provides conj_assoc .
qed

lemma set_upward: "set (upward db focus) = {p. focus \<in> depends db p}"
  by (auto simp: upward_def depends_def reach_flip)

text \<open>The pages of a list cover it in order.\<close>

lemma pages_cover: "concat (map (\<lambda>p. page_slice p xs) [0..<n]) = take (n * 6) xs"
proof (induction n)
  case (Suc n)
  then show ?case by (simp add: page_slice_def take_add [symmetric] add.commute)
qed simp

lemma clamp_in_range: "clamp_page page n * 6 < n \<or> clamp_page page n = 0"
proof (cases "0 < n")
  case True
  let ?m = "(int n - 1) div 6"
  have "int (clamp_page page n) \<le> ?m" using True by (simp add: clamp_page_def)
  moreover have "?m * 6 \<le> int n - 1" by presburger
  ultimately have "int (clamp_page page n) * 6 \<le> int n - 1" by linarith
  then show ?thesis by linarith
qed (simp add: clamp_page_def)

lemma focus_view_bounds:
  "length (gv_inputs (focus_view db cid lc sa page f v)) \<le> 6" "length (gv_consumers (focus_view db cid lc sa page f v)) \<le> 6"
  by (simp_all add: focus_view_def Let_def page_slice_def)

lemma gn_drv_node [simp]: "gn_drv (graph_node_of db cid lc d req) = d"
  by (simp add: graph_node_of_def Let_def)

lemma graph_node_available:
  assumes "gn_state (graph_node_of db cid lc drv req) = ''available''"
  shows "node_status lc (node_record db drv) (gn_required (graph_node_of db cid lc drv req)) (if lc_in_flight lc then map_of (lc_activities lc) drv else None) = ''available''"
  using assms by (simp add: graph_node_of_def Let_def split: if_splits)

end
