(* ===== verification/History.thy ===== *)
theory History
  imports Commands "HOL-Library.Multiset"
begin

text \<open>
  Attempt history (\<^verbatim>\<open>experiment/history.py\<close>) and the batch ledger (\<^verbatim>\<open>experiment/batches.py\<close>): read-only
  views that page through attempts in admission order. The row number of an attempt is its position
  in the table, which only grows.
\<close>

definition PAGE_SIZE :: nat where
  "PAGE_SIZE = 24"

definition TIMELINE_LIMIT :: nat where
  "TIMELINE_LIMIT = 400"

definition BUCKETS :: nat where
  "BUCKETS = 160"

section \<open>Outcomes\<close>

definition attempt_reason :: "attempt \<Rightarrow> string option" where
  "attempt_reason a = map_option re_reason (at_result a)"

definition OUTCOME :: "attempt \<Rightarrow> string" where
  "OUTCOME a =
     (if at_state a \<noteq> Finished then ''active''
      else if attempt_reason a = Some ''completed'' then ''complete''
      else if at_result a = None then ''unknown'' else ''error'')"

definition campaign_row :: "database \<Rightarrow> string \<Rightarrow> campaign result" where
  "campaign_row db cid = (case find_campaign db cid of None \<Rightarrow> Inl (ValueError ''unknown campaign'') | Some c \<Rightarrow> Inr c)"

definition batch_status :: "astate \<Rightarrow> string option \<Rightarrow> string" where
  "batch_status st reason =
     (if st = Intended then ''starting''
      else if st \<noteq> Finished then ''running''
      else case reason of
        None \<Rightarrow> ''result-unknown''
      | Some r \<Rightarrow> (case map_of [(''completed'', ''finished''), (''build-error'', ''finished-errors''), (''cancelled'', ''cancelled''),
            (''timeout'', ''timed-out''), (''silent-timeout'', ''timed-out''), (''resource-limit'', ''resource-limit''),
            (''resource-interruption'', ''resource-limit''), (''log-limit'', ''resource-limit''), (''interrupted'', ''interrupted'')] r of
            Some s \<Rightarrow> s
          | None \<Rightarrow> if r = [] then ''result-unknown'' else ''finished-errors''))"

definition numbered :: "attempt list \<Rightarrow> (nat \<times> attempt) list" where
  "numbered as = zip [1..<Suc (length as)] as"

definition reference :: "database \<Rightarrow> string \<Rightarrow> string \<Rightarrow> nat result" where
  "reference db cid aid =
     (case find (\<lambda>(n, a). at_campaign a = cid \<and> at_id a = aid) (numbered (attempts db)) of
        None \<Rightarrow> Inl (ValueError ''unknown campaign attempt'')
      | Some (n, _) \<Rightarrow> Inr n)"

section \<open>One attempt\<close>

datatype target_view = PlanTarget int string | BuildTarget string string "(int \<times> string) list"

definition target_view_of :: "database \<Rightarrow> string \<Rightarrow> target \<Rightarrow> target_view" where
  "target_view_of db cid t =
     (case t of
        TPlan i attr \<Rightarrow> PlanTarget i (attr_label attr)
      | TBuild d \<Rightarrow> (let aliases = take 8 (map (\<lambda>c. (c_id c, c_label c)) (sort_key c_label (filter (\<lambda>c. c_campaign c = cid \<and> c_drv c = Some d) (candidates db))))
          in BuildTarget d (case aliases of (_, l) # _ \<Rightarrow> l | [] \<Rightarrow> drv_basename d) aliases))"

definition built_count :: "database \<Rightarrow> string \<Rightarrow> nat" where
  "built_count db aid = length (built_drvs db aid)"

definition tested_count :: "database \<Rightarrow> string \<Rightarrow> nat" where
  "tested_count db aid = length (remdups (map t_drv (filter (\<lambda>t. t_attempt t = aid) (tests db))))"

record attempt_view =
  aw_attempt :: attempt
  aw_status :: string
  aw_error :: string
  aw_targets :: "target_view list"
  aw_builds :: nat
  aw_checks :: nat

definition item :: "database \<Rightarrow> attempt \<Rightarrow> attempt_view" where
  "item db a = \<lparr>aw_attempt = a, aw_status = batch_status (at_state a) (attempt_reason a),
     aw_error = take 2000 (case Option.bind (at_result a) re_error of None \<Rightarrow> [] | Some e \<Rightarrow> e),
     aw_targets = map (target_view_of db (at_campaign a)) (at_targets a),
     aw_builds = built_count db (at_id a), aw_checks = tested_count db (at_id a)\<rparr>"

section \<open>The overview\<close>

record bucket =
  bk_n :: nat
  bk_kind :: akind
  bk_outcome :: string
  bk_count :: nat

record overview =
  ov_start :: timestamp
  ov_end :: timestamp
  ov_totals :: "(string \<times> nat) list"
  ov_kinds :: "(akind \<times> nat) list"
  ov_intervals :: "attempt list"
  ov_buckets :: "bucket list"

definition counts :: "('a \<Rightarrow> 'b) \<Rightarrow> 'a list \<Rightarrow> ('b \<times> nat) list" where
  "counts f xs = map (\<lambda>k. (k, length (filter (\<lambda>x. f x = k) xs))) (dedup (map f xs))"

definition finished_or :: "timestamp \<Rightarrow> attempt \<Rightarrow> timestamp" where
  "finished_or now a = (case at_finished a of None \<Rightarrow> now | Some t \<Rightarrow> t)"

definition last_seen :: "timestamp \<Rightarrow> attempt \<Rightarrow> timestamp" where
  "last_seen now a = (if at_state a \<noteq> Finished then now else finished_or (at_created a) a)"

definition overview_end :: "timestamp \<Rightarrow> campaign \<Rightarrow> attempt list \<Rightarrow> timestamp" where
  "overview_end now c as =
     (let m = (case map (last_seen now) as of [] \<Rightarrow> now | t # ts \<Rightarrow> let x = fold max ts t in if x = 0 then now else x)
      in max m (cp_created c + 1))"

definition in_bucket :: "timestamp \<Rightarrow> timestamp \<Rightarrow> timestamp \<Rightarrow> nat \<Rightarrow> attempt \<Rightarrow> bool" where
  "in_bucket now start step n a \<longleftrightarrow> at_created a < start + of_nat (n + 1) * step \<and> finished_or now a \<ge> start + of_nat n * step"

definition bucket_rows :: "timestamp \<Rightarrow> timestamp \<Rightarrow> timestamp \<Rightarrow> attempt list \<Rightarrow> bucket list" where
  "bucket_rows now start step as = concat (map (\<lambda>n. concat (map (\<lambda>k. List.map_filter (\<lambda>outc.
       let m = length (filter (\<lambda>a. in_bucket now start step n a \<and> at_kind a = k \<and> OUTCOME a = outc) as) in
       if m = 0 then None else Some \<lparr>bk_n = n, bk_kind = k, bk_outcome = outc, bk_count = m\<rparr>)
     [''active'', ''complete'', ''error'', ''unknown'']) [Build, Plan])) [0..<BUCKETS])"

definition overview_of :: "database \<Rightarrow> campaign \<Rightarrow> timestamp \<Rightarrow> timestamp \<Rightarrow> overview" where
  "overview_of db c now window =
     (let as = filter (\<lambda>a. at_campaign a = cp_id c) (attempts db);
          end' = overview_end now c as;
          start = (if window = 0 then cp_created c else max (cp_created c) (end' - window));
          width = max 1 (end' - start);
          intervals = take (TIMELINE_LIMIT + 1) (sort_key (\<lambda>a. (at_created a, at_id a))
            (filter (\<lambda>a. at_created a \<le> end' \<and> finished_or now a \<ge> start) as));
          many = length intervals > TIMELINE_LIMIT in
      \<lparr>ov_start = start, ov_end = end', ov_totals = counts OUTCOME as, ov_kinds = counts at_kind as,
       ov_intervals = (if many then [] else intervals),
       ov_buckets = (if many then bucket_rows now start (width / of_nat BUCKETS) as else [])\<rparr>)"

section \<open>Paging\<close>

fun target_json :: "target \<Rightarrow> json" where
  "target_json (TPlan i attr) = JObj [(''id'', JInt i), (''attr'', attr)]"
| "target_json (TBuild d) = JStr d"

definition targets_text :: "runtime \<Rightarrow> target list \<Rightarrow> string" where
  "targets_text rt ts = encode (rt_float rt) (JArr (map target_json ts))"

definition matches_target :: "candidate \<Rightarrow> target \<Rightarrow> bool" where
  "matches_target c t = (case t of TPlan i _ \<Rightarrow> i = c_id c | TBuild d \<Rightarrow> c_drv c = Some d)"

definition matches_search :: "runtime \<Rightarrow> database \<Rightarrow> string \<Rightarrow> attempt \<Rightarrow> bool" where
  "matches_search rt db search a \<longleftrightarrow>
     (let s = take 200 search; low = map ascii_lower in
      contains (low s) (low (targets_text rt (at_targets a))) \<or> contains s (at_id a)
      \<or> list_ex (\<lambda>c. c_campaign c = at_campaign a \<and> contains (low s) (low (c_label c)) \<and> list_ex (matches_target c) (at_targets a)) (candidates db))"

record history_query =
  hq_anchor :: string
  hq_before :: string
  hq_kind :: string
  hq_outcome :: string
  hq_search :: string
  hq_window :: timestamp

definition query_checked :: "history_query \<Rightarrow> unit result" where
  "query_checked q =
     bindr (guardr (List.member [[], ''plan'', ''build''] (hq_kind q)) (ValueError ''unknown attempt kind'')) (\<lambda>_.
     guardr (List.member [[], ''active'', ''complete'', ''error'', ''unknown''] (hq_outcome q)) (ValueError ''unknown outcome''))"

definition selects :: "runtime \<Rightarrow> database \<Rightarrow> string \<Rightarrow> history_query \<Rightarrow> attempt \<Rightarrow> bool" where
  "selects rt db cid q a \<longleftrightarrow> at_campaign a = cid
     \<and> (hq_kind q = [] \<or> kind_text (at_kind a) = hq_kind q)
     \<and> (hq_outcome q = [] \<or> OUTCOME a = hq_outcome q)
     \<and> (hq_search q = [] \<or> matches_search rt db (hq_search q) a)"

definition history_rows :: "runtime \<Rightarrow> database \<Rightarrow> string \<Rightarrow> history_query \<Rightarrow> nat \<Rightarrow> (nat \<times> attempt) list" where
  "history_rows rt db cid q anchor = rev (filter (\<lambda>(n, a). n \<le> anchor \<and> selects rt db cid q a) (numbered (attempts db)))"

record history_page =
  hp_anchor :: string
  hp_newer :: nat
  hp_total :: nat
  hp_more :: bool
  hp_rows :: "attempt_view list"
  hp_overview :: overview

definition anchor_of :: "database \<Rightarrow> string \<Rightarrow> history_query \<Rightarrow> string" where
  "anchor_of db cid q = (if hq_anchor q \<noteq> [] then hq_anchor q
     else case rev (filter (\<lambda>a. at_campaign a = cid) (attempts db)) of [] \<Rightarrow> [] | a # _ \<Rightarrow> at_id a)"

definition history :: "runtime \<Rightarrow> timestamp \<Rightarrow> database \<Rightarrow> string \<Rightarrow> history_query \<Rightarrow> history_page result" where
  "history rt now db cid q =
     bindr (campaign_row db cid) (\<lambda>c.
     let anchor = anchor_of db cid q in
     bindr (if anchor = [] then Inr 0 else reference db cid anchor) (\<lambda>top_row.
     bindr (query_checked q) (\<lambda>_.
     let all_rows = history_rows rt db cid q top_row in
     bindr (if hq_before q = [] then Inr all_rows
            else bindr (reference db cid (hq_before q)) (\<lambda>b. Inr (filter (\<lambda>(n, a). n < b) all_rows))) (\<lambda>rest.
     let rows = take (PAGE_SIZE + 1) rest in
     Inr \<lparr>hp_anchor = anchor, hp_newer = length (filter (\<lambda>(n, a). at_campaign a = cid \<and> top_row < n) (numbered (attempts db))),
        hp_total = length all_rows, hp_more = (PAGE_SIZE < length rows),
        hp_rows = map (\<lambda>(n, a). item db a) (take PAGE_SIZE rows), hp_overview = overview_of db c now (hq_window q)\<rparr>))))"

section \<open>Details\<close>

record activity_view =
  aq_drv :: "string option"
  aq_name :: string
  aq_phase :: "string option"
  aq_stopped :: bool
  aq_checked :: bool
  aq_status :: string

definition activity_name :: "database \<Rightarrow> activity \<Rightarrow> string" where
  "activity_name db a = (case av_drv a of None \<Rightarrow> [] | Some d \<Rightarrow> (case find_drv db d of Some r \<Rightarrow> d_name r | None \<Rightarrow> d))"

definition activity_checked :: "database \<Rightarrow> activity \<Rightarrow> bool" where
  "activity_checked db a = list_ex (\<lambda>t. t_attempt t = av_attempt a \<and> Some (t_drv t) = av_drv a) (tests db)"

text \<open>One row per derivation: the first of the rows in the order \<^verbatim>\<open>stopped, rowid\<close>.\<close>

definition detail_rows :: "database \<Rightarrow> string \<Rightarrow> activity list" where
  "detail_rows db aid =
     (let rows = sort_key av_stopped (filter (\<lambda>a. av_attempt a = aid \<and> av_kind a = Some ''build'') (activities db)) in
      map snd (fold (\<lambda>a acc. map (\<lambda>(d, b). if d = av_drv a then (d, a) else (d, b)) (insert_or_ignore fst (av_drv a, a) acc)) (rev rows) []))"

definition detail_status :: "database \<Rightarrow> attempt \<Rightarrow> activity \<Rightarrow> string" where
  "detail_status db a act =
     (if activity_checked db act then ''tested''
      else if at_state a = Finished then
        (case Option.bind (at_result a) re_build_outcomes of
           None \<Rightarrow> ''unknown''
         | Some outcomes \<Rightarrow> (case Option.bind (av_drv act) (map_of outcomes) of None \<Rightarrow> ''unknown'' | Some o' \<Rightarrow> o'))
      else if av_stopped act then ''awaiting-result'' else ''building'')"

definition status_order :: "string \<Rightarrow> int result" where
  "status_order st = (case map_of [(''building'', 0), (''failed'', 1), (''awaiting-result'', 2), (''unknown'', 3), (''tested'', 4), (''built'', 5)] st of
     None \<Rightarrow> Inl (KeyError st) | Some n \<Rightarrow> Inr n)"

definition activity_view_of :: "database \<Rightarrow> attempt \<Rightarrow> activity \<Rightarrow> activity_view" where
  "activity_view_of db a act = \<lparr>aq_drv = av_drv act, aq_name = activity_name db act, aq_phase = av_phase act, aq_stopped = av_stopped act,
     aq_checked = activity_checked db act, aq_status = detail_status db a act\<rparr>"

definition attempt_detail :: "database \<Rightarrow> string \<Rightarrow> string \<Rightarrow> (attempt_view \<times> activity_view list \<times> (string \<times> nat) list) result" where
  "attempt_detail db cid aid =
     bindr (campaign_row db cid) (\<lambda>_.
     case find (\<lambda>a. at_campaign a = cid \<and> at_id a = aid) (attempts db) of
       None \<Rightarrow> Inl (ValueError ''unknown campaign attempt'')
     | Some a \<Rightarrow>
         let views = map (activity_view_of db a) (detail_rows db aid) in
         bindr (map_res (\<lambda>v. bindr (status_order (aq_status v)) (\<lambda>n. Inr (n, v))) views) (\<lambda>keyed.
         let sorted_views = map snd (sort_key (\<lambda>(n, v). (n, aq_name v)) keyed) in
         Inr (item db a, sorted_views, counts aq_status sorted_views)))"

section \<open>The batch ledger\<close>

record ledger_row =
  lr_attempt :: attempt
  lr_outcome :: string
  lr_status :: string
  lr_duration :: "timestamp option"
  lr_roots :: "string list"
  lr_names :: "string list"
  lr_builds :: nat
  lr_tested :: nat

definition recent_ids :: "database \<Rightarrow> string \<Rightarrow> string list" where
  "recent_ids db cid =
     (let newest = rev (sort_key (\<lambda>a. (at_created a, at_id a)) (filter (\<lambda>a. at_campaign a = cid) (attempts db))) in
      map at_id (take 40 newest @ take 8 (filter (\<lambda>a. is_build a \<and> at_state a = Finished) newest)))"

definition root_labels :: "database \<Rightarrow> string \<Rightarrow> target \<Rightarrow> string list" where
  "root_labels db cid t =
     (case t of
        TPlan i attr \<Rightarrow> [attr_label attr]
      | TBuild d \<Rightarrow> (case sort (map c_label (filter (\<lambda>c. c_campaign c = cid \<and> c_drv c = Some d) (candidates db))) of
          [] \<Rightarrow> [drv_basename d] | ls \<Rightarrow> ls))"

definition built_names :: "database \<Rightarrow> string \<Rightarrow> string list" where
  "built_names db aid = map (\<lambda>d. case find_drv db d of Some r \<Rightarrow> d_name r | None \<Rightarrow> d) (built_drvs db aid)"

definition ledger_duration :: "timestamp \<Rightarrow> attempt \<Rightarrow> timestamp option" where
  "ledger_duration now a =
     (case (if at_state a \<noteq> Finished then Some now else at_finished a) of None \<Rightarrow> None | Some e \<Rightarrow> Some (max 0 (e - at_created a)))"

definition ledger_row_of :: "timestamp \<Rightarrow> database \<Rightarrow> string \<Rightarrow> attempt \<Rightarrow> ledger_row" where
  "ledger_row_of now db cid a =
     (let labels = map (root_labels db cid) (at_targets a) in
      \<lparr>lr_attempt = a, lr_outcome = OUTCOME a, lr_status = batch_status (at_state a) (attempt_reason a), lr_duration = ledger_duration now a,
       lr_roots = map hd labels, lr_names = sort (remdups (concat labels @ built_names db (at_id a))),
       lr_builds = built_count db (at_id a), lr_tested = tested_count db (at_id a)\<rparr>)"

record ledger =
  lg_cursor :: int
  lg_rows :: "ledger_row list"
  lg_total :: nat

definition batches :: "timestamp \<Rightarrow> database \<Rightarrow> string \<Rightarrow> bool \<Rightarrow> ledger result" where
  "batches now db cid recent =
     bindr (campaign_row db cid) (\<lambda>_.
     let mine = filter (\<lambda>a. at_campaign a = cid) (attempts db);
         chosen = (if recent then filter (\<lambda>a. List.member (recent_ids db cid) (at_id a)) mine else mine);
         rows = map (ledger_row_of now db cid) (sort_key (\<lambda>a. (at_created a, at_id a)) chosen) in
     Inr \<lparr>lg_cursor = fold max (map ev_seq (filter (\<lambda>e. ev_campaign e = cid) (events db))) 0, lg_rows = rows,
        lg_total = (if recent then length mine else length rows)\<rparr>)"

section \<open>Pages neither skip nor repeat\<close>

lemma numbered_append: "numbered (xs @ ys) = numbered xs @ map (\<lambda>(n, a). (n + length xs, a)) (numbered ys)"
proof -
  have shift: "[Suc m..<Suc (m + k)] = map (\<lambda>n. n + m) [1..<Suc k]" for m k
    by (induction k) auto
  have "numbered (xs @ ys) = zip ([1..<Suc (length xs)] @ [Suc (length xs)..<Suc (length xs + length ys)]) (xs @ ys)"
  proof -
    have "[1..<Suc (length xs) + length ys] = [1..<Suc (length xs)] @ [Suc (length xs)..<Suc (length xs) + length ys]"
      by (rule upt_add_eq_append) simp
    then show ?thesis unfolding numbered_def by (simp del: upt_Suc)
  qed
  also have "\<dots> = numbered xs @ zip (map (\<lambda>n. n + length xs) [1..<Suc (length ys)]) ys"
    unfolding numbered_def shift by (simp del: upt_Suc)
  finally show ?thesis by (simp add: numbered_def zip_map1)
qed

lemma numbered_bounds: "(n, a) \<in> set (numbered as) \<Longrightarrow> 1 \<le> n \<and> n \<le> length as \<and> as ! (n - 1) = a"
  by (auto simp: numbered_def in_set_zip nth_upt simp del: upt_Suc)

lemma numbered_sorted: "sorted_wrt (\<lambda>x y. fst x < fst y) (numbered as)"
  unfolding numbered_def by (auto simp: sorted_wrt_iff_nth_less nth_upt simp del: upt_Suc)

lemma numbered_numbers: "set (map fst (numbered as)) = {1..length as}"
  unfolding numbered_def by (auto simp: map_fst_zip_take simp del: upt_Suc)

lemma numbered_snd [simp]: "map snd (numbered as) = as"
  by (simp add: numbered_def del: upt_Suc)

lemma history_rows_sorted: "sorted_wrt (\<lambda>x y. fst x > fst y) (history_rows rt db cid q anchor)"
  unfolding history_rows_def sorted_wrt_rev by (rule sorted_wrt_filter [OF numbered_sorted])

lemma filter_after_last:
  assumes "sorted_wrt (\<lambda>x y. fst x > (fst y :: nat)) L" and "k < length L"
  shows "filter (\<lambda>x. fst x < fst (L ! k)) L = drop (Suc k) L"
  using assms
proof (induction L arbitrary: k)
  case (Cons x L)
  show ?case
  proof (cases k)
    case 0
    then show ?thesis using Cons.prems(1) by (simp add: filter_id_conv)
  next
    case (Suc j)
    then have "L ! j \<in> set L" using Cons.prems(2) by simp
    then have "fst (L ! j) < fst x" using Cons.prems(1) by auto
    then have "\<not> fst x < fst (L ! j)" by simp
    moreover have "filter (\<lambda>y. fst y < fst (L ! j)) L = drop (Suc j) L" using Suc Cons.prems by (intro Cons.IH) auto
    ultimately show ?thesis using Suc by simp
  qed
qed simp

lemma find_unique:
  assumes "x \<in> set xs" and "P x" and "\<And>y. y \<in> set xs \<Longrightarrow> P y \<Longrightarrow> y = x"
  shows "find P xs = Some x"
proof (cases "find P xs")
  case None
  then show ?thesis using assms(1,2) by (auto simp: find_None_iff)
next
  case (Some y)
  then have "y \<in> set xs" "P y" by (auto simp: find_Some_iff)
  then show ?thesis using assms(3) Some by simp
qed

lemma reference_exact:
  assumes "unique_keys at_id (attempts db)" and "(n, a) \<in> set (numbered (attempts db))" and "at_campaign a = cid"
  shows "reference db cid (at_id a) = Inr n"
proof -
  have "find (\<lambda>(n, b). at_campaign b = cid \<and> at_id b = at_id a) (numbered (attempts db)) = Some (n, a)"
  proof (rule find_unique [OF assms(2)])
    show "y = (n, a)" if y: "y \<in> set (numbered (attempts db))" and p: "case y of (n, b) \<Rightarrow> at_campaign b = cid \<and> at_id b = at_id a" for y
    proof -
      obtain m b where mb: "y = (m, b)" by (cases y)
      note nb = numbered_bounds [OF assms(2)] and mb' = numbered_bounds [OF y [unfolded mb]]
      have "at_id (attempts db ! (m - 1)) = at_id (attempts db ! (n - 1))" using nb mb' p mb by simp
      then have "m - 1 = n - 1"
        using assms(1) nb mb' by (simp add: unique_keys_def distinct_conv_nth) (metis One_nat_def Suc_le_eq Suc_pred diff_less_mono nth_map)
      then show ?thesis using nb mb' mb by (simp add: eq_diff_iff)
    qed
  qed (use assms(3) in simp)
  then show ?thesis by (simp add: reference_def)
qed

lemma history_rows_mem: "(n, a) \<in> set (history_rows rt db cid q anchor) \<Longrightarrow> (n, a) \<in> set (numbered (attempts db)) \<and> at_campaign a = cid"
  by (auto simp: history_rows_def selects_def)

lemma selects_paging [simp]:
  "selects rt db cid (q\<lparr>hq_before := x\<rparr>) = selects rt db cid q" "selects rt db cid (q\<lparr>hq_anchor := y\<rparr>) = selects rt db cid q"
  by (simp_all add: selects_def fun_eq_iff)

lemma history_rows_paging [simp]:
  "history_rows rt db cid (q\<lparr>hq_before := x\<rparr>) = history_rows rt db cid q" "history_rows rt db cid (q\<lparr>hq_anchor := y\<rparr>) = history_rows rt db cid q"
  by (simp_all add: history_rows_def fun_eq_iff)

lemma query_checked_paging [simp]: "query_checked (q\<lparr>hq_before := x\<rparr>) = query_checked q" "query_checked (q\<lparr>hq_anchor := y\<rparr>) = query_checked q"
  by (simp_all add: query_checked_def)

lemma history_first:
  assumes "history rt now db cid q = Inr p" and "hq_before q = []"
  obtains r where "hp_rows p = map (\<lambda>(n, a). item db a) (take PAGE_SIZE (history_rows rt db cid q r))"
    and "hp_total p = length (history_rows rt db cid q r)" and "hp_more p \<longleftrightarrow> PAGE_SIZE < hp_total p"
    and "hp_anchor p \<noteq> [] \<Longrightarrow> reference db cid (hp_anchor p) = Inr r" and "hp_anchor p = [] \<Longrightarrow> r = 0" and "query_checked q = Inr ()"
    and "\<exists>c. campaign_row db cid = Inr c" and "hp_anchor p = anchor_of db cid q"
proof -
  from assms obtain c r where c: "campaign_row db cid = Inr c"
    and r: "(if anchor_of db cid q = [] then Inr 0 else reference db cid (anchor_of db cid q)) = Inr r" and qc: "query_checked q = Inr ()"
    and p: "p = \<lparr>hp_anchor = anchor_of db cid q, hp_newer = length (filter (\<lambda>(n, a). at_campaign a = cid \<and> r < n) (numbered (attempts db))),
        hp_total = length (history_rows rt db cid q r), hp_more = (PAGE_SIZE < length (take (PAGE_SIZE + 1) (history_rows rt db cid q r))),
        hp_rows = map (\<lambda>(n, a). item db a) (take PAGE_SIZE (take (PAGE_SIZE + 1) (history_rows rt db cid q r))), hp_overview = overview_of db c now (hq_window q)\<rparr>"
    by (auto simp: history_def Let_def bindr_eq_Inr)
  show thesis by (rule that [of r]) (use c r qc p in \<open>auto simp: min_def split: if_splits\<close>)
qed

text \<open>Continuing from row \<open>k\<close> gives the rows behind it.\<close>

lemma history_next:
  assumes first: "history rt now db cid q = Inr p" "hq_before q = []" and uniq: "unique_keys at_id (attempts db)"
    and ids: "\<forall>a \<in> set (attempts db). at_id a \<noteq> []"
    and rows: "history_rows rt db cid q r = L" and r: "if hp_anchor p = [] then r = 0 else reference db cid (hp_anchor p) = Inr r"
    and k: "k < length L"
  shows "\<exists>p'. history rt now db cid (q\<lparr>hq_anchor := hp_anchor p, hq_before := at_id (snd (L ! k))\<rparr>) = Inr p'
     \<and> hp_rows p' = map (\<lambda>(n, a). item db a) (take PAGE_SIZE (drop (Suc k) L)) \<and> hp_total p' = hp_total p
     \<and> hp_more p' = (PAGE_SIZE < length (drop (Suc k) L)) \<and> hp_anchor p' = hp_anchor p"
proof -
  obtain r' where f: "hp_total p = length (history_rows rt db cid q r')"
    "hp_anchor p \<noteq> [] \<Longrightarrow> reference db cid (hp_anchor p) = Inr r'" "hp_anchor p = [] \<Longrightarrow> r' = 0" "query_checked q = Inr ()"
    "\<exists>c. campaign_row db cid = Inr c"
    by (rule history_first [OF first]) blast
  have rr: "r' = r" using f(2,3) r by (auto split: if_splits)
  obtain n a where na: "L ! k = (n, a)" by (cases "L ! k")
  have mem: "(n, a) \<in> set (numbered (attempts db))" "at_campaign a = cid"
    using history_rows_mem [of n a rt db cid q r] nth_mem [OF k] na rows by auto
  have ref: "reference db cid (at_id a) = Inr n" by (rule reference_exact [OF uniq mem])
  have ne: "at_id a \<noteq> []" using ids numbered_bounds [OF mem(1)] by (metis One_nat_def Suc_le_eq Suc_pred nth_mem)
  have anch: "hp_anchor p \<noteq> []"
  proof
    assume "hp_anchor p = []"
    then have "r = 0" using r by simp
    then have "L = []" using rows by (auto simp: history_rows_def filter_empty_conv dest!: numbered_bounds)
    then show False using k by simp
  qed
  have drop: "filter (\<lambda>(m, b). m < n) L = drop (Suc k) L"
    using filter_after_last [OF history_rows_sorted [of rt db cid q r, unfolded rows] k] na by (simp add: case_prod_beta')
  let ?q = "q\<lparr>hq_anchor := hp_anchor p, hq_before := at_id a\<rparr>"
  have an: "anchor_of db cid ?q = hp_anchor p" using anch by (simp add: anchor_of_def)
  show ?thesis
    using f(4,5) an anch f(2) rr ref ne rows drop f(1)
    by (auto simp: history_def Let_def na min_def)
qed

section \<open>Pages are stable\<close>

lemma find_append: "find P (xs @ ys) = (case find P xs of Some x \<Rightarrow> Some x | None \<Rightarrow> find P ys)"
  by (induction xs) auto

lemma find_SomeD: "find P xs = Some x \<Longrightarrow> x \<in> set xs \<and> P x"
  by (auto simp: find_Some_iff)

lemma reference_append:
  assumes "reference db cid aid = Inr n"
  shows "reference (db\<lparr>attempts := attempts db @ new\<rparr>) cid aid = Inr n \<and> n \<le> length (attempts db)"
proof -
  obtain a where f: "find (\<lambda>(n, a). at_campaign a = cid \<and> at_id a = aid) (numbered (attempts db)) = Some (n, a)"
    using assms by (auto simp: reference_def split: option.splits)
  have "n \<le> length (attempts db)" using numbered_bounds find_SomeD [OF f] by blast
  then show ?thesis using f by (simp add: reference_def numbered_append find_append)
qed

lemma history_rows_append:
  assumes "anchor \<le> length (attempts db)"
  shows "history_rows rt (db\<lparr>attempts := attempts db @ new\<rparr>) cid q anchor = history_rows rt db cid q anchor"
proof -
  have "selects rt (db\<lparr>attempts := attempts db @ new\<rparr>) cid q = selects rt db cid q"
    by (simp add: selects_def matches_search_def fun_eq_iff)
  moreover have "filter (\<lambda>(n, a). n \<le> anchor \<and> P a) (map (\<lambda>(n, a). (n + length (attempts db), a)) (numbered new)) = []" for P
    using assms by (auto simp: filter_empty_conv dest: numbered_bounds)
  ultimately show ?thesis by (simp add: history_rows_def numbered_append)
qed

lemma target_view_append [simp]: "target_view_of (db\<lparr>attempts := as\<rparr>) = target_view_of db"
  by (simp add: target_view_of_def fun_eq_iff Let_def split: target.splits)

lemma item_append [simp]: "item (db\<lparr>attempts := as\<rparr>) = item db"
  by (simp add: item_def built_count_def built_drvs_def tested_count_def fun_eq_iff)

lemma history_append:
  assumes "history rt now db cid q = Inr p" and "hq_anchor q \<noteq> []"
  shows "\<exists>p'. history rt now (db\<lparr>attempts := attempts db @ new\<rparr>) cid q = Inr p'
     \<and> hp_rows p' = hp_rows p \<and> hp_total p' = hp_total p \<and> hp_more p' = hp_more p \<and> hp_newer p \<le> hp_newer p'"
proof -
  let ?db = "db\<lparr>attempts := attempts db @ new\<rparr>"
  from assms obtain c r where c: "campaign_row db cid = Inr c" and r: "reference db cid (hq_anchor q) = Inr r" and qc: "query_checked q = Inr ()"
    by (auto simp: history_def Let_def bindr_eq_Inr anchor_of_def)
  have r': "reference ?db cid (hq_anchor q) = Inr r" "r \<le> length (attempts db)" using reference_append [OF r] by auto
  have c': "campaign_row ?db cid = Inr c" using c by (simp add: campaign_row_def find_campaign_def)
  show ?thesis
  proof (cases "hq_before q = []")
    case True
    then show ?thesis using assms c c' r r' qc
      by (auto simp: history_def Let_def anchor_of_def history_rows_append numbered_append)
  next
    case False
    then obtain b where b: "reference db cid (hq_before q) = Inr b" using assms c r qc by (auto simp: history_def Let_def anchor_of_def bindr_eq_Inr)
    have b': "reference ?db cid (hq_before q) = Inr b" using reference_append [OF b] by auto
    show ?thesis using assms c c' r r' qc b b' False
      by (auto simp: history_def Let_def anchor_of_def history_rows_append numbered_append)
  qed
qed

section \<open>One row per derivation\<close>

definition overwrite :: "activity \<Rightarrow> (string option \<times> activity) list \<Rightarrow> (string option \<times> activity) list" where
  "overwrite a acc = map (\<lambda>(d, b). if d = av_drv a then (d, a) else (d, b)) (insert_or_ignore fst (av_drv a, a) acc)"

lemma overwrite_keys: "map fst (overwrite a acc) = map fst (insert_or_ignore fst (av_drv a, a) acc)"
  by (simp add: overwrite_def case_prod_beta')

lemma distinct_overwrite: "distinct (map fst acc) \<Longrightarrow> distinct (map fst (overwrite a acc))"
  by (auto simp: overwrite_keys insert_or_ignore_def)

lemma overwrite_members:
  "set (overwrite a acc) = insert (av_drv a, a) {p \<in> set acc. fst p \<noteq> av_drv a}"
  by (force simp: overwrite_def insert_or_ignore_def image_iff split: if_splits)

text \<open>After the fold each key holds the first row with it.\<close>

lemma first_rows:
  "distinct (map fst (fold overwrite (rev rows) [])) \<and>
   set (fold overwrite (rev rows) []) = {(d, a). find (\<lambda>r. av_drv r = d) rows = Some a}"
proof (induction rows)
  case (Cons a rows)
  have hit: "find (\<lambda>r. av_drv r = d) rows = Some b \<Longrightarrow> av_drv b = d" for d b by (auto simp: find_Some_iff)
  have step: "fold overwrite (rev (a # rows)) [] = overwrite a (fold overwrite (rev rows) [])" by simp
  have "set (overwrite a (fold overwrite (rev rows) [])) = insert (av_drv a, a) {p. find (\<lambda>r. av_drv r = fst p) rows = Some (snd p) \<and> fst p \<noteq> av_drv a}"
    unfolding overwrite_members using Cons.IH by (simp add: case_prod_beta')
  also have "\<dots> = {(d, b). find (\<lambda>r. av_drv r = d) (a # rows) = Some b}"
    by (rule set_eqI) (simp add: case_prod_beta' prod_eq_iff eq_commute)
  finally show ?case unfolding step using Cons.IH distinct_overwrite by blast
qed simp

lemma find_key_iff: "(\<exists>x. find (\<lambda>r. f r = k) xs = Some x) \<longleftrightarrow> k \<in> f ` set xs"
  by (induction xs) auto

lemma detail_rows_fold:
  "detail_rows db aid = map snd (fold overwrite (rev (sort_key av_stopped (filter (\<lambda>a. av_attempt a = aid \<and> av_kind a = Some ''build'') (activities db)))) [])"
  by (simp add: detail_rows_def overwrite_def [abs_def])

lemma find_sorted_least:
  assumes "sorted (map f xs)" and "find P xs = Some x" and "y \<in> set xs" and "P y"
  shows "f x \<le> f y"
proof -
  obtain i where i: "i < length xs" "xs ! i = x" and early: "\<forall>j<i. \<not> P (xs ! j)" using assms(2) by (auto simp: find_Some_iff)
  obtain j where j: "j < length xs" "xs ! j = y" using assms(3) by (auto simp: in_set_conv_nth)
  have "i \<le> j" using early j assms(4) by (metis not_less)
  then show ?thesis using sorted_nth_mono [OF assms(1), of i j] i j by simp
qed

lemma detail_rows_once:
  "distinct (map av_drv (detail_rows db aid))
   \<and> set (map av_drv (detail_rows db aid)) = av_drv ` {a \<in> set (activities db). av_attempt a = aid \<and> av_kind a = Some ''build''}
   \<and> (\<forall>r \<in> set (detail_rows db aid). \<forall>a \<in> set (activities db).
        av_attempt a = aid \<and> av_kind a = Some ''build'' \<and> av_drv a = av_drv r \<longrightarrow> av_stopped r \<longrightarrow> av_stopped a)"
proof -
  let ?build = "\<lambda>a. av_attempt a = aid \<and> av_kind a = Some ''build''"
  let ?rows = "sort_key av_stopped (filter ?build (activities db))"
  let ?acc = "fold overwrite (rev ?rows) []"
  have d: "distinct (map fst ?acc)" and s: "set ?acc = {(d, a). find (\<lambda>r. av_drv r = d) ?rows = Some a}"
    using first_rows [of ?rows] by blast+
  have keys: "\<forall>p \<in> set ?acc. av_drv (snd p) = fst p" unfolding s by (auto simp: find_Some_iff)
  have eq: "map av_drv (detail_rows db aid) = map fst ?acc" using keys by (simp add: detail_rows_fold)
  have "fst ` set ?acc = {d. \<exists>a. find (\<lambda>r. av_drv r = d) ?rows = Some a}" unfolding s by (simp add: image_def)
  then have "fst ` set ?acc = av_drv ` set ?rows" unfolding find_key_iff by blast
  then have set_eq: "set (map av_drv (detail_rows db aid)) = av_drv ` {a \<in> set (activities db). ?build a}" unfolding eq by simp
  have least: "av_stopped r \<longrightarrow> av_stopped a"
    if r: "r \<in> set (detail_rows db aid)" and a: "a \<in> set (activities db)" "?build a" "av_drv a = av_drv r" for r a
  proof -
    obtain d where "find (\<lambda>r. av_drv r = d) ?rows = Some r" using r unfolding detail_rows_fold set_map s by auto
    moreover from this have "d = av_drv r" by (auto simp: find_Some_iff)
    ultimately have "av_stopped r \<le> av_stopped a"
      using a by (intro find_sorted_least [where f = av_stopped and P = "\<lambda>r. av_drv r = d" and xs = ?rows]) auto
    then show ?thesis by simp
  qed
  show ?thesis using d set_eq least unfolding eq by blast
qed

section \<open>The ledger is complete\<close>

lemma set_counts: "set (counts f xs) = {(k, n). k \<in> f ` set xs \<and> n = length (filter (\<lambda>x. f x = k) xs)}"
  by (auto simp: counts_def)

lemma sum_filter_keys:
  "finite K \<Longrightarrow> f ` set xs \<subseteq> K \<Longrightarrow> (\<Sum>k\<in>K. length (filter (\<lambda>x. f x = k) xs)) = length xs"
proof (induction xs)
  case (Cons x xs)
  have "(\<Sum>k\<in>K. length (filter (\<lambda>y. f y = k) (x # xs))) = (\<Sum>k\<in>K. (if k = f x then 1 else 0) + length (filter (\<lambda>y. f y = k) xs))"
    by (rule sum.cong) auto
  also have "\<dots> = 1 + length xs" using Cons by (simp add: sum.distrib)
  finally show ?case by simp
qed simp

lemma counts_total: "sum_list (map snd (counts f xs)) = length xs"
proof -
  have "sum_list (map snd (counts f xs)) = sum_list (map (\<lambda>k. length (filter (\<lambda>x. f x = k) xs)) (dedup (map f xs)))"
    by (simp add: counts_def comp_def)
  also have "\<dots> = (\<Sum>k\<in>f ` set xs. length (filter (\<lambda>x. f x = k) xs))"
    by (simp add: sum_list_distinct_conv_sum_set)
  also have "\<dots> = length xs" by (rule sum_filter_keys) auto
  finally show ?thesis .
qed

lemma overview_bounds:
  assumes "0 \<le> window"
  shows "cp_created c \<le> ov_start (overview_of db c now window) \<and> ov_start (overview_of db c now window) \<le> ov_end (overview_of db c now window)
     \<and> length (ov_intervals (overview_of db c now window)) \<le> TIMELINE_LIMIT"
proof -
  have "cp_created c + 1 \<le> overview_end now c as" for as by (simp add: overview_end_def Let_def)
  then have "cp_created c \<le> overview_end now c as" for as by (metis add.commute add_increasing zero_le_one order_trans le_add_same_cancel2)
  then show ?thesis using assms by (auto simp: overview_of_def Let_def max_def)
qed

lemma overview_totals:
  "sum_list (map snd (ov_totals (overview_of db c now window))) = length (filter (\<lambda>a. at_campaign a = cp_id c) (attempts db))"
  "sum_list (map snd (ov_kinds (overview_of db c now window))) = length (filter (\<lambda>a. at_campaign a = cp_id c) (attempts db))"
  by (simp_all add: overview_of_def Let_def counts_total)

lemma batches_complete:
  assumes "batches now db cid recent = Inr l"
  shows "lg_total l = length (filter (\<lambda>a. at_campaign a = cid) (attempts db))
    \<and> (\<not> recent \<longrightarrow> mset (map lr_attempt (lg_rows l)) = mset (filter (\<lambda>a. at_campaign a = cid) (attempts db)))"
proof -
  have "lr_attempt \<circ> ledger_row_of now db cid = id" by (simp add: fun_eq_iff ledger_row_of_def Let_def)
  then show ?thesis using assms by (auto simp: batches_def Let_def bindr_eq_Inr multiset.map_comp)
qed

section \<open>Reading every page\<close>

text \<open>A reader that asks for the next page while there is one, continuing behind the last row it got.\<close>

fun all_pages :: "nat \<Rightarrow> runtime \<Rightarrow> timestamp \<Rightarrow> database \<Rightarrow> string \<Rightarrow> history_query \<Rightarrow> attempt_view list" where
  "all_pages 0 rt now db cid q = []"
| "all_pages (Suc n) rt now db cid q =
     (case history rt now db cid q of
        Inl e \<Rightarrow> []
      | Inr p \<Rightarrow> hp_rows p @ (if hp_more p
          then all_pages n rt now db cid (q\<lparr>hq_anchor := hp_anchor p, hq_before := at_id (aw_attempt (last (hp_rows p)))\<rparr>) else []))"

lemma item_attempt [simp]: "aw_attempt (item db a) = a"
  by (simp add: item_def)

lemma PAGE_SIZE_pos [simp]: "0 < PAGE_SIZE"
  by (simp add: PAGE_SIZE_def)

lemma map_split: "map f (take n xs) @ map f (drop n xs) = map f xs"
  by (simp flip: map_append)

lemma last_row:
  assumes "PAGE_SIZE < length L - j" and "j \<le> length L"
  shows "last (map (\<lambda>(n, a). item db a) (take PAGE_SIZE (drop j L))) = item db (snd (L ! (j + PAGE_SIZE - 1)))"
proof -
  have "last (map (\<lambda>(n, a). item db a) (take PAGE_SIZE (drop j L))) = map (\<lambda>(n, a). item db a) (take PAGE_SIZE (drop j L)) ! (PAGE_SIZE - 1)"
    using assms PAGE_SIZE_pos by (subst last_conv_nth) (auto simp: min_def)
  then show ?thesis using assms PAGE_SIZE_pos by (simp add: case_prod_beta' add_diff_assoc)
qed

lemma pages_behind:
  assumes first: "history rt now db cid q = Inr p" "hq_before q = []" and uniq: "unique_keys at_id (attempts db)"
    and ids: "\<forall>a \<in> set (attempts db). at_id a \<noteq> []"
    and rows: "history_rows rt db cid q r = L" and r: "if hp_anchor p = [] then r = 0 else reference db cid (hp_anchor p) = Inr r"
    and "k < length L" and "length L - Suc k \<le> n"
  shows "all_pages n rt now db cid (q\<lparr>hq_anchor := hp_anchor p, hq_before := at_id (snd (L ! k))\<rparr>) = map (\<lambda>(n, a). item db a) (drop (Suc k) L)"
  using assms(7,8)
proof (induction n arbitrary: k)
  case (Suc n)
  obtain p' where p': "history rt now db cid (q\<lparr>hq_anchor := hp_anchor p, hq_before := at_id (snd (L ! k))\<rparr>) = Inr p'"
    "hp_rows p' = map (\<lambda>(n, a). item db a) (take PAGE_SIZE (drop (Suc k) L))" "hp_more p' = (PAGE_SIZE < length (drop (Suc k) L))" "hp_anchor p' = hp_anchor p"
    using history_next [OF first uniq ids rows r Suc.prems(1)] by blast
  show ?case
  proof (cases "hp_more p'")
    case True
    let ?k = "Suc k + PAGE_SIZE - 1"
    have k: "?k < length L" "length L - Suc ?k \<le> n" using True p'(3) Suc.prems PAGE_SIZE_pos by (auto simp del: PAGE_SIZE_pos)
    have "aw_attempt (last (hp_rows p')) = snd (L ! ?k)" using last_row [of L "Suc k" db] True p'(2,3) Suc.prems by simp
    moreover have "map f (take PAGE_SIZE (drop (Suc k) L)) @ map f (drop (Suc ?k) L) = map f (drop (Suc k) L)" for f :: "nat \<times> attempt \<Rightarrow> attempt_view"
      using map_split [of f PAGE_SIZE "drop (Suc k) L"] PAGE_SIZE_pos by (simp add: add.commute)
    ultimately show ?thesis using p' True Suc.IH [OF k] by simp
  next
    case False
    then show ?thesis using p' by simp
  qed
qed simp

lemma numbered_filter_snd: "map snd (filter (\<lambda>(n, a). P a) (numbered as)) = filter P as"
proof -
  have "filter P (map snd (numbered as)) = map snd (filter (P \<circ> snd) (numbered as))" by (rule filter_map)
  then show ?thesis by (simp add: comp_def case_prod_beta')
qed

lemma anchor_newest:
  assumes "hq_anchor q = []" and "filter (\<lambda>a. at_campaign a = cid) (attempts db) \<noteq> []"
  shows "anchor_of db cid q = at_id (last (filter (\<lambda>a. at_campaign a = cid) (attempts db)))"
proof -
  obtain a as where r: "rev (filter (\<lambda>a. at_campaign a = cid) (attempts db)) = a # as" using assms(2) by (meson neq_Nil_conv rev_is_Nil_conv)
  then have "last (filter (\<lambda>a. at_campaign a = cid) (attempts db)) = a" by (metis hd_rev list.sel(1))
  then show ?thesis using assms(1) r by (simp add: anchor_of_def)
qed

lemma newest_reference:
  assumes "unique_keys at_id (attempts db)" and "a \<in> set (attempts db)" "at_campaign a = cid" and "hq_anchor q = []"
  obtains r where "reference db cid (anchor_of db cid q) = Inr r" and "\<And>n b. (n, b) \<in> set (numbered (attempts db)) \<Longrightarrow> at_campaign b = cid \<Longrightarrow> n \<le> r"
proof -
  let ?F = "filter (\<lambda>(n, a). at_campaign a = cid) (numbered (attempts db))"
  have snd: "map snd ?F = filter (\<lambda>a. at_campaign a = cid) (attempts db)" by (rule numbered_filter_snd)
  then have ne: "?F \<noteq> []" using assms(2,3) by (metis (mono_tags) filter_empty_conv list.simps(8))
  obtain r b where rb: "last ?F = (r, b)" by fastforce
  have mem: "(r, b) \<in> set (numbered (attempts db))" "at_campaign b = cid" using last_in_set [OF ne] rb by auto
  have "filter (\<lambda>a. at_campaign a = cid) (attempts db) \<noteq> []" "last (filter (\<lambda>a. at_campaign a = cid) (attempts db)) = b"
    using ne rb last_map [OF ne, of snd] snd by auto
  then have "anchor_of db cid q = at_id b" using anchor_newest [OF assms(4)] by simp
  then have "reference db cid (anchor_of db cid q) = Inr r" using reference_exact [OF assms(1) mem] by simp
  moreover have "n \<le> r" if "(n, c) \<in> set (numbered (attempts db))" "at_campaign c = cid" for n c
  proof -
    have F: "?F = butlast ?F @ [(r, b)]" using ne rb by (metis append_butlast_last_id)
    have "sorted_wrt (\<lambda>x y. fst x < fst y) (butlast ?F @ [(r, b)])" unfolding F [symmetric] by (rule sorted_wrt_filter [OF numbered_sorted])
    then have less: "\<forall>x \<in> set (butlast ?F). fst x < r" by (simp add: sorted_wrt_append)
    have "(n, c) \<in> set ?F" using that by simp
    then have "(n, c) \<in> set (butlast ?F) \<or> (n, c) = (r, b)" by (subst (asm) F) auto
    then show ?thesis using less by fastforce
  qed
  ultimately show thesis by (rule that)
qed

lemma history_rows_all:
  assumes "\<And>n b. (n, b) \<in> set (numbered (attempts db)) \<Longrightarrow> at_campaign b = cid \<Longrightarrow> n \<le> r"
  shows "map (\<lambda>(n, a). item db a) (history_rows rt db cid q r) = map (item db) (rev (filter (selects rt db cid q) (attempts db)))"
proof -
  have "filter (\<lambda>(n, a). n \<le> r \<and> selects rt db cid q a) (numbered (attempts db)) = filter (\<lambda>(n, a). selects rt db cid q a) (numbered (attempts db))"
    using assms by (intro filter_cong) (auto simp: selects_def)
  moreover have "map (\<lambda>(n, a). item db a) xs = map (item db) (map snd xs)" for xs :: "(nat \<times> attempt) list" by (simp add: case_prod_beta')
  ultimately show ?thesis by (simp only: history_rows_def rev_map [symmetric] numbered_filter_snd)
qed

lemma history_all:
  assumes first: "history rt now db cid q = Inr p" "hq_before q = []" "hq_anchor q = []" and uniq: "unique_keys at_id (attempts db)"
    and ids: "\<forall>a \<in> set (attempts db). at_id a \<noteq> []" and n: "length (attempts db) < n"
  shows "all_pages n rt now db cid q = map (item db) (rev (filter (selects rt db cid q) (attempts db)))"
proof -
  obtain r where f: "hp_rows p = map (\<lambda>(n, a). item db a) (take PAGE_SIZE (history_rows rt db cid q r))"
    "hp_total p = length (history_rows rt db cid q r)" "hp_more p \<longleftrightarrow> PAGE_SIZE < hp_total p"
    "hp_anchor p \<noteq> [] \<Longrightarrow> reference db cid (hp_anchor p) = Inr r" "hp_anchor p = [] \<Longrightarrow> r = 0" "hp_anchor p = anchor_of db cid q"
    by (rule history_first [OF first(1,2)]) blast
  define L where "L = history_rows rt db cid q r"
  have all: "map (\<lambda>(n, a). item db a) L = map (item db) (rev (filter (selects rt db cid q) (attempts db)))"
  proof (cases "\<exists>a \<in> set (attempts db). at_campaign a = cid")
    case True
    then obtain a where a: "a \<in> set (attempts db)" "at_campaign a = cid" by blast
    obtain r' where r': "reference db cid (anchor_of db cid q) = Inr r'" "\<And>n b. (n, b) \<in> set (numbered (attempts db)) \<Longrightarrow> at_campaign b = cid \<Longrightarrow> n \<le> r'"
      by (rule newest_reference [OF uniq a first(3)]) blast
    have ne: "filter (\<lambda>a. at_campaign a = cid) (attempts db) \<noteq> []" using a by (auto simp: filter_empty_conv)
    have "hp_anchor p \<noteq> []" unfolding f(6) anchor_newest [OF first(3) ne] using ids last_in_set [OF ne] by simp
    then have "r = r'" using f(4,6) r'(1) by simp
    then show ?thesis unfolding L_def using r'(2) by (intro history_rows_all) auto
  next
    case False
    then have "filter (selects rt db cid q) (attempts db) = []" by (auto simp: filter_empty_conv selects_def)
    moreover have "L = []" using False history_rows_mem [of _ _ rt db cid q r] numbered_bounds
      by (metis L_def One_nat_def Suc_le_eq Suc_pred list.set_sel(1) nth_mem surj_pair)
    ultimately show ?thesis by simp
  qed
  have len: "length L \<le> length (attempts db)" using arg_cong [OF all, of length] by simp
  obtain m where m: "n = Suc m" using n by (cases n) auto
  show ?thesis
  proof (cases "hp_more p")
    case True
    have big: "PAGE_SIZE < length L" using True f(2,3) by (simp add: L_def)
    let ?k = "PAGE_SIZE - 1"
    have "aw_attempt (last (hp_rows p)) = snd (L ! ?k)" using last_row [of L 0 db] big f(1) by (simp add: L_def)
    moreover have "all_pages m rt now db cid (q\<lparr>hq_anchor := hp_anchor p, hq_before := at_id (snd (L ! ?k))\<rparr>) = map (\<lambda>(n, a). item db a) (drop (Suc ?k) L)"
      by (rule pages_behind [OF first(1,2) uniq ids]) (use f(4,5) big len n m in \<open>auto simp: L_def\<close>)
    moreover have "drop (Suc ?k) L = drop PAGE_SIZE L" using PAGE_SIZE_pos by simp
    moreover have "hp_rows p = map (\<lambda>(n, a). item db a) (take PAGE_SIZE L)" using f(1) by (simp add: L_def)
    ultimately show ?thesis using first(1) m True all by (simp add: map_split)
  next
    case False
    then have "hp_rows p = map (\<lambda>(n, a). item db a) L" using f(1-3) by (simp add: L_def)
    then show ?thesis using False first(1) m all by simp
  qed
qed

end
