(* ===== verification/ViewGuarantees.thy ===== *)
theory ViewGuarantees
  imports Logs LiveGraph History Samples
begin

text \<open>
  What the read-only views promise: log windows made of whole records, a ranking whose numbers count
  what they say, availability claimed only on evidence, and a history that can be paged.
\<close>

section \<open>Logs\<close>


definition sample_log :: string where
  "sample_log = ''ab'' @ [NL] @ ''c'' @ [NL]"

lemma sample_log_short: "short_lines sample_log 5"
proof -
  have "\<exists>n<MAX_LINE. c + n < 5 \<and> sample_log ! (c + n) = NL" if "c < 5" for c
  proof -
    have nl: "sample_log ! 2 = NL" "sample_log ! 4 = NL" by (simp_all add: sample_log_def numeral_eq_Suc)
    let ?n = "if c \<le> 2 then 2 - c else 4 - c"
    have "?n < MAX_LINE \<and> c + ?n < 5 \<and> sample_log ! (c + ?n) = NL" using that nl by (auto simp: MAX_LINE_def)
    then show ?thesis by blast
  qed
  then show ?thesis by (simp add: short_lines_def sample_log_def)
qed


text \<open>A log window never shows a torn record: the records it returns follow each other without
  gaps from its start to its end cursor, within the indexed size, and each is a whole line, or the
  last bytes of a finished log (or of the part before the cursor the reader gave).\<close>

theorem window_records_whole:
  assumes "window (Some bytes) len d cursor finished = (s, e, records, False)" and "len \<le> length bytes"
  shows "tiles s records e \<and> s \<le> e \<and> e \<le> len \<and> (\<forall>r \<in> set records. whole bytes len finished r \<or> d = Before \<and> snd r \<noteq> [])"
  by (rule window_whole [OF assms])

theorem window_records_whole_witness:
  "\<exists>e records. window (Some sample_log) 5 After (int 0) False = (0, e, records, False) \<and> tiles 0 records e \<and> 0 < e"
proof -
  obtain e records where w: "window (Some sample_log) 5 After (int 0) False = (0, e, records, False)" and "0 < e"
    by (rule window_after [OF sample_log_short, of 0]) (auto simp: aligned_def)
  then show ?thesis using window_records_whole [OF w] by (simp add: sample_log_def)
qed

section \<open>Ranking\<close>

text \<open>C28. A row of the blocker ranking counts, for a failed derivation in scope, the blocked packages
  of the campaign that depend on it, and among them those that depend on no other such failure.\<close>

theorem ranking_counts:
  assumes "unique_keys c_id (candidates db)" and "unique_keys d_drv (derivations db)" and "d \<in> set (failing db cid)"
  shows "rk_blocks (ranking_row_of db cid d) = card (blocked_by db cid (d_drv d))
     \<and> rk_only (ranking_row_of db cid d) = card {i \<in> blocked_by db cid (d_drv d). \<forall>e \<in> set (failing db cid). i \<in> blocked_by db cid (d_drv e) \<longrightarrow> e = d}"
  using row_counts [OF assms] by blast

definition failed_db :: database where
  "failed_db = sample_db\<lparr>candidates := [sample_candidate 1 Blocked (Some ''d1'')],
     derivations := [new_derivation ''d1'' ''n1'' [], (new_derivation ''d2'' ''n2'' [])\<lparr>d_failure := Some ''no''\<rparr>]\<rparr>"

theorem ranking_counts_witness:
  "\<exists>d \<in> set (failing failed_db ''c1''). rk_blocks (ranking_row_of failed_db ''c1'' d) = card (blocked_by failed_db ''c1'' ''d2'')
     \<and> rk_blocks (ranking_row_of failed_db ''c1'' d) = 1"
proof -
  let ?d = "(new_derivation ''d2'' ''n2'' [])\<lparr>d_failure := Some ''no''\<rparr>"
  have "failing failed_db ''c1'' = [?d] \<and> rk_blocks (ranking_row_of failed_db ''c1'' ?d) = 1 \<and> d_drv ?d = ''d2''" by code_simp
  moreover have "unique_keys c_id (candidates failed_db)" "unique_keys d_drv (derivations failed_db)" by code_simp+
  ultimately show ?thesis using ranking_counts [of failed_db ?d "''c1''"] by auto
qed

text \<open>The walk marks as bad exactly the derivations of the campaign's graph that depend on a
  failure or an exclusion, and its scope is exactly that graph.\<close>

theorem walk_marks_exactly:
  "set (rg_bad (compute now db cid)) = {p \<in> set (rg_scope (compute now db cid)). \<exists>d \<in> set (derivations db). d_drv d \<in> depends db p \<and> \<not> (d_failure d = None \<and> d_exclusion d = None)}
   \<and> set (rg_scope (compute now db cid)) = reach (edge_pairs (edges db)) {x. \<exists>c \<in> set (candidates db). c_campaign c = cid \<and> c_drv c = Some x}"
  by (auto simp: compute_def set_walk_bad set_walk_scope set_campaign_graph)

section \<open>The live graph\<close>

text \<open>A node is shown as available only on evidence: its derivation was recorded available, or it
  has wanted outputs and each of them was valid before an active build started or is a required
  output of an edge whose consumer has reached a build phase in an active build. That a build
  activity stopped is not evidence.\<close>

theorem available_on_evidence:
  assumes "live_context_of rt fs walk db cid = Inr lc" and "gn_state (graph_node_of db cid lc drv req) = ''available''"
  shows "d_available (node_record db drv) \<or> (gn_required (graph_node_of db cid lc drv req) \<noteq> []
     \<and> (\<forall>k \<in> set (gn_required (graph_node_of db cid lc drv req)). \<exists>p. map_of (d_outputs (node_record db drv)) k = Some (Some p)
       \<and> (p \<in> set (lc_existing lc) \<or> p \<in> provided_outputs db (filter is_build (live_active db cid)))))"
proof -
  let ?n = "node_record db drv" and ?w = "gn_required (graph_node_of db cid lc drv req)"
  have prov: "set (lc_provided lc) = provided_outputs db (filter is_build (live_active db cid))"
    using assms(1) by (auto simp: live_context_of_def Let_def bindr_eq_Inr set_provided_list)
  have "d_available ?n \<or> (node_paths ?n ?w \<noteq> [] \<and> (\<forall>p \<in> set (node_paths ?n ?w). \<exists>x. p = Some x \<and> x \<in> set (lc_existing lc) \<union> set (lc_provided lc)))"
    by (rule node_status_available [OF graph_node_available [OF assms(2)]])
  then show ?thesis unfolding prov by (auto simp: node_paths_def split: option.splits)
qed

definition ready_db :: database where
  "ready_db = sample_db\<lparr>derivations := [(new_derivation ''d1'' ''n1'' [(''out'', Some ''o1'')])\<lparr>d_available := True\<rparr>]\<rparr>"

definition no_files :: live_files where
  "no_files = \<lparr>lf_before = (\<lambda>_. None), lf_plan_rows = (\<lambda>_. None)\<rparr>"

definition empty_ranking :: ranking where
  "empty_ranking = \<lparr>rg_rows = [], rg_blocked = 0, rg_multiple = 0, rg_computed = 0, rg_scope = [''d1''], rg_bad = []\<rparr>"

definition ready_context :: live_context where
  "ready_context = \<lparr>lc_in_flight = False, lc_existing = [], lc_provided = [], lc_requested = [], lc_activities = [], lc_walk = empty_ranking\<rparr>"

theorem available_on_evidence_witness:
  "gn_state (graph_node_of ready_db ''c1'' ready_context ''d1'' None) = ''available'' \<and> d_available (node_record ready_db ''d1'')"
proof -
  have c: "live_context_of sample_runtime no_files empty_ranking ready_db ''c1'' = Inr ready_context" by code_simp
  have a: "gn_state (graph_node_of ready_db ''c1'' ready_context ''d1'' None) = ''available''" by code_simp
  have "\<not> (\<exists>p. map_of (d_outputs (node_record ready_db ''d1'')) ''out'' = Some (Some p) \<and> (p \<in> set (lc_existing ready_context) \<or> p \<in> provided_outputs ready_db (filter is_build (live_active ready_db ''c1''))))"
    by (simp add: ready_context_def provided_outputs_def ready_db_def sample_db_def empty_db_def)
  moreover have "gn_required (graph_node_of ready_db ''c1'' ready_context ''d1'' None) = [''out'']" by code_simp
  ultimately show ?thesis using available_on_evidence [OF c a] a by auto
qed

text \<open>Paging the neighbourhood: the pages of a list, in order, are the list; a page number is
  clamped to one that exists; a page has at most six nodes on either side.\<close>

theorem neighbourhood_pages:
  "concat (map (\<lambda>p. page_slice p xs) [0..<(length xs + 5) div 6]) = xs
   \<and> (clamp_page page n * 6 < n \<or> clamp_page page n = 0)
   \<and> length (gv_inputs (focus_view db cid lc sa page f v)) \<le> 6 \<and> length (gv_consumers (focus_view db cid lc sa page f v)) \<le> 6"
  using clamp_in_range focus_view_bounds by (simp add: pages_cover)

section \<open>History\<close>

text \<open>Reading the history page by page, each page continuing behind the last row of the one
  before, gives every attempt of the campaign that the filters select, newest first, each exactly
  once, when attempt identifiers are unique as the table demands.\<close>

theorem history_pages_all:
  assumes "history rt now db cid q = Inr p" and "hq_before q = []" and "hq_anchor q = []" and "unique_keys at_id (attempts db)"
    and "\<forall>a \<in> set (attempts db). at_id a \<noteq> []" and "length (attempts db) < n"
  shows "all_pages n rt now db cid q = map (item db) (rev (filter (selects rt db cid q) (attempts db)))"
  by (rule history_all [OF assms])

definition plain_query :: history_query where
  "plain_query = \<lparr>hq_anchor = [], hq_before = [], hq_kind = [], hq_outcome = [], hq_search = [], hq_window = 0\<rparr>"

definition old_attempt :: "string \<Rightarrow> attempt" where
  "old_attempt i = (new_attempt 1 i sample_campaign Plan [] (make_spec sample_campaign Plan [] sample_policy no_extra))\<lparr>at_state := Finished\<rparr>"

definition old_db :: database where
  "old_db = sample_db\<lparr>attempts := [old_attempt ''a1'', old_attempt ''a2'']\<rparr>"

lemma old_history: "\<exists>p. history sample_runtime 5 old_db ''c1'' plain_query = Inr p"
  by (simp add: history_def campaign_row_def find_campaign_def find_row_def old_db_def sample_db_def sample_campaign_def anchor_of_def plain_query_def
      old_attempt_def new_attempt_def reference_def numbered_def query_checked_def Let_def)

theorem history_pages_all_witness:
  "map aw_attempt (all_pages 3 sample_runtime 5 old_db ''c1'' plain_query) = [old_attempt ''a2'', old_attempt ''a1'']"
proof -
  obtain p where p: "history sample_runtime 5 old_db ''c1'' plain_query = Inr p" using old_history by blast
  have "unique_keys at_id (attempts old_db)" "\<forall>a \<in> set (attempts old_db). at_id a \<noteq> []" "length (attempts old_db) < 3" by code_simp+
  moreover have "filter (selects sample_runtime old_db ''c1'' plain_query) (attempts old_db) = [old_attempt ''a1'', old_attempt ''a2'']"
    by (simp add: old_db_def selects_def plain_query_def old_attempt_def new_attempt_def sample_campaign_def)
  ultimately show ?thesis using history_pages_all [OF p] by (simp add: plain_query_def)
qed

text \<open>A page that is anchored at an attempt does not move when later attempts are admitted: the
  same request gives the same rows, total and continuation, and only the number of newer attempts
  grows.\<close>

theorem history_page_stable:
  assumes "history rt now db cid q = Inr p" and "hq_anchor q \<noteq> []"
  shows "\<exists>p'. history rt now (db\<lparr>attempts := attempts db @ new\<rparr>) cid q = Inr p'
     \<and> hp_rows p' = hp_rows p \<and> hp_total p' = hp_total p \<and> hp_more p' = hp_more p \<and> hp_newer p \<le> hp_newer p'"
  by (rule history_append [OF assms])

lemma anchored_history: "\<exists>p. history sample_runtime 5 old_db ''c1'' (plain_query\<lparr>hq_anchor := ''a1''\<rparr>) = Inr p"
  by (simp add: history_def campaign_row_def find_campaign_def find_row_def old_db_def sample_db_def sample_campaign_def anchor_of_def plain_query_def
      old_attempt_def new_attempt_def reference_def numbered_def query_checked_def Let_def)

theorem history_page_stable_witness:
  "\<exists>p p'. history sample_runtime 5 old_db ''c1'' (plain_query\<lparr>hq_anchor := ''a1''\<rparr>) = Inr p
     \<and> history sample_runtime 5 (old_db\<lparr>attempts := attempts old_db @ [old_attempt ''a3'']\<rparr>) ''c1'' (plain_query\<lparr>hq_anchor := ''a1''\<rparr>) = Inr p'
     \<and> hp_rows p' = hp_rows p"
proof -
  obtain p where p: "history sample_runtime 5 old_db ''c1'' (plain_query\<lparr>hq_anchor := ''a1''\<rparr>) = Inr p" using anchored_history by blast
  have "hq_anchor (plain_query\<lparr>hq_anchor := ''a1''\<rparr>) \<noteq> []" by simp
  from history_page_stable [OF p this, of "[old_attempt ''a3'']"] p show ?thesis by blast
qed

text \<open>The details of an attempt list each derivation it built once, and show one that was
  restarted as stopped only when none of its activities still runs.\<close>

theorem details_list_each_once:
  "distinct (map av_drv (detail_rows db aid))
   \<and> set (map av_drv (detail_rows db aid)) = av_drv ` {a \<in> set (activities db). av_attempt a = aid \<and> av_kind a = Some ''build''}
   \<and> (\<forall>r \<in> set (detail_rows db aid). av_stopped r \<longrightarrow> (\<forall>a \<in> set (activities db).
        av_attempt a = aid \<and> av_kind a = Some ''build'' \<and> av_drv a = av_drv r \<longrightarrow> av_stopped a))"
  using detail_rows_once by blast

theorem details_list_each_once_witness:
  "distinct (map av_drv (detail_rows ready_db ''u'')) \<and> detail_rows ready_db ''u'' = []"
  using details_list_each_once [of ready_db "''u''"] by (simp add: ready_db_def sample_db_def empty_db_def)

text \<open>The batch ledger is complete: its rows are the attempts of the campaign, none missing and
  none twice, and the recent view reports the same total.\<close>

theorem ledger_complete:
  assumes "batches now db cid recent = Inr l"
  shows "lg_total l = length (filter (\<lambda>a. at_campaign a = cid) (attempts db))
    \<and> (\<not> recent \<longrightarrow> mset (map lr_attempt (lg_rows l)) = mset (filter (\<lambda>a. at_campaign a = cid) (attempts db)))"
  by (rule batches_complete [OF assms])

theorem ledger_complete_witness:
  "\<exists>l. batches 5 old_db ''c1'' False = Inr l \<and> lg_total l = 2"
proof -
  have "\<exists>l. batches 5 old_db ''c1'' False = Inr l"
    by (simp add: batches_def campaign_row_def find_campaign_def find_row_def old_db_def sample_db_def sample_campaign_def Let_def)
  then obtain l where "batches 5 old_db ''c1'' False = Inr l" by blast
  from ledger_complete [OF this] this show ?thesis by (auto simp: old_db_def old_attempt_def new_attempt_def sample_campaign_def)
qed

end
