(* ===== verification/Urls.thy ===== *)
theory Urls
  imports Json
begin

text \<open>
  What the program uses of \<^verbatim>\<open>urllib.parse\<close> and \<^verbatim>\<open>pathlib\<close>: percent-encoding of a path, the
  text of a POSIX path, joining, and \<^verbatim>\<open>Path.as_uri\<close>.
\<close>

definition upper_hex :: "nat \<Rightarrow> char" where
  "upper_hex n = (if n < 10 then char_of (48 + n) else char_of (55 + n))"

definition url_safe :: "char \<Rightarrow> bool" where
  "url_safe c \<longleftrightarrow>
     (let n = of_char c :: nat in
      48 \<le> n \<and> n \<le> 57 \<or> 65 \<le> n \<and> n \<le> 90 \<or> 97 \<le> n \<and> n \<le> 122 \<or>
      c = CHR ''_'' \<or> c = CHR ''.'' \<or> c = CHR ''-'' \<or> c = CHR ''~'' \<or> c = CHR ''/'')"

text \<open>The UTF-8 bytes of a code point below 256.\<close>

definition utf8 :: "char \<Rightarrow> nat list" where
  "utf8 c = (let n = of_char c in if n < 128 then [n] else [192 + n div 64, 128 + n mod 64])"

text \<open>\<^verbatim>\<open>quote(s, safe="/")\<close>.\<close>

definition quote :: "string \<Rightarrow> string" where
  "quote s = concat (map (\<lambda>c. if url_safe c then [c]
     else concat (map (\<lambda>n. [CHR ''%'', upper_hex (n div 16), upper_hex (n mod 16)]) (utf8 c))) s)"

text \<open>\<^verbatim>\<open>str(Path(s))\<close>: empty and single-dot components are dropped.\<close>

definition path_parts :: "string \<Rightarrow> string list" where
  "path_parts s = filter (\<lambda>w. w \<noteq> [] \<and> w \<noteq> ''.'') (split_on CHR ''/'' s)"

definition path_anchor :: "string \<Rightarrow> string" where
  "path_anchor s =
     (if starts_with ''//'' s \<and> \<not> starts_with ''///'' s then ''//''
      else if starts_with ''/'' s then ''/'' else '''')"

definition path_str :: "string \<Rightarrow> string" where
  "path_str s = (let t = path_anchor s @ join_on ''/'' (path_parts s) in if t = '''' then ''.'' else t)"

definition path_join :: "string \<Rightarrow> string \<Rightarrow> string" where
  "path_join a b = path_str (if starts_with ''/'' b then b else a @ ''/'' @ b)"

definition as_uri :: "string \<Rightarrow> string result" where
  "as_uri s = bindr (guardr (starts_with ''/'' s)
       (ValueError ''relative path can't be expressed as a file URI''))
     (\<lambda>_. Inr (''file://'' @ quote (path_str s)))"

definition url_text :: "char \<Rightarrow> bool" where
  "url_text c \<longleftrightarrow> url_safe c \<or> c = CHR ''%''"

lemma upper_hex_safe: "n < 16 \<Longrightarrow> url_safe (upper_hex n)"
proof -
  assume "n < 16"
  then consider "n < 10" | "10 \<le> n" "n < 16" by linarith
  then show ?thesis by cases (auto simp: url_safe_def upper_hex_def Let_def)
qed

lemma utf8_byte: "n \<in> set (utf8 c) \<Longrightarrow> n < 256"
  using less_mult_imp_div_less [of "of_char c" 4 64] pos_mod_bound
  by (auto simp: utf8_def Let_def split: if_splits)

text \<open>A quoted path has no character with a meaning in a URL other than the slash.\<close>

lemma quote_safe: "c \<in> set (quote s) \<Longrightarrow> url_text c"
  unfolding quote_def url_text_def
  by (auto split: if_splits dest!: utf8_byte intro!: upper_hex_safe)

lemma quote_append [simp]: "quote (s @ t) = quote s @ quote t"
  by (simp add: quote_def)

lemma quote_plain: "\<forall>c \<in> set s. url_safe c \<Longrightarrow> quote s = s"
  by (induction s) (auto simp: quote_def)

end
