(* ===== verification/Publisher.thy ===== *)
theory Publisher
  imports Urls NixAdapter Effects "HOL-Library.Product_Lexorder"
begin

text \<open>
  The cache publisher (\<^verbatim>\<open>scripts/publish-cache.py\<close>): it discovers output paths of a campaign,
  queues them in a database of its own, pushes them in batches to one destination and, for
  Cachix, checks that earlier pushes are still there. The answers of the network, the store
  and the push command are arguments; a caught exception is its message. Configuration values
  are JSON, so a missing key raises as in the source. The lock file and the printing of
  progress lines are left out.
\<close>

section \<open>Paths\<close>

definition STORE_PATH :: rx where
  "STORE_PATH = rseqs [rlit ''/nix/store/'', rrep 32 (RChar is_lower_alnum), rlit ''-'',
     rplus (RChar (\<lambda>c. c \<noteq> CHR ''/'' \<and> \<not> is_space c))]"

definition SWA_ONLY :: rx where
  "SWA_ONLY = rseqs [rlit ''/nix/store/'', rrep 32 (RChar is_lower_alnum), rlit ''-filnix-'',
     ralts [rlit ''nixos-image'', rlit ''nixos-ami'',
       rseqs [rplus (RChar (\<lambda>c. is_lower_alnum c \<or> c = CHR ''_'' \<or> c = CHR ''-'')), rlit ''.tar.gz'']]]"

definition output_path :: "string \<Rightarrow> bool" where
  "output_path p \<longleftrightarrow> fullmatch STORE_PATH p \<and> \<not> ends_with ''.drv'' p"

abbreviation swa_only :: "string \<Rightarrow> bool" where
  "swa_only p \<equiv> fullmatch SWA_ONLY p"

text \<open>\<^verbatim>\<open>sorted(set(xs))\<close>\<close>

definition sorted_set :: "string list \<Rightarrow> string list" where
  "sorted_set xs = sort (remdups xs)"

section \<open>Discovery\<close>

definition native_path :: "json \<Rightarrow> string result" where
  "native_path v =
     (case v of
        JStr p \<Rightarrow> if output_path p then Inr p
          else Inl (ValueError ''invalid output path in native campaign observations'')
      | _ \<Rightarrow> Inl (ValueError ''invalid output path in native campaign observations''))"

definition discover_native :: "json \<Rightarrow> string list result" where
  "discover_native response =
     bindr (jindex ''paths'' response) (\<lambda>paths.
       case paths of
         JArr xs \<Rightarrow> bindr (map_res native_path xs) (\<lambda>ps. Inr (sorted_set ps))
       | _ \<Rightarrow> Inl (ValueError ''invalid output path in native campaign observations''))"

definition qualifies :: "database \<Rightarrow> string \<Rightarrow> derivation \<Rightarrow> bool" where
  "qualifies db campaign d \<longleftrightarrow> d_available d \<and>
     (list_ex (\<lambda>c. c_drv c = Some (d_drv d) \<and> c_campaign c = campaign) (candidates db) \<or>
      list_ex (\<lambda>a. av_drv a = Some (d_drv d) \<and>
        list_ex (\<lambda>t. at_id t = av_attempt a \<and> at_campaign t = campaign) (attempts db)) (activities db))"

definition known_paths :: "derivation \<Rightarrow> string list" where
  "known_paths d = filter (\<lambda>p. p \<noteq> []) (List.map_filter snd (d_outputs d))"

definition discover :: "database \<Rightarrow> string \<Rightarrow> string list result" where
  "discover db campaign =
     (if find_campaign db campaign = None then Inl (ValueError (''unknown campaign: '' @ campaign))
      else let paths = sorted_set (concat (map known_paths (filter (qualifies db campaign) (derivations db))))
      in if list_all output_path paths then Inr paths
         else Inl (ValueError ''invalid output path in campaign observations''))"

section \<open>The database of the publisher\<close>

record pub_output =
  o_path :: string
  o_discovered :: timestamp
  o_published :: "timestamp option"
  o_attempts :: nat
  o_retry_after :: timestamp
  o_error :: "string option"
  o_checked :: "timestamp option"

record pub_db =
  b_destination :: "string list"
  b_outputs :: "pub_output list"
  b_current :: "(string \<times> string) list"
  b_checks :: "(string \<times> timestamp) list"

definition fresh_pub_db :: pub_db where
  "fresh_pub_db = \<lparr>b_destination = [], b_outputs = [], b_current = [], b_checks = []\<rparr>"

definition new_output :: "timestamp \<Rightarrow> string \<Rightarrow> pub_output" where
  "new_output now p = \<lparr>o_path = p, o_discovered = now, o_published = None, o_attempts = 0,
     o_retry_after = 0, o_error = None, o_checked = None\<rparr>"

definition enqueue :: "string list \<Rightarrow> timestamp \<Rightarrow> pub_output list \<Rightarrow> pub_output list" where
  "enqueue paths now outs = fold (\<lambda>p. insert_or_ignore o_path (new_output now p)) paths outs"

text \<open>\<^verbatim>\<open>INSERT OR REPLACE\<close> into a table of pairs whose first column is the key.\<close>

definition replace_pair :: "'k \<times> 'v \<Rightarrow> ('k \<times> 'v) list \<Rightarrow> ('k \<times> 'v) list" where
  "replace_pair kv rows = filter (\<lambda>r. fst r \<noteq> fst kv) rows @ [kv]"

section \<open>Checking receipts\<close>

definition UPSTREAM :: string where
  "UPSTREAM = ''https://cache.nixos.org''"

datatype http_answer = Found | Http_error nat | Unreachable

definition before_dash :: "string \<Rightarrow> string" where
  "before_dash s = takeWhile (\<lambda>c. c \<noteq> CHR ''-'') s"

definition narinfo_url :: "string \<Rightarrow> string \<Rightarrow> string" where
  "narinfo_url cache path = cache @ ''/'' @
     before_dash (if starts_with ''/nix/store/'' path then drop 11 path else path) @ ''.narinfo''"

definition narinfo_exists :: "(string \<Rightarrow> http_answer) \<Rightarrow> string \<Rightarrow> string \<Rightarrow> bool option" where
  "narinfo_exists http cache path =
     (case http (narinfo_url cache path) of
        Found \<Rightarrow> Some True
      | Http_error code \<Rightarrow> if code = 404 then Some False else None
      | Unreachable \<Rightarrow> None)"

definition present :: "(string \<Rightarrow> string \<Rightarrow> bool option) \<Rightarrow> string \<Rightarrow> string \<Rightarrow> bool option" where
  "present exts cache path =
     (let found = exts cache path in if found \<noteq> Some False then found else exts UPSTREAM path)"

definition rotation_key :: "pub_output \<Rightarrow> (nat \<times> rat) \<times> string" where
  "rotation_key o1 = (case o_checked o1 of None \<Rightarrow> (0, 0) | Some t \<Rightarrow> (1, t), o_path o1)"

definition rotated :: "pub_output list \<Rightarrow> pub_output list" where
  "rotated outs = filter (\<lambda>o1. \<not> swa_only (o_path o1))
     (sort_key rotation_key (filter (\<lambda>o1. o_published o1 \<noteq> None) outs))"

text \<open>\<^verbatim>\<open>xs[:n]\<close> with an integer that may be negative.\<close>

definition slice_to :: "int \<Rightarrow> 'a list \<Rightarrow> 'a list" where
  "slice_to n xs = (if 0 \<le> n then take (nat n) xs else take (length xs - nat (- n)) xs)"

definition own_paths :: "string \<Rightarrow> string list \<Rightarrow> (string \<times> string) list \<Rightarrow> (string \<times> string) list" where
  "own_paths owner paths acc =
     fold (\<lambda>p acc. if p \<in> set (map fst acc) then acc else acc @ [(p, owner)]) paths acc"

definition owners_of :: "(string \<Rightarrow> string list option) \<Rightarrow> (string \<times> string) list \<Rightarrow> (string \<times> string) list" where
  "owners_of requisites current =
     fold (\<lambda>r acc. case requisites (snd r) of None \<Rightarrow> acc | Some ps \<Rightarrow> own_paths (snd r) ps acc) current []"

definition check_order :: "(string \<times> timestamp) list \<Rightarrow> string \<Rightarrow> timestamp \<times> string" where
  "check_order seen p = (case map_of seen p of None \<Rightarrow> 0 | Some t \<Rightarrow> t, p)"

record verify_env =
  ve_exists :: "string \<Rightarrow> string \<Rightarrow> bool option"
  ve_requisites :: "string \<Rightarrow> string list option"

definition closure_sample :: "verify_env \<Rightarrow> int \<Rightarrow> pub_db \<Rightarrow> (string \<times> string) list" where
  "closure_sample env closure_paths db =
     slice_to closure_paths (sort_key (\<lambda>r. check_order (b_checks db) (fst r))
       (owners_of (ve_requisites env) (b_current db)))"

definition receipt :: "pub_output list \<Rightarrow> string \<Rightarrow> timestamp option" where
  "receipt outs p = (case find_row o_path p outs of None \<Rightarrow> None | Some o1 \<Rightarrow> o_published o1)"

definition gone_roots :: "(string \<Rightarrow> bool option) \<Rightarrow> pub_output list \<Rightarrow> pub_output list" where
  "gone_roots found roots = filter (\<lambda>o1. found (o_path o1) = Some False) roots"

definition too_old :: "timestamp \<Rightarrow> timestamp \<Rightarrow> pub_output \<Rightarrow> bool" where
  "too_old now max_age o1 = (case o_published o1 of None \<Rightarrow> False | Some t \<Rightarrow> now - t > max_age)"

definition lost_paths ::
  "(string \<Rightarrow> bool option) \<Rightarrow> timestamp \<Rightarrow> timestamp \<Rightarrow> pub_output list \<Rightarrow> pub_output list \<Rightarrow> (string \<times> string) list \<Rightarrow> string list" where
  "lost_paths found now max_age outs roots sample =
     sorted_set (map o_path (filter (\<lambda>o1. \<not> too_old now max_age o1) (gone_roots found roots)) @
       map snd (filter (\<lambda>(p, r). found p = Some False \<and> receipt outs r \<noteq> None) sample))"

definition cache_url :: "json \<Rightarrow> string result" where
  "cache_url config =
     bindr (bindr (jindex ''cache'' config) jstring) (\<lambda>name.
       bindr (jget ''url'' config) (\<lambda>u. case u of
         None \<Rightarrow> Inr (''https://'' @ name @ ''.cachix.org'')
       | Some v \<Rightarrow> jstring v))"

definition mark_checked :: "timestamp \<Rightarrow> string list \<Rightarrow> pub_output list \<Rightarrow> pub_output list" where
  "mark_checked now roots outs = sql_update (\<lambda>o1. o_path o1 \<in> set roots) (\<lambda>o1. o1\<lparr>o_checked := Some now\<rparr>) outs"

definition clear_receipts :: "string list \<Rightarrow> pub_output list \<Rightarrow> pub_output list" where
  "clear_receipts lost outs = sql_update (\<lambda>o1. o_path o1 \<in> set lost) (\<lambda>o1. o1\<lparr>o_published := None\<rparr>) outs"

definition verify ::
  "verify_env \<Rightarrow> json \<Rightarrow> int \<Rightarrow> int \<Rightarrow> timestamp \<Rightarrow> timestamp \<Rightarrow> (pub_db, string list) op" where
  "verify env config rotation closure_paths now max_age =
     bindM (liftM (\<lambda>_. cache_url config)) (\<lambda>cache.
     bindM (liftM (\<lambda>_. guardr (0 \<le> rotation) (ValueError ''Stop argument for islice()''))) (\<lambda>_.
     bindM (getsM id) (\<lambda>db.
       let found = present (ve_exists env) cache;
           roots = take (nat rotation) (rotated (b_outputs db));
           sample = closure_sample env closure_paths db;
           lost = lost_paths found now max_age (b_outputs db) roots sample
       in bindM (modifyM (\<lambda>db. db\<lparr>
            b_outputs := clear_receipts lost (mark_checked now (map o_path roots) (b_outputs db)),
            b_checks := fold (\<lambda>r. replace_pair (fst r, now)) sample (b_checks db)\<rparr>)) (\<lambda>_.
          returnM lost))))"

section \<open>Pushing\<close>

definition retry_delay :: "nat \<Rightarrow> rat" where
  "retry_delay n = min 3600 (60 * 2 ^ min n 6)"

definition record_path :: "string option \<Rightarrow> timestamp \<Rightarrow> string \<Rightarrow> pub_output list \<Rightarrow> pub_output list result" where
  "record_path err now p outs =
     (case err of
        None \<Rightarrow> Inr (sql_update (\<lambda>o1. o_path o1 = p) (\<lambda>o1. o1\<lparr>o_published := Some now,
          o_attempts := o_attempts o1 + 1, o_error := None, o_retry_after := 0\<rparr>) outs)
      | Some e \<Rightarrow> (case find_row o_path p outs of
          None \<Rightarrow> Inl (TypeError ''NoneType'')
        | Some row \<Rightarrow> Inr (sql_update (\<lambda>o1. o_path o1 = p) (\<lambda>o1. o1\<lparr>o_attempts := o_attempts o1 + 1,
            o_error := Some e, o_retry_after := now + retry_delay (o_attempts row)\<rparr>) outs)))"

definition record_push :: "string list \<Rightarrow> string option \<Rightarrow> timestamp \<Rightarrow> (pub_db, unit) op" where
  "record_push paths err now =
     (\<lambda>db. case foldr_res (record_path err now) paths (b_outputs db) of
        Inl e \<Rightarrow> (Inl e, db)
      | Inr outs \<Rightarrow> (Inr (), db\<lparr>b_outputs := outs\<rparr>))"

datatype cache_target = Local | Cachix

definition target_name :: "cache_target \<Rightarrow> string" where
  "target_name t = (case t of Local \<Rightarrow> ''local'' | Cachix \<Rightarrow> ''cachix'')"

definition conf_string :: "string \<Rightarrow> json \<Rightarrow> string result" where
  "conf_string k config = bindr (jindex k config) (\<lambda>v. case v of JStr s \<Rightarrow> Inr s | _ \<Rightarrow> Inl (TypeError k))"

definition command :: "string option \<Rightarrow> json \<Rightarrow> cache_target \<Rightarrow> string list result" where
  "command credentials config t =
     (case t of
        Local \<Rightarrow>
          bindr (conf_string ''directory'' config) (\<lambda>dir.
          bindr (as_uri dir) (\<lambda>uri.
          bindr (conf_string ''secret_key'' config) (\<lambda>key.
            Inr [''nix'', ''copy'', ''--stdin'', ''--to'', uri @
              ''?compression=zstd&compression-level=3&parallel-compression=true&secret-key='' @ key])))
      | Cachix \<Rightarrow>
          (case credentials of
             None \<Rightarrow> Inl (KeyError ''CREDENTIALS_DIRECTORY'')
           | Some dir \<Rightarrow> bindr (conf_string ''cache'' config) (\<lambda>cache.
               Inr [''cachix'', ''--config'', path_join dir ''cachix.dhall'', ''push'', ''--jobs'', ''4'',
                 ''--num-concurrent-chunks'', ''2'', cache])))"

record push_env =
  pe_start :: timestamp
  pe_end :: timestamp
  pe_credentials :: "string option"
  pe_disk :: "string \<Rightarrow> string + int"
  pe_run :: "string list \<Rightarrow> string \<Rightarrow> string option"

definition min_free :: "json \<Rightarrow> int result" where
  "min_free config = bindr (jget ''min_free_bytes'' config) (\<lambda>v. case v of
     None \<Rightarrow> Inr (100 * 1024 ^ 3) | Some (JInt n) \<Rightarrow> Inr n | Some _ \<Rightarrow> Inl (TypeError ''min_free_bytes''))"

definition NO_SPACE :: string where
  "NO_SPACE = ''local cache paused: less than reserved free disk space''"

definition stdin_of :: "string list \<Rightarrow> string" where
  "stdin_of paths = join_on [CHR 0x0A] paths @ [CHR 0x0A]"

text \<open>The body of the \<^verbatim>\<open>try\<close>: \<open>Inl\<close> is an exception that is not caught, \<open>Inr (Some e)\<close> one
  that is, \<open>Inr None\<close> the normal end.\<close>

definition check_space :: "push_env \<Rightarrow> json \<Rightarrow> cache_target \<Rightarrow> string option result" where
  "check_space env config t =
     (case t of
        Cachix \<Rightarrow> Inr None
      | Local \<Rightarrow> bindr (conf_string ''directory'' config) (\<lambda>dir.
          case pe_disk env dir of
            Inl e \<Rightarrow> Inr (Some e)
          | Inr free \<Rightarrow> bindr (min_free config) (\<lambda>need. Inr (if free < need then Some NO_SPACE else None))))"

definition push_batch :: "push_env \<Rightarrow> json \<Rightarrow> cache_target \<Rightarrow> string list \<Rightarrow> string option result" where
  "push_batch env config t paths =
     bindr (check_space env config t) (\<lambda>full. case full of
       Some e \<Rightarrow> Inr (Some e)
     | None \<Rightarrow> bindr (command (pe_credentials env) config t) (\<lambda>cmd. Inr (pe_run env cmd (stdin_of paths))))"

definition push_order :: "pub_output \<Rightarrow> nat \<times> timestamp \<times> string" where
  "push_order o1 = (o_attempts o1, o_discovered o1, o_path o1)"

definition is_due :: "timestamp \<Rightarrow> pub_output \<Rightarrow> bool" where
  "is_due now o1 \<longleftrightarrow> o_published o1 = None \<and> o_retry_after o1 \<le> now"

definition due :: "timestamp \<Rightarrow> pub_output list \<Rightarrow> pub_output list" where
  "due now outs = sort_key push_order (filter (is_due now) outs)"

definition batch_of :: "pub_output list \<Rightarrow> pub_output list" where
  "batch_of rows = (case rows of [] \<Rightarrow> [] | r # _ \<Rightarrow> if o_attempts r \<noteq> 0 then [r] else rows)"

definition publish :: "push_env \<Rightarrow> json \<Rightarrow> cache_target \<Rightarrow> nat \<Rightarrow> (pub_db, bool) op" where
  "publish env config t count =
     bindM (getsM (\<lambda>db. map o_path (batch_of (take count (due (pe_start env) (b_outputs db)))))) (\<lambda>paths.
       if paths = [] then returnM False
       else bindM (liftM (\<lambda>_. push_batch env config t paths)) (\<lambda>err.
            bindM (record_push paths err (pe_end env)) (\<lambda>_. returnM True)))"

fun publish_batches :: "(nat \<Rightarrow> push_env) \<Rightarrow> json \<Rightarrow> cache_target \<Rightarrow> nat \<Rightarrow> nat \<Rightarrow> nat \<Rightarrow> (pub_db, unit) op" where
  "publish_batches env config t count 0 i = returnM ()"
| "publish_batches env config t count (Suc n) i =
     bindM (publish (env i) config t count) (\<lambda>more.
       if more then publish_batches env config t count n (Suc i) else returnM ())"

section \<open>The report\<close>

record publisher_report =
  pr_discovered :: nat
  pr_published :: nat
  pr_pending :: nat
  pr_retrying :: nat
  pr_errors :: "(string \<times> nat \<times> string option \<times> timestamp) list"

definition report :: "pub_output list \<Rightarrow> publisher_report" where
  "report outs = \<lparr>pr_discovered = length outs,
     pr_published = length (filter (\<lambda>o1. o_published o1 \<noteq> None) outs),
     pr_pending = length outs - length (filter (\<lambda>o1. o_published o1 \<noteq> None) outs),
     pr_retrying = length (filter (\<lambda>o1. o_error o1 \<noteq> None) outs),
     pr_errors = take 5 (map (\<lambda>o1. (o_path o1, o_attempts o1, o_error o1, o_retry_after o1))
       (sort_key o_retry_after (filter (\<lambda>o1. o_error o1 \<noteq> None) outs)))\<rparr>"

section \<open>One run\<close>

record pub_args =
  g_target :: cache_target
  g_status :: bool
  g_batch_size :: int
  g_batches :: int
  g_extra_root :: "string list"
  g_republish_root :: "string list"
  g_verify_roots :: int
  g_verify_paths :: int

record run_env =
  n_native :: "string \<Rightarrow> json result"
  n_database :: "string \<Rightarrow> database"
  n_references :: "string \<Rightarrow> string list option"
  n_enqueued :: timestamp
  n_verified :: timestamp
  n_verify :: verify_env
  n_push :: "nat \<Rightarrow> push_env"
  n_float :: "rat \<Rightarrow> string"

definition all_roots :: "pub_args \<Rightarrow> string list" where
  "all_roots a = g_extra_root a @ g_republish_root a"

definition check_args :: "pub_args \<Rightarrow> string option" where
  "check_args a =
     (if g_batch_size a < 1 \<or> g_batches a < 1 then Some ''batch sizes must be positive''
      else case find (\<lambda>r. \<not> output_path r) (all_roots a) of
        Some r \<Rightarrow> Some (''invalid extra root: '' @ r)
      | None \<Rightarrow> if g_target a = Cachix \<and> list_ex swa_only (g_republish_root a)
          then Some ''swa-only outputs cannot be republished to Cachix'' else None)"

definition claim_destination :: "string \<Rightarrow> (pub_db, unit) op" where
  "claim_destination ident =
     bindM (getsM b_destination) (\<lambda>rows. case rows of
       previous # _ \<Rightarrow> if previous \<noteq> ident
         then raiseM (ValueError ''cache destination changed; use a fresh publisher state directory'')
         else returnM ()
     | [] \<Rightarrow> modifyM (\<lambda>db. db\<lparr>b_destination := [ident]\<rparr>))"

definition discovered :: "run_env \<Rightarrow> json \<Rightarrow> string list result" where
  "discovered env config =
     bindr (jget ''native_outputs_url'' config) (\<lambda>url. case url of
       Some u \<Rightarrow> bindr (jstring u) (\<lambda>u. bindr (n_native env u) discover_native)
     | None \<Rightarrow> bindr (conf_string ''experiment'' config) (\<lambda>dir.
         bindr (conf_string ''campaign'' config) (\<lambda>campaign.
           discover (n_database env (path_join dir ''experiment.sqlite'')) campaign)))"

text \<open>Outputs that no machine substitutes are replaced by their references.\<close>

definition substitute :: "(string \<Rightarrow> string list option) \<Rightarrow> string list \<Rightarrow> string list" where
  "substitute references paths =
     filter (\<lambda>p. \<not> swa_only p) paths @
     concat (map (\<lambda>p. case references p of None \<Rightarrow> [] | Some qs \<Rightarrow> filter (\<lambda>q. q \<noteq> p) qs)
       (filter swa_only paths))"

definition drop_unpublished :: "string list \<Rightarrow> pub_output list \<Rightarrow> pub_output list" where
  "drop_unpublished paths outs = filter (\<lambda>o1. \<not> (o_path o1 \<in> set paths \<and> o_published o1 = None)) outs"

definition reset_outputs :: "string list \<Rightarrow> pub_output list \<Rightarrow> pub_output list" where
  "reset_outputs paths outs = sql_update (\<lambda>o1. o_path o1 \<in> set paths) (\<lambda>o1. o1\<lparr>o_published := None,
     o_attempts := 0, o_retry_after := 0, o_error := None\<rparr>) outs"

definition root_name :: "string \<Rightarrow> string" where
  "root_name p = tl (dropWhile (\<lambda>c. c \<noteq> CHR ''-'') p)"

definition queue_outputs :: "run_env \<Rightarrow> pub_args \<Rightarrow> string list \<Rightarrow> pub_db \<Rightarrow> pub_db" where
  "queue_outputs env a found db =
     (let paths = found @ all_roots a;
          wanted = (if g_target a = Cachix then substitute (n_references env) paths else paths);
          kept = (if g_target a = Cachix then drop_unpublished (filter swa_only paths) (b_outputs db) else b_outputs db)
      in db\<lparr>
        b_outputs := reset_outputs (g_republish_root a) (enqueue (sorted_set wanted) (n_enqueued env) kept),
        b_current := fold (\<lambda>p. replace_pair (root_name p, p))
          (filter (\<lambda>p. \<not> swa_only p) (all_roots a)) (b_current db)\<rparr>)"

definition MAX_AGE :: rat where
  "MAX_AGE = 7 * 86400"

definition run_publisher :: "run_env \<Rightarrow> json \<Rightarrow> pub_args \<Rightarrow> (pub_db, publisher_report) op" where
  "run_publisher env config a =
     bindM (liftM (\<lambda>_. jindex (target_name (g_target a)) config)) (\<lambda>own.
     bindM (claim_destination (dumps (n_float env) True '', '' '': '' own)) (\<lambda>_.
     bindM (liftM (\<lambda>_. discovered env config)) (\<lambda>found.
     bindM (modifyM (queue_outputs env a found)) (\<lambda>_.
     bindM (whenM (g_target a = Cachix)
       (bindM (verify (n_verify env) own (g_verify_roots a) (g_verify_paths a) (n_verified env) MAX_AGE)
         (\<lambda>_. returnM ()))) (\<lambda>_.
     bindM (publish_batches (n_push env) own (g_target a) (nat (g_batch_size a)) (nat (g_batches a)) 0) (\<lambda>_.
       getsM (\<lambda>db. report (b_outputs db))))))))"

datatype run_end = Usage_error string | Stopped py_error | Reported publisher_report

definition publisher_main :: "run_env \<Rightarrow> bool \<Rightarrow> json \<Rightarrow> pub_args \<Rightarrow> pub_db \<Rightarrow> run_end \<times> pub_db" where
  "publisher_main env locked config a db =
     (case check_args a of
        Some m \<Rightarrow> (Usage_error m, db)
      | None \<Rightarrow>
          if g_status a then (Reported (report (b_outputs db)), db)
          else if locked then (Stopped (OSError ''Resource temporarily unavailable''), db)
          else (case run_publisher env config a db of
             (Inl e, db') \<Rightarrow> (Stopped e, db')
           | (Inr r, db') \<Rightarrow> (Reported r, db')))"

end
