(* ===== verification/PublisherGuarantees.thy ===== *)
theory PublisherGuarantees
  imports Publisher
begin

text \<open>
  Properties of the cache publisher. The locale \<open>publisher_invariant\<close> states what a predicate on
  the queue must satisfy for a whole run to keep it; it is interpreted for the well-formedness
  of the queue and for the receipts, and instantiated for outputs of the local cache. The
  repeated pushes are shown to publish every path that can be pushed.
\<close>

section \<open>Recording a push\<close>

definition recorded :: "string option \<Rightarrow> timestamp \<Rightarrow> pub_output \<Rightarrow> pub_output" where
  "recorded err now o1 =
     (case err of
        None \<Rightarrow> o1\<lparr>o_published := Some now, o_attempts := o_attempts o1 + 1, o_error := None, o_retry_after := 0\<rparr>
      | Some e \<Rightarrow> o1\<lparr>o_attempts := o_attempts o1 + 1, o_error := Some e,
          o_retry_after := now + retry_delay (o_attempts o1)\<rparr>)"

lemma recorded_fields [simp]:
  "o_path (recorded err now o1) = o_path o1"
  "o_attempts (recorded err now o1) = Suc (o_attempts o1)"
  "o_error (recorded err now o1) = err"
  "o_checked (recorded err now o1) = o_checked o1"
  "o_published (recorded err now o1) = (if err = None then Some now else o_published o1)"
  by (cases err; simp add: recorded_def)+

lemma retry_delay_bounds: "60 \<le> retry_delay n" "retry_delay n \<le> 3600"
proof -
  have "(1 :: rat) \<le> 2 ^ min n 6" by simp
  then have "(60 :: rat) \<le> 60 * 2 ^ min n 6" by linarith
  then show "60 \<le> retry_delay n" by (simp add: retry_delay_def)
qed (simp add: retry_delay_def)

lemma retry_after_recorded: "o_retry_after (recorded err now o1) \<le> max 0 (now + 3600)"
  using retry_delay_bounds [of "o_attempts o1"] by (cases err) (auto simp: recorded_def)

interpretation out_recorded: keyed_update o_path "recorded err now" for err now
  by unfold_locales simp

interpretation out_checked: keyed_update o_path "\<lambda>o1. o1\<lparr>o_checked := t\<rparr>" for t
  by unfold_locales simp

interpretation out_cleared: keyed_update o_path "\<lambda>o1. o1\<lparr>o_published := None\<rparr>"
  by unfold_locales simp

interpretation out_reset: keyed_update o_path
  "\<lambda>o1. o1\<lparr>o_published := None, o_attempts := 0, o_retry_after := 0, o_error := None\<rparr>"
  by unfold_locales simp

lemma sql_update_cong:
  "(\<And>r. r \<in> set rows \<Longrightarrow> p r \<Longrightarrow> f r = g r) \<Longrightarrow> sql_update p f rows = sql_update p g rows"
  by (simp add: sql_update_def)

lemma record_path_row:
  assumes "unique_keys o_path outs" and "p \<in> o_path ` set outs"
  shows "record_path err now p outs = Inr (sql_update (\<lambda>o1. o_path o1 = p) (recorded err now) outs)"
proof -
  obtain row where row: "row \<in> set outs" "o_path row = p" using assms(2) by blast
  then have "find_row o_path p outs = Some row" using find_row_unique [OF assms(1)] by blast
  moreover have "o1 = row" if "o1 \<in> set outs" "o_path o1 = p" for o1
    using unique_keysD [OF assms(1)] row that by blast
  ultimately show ?thesis
    by (cases err) (auto simp: record_path_def recorded_def intro!: sql_update_cong)
qed

lemma record_rows:
  assumes "unique_keys o_path outs" and "distinct paths" and "set paths \<subseteq> o_path ` set outs"
  shows "foldr_res (record_path err now) paths outs =
    Inr (sql_update (\<lambda>o1. o_path o1 \<in> set paths) (recorded err now) outs)"
  using assms
proof (induction paths arbitrary: outs)
  case (Cons p ps)
  let ?outs = "sql_update (\<lambda>o1. o_path o1 = p) (recorded err now) outs"
  have "foldr_res (record_path err now) ps ?outs =
      Inr (sql_update (\<lambda>o1. o_path o1 \<in> set ps) (recorded err now) ?outs)"
    by (rule Cons.IH) (use Cons.prems out_recorded.unique_kept out_recorded.key_image_kept in auto)
  moreover have "sql_update (\<lambda>o1. o_path o1 \<in> set ps) (recorded err now) ?outs =
      sql_update (\<lambda>o1. o_path o1 \<in> set (p # ps)) (recorded err now) outs"
    using Cons.prems(2) by (auto simp: sql_update_def)
  ultimately show ?case using Cons.prems by (simp add: record_path_row)
qed simp

section \<open>One batch\<close>

definition batch :: "push_env \<Rightarrow> nat \<Rightarrow> pub_db \<Rightarrow> pub_output list" where
  "batch env count db = batch_of (take count (due (pe_start env) (b_outputs db)))"

lemma set_due [simp]: "set (due now outs) = {o1 \<in> set outs. is_due now o1}"
  by (auto simp: due_def)

lemma distinct_due: "unique_keys o_path outs \<Longrightarrow> distinct (map o_path (due now outs))"
  unfolding unique_keys_def due_def
  by (metis distinct_map distinct_sort filter_is_subset inj_on_subset distinct_filter set_sort)

lemma batch_of_prefix: "\<exists>n. batch_of rows = take n rows"
proof (cases rows)
  case (Cons r rs)
  then have "batch_of rows = take (if o_attempts r \<noteq> 0 then 1 else length rows) rows"
    by (simp add: batch_of_def)
  then show ?thesis by blast
qed (simp add: batch_of_def)

lemma batch_prefix: "\<exists>n. batch env count db = take n (due (pe_start env) (b_outputs db))"
  using batch_of_prefix [of "take count (due (pe_start env) (b_outputs db))"]
  by (auto simp: batch_def)

lemma set_batch: "o1 \<in> set (batch env count db) \<Longrightarrow> o1 \<in> set (b_outputs db) \<and> is_due (pe_start env) o1"
  using batch_prefix [of env count db] set_take_subset [of _ "due (pe_start env) (b_outputs db)"]
  by fastforce

lemma distinct_batch: "unique_keys o_path (b_outputs db) \<Longrightarrow> distinct (map o_path (batch env count db))"
  using batch_prefix [of env count db] distinct_due [of "b_outputs db" "pe_start env"]
  by (metis distinct_take take_map)

lemma publish_outcome:
  assumes "unique_keys o_path (b_outputs db)"
  shows "publish env config t count db =
    (if batch env count db = [] then (Inr False, db)
     else case push_batch env config t (map o_path (batch env count db)) of
       Inl e \<Rightarrow> (Inl e, db)
     | Inr err \<Rightarrow> (Inr True, db\<lparr>b_outputs := sql_update (\<lambda>o1. o1 \<in> set (batch env count db))
         (recorded err (pe_end env)) (b_outputs db)\<rparr>))"
proof -
  let ?b = "batch env count db"
  have sub: "set (map o_path ?b) \<subseteq> o_path ` set (b_outputs db)" using set_batch by fastforce
  have same: "o_path o1 \<in> o_path ` set ?b \<longleftrightarrow> o1 \<in> set ?b" if "o1 \<in> set (b_outputs db)" for o1
  proof
    assume "o_path o1 \<in> o_path ` set ?b"
    then obtain o2 where "o2 \<in> set ?b" "o_path o1 = o_path o2" by blast
    with that show "o1 \<in> set ?b" using set_batch unique_keysD [OF assms, of o1 o2] by blast
  qed blast
  have "sql_update (\<lambda>o1. o_path o1 \<in> set (map o_path ?b)) (recorded err (pe_end env)) (b_outputs db)
      = sql_update (\<lambda>o1. o1 \<in> set ?b) (recorded err (pe_end env)) (b_outputs db)" for err
    using same by (simp add: sql_update_def)
  then have "record_push (map o_path ?b) err (pe_end env) db =
      (Inr (), db\<lparr>b_outputs := sql_update (\<lambda>o1. o1 \<in> set ?b) (recorded err (pe_end env)) (b_outputs db)\<rparr>)" for err
    by (simp add: record_push_def record_rows [OF assms distinct_batch [OF assms] sub])
  then show ?thesis
    by (simp add: publish_def batch_def [symmetric] bindM_def getsM_def returnM_def liftM_def
        split: sum.splits)
qed

section \<open>What every step of a run keeps\<close>

definition verified :: "verify_env \<Rightarrow> string \<Rightarrow> int \<Rightarrow> int \<Rightarrow> timestamp \<Rightarrow> timestamp \<Rightarrow> pub_db \<Rightarrow> string list" where
  "verified env cache rotation closure_paths now max_age db =
     lost_paths (present (ve_exists env) cache) now max_age (b_outputs db)
       (take (nat rotation) (rotated (b_outputs db))) (closure_sample env closure_paths db)"

lemma verify_outcome:
  "verify env config rotation closure_paths now max_age db =
     (case cache_url config of
        Inl e \<Rightarrow> (Inl e, db)
      | Inr cache \<Rightarrow> if rotation < 0 then (Inl (ValueError ''Stop argument for islice()''), db)
          else (Inr (verified env cache rotation closure_paths now max_age db), db\<lparr>
            b_outputs := clear_receipts (verified env cache rotation closure_paths now max_age db)
              (mark_checked now (map o_path (take (nat rotation) (rotated (b_outputs db)))) (b_outputs db)),
            b_checks := fold (\<lambda>r. replace_pair (fst r, now)) (closure_sample env closure_paths db) (b_checks db)\<rparr>))"
  by (simp add: verify_def verified_def bindM_def liftM_def getsM_def modifyM_def returnM_def Let_def guardr_def
      split: sum.splits)

lemma keeps_verify:
  assumes "\<And>db lost roots (sample :: (string \<times> string) list). I db \<Longrightarrow> I (db\<lparr>
     b_outputs := clear_receipts lost (mark_checked now roots (b_outputs db)),
     b_checks := fold (\<lambda>r. replace_pair (fst r, now)) sample (b_checks db)\<rparr>)"
  shows "keeps I (verify env config rotation closure_paths now max_age)"
  unfolding keeps_def verify_outcome by (auto split: sum.splits intro: assms)

lemma keeps_pure: "(\<And>x. r = Inr x \<Longrightarrow> keeps P (f x)) \<Longrightarrow> keeps P (bindM (liftM (\<lambda>_. r)) f)"
  by (cases r) (auto simp: keeps_def bindM_def liftM_def)

locale publisher_invariant =
  fixes env :: run_env and config :: json and a :: pub_args and I :: "pub_db \<Rightarrow> bool"
  assumes claims: "I db \<Longrightarrow> I (db\<lparr>b_destination := [ident]\<rparr>)"
    and queues: "I db \<Longrightarrow> discovered env config = Inr found \<Longrightarrow> I (queue_outputs env a found db)"
    and verifies: "g_target a = Cachix \<Longrightarrow> jindex ''cachix'' config = Inr own \<Longrightarrow>
      keeps I (verify (n_verify env) own (g_verify_roots a) (g_verify_paths a) (n_verified env) MAX_AGE)"
    and publishes: "i < nat (g_batches a) \<Longrightarrow> jindex (target_name (g_target a)) config = Inr own \<Longrightarrow>
      keeps I (publish (n_push env i) own (g_target a) (nat (g_batch_size a)))"
begin

lemma keeps_batches:
  assumes "jindex (target_name (g_target a)) config = Inr own"
  shows "i + n = nat (g_batches a) \<Longrightarrow>
    keeps I (publish_batches (n_push env) own (g_target a) (nat (g_batch_size a)) n i)"
proof (induction n arbitrary: i)
  case (Suc n)
  then show ?case
    by (auto intro!: keeps_intros publishes [OF _ assms])
qed (simp add: keeps_intros)

lemma keeps_run: "keeps I (run_publisher env config a)"
proof -
  have claim: "keeps I (claim_destination x)" for x
    unfolding claim_destination_def
    by (auto intro!: keeps_intros keeps_modify claims split: list.splits)
  have queue: "keeps I (modifyM (queue_outputs env a found))" if "discovered env config = Inr found" for found
    using that by (auto intro!: keeps_modify queues)
  have verify: "keeps I (verify (n_verify env) own (g_verify_roots a) (g_verify_paths a) (n_verified env) MAX_AGE)"
    if "g_target a = Cachix" and "jindex (target_name (g_target a)) config = Inr own" for own
    using verifies [OF that(1)] that by (simp add: target_name_def)
  show ?thesis
    unfolding run_publisher_def
    by (intro keeps_pure keeps_intros claim queue verify keeps_batches) simp_all
qed

lemma run_kept: "I db \<Longrightarrow> I (snd (run_publisher env config a db))"
  using keeps_run by (simp add: keeps_def)

lemma main_kept: "I db \<Longrightarrow> I (snd (publisher_main env locked config a db))"
  using run_kept [of db] by (auto simp: publisher_main_def split: option.splits prod.splits sum.splits)

end

section \<open>The invariant of the queue\<close>

definition output_ok :: "pub_output \<Rightarrow> bool" where
  "output_ok o1 \<longleftrightarrow> (o_error o1 = None \<longrightarrow> o_retry_after o1 = 0) \<and>
     (o_published o1 \<noteq> None \<longrightarrow> o_error o1 = None) \<and> (o_attempts o1 = 0 \<longrightarrow> o_error o1 = None)"

definition queue_ok :: "pub_db \<Rightarrow> bool" where
  "queue_ok db \<longleftrightarrow> unique_keys o_path (b_outputs db) \<and> list_all output_ok (b_outputs db) \<and>
     unique_keys fst (b_current db) \<and> unique_keys fst (b_checks db) \<and> length (b_destination db) \<le> 1"

lemma unique_replace_pair: "unique_keys fst rows \<Longrightarrow> unique_keys fst (replace_pair kv rows)"
  by (auto simp: unique_keys_def replace_pair_def distinct_map inj_on_def)

lemma unique_replace_fold:
  "unique_keys fst rows \<Longrightarrow> unique_keys fst (fold (\<lambda>x. replace_pair (f x)) xs rows)"
  by (induction xs arbitrary: rows) (auto intro: unique_replace_pair)

lemma set_enqueue:
  "o1 \<in> set (enqueue ps now outs) \<Longrightarrow>
   o1 \<in> set outs \<or> (\<exists>p \<in> set ps. o1 = new_output now p \<and> p \<notin> o_path ` set outs)"
proof (induction ps arbitrary: outs)
  case (Cons p ps)
  from Cons.prems have "o1 \<in> set (enqueue ps now (insert_or_ignore o_path (new_output now p) outs))"
    by (simp add: enqueue_def)
  from Cons.IH [OF this] show ?case
    by (auto simp: set_insert_or_ignore new_output_def split: if_splits)
qed (simp add: enqueue_def)

lemma unique_enqueue: "unique_keys o_path outs \<Longrightarrow> unique_keys o_path (enqueue ps now outs)"
  unfolding enqueue_def by (induction ps arbitrary: outs) (auto intro: unique_keys_insert_or_ignore)

lemma enqueue_keeps: "o1 \<in> set outs \<Longrightarrow> o1 \<in> set (enqueue ps now outs)"
  unfolding enqueue_def by (induction ps arbitrary: outs) (auto simp: set_insert_or_ignore)

lemma enqueue_paths: "o_path ` set (enqueue ps now outs) = o_path ` set outs \<union> set ps"
  unfolding enqueue_def
  by (induction ps arbitrary: outs) (auto simp: set_insert_or_ignore new_output_def)

lemma output_ok_new: "output_ok (new_output now p)"
  by (simp add: output_ok_def new_output_def)

lemma output_ok_recorded: "o_published o1 = None \<Longrightarrow> output_ok o1 \<Longrightarrow> output_ok (recorded err now o1)"
  by (cases err) (simp_all add: output_ok_def recorded_def)

lemma queue_ok_queued: "queue_ok db \<Longrightarrow> queue_ok (queue_outputs env a found db)"
  unfolding queue_ok_def queue_outputs_def Let_def reset_outputs_def drop_unpublished_def
  by (auto simp: list_all_iff set_sql_update output_ok_new dest!: set_enqueue
      intro!: out_reset.unique_kept unique_enqueue unique_replace_fold)
    (auto simp: output_ok_def unique_keys_def distinct_map inj_on_def)

lemma keeps_publish:
  assumes "\<And>db. I db \<Longrightarrow> unique_keys o_path (b_outputs db)"
    and "\<And>db err. I db \<Longrightarrow> push_batch env config t (map o_path (batch env count db)) = Inr err \<Longrightarrow>
      I (db\<lparr>b_outputs := sql_update (\<lambda>o1. o1 \<in> set (batch env count db)) (recorded err (pe_end env)) (b_outputs db)\<rparr>)"
  shows "keeps I (publish env config t count)"
  unfolding keeps_def
proof (intro allI impI)
  fix db assume "I db"
  then show "I (snd (publish env config t count db))"
    using assms(2) [OF \<open>I db\<close>] by (auto simp: publish_outcome [OF assms(1) [OF \<open>I db\<close>]] split: sum.splits)
qed

lemma queue_ok_recorded:
  assumes "queue_ok db"
  shows "queue_ok (db\<lparr>b_outputs := sql_update (\<lambda>o1. o1 \<in> set (batch env count db)) (recorded err now) (b_outputs db)\<rparr>)"
proof -
  have "output_ok (recorded err now o1)" if "o1 \<in> set (batch env count db)" for o1
    using set_batch [OF that] assms by (auto simp: queue_ok_def list_all_iff is_due_def intro: output_ok_recorded)
  then show ?thesis using assms
    by (auto simp: queue_ok_def list_all_iff set_sql_update intro: out_recorded.unique_kept)
qed

lemma queue_ok_checked:
  "queue_ok db \<Longrightarrow> queue_ok (db\<lparr>b_outputs := clear_receipts lost (mark_checked now roots (b_outputs db)),
     b_checks := fold (\<lambda>r. replace_pair (fst r, now)) sample (b_checks db)\<rparr>)"
  unfolding queue_ok_def clear_receipts_def mark_checked_def
  by (auto simp: list_all_iff set_sql_update output_ok_def
      intro!: out_cleared.unique_kept out_checked.unique_kept unique_replace_fold)

interpretation queue: publisher_invariant env config a queue_ok for env config a
proof unfold_locales
  show "queue_ok (db\<lparr>b_destination := [ident]\<rparr>)" if "queue_ok db" for db ident
    using that by (simp add: queue_ok_def)
  show "queue_ok (queue_outputs env a found db)" if "queue_ok db" for db found
    using that by (rule queue_ok_queued)
  show "keeps queue_ok (verify (n_verify env) own (g_verify_roots a) (g_verify_paths a) (n_verified env) MAX_AGE)" for own
    by (rule keeps_verify) (rule queue_ok_checked)
  show "keeps queue_ok (publish (n_push env i) own (g_target a) (nat (g_batch_size a)))" for i own
    by (rule keeps_publish) (simp_all add: queue_ok_recorded, simp add: queue_ok_def)
qed

section \<open>Receipts\<close>

definition pushed :: "run_env \<Rightarrow> json \<Rightarrow> pub_args \<Rightarrow> string \<Rightarrow> timestamp \<Rightarrow> bool" where
  "pushed env config a p t \<longleftrightarrow> (\<exists>i < nat (g_batches a). \<exists>own cmd paths.
     jindex (target_name (g_target a)) config = Inr own \<and>
     command (pe_credentials (n_push env i)) own (g_target a) = Inr cmd \<and>
     p \<in> set paths \<and> pe_run (n_push env i) cmd (stdin_of paths) = None \<and> t = pe_end (n_push env i))"

definition same_receipt :: "pub_db \<Rightarrow> pub_output \<Rightarrow> bool" where
  "same_receipt db o1 \<longleftrightarrow> (\<exists>o0 \<in> set (b_outputs db). o_path o0 = o_path o1 \<and> o_published o0 = o_published o1)"

definition receipts_backed :: "run_env \<Rightarrow> json \<Rightarrow> pub_args \<Rightarrow> pub_db \<Rightarrow> pub_db \<Rightarrow> bool" where
  "receipts_backed env config a db0 db \<longleftrightarrow> queue_ok db \<and>
     (\<forall>o1 \<in> set (b_outputs db). \<forall>t. o_published o1 = Some t \<longrightarrow>
        same_receipt db0 o1 \<or> pushed env config a (o_path o1) t)"

lemma push_batch_success:
  assumes "push_batch env config t paths = Inr None"
  obtains cmd where "command (pe_credentials env) config t = Inr cmd" and "pe_run env cmd (stdin_of paths) = None"
  using assms by (auto simp: push_batch_def bindr_eq_Inr split: option.splits)

lemma receipts_published:
  assumes "i < nat (g_batches a)" and "jindex (target_name (g_target a)) config = Inr own"
    and "receipts_backed env config a db0 db"
    and "push_batch (n_push env i) own (g_target a) (map o_path (batch (n_push env i) n db)) = Inr err"
  shows "receipts_backed env config a db0 (db\<lparr>b_outputs := sql_update (\<lambda>o1. o1 \<in> set (batch (n_push env i) n db))
    (recorded err (pe_end (n_push env i))) (b_outputs db)\<rparr>)" (is "receipts_backed _ _ _ _ ?db")
  unfolding receipts_backed_def
proof (intro conjI ballI allI impI)
  show "queue_ok ?db" using assms(3) by (simp add: receipts_backed_def queue_ok_recorded)
next
  fix o1 t assume o1: "o1 \<in> set (b_outputs ?db)" "o_published o1 = Some t"
  show "same_receipt db0 o1 \<or> pushed env config a (o_path o1) t"
  proof (cases "o1 \<in> set (b_outputs db)")
    case True
    then show ?thesis using assms(3) o1(2) by (auto simp: receipts_backed_def)
  next
    case False
    then obtain o0 where o0: "o0 \<in> set (batch (n_push env i) n db)" "o1 = recorded err (pe_end (n_push env i)) o0"
      using o1(1) by (auto simp: set_sql_update)
    then have none: "o_published o0 = None" using set_batch by (auto simp: is_due_def)
    then have "err = None" "t = pe_end (n_push env i)" using o0 o1(2) by (auto split: if_splits)
    then show ?thesis using push_batch_success assms(1,2,4) o0 unfolding pushed_def
      by (metis recorded_fields(1) image_eqI list.set_map)
  qed
qed

interpretation receipts: publisher_invariant env config a "receipts_backed env config a db0" for env config a db0
proof unfold_locales
  show "receipts_backed env config a db0 (db\<lparr>b_destination := [ident]\<rparr>)"
    if "receipts_backed env config a db0 db" for db ident
    using that by (simp add: receipts_backed_def queue_ok_def)
  show "receipts_backed env config a db0 (queue_outputs env a found db)"
    if "receipts_backed env config a db0 db" for db found
    using that queue_ok_queued unfolding receipts_backed_def
    by (auto simp: queue_outputs_def Let_def reset_outputs_def drop_unpublished_def set_sql_update new_output_def
        split: if_splits dest!: set_enqueue)
  show "keeps (receipts_backed env config a db0)
      (verify (n_verify env) own (g_verify_roots a) (g_verify_paths a) (n_verified env) MAX_AGE)" for own
    by (rule keeps_verify, simp add: receipts_backed_def queue_ok_checked)
      (auto simp: clear_receipts_def mark_checked_def set_sql_update same_receipt_def)
  show "keeps (receipts_backed env config a db0) (publish (n_push env i) own (g_target a) (nat (g_batch_size a)))"
    if "i < nat (g_batches a)" and "jindex (target_name (g_target a)) config = Inr own" for i own
    by (rule keeps_publish) (use receipts_published [OF that] in \<open>auto simp: receipts_backed_def queue_ok_def\<close>)
qed

lemma published_needs_push:
  assumes "queue_ok db" and "publisher_main env locked config a db = (fin, db')"
    and "o1 \<in> set (b_outputs db')" and "o_published o1 = Some t"
  shows "same_receipt db o1 \<or> pushed env config a (o_path o1) t"
proof -
  have "receipts_backed env config a db db"
    using assms(1) by (auto simp: receipts_backed_def same_receipt_def)
  then have "receipts_backed env config a db db'"
    using receipts.main_kept [of env config a db db locked] assms(2) by simp
  then show ?thesis using assms(3,4) by (auto simp: receipts_backed_def)
qed

section \<open>Lost receipts\<close>

definition absent :: "verify_env \<Rightarrow> string \<Rightarrow> string \<Rightarrow> bool" where
  "absent env cache p \<longleftrightarrow> ve_exists env cache p = Some False \<and> ve_exists env UPSTREAM p = Some False"

lemma present_False [simp]: "present (ve_exists env) cache p = Some False \<longleftrightarrow> absent env cache p"
  by (auto simp: present_def absent_def Let_def)

lemma own_paths_new:
  "(p, r) \<in> set (own_paths owner ps acc) \<Longrightarrow> (p, r) \<in> set acc \<or> r = owner \<and> p \<in> set ps"
proof (induction ps arbitrary: acc)
  case (Cons q ps)
  then have "(p, r) \<in> set (own_paths owner ps (if q \<in> set (map fst acc) then acc else acc @ [(q, owner)]))"
    by (simp add: own_paths_def)
  from Cons.IH [OF this] show ?case by (auto split: if_splits)
qed (simp add: own_paths_def)

lemma owners_fold:
  "(p, r) \<in> set (fold (\<lambda>r acc. case req (snd r) of None \<Rightarrow> acc | Some ps \<Rightarrow> own_paths (snd r) ps acc) cur acc) \<Longrightarrow>
   (p, r) \<in> set acc \<or> r \<in> snd ` set cur \<and> (\<exists>ps. req r = Some ps \<and> p \<in> set ps)"
proof (induction cur arbitrary: acc)
  case (Cons c cur)
  then show ?case
    by (cases "req (snd c)") (force dest!: Cons.IH own_paths_new)+
qed simp

lemma owners_from:
  "(p, r) \<in> set (owners_of req cur) \<Longrightarrow> r \<in> snd ` set cur \<and> (\<exists>ps. req r = Some ps \<and> p \<in> set ps)"
  unfolding owners_of_def by (drule owners_fold) simp

lemma set_slice_to: "set (slice_to n xs) \<subseteq> set xs"
  by (auto simp: slice_to_def dest: in_set_takeD)

lemma closure_sample_from:
  "(p, r) \<in> set (closure_sample env n db) \<Longrightarrow>
   r \<in> snd ` set (b_current db) \<and> (\<exists>ps. ve_requisites env r = Some ps \<and> p \<in> set ps)"
  unfolding closure_sample_def by (auto dest!: subsetD [OF set_slice_to] owners_from)

lemma set_rotated: "o1 \<in> set (rotated outs) \<longleftrightarrow> o1 \<in> set outs \<and> o_published o1 \<noteq> None \<and> \<not> swa_only (o_path o1)"
  by (auto simp: rotated_def)

lemma set_verified:
  "p \<in> set (verified env cache rotation closure_paths now max_age db) \<longleftrightarrow>
     (\<exists>o1 \<in> set (take (nat rotation) (rotated (b_outputs db))).
        o_path o1 = p \<and> absent env cache p \<and> \<not> too_old now max_age o1) \<or>
     (\<exists>q. (q, p) \<in> set (closure_sample env closure_paths db) \<and> absent env cache q \<and> receipt (b_outputs db) p \<noteq> None)"
  unfolding verified_def lost_paths_def sorted_set_def gone_roots_def by force

definition lost_evidence :: "verify_env \<Rightarrow> string \<Rightarrow> timestamp \<Rightarrow> timestamp \<Rightarrow> pub_db \<Rightarrow> string \<Rightarrow> timestamp \<Rightarrow> bool" where
  "lost_evidence env cache now max_age db p t \<longleftrightarrow>
     absent env cache p \<and> now - t \<le> max_age \<or>
     p \<in> snd ` set (b_current db) \<and>
       (\<exists>ps q. ve_requisites env p = Some ps \<and> q \<in> set ps \<and> absent env cache q)"

lemma verified_evidence:
  assumes "unique_keys o_path (b_outputs db)" and "o1 \<in> set (b_outputs db)" and "o_published o1 = Some t"
    and "o_path o1 \<in> set (verified env cache rotation closure_paths now max_age db)"
  shows "lost_evidence env cache now max_age db (o_path o1) t"
  using assms(4) unfolding set_verified
proof
  assume "\<exists>o2 \<in> set (take (nat rotation) (rotated (b_outputs db))).
        o_path o2 = o_path o1 \<and> absent env cache (o_path o1) \<and> \<not> too_old now max_age o2"
  then obtain o2 where o2: "o2 \<in> set (rotated (b_outputs db))" "o_path o2 = o_path o1"
      "absent env cache (o_path o1)" "\<not> too_old now max_age o2" by (auto dest: in_set_takeD)
  then have "o2 = o1" using unique_keysD [OF assms(1)] assms(2) by (auto simp: set_rotated)
  then show ?thesis using o2 assms(3) by (simp add: lost_evidence_def too_old_def)
qed (auto simp: lost_evidence_def dest: closure_sample_from)

text \<open>What a check does to every row.\<close>

definition checked_row :: "timestamp \<Rightarrow> string set \<Rightarrow> string set \<Rightarrow> pub_output \<Rightarrow> pub_output" where
  "checked_row now roots lost o1 = o1\<lparr>
      o_checked := (if o_path o1 \<in> roots then Some now else o_checked o1),
      o_published := (if o_path o1 \<in> lost then None else o_published o1)\<rparr>"

lemma checked_row_fields [simp]:
  "o_path (checked_row now roots lost o1) = o_path o1"
  "o_published (checked_row now roots lost o1) = (if o_path o1 \<in> lost then None else o_published o1)"
  "o_checked (checked_row now roots lost o1) = (if o_path o1 \<in> roots then Some now else o_checked o1)"
  by (simp_all add: checked_row_def)

lemma checked_rows:
  "clear_receipts lost (mark_checked now roots outs) = map (checked_row now (set roots) (set lost)) outs"
  by (simp add: clear_receipts_def mark_checked_def sql_update_def checked_row_def)

lemma verify_row:
  assumes "verify env config rotation closure_paths now max_age db = (Inr lost, db')"
    and "cache_url config = Inr cache"
  shows "lost = verified env cache rotation closure_paths now max_age db"
    and "b_outputs db' = map (checked_row now (o_path ` set (take (nat rotation) (rotated (b_outputs db)))) (set lost))
      (b_outputs db)"
  using assms by (auto simp: verify_outcome checked_rows split: if_splits)

lemma verify_unpublished:
  assumes "unique_keys o_path (b_outputs db)" and "o1 \<in> set (b_outputs db)" and "o_published o1 = None"
  shows "o_path o1 \<notin> set (verified env cache rotation closure_paths now max_age db)"
proof
  assume "o_path o1 \<in> set (verified env cache rotation closure_paths now max_age db)"
  then consider o2 where "o2 \<in> set (take (nat rotation) (rotated (b_outputs db)))" "o_path o2 = o_path o1"
    | "receipt (b_outputs db) (o_path o1) \<noteq> None" by (auto simp: set_verified)
  then show False
  proof cases
    case 1
    then have "o2 \<in> set (b_outputs db)" "o_published o2 \<noteq> None" by (auto dest!: in_set_takeD simp: set_rotated)
    then show False using 1 unique_keysD [OF assms(1)] assms(2,3) by metis
  next
    case 2
    then show False using find_row_unique [OF assms(1,2)] assms(3) by (simp add: receipt_def)
  qed
qed

section \<open>Outputs for the local cache only\<close>

definition swa_receipts :: "pub_db \<Rightarrow> (string \<times> timestamp option) list" where
  "swa_receipts db = map (\<lambda>o1. (o_path o1, o_published o1)) (filter (\<lambda>o1. swa_only (o_path o1)) (b_outputs db))"

definition spared :: "pub_db \<Rightarrow> pub_db \<Rightarrow> bool" where
  "spared db0 db \<longleftrightarrow> queue_ok db \<and> (\<forall>r \<in> set (b_current db). \<not> swa_only (snd r)) \<and>
     (\<forall>r \<in> set (swa_receipts db0). snd r \<noteq> None) \<and> swa_receipts db = swa_receipts db0"

lemma spared_published: "spared db0 db \<Longrightarrow> o1 \<in> set (b_outputs db) \<Longrightarrow> swa_only (o_path o1) \<Longrightarrow> o_published o1 \<noteq> None"
proof -
  assume "spared db0 db" "o1 \<in> set (b_outputs db)" "swa_only (o_path o1)"
  moreover from this have "(o_path o1, o_published o1) \<in> set (swa_receipts db)"
    unfolding swa_receipts_def by simp
  ultimately show ?thesis by (fastforce simp: spared_def)
qed

lemma filter_update:
  "(\<And>o1. o1 \<in> set outs \<Longrightarrow> P o1 \<Longrightarrow> \<not> Q o1 \<and> \<not> Q (g o1)) \<Longrightarrow> filter Q (sql_update P g outs) = filter Q outs"
  by (induction outs) auto

lemma filter_enqueue:
  "(\<And>p. p \<in> set ps \<Longrightarrow> \<not> swa_only p) \<Longrightarrow>
   filter (\<lambda>o1. swa_only (o_path o1)) (enqueue ps now outs) = filter (\<lambda>o1. swa_only (o_path o1)) outs"
  unfolding enqueue_def by (induction ps arbitrary: outs) (auto simp: insert_or_ignore_def new_output_def)

definition plain_references :: "run_env \<Rightarrow> bool" where
  "plain_references env \<longleftrightarrow> (\<forall>p qs q. swa_only p \<longrightarrow> n_references env p = Some qs \<longrightarrow> q \<in> set qs \<longrightarrow> q \<noteq> p \<longrightarrow> \<not> swa_only q)"

lemma set_replace_pair: "set (replace_pair kv rows) = {r \<in> set rows. fst r \<noteq> fst kv} \<union> {kv}"
  by (auto simp: replace_pair_def)

lemma replace_fold_from:
  "r \<in> set (fold (\<lambda>x. replace_pair (f x)) xs rows) \<Longrightarrow> r \<in> set rows \<or> (\<exists>x \<in> set xs. r = f x)"
proof (induction xs arbitrary: rows)
  case (Cons x xs)
  then have "r \<in> set (fold (\<lambda>x. replace_pair (f x)) xs (replace_pair (f x) rows))" by simp
  from Cons.IH [OF this] show ?case by (auto simp: set_replace_pair)
qed simp

lemma substitute_plain:
  "plain_references env \<Longrightarrow> p \<in> set (substitute (n_references env) paths) \<Longrightarrow> \<not> swa_only p"
  by (auto simp: substitute_def plain_references_def split: option.splits) metis

lemma check_args_plain:
  "check_args a = None \<Longrightarrow> g_target a = Cachix \<Longrightarrow> r \<in> set (g_republish_root a) \<Longrightarrow> \<not> swa_only r"
  by (auto simp: check_args_def list_ex_iff split: if_splits option.splits)

lemma spared_queue:
  assumes "spared db0 db" and "plain_references env" and "check_args a = None" and "g_target a = Cachix"
  shows "spared db0 (queue_outputs env a found db)"
proof -
  let ?swa = "\<lambda>o1. swa_only (o_path o1)"
  let ?paths = "found @ all_roots a"
  have "filter ?swa (drop_unpublished (filter swa_only ?paths) (b_outputs db)) = filter ?swa (b_outputs db)"
    unfolding drop_unpublished_def filter_filter by (rule filter_cong) (auto dest: spared_published [OF assms(1)])
  moreover have "filter ?swa (reset_outputs (g_republish_root a) outs) = filter ?swa outs" for outs
    unfolding reset_outputs_def by (rule filter_update) (auto dest: check_args_plain [OF assms(3,4)])
  moreover have "filter ?swa (enqueue (sorted_set (substitute (n_references env) ?paths)) (n_enqueued env) outs)
      = filter ?swa outs" for outs
    by (rule filter_enqueue) (auto simp: sorted_set_def dest: substitute_plain [OF assms(2)])
  ultimately have "swa_receipts (queue_outputs env a found db) = swa_receipts db"
    by (simp add: swa_receipts_def queue_outputs_def Let_def assms(4))
  moreover have "\<not> swa_only (snd r)" if "r \<in> set (b_current (queue_outputs env a found db))" for r
    using that assms(1) by (auto simp: queue_outputs_def Let_def spared_def dest!: replace_fold_from)
  ultimately show ?thesis using assms(1) queue_ok_queued by (auto simp: spared_def)
qed

lemma spared_verify:
  assumes "spared db0 db"
  shows "spared db0 (snd (verify env config rotation closure_paths now max_age db))"
proof -
  have plain: "\<not> swa_only p" if "p \<in> set (verified env cache rotation closure_paths now max_age db)" for p cache
    using that assms closure_sample_from
    by (fastforce simp: set_verified spared_def set_rotated dest!: in_set_takeD closure_sample_from)
  have "swa_receipts (db\<lparr>b_outputs := map (checked_row now roots (set (verified env cache rotation closure_paths now max_age db)))
      (b_outputs db), b_checks := c\<rparr>) = swa_receipts db" for cache roots c
    using plain by (auto simp: swa_receipts_def filter_map comp_def)
  moreover have "queue_ok (snd (verify env config rotation closure_paths now max_age db))"
    using keeps_verify [of queue_ok, OF queue_ok_checked] assms by (simp add: keeps_def spared_def)
  ultimately show ?thesis using assms
    by (auto simp: verify_outcome spared_def checked_rows split: sum.splits)
qed

lemma spared_publish:
  assumes "spared db0 db"
  shows "spared db0 (db\<lparr>b_outputs := sql_update (\<lambda>o1. o1 \<in> set (batch env count db)) (recorded err now) (b_outputs db)\<rparr>)"
proof -
  have "\<not> swa_only (o_path o1)" if "o1 \<in> set (batch env count db)" for o1
    using set_batch [OF that] spared_published [OF assms, of o1] by (auto simp: is_due_def)
  then have "filter (\<lambda>o1. swa_only (o_path o1)) (sql_update (\<lambda>o1. o1 \<in> set (batch env count db)) (recorded err now) (b_outputs db))
      = filter (\<lambda>o1. swa_only (o_path o1)) (b_outputs db)"
    by (intro filter_update) auto
  then show ?thesis using assms queue_ok_recorded by (simp add: spared_def swa_receipts_def)
qed

lemma spared_run:
  assumes "plain_references env" and "g_target a = Cachix" and "check_args a = None"
  shows "publisher_invariant env config a (spared db0)"
proof unfold_locales
  show "spared db0 (db\<lparr>b_destination := [ident]\<rparr>)" if "spared db0 db" for db ident
    using that by (simp add: spared_def queue_ok_def swa_receipts_def)
  show "spared db0 (queue_outputs env a found db)" if "spared db0 db" for db found
    using spared_queue that assms by blast
  show "keeps (spared db0) (verify (n_verify env) own (g_verify_roots a) (g_verify_paths a) (n_verified env) MAX_AGE)" for own
    by (simp add: keeps_def spared_verify)
  show "keeps (spared db0) (publish (n_push env i) own (g_target a) (nat (g_batch_size a)))" for i own
    by (rule keeps_publish) (simp_all add: spared_publish, simp add: spared_def queue_ok_def)
qed

lemma spared_main:
  assumes "plain_references env" and "g_target a = Cachix" and "spared db0 db"
  shows "spared db0 (snd (publisher_main env locked config a db))"
proof (cases "check_args a")
  case None
  then show ?thesis using publisher_invariant.main_kept [OF spared_run [OF assms(1,2)]] assms(3) by blast
qed (simp add: publisher_main_def assms)

section \<open>Repeated pushes\<close>

fun rounds :: "(nat \<Rightarrow> push_env) \<Rightarrow> json \<Rightarrow> cache_target \<Rightarrow> nat \<Rightarrow> nat \<Rightarrow> nat \<Rightarrow> pub_db \<Rightarrow> pub_db" where
  "rounds env config t count i 0 db = db"
| "rounds env config t count i (Suc n) db =
     rounds env config t count (Suc i) n (snd (publish (env i) config t count db))"

definition is_published :: "string \<Rightarrow> pub_db \<Rightarrow> bool" where
  "is_published p db \<longleftrightarrow> (\<exists>o1 \<in> set (b_outputs db). o_path o1 = p \<and> o_published o1 \<noteq> None)"

text \<open>Pushes fail exactly when the batch holds a path that cannot be pushed, and successive
  rounds are far enough apart for every retry delay to have passed.\<close>

definition broken_only :: "string set \<Rightarrow> (nat \<Rightarrow> push_env) \<Rightarrow> json \<Rightarrow> cache_target \<Rightarrow> bool" where
  "broken_only broken env config t \<longleftrightarrow> (\<forall>i paths. \<exists>err.
     push_batch (env i) config t paths = Inr err \<and> (err = None \<longleftrightarrow> set paths \<inter> broken = {}))"

definition spaced :: "(nat \<Rightarrow> push_env) \<Rightarrow> bool" where
  "spaced env \<longleftrightarrow> (\<forall>i. 0 \<le> pe_start (env i) \<and> pe_start (env i) \<le> pe_start (env (Suc i)) \<and>
     pe_end (env i) + 3600 \<le> pe_start (env (Suc i)))"

definition all_due :: "timestamp \<Rightarrow> pub_db \<Rightarrow> bool" where
  "all_due now db \<longleftrightarrow> (\<forall>o1 \<in> set (b_outputs db). o_retry_after o1 \<le> now)"

lemma sum_update_le:
  assumes "\<And>x. x \<in> set xs \<Longrightarrow> P x \<Longrightarrow> f (g x) \<le> (f x :: nat)"
  shows "sum_list (map f (sql_update P g xs)) \<le> sum_list (map f xs)"
  using assms by (induction xs) (auto intro: add_mono)

lemma sum_update_less:
  assumes "\<And>x. x \<in> set xs \<Longrightarrow> P x \<Longrightarrow> f (g x) \<le> (f x :: nat)"
    and "y \<in> set xs" and "P y" and "f (g y) < f y"
  shows "sum_list (map f (sql_update P g xs)) < sum_list (map f xs)"
  using assms
proof (induction xs)
  case (Cons x xs)
  have rest: "sum_list (map f (sql_update P g xs)) \<le> sum_list (map f xs)"
    by (rule sum_update_le) (simp add: Cons.prems)
  show ?case
  proof (cases "x = y")
    case True
    then show ?thesis using rest Cons.prems by auto
  next
    case False
    then show ?thesis using Cons by (auto intro: add_le_less_mono)
  qed
qed simp

definition untried :: "pub_output \<Rightarrow> nat" where
  "untried o1 = (if o_published o1 = None \<and> o_attempts o1 = 0 then 1 else 0)"

definition lead :: "nat \<Rightarrow> pub_output \<Rightarrow> nat" where
  "lead n o1 = (if o_published o1 = None then Suc n - o_attempts o1 else 0)"

lemma untried_recorded: "untried (recorded err now o1) = 0"
  by (simp add: untried_def)

lemma lead_recorded: "lead n (recorded err now o1) \<le> lead n o1"
  by (auto simp: lead_def)

lemma lead_recorded_less: "o_published o1 = None \<Longrightarrow> o_attempts o1 \<le> n \<Longrightarrow> lead n (recorded err now o1) < lead n o1"
  by (auto simp: lead_def)

lemma due_least: "due now outs = r # rs \<Longrightarrow> o1 \<in> set outs \<Longrightarrow> is_due now o1 \<Longrightarrow> o_attempts r \<le> o_attempts o1"
proof -
  assume due: "due now outs = r # rs" and o1: "o1 \<in> set outs" "is_due now o1"
  have "sorted (map push_order (r # rs))" unfolding due [symmetric] by (simp add: due_def)
  moreover have "o1 \<in> set (r # rs)" using o1 unfolding due [symmetric] by simp
  ultimately show ?thesis by (auto simp: push_order_def less_eq_prod_def)
qed

lemma publish_round:
  assumes "queue_ok db" and "all_due (pe_start env) db" and "0 < count"
    and "o1 \<in> set (b_outputs db)" and "o_published o1 = None"
    and "push_batch env config t (map o_path (batch env count db)) = Inr err"
  obtains r where "r \<in> set (batch env count db)" and "r \<in> set (b_outputs db)" and "o_published r = None"
    and "o_attempts r \<le> o_attempts o1" and "o_attempts r = 0 \<or> batch env count db = [r]"
    and "snd (publish env config t count db) = db\<lparr>b_outputs :=
      sql_update (\<lambda>o1. o1 \<in> set (batch env count db)) (recorded err (pe_end env)) (b_outputs db)\<rparr>"
proof -
  have "is_due (pe_start env) o1" using assms(2,4,5) by (simp add: is_due_def all_due_def)
  then have "o1 \<in> set (due (pe_start env) (b_outputs db))" using assms(4) by simp
  then obtain r rs where due: "due (pe_start env) (b_outputs db) = r # rs"
    by (cases "due (pe_start env) (b_outputs db)") auto
  obtain k where k: "count = Suc k" using assms(3) gr0_implies_Suc by blast
  have b: "batch env count db = (if o_attempts r \<noteq> 0 then [r] else r # take k rs)"
    by (simp add: batch_def due k batch_of_def)
  then have r: "r \<in> set (batch env count db)" by simp
  have "snd (publish env config t count db) = db\<lparr>b_outputs :=
      sql_update (\<lambda>o1. o1 \<in> set (batch env count db)) (recorded err (pe_end env)) (b_outputs db)\<rparr>"
    using assms(1,6) b by (auto simp: publish_outcome queue_ok_def)
  then show ?thesis
    using that [OF r] set_batch [OF r] due_least [OF due assms(4) \<open>is_due (pe_start env) o1\<close>] b
    by (auto simp: is_due_def)
qed

lemma all_due_next:
  assumes "all_due (pe_start (env i)) db" and "spaced env"
  shows "all_due (pe_start (env (Suc i))) (db\<lparr>b_outputs := sql_update P (recorded err (pe_end (env i))) (b_outputs db)\<rparr>)"
proof -
  have "o_retry_after o1 \<le> pe_start (env (Suc i))" if "o_retry_after o1 \<le> pe_start (env i)" for o1
    using that assms(2) by (auto simp: spaced_def intro: order_trans)
  moreover have "o_retry_after (recorded err (pe_end (env i)) o1) \<le> pe_start (env (Suc i))" for o1
    using retry_after_recorded [of err "pe_end (env i)" o1] assms(2)
    by (auto simp: spaced_def max_def split: if_splits intro: order_trans)
  ultimately show ?thesis using assms(1) by (auto simp: all_due_def set_sql_update)
qed

text \<open>A round publishes the path, or tries a path never tried before, or catches up with its
  number of attempts.\<close>

definition backlog :: "pub_output \<Rightarrow> pub_db \<Rightarrow> nat \<times> nat" where
  "backlog o1 db = (sum_list (map untried (b_outputs db)), sum_list (map (lead (o_attempts o1)) (b_outputs db)))"

lemma round_progress:
  assumes "queue_ok db" and "all_due (pe_start env) db" and "0 < count"
    and "o1 \<in> set (b_outputs db)" and "o_published o1 = None" and "o_path o1 \<notin> broken"
    and "push_batch env config t (map o_path (batch env count db)) = Inr err"
    and "err = None \<longleftrightarrow> set (map o_path (batch env count db)) \<inter> broken = {}"
  obtains o2 where "o2 \<in> set (b_outputs (snd (publish env config t count db)))" and "o_path o2 = o_path o1"
    and "o_published o2 \<noteq> None \<or> (backlog o2 (snd (publish env config t count db)), backlog o1 db) \<in> less_than <*lex*> less_than"
proof -
  let ?b = "batch env count db"
  let ?db = "snd (publish env config t count db)"
  obtain r where r: "r \<in> set ?b" "r \<in> set (b_outputs db)" "o_published r = None"
      "o_attempts r \<le> o_attempts o1" "o_attempts r = 0 \<or> ?b = [r]"
      and after: "?db = db\<lparr>b_outputs := sql_update (\<lambda>o1. o1 \<in> set ?b) (recorded err (pe_end env)) (b_outputs db)\<rparr>"
    by (rule publish_round [OF assms(1-5,7)])
  let ?o = "if o1 \<in> set ?b then recorded err (pe_end env) o1 else o1"
  have o: "?o \<in> set (b_outputs ?db)" "o_path ?o = o_path o1"
    using assms(4) unfolding after by (auto simp: sql_update_def)
  have untried: "sum_list (map untried (b_outputs ?db)) \<le> sum_list (map untried (b_outputs db))"
    unfolding after by (simp add: sum_update_le untried_recorded)
  consider "o_attempts r = 0" | "?b = [r]" "o1 = r" | "?b = [r]" "o1 \<noteq> r" using r(5) by argo
  then have "o_published ?o \<noteq> None \<or> (backlog ?o ?db, backlog o1 db) \<in> less_than <*lex*> less_than"
  proof cases
    case 1
    then have "sum_list (map untried (b_outputs ?db)) < sum_list (map untried (b_outputs db))"
      unfolding after using r
      by (auto intro!: sum_update_less [where y = r] simp: untried_recorded) (simp add: untried_def)
    then show ?thesis by (simp add: backlog_def)
  next
    case 2
    then show ?thesis using assms(6,8) by simp
  next
    case 3
    then have "sum_list (map (lead (o_attempts o1)) (b_outputs ?db)) < sum_list (map (lead (o_attempts o1)) (b_outputs db))"
      unfolding after using r
      by (auto intro!: sum_update_less [where y = r] simp: lead_recorded lead_recorded_less)
    then show ?thesis using 3 untried by (auto simp: backlog_def)
  qed
  then show ?thesis by (rule that [OF o])
qed

lemma healthy_published:
  assumes "broken_only broken env config t" and "spaced env" and "0 < count" and "p \<notin> broken"
  shows "queue_ok db \<Longrightarrow> all_due (pe_start (env i)) db \<Longrightarrow> o1 \<in> set (b_outputs db) \<Longrightarrow> o_path o1 = p \<Longrightarrow>
    \<exists>n. is_published p (rounds env config t count i n db)"
proof (induction "backlog o1 db" arbitrary: i db o1 rule: wf_induct_rule [OF wf_lex_prod [OF wf_less_than wf_less_than]])
  case (1 db o1 i)
  show ?case
  proof (cases "o_published o1 = None")
    case False
    then have "is_published p (rounds env config t count i 0 db)" using 1 by (auto simp: is_published_def)
    then show ?thesis by blast
  next
    case True
    let ?db = "snd (publish (env i) config t count db)"
    obtain err where err: "push_batch (env i) config t (map o_path (batch (env i) count db)) = Inr err"
        "err = None \<longleftrightarrow> set (map o_path (batch (env i) count db)) \<inter> broken = {}"
      using assms(1) unfolding broken_only_def by blast
    have "queue_ok ?db \<and> all_due (pe_start (env (Suc i))) ?db"
      using publish_round [OF 1(2,3) assms(3) 1(4) True err(1)] queue_ok_recorded [OF 1(2)] all_due_next [OF 1(3) assms(2)]
      by metis
    moreover obtain o2 where o2: "o2 \<in> set (b_outputs ?db)" "o_path o2 = p"
        "o_published o2 \<noteq> None \<or> (backlog o2 ?db, backlog o1 db) \<in> less_than <*lex*> less_than"
      using round_progress [OF 1(2,3) assms(3) 1(4) True _ err] 1(5) assms(4) by metis
    moreover have "is_published p (rounds env config t count (Suc i) 0 ?db)" if "o_published o2 \<noteq> None"
      using that o2 by (auto simp: is_published_def)
    ultimately have "\<exists>n. is_published p (rounds env config t count (Suc i) n ?db)"
      using 1(1) [of o2 ?db "Suc i"] by blast
    then show ?thesis using rounds.simps(2) by metis
  qed
qed

lemma published_stays:
  assumes "queue_ok db" and "is_published p db"
  shows "is_published p (rounds env config t count i n db)"
  using assms
proof (induction n arbitrary: i db)
  case (Suc n)
  have "queue_ok (snd (publish (env i) config t count db))"
    using keeps_publish [of queue_ok "env i" config t count] Suc.prems(1) queue_ok_recorded
    by (simp add: keeps_def queue_ok_def)
  moreover have "is_published p (snd (publish (env i) config t count db))"
  proof -
    obtain o1 where o1: "o1 \<in> set (b_outputs db)" "o_path o1 = p" "o_published o1 \<noteq> None"
      using Suc.prems(2) by (auto simp: is_published_def)
    then have "o1 \<notin> set (batch (env i) count db)" using set_batch by (auto simp: is_due_def)
    with o1 Suc.prems(1) show ?thesis
      by (auto simp: publish_outcome queue_ok_def is_published_def set_sql_update split: sum.splits)
  qed
  ultimately show ?case by (simp add: Suc.IH)
qed simp

lemma rounds_add: "rounds env config t count i (m + n) db = rounds env config t count (i + m) n (rounds env config t count i m db)"
  by (induction m arbitrary: i db) auto

lemma rounds_queue_ok: "queue_ok db \<Longrightarrow> queue_ok (rounds env config t count i n db)"
proof (induction n arbitrary: i db)
  case (Suc n)
  have "queue_ok (snd (publish (env i) config t count db))"
    using keeps_publish [of queue_ok "env i" config t count] Suc.prems queue_ok_recorded
    by (simp add: keeps_def queue_ok_def)
  then show ?case by (simp add: Suc.IH)
qed simp

section \<open>A sample run\<close>

definition sample_out :: string where
  "sample_out = ''/nix/store/'' @ replicate 32 CHR ''a'' @ ''-x''"

definition sample_push :: "nat \<Rightarrow> push_env" where
  "sample_push i = \<lparr>pe_start = of_nat i * 7200, pe_end = of_nat i * 7200 + 10, pe_credentials = Some ''/run'',
     pe_disk = (\<lambda>_. Inr 0), pe_run = (\<lambda>cmd input. if contains ''bad'' input then Some ''exit 1'' else None)\<rparr>"

definition sample_verify :: verify_env where
  "sample_verify = \<lparr>ve_exists = (\<lambda>cache p. Some False), ve_requisites = (\<lambda>r. Some [r])\<rparr>"

definition sample_run_env :: run_env where
  "sample_run_env = \<lparr>n_native = (\<lambda>u. Inr (JObj [(''paths'', JArr [])])), n_database = (\<lambda>_. empty_db),
     n_references = (\<lambda>p. Some []), n_enqueued = 5, n_verified = 6, n_verify = sample_verify,
     n_push = sample_push, n_float = (\<lambda>_. ''0.0'')\<rparr>"

definition sample_own :: json where
  "sample_own = JObj [(''cache'', JStr ''c'')]"

definition sample_config :: json where
  "sample_config = JObj [(''cachix'', sample_own), (''native_outputs_url'', JStr ''u'')]"

definition sample_args :: pub_args where
  "sample_args = \<lparr>g_target = Cachix, g_status = False, g_batch_size = 2, g_batches = 1,
     g_extra_root = [sample_out], g_republish_root = [], g_verify_roots = 1, g_verify_paths = 1\<rparr>"

definition sample_published :: pub_output where
  "sample_published = \<lparr>o_path = sample_out, o_discovered = 5, o_published = Some 10, o_attempts = 1,
     o_retry_after = 0, o_error = None, o_checked = None\<rparr>"

definition sample_pub_db :: pub_db where
  "sample_pub_db = \<lparr>b_destination = [], b_outputs = [sample_published],
     b_current = [(''x'', sample_out)], b_checks = []\<rparr>"

lemma fresh_queue_ok: "queue_ok fresh_pub_db"
  by (simp add: queue_ok_def fresh_pub_db_def unique_keys_def)

lemma sample_queue_ok: "queue_ok sample_pub_db"
  by (simp add: queue_ok_def sample_pub_db_def unique_keys_def sample_published_def output_ok_def)

lemma sample_out_path: "output_path sample_out" "\<not> swa_only sample_out"
  by code_simp+

lemma sample_found: "discovered sample_run_env sample_config = Inr []"
  by code_simp

lemma sample_checked: "check_args sample_args = None"
  by (simp add: check_args_def sample_args_def all_roots_def sample_out_path)

lemma sample_queued: "queue_outputs sample_run_env sample_args [] \<lparr>b_destination = d, b_outputs = [], b_current = [], b_checks = []\<rparr> =
    \<lparr>b_destination = d, b_outputs = [new_output 5 sample_out], b_current = [(root_name sample_out, sample_out)], b_checks = []\<rparr>"
  by (simp add: queue_outputs_def sample_args_def sample_run_env_def all_roots_def Let_def substitute_def sample_out_path
     drop_unpublished_def sorted_set_def enqueue_def insert_or_ignore_def reset_outputs_def replace_pair_def)

lemma sample_url: "cache_url sample_own = Inr ''https://c.cachix.org''"
  by code_simp

lemma sample_push_ok: "push_batch (sample_push i) sample_own Cachix [sample_out] = Inr None"
  by code_simp

lemma sample_first_run:
  "\<exists>fin d c. publisher_main sample_run_env False sample_config sample_args fresh_pub_db =
     (fin, \<lparr>b_destination = d, b_outputs = [sample_published], b_current = [(root_name sample_out, sample_out)], b_checks = c\<rparr>)"
proof -
  let ?db = "\<lambda>d c. \<lparr>b_destination = d, b_outputs = [new_output 5 sample_out], b_current = [(root_name sample_out, sample_out)], b_checks = c\<rparr>"
  have verify: "verify sample_verify sample_own 1 1 6 MAX_AGE (?db d []) = (Inr [], ?db d [(sample_out, 6)])" for d
    by (simp add: verify_outcome sample_url verified_def rotated_def lost_paths_def gone_roots_def closure_sample_def owners_of_def
        own_paths_def sample_verify_def receipt_def find_row_def new_output_def sorted_set_def slice_to_def clear_receipts_def mark_checked_def replace_pair_def)
  have batch: "batch (sample_push 0) 2 (?db d c) = [new_output 5 sample_out]" for d c
    by (simp add: batch_def due_def is_due_def new_output_def sample_push_def batch_of_def)
  have outcome: "recorded None (pe_end (sample_push 0)) (new_output 5 sample_out) = sample_published" "o_path (new_output 5 sample_out) = sample_out"
    by (simp_all add: recorded_def new_output_def sample_push_def sample_published_def)
  have publish: "publish (sample_push 0) sample_own Cachix 2 (?db d c) = (Inr True, (?db d c)\<lparr>b_outputs := [sample_published]\<rparr>)" for d c
    using sample_push_ok [of 0] outcome
    by (subst publish_outcome) (simp_all add: batch unique_keys_def)
  have dest: "claim_destination x \<lparr>b_destination = [], b_outputs = [], b_current = [], b_checks = []\<rparr> =
      (Inr (), \<lparr>b_destination = [x], b_outputs = [], b_current = [], b_checks = []\<rparr>)" for x
    by (simp add: claim_destination_def bindM_def getsM_def modifyM_def)
  have own: "jindex ''cachix'' sample_config = Inr sample_own"
    by (simp add: jindex_def sample_config_def)
  have args: "g_target sample_args = Cachix" "g_status sample_args = False" "g_batch_size sample_args = 2"
      "g_batches sample_args = 1" "g_verify_roots sample_args = 1" "g_verify_paths sample_args = 1"
      "n_verify sample_run_env = sample_verify" "n_push sample_run_env = sample_push" "n_verified sample_run_env = 6"
    by (simp_all add: sample_args_def sample_run_env_def)
  show ?thesis
    by (simp add: publisher_main_def sample_checked run_publisher_def bindM_def liftM_def whenM_def modifyM_def getsM_def
        returnM_def args own dest sample_found target_name_def fresh_pub_db_def sample_queued verify publish)
qed

lemma starts_with_break: "c \<notin> set w \<Longrightarrow> starts_with w (x @ c # y) \<longleftrightarrow> starts_with w x"
proof (induction w arbitrary: x)
  case (Cons d w)
  then show ?case by (cases x) (auto simp: starts_with_def)
qed (simp add: starts_with_def)

lemma contains_break:
  "w \<noteq> [] \<Longrightarrow> c \<notin> set w \<Longrightarrow> contains w (x @ c # y) \<longleftrightarrow> contains w x \<or> contains w y"
proof (induction x)
  case Nil
  then show ?case using starts_with_break [of c w "[]" y] by (cases w) (auto simp: starts_with_def)
next
  case (Cons d x)
  then show ?case using starts_with_break [of c w "d # x" y] by auto
qed

lemma stdin_contains:
  "w \<noteq> [] \<Longrightarrow> CHR 0x0A \<notin> set w \<Longrightarrow> contains w (stdin_of ps) \<longleftrightarrow> (\<exists>p \<in> set ps. contains w p)"
proof (induction ps)
  case Nil
  then show ?case using contains_break [of w "CHR 0x0A" "[]" "[]"] by (simp add: stdin_of_def)
next
  case (Cons p ps)
  have "contains w (stdin_of (p # ps)) \<longleftrightarrow> contains w p \<or> (ps \<noteq> [] \<and> contains w (stdin_of ps))"
    using contains_break [of w "CHR 0x0A" p] Cons.prems by (cases ps) (auto simp: stdin_of_def)
  then show ?case using Cons by auto
qed

definition broken_paths :: "string set" where
  "broken_paths = {p. contains ''bad'' p}"

lemma sample_broken_only: "broken_only broken_paths sample_push sample_own Cachix"
proof -
  have "push_batch (sample_push i) sample_own Cachix paths =
      Inr (if contains ''bad'' (stdin_of paths) then Some ''exit 1'' else None)" for i paths
    by (simp add: push_batch_def check_space_def command_def conf_string_def jindex_def sample_own_def sample_push_def)
  moreover have "contains ''bad'' (stdin_of paths) \<longleftrightarrow> set paths \<inter> broken_paths \<noteq> {}" for paths
    by (subst stdin_contains) (auto simp: broken_paths_def)
  ultimately show ?thesis unfolding broken_only_def by auto
qed

lemma sample_spaced: "spaced sample_push"
  by (auto simp: spaced_def sample_push_def)

definition two_outputs :: pub_db where
  "two_outputs = \<lparr>b_destination = [], b_outputs = [new_output 1 ''bad'', new_output 2 sample_out],
     b_current = [], b_checks = []\<rparr>"

section \<open>Properties\<close>

text \<open>C16. A path counts as published only when an earlier run already recorded that receipt or
  this run gave the path to a push command that ended normally, at the recorded time; a
  timeout, an error or a lack of disk space never leaves a receipt.\<close>

theorem published_on_push:
  assumes "queue_ok db" and "publisher_main env locked config a db = (fin, db')"
    and "o1 \<in> set (b_outputs db')" and "o_published o1 = Some t"
  shows "(\<exists>o0 \<in> set (b_outputs db). o_path o0 = o_path o1 \<and> o_published o0 = Some t) \<or>
    (\<exists>i < nat (g_batches a). \<exists>own cmd paths. jindex (target_name (g_target a)) config = Inr own \<and>
       command (pe_credentials (n_push env i)) own (g_target a) = Inr cmd \<and> o_path o1 \<in> set paths \<and>
       pe_run (n_push env i) cmd (stdin_of paths) = None \<and> t = pe_end (n_push env i))"
  using published_needs_push [OF assms] assms(4) by (simp add: same_receipt_def pushed_def)

theorem published_on_push_witness:
  "\<exists>i < nat (g_batches sample_args). \<exists>own cmd paths. jindex ''cachix'' sample_config = Inr own \<and>
     command (Some ''/run'') own Cachix = Inr cmd \<and> sample_out \<in> set paths \<and>
     pe_run (sample_push i) cmd (stdin_of paths) = None \<and> 10 = pe_end (sample_push i)"
proof -
  obtain fin d c where run: "publisher_main sample_run_env False sample_config sample_args fresh_pub_db =
      (fin, \<lparr>b_destination = d, b_outputs = [sample_published], b_current = [(root_name sample_out, sample_out)], b_checks = c\<rparr>)"
    using sample_first_run by blast
  have env: "n_push sample_run_env = sample_push" "g_target sample_args = Cachix" "pe_credentials (sample_push i) = Some ''/run''" for i
    by (simp_all add: sample_run_env_def sample_args_def sample_push_def)
  have row: "o_path sample_published = sample_out" "o_published sample_published = Some 10"
    by (simp_all add: sample_published_def)
  show ?thesis
    using published_on_push [OF fresh_queue_ok run, of sample_published 10]
    by (simp add: env row target_name_def fresh_pub_db_def)
qed



text \<open>C17. Checking Cachix clears a receipt only on positive evidence: the path, published
  recently enough, or a path of the closure of this current root is missing from both caches.
  An unknown answer clears nothing, and every other receipt stays as it is.\<close>

theorem receipts_cleared_on_evidence:
  assumes "queue_ok db" and "cache_url config = Inr cache"
    and "verify env config rotation closure_paths now max_age db = (Inr lost, db')"
    and "o1 \<in> set (b_outputs db)" and "o_published o1 = Some t"
  shows "\<exists>o2 \<in> set (b_outputs db'). o_path o2 = o_path o1 \<and> o_attempts o2 = o_attempts o1 \<and>
    (o_path o1 \<notin> set lost \<and> o_published o2 = Some t \<or>
     o_path o1 \<in> set lost \<and> o_published o2 = None \<and> is_due 0 o2 \<and>
       (absent env cache (o_path o1) \<and> now - t \<le> max_age \<or>
        o_path o1 \<in> snd ` set (b_current db) \<and>
          (\<exists>ps q. ve_requisites env (o_path o1) = Some ps \<and> q \<in> set ps \<and> absent env cache q)))"
proof -
  note rows = verify_row [OF assms(3,2)]
  let ?o = "checked_row now (o_path ` set (take (nat rotation) (rotated (b_outputs db)))) (set lost) o1"
  have "unique_keys o_path (b_outputs db)" and ok: "output_ok o1"
    using assms(1,4) by (auto simp: queue_ok_def list_all_iff)
  then have "o_path o1 \<in> set lost \<Longrightarrow> lost_evidence env cache now max_age db (o_path o1) t"
    using verified_evidence [OF _ assms(4,5)] rows(1) by blast
  moreover have "?o \<in> set (b_outputs db')" using rows(2) assms(4) by simp
  moreover have "o_retry_after ?o = 0" "o_attempts ?o = o_attempts o1"
    using ok assms(5) by (auto simp: checked_row_def output_ok_def)
  ultimately show ?thesis using assms(5)
    by (intro bexI [of _ ?o]) (auto simp: lost_evidence_def is_due_def)
qed

theorem receipts_cleared_on_evidence_witness:
  "absent sample_verify ''https://c.cachix.org'' sample_out"
proof -
  have lost: "verified sample_verify ''https://c.cachix.org'' 1 0 20 MAX_AGE sample_pub_db = [sample_out]"
    by (simp add: verified_def lost_paths_def sample_pub_db_def rotated_def sample_published_def sample_out_path gone_roots_def
        sorted_set_def too_old_def MAX_AGE_def closure_sample_def slice_to_def present_def sample_verify_def)
  obtain db' where run: "verify sample_verify sample_own 1 0 20 MAX_AGE sample_pub_db = (Inr [sample_out], db')"
    by (simp add: verify_outcome sample_url lost)
  have row: "sample_published \<in> set (b_outputs sample_pub_db)" "o_published sample_published = Some 10"
      "o_path sample_published = sample_out"
    by (simp_all add: sample_pub_db_def sample_published_def)
  have "ve_requisites sample_verify sample_out = Some ps \<Longrightarrow> ps = [sample_out]" for ps
    by (simp add: sample_verify_def)
  then show ?thesis
    using receipts_cleared_on_evidence [OF sample_queue_ok sample_url run row(1,2)] row(3) by auto
qed


definition sample_ami :: string where
  "sample_ami = ''/nix/store/'' @ replicate 32 CHR ''b'' @ ''-filnix-nixos-ami''"

definition ami_db :: pub_db where
  "ami_db = \<lparr>b_destination = [], b_outputs = [(new_output 1 sample_ami)\<lparr>o_published := Some 3\<rparr>], b_current = [], b_checks = []\<rparr>"

lemma sample_ami_local: "swa_only sample_ami"
  by code_simp


text \<open>The references that take the place of such an output are not filtered again: one that is
  itself for the local cache only is queued for Cachix.\<close>

definition sample_image :: string where
  "sample_image = ''/nix/store/'' @ replicate 32 CHR ''c'' @ ''-filnix-nixos-image''"

lemma local_reference_queued:
  "swa_only sample_image" "sample_image \<in> set (substitute (\<lambda>p. Some [sample_image]) [sample_ami])"
  by code_simp+

text \<open>C19. Every run keeps the queue well formed, also one that stops with an error: paths are
  unique, a published or untried output has no error, an output without an error is due at
  once, and there is one destination and one current root per name.\<close>

theorem queue_well_formed:
  "queue_ok db \<Longrightarrow> queue_ok (snd (publisher_main env locked config a db))"
  by (rule queue.main_kept)

theorem queue_well_formed_witness:
  "queue_ok (snd (publisher_main sample_run_env False sample_config sample_args sample_pub_db))"
  using queue_well_formed [OF sample_queue_ok] by blast

text \<open>Discovery offers exactly the known output paths of derivations that were seen to be
  available and that the campaign planned or worked on, once each and in order; a path that
  is no store output stops the run instead.\<close>

theorem discovery_exact:
  "discover db campaign = Inr paths \<longleftrightarrow>
     find_campaign db campaign \<noteq> None \<and> sorted paths \<and> distinct paths \<and> list_all output_path paths \<and>
     set paths = {p. p \<noteq> [] \<and> (\<exists>d k. d \<in> set (derivations db) \<and> d_available d \<and> (k, Some p) \<in> set (d_outputs d) \<and>
       ((\<exists>c. c \<in> set (candidates db) \<and> c_drv c = Some (d_drv d) \<and> c_campaign c = campaign) \<or>
        (\<exists>v t. v \<in> set (activities db) \<and> t \<in> set (attempts db) \<and> av_drv v = Some (d_drv d) \<and>
           at_id t = av_attempt v \<and> at_campaign t = campaign)))}"
proof -
  let ?found = "concat (map known_paths (filter (qualifies db campaign) (derivations db)))"
  have known: "p \<in> set (known_paths d) \<longleftrightarrow> p \<noteq> [] \<and> (\<exists>k. (k, Some p) \<in> set (d_outputs d))" for p d
    by (force simp: known_paths_def List.map_filter_def)
  have found: "set (sorted_set ?found) = {p. p \<noteq> [] \<and> (\<exists>d k. d \<in> set (derivations db) \<and> d_available d \<and> (k, Some p) \<in> set (d_outputs d) \<and>
       ((\<exists>c. c \<in> set (candidates db) \<and> c_drv c = Some (d_drv d) \<and> c_campaign c = campaign) \<or>
        (\<exists>v t. v \<in> set (activities db) \<and> t \<in> set (attempts db) \<and> av_drv v = Some (d_drv d) \<and>
           at_id t = av_attempt v \<and> at_campaign t = campaign)))}"
    unfolding sorted_set_def by (intro set_eqI) (simp add: known qualifies_def list_ex_iff, blast)
  have "sorted paths \<and> distinct paths \<and> set paths = set (sorted_set ?found) \<longleftrightarrow> paths = sorted_set ?found"
    using sorted_distinct_set_unique [of paths "sorted_set ?found"] by (auto simp: sorted_set_def)
  then show ?thesis unfolding found [symmetric] by (auto simp: discover_def Let_def)
qed

end
