(* ===== verification/Catalog.thy ===== *)
theory Catalog
  imports Urls AttemptWorker Logs Classifications "HOL-Library.Product_Lexorder"
begin

text \<open>
  The package inventory (\<^verbatim>\<open>experiment/catalog.py\<close>), the readable summary of an evaluation
  error (\<^verbatim>\<open>experiment/diagnostics.py\<close>) and the removal of consumed planner graphs
  (\<^verbatim>\<open>experiment/retention.py\<close>). Typographic quotation marks lie outside the characters of
  this model, so only the ASCII form of a package name in an error is shortened.
\<close>

section \<open>Evaluation errors\<close>

definition CSI :: rx where
  "CSI = rseqs [rlit [CHR 0x1B, CHR 0x5B], RStar (RChar (in_range 48 63)), RStar (RChar (in_range 32 47)),
     RChar (in_range 64 126)]"

definition is_blank :: "char \<Rightarrow> bool" where
  "is_blank c \<longleftrightarrow> c = CHR 0x20 \<or> c = CHR 0x09"

definition drop_blanks :: "string \<Rightarrow> string" where
  "drop_blanks = dropWhile is_blank"

text \<open>What follows \<^verbatim>\<open>error:\<close> on a line that has a message there.\<close>

definition error_rest :: "string \<Rightarrow> string option" where
  "error_rest line =
     (let s = drop_blanks line in
      if starts_with ''error:'' s then
        (let r = drop_blanks (drop 6 s) in if r \<noteq> [] \<and> \<not> is_space (hd r) then Some r else None)
      else None)"

fun last_error :: "string list \<Rightarrow> string list option" where
  "last_error [] = None"
| "last_error (l # ls) =
     (case last_error ls of
        Some m \<Rightarrow> Some m
      | None \<Rightarrow> (case error_rest l of Some r \<Rightarrow> Some (r # ls) | None \<Rightarrow> None))"

text \<open>The lines before the first blank line that another line follows.\<close>

fun paragraph_lines :: "string list \<Rightarrow> string list" where
  "paragraph_lines (l # b # m # ls) =
     (if list_all is_blank b then [l] else l # paragraph_lines (b # m # ls))"
| "paragraph_lines ls = ls"

definition first_paragraph :: "string \<Rightarrow> string" where
  "first_paragraph s = join_on [NL] (paragraph_lines (split_on NL s))"

definition quote_char :: char where
  "quote_char = CHR 0x27"

definition drop_location :: "string \<Rightarrow> string" where
  "drop_location s =
     (let pre = ''Package '' @ [quote_char];
          name = takeWhile (\<lambda>c. c \<noteq> quote_char) (drop (length pre) s);
          rest = drop (length pre + length name) s;
          mid = quote_char # '' in /nix/store/'';
          path = takeWhile (\<lambda>c. \<not> is_space c) (drop (length mid) rest);
          tail = drop (length mid + length path) rest
      in if starts_with pre s \<and> name \<noteq> [] \<and> starts_with mid rest \<and> path \<noteq> [] \<and>
            (starts_with '' is '' tail \<or> starts_with '' has '' tail)
         then pre @ name @ [quote_char] @ tail else s)"

definition evaluation_summary :: "string \<Rightarrow> string" where
  "evaluation_summary message =
     (let text = resub CSI message in
      case last_error (split_on NL text) of
        None \<Rightarrow> take 500 text
      | Some m \<Rightarrow> take 500 (drop_location (first_paragraph (strip (join_on [NL] m)))))"

section \<open>The link to a package source\<close>

definition is_name_char :: "char \<Rightarrow> bool" where
  "is_name_char c \<longleftrightarrow> in_range 48 57 c \<or> in_range 65 90 c \<or> in_range 97 122 c \<or>
     c = CHR ''_'' \<or> c = CHR ''.'' \<or> c = CHR ''-''"

definition line_number :: "string \<Rightarrow> string option" where
  "line_number position =
     (let s = (if position \<noteq> [] \<and> last position = NL then butlast position else position);
          ds = rev (takeWhile is_digit (rev s));
          before = take (length s - length ds) s
      in if ds \<noteq> [] \<and> before \<noteq> [] \<and> last before = CHR '':'' then Some ds else None)"

definition or_empty :: "json option \<Rightarrow> json" where
  "or_empty v = (case v of Some j \<Rightarrow> if truthy j then j else JObj [] | None \<Rightarrow> JObj [])"

definition pin_part :: "runtime \<Rightarrow> json \<Rightarrow> string \<Rightarrow> string result" where
  "pin_part rt pin k = bindr (jget k pin) (\<lambda>v. Inr (case v of None \<Rightarrow> [] | Some j \<Rightarrow> py_str rt j))"

definition position_text :: "json option \<Rightarrow> string result" where
  "position_text pos =
     (if truthy_opt pos then (case the pos of JStr s \<Rightarrow> Inr s | _ \<Rightarrow> Inl (TypeError ''expected string'')) else Inr [])"

definition link_of :: "string list \<Rightarrow> string \<Rightarrow> string \<Rightarrow> string" where
  "link_of parts path position =
     ''https://github.com/'' @ parts ! 0 @ ''/'' @ parts ! 1 @ ''/blob/'' @ parts ! 2 @ ''/'' @
     quote path @ (case line_number position of Some n \<Rightarrow> ''#L'' @ n | None \<Rightarrow> [])"

definition source_link :: "runtime \<Rightarrow> json \<Rightarrow> json \<Rightarrow> string option result" where
  "source_link rt manifest selection =
     bindr (jget ''nixpkgs'' manifest) (\<lambda>p.
     let pin = (case p of None \<Rightarrow> JObj [] | Some j \<Rightarrow> j) in
     bindr (jget ''sourceFile'' selection) (\<lambda>f.
     case (if truthy_opt f then the f else JStr []) of
       JStr path \<Rightarrow>
         if \<not> starts_with ''pkgs/'' path \<or> ''..'' \<in> set (split_on CHR ''/'' path) then Inr None
         else bindr (jget ''type'' pin) (\<lambda>ty.
           if ty \<noteq> Some (JStr ''github'') then Inr None
           else bindr (map_res (pin_part rt pin) [''owner'', ''repo'', ''rev'']) (\<lambda>parts.
             if \<not> list_all (\<lambda>s. s \<noteq> [] \<and> list_all is_name_char s) parts then Inr None
             else bindr (jget ''metadata'' selection) (\<lambda>m.
               bindr (jget ''position'' (or_empty m)) (\<lambda>pos.
               bindr (position_text pos) (\<lambda>position. Inr (Some (link_of parts path position)))))))
     | _ \<Rightarrow> Inr None))"

section \<open>The inventory\<close>

definition ordered_attempts :: "database \<Rightarrow> string \<Rightarrow> attempt list" where
  "ordered_attempts db cid = sort_key (\<lambda>a. (at_created a, at_id a)) (filter (\<lambda>a. at_campaign a = cid) (attempts db))"

definition find_last :: "('a \<Rightarrow> bool) \<Rightarrow> 'a list \<Rightarrow> 'a option" where
  "find_last P xs = find P (rev xs)"

definition build_root :: "database \<Rightarrow> string \<Rightarrow> string \<Rightarrow> attempt option" where
  "build_root db cid drv =
     find_last (\<lambda>a. at_kind a = Build \<and> TBuild drv \<in> set (at_targets a)) (ordered_attempts db cid)"

definition plans_candidate :: "int \<Rightarrow> target \<Rightarrow> bool" where
  "plans_candidate i t = (case t of TPlan j _ \<Rightarrow> j = i | TBuild _ \<Rightarrow> False)"

definition plan_of :: "database \<Rightarrow> string \<Rightarrow> int \<Rightarrow> attempt option" where
  "plan_of db cid i =
     find_last (\<lambda>a. at_kind a = Plan \<and> list_ex (plans_candidate i) (at_targets a)) (ordered_attempts db cid)"

record seen_activity =
  sa_attempt :: attempt
  sa_activity :: activity
  sa_started :: "timestamp option"
  sa_finished :: "timestamp option"

definition activity_time :: "database \<Rightarrow> activity \<Rightarrow> build_time option" where
  "activity_time db v = find (\<lambda>b. bt_attempt b = av_attempt v \<and> bt_activity b = av_activity v) (build_times db)"

definition seen_of :: "database \<Rightarrow> attempt \<Rightarrow> activity \<Rightarrow> seen_activity" where
  "seen_of db a v = \<lparr>sa_attempt = a, sa_activity = v,
     sa_started = map_option bt_started (activity_time db v),
     sa_finished = Option.bind (activity_time db v) bt_finished\<rparr>"

definition seen_activities :: "database \<Rightarrow> string \<Rightarrow> seen_activity list" where
  "seen_activities db cid =
     concat (map (\<lambda>a. map (seen_of db a) (filter (\<lambda>v. av_attempt v = at_id a) (activities db))) (ordered_attempts db cid))"

definition latest_activity :: "database \<Rightarrow> string \<Rightarrow> string option \<Rightarrow> seen_activity option" where
  "latest_activity db cid drv = find_last (\<lambda>s. av_drv (sa_activity s) = drv) (seen_activities db cid)"

definition phases_of :: "database \<Rightarrow> string \<Rightarrow> string option \<Rightarrow> string list" where
  "phases_of db cid drv = sort (remdups (map t_phase (filter (\<lambda>t. Some (t_drv t) = drv \<and>
     list_ex (\<lambda>a. at_id a = t_attempt t \<and> at_campaign a = cid) (attempts db)) (tests db))))"

datatype timing = Build_time | Building | Eval_batch | Batch_time

record catalog_row =
  cr_candidate :: candidate
  cr_classifications :: "(classification \<times> string) list"
  cr_description :: json
  cr_version :: json
  cr_source :: json
  cr_source_url :: "string option"
  cr_reason :: string
  cr_checks :: "string list"
  cr_phase :: "string option"
  cr_duration :: "timestamp option"
  cr_timing :: "timing option"
  cr_time_attempt :: "string option"
  cr_attempt :: "string option"
  cr_log_drv :: "string option"
  cr_last :: "timestamp option"

text \<open>The attempt that a row shows: the latest that built the derivation as a target or was seen
  working on it, else the latest plan.\<close>

definition shown_attempt :: "database \<Rightarrow> string \<Rightarrow> candidate \<Rightarrow> attempt option" where
  "shown_attempt db cid c =
     (let built = Option.bind (c_drv c) (build_root db cid);
          observed = map_option sa_attempt (latest_activity db cid (c_drv c));
          a = (case observed of
                 None \<Rightarrow> built
               | Some ob \<Rightarrow> (case built of None \<Rightarrow> Some ob
                   | Some b \<Rightarrow> if at_created ob > at_created b then Some ob else Some b))
      in case a of Some x \<Rightarrow> Some x | None \<Rightarrow> plan_of db cid (c_id c))"

type_synonym timed = "timestamp option \<times> timing option \<times> string option"

definition activity_timing :: "timestamp \<Rightarrow> seen_activity option \<Rightarrow> timed" where
  "activity_timing now s =
     (case s of
        None \<Rightarrow> (None, None, None)
      | Some s \<Rightarrow> (case sa_started s of
          None \<Rightarrow> (None, None, None)
        | Some st \<Rightarrow> (case sa_finished s of
            Some fi \<Rightarrow> (Some (fi - st), Some Build_time, Some (at_id (sa_attempt s)))
          | None \<Rightarrow> if at_state (sa_attempt s) = At_running \<and> \<not> av_stopped (sa_activity s)
              then (Some (max 0 (now - st)), Some Building, Some (at_id (sa_attempt s)))
              else (None, None, Some (at_id (sa_attempt s))))))"

definition row_timing :: "timestamp \<Rightarrow> seen_activity option \<Rightarrow> attempt option \<Rightarrow> timed" where
  "row_timing now s a =
     (let t = activity_timing now s in
      case (fst t, Option.bind a at_finished) of
        (None, Some fi) \<Rightarrow> (Some (max 0 (fi - at_created (the a))),
          Some (if at_kind (the a) = Plan then Eval_batch else Batch_time), Some (at_id (the a)))
      | _ \<Rightarrow> t)"

definition last_time :: "attempt \<Rightarrow> timestamp" where
  "last_time a = (case at_finished a of Some t \<Rightarrow> if t \<noteq> 0 then t else at_created a | None \<Rightarrow> at_created a)"

definition text_or :: "string option \<Rightarrow> string \<Rightarrow> string" where
  "text_or v d = (case v of Some s \<Rightarrow> if s \<noteq> [] then s else d | None \<Rightarrow> d)"

definition json_or :: "json option \<Rightarrow> json \<Rightarrow> json" where
  "json_or v d = (case v of Some j \<Rightarrow> if truthy j then j else d | None \<Rightarrow> d)"

definition candidate_reason :: "database \<Rightarrow> candidate \<Rightarrow> string" where
  "candidate_reason db c =
     (let failure = Option.bind (c_drv c) (\<lambda>d. Option.bind (find_drv db d) d_failure);
          err = text_or (c_error c) (text_or failure [])
      in if c_state c = Evaluation_error then evaluation_summary err else take 500 err)"

definition recipe_value :: "json option \<Rightarrow> json" where
  "recipe_value r = (case r of None \<Rightarrow> JObj [] | Some j \<Rightarrow> j)"

definition catalog_row_of ::
  "runtime \<Rightarrow> timestamp \<Rightarrow> database \<Rightarrow> string \<Rightarrow> json \<Rightarrow> (classification \<times> string) list \<Rightarrow> candidate \<Rightarrow> catalog_row result" where
  "catalog_row_of rt now db cid manifest ann c =
     bindr (jget ''metadata'' (c_selection c)) (\<lambda>m.
     let meta = or_empty m;
         s = latest_activity db cid (c_drv c);
         a = shown_attempt db cid c;
         t = row_timing now s a
     in bindr (jget ''description'' meta) (\<lambda>description.
        bindr (jget ''version'' (recipe_value (c_recipe c))) (\<lambda>rv.
        bindr (jget ''version'' meta) (\<lambda>mv.
        bindr (jget ''sourceFile'' (c_selection c)) (\<lambda>src.
        bindr (source_link rt manifest (c_selection c)) (\<lambda>url.
          Inr \<lparr>cr_candidate = c, cr_classifications = filter (\<lambda>(r, _). cl_candidate r = c_id c) ann,
            cr_description = json_or description (JStr []), cr_version = json_or rv (json_or mv (JStr [])),
            cr_source = json_or src (JStr []), cr_source_url = url, cr_reason = candidate_reason db c,
            cr_checks = (if c_state c \<noteq> Excluded then phases_of db cid (c_drv c) else []),
            cr_phase = Option.bind s (\<lambda>s. av_phase (sa_activity s)),
            cr_duration = fst t, cr_timing = fst (snd t), cr_time_attempt = snd (snd t),
            cr_attempt = map_option at_id a,
            cr_log_drv = (case (a, s) of (Some a, Some s) \<Rightarrow>
                if at_kind a = Build \<and> at_id a = av_attempt (sa_activity s) then c_drv c else None
              | _ \<Rightarrow> None),
            cr_last = map_option last_time a\<rparr>))))))"

record catalog_view =
  cv_campaign :: string
  cv_rows :: "catalog_row list"
  cv_now :: timestamp
  cv_cursor :: int

definition catalog :: "runtime \<Rightarrow> timestamp \<Rightarrow> database \<Rightarrow> string \<Rightarrow> catalog_view result" where
  "catalog rt now db cid =
     (case find_campaign db cid of
        None \<Rightarrow> Inl (ValueError ''unknown campaign'')
      | Some cp \<Rightarrow>
          bindr (classification_index rt db cid None) (\<lambda>ann.
          bindr (map_res (catalog_row_of rt now db cid (cp_manifest cp) ann)
            (sort_key c_label (filter (\<lambda>c. c_campaign c = cid) (candidates db)))) (\<lambda>rows.
            Inr \<lparr>cv_campaign = cid, cv_rows = rows, cv_now = now,
              cv_cursor = fold max (map ev_seq (events db)) 0\<rparr>)))"

section \<open>Planner graphs\<close>

record scratch_file =
  sf_name :: string
  sf_link :: bool
  sf_regular :: bool
  sf_bytes :: nat

type_synonym folders = "(string \<times> scratch_file list) list"

definition GRAPH_FILE :: rx where
  "GRAPH_FILE = rseqs [rlit ''graph-'', rplus (RChar is_digit), rlit ''.'',
     ralts [rlit ''json'', rlit ''json.gz'', rlit ''json.tmp'', rlit ''tmp'']]"

definition prunable :: "scratch_file \<Rightarrow> bool" where
  "prunable f \<longleftrightarrow> starts_with ''graph-'' (sf_name f) \<and> fullmatch GRAPH_FILE (sf_name f) \<and> \<not> sf_link f \<and> sf_regular f"

definition pruned_attempts :: "database \<Rightarrow> timestamp \<Rightarrow> attempt list" where
  "pruned_attempts db cutoff = filter (\<lambda>a. at_kind a = Plan \<and> at_state a = Finished \<and>
     (case at_finished a of Some t \<Rightarrow> t \<le> cutoff | None \<Rightarrow> False)) (attempts db)"

record prune_report =
  pn_dry_run :: bool
  pn_cutoff :: timestamp
  pn_attempts :: nat
  pn_files :: nat
  pn_bytes :: nat

definition folder_files :: "folders \<Rightarrow> string \<Rightarrow> scratch_file list" where
  "folder_files fs aid = (case map_of fs aid of None \<Rightarrow> [] | Some xs \<Rightarrow> xs)"

definition prune_attempt :: "bool \<Rightarrow> attempt \<Rightarrow> prune_report \<Rightarrow> (folders, prune_report) op" where
  "prune_attempt app a r =
     bindM (liftM (\<lambda>_. guardr (canonical_uuid (at_id a)) (ValueError ''invalid attempt UUID''))) (\<lambda>_.
     bindM (getsM (\<lambda>fs. filter prunable (folder_files fs (at_id a)))) (\<lambda>found.
     bindM (whenM app (modifyM (map (\<lambda>(k, xs). (k, if k = at_id a then filter (\<lambda>f. \<not> prunable f) xs else xs))))) (\<lambda>_.
       returnM (r\<lparr>pn_files := pn_files r + length found, pn_bytes := pn_bytes r + sum_list (map sf_bytes found),
         pn_attempts := pn_attempts r + (if found = [] then 0 else 1)\<rparr>))))"

definition prune_plans :: "database \<Rightarrow> timestamp \<Rightarrow> bool \<Rightarrow> (folders, prune_report) op" where
  "prune_plans db now app =
     (let cutoff = now - 86400 in
      foldM (prune_attempt app) (pruned_attempts db cutoff)
        \<lparr>pn_dry_run = \<not> app, pn_cutoff = cutoff, pn_attempts = 0, pn_files = 0, pn_bytes = 0\<rparr>)"

end
