(* ===== verification/CatalogGuarantees.thy ===== *)
theory CatalogGuarantees
  imports Catalog Samples
begin

text \<open>
  Properties of the package inventory, of the summaries of evaluation errors and of the removal
  of consumed planner graphs.
\<close>

section \<open>Summaries of errors\<close>

lemma paragraph_head: "\<exists>rest. paragraph_lines (l # ls) = l # rest"
  by (induction "l # ls" rule: paragraph_lines.induct) auto

lemma split_on_hd: "c \<noteq> x \<Longrightarrow> \<exists>w ws. split_on c (x # xs) = (x # w) # ws"
  by (auto split: list.splits)

lemma first_paragraph_hd:
  assumes "s \<noteq> []" and "hd s \<noteq> NL"
  shows "\<exists>t. first_paragraph s = hd s # t"
proof -
  obtain w ws where "split_on NL s = (hd s # w) # ws"
    using assms split_on_hd [of NL "hd s" "tl s"] by (cases s) auto
  then obtain rest where "first_paragraph s = join_on [NL] ((hd s # w) # rest)"
    using paragraph_head [of "hd s # w" ws] by (auto simp: first_paragraph_def)
  then show ?thesis by (cases rest) auto
qed

lemma drop_location_nonempty: "s \<noteq> [] \<Longrightarrow> drop_location s \<noteq> []"
  by (auto simp: drop_location_def Let_def)

lemma strip_hd: "s \<noteq> [] \<Longrightarrow> \<not> is_space (hd s) \<Longrightarrow> strip s \<noteq> [] \<and> hd (strip s) = hd s"
proof -
  assume s: "s \<noteq> []" "\<not> is_space (hd s)"
  then obtain c t where c: "s = c # t" "\<not> is_space c" by (cases s) auto
  then have "strip s = rev (dropWhile is_space (rev t @ [c]))"
    by (simp add: strip_def strip_left_def)
  also have "\<dots> = c # rev (dropWhile is_space (rev t))"
    using c(2) by (simp add: dropWhile_append3 dropWhile_append)
  finally show ?thesis using c by simp
qed

lemma last_error_message: "last_error ls = Some m \<Longrightarrow> \<exists>r rs. m = r # rs \<and> r \<noteq> [] \<and> \<not> is_space (hd r)"
  by (induction ls arbitrary: m) (auto simp: error_rest_def Let_def split: option.splits if_splits)

lemma join_on_hd: "r \<noteq> [] \<Longrightarrow> join_on sep (r # rs) \<noteq> [] \<and> hd (join_on sep (r # rs)) = hd r"
  by (cases rs) auto

lemma summary_of_error:
  assumes "last_error (split_on NL (resub CSI text)) = Some m"
  shows "evaluation_summary text \<noteq> []"
proof -
  obtain r rs where m: "m = r # rs" "r \<noteq> []" "\<not> is_space (hd r)" using last_error_message [OF assms] by blast
  let ?d = "join_on [NL] m"
  have d: "?d \<noteq> []" "hd ?d = hd r" using join_on_hd [OF m(2)] m(1) by auto
  have "strip ?d \<noteq> []" "hd (strip ?d) = hd r" using strip_hd [OF d(1)] d(2) m(3) by auto
  moreover have "hd r \<noteq> NL" using m(3) by (auto simp: is_space_def NL_def)
  ultimately have "first_paragraph (strip ?d) \<noteq> []" using first_paragraph_hd [of "strip ?d"] by auto
  then show ?thesis using assms by (simp add: evaluation_summary_def drop_location_nonempty)
qed

lemma summary_bounded: "length (evaluation_summary text) \<le> 500"
  by (simp add: evaluation_summary_def Let_def split: option.splits)

section \<open>Planner graphs\<close>

definition without :: "bool \<Rightarrow> string set \<Rightarrow> folders \<Rightarrow> folders" where
  "without app ids fs = map (\<lambda>(k, xs). (k, filter (\<lambda>f. \<not> (app \<and> k \<in> ids \<and> prunable f)) xs)) fs"

lemma without_folder: "folder_files (without app ids fs) aid = filter (\<lambda>f. \<not> (app \<and> aid \<in> ids \<and> prunable f)) (folder_files fs aid)"
  unfolding without_def folder_files_def by (induction fs) auto

lemma without_empty: "without app {} fs = fs"
  by (auto simp: without_def map_idI)

definition prunable_files :: "folders \<Rightarrow> string \<Rightarrow> scratch_file list" where
  "prunable_files fs aid = filter prunable (folder_files fs aid)"

definition pruned_files :: "folders \<Rightarrow> attempt list \<Rightarrow> scratch_file list" where
  "pruned_files fs as = concat (map (\<lambda>a. prunable_files fs (at_id a)) as)"

lemma prune_attempt_run:
  "prune_attempt app a r fs =
     (if canonical_uuid (at_id a) then
       (Inr (r\<lparr>pn_files := pn_files r + length (prunable_files fs (at_id a)),
          pn_bytes := pn_bytes r + sum_list (map sf_bytes (prunable_files fs (at_id a))),
          pn_attempts := pn_attempts r + (if prunable_files fs (at_id a) = [] then 0 else 1)\<rparr>),
        without app {at_id a} fs)
      else (Inl (ValueError ''invalid attempt UUID''), fs))"
proof -
  have "map (\<lambda>(k, xs). (k, if k = i then filter (\<lambda>f. \<not> prunable f) xs else xs)) fs = without True {i} fs" for i
    by (auto simp: without_def)
  moreover have "without False ids fs = fs" for ids by (auto simp: without_def map_idI)
  ultimately show ?thesis
    by (simp add: prune_attempt_def bindM_def liftM_def getsM_def whenM_def modifyM_def returnM_def prunable_files_def guardr_def)
qed

lemma prunable_without:
  "i \<notin> ids \<Longrightarrow> prunable_files (without app ids fs) i = prunable_files fs i"
  by (simp add: prunable_files_def without_folder)

lemma prune_loop:
  assumes "foldM (prune_attempt app) as r fs = (Inr r', fs')" and "distinct (map at_id as)"
  shows "fs' = without app (at_id ` set as) fs \<and> pn_files r' = pn_files r + length (pruned_files fs as) \<and>
    pn_bytes r' = pn_bytes r + sum_list (map sf_bytes (pruned_files fs as)) \<and> pn_dry_run r' = pn_dry_run r \<and> pn_cutoff r' = pn_cutoff r"
  using assms
proof (induction as arbitrary: r fs)
  case Nil
  then show ?case by (simp add: returnM_def without_empty pruned_files_def)
next
  case (Cons a as)
  let ?fs = "without app {at_id a} fs"
  from Cons.prems(1) obtain r1 where r1: "prune_attempt app a r fs = (Inr r1, ?fs)" "foldM (prune_attempt app) as r1 ?fs = (Inr r', fs')"
    using prune_attempt_run [of app a r fs] by (auto simp: bindM_def split: if_splits)
  have "without app (at_id ` set as) ?fs = without app (at_id ` set (a # as)) fs"
    by (simp add: without_def comp_def split_beta) (auto intro!: filter_cong)
  moreover have "pruned_files ?fs as = pruned_files fs as"
    unfolding pruned_files_def using Cons.prems(2)
    by (intro arg_cong [where f = concat] map_cong refl prunable_without) (auto simp: image_iff)
  moreover have "distinct (map at_id as)" using Cons.prems(2) by simp
  ultimately show ?case using Cons.IH [OF r1(2)] r1(1)
    by (auto simp: prune_attempt_run pruned_files_def split: if_splits)
qed

section \<open>Rows of the inventory\<close>

lemma find_in_set: "find P xs = Some x \<Longrightarrow> x \<in> set xs \<and> P x"
  by (induction xs) (auto split: if_splits)

lemma find_last_Some: "find_last P xs = Some x \<Longrightarrow> x \<in> set xs \<and> P x"
  using find_in_set [of P "rev xs" x] by (simp add: find_last_def)

lemma set_ordered_attempts: "a \<in> set (ordered_attempts db cid) \<longleftrightarrow> a \<in> set (attempts db) \<and> at_campaign a = cid"
  by (auto simp: ordered_attempts_def)

lemma seen_activity_from:
  assumes "s \<in> set (seen_activities db cid)"
  shows "sa_attempt s \<in> set (attempts db)" "at_campaign (sa_attempt s) = cid" "sa_activity s \<in> set (activities db)"
    "av_attempt (sa_activity s) = at_id (sa_attempt s)" "s = seen_of db (sa_attempt s) (sa_activity s)"
  using assms by (auto simp: seen_activities_def set_ordered_attempts seen_of_def)

lemma shown_attempt_from: "shown_attempt db cid c = Some a \<Longrightarrow> a \<in> set (attempts db) \<and> at_campaign a = cid"
  unfolding shown_attempt_def latest_activity_def build_root_def plan_of_def Let_def
  by (auto split: option.splits if_splits bind_splits dest!: find_last_Some
      simp: set_ordered_attempts seen_activity_from)

lemma row_timing_built:
  assumes "row_timing now s a = (d, Some Build_time, i)"
  shows "\<exists>x st fi. s = Some x \<and> sa_started x = Some st \<and> sa_finished x = Some fi \<and> d = Some (fi - st) \<and> i = Some (at_id (sa_attempt x))"
  using assms by (auto simp: row_timing_def activity_timing_def Let_def split: option.splits if_splits prod.splits)

lemma catalog_row_fields:
  assumes "catalog_row_of rt now db cid manifest ann c = Inr row"
  shows "cr_candidate row = c" "cr_attempt row = map_option at_id (shown_attempt db cid c)"
    "(cr_duration row, cr_timing row, cr_time_attempt row) = row_timing now (latest_activity db cid (c_drv c)) (shown_attempt db cid c)"
    "length (cr_reason row) \<le> 500"
  using assms by (auto simp: catalog_row_of_def Let_def bindr_eq_Inr candidate_reason_def summary_bounded)

lemma map_res_rows: "map_res f xs = Inr ys \<Longrightarrow> (\<And>x y. f x = Inr y \<Longrightarrow> g y = x) \<Longrightarrow> map g ys = xs"
  by (induction xs arbitrary: ys) (auto simp: bindr_eq_Inr)

lemma seen_times:
  assumes "sa_started (seen_of db a v) = Some st" and "sa_finished (seen_of db a v) = Some fi"
  shows "\<exists>b \<in> set (build_times db). bt_attempt b = av_attempt v \<and> bt_activity b = av_activity v \<and>
    bt_started b = st \<and> bt_finished b = Some fi"
proof -
  obtain b :: build_time where b: "activity_time db v = Some b" "bt_started b = st" "bt_finished b = Some fi"
    using assms by (auto simp: seen_of_def)
  then have "b \<in> set (build_times db) \<and> bt_attempt b = av_attempt v \<and> bt_activity b = av_activity v"
    unfolding activity_time_def by (rule_tac find_in_set)
  then show ?thesis using b by blast
qed

lemma row_attempt:
  "catalog_row_of rt now db cid manifest ann c = Inr row \<Longrightarrow> cr_attempt row = Some i \<Longrightarrow>
   \<exists>a \<in> set (attempts db). at_id a = i \<and> at_campaign a = cid"
proof -
  assume "catalog_row_of rt now db cid manifest ann c = Inr row" "cr_attempt row = Some i"
  then obtain a where "shown_attempt db cid c = Some a" "at_id a = i" using catalog_row_fields(2) by fastforce
  then show ?thesis using shown_attempt_from by blast
qed

lemma row_build_time:
  assumes c: "catalog_row_of rt now db cid manifest ann c = Inr row" and "cr_timing row = Some Build_time"
  shows "\<exists>a \<in> set (attempts db). \<exists>x \<in> set (activities db). \<exists>b \<in> set (build_times db). \<exists>fi.
    at_campaign a = cid \<and> av_attempt x = at_id a \<and> av_drv x = c_drv (cr_candidate row) \<and>
    bt_attempt b = at_id a \<and> bt_activity b = av_activity x \<and> bt_finished b = Some fi \<and>
    cr_duration row = Some (fi - bt_started b) \<and> cr_time_attempt row = Some (at_id a)"
proof -
  have "row_timing now (latest_activity db cid (c_drv c)) (shown_attempt db cid c) =
      (cr_duration row, Some Build_time, cr_time_attempt row)"
    using catalog_row_fields(3) [OF c] assms(2) by simp
  from row_timing_built [OF this] obtain s st fi where s: "latest_activity db cid (c_drv c) = Some s"
      "sa_started s = Some st" "sa_finished s = Some fi" "cr_duration row = Some (fi - st)"
      "cr_time_attempt row = Some (at_id (sa_attempt s))" by blast
  have from_seen: "s \<in> set (seen_activities db cid)" "av_drv (sa_activity s) = c_drv c"
    using s(1) by (auto simp: latest_activity_def dest!: find_last_Some)
  note s_facts = seen_activity_from [OF from_seen(1)]
  obtain b where "b \<in> set (build_times db)" "bt_attempt b = at_id (sa_attempt s)" "bt_activity b = av_activity (sa_activity s)"
      "bt_started b = st" "bt_finished b = Some fi"
    using seen_times [of db "sa_attempt s" "sa_activity s" st fi] s(2,3) s_facts by metis
  then show ?thesis using s s_facts from_seen(2) catalog_row_fields(1) [OF c] by metis
qed

section \<open>Links\<close>

lemma starts_with_append: "starts_with p s \<Longrightarrow> \<exists>t. s = p @ t"
  by (metis starts_with_def append_take_drop_id)

lemma line_number_digits: "line_number p = Some n \<Longrightarrow> list_all is_digit n"
  by (auto simp: line_number_def Let_def list_all_iff split: if_splits dest: set_takeWhileD)

lemma quote_pkgs: "quote (''pkgs/'' @ s) = ''pkgs/'' @ quote s"
  unfolding quote_append by (subst quote_plain) (auto simp: url_safe_def)

lemma name_char_url: "is_name_char c \<Longrightarrow> url_text c"
  by (auto simp: is_name_char_def url_text_def url_safe_def in_range_def Let_def)

lemma name_char_slash: "\<not> is_name_char CHR ''/''"
  by (simp add: is_name_char_def in_range_def)

lemma digit_url: "is_digit c \<Longrightarrow> url_text c"
  by (auto simp: is_digit_def url_text_def url_safe_def Let_def)

lemma source_link_parts:
  "source_link rt manifest selection = Inr (Some url) \<Longrightarrow>
   \<exists>path parts position. url = link_of parts path position \<and> length parts = 3 \<and>
     starts_with ''pkgs/'' path \<and> ''..'' \<notin> set (split_on CHR ''/'' path) \<and>
     list_all (\<lambda>s. s \<noteq> [] \<and> list_all is_name_char s) parts"
  unfolding source_link_def Let_def
  by (auto simp: bindr_eq_Inr simp del: map_res.simps split: if_splits json.splits dest: map_res_length)
    (fastforce dest: map_res_length)+

definition link_char :: "char \<Rightarrow> bool" where
  "link_char c \<longleftrightarrow> url_text c \<or> c = CHR '':'' \<or> c = CHR ''#''"

lemma link_words:
  "list_all link_char ''https://github.com/''" "list_all link_char ''/''" "list_all link_char ''/blob/''"
  "list_all link_char ''/pkgs/''" "list_all link_char ''#L''"
  by (simp_all add: link_char_def url_text_def url_safe_def)

section \<open>Properties\<close>

text \<open>The inventory has one row per candidate of the campaign in the order of the labels, every
  attempt it names belongs to the campaign, and a time is called a build time only when the
  named attempt recorded start and end of an activity for that very derivation.\<close>

theorem catalog_rows_honest:
  assumes "catalog rt now db cid = Inr v"
  shows "map cr_candidate (cv_rows v) = sort_key c_label (filter (\<lambda>c. c_campaign c = cid) (candidates db)) \<and>
    (\<forall>row \<in> set (cv_rows v).
      (\<forall>i. cr_attempt row = Some i \<longrightarrow> (\<exists>a \<in> set (attempts db). at_id a = i \<and> at_campaign a = cid)) \<and>
      (cr_timing row = Some Build_time \<longrightarrow>
        (\<exists>a \<in> set (attempts db). \<exists>x \<in> set (activities db). \<exists>b \<in> set (build_times db). \<exists>fi.
          at_campaign a = cid \<and> av_attempt x = at_id a \<and> av_drv x = c_drv (cr_candidate row) \<and>
          bt_attempt b = at_id a \<and> bt_activity b = av_activity x \<and> bt_finished b = Some fi \<and>
          cr_duration row = Some (fi - bt_started b) \<and> cr_time_attempt row = Some (at_id a))))"
proof -
  obtain cp :: campaign and ann where rows: "map_res (catalog_row_of rt now db cid (cp_manifest cp) ann)
      (sort_key c_label (filter (\<lambda>c. c_campaign c = cid) (candidates db))) = Inr (cv_rows v)"
    using assms by (auto simp: catalog_def bindr_eq_Inr split: option.splits)
  have "map cr_candidate (cv_rows v) = sort_key c_label (filter (\<lambda>c. c_campaign c = cid) (candidates db))"
    by (rule map_res_rows [OF rows]) (rule catalog_row_fields)
  moreover have "\<exists>c. catalog_row_of rt now db cid (cp_manifest cp) ann c = Inr row" if "row \<in> set (cv_rows v)" for row
    using map_res_Inr_set [OF rows that] by blast
  ultimately show ?thesis
    by (intro conjI ballI allI impI) (assumption, metis row_attempt, metis row_build_time)
qed

definition timed_attempt :: attempt where
  "timed_attempt = (new_attempt 1 ''00000000-0000-4000-8000-000000000001'' sample_campaign Build [TBuild ''d1'']
     (make_spec sample_campaign Build [TBuild ''d1''] sample_policy no_extra))\<lparr>at_state := Finished, at_finished := Some 9\<rparr>"

definition timed_db :: database where
  "timed_db = sample_db\<lparr>
     campaigns := [sample_campaign\<lparr>cp_manifest := JObj []\<rparr>],
     candidates := [sample_candidate 1 Available (Some ''d1'')],
     attempts := [timed_attempt],
     activities := [\<lparr>av_attempt = at_id timed_attempt, av_activity = ''7'', av_drv = Some ''d1'', av_kind = None, av_phase = None,
       av_checks = [], av_stopped = True\<rparr>],
     build_times := [\<lparr>bt_attempt = at_id timed_attempt, bt_activity = ''7'', bt_started = 3, bt_finished = Some 8\<rparr>]\<rparr>"

theorem catalog_rows_honest_witness:
  "\<exists>v row. catalog sample_runtime 9 timed_db ''c1'' = Inr v \<and> cv_rows v = [row] \<and> cr_timing row = Some Build_time \<and>
     (\<exists>b \<in> set (build_times timed_db). \<exists>fi. bt_finished b = Some fi \<and> cr_duration row = Some (fi - bt_started b))"
proof -
  obtain v row where v: "catalog sample_runtime 9 timed_db ''c1'' = Inr v" "cv_rows v = [row]" "cr_timing row = Some Build_time"
  proof -
    have "case catalog sample_runtime 9 timed_db ''c1'' of Inl _ \<Rightarrow> False
        | Inr v \<Rightarrow> (case cv_rows v of [row] \<Rightarrow> cr_timing row = Some Build_time | _ \<Rightarrow> False)" by code_simp
    then show thesis by (auto split: sum.splits list.splits intro: that)
  qed
  then show ?thesis using catalog_rows_honest [OF v(1)] by simp blast
qed

text \<open>C29. Pruning removes exactly the regular planner graph files of planner attempts that finished
  at least a day ago, and only when it is told to apply; everything else in every folder
  stays, and the report counts the files it found and their bytes.\<close>

theorem prune_only_consumed:
  assumes "prune_plans db now app fs = (Inr r, fs')" and "unique_keys at_id (attempts db)"
  shows "map fst fs' = map fst fs \<and>
    folder_files fs' aid = filter (\<lambda>f. \<not> (app \<and> prunable f \<and> (\<exists>a \<in> set (attempts db). at_id a = aid \<and>
       at_kind a = Plan \<and> at_state a = Finished \<and> (\<exists>t. at_finished a = Some t \<and> t + 86400 \<le> now)))) (folder_files fs aid) \<and>
    pn_dry_run r = (\<not> app) \<and>
    pn_files r = length (pruned_files fs (pruned_attempts db (now - 86400))) \<and>
    pn_bytes r = sum_list (map sf_bytes (pruned_files fs (pruned_attempts db (now - 86400))))"
proof -
  let ?as = "pruned_attempts db (now - 86400)"
  have "distinct (map at_id ?as)"
    using assms(2) by (auto simp: pruned_attempts_def unique_keys_def distinct_map inj_on_def)
  then have run: "fs' = without app (at_id ` set ?as) fs" "pn_files r = length (pruned_files fs ?as)"
      "pn_bytes r = sum_list (map sf_bytes (pruned_files fs ?as))" "pn_dry_run r = (\<not> app)"
    using prune_loop assms(1) unfolding prune_plans_def Let_def by fastforce+
  have "aid \<in> at_id ` set ?as \<longleftrightarrow> (\<exists>a \<in> set (attempts db). at_id a = aid \<and> at_kind a = Plan \<and> at_state a = Finished \<and>
      (\<exists>t. at_finished a = Some t \<and> t + 86400 \<le> now))"
    by (auto simp: pruned_attempts_def image_iff le_diff_eq split: option.splits)
  then show ?thesis unfolding run(1) without_folder using run(2-4)
    by (auto simp: without_def intro!: filter_cong)
qed

definition planner_files :: folders where
  "planner_files = [(''00000000-0000-4000-8000-000000000001'',
     [\<lparr>sf_name = ''graph-12.json.gz'', sf_link = False, sf_regular = True, sf_bytes = 40\<rparr>,
      \<lparr>sf_name = ''stderr.log'', sf_link = False, sf_regular = True, sf_bytes = 7\<rparr>])]"

definition planned_db :: database where
  "planned_db = timed_db\<lparr>attempts := [timed_attempt\<lparr>at_kind := Plan\<rparr>]\<rparr>"

theorem prune_only_consumed_witness:
  "\<exists>r fs'. prune_plans planned_db 90000 True planner_files = (Inr r, fs') \<and> pn_files r = 1 \<and> pn_bytes r = 40 \<and>
     map sf_name (folder_files fs' ''00000000-0000-4000-8000-000000000001'') = [''stderr.log'']"
proof -
  obtain r fs' where run: "prune_plans planned_db 90000 True planner_files = (Inr r, fs')"
  proof -
    have "case fst (prune_plans planned_db 90000 True planner_files) of Inl _ \<Rightarrow> False | Inr _ \<Rightarrow> True" by code_simp
    then show thesis
      by (cases "prune_plans planned_db 90000 True planner_files") (auto split: sum.splits intro: that)
  qed
  have files: "map sf_bytes (pruned_files planner_files (pruned_attempts planned_db (90000 - 86400))) = [40]" by code_simp
  then have "length (pruned_files planner_files (pruned_attempts planned_db (90000 - 86400))) = 1"
    by (metis length_map One_nat_def list.size(3,4) Suc_eq_plus1 add_0)
  moreover have "unique_keys at_id (attempts planned_db)" by code_simp
  moreover have "map sf_name (filter (\<lambda>f. \<not> prunable f) (folder_files planner_files ''00000000-0000-4000-8000-000000000001'')) = [''stderr.log'']"
    by code_simp
  moreover have "\<exists>a \<in> set (attempts planned_db). at_id a = ''00000000-0000-4000-8000-000000000001'' \<and>
       at_kind a = Plan \<and> at_state a = Finished \<and> (\<exists>t. at_finished a = Some t \<and> t + 86400 \<le> 90000)"
    by (simp add: planned_db_def timed_attempt_def new_attempt_def)
  ultimately show ?thesis
    using prune_only_consumed [OF run, of "''00000000-0000-4000-8000-000000000001''"] run files by simp
qed

text \<open>A link to a package source leads into \<^verbatim>\<open>pkgs/\<close> of the pinned repository, never up its
  directory tree, and contains no character that could end the link or start markup.\<close>

theorem source_link_confined:
  assumes "source_link rt manifest selection = Inr (Some url)"
  shows "\<exists>owner repo rev path line. url = ''https://github.com/'' @ owner @ ''/'' @ repo @ ''/blob/'' @ rev @ ''/pkgs/'' @ quote path @ line \<and>
    (\<forall>part \<in> {owner, repo, rev}. part \<noteq> [] \<and> CHR ''/'' \<notin> set part) \<and>
    ''..'' \<notin> set (split_on CHR ''/'' path) \<and> (line = [] \<or> (\<exists>n. line = ''#L'' @ n \<and> list_all is_digit n)) \<and>
    list_all link_char url"
proof -
  obtain path parts position where link: "starts_with ''pkgs/'' path" "''..'' \<notin> set (split_on CHR ''/'' path)"
      "list_all (\<lambda>s. s \<noteq> [] \<and> list_all is_name_char s) parts" "length parts = 3" "url = link_of parts path position"
    using source_link_parts [OF assms] by blast
  obtain owner repo rev where parts: "parts = [owner, repo, rev]"
    using link(4) by (auto simp: numeral_3_eq_3 length_Suc_conv)
  obtain rest where path: "path = ''pkgs/'' @ rest" using link(1) starts_with_append by blast
  let ?line = "case line_number position of Some n \<Rightarrow> ''#L'' @ n | None \<Rightarrow> []"
  have line: "?line = [] \<or> (\<exists>n. ?line = ''#L'' @ n \<and> list_all is_digit n)"
    by (auto split: option.splits dest: line_number_digits)
  have url: "url = ''https://github.com/'' @ owner @ ''/'' @ repo @ ''/blob/'' @ rev @ ''/pkgs/'' @ quote rest @ ?line"
    unfolding link(5) link_of_def parts path quote_pkgs by simp
  have chars: "list_all link_char url"
  proof -
    have "list_all link_char owner" "list_all link_char repo" "list_all link_char rev" "list_all link_char (quote rest)"
      using link(3) parts name_char_url quote_safe by (auto simp: list_all_iff link_char_def)
    moreover have "list_all link_char ?line"
    proof (cases "line_number position")
      case (Some n)
      then show ?thesis using line_number_digits [OF Some] link_words(5) digit_url
        by (auto simp: list_all_iff link_char_def)
    qed simp
    ultimately show ?thesis unfolding url by (simp only: list_all_append link_words simp_thms)
  qed
  have up: "''..'' \<notin> set (split_on CHR ''/'' rest)" using link(2) path by simp
  have named: "\<forall>part \<in> {owner, repo, rev}. part \<noteq> [] \<and> CHR ''/'' \<notin> set part"
    using link(3) parts name_char_slash by (auto simp: list_all_iff)
  show ?thesis by (intro exI conjI) (rule url named up line chars)+
qed

definition pinned_manifest :: json where
  "pinned_manifest = JObj [(''nixpkgs'', JObj [(''type'', JStr ''github''), (''owner'', JStr ''NixOS''), (''repo'', JStr ''nixpkgs''), (''rev'', JStr ''abc'')])]"

definition pinned_selection :: json where
  "pinned_selection = JObj [(''sourceFile'', JStr ''pkgs/by-name/a b.nix''), (''metadata'', JObj [(''position'', JStr ''x:12'')])]"

theorem source_link_confined_witness:
  "\<exists>url. source_link sample_runtime pinned_manifest pinned_selection = Inr (Some url) \<and>
     list_all link_char url"
proof -
  have "source_link sample_runtime pinned_manifest pinned_selection
    = Inr (Some ''https://github.com/NixOS/nixpkgs/blob/abc/pkgs/by-name/a%20b.nix#L12'')" by code_simp
  from this source_link_confined [OF this] show ?thesis by blast
qed

text \<open>The summary of an evaluation error has at most 500 characters; when the output has an
  error line with a message it is never empty, and otherwise it is the start of the output
  without its terminal codes.\<close>

theorem summary_readable:
  "length (evaluation_summary text) \<le> 500 \<and>
   (case last_error (split_on NL (resub CSI text)) of
      Some _ \<Rightarrow> evaluation_summary text \<noteq> []
    | None \<Rightarrow> evaluation_summary text = take 500 (resub CSI text))"
  using summary_bounded summary_of_error by (auto simp: evaluation_summary_def Let_def split: option.splits)

end
