(* ===== verification/ClassifierWorker.thy ===== *)
theory ClassifierWorker
  imports Catalog
begin

text \<open>
  The classification worker (second half of \<^verbatim>\<open>experiment/classifications.py\<close>): it collects the
  evidence of a candidate, reserves a request by creating its cache file, asks a provider,
  checks the answer and hands the result to the controller. What the network, the files and
  the controller answer is the record \<open>classify_world\<close>; the state keeps the cache files and, as a
  history, the requests made and the items submitted.
\<close>

section \<open>Rubrics\<close>

definition RUBRICS :: "(string \<times> (string \<times> string) list) list" where
  "RUBRICS =
   [(''showcase'', [
      (''Flagship'',
        ''A recognizable, substantial standalone application, service, language platform or major framework that can headline a software showcase. A thin binding or plugin for one is not itself Flagship.''),
      (''Workhorse'',
        ''A substantial general-purpose tool or reusable library with a broad everyday role, but not a major application or platform. Invisible infrastructure can be Workhorse.''),
      (''Specialist'',
        ''A substantive application, tool or library serving a narrow domain, protocol or workflow rather than a broad everyday role.''),
      (''Supporting'',
        ''A small helper, thin wrapper or binding, plugin, compatibility shim, test fixture or data-only package supporting other software rather than a substantial independent implementation.''),
      (''Unknown'',
        ''The supplied identity and description do not establish the package's own scope well enough to select a tier.'')]),
    (''package'', [
      (''Application'',
        ''An end-user command, interactive application or service; a compiler or build generator alone does not count.''),
      (''Library'',
        ''A reusable programmatic API, module or toolkit; many graph consumers alone do not establish an API.''),
      (''Build tool'',
        ''The package itself builds, compiles, configures or generates software; merely using a build tool does not count.''),
      (''Language runtime'',
        ''A programming-language interpreter, virtual machine or development kit, not merely a binding.''),
      (''FFI or bindings'',
        ''Foreign-function interface, native language bindings or introspection bridge, not simply any C library.''),
      (''Graphics or desktop'',
        ''GUI toolkit, display integration, rendering or image processing is a purpose of the package itself.''),
      (''Audio or video'',
        ''Audio/video encoding, decoding, processing or streaming is a purpose of the package itself.''),
      (''Networking'',
        ''Network protocols, URL transfer or network I/O is functionality of the package itself.''),
      (''Cryptography or TLS'',
        ''Cryptographic primitives or secure transport is functionality of the package itself; this is not a security verdict.''),
      (''Data or compression'',
        ''Database, structured-data/file-format processing or compression is functionality of the package itself.''),
      (''Testing support'',
        ''Provides a test framework, debugging or testing assistance, not merely running its own tests.'')]),
    (''diagnostic'', [
      (''Pointer safety diagnostic'',
        ''An explicit pointer/object/capability safety diagnostic is visible; a signal alone is insufficient.''),
      (''Unsupported assembly'',
        ''The terminal failure explicitly rejects inline or standalone assembly.''),
      (''Missing tool or module'',
        ''The terminal failure explicitly identifies a missing executable, import or dependency.''),
      (''Compiler selection'',
        ''The terminal failure requires a different compiler/toolchain selection.''),
      (''Cross-build configuration'',
        ''The terminal failure requests a host-tool path or cross-configure cache answer.''),
      (''Extension ABI or loader'',
        ''The terminal failure explicitly concerns an incompatible compiled extension or loader boundary.''),
      (''Test assertion'',
        ''A functional assertion or test expectation failed; not just a generic builder wrapper saying failed.''),
      (''Timeout'',
        ''A timeout is the terminal outcome; preserve earlier symptoms separately.''),
      (''Platform evaluation refusal'',
        ''Evaluation refuses a named package or dependency for the requested platform.''),
      (''Broken-package evaluation refusal'',
        ''Evaluation refuses a package or dependency explicitly marked broken.''),
      (''Mechanism unclear'',
        ''The provided terminal diagnostic is too incomplete or generic to identify a specific mechanism.'')]),
    (''patch'', [
      (''Pointer representation'',
        ''Visible changes alter pointer/integer encodings, tags, alignment, allocation or capability-carrying operations; not proof of soundness.''),
      (''Dependency or tool correction'',
        ''Visible changes correct linking, declared dependencies, executable selection or build/host tool scope.''),
      (''Build or cross adaptation'',
        ''Visible changes adapt build/configure/detection behavior for compiler or platform compatibility.''),
      (''Feature restriction'',
        ''Visible changes disable a feature, optional implementation, assembly path or output; not necessarily tests.''),
      (''Test adaptation'',
        ''Visible changes modify test stimulus, expectations or infrastructure, distinct from skipping tests.''),
      (''Test coverage reduction'',
        ''Visible changes disable test phases, remove assertions or exclude test cases.''),
      (''Version workaround'',
        ''Visible changes pin versions, backport a fix or handle an API/version ceiling.''),
      (''Platform integration'',
        ''Visible changes integrate profiles, paths, desktop/display, CPU or system services.'')])]"

definition SHOWCASE_SCOPE :: string where
  "SHOWCASE_SCOPE =
     ''Choose one editorial showcase tier for the named package itself using its supplied identit'' @
     ''y and metadata. Judge breadth and software scope, not quality, popularity, memory safety, '' @
     ''build success or port readiness. Do not inherit a parent project's prominence for a small '' @
     ''binding or plugin. Do not invent adoption figures or missing functionality; use Unknown wh'' @
     ''en scope is unclear.''"

definition SCOPE :: string where
  "SCOPE =
     ''Judge only the named target using supplied evidence. Labels may overlap. Neighbor properti'' @
     ''es are not target properties. Native/host inputs do not prove invocation, runtime linkage,'' @
     '' optionality or source generation. Missing evidence is unknown. Distinguish visible effect'' @
     ''s from comments and referenced unseen code. Diagnose observed mechanisms, not unverified r'' @
     ''oot causes, safety or repair success.''"

lemma rubric_labels: "map (\<lambda>(k, ds). (k, map fst ds)) RUBRICS = DEFINITIONS"
  by (simp add: RUBRICS_def DEFINITIONS_def)

section \<open>World\<close>

datatype http_reply = Replied json | Http_status nat | No_reply string | Not_json

record classify_world =
  cw_log_world :: log_world
  cw_stderr :: "string \<Rightarrow> string option"
  cw_late :: "nat \<Rightarrow> bool"
  cw_patch :: "string \<Rightarrow> (nat \<times> string) option"
  cw_edge_text :: "edge \<Rightarrow> string"
  cw_has_key :: "string \<Rightarrow> bool"
  cw_post :: "string \<Rightarrow> json \<Rightarrow> http_reply"
  cw_raced :: "string \<Rightarrow> bool"
  cw_control :: "string \<Rightarrow> json result"

abbreviation cw_rt :: "classify_world \<Rightarrow> runtime" where
  "cw_rt w \<equiv> lg_rt (cw_log_world w)"

section \<open>Log excerpt\<close>

record scan =
  sc_map :: activity_map
  sc_recent :: "string list"
  sc_findings :: "string list"
  sc_after :: nat
  sc_scanned :: nat
  sc_complete :: bool

definition SCAN_LIMIT :: nat where
  "SCAN_LIMIT = 256 * 1024 * 1024"

lemma line_take_nonempty: "s \<noteq> [] \<Longrightarrow> 0 < n \<Longrightarrow> line_take n s \<noteq> []"
  by (cases s) auto

text \<open>The pieces that successive calls of \<^verbatim>\<open>readline\<close> return.\<close>

function pieces :: "string \<Rightarrow> string list" where
  "pieces s = (if s = [] then [] else let l = line_take MAX_LINE s in l # pieces (drop (length l) s))"
  by auto

termination pieces
  by (relation "measure length") (auto simp: line_take_nonempty MAX_LINE_def)

declare pieces.simps [simp del]

definition push_recent :: "string \<Rightarrow> string list \<Rightarrow> string list" where
  "push_recent x xs = drop (Suc (length xs) - 12) (xs @ [x])"

definition scan_entry :: "string \<Rightarrow> scan \<Rightarrow> scan" where
  "scan_entry line sc =
     (let recent = push_recent line (sc_recent sc);
          hit = ERROR line;
          found = (if hit then sc_findings sc @ recent
                   else if sc_after sc \<noteq> 0 then sc_findings sc @ [line] else sc_findings sc)
      in sc\<lparr>sc_recent := recent, sc_findings := take 120 found,
           sc_after := (if hit then 8 else sc_after sc - 1)\<rparr>)"

fun scan_log :: "classify_world \<Rightarrow> string option \<Rightarrow> string list \<Rightarrow> scan \<Rightarrow> scan" where
  "scan_log w drv [] sc = sc"
| "scan_log w drv (raw # rest) sc =
     (let scanned = sc_scanned sc + length raw in
      if scanned > SCAN_LIMIT \<or> cw_late w scanned then sc\<lparr>sc_scanned := scanned, sc_complete := False\<rparr>
      else (case decode_line (cw_log_world w) raw (sc_scanned sc) (sc_map sc) of (acts, entry) \<Rightarrow>
        let sc' = sc\<lparr>sc_scanned := scanned, sc_map := acts\<rparr> in
        scan_log w drv rest
          (case entry of
             None \<Rightarrow> sc'
           | Some e \<Rightarrow> if le_drv e \<noteq> drv then sc' else scan_entry (last_chars 2000 (le_text e)) sc')))"

definition new_scan :: "database \<Rightarrow> string \<Rightarrow> scan" where
  "new_scan db aid = \<lparr>sc_map = fold (\<lambda>v. dict_set (av_activity v) (av_drv v)) (filter (\<lambda>v. av_attempt v = aid) (activities db)) [],
     sc_recent = [], sc_findings = [], sc_after = 0, sc_scanned = 0, sc_complete = True\<rparr>"

definition excerpt_text :: "scan \<Rightarrow> string" where
  "excerpt_text sc = take 12000 (join_on [NL] (sc_findings sc)) @ [NL] @ ''[scoped tail]'' @ [NL] @
     last_chars 4000 (join_on [NL] (sc_recent sc))"

definition diagnostic_excerpt :: "classify_world \<Rightarrow> database \<Rightarrow> string option \<Rightarrow> string \<Rightarrow> json" where
  "diagnostic_excerpt w db drv aid =
     (if map_option at_state (find_attempt db aid) \<noteq> Some Finished
      then JObj [(''text'', JStr []), (''notice'', JStr ''No finished attempt diagnostic available'')]
      else case cw_stderr w aid of
        None \<Rightarrow> JObj [(''text'', JStr []), (''notice'', JStr ''Retained log unavailable'')]
      | Some bytes \<Rightarrow>
          (let sc = scan_log w drv (pieces bytes) (new_scan db aid) in
           JObj [(''text'', JStr (excerpt_text sc)), (''scan_complete'', JBool (sc_complete sc)),
             (''scanned_bytes'', JInt (int (sc_scanned sc))),
             (''notice'', JStr ''Bounded exact-derivation evidence; missing text is unknown''),
             (''attempt'', JStr aid), (''drv'', text_or_null drv)]))"

section \<open>Evidence of a candidate\<close>

type_synonym work_item = "string \<times> string \<times> json"

definition role_text :: "database \<Rightarrow> string \<Rightarrow> edge \<Rightarrow> json" where
  "role_text db cid e =
     (case map r_role (filter (\<lambda>r. r_campaign r = cid \<and> r_parent r = e_parent e \<and> r_child r = e_child e) (roles db)) of
        [] \<Rightarrow> JNull
      | rs \<Rightarrow> JStr (join_on '','' rs))"

definition direct_inputs :: "classify_world \<Rightarrow> database \<Rightarrow> string \<Rightarrow> string \<Rightarrow> json" where
  "direct_inputs w db cid drv =
     JArr (map (\<lambda>(e, d). JObj [(''drv'', JStr (e_child e)), (''name'', JStr (d_name d)),
         (''outputs'', JStr (cw_edge_text w e)), (''roles'', role_text db cid e)])
       (take 24 (sort_key (\<lambda>(e, d). d_name d)
         (List.map_filter (\<lambda>e. map_option (Pair e) (find_drv db (e_child e))) (filter (\<lambda>e. e_parent e = drv) (edges db))))))"

definition consumer_sample :: "database \<Rightarrow> string \<Rightarrow> string \<Rightarrow> json" where
  "consumer_sample db cid drv =
     JArr (map (\<lambda>l. JObj [(''label'', JStr l)]) (take 12 (sort (concat (map (\<lambda>c.
       map (\<lambda>_. c_label c) (filter (\<lambda>e. Some (e_parent e) = c_drv c \<and> e_child e = drv) (edges db)))
       (filter (\<lambda>c. c_campaign c = cid) (candidates db)))))))"

definition showcase_work :: "candidate \<Rightarrow> work_item result" where
  "showcase_work c =
     bindr (jget ''metadata'' (c_selection c)) (\<lambda>m. Inr (''showcase'', c_label c,
       JObj [(''target'', JStr (c_label c)), (''metadata'', or_empty m),
         (''notice'', JStr ''Package scope only; campaign outcomes are deliberately omitted.'')]))"

definition package_work :: "classify_world \<Rightarrow> database \<Rightarrow> string \<Rightarrow> candidate \<Rightarrow> work_item" where
  "package_work w db cid c =
     (''package'', c_label c,
      JObj ([(''target'', JStr (c_label c)), (''drv'', text_or_null (c_drv c)), (''inventory'', c_selection c),
          (''evaluated_recipe'', recipe_value (c_recipe c)),
          (''notice'', JStr ''Inventory and recipe can differ; absent recipe is unknown, not no dependencies.'')] @
        (case c_drv c of
           None \<Rightarrow> []
         | Some drv \<Rightarrow> if drv = [] then [] else
             [(''direct_inputs'', direct_inputs w db cid drv), (''consumer_sample'', consumer_sample db cid drv),
              (''graph_notice'', JStr ''Bounded build-input neighborhood observed at classification time, not runtime linkage or current blockers.'')])))"

definition row_failure :: "joined_row \<Rightarrow> string option" where
  "row_failure r = Option.bind (snd r) d_failure"

definition diagnostic_subject :: "candidate \<Rightarrow> string" where
  "diagnostic_subject c = text_or (c_drv c) (c_label c)"

definition diagnostic_work :: "classify_world \<Rightarrow> database \<Rightarrow> joined_row \<Rightarrow> work_item" where
  "diagnostic_work w db r =
     (let c = fst r; failure = text_or (row_failure r) []; attempt = text_or (Option.bind (snd r) d_evidence_attempt) [] in
      (''diagnostic'', diagnostic_subject c,
       JObj ([(''target'', JStr (c_label c)), (''drv'', text_or_null (c_drv c)),
           (''recorded_error'', JStr (last_chars 16000 (text_or (c_error c) failure)))] @
         (if failure \<noteq> [] \<and> attempt \<noteq> [] then [(''excerpt'', diagnostic_excerpt w db (c_drv c) attempt)] else []))))"

text \<open>\<^verbatim>\<open>for path in recipe.get("patches", [])\<close>\<close>

definition patch_paths :: "json \<Rightarrow> json list result" where
  "patch_paths recipe =
     bindr (jget ''patches'' recipe) (\<lambda>v. case v of
       None \<Rightarrow> Inr []
     | Some (JArr xs) \<Rightarrow> Inr xs
     | Some (JObj kvs) \<Rightarrow> Inr (map (\<lambda>(k, _). JStr k) kvs)
     | Some (JStr s) \<Rightarrow> Inr (map (\<lambda>c. JStr [c]) s)
     | Some _ \<Rightarrow> Inl (TypeError ''object is not iterable''))"

definition patch_work :: "classify_world \<Rightarrow> string list \<Rightarrow> (string \<times> string) list \<Rightarrow> candidate \<Rightarrow> json \<Rightarrow> work_item list" where
  "patch_work w kinds skip c path =
     (case path of
        JStr p \<Rightarrow>
          if ''patch'' \<notin> set kinds \<or> \<not> starts_with ''/nix/store/'' p \<or> (''patch'', p) \<in> set skip then []
          else (case cw_patch w p of
            Some (n, content) \<Rightarrow> if n \<le> 16000 then
              [(''patch'', p, JObj [(''target'', JStr (c_label c)), (''path'', JStr p), (''content'', JStr content),
                 (''recipe_revision'', (case recipe_value (c_recipe c) of JObj kvs \<Rightarrow>
                    (case map_of kvs ''revision'' of Some v \<Rightarrow> v | None \<Rightarrow> JNull) | _ \<Rightarrow> JNull)),
                 (''notice'', JStr ''Exact immutable recipe patch; classification is not applicability or safety verification.'')])]
              else []
          | None \<Rightarrow> [])
      | _ \<Rightarrow> [])"

text \<open>The generator \<^verbatim>\<open>work\<close>: the items it yields in order; an error is the last element.\<close>

definition work ::
  "classify_world \<Rightarrow> database \<Rightarrow> string \<Rightarrow> joined_row \<Rightarrow> (string \<times> string) list \<Rightarrow> string list \<Rightarrow> work_item result list" where
  "work w db cid r skip kinds =
     (let c = fst r;
          showcase = (if ''showcase'' \<in> set kinds \<and> (''showcase'', c_label c) \<notin> set skip then [showcase_work c] else []);
          package = (if ''package'' \<in> set kinds \<and> (''package'', c_label c) \<notin> set skip
            then [Inr (package_work w db cid c)] else []);
          diagnostic = (if ''diagnostic'' \<in> set kinds \<and> text_or (c_error c) (text_or (row_failure r) []) \<noteq> [] \<and>
              (''diagnostic'', diagnostic_subject c) \<notin> set skip
            then [Inr (diagnostic_work w db r)] else []);
          patches = (case patch_paths (recipe_value (c_recipe c)) of
              Inl e \<Rightarrow> [Inl e]
            | Inr paths \<Rightarrow> map Inr (concat (map (patch_work w kinds skip c) paths)))
      in showcase @ (if set kinds \<subseteq> {''showcase''} then [] else package @ diagnostic @ patches))"

section \<open>Asking a provider\<close>

definition jev_questions :: "string \<Rightarrow> (string \<times> string) list \<Rightarrow> (string \<times> json) list" where
  "jev_questions kind rubric =
     (if kind = ''showcase'' then
        [(''tier'', JObj [(''type'', JStr ''choice''), (''instructions'', JStr SHOWCASE_SCOPE),
           (''criteria'', JObj (map (\<lambda>(l, d). (l, JStr d)) rubric))])]
      else map (\<lambda>(l, d). (l, JObj [(''type'', JStr ''noul''), (''instructions'', JStr (SCOPE @ [NL] @ d)),
          (''criteria'', JObj [(''true'', JStr ''Supplied evidence supports this condition.''),
             (''false'', JStr ''Supplied evidence does not support this condition.'')])])) rubric)"

definition jev_payload :: "string \<Rightarrow> (string \<times> string) list \<Rightarrow> json \<Rightarrow> json" where
  "jev_payload kind rubric evidence =
     JObj [(''model'', JStr (the (map_of MODELS ''jev''))), (''state'', evidence),
       (''questions'', JObj (jev_questions kind rubric))]"

definition openai_prompt :: "runtime \<Rightarrow> string \<Rightarrow> (string \<times> string) list \<Rightarrow> string" where
  "openai_prompt rt kind rubric =
     (if kind = ''showcase'' then SHOWCASE_SCOPE else SCOPE) @ [NL] @
     ''Emit exactly one final_answer JSON object. Do not emit intermediate commentary, draft JSON, repeated JSON, or prose.'' @ [NL] @
     (if kind = ''showcase''
      then ''Return a probability distribution over these mutually exclusive tiers, summing to one:''
      else ''Return your probability estimates for each independently applicable label:'') @ [NL] @
     encode (rt_float rt) (JObj (map (\<lambda>(l, d). (l, JStr d)) rubric))"

definition openai_payload :: "runtime \<Rightarrow> string \<Rightarrow> (string \<times> string) list \<Rightarrow> json \<Rightarrow> json" where
  "openai_payload rt kind rubric evidence =
     JObj [(''model'', JStr (the (map_of MODELS ''openai''))), (''store'', JBool False),
       (''reasoning'', JObj [(''effort'', JStr ''none'')]), (''max_output_tokens'', JInt 4800),
       (''input'', JArr [
         JObj [(''role'', JStr ''system''), (''content'', JStr (openai_prompt rt kind rubric))],
         JObj [(''role'', JStr ''user''), (''content'', JStr (encode (rt_float rt) evidence))]]),
       (''text'', JObj [(''format'', JObj [(''type'', JStr ''json_schema''), (''name'', JStr ''classification''),
         (''strict'', JBool True),
         (''schema'', JObj [(''type'', JStr ''object''),
            (''properties'', JObj (map (\<lambda>(l, _). (l, JObj [(''type'', JStr ''number''), (''minimum'', JInt 0), (''maximum'', JInt 1)])) rubric)),
            (''required'', JArr (map (\<lambda>(l, _). JStr l) rubric)), (''additionalProperties'', JBool False)])])])]"

text \<open>\<^verbatim>\<open>set(v)\<close> as the list of its elements, and \<^verbatim>\<open>for o in v\<close> with \<^verbatim>\<open>o.get(..)\<close>.\<close>

fun unhashable :: "json \<Rightarrow> bool" where
  "unhashable (JArr _) = True"
| "unhashable (JObj _) = True"
| "unhashable _ = False"

fun elements :: "json \<Rightarrow> json list result" where
  "elements (JObj kvs) = Inr (map (\<lambda>(k, _). JStr k) kvs)"
| "elements (JArr xs) = Inr xs"
| "elements (JStr s) = Inr (map (\<lambda>c. JStr [c]) s)"
| "elements _ = Inl (TypeError ''object is not iterable'')"

definition element_set :: "json \<Rightarrow> json list result" where
  "element_set v = bindr (elements v) (\<lambda>xs. if list_ex unhashable xs then Inl (TypeError ''unhashable'') else Inr xs)"

definition get_or :: "string \<Rightarrow> json \<Rightarrow> json \<Rightarrow> json result" where
  "get_or k d v = bindr (jget k v) (\<lambda>x. Inr (case x of None \<Rightarrow> d | Some y \<Rightarrow> y))"

definition best_choice :: "json \<Rightarrow> json \<Rightarrow> bool result" where
  "best_choice answer probabilities =
     bindr (jget ''type'' answer) (\<lambda>ty.
     if ty \<noteq> Some (JStr ''choice'') then Inr False
     else bindr (jget ''choice'' answer) (\<lambda>choice.
       bindr (dict_key (case choice of None \<Rightarrow> JNull | Some j \<Rightarrow> j)) (\<lambda>key.
       case (probabilities, key) of
         (JObj kvs, Some k) \<Rightarrow> (case map_of kvs k of
            None \<Rightarrow> Inr False
          | Some v \<Rightarrow> Inr (probability v = Some (Max (set (List.map_filter (\<lambda>(_, v). probability v) kvs)))))
       | _ \<Rightarrow> Inr False)))"

definition jev_answer :: "string \<Rightarrow> (string \<times> json) list \<Rightarrow> json \<Rightarrow> json result" where
  "jev_answer kind questions raw =
     bindr (jget ''model'' raw) (\<lambda>model.
     bindr (if model \<noteq> map_option JStr (map_of MODELS ''jev'') then Inr False
        else bindr (get_or ''answers'' (JObj []) raw) (\<lambda>answers. bindr (element_set answers) (\<lambda>xs.
          Inr (set xs = set (map (\<lambda>(k, _). JStr k) questions))))) (\<lambda>ok.
     if \<not> ok then Inl (ValueError ''unexpected Jev model or answer schema'')
     else bindr (jindex ''answers'' raw) (\<lambda>answers.
       if kind = ''showcase'' then
         bindr (jindex ''tier'' answers) (\<lambda>answer.
         bindr (jindex ''probabilities'' answer) (\<lambda>probabilities.
         bindr (validate_probabilities probabilities kind) (\<lambda>_.
         bindr (best_choice answer probabilities) (\<lambda>best.
           if best then Inr probabilities else Inl (ValueError ''unexpected Jev tier choice'')))))
       else bindr (jitems answers) (\<lambda>kvs.
         bindr (map_res (\<lambda>(l, x). bindr (jindex ''noul'' x) (\<lambda>v. Inr (l, v))) kvs) (\<lambda>ps. Inr (JObj ps))))))"

text \<open>The members of a list with the given value under a key.\<close>

definition with_value :: "string \<Rightarrow> json \<Rightarrow> json list \<Rightarrow> json list result" where
  "with_value k v xs =
     bindr (map_res (\<lambda>x. bindr (jget k x) (\<lambda>y. Inr (if y = Some v then [x] else []))) xs) (\<lambda>xss. Inr (concat xss))"

definition without_phase :: "json list \<Rightarrow> json list result" where
  "without_phase xs =
     bindr (map_res (\<lambda>x. bindr (jget ''phase'' x) (\<lambda>y. Inr (if y = None \<or> y = Some JNull then [x] else []))) xs)
       (\<lambda>xss. Inr (concat xss))"

definition final_message :: "json \<Rightarrow> json result" where
  "final_message raw =
     bindr (get_or ''output'' (JArr []) raw) (\<lambda>out.
     bindr (elements out) (\<lambda>os.
     bindr (with_value ''type'' (JStr ''message'') os) (\<lambda>messages.
     bindr (with_value ''phase'' (JStr ''final_answer'') messages) (\<lambda>final0.
     bindr (if final0 \<noteq> [] then Inr final0 else without_phase messages) (\<lambda>final.
     case final of
       [o1] \<Rightarrow>
         bindr (get_or ''content'' (JArr []) o1) (\<lambda>content.
         bindr (elements content) (\<lambda>cs.
         bindr (with_value ''type'' (JStr ''refusal'') cs) (\<lambda>refusals.
           if refusals = [] then Inr o1
           else Inl (ValueError ''OpenAI response has no unique non-refused final answer''))))
     | _ \<Rightarrow> Inl (ValueError ''OpenAI response has no unique non-refused final answer''))))))"

definition openai_answer :: "runtime \<Rightarrow> json \<Rightarrow> json result" where
  "openai_answer rt raw =
     bindr (jget ''status'' raw) (\<lambda>status.
     bindr (guardr (status = Some (JStr ''completed'')) (ValueError ''OpenAI response did not complete'')) (\<lambda>_.
     bindr (jget ''model'' raw) (\<lambda>model.
     bindr (guardr (model = map_option JStr (map_of MODELS ''openai'')) (ValueError ''unexpected OpenAI model'')) (\<lambda>_.
     bindr (final_message raw) (\<lambda>message.
     bindr (get_or ''content'' (JArr []) message) (\<lambda>content.
     bindr (elements content) (\<lambda>cs.
     bindr (with_value ''type'' (JStr ''output_text'') cs) (\<lambda>texts.
     bindr (map_res (\<lambda>c. bindr (jindex ''text'' c) (\<lambda>v. case v of JStr s \<Rightarrow> Inr s | _ \<Rightarrow> Inl (TypeError ''expected str''))) texts) (\<lambda>ss.
       case rt_loads rt (concat ss) of None \<Rightarrow> Inl (ValueError ''Expecting value'') | Some v \<Rightarrow> Inr v)))))))))"

definition key_name :: "string \<Rightarrow> string" where
  "key_name provider = (if provider = ''jev'' then ''TYPESAFE_API_KEY'' else ''OPENAI_API_KEY'')"

definition ask :: "classify_world \<Rightarrow> string \<Rightarrow> string \<Rightarrow> json \<Rightarrow> (json \<times> json \<times> json) result" where
  "ask w provider kind evidence =
     (case map_of RUBRICS kind of
        None \<Rightarrow> Inl (KeyError kind)
      | Some rubric \<Rightarrow>
          let payload = (if provider = ''jev'' then jev_payload kind rubric evidence
                         else openai_payload (cw_rt w) kind rubric evidence) in
          if \<not> cw_has_key w (key_name provider) then Inl (ValueError (key_name provider @ '' is not configured''))
          else (case cw_post w provider payload of
             Http_status n \<Rightarrow> Inl (ValueError (provider @ '' HTTP '' @ decimal n @ ''; request not automatically retried''))
           | No_reply m \<Rightarrow> Inl (OSError m)
           | Not_json \<Rightarrow> Inl (ValueError ''Expecting value'')
           | Replied raw \<Rightarrow>
               bindr (if provider = ''jev'' then jev_answer kind (jev_questions kind rubric) raw
                      else openai_answer (cw_rt w) raw) (\<lambda>probabilities.
               bindr (validate_probabilities probabilities kind) (\<lambda>_.
               bindr (get_or ''usage'' (JObj []) raw) (\<lambda>usage.
                 Inr (probabilities, usage, JObj [(''request'', payload), (''response'', raw)]))))))"

section \<open>Submitting\<close>

definition MESSAGE_BUDGET :: nat where
  "MESSAGE_BUDGET = 60000"

definition submit_body :: "runtime \<Rightarrow> string \<Rightarrow> json \<Rightarrow> string" where
  "submit_body rt cid item =
     encode (rt_float rt) (JObj [(''op'', JStr ''classification-import''), (''campaign'', JStr cid), (''item'', item)]) @ [NL]"

definition submit :: "classify_world \<Rightarrow> string \<Rightarrow> json \<Rightarrow> json result" where
  "submit w cid item =
     bindr (guardr (length (submit_body (cw_rt w) cid item) \<le> MESSAGE_BUDGET)
       (ValueError ''classification exceeds controller message budget'')) (\<lambda>_.
     bindr (cw_control w (submit_body (cw_rt w) cid item)) (\<lambda>response.
       case response of
         JObj kvs \<Rightarrow> (case map_of kvs ''error'' of
            Some e \<Rightarrow> Inl (ValueError (py_str (cw_rt w) e))
          | None \<Rightarrow> jindex ''ok'' response)
       | _ \<Rightarrow> Inl (TypeError ''indices'')))"

section \<open>The batch\<close>

record worker_state =
  q_files :: "(string \<times> json) list"
  q_asked :: "string list"
  q_sent :: "json list"

definition EVIDENCE_BUDGET :: nat where
  "EVIDENCE_BUDGET = 48000"

definition request_digest :: "runtime \<Rightarrow> string \<Rightarrow> string \<Rightarrow> json \<Rightarrow> string" where
  "request_digest rt provider kind evidence =
     hash_of rt (JObj [(''provider'', JStr provider), (''model'', JStr (the (map_of MODELS provider))),
       (''question_version'', JStr (the (map_of QUESTION_VERSIONS kind))), (''kind'', JStr kind), (''evidence'', evidence)])"

definition reserved :: json where
  "reserved = JObj [(''error'', JStr ''reserved; delivery unknown'')]"

definition class_name :: "py_error \<Rightarrow> string" where
  "class_name e = (case e of ValueError _ \<Rightarrow> ''ValueError'' | KeyError _ \<Rightarrow> ''KeyError'' | TypeError _ \<Rightarrow> ''TypeError''
     | AttributeError _ \<Rightarrow> ''AttributeError'' | OSError _ \<Rightarrow> ''OSError'' | IntegrityError _ \<Rightarrow> ''IntegrityError''
     | OverflowError _ \<Rightarrow> ''OverflowError'' | RuntimeError _ \<Rightarrow> ''RuntimeError'' | HTTPException _ _ \<Rightarrow> ''HTTPException'')"

fun request_error :: "py_error \<Rightarrow> bool" where
  "request_error (ValueError _) = True"
| "request_error (OSError _) = True"
| "request_error (KeyError _) = True"
| "request_error _ = False"

definition item_of :: "runtime \<Rightarrow> string \<Rightarrow> joined_row \<Rightarrow> work_item \<Rightarrow> string \<Rightarrow> json \<Rightarrow> json \<Rightarrow> json" where
  "item_of rt provider r it source_hash probabilities usage =
     (case it of (kind, subject, evidence) \<Rightarrow>
       JObj [(''candidate'', JInt (c_id (fst r))), (''kind'', JStr kind), (''subject'', JStr subject), (''provider'', JStr provider),
         (''model'', JStr (the (map_of MODELS provider))), (''question_version'', JStr (the (map_of QUESTION_VERSIONS kind))),
         (''source_hash'', JStr source_hash), (''evidence_hash'', JStr (hash_of rt evidence)), (''evidence'', evidence),
         (''probabilities'', probabilities), (''usage'', usage)])"

definition send :: "classify_world \<Rightarrow> string \<Rightarrow> json \<Rightarrow> (worker_state, unit) op" where
  "send w cid item =
     bindM (liftM (\<lambda>_. submit w cid item)) (\<lambda>_. modifyM (\<lambda>s. s\<lparr>q_sent := q_sent s @ [item]\<rparr>))"

definition send_result ::
  "classify_world \<Rightarrow> string \<Rightarrow> string \<Rightarrow> joined_row \<Rightarrow> work_item \<Rightarrow> string \<Rightarrow> json \<Rightarrow> (worker_state, unit) op" where
  "send_result w cid provider r it source_hash result =
     bindM (liftM (\<lambda>_. jindex ''probabilities'' result)) (\<lambda>p.
     bindM (liftM (\<lambda>_. jindex ''usage'' result)) (\<lambda>u.
       send w cid (item_of (cw_rt w) provider r it source_hash p u)))"

definition write_file :: "string \<Rightarrow> json \<Rightarrow> (worker_state, unit) op" where
  "write_file digest v = modifyM (\<lambda>s. s\<lparr>q_files := dict_set digest v (q_files s)\<rparr>)"

definition ask_reserved ::
  "classify_world \<Rightarrow> string \<Rightarrow> string \<Rightarrow> joined_row \<Rightarrow> work_item \<Rightarrow> string \<Rightarrow> string \<Rightarrow> (worker_state, unit) op" where
  "ask_reserved w cid provider r it source_hash digest =
     (case it of (kind, subject, evidence) \<Rightarrow>
       bindM (write_file digest reserved) (\<lambda>_.
       bindM (modifyM (\<lambda>s. s\<lparr>q_asked := q_asked s @ [digest]\<rparr>)) (\<lambda>_.
       case ask w provider kind evidence of
         Inl e \<Rightarrow> if request_error e then write_file digest (JObj [(''error'', JStr (class_name e))]) else raiseM e
       | Inr (p, u, raw) \<Rightarrow>
           bindM (write_file digest (JObj [(''probabilities'', p), (''usage'', u), (''raw'', raw)])) (\<lambda>_.
             send w cid (item_of (cw_rt w) provider r it source_hash p u)))))"

text \<open>One item: the number of requests so far afterwards, or the early return.\<close>

definition run_item ::
  "classify_world \<Rightarrow> string \<Rightarrow> string \<Rightarrow> nat \<Rightarrow> joined_row \<Rightarrow> work_item \<Rightarrow> nat \<Rightarrow> (worker_state, bool \<times> nat) op" where
  "run_item w cid provider limit r it count =
     (case it of (kind, subject, evidence) \<Rightarrow>
       bindM (liftM (\<lambda>_. bindr (source_fields (cw_rt w) r kind) (\<lambda>v. Inr (hash_of (cw_rt w) v)))) (\<lambda>source_hash.
       if length (encode (rt_float (cw_rt w)) evidence) > EVIDENCE_BUDGET then returnM (False, count)
       else let digest = request_digest (cw_rt w) provider kind evidence in
       bindM (getsM (\<lambda>s. map_of (q_files s) digest)) (\<lambda>cached.
       case cached of
         Some result \<Rightarrow>
           bindM (liftM (\<lambda>_. jget ''error'' result)) (\<lambda>e.
             if truthy_opt e then returnM (False, count)
             else bindM (send_result w cid provider r it source_hash result) (\<lambda>_. returnM (False, count)))
       | None \<Rightarrow>
           if count \<ge> limit then returnM (True, count)
           else if cw_raced w digest then bindM (write_file digest reserved) (\<lambda>_. returnM (False, count))
           else bindM (ask_reserved w cid provider r it source_hash digest) (\<lambda>_. returnM (False, Suc count)))))"

fun run_items ::
  "classify_world \<Rightarrow> string \<Rightarrow> string \<Rightarrow> nat \<Rightarrow> joined_row \<Rightarrow> work_item result list \<Rightarrow> nat \<Rightarrow> (worker_state, bool \<times> nat) op" where
  "run_items w cid provider limit r [] count = returnM (False, count)"
| "run_items w cid provider limit r (it # its) count =
     bindM (liftM (\<lambda>_. it)) (\<lambda>it.
     bindM (run_item w cid provider limit r it count) (\<lambda>(stop, count').
       if stop then returnM (True, count') else run_items w cid provider limit r its count'))"

definition skip_of :: "string \<Rightarrow> (classification \<times> string) list \<Rightarrow> candidate \<Rightarrow> (string \<times> string) list" where
  "skip_of provider existing c =
     map (\<lambda>(a, _). (cl_kind a, cl_subject a)) (filter (\<lambda>(a, _). cl_candidate a = c_id c \<and> cl_provider a = provider \<and>
       Some (cl_model a) = map_of MODELS provider \<and> Some (cl_question_version a) = map_of QUESTION_VERSIONS (cl_kind a)) existing)"

fun run_rows ::
  "classify_world \<Rightarrow> database \<Rightarrow> string \<Rightarrow> string \<Rightarrow> nat \<Rightarrow> string list \<Rightarrow> (classification \<times> string) list \<Rightarrow> joined_row list \<Rightarrow> nat \<Rightarrow>
   (worker_state, nat) op" where
  "run_rows w db cid provider limit kinds existing [] count = returnM count"
| "run_rows w db cid provider limit kinds existing (r # rs) count =
     bindM (run_items w cid provider limit r (work w db cid r (skip_of provider existing (fst r)) kinds) count) (\<lambda>(stop, count').
       if stop then returnM count' else run_rows w db cid provider limit kinds existing rs count')"

definition select_rows :: "string list \<Rightarrow> joined_row list \<Rightarrow> joined_row list result" where
  "select_rows labels rows =
     (let missing = sort (remdups (filter (\<lambda>l. l \<notin> c_label ` fst ` set rows) labels)) in
      if labels = [] then Inr rows
      else if missing \<noteq> [] then Inl (ValueError (''unknown package labels: '' @ join_on '', '' missing))
      else Inr (filter (\<lambda>r. c_label (fst r) \<in> set labels) rows))"

definition run_classifier ::
  "classify_world \<Rightarrow> database \<Rightarrow> string \<Rightarrow> string \<Rightarrow> int \<Rightarrow> string list \<Rightarrow> string list \<Rightarrow> (worker_state, nat) op" where
  "run_classifier w db cid provider limit labels kinds =
     bindM (liftM (\<lambda>_. guardr (map_of MODELS provider \<noteq> None \<and> 1 \<le> limit \<and> limit \<le> 1000)
       (ValueError ''invalid classifier provider or request budget''))) (\<lambda>_.
     bindM (liftM (\<lambda>_. guardr (kinds \<noteq> [] \<and> set kinds \<subseteq> fst ` set DEFINITIONS) (ValueError ''invalid classification kinds''))) (\<lambda>_.
     bindM (liftM (\<lambda>_. guardr (find_campaign db cid \<noteq> None) (ValueError ''unknown campaign''))) (\<lambda>_.
     bindM (liftM (\<lambda>_. classification_index (cw_rt w) db cid None)) (\<lambda>existing.
     bindM (liftM (\<lambda>_. select_rows labels (candidate_rows db cid None))) (\<lambda>rows.
       run_rows w db cid provider (nat limit) kinds existing rows 0)))))"

end
