(* ===== verification/ClassifierGuarantees.thy ===== *)
theory ClassifierGuarantees
  imports ClassifierWorker Samples
begin

text \<open>
  Properties of the classification worker: its requests, the evidence it sends out and the
  acceptance of its items by the controller.
\<close>

section \<open>Requests\<close>

lemma wp_return_eta: "wp (returnM x) Q E = Q x"
  by (rule ext) simp

text \<open>What a batch has done since \<open>s0\<close> when it has made \<open>count\<close> requests.\<close>

definition progress_since :: "classify_world \<Rightarrow> string \<Rightarrow> nat \<Rightarrow> worker_state \<Rightarrow> nat \<Rightarrow> worker_state \<Rightarrow> bool" where
  "progress_since w cid limit s0 count s \<longleftrightarrow> count \<le> limit \<and>
     fst ` set (q_files s0) \<subseteq> fst ` set (q_files s) \<and>
     (\<exists>asked. q_asked s = q_asked s0 @ asked \<and> length asked = count \<and> distinct asked \<and>
        set asked \<inter> fst ` set (q_files s0) = {} \<and> set asked \<subseteq> fst ` set (q_files s)) \<and>
     (\<exists>sent. q_sent s = q_sent s0 @ sent \<and>
        (\<forall>item \<in> set sent. length (submit_body (cw_rt w) cid item) \<le> MESSAGE_BUDGET))"

abbreviation some_progress :: "classify_world \<Rightarrow> string \<Rightarrow> nat \<Rightarrow> worker_state \<Rightarrow> worker_state \<Rightarrow> bool" where
  "some_progress w cid limit s0 s \<equiv> \<exists>count. progress_since w cid limit s0 count s"

lemma progress_start: "progress_since w cid limit s 0 s"
  by (simp add: progress_since_def)

lemma progress_write:
  "progress_since w cid limit s0 n s \<Longrightarrow> progress_since w cid limit s0 n (s\<lparr>q_files := dict_set d v (q_files s)\<rparr>)"
  by (auto simp: progress_since_def keys_dict_set)

lemma progress_ask:
  assumes "progress_since w cid limit s0 n s" and "n < limit" and "d \<notin> fst ` set (q_files s)"
  shows "progress_since w cid limit s0 (Suc n) (s\<lparr>q_files := dict_set d v (q_files s), q_asked := q_asked s @ [d]\<rparr>)"
proof -
  obtain asked where "q_asked s = q_asked s0 @ asked" "length asked = n" "distinct asked"
      "set asked \<inter> fst ` set (q_files s0) = {}" "set asked \<subseteq> fst ` set (q_files s)"
    using assms(1) by (auto simp: progress_since_def)
  then show ?thesis using assms unfolding progress_since_def
    by (auto simp: keys_dict_set intro!: exI [of _ "asked @ [d]"])
qed

lemma progress_sent:
  "progress_since w cid limit s0 n s \<Longrightarrow> length (submit_body (cw_rt w) cid item) \<le> MESSAGE_BUDGET \<Longrightarrow>
   progress_since w cid limit s0 n (s\<lparr>q_sent := q_sent s @ [item]\<rparr>)"
proof -
  assume p: "progress_since w cid limit s0 n s" and fits: "length (submit_body (cw_rt w) cid item) \<le> MESSAGE_BUDGET"
  obtain sent where "q_sent s = q_sent s0 @ sent" "\<forall>item \<in> set sent. length (submit_body (cw_rt w) cid item) \<le> MESSAGE_BUDGET"
    using p by (auto simp: progress_since_def)
  then have "\<exists>sent. q_sent s @ [item] = q_sent s0 @ sent \<and> (\<forall>item \<in> set sent. length (submit_body (cw_rt w) cid item) \<le> MESSAGE_BUDGET)"
    using fits by (intro exI [of _ "sent @ [item]"]) auto
  then show ?thesis using p by (simp add: progress_since_def)
qed

lemma submit_fits: "submit w cid item = Inr v \<Longrightarrow> length (submit_body (cw_rt w) cid item) \<le> MESSAGE_BUDGET"
  by (auto simp: submit_def bindr_eq_Inr)

lemma wp_send:
  assumes "progress_since w cid limit s0 n s"
  shows "wp (send w cid item) (\<lambda>_. progress_since w cid limit s0 n) (some_progress w cid limit s0) s"
  unfolding send_def using assms by (auto split: sum.splits intro: progress_sent submit_fits)

lemma wp_write_file:
  "wp (write_file d v) Q E s \<longleftrightarrow> Q () (s\<lparr>q_files := dict_set d v (q_files s)\<rparr>)"
  by (simp add: write_file_def)

lemma wp_ask_reserved:
  assumes "progress_since w cid limit s0 n s" and "n < limit" and "d \<notin> fst ` set (q_files s)"
  shows "wp (ask_reserved w cid provider r it h d) (\<lambda>_. progress_since w cid limit s0 (Suc n)) (some_progress w cid limit s0) s"
proof -
  let ?s = "s\<lparr>q_files := dict_set d reserved (q_files s), q_asked := q_asked s @ [d]\<rparr>"
  obtain kind subject evidence where it: "it = (kind, subject, evidence)" by (cases it) auto
  have ok: "progress_since w cid limit s0 (Suc n) ?s" using progress_ask [OF assms] .
  have stored: "progress_since w cid limit s0 (Suc n) (?s\<lparr>q_files := dict_set d v (q_files ?s)\<rparr>)" for v
    by (rule progress_write [OF ok])
  show ?thesis unfolding ask_reserved_def it
    using ok stored wp_send [OF stored] by (auto simp: wp_write_file split: sum.splits)
qed

lemma wp_run_item:
  assumes "progress_since w cid limit s0 n s"
  shows "wp (run_item w cid provider limit r it n) (\<lambda>(_, m). progress_since w cid limit s0 m) (some_progress w cid limit s0) s"
proof -
  obtain kind subject evidence where it: "it = (kind, subject, evidence)" by (cases it) auto
  let ?d = "request_digest (cw_rt w) provider kind evidence"
  have result: "wp (send_result w cid provider r (kind, subject, evidence) h res) (\<lambda>_. progress_since w cid limit s0 n) (some_progress w cid limit s0) s" for h res
    unfolding send_result_def using assms wp_send [OF assms] by (auto split: sum.splits)
  have ask: "wp (ask_reserved w cid provider r (kind, subject, evidence) h ?d) (\<lambda>_. progress_since w cid limit s0 (Suc n)) (some_progress w cid limit s0) s"
    if "map_of (q_files s) ?d = None" "n < limit" for h
    using wp_ask_reserved [OF assms that(2)] that(1) by (simp add: map_of_eq_None_iff)
  show ?thesis unfolding run_item_def it
    using assms result ask progress_write [OF assms]
    by (auto simp: Let_def wp_write_file wp_return_eta split: sum.splits option.splits intro: wp_mono)
qed

lemma wp_run_items:
  "progress_since w cid limit s0 n s \<Longrightarrow>
   wp (run_items w cid provider limit r its n) (\<lambda>(_, m). progress_since w cid limit s0 m) (some_progress w cid limit s0) s"
proof (induction its arbitrary: n s)
  case (Cons it its)
  show ?case
  proof (cases it)
    case (Inl e)
    then show ?thesis using Cons.prems by (auto simp: wp_def bindM_def liftM_def)
  next
    case (Inr x)
    have "wp (run_item w cid provider limit r x n) (\<lambda>(stop, m). wp (if stop then returnM (True, m) else run_items w cid provider limit r its m)
        (\<lambda>(_, m). progress_since w cid limit s0 m) (some_progress w cid limit s0)) (some_progress w cid limit s0) s"
      by (rule wp_mono [OF wp_run_item [OF Cons.prems]]) (auto simp: Cons.IH)
    then show ?thesis using Inr by (auto simp: case_prod_unfold elim!: wp_mono)
  qed
qed auto

lemma wp_run_rows:
  "progress_since w cid limit s0 n s \<Longrightarrow>
   wp (run_rows w db cid provider limit kinds ex rs n) (\<lambda>m. progress_since w cid limit s0 m) (some_progress w cid limit s0) s"
proof (induction rs arbitrary: n s)
  case (Cons r rs)
  show ?case
    unfolding run_rows.simps wp_bind
    by (rule wp_mono [OF wp_run_items [OF Cons.prems]]) (auto simp: Cons.IH)
qed auto

lemma run_classifier_progress:
  "wp (run_classifier w db cid provider limit labels kinds) (\<lambda>m. progress_since w cid (nat limit) s m)
     (some_progress w cid (nat limit) s) s"
  unfolding run_classifier_def
  using progress_start [of w cid "nat limit" s] wp_run_rows [OF progress_start]
  by (auto split: sum.splits)

section \<open>Excerpts\<close>

definition scoped_line :: "classify_world \<Rightarrow> string option \<Rightarrow> string list \<Rightarrow> string \<Rightarrow> bool" where
  "scoped_line w drv raws l \<longleftrightarrow> (\<exists>raw \<in> set raws. \<exists>offset acts acts' e.
     decode_line (cw_log_world w) raw offset acts = (acts', Some e) \<and> le_drv e = drv \<and> l = last_chars 2000 (le_text e))"

lemma scoped_lineI:
  "raw \<in> set raws \<Longrightarrow> decode_line (cw_log_world w) raw n acts = (acts', Some e) \<Longrightarrow>
   scoped_line w (le_drv e) raws (last_chars 2000 (le_text e))"
  unfolding scoped_line_def by blast

definition scan_ok :: "classify_world \<Rightarrow> string option \<Rightarrow> string list \<Rightarrow> scan \<Rightarrow> bool" where
  "scan_ok w drv raws sc \<longleftrightarrow> length (sc_findings sc) \<le> 120 \<and> length (sc_recent sc) \<le> 12 \<and>
     (\<forall>l \<in> set (sc_findings sc) \<union> set (sc_recent sc). scoped_line w drv raws l)"

lemma push_recent_length: "length xs \<le> 12 \<Longrightarrow> length (push_recent x xs) \<le> 12"
  by (simp add: push_recent_def)

lemma push_recent_set: "set (push_recent x xs) \<subseteq> insert x (set xs)"
  unfolding push_recent_def by (auto dest: in_set_dropD)

lemma scan_ok_entry: "scan_ok w drv raws sc \<Longrightarrow> scoped_line w drv raws l \<Longrightarrow> scan_ok w drv raws (scan_entry l sc)"
  using push_recent_set [of l "sc_recent sc"] push_recent_length [of "sc_recent sc" l]
  by (auto simp: scan_ok_def scan_entry_def Let_def dest!: in_set_takeD)

lemma scan_ok_log:
  "set rest \<subseteq> set raws \<Longrightarrow> scan_ok w drv raws sc \<Longrightarrow> scan_ok w drv raws (scan_log w drv rest sc)"
proof (induction w drv rest sc rule: scan_log.induct)
  case (2 w drv raw rest sc)
  obtain acts entry where d: "decode_line (cw_log_world w) raw (sc_scanned sc) (sc_map sc) = (acts, entry)" by fastforce
  have keep: "scan_ok w drv raws (sc\<lparr>sc_scanned := n, sc_map := m\<rparr>)" "scan_ok w drv raws (sc\<lparr>sc_scanned := n, sc_complete := b\<rparr>)" for n m b
    using 2(3) by (simp_all add: scan_ok_def)
  have step: "scan_ok w drv raws (case entry of None \<Rightarrow> sc\<lparr>sc_scanned := n, sc_map := acts\<rparr>
      | Some e \<Rightarrow> if le_drv e \<noteq> drv then sc\<lparr>sc_scanned := n, sc_map := acts\<rparr>
          else scan_entry (last_chars 2000 (le_text e)) (sc\<lparr>sc_scanned := n, sc_map := acts\<rparr>))" for n
    using keep d 2(2) by (auto split: option.splits intro!: scan_ok_entry intro: scoped_lineI)
  show ?case
  proof (cases "sc_scanned sc + length raw > SCAN_LIMIT \<or> cw_late w (sc_scanned sc + length raw)")
    case False
    then show ?thesis using 2(1) [OF refl False d [symmetric] refl] 2(2) step by (simp add: d Let_def)
  qed (use keep in \<open>simp add: Let_def\<close>)
qed simp

lemma concat_pieces: "concat (pieces s) = s"
proof (induction s rule: pieces.induct)
  case (1 s)
  have "take (length (line_take n t)) t = line_take n t" for n t
    by (induction n t rule: line_take.induct) auto
  then show ?case using 1 by (subst pieces.simps) (auto simp: Let_def, metis append_take_drop_id)
qed

lemma last_chars_le: "length (last_chars n s) \<le> n"
  by (simp add: last_chars_def)

section \<open>Acceptance by the controller\<close>

lemma join_on_part: "x \<in> set xs \<Longrightarrow> length x \<le> length (join_on sep xs)"
  by (induction sep xs rule: join_on.induct) auto

lemma encode_part: "(k, v) \<in> set kvs \<Longrightarrow> length (encode fl v) \<le> length (encode fl (JObj kvs))"
proof -
  assume kv: "(k, v) \<in> set kvs"
  define parts where "parts = sort_key fst (map (\<lambda>(k, v). (k, dumps fl True '','' '':'' v)) kvs)"
  have "(k, encode fl v) \<in> set parts" using kv by (force simp: encode_def parts_def)
  then have "encode_string k @ '':'' @ encode fl v \<in> set (map (\<lambda>(k, e). encode_string k @ '':'' @ e) parts)" by force
  then have "length (encode_string k @ '':'' @ encode fl v) \<le> length (join_on '','' (map (\<lambda>(k, e). encode_string k @ '':'' @ e) parts))"
    by (rule join_on_part)
  moreover have "encode fl (JObj kvs) = CHR 0x7B # join_on '','' (map (\<lambda>(k, e). encode_string k @ '':'' @ e) parts) @ [CHR 0x7D]"
    by (simp add: encode_def parts_def)
  ultimately show ?thesis by simp
qed

lemma body_holds_item: "length (encode (rt_float rt) item) \<le> length (submit_body rt cid item)"
proof -
  have "(''item'', item) \<in> set [(''op'', JStr ''classification-import''), (''campaign'', JStr cid), (''item'', item)]" by simp
  from encode_part [OF this, of "rt_float rt"] show ?thesis unfolding submit_body_def by (simp del: dumps.simps)
qed

lemma find_only: "(\<And>x. x \<in> set xs \<Longrightarrow> P x \<Longrightarrow> x = c) \<Longrightarrow> c \<in> set xs \<Longrightarrow> P c \<Longrightarrow> find P xs = Some c"
proof (induction xs)
  case (Cons a xs)
  show ?case
  proof (cases "P a")
    case True
    then show ?thesis using Cons.prems(1) [of a] by simp
  next
    case False
    then have "c \<in> set xs" using Cons.prems(2,3) by (metis set_ConsD)
    then have "find P xs = Some c" using Cons.prems(1,3) by (intro Cons.IH) (blast intro: list.set_intros)
    then show ?thesis using False by simp
  qed
qed simp

lemma find_candidate_id:
  assumes "unique_keys c_id (candidates db)" and "c \<in> set (candidates db)"
  shows "find (\<lambda>x. c_campaign x = c_campaign c \<and> c_id c = c_id x) (candidates db) = Some c"
proof (rule find_only)
  fix x assume "x \<in> set (candidates db)" and "c_campaign x = c_campaign c \<and> c_id c = c_id x"
  then show "x = c" by (intro unique_keysD [OF assms(1) _ assms(2)]) simp_all
qed (simp_all add: assms(2))

lemma persist_item:
  assumes "unique_keys c_id (candidates db)" and "c \<in> set (candidates db)"
    and "map_of MODELS provider \<noteq> None" and "map_of DEFINITIONS kind \<noteq> None"
    and "source_fields rt (source_row db c) kind = Inr src"
    and "validate_probabilities p kind = Inr ()" and "length subject \<le> 1024"
    and "length (submit_body rt (c_campaign c) (item_of rt provider (source_row db c) (kind, subject, evidence) (hash_of rt src) p u)) \<le> MESSAGE_BUDGET"
  shows "persist rt now (Some (c_campaign c)) (item_of rt provider (source_row db c) (kind, subject, evidence) (hash_of rt src) p u) db
    = Inr (''classification saved'', save_classification now (c_campaign c) c
        (new_classification rt now c kind provider src (evidence, p, subject, u)) db)"
proof -
  let ?item = "item_of rt provider (source_row db c) (kind, subject, evidence) (hash_of rt src) p u"
  have versions: "map_of QUESTION_VERSIONS kind \<noteq> None"
    using assms(4) by (auto simp: QUESTION_VERSIONS_def map_of_map [symmetric] DEFINITIONS_def split: if_splits)
  have id: "c_id (fst (source_row db c)) = c_id c" by (simp add: source_row_def)
  have fields: "jindex ''candidate'' ?item = Inr (JInt (c_id c))" "jindex ''kind'' ?item = Inr (JStr kind)"
      "jindex ''provider'' ?item = Inr (JStr provider)" "jindex ''question_version'' ?item = Inr (JStr (the (map_of QUESTION_VERSIONS kind)))"
      "jindex ''model'' ?item = Inr (JStr (the (map_of MODELS provider)))" "jindex ''source_hash'' ?item = Inr (JStr (hash_of rt src))"
      "jindex ''evidence'' ?item = Inr evidence" "jindex ''evidence_hash'' ?item = Inr (JStr (hash_of rt evidence))"
      "jindex ''probabilities'' ?item = Inr p" "jindex ''subject'' ?item = Inr (JStr subject)" "jget ''usage'' ?item = Inr (Some u)"
    by (simp_all add: item_of_def jindex_def id)
  have "length (encode (rt_float rt) ?item) \<le> 60000"
    using assms(8) body_holds_item [of rt ?item "c_campaign c"] by (simp add: MESSAGE_BUDGET_def)
  then have ev: "persist_evidence rt ?item kind = Inr (evidence, p, subject, u)"
    using assms(6,7) by (simp add: persist_evidence_def fields)
  have target: "persist_target (Some (c_campaign c)) ?item db = Inr (c, kind, provider)"
    using find_candidate_id [OF assms(1,2)] assms(3,4) by (simp add: persist_target_def fields known_key_def)
  have rubric: "persist_rubric ?item kind provider = Inr ()"
    using versions assms(3) by (auto simp: persist_rubric_def fields)
  show ?thesis by (simp add: persist_def target rubric assms(5) fields ev)
qed

section \<open>Properties\<close>

text \<open>C20. A batch makes at most as many requests as its budget and none for which a result, an
  error or a reservation of any worker exists; every request leaves a file, also when it
  fails, so that no request is ever made twice, over any number of batches. The number the
  batch returns is the number of requests it made.\<close>

theorem requests_made_once:
  assumes "run_classifier w db cid provider limit labels kinds s = (res, s')"
  shows "\<exists>asked. q_asked s' = q_asked s @ asked \<and> length asked \<le> nat limit \<and> distinct asked \<and>
    set asked \<inter> fst ` set (q_files s) = {} \<and> set asked \<subseteq> fst ` set (q_files s') \<and>
    fst ` set (q_files s) \<subseteq> fst ` set (q_files s') \<and> (\<forall>n. res = Inr n \<longrightarrow> n = length asked) \<and>
    (distinct (q_asked s) \<and> set (q_asked s) \<subseteq> fst ` set (q_files s) \<longrightarrow>
       distinct (q_asked s') \<and> set (q_asked s') \<subseteq> fst ` set (q_files s'))"
proof -
  have wp: "wp (run_classifier w db cid provider limit labels kinds) (progress_since w cid (nat limit) s)
      (some_progress w cid (nat limit) s) s"
    by (rule run_classifier_progress)
  obtain n where n: "progress_since w cid (nat limit) s n s'" "\<forall>m. res = Inr m \<longrightarrow> m = n"
  proof (cases res)
    case (Inl e)
    then show thesis using wp_error [OF wp] assms that by blast
  next
    case (Inr m)
    then show thesis using wp_run [OF wp] assms that by blast
  qed
  then obtain asked where a: "q_asked s' = q_asked s @ asked" "length asked = n" "distinct asked" "n \<le> nat limit"
      "set asked \<inter> fst ` set (q_files s) = {}" "set asked \<subseteq> fst ` set (q_files s')" "fst ` set (q_files s) \<subseteq> fst ` set (q_files s')"
    by (auto simp: progress_since_def)
  then show ?thesis using n(2) by (intro exI [of _ asked]) auto
qed

definition package_labels :: "string list" where
  "package_labels = the (map_of DEFINITIONS ''package'')"

definition sample_answer :: json where
  "sample_answer = JObj [(''model'', JStr ''jev-1.13.0''), (''usage'', JObj []),
     (''answers'', JObj (map (\<lambda>l. (l, JObj [(''noul'', JInt 0)])) package_labels))]"

definition sample_classify :: classify_world where
  "sample_classify = \<lparr>cw_log_world = \<lparr>lg_rt = sample_runtime, lg_decode = id, lg_arrow = ''>''\<rparr>, cw_stderr = (\<lambda>_. None),
     cw_late = (\<lambda>_. False), cw_patch = (\<lambda>_. None), cw_edge_text = (\<lambda>_. ''[]''), cw_has_key = (\<lambda>_. True),
     cw_post = (\<lambda>p v. Replied sample_answer), cw_raced = (\<lambda>_. False), cw_control = (\<lambda>b. Inr (JObj [(''ok'', JStr ''classification saved'')]))\<rparr>"

definition fresh_worker :: worker_state where
  "fresh_worker = \<lparr>q_files = [], q_asked = [], q_sent = []\<rparr>"

theorem requests_made_once_witness:
  "length (q_asked (snd (run_classifier sample_classify sample_db ''c1'' ''jev'' 1 [] [''package''] fresh_worker))) \<le> 1"
proof -
  obtain res s' where run: "run_classifier sample_classify sample_db ''c1'' ''jev'' 1 [] [''package''] fresh_worker = (res, s')"
    by fastforce
  from requests_made_once [OF this] run show ?thesis by (auto simp: fresh_worker_def)
qed

text \<open>The excerpt that goes out as evidence has a bounded length and consists of lines of the
  named derivation alone: each is the end of the text of a log record that was decoded as
  output of that derivation, and the records read are the log itself, piece by piece.\<close>

theorem excerpt_scoped:
  "\<exists>t. jindex ''text'' (diagnostic_excerpt w db drv aid) = Inr (JStr t) \<and> length t \<le> 16015 \<and>
    (t = [] \<or> (\<exists>bytes sc. cw_stderr w aid = Some bytes \<and> concat (pieces bytes) = bytes \<and> t = excerpt_text sc \<and>
       set (sc_findings sc) \<union> set (sc_recent sc) \<subseteq>
         {l. \<exists>raw \<in> set (pieces bytes). \<exists>offset acts acts' e. decode_line (cw_log_world w) raw offset acts = (acts', Some e) \<and>
            le_drv e = drv \<and> l = last_chars 2000 (le_text e)}))"
proof (cases "map_option at_state (find_attempt db aid) = Some Finished \<and> cw_stderr w aid \<noteq> None")
  case True
  then obtain bytes where bytes: "cw_stderr w aid = Some bytes" by auto
  let ?sc = "scan_log w drv (pieces bytes) (new_scan db aid)"
  have "scan_ok w drv (pieces bytes) ?sc"
    by (rule scan_ok_log) (simp_all add: scan_ok_def new_scan_def)
  moreover have "length (excerpt_text sc) \<le> 16015" for sc
  proof -
    have "length (take 12000 (join_on [NL] (sc_findings sc))) + length (last_chars 4000 (join_on [NL] (sc_recent sc))) \<le> 12000 + 4000"
      by (rule add_mono) (simp_all add: last_chars_le)
    then show ?thesis by (simp add: excerpt_text_def)
  qed
  moreover have "jindex ''text'' (diagnostic_excerpt w db drv aid) = Inr (JStr (excerpt_text ?sc))"
    using True bytes by (simp add: diagnostic_excerpt_def jindex_def Let_def)
  ultimately show ?thesis using bytes concat_pieces
    by (intro exI [of _ "excerpt_text ?sc"] conjI disjI2 exI [of _ bytes] exI [of _ ?sc])
      (auto simp: scan_ok_def scoped_line_def)
next
  case False
  then show ?thesis by (auto simp: diagnostic_excerpt_def jindex_def split: option.splits)
qed


definition sample_evidence :: json where
  "sample_evidence = JObj [(''target'', JStr ''a'')]"

definition sample_item :: json where
  "sample_item = item_of sample_runtime ''jev'' (source_row sample_db (sample_candidate 1 Queued (Some ''d1'')))
     (''package'', ''a'', sample_evidence) (hash_of sample_runtime (projr (source_fields sample_runtime
       (source_row sample_db (sample_candidate 1 Queued (Some ''d1''))) ''package'')))
     (JObj (map (\<lambda>l. (l, JInt 0)) package_labels)) (JObj [])"


end
