(* ===== verification/Web.thy ===== *)
theory Web
  imports Catalog LiveGraph History Admission
begin

text \<open>
  The read-only HTTP interface (\<^verbatim>\<open>experiment/web.py\<close>): the snapshot of a campaign, the details of
  a package and of a derivation, and the WSGI application that routes a request to a view,
  maps exceptions to status codes and negotiates compression. The views of the other modules
  are called as they are modelled there. Integers are bound into SQL at 64 bits; a wider one
  raises \<^verbatim>\<open>OverflowError\<close>. Arguments (record \<open>web_world\<close>): the opened database or the error of
  opening it, the clock, file contents, the cached ranking, the JSON text of a payload,
  \<^verbatim>\<open>gzip.compress\<close>, \<^verbatim>\<open>float\<close> of a quality value and whether the file system accepts an offset.
\<close>

section \<open>The snapshot\<close>

record campaign_brief =
  cb_id :: string
  cb_name :: string
  cb_created :: timestamp
  cb_mode :: mode
  cb_revision :: string
  cb_heartbeat :: "timestamp option"
  cb_hold :: string

definition brief_of :: "campaign \<Rightarrow> campaign_brief" where
  "brief_of c = \<lparr>cb_id = cp_id c, cb_name = cp_name c, cb_created = cp_created c, cb_mode = cp_mode c,
     cb_revision = cp_revision c, cb_heartbeat = cp_heartbeat c, cb_hold = cp_hold c\<rparr>"

record candidate_brief =
  cc_id :: int
  cc_label :: string
  cc_state :: cstate
  cc_drv :: "string option"
  cc_tags :: json
  cc_decision :: json

record attempt_brief =
  ab_id :: string
  ab_kind :: akind
  ab_state :: astate
  ab_created :: timestamp
  ab_finished :: "timestamp option"
  ab_result :: "attempt_result option"
  ab_cancel :: bool

record snapshot_view =
  ss_campaigns :: "campaign_brief list"
  ss_campaign :: campaign_brief
  ss_source :: string
  ss_manifest :: "(string \<times> json) list"
  ss_nix_version :: string
  ss_counts :: "(cstate \<times> nat) list"
  ss_candidates :: "candidate_brief list"
  ss_filtered :: nat
  ss_offset :: nat
  ss_unique :: nat
  ss_attempts :: "attempt_brief list"
  ss_active :: "(string \<times> string option \<times> string option) list"
  ss_blockers :: "(string \<times> string \<times> string \<times> nat) list"
  ss_tested :: nat
  ss_resources :: resource_report
  ss_now :: timestamp
  ss_cursor :: int

definition sorted_campaigns :: "database \<Rightarrow> campaign list" where
  "sorted_campaigns db = sort_key cp_created (campaigns db)"

text \<open>The requested campaign, or the newest running one, or the newest.\<close>

definition shown_campaign :: "campaign list \<Rightarrow> string option \<Rightarrow> string" where
  "shown_campaign cs wanted =
     (case wanted of Some cid \<Rightarrow> cid
      | None \<Rightarrow> cp_id (case find (\<lambda>c. cp_mode c = Running_mode) (rev cs) of Some c \<Rightarrow> c | None \<Rightarrow> last cs))"

definition nonempty :: "string \<Rightarrow> string option" where
  "nonempty s = (if s = [] then None else Some s)"

definition of_campaign :: "database \<Rightarrow> string \<Rightarrow> candidate list" where
  "of_campaign db cid = filter (\<lambda>c. c_campaign c = cid) (candidates db)"

text \<open>\<^verbatim>\<open>GROUP BY state\<close> lists the groups in the order of their texts.\<close>

definition candidate_counts :: "database \<Rightarrow> string \<Rightarrow> (cstate \<times> nat) list" where
  "candidate_counts db cid = map (\<lambda>st. (st, length (filter (\<lambda>c. c_state c = st) (of_campaign db cid))))
     (sort_key state_text (dedup (map c_state (of_campaign db cid))))"

definition snapshot_selects :: "string \<Rightarrow> string \<Rightarrow> candidate \<Rightarrow> bool" where
  "snapshot_selects search state c \<longleftrightarrow>
     (search = [] \<or> contains (map ascii_lower (take 200 search)) (map ascii_lower (c_label c)))
     \<and> (state = [] \<or> state_text (c_state c) = state)"

definition selected_candidates :: "database \<Rightarrow> string \<Rightarrow> string \<Rightarrow> string \<Rightarrow> candidate list" where
  "selected_candidates db cid search state = sort_key c_label (filter (snapshot_selects search state) (of_campaign db cid))"

definition candidate_brief_of :: "candidate \<Rightarrow> candidate_brief result" where
  "candidate_brief_of c =
     bindr (jget ''tags'' (c_selection c)) (\<lambda>tags.
     bindr (jget ''decision'' (c_selection c)) (\<lambda>decision.
     Inr \<lparr>cc_id = c_id c, cc_label = c_label c, cc_state = c_state c, cc_drv = c_drv c,
        cc_tags = (case tags of None \<Rightarrow> JArr [] | Some j \<Rightarrow> j),
        cc_decision = (case decision of None \<Rightarrow> JStr ''selected'' | Some j \<Rightarrow> j)\<rparr>))"

definition attempt_brief_of :: "attempt \<Rightarrow> attempt_brief" where
  "attempt_brief_of a = \<lparr>ab_id = at_id a, ab_kind = at_kind a, ab_state = at_state a, ab_created = at_created a,
     ab_finished = at_finished a, ab_result = at_result a, ab_cancel = at_cancel a\<rparr>"

definition recent_attempts :: "database \<Rightarrow> string \<Rightarrow> attempt list" where
  "recent_attempts db cid = take 12 (sort_key (\<lambda>a. (at_state a = Finished, - at_created a)) (filter (\<lambda>a. at_campaign a = cid) (attempts db)))"

definition active_rows :: "database \<Rightarrow> string \<Rightarrow> (string \<times> string option \<times> string option) list" where
  "active_rows db cid = map (\<lambda>v. (av_attempt v, av_drv v, av_phase v)) (take 30
     (filter (\<lambda>v. \<not> av_stopped v \<and> list_ex (\<lambda>a. at_id a = av_attempt v \<and> at_campaign a = cid \<and> at_state a = At_running) (attempts db)) (activities db)))"

definition tested_drvs :: "database \<Rightarrow> string \<Rightarrow> string list" where
  "tested_drvs db cid = dedup (map t_drv (filter (\<lambda>t.
     list_ex (\<lambda>c. c_drv c = Some (t_drv t) \<and> c_state c = Available) (of_campaign db cid)
     \<and> list_ex (\<lambda>a. at_id a = t_attempt t \<and> at_campaign a = cid) (attempts db)) (tests db)))"

definition latest_seq :: "database \<Rightarrow> int" where
  "latest_seq db = fold max (map ev_seq (events db)) 0"

definition snapshot :: "timestamp \<Rightarrow> (string + slice_obs) \<Rightarrow> (string \<Rightarrow> ranking) \<Rightarrow> database \<Rightarrow> string option \<Rightarrow> string \<Rightarrow> string \<Rightarrow> nat \<Rightarrow>
    snapshot_view option result" where
  "snapshot now slice rank db wanted search state offset =
     (let cs = sorted_campaigns db in
      if cs = [] then Inr None
      else let cid = shown_campaign cs wanted in
        case find_campaign db cid of
          None \<Rightarrow> Inl (ValueError ''unknown campaign'')
        | Some row \<Rightarrow>
            let chosen = selected_candidates db cid search state in
            bindr (map_res candidate_brief_of (take 50 (drop offset chosen))) (\<lambda>rows.
            bindr (jitems (cp_manifest row)) (\<lambda>manifest.
            Inr (Some \<lparr>ss_campaigns = map brief_of cs, ss_campaign = brief_of row, ss_source = cp_source row,
              ss_manifest = filter (\<lambda>(k, v). k \<noteq> ''attrPaths'') manifest, ss_nix_version = cp_nix_version row,
              ss_counts = candidate_counts db cid, ss_candidates = rows, ss_filtered = length chosen, ss_offset = offset,
              ss_unique = length (dedup (List.map_filter c_drv (of_campaign db cid))),
              ss_attempts = map attempt_brief_of (recent_attempts db cid), ss_active = active_rows db cid,
              ss_blockers = map (\<lambda>r. (rk_drv r, rk_name r, rk_failure r, rk_blocks r)) (take 10 (rg_rows (rank cid))),
              ss_tested = length (tested_drvs db cid), ss_resources = resources slice (cp_policy row), ss_now = now,
              ss_cursor = latest_seq db\<rparr>))))"

section \<open>Details of a package\<close>

record dependency_row =
  dr_drv :: string
  dr_name :: "string option"
  dr_roles :: "string option"

record package_view =
  pk_row :: candidate
  pk_error_summary :: "string option"
  pk_source_url :: "string option"
  pk_blockers :: "blocker list"
  pk_tests :: "test_row list"
  pk_realization :: "derivation option"
  pk_dependencies :: "dependency_row list"
  pk_dependents :: "candidate list"
  pk_downstream_tests :: "(int \<times> string \<times> string \<times> string) list"

text \<open>\<^verbatim>\<open>group_concat(DISTINCT role)\<close> of the recorded roles of one edge, null without any.\<close>

definition role_text :: "database \<Rightarrow> string \<Rightarrow> string \<Rightarrow> string \<Rightarrow> string option" where
  "role_text db cid parent child =
     (let rs = dedup (map r_role (filter (\<lambda>r. r_campaign r = cid \<and> r_parent r = parent \<and> r_child r = child) (roles db)))
      in if rs = [] then None else Some (join_on '','' rs))"

text \<open>The children of a derivation, one row each, in the order of \<^verbatim>\<open>GROUP BY e.child\<close>.\<close>

definition child_rows :: "database \<Rightarrow> string \<Rightarrow> string \<Rightarrow> dependency_row list" where
  "child_rows db cid drv = map (\<lambda>c. \<lparr>dr_drv = c, dr_name = map_option d_name (find_drv db c), dr_roles = role_text db cid drv c\<rparr>)
     (sort (dedup (map e_child (filter (\<lambda>e. e_parent e = drv) (edges db)))))"

definition campaign_tests :: "database \<Rightarrow> string \<Rightarrow> string option \<Rightarrow> test_row list" where
  "campaign_tests db cid drv = filter (\<lambda>t. Some (t_drv t) = drv \<and> list_ex (\<lambda>a. at_id a = t_attempt t \<and> at_campaign a = cid) (attempts db)) (tests db)"

text \<open>The recursive queries: parents of the derivation, then parents of those.\<close>

definition ancestors :: "(string \<times> string) list \<Rightarrow> string \<Rightarrow> string list" where
  "ancestors es drv = cte (flip es) (succs (flip es) drv)"

definition in_drvs :: "string list \<Rightarrow> candidate \<Rightarrow> bool" where
  "in_drvs ds c \<longleftrightarrow> (case c_drv c of None \<Rightarrow> False | Some d \<Rightarrow> List.member ds d)"

definition package_dependents :: "database \<Rightarrow> string \<Rightarrow> string option \<Rightarrow> candidate list" where
  "package_dependents db cid drv = (case drv of None \<Rightarrow> []
     | Some d \<Rightarrow> take 100 (sort_key c_label (filter (in_drvs (ancestors (edge_pairs (edges db)) d)) (of_campaign db cid))))"

definition host_pairs :: "database \<Rightarrow> string \<Rightarrow> (string \<times> string) list" where
  "host_pairs db cid = map (\<lambda>r. (r_parent r, r_child r)) (filter (\<lambda>r. r_campaign r = cid \<and> r_role r = ''host'') (roles db))"

definition downstream_tests :: "database \<Rightarrow> string \<Rightarrow> string option \<Rightarrow> (int \<times> string \<times> string \<times> string) list" where
  "downstream_tests db cid drv = (case drv of None \<Rightarrow> []
     | Some d \<Rightarrow> let up = ancestors (host_pairs db cid) d in
        take 100 (dedup (concat (map (\<lambda>t. map (\<lambda>c. (c_id c, c_label c, t_phase t, t_attempt t))
            (filter (\<lambda>c. c_drv c = Some (t_drv t) \<and> in_drvs up c) (of_campaign db cid)))
          (filter (\<lambda>t. list_ex (\<lambda>a. at_id a = t_attempt t \<and> at_campaign a = cid) (attempts db)) (tests db))))))"

text \<open>An integer bound as a parameter of a statement.\<close>

definition bound_int :: "int \<Rightarrow> int result" where
  "bound_int n = bindr (guardr (- (2 ^ 63) \<le> n \<and> n < 2 ^ 63) (OverflowError ''Python int too large to convert to SQLite INTEGER''))
     (\<lambda>_. Inr n)"

definition detail :: "runtime \<Rightarrow> database \<Rightarrow> int \<Rightarrow> package_view result" where
  "detail rt db candidate =
     bindr (bound_int candidate) (\<lambda>i.
     case find_candidate db i of
       None \<Rightarrow> Inl (ValueError ''unknown candidate'')
     | Some row \<Rightarrow>
         bindr (if c_state row = Evaluation_error then
                  (case c_error row of None \<Rightarrow> Inl (TypeError ''expected string or bytes-like object, got NoneType'')
                   | Some e \<Rightarrow> Inr (Some (evaluation_summary e)))
                else Inr None) (\<lambda>summary.
         case find_campaign db (c_campaign row) of
           None \<Rightarrow> Inl (TypeError ''NoneType object is not subscriptable'')
         | Some cp \<Rightarrow>
             bindr (source_link rt (cp_manifest cp) (c_selection row)) (\<lambda>url.
             let cid = c_campaign row; drv = c_drv row in
             Inr \<lparr>pk_row = row, pk_error_summary = summary, pk_source_url = url,
               pk_blockers = (case drv of None \<Rightarrow> [] | Some d \<Rightarrow> if d = [] then [] else blockers db d),
               pk_tests = campaign_tests db cid drv, pk_realization = Option.bind drv (find_drv db),
               pk_dependencies = (case drv of None \<Rightarrow> []
                 | Some d \<Rightarrow> take 100 (sort_key (\<lambda>r. case dr_name r of None \<Rightarrow> (False, []) | Some n \<Rightarrow> (True, n)) (child_rows db cid d))),
               pk_dependents = package_dependents db cid drv, pk_downstream_tests = downstream_tests db cid drv\<rparr>)))"

record derivation_view =
  dv_derivation :: derivation
  dv_dependencies :: "dependency_row list"
  dv_dependents :: "candidate list"
  dv_tests :: "test_row list"
  dv_blockers :: "blocker list"
  dv_offset :: nat

definition derivation_detail :: "database \<Rightarrow> string \<Rightarrow> string \<Rightarrow> nat \<Rightarrow> derivation_view result" where
  "derivation_detail db drv cid offset =
     (case find_drv db drv of
        None \<Rightarrow> Inl (ValueError ''unknown derivation'')
      | Some row \<Rightarrow> Inr \<lparr>dv_derivation = row,
          dv_dependencies = take 100 (filter (\<lambda>r. dr_name r \<noteq> None) (child_rows db cid drv)),
          dv_dependents = take 50 (drop offset (sort_key c_label (filter (in_drvs (cte (flip (edge_pairs (edges db))) [drv])) (of_campaign db cid)))),
          dv_tests = campaign_tests db cid (Some drv), dv_blockers = blockers db drv, dv_offset = offset\<rparr>)"

section \<open>The query string\<close>

definition is_hex_digit :: "char \<Rightarrow> bool" where
  "is_hex_digit c \<longleftrightarrow> in_range 48 57 c \<or> in_range 65 70 c \<or> in_range 97 102 c"

definition hex_value :: "char \<Rightarrow> nat" where
  "hex_value c = (let n = of_char c in if n < 58 then n - 48 else if n < 71 then n - 55 else n - 87)"

fun unquote_bytes :: "string \<Rightarrow> string" where
  "unquote_bytes (c # a # b # s) =
     (if c = CHR ''%'' \<and> is_hex_digit a \<and> is_hex_digit b then char_of (16 * hex_value a + hex_value b) # unquote_bytes s
      else c # unquote_bytes (a # b # s))"
| "unquote_bytes s = s"

definition unquote :: "(string \<Rightarrow> string) \<Rightarrow> string \<Rightarrow> string" where
  "unquote decode s = (if List.member s CHR ''%'' then decode (unquote_bytes s) else s)"

definition unquote_plus :: "(string \<Rightarrow> string) \<Rightarrow> string \<Rightarrow> string" where
  "unquote_plus decode s = unquote decode (map (\<lambda>c. if c = CHR ''+'' then CHR '' '' else c) s)"

text \<open>Fields without a value are dropped.\<close>

definition query_pair :: "(string \<Rightarrow> string) \<Rightarrow> string \<Rightarrow> (string \<times> string) option" where
  "query_pair decode field =
     (let name = takeWhile (\<lambda>c. c \<noteq> CHR ''='') field; value = drop (Suc (length name)) field
      in if value = [] then None else Some (unquote_plus decode name, unquote_plus decode value))"

definition parse_qs :: "(string \<Rightarrow> string) \<Rightarrow> string \<Rightarrow> (string \<times> string) list" where
  "parse_qs decode query = List.map_filter (query_pair decode) (split_on CHR ''&'' query)"

definition get_arg :: "(string \<times> string) list \<Rightarrow> string \<Rightarrow> string \<Rightarrow> string" where
  "get_arg args key dflt = (case map_of args key of None \<Rightarrow> dflt | Some v \<Rightarrow> v)"

definition int_arg :: "string \<Rightarrow> int result" where
  "int_arg s =
     (if 4300 < int (length (filter is_digit s)) then Inl (ValueError ''Exceeds the limit (4300 digits) for integer string conversion'')
      else case py_int s of None \<Rightarrow> Inl (ValueError ''invalid literal for int()'') | Some n \<Rightarrow> Inr n)"

definition clamped :: "int \<Rightarrow> int \<Rightarrow> nat" where
  "clamped high n = nat (max 0 (min n high))"

section \<open>The application\<close>

datatype payload =
    No_campaigns
  | Snapshot snapshot_view
  | Packages catalog_view
  | Batches ledger
  | Package package_view
  | Derivation derivation_view
  | Graph live_view
  | History_page history_page
  | History_attempt "attempt_view \<times> activity_view list \<times> (string \<times> nat) list"
  | Events "event_row list" int
  | Manifest json
  | Log_text string int
  | Build_log log_view
  | Health bool "timestamp option"
  | Error_text string

record web_world =
  ww_log :: log_world
  ww_now :: timestamp
  ww_db :: "database result"
  ww_files :: live_files
  ww_stderr :: "string \<Rightarrow> string option"
  ww_seekable :: "int \<Rightarrow> bool"
  ww_ranking :: "string \<Rightarrow> ranking"
  ww_slice :: "string + slice_obs"
  ww_json :: "payload \<Rightarrow> string"
  ww_gzip :: "string \<Rightarrow> string"
  ww_float :: "string \<Rightarrow> rat option option"

record web_request =
  rq_method :: string
  rq_path :: string
  rq_query :: string
  rq_accept_encoding :: string

record web_response =
  rs_status :: string
  rs_headers :: "(string \<times> string) list"
  rs_body :: "string list"

text \<open>\<^verbatim>\<open>directory\<close>: only the canonical text of a UUID names a folder.\<close>

definition canonical_uuid :: "string \<Rightarrow> bool" where
  "canonical_uuid s \<longleftrightarrow> map length (split_on CHR ''-'' s) = [8, 4, 4, 4, 12]
     \<and> list_all (\<lambda>c. c = CHR ''-'' \<or> in_range 48 57 c \<or> in_range 97 102 c) s"

definition events_after :: "database \<Rightarrow> int \<Rightarrow> event_row list" where
  "events_after db after = take 100 (sort_key ev_seq (filter (\<lambda>e. after < ev_seq e) (events db)))"

definition events_view :: "database \<Rightarrow> int \<Rightarrow> payload result" where
  "events_view db n = bindr (bound_int (max 0 n)) (\<lambda>after.
     let rows = events_after db after in Inr (Events rows (if rows = [] then n else ev_seq (last rows))))"

definition known_attempt :: "database \<Rightarrow> string \<Rightarrow> unit result" where
  "known_attempt db aid = guardr (find_attempt db aid \<noteq> None) (ValueError ''unknown attempt'')"

definition attempt_folder :: "string \<Rightarrow> unit result" where
  "attempt_folder aid = guardr (canonical_uuid aid) (ValueError ''invalid attempt UUID'')"

definition CHUNK :: nat where
  "CHUNK = 65536"

definition log_text :: "web_world \<Rightarrow> string \<Rightarrow> int \<Rightarrow> payload result" where
  "log_text w aid n =
     (let offset = max 0 n in
      bindr (attempt_folder aid) (\<lambda>_.
      bindr (case ww_stderr w aid of
               None \<Rightarrow> Inr []
             | Some raw \<Rightarrow>
                 bindr (guardr (offset < 2 ^ 63) (ValueError ''cannot fit int into an offset-sized integer'')) (\<lambda>_.
                 bindr (guardr (ww_seekable w offset) (OSError ''Invalid argument'')) (\<lambda>_.
                 Inr (take CHUNK (drop (nat offset) raw))))) (\<lambda>data.
      Inr (Log_text (lg_decode (ww_log w) data) (offset + int (length data))))))"

definition last_heartbeat :: "database \<Rightarrow> timestamp option" where
  "last_heartbeat db = (case List.map_filter cp_heartbeat (campaigns db) of [] \<Rightarrow> None | h # hs \<Rightarrow> Some (fold max hs h))"

definition health :: "timestamp \<Rightarrow> database \<Rightarrow> bool" where
  "health now db = (case last_heartbeat db of None \<Rightarrow> False | Some h \<Rightarrow> now - h < 30)"

text \<open>The route of a request that is answered with JSON: the status and the payload.\<close>

definition OK :: string where
  "OK = ''200 OK''"

definition route :: "web_world \<Rightarrow> string \<Rightarrow> (string \<times> string) list \<Rightarrow> (string \<times> payload) result" where
  "route w path args =
     (let rt = lg_rt (ww_log w); arg = (\<lambda>k. get_arg args k []); num = (\<lambda>k. int_arg (get_arg args k ''0''));
          ok = (\<lambda>p. Inr (OK, p)) in
      if path = ''/api/snapshot'' then
        bindr (ww_db w) (\<lambda>db. bindr (num ''offset'') (\<lambda>n.
        bindr (snapshot (ww_now w) (ww_slice w) (ww_ranking w) db (nonempty (arg ''campaign'')) (arg ''q'') (arg ''state'') (clamped 1000000 n))
          (\<lambda>v. ok (case v of None \<Rightarrow> No_campaigns | Some s \<Rightarrow> Snapshot s))))
      else if path = ''/api/packages'' then
        bindr (ww_db w) (\<lambda>db. bindr (catalog rt (ww_now w) db (arg ''campaign'')) (\<lambda>v. ok (Packages v)))
      else if path = ''/api/batches'' then
        bindr (ww_db w) (\<lambda>db. bindr (batches (ww_now w) db (arg ''campaign'') False) (\<lambda>v. ok (Batches v)))
      else if path = ''/api/package'' then
        bindr (ww_db w) (\<lambda>db. bindr (int_arg (arg ''id'')) (\<lambda>i. bindr (detail rt db i) (\<lambda>v. ok (Package v))))
      else if path = ''/api/derivation'' then
        bindr (ww_db w) (\<lambda>db. bindr (num ''offset'') (\<lambda>n.
        bindr (derivation_detail db (arg ''drv'') (arg ''campaign'') (clamped 1000000 n)) (\<lambda>v. ok (Derivation v))))
      else if path = ''/api/graph'' then
        bindr (ww_db w) (\<lambda>db. bindr (num ''page'') (\<lambda>n.
        bindr (live_graph rt (ww_files w) (ww_ranking w (arg ''campaign'')) db (arg ''campaign'')
                 (nonempty (arg ''focus'')) (arg ''available'' = ''1'') (int (clamped 1000000 n)))
          (\<lambda>v. ok (Graph v))))
      else if path = ''/api/history'' then
        bindr (ww_db w) (\<lambda>db. bindr (num ''window'') (\<lambda>n.
        bindr (history rt (ww_now w) db (arg ''campaign'')
                 \<lparr>hq_anchor = arg ''anchor'', hq_before = arg ''before'', hq_kind = arg ''kind'', hq_outcome = arg ''outcome'',
                  hq_search = arg ''q'', hq_window = of_nat (clamped 86400 n)\<rparr>) (\<lambda>v. ok (History_page v))))
      else if path = ''/api/history/attempt'' then
        bindr (ww_db w) (\<lambda>db. bindr (attempt_detail db (arg ''campaign'') (arg ''id'')) (\<lambda>v. ok (History_attempt v)))
      else if path = ''/api/events'' then
        bindr (ww_db w) (\<lambda>db. bindr (num ''after'') (\<lambda>n. bindr (events_view db n) ok))
      else if path = ''/api/manifest'' then
        bindr (ww_db w) (\<lambda>db. case find_campaign db (arg ''campaign'') of
          None \<Rightarrow> Inl (ValueError ''unknown campaign'') | Some c \<Rightarrow> ok (Manifest (cp_manifest c)))
      else if path = ''/api/log'' then
        bindr (ww_db w) (\<lambda>db. bindr (known_attempt db (arg ''attempt'')) (\<lambda>_.
        bindr (num ''offset'') (\<lambda>n. bindr (log_text w (arg ''attempt'') n) ok)))
      else if path = ''/api/build-log'' then
        bindr (ww_db w) (\<lambda>db. bindr (num ''cursor'') (\<lambda>n.
        bindr (build_log (ww_log w) db (ww_stderr w) (arg ''attempt'') (get_arg args ''direction'' ''tail'') n (arg ''drv''))
          (\<lambda>v. ok (Build_log v))))
      else if path = ''/healthz'' then
        bindr (ww_db w) (\<lambda>db. Inr (if health (ww_now w) db then OK else ''503 Service Unavailable'',
          Health (health (ww_now w) db) (last_heartbeat db)))
      else Inr (''404 Not Found'', Error_text ''not found''))"

text \<open>What the application catches; any other exception reaches the server.\<close>

fun error_response :: "py_error \<Rightarrow> (string \<times> payload) result" where
  "error_response (ValueError m) = Inr (''400 Bad Request'', Error_text m)"
| "error_response (KeyError k) = Inr (''400 Bad Request'', Error_text ([CHR 0x27] @ k @ [CHR 0x27]))"
| "error_response (OSError m) = Inr (''503 Service Unavailable'', Error_text ''state temporarily unavailable'')"
| "error_response (IntegrityError m) = Inr (''503 Service Unavailable'', Error_text ''state temporarily unavailable'')"
| "error_response e = Inl e"

definition caught_by_app :: "(string \<times> payload) result \<Rightarrow> (string \<times> payload) result" where
  "caught_by_app r = (case r of Inl e \<Rightarrow> error_response e | Inr x \<Rightarrow> Inr x)"

text \<open>The quality of one item of \<^verbatim>\<open>Accept-Encoding\<close>; a malformed number counts as zero and ends
  the reading of parameters. A number that is not finite is \<open>None\<close>.\<close>

fun quality :: "(string \<Rightarrow> rat option option) \<Rightarrow> string list \<Rightarrow> rat option \<Rightarrow> rat option" where
  "quality fl [] q = q"
| "quality fl (p # ps) q =
     (let s = strip p; key = takeWhile (\<lambda>c. c \<noteq> CHR ''='') s; value = drop (length key) s in
      if strip key = ''q'' \<and> value \<noteq> [] then (case fl (tl value) of None \<Rightarrow> Some 0 | Some v \<Rightarrow> quality fl ps v)
      else quality fl ps q)"

definition takes_gzip :: "(string \<Rightarrow> rat option option) \<Rightarrow> string \<Rightarrow> bool" where
  "takes_gzip fl encoding =
     (let parts = split_on CHR '';'' (strip encoding) in
      hd parts = ''gzip'' \<and> (case quality fl (tl parts) (Some 1) of None \<Rightarrow> False | Some q \<Rightarrow> 0 < q \<and> q \<le> 1))"

definition compressible :: "string \<Rightarrow> bool" where
  "compressible path \<longleftrightarrow> path = ''/api/packages'' \<or> path = ''/api/batches''"

definition negotiate :: "web_world \<Rightarrow> web_request \<Rightarrow> string \<Rightarrow> (string \<times> string) list \<times> string" where
  "negotiate w rq body =
     (if \<not> compressible (rq_path rq) then ([], body)
      else if list_ex (takes_gzip (ww_float w)) (split_on CHR '','' (lower (rq_accept_encoding rq)))
      then ([(''Vary'', ''Accept-Encoding''), (''Content-Encoding'', ''gzip'')], ww_gzip w body)
      else ([(''Vary'', ''Accept-Encoding'')], body))"

definition quoted :: "string \<Rightarrow> string" where
  "quoted s = [CHR 0x27] @ s @ [CHR 0x27]"

definition CONTENT_POLICY :: string where
  "CONTENT_POLICY = join_on ''; '' (map (\<lambda>(k, v). k @ '' '' @ quoted v)
     [(''default-src'', ''self''), (''script-src'', ''self''), (''style-src'', ''self''), (''object-src'', ''none''),
      (''base-uri'', ''none''), (''frame-ancestors'', ''none'')])"

definition json_response :: "web_world \<Rightarrow> web_request \<Rightarrow> string \<times> payload \<Rightarrow> web_response" where
  "json_response w rq sp =
     (let (enc, body) = negotiate w rq (ww_json w (snd sp)) in
      \<lparr>rs_status = fst sp,
       rs_headers = enc @ [(''Content-Type'', ''application/json; charset=utf-8''), (''Content-Length'', decimal (length body)),
         (''Cache-Control'', ''no-store''), (''X-Content-Type-Options'', ''nosniff''), (''Content-Security-Policy'', CONTENT_POLICY)],
       rs_body = (if rq_method rq = ''HEAD'' then [] else [body])\<rparr>)"

text \<open>The download of a raw log is streamed in chunks.\<close>

definition download :: "web_world \<Rightarrow> web_request \<Rightarrow> string \<Rightarrow> web_response result" where
  "download w rq aid =
     bindr (ww_db w) (\<lambda>db. bindr (known_attempt db aid) (\<lambda>_. bindr (attempt_folder aid) (\<lambda>_.
     case ww_stderr w aid of
       None \<Rightarrow> Inl (OSError ''No such file or directory'')
     | Some raw \<Rightarrow> Inr \<lparr>rs_status = OK,
         rs_headers = [(''Content-Type'', ''text/plain; charset=utf-8''),
           (''Content-Disposition'', ''attachment; filename='' @ [CHR 0x22] @ ''filnix-'' @ aid @ ''.log'' @ [CHR 0x22]),
           (''Cache-Control'', ''no-store''), (''X-Content-Type-Options'', ''nosniff'')],
         rs_body = (if rq_method rq = ''HEAD'' then [] else chunks CHUNK raw)\<rparr>)))"

definition app :: "web_world \<Rightarrow> web_request \<Rightarrow> web_response result" where
  "app w rq =
     (if rq_method rq \<noteq> ''GET'' \<and> rq_method rq \<noteq> ''HEAD'' then
        Inr (json_response w rq (''405 Method Not Allowed'', Error_text ''read-only dashboard''))
      else let args = parse_qs (lg_decode (ww_log w)) (rq_query rq) in
        if rq_path rq = ''/api/log/download'' then
          (case download w rq (get_arg args ''attempt'' []) of
             Inr r \<Rightarrow> Inr r
           | Inl e \<Rightarrow> bindr (error_response e) (\<lambda>sp. Inr (json_response w rq sp)))
        else bindr (caught_by_app (route w (rq_path rq) args)) (\<lambda>sp. Inr (json_response w rq sp)))"

end
