(* ===== verification/Resources.thy ===== *)
theory Resources
  imports Web
begin

text \<open>
  The addresses of the dashboard (\<^verbatim>\<open>experiment/dashboard/resources.py\<close>): the reading options, the
  resources with the options their addresses carry, the address of a resource, and the checked
  reading of the options of a request. What \<^verbatim>\<open>urlencode\<close> writes is modelled; the parsed query
  of a request is the list of its pairs, of which the last one of a name counts.
\<close>

section \<open>Reading options\<close>

record view =
  vw_watch :: int
  vw_state :: string
  vw_facet :: string
  vw_tier :: string
  vw_q :: string
  vw_kind :: string
  vw_outcome :: string
  vw_sort :: string
  vw_focus :: string
  vw_available :: int
  vw_page :: int
  vw_drv :: string
  vw_follow :: int
  vw_wrap :: int
  vw_size :: int
  vw_transport :: string

definition default_view :: view where
  "default_view = \<lparr>vw_watch = 1, vw_state = ''built'', vw_facet = [], vw_tier = [], vw_q = [], vw_kind = [],
     vw_outcome = [], vw_sort = ''recent'', vw_focus = [], vw_available = 0, vw_page = 0, vw_drv = [],
     vw_follow = 1, vw_wrap = 1, vw_size = 12, vw_transport = ''sse''\<rparr>"

definition trigger :: "view \<Rightarrow> string" where
  "trigger v = (if vw_transport v = ''sse'' then ''campaign-changed from:body, every 5s'' else ''every 3s'')"

text \<open>A value of a query: an integer, a text, or \<^verbatim>\<open>None\<close>.\<close>

datatype query_value = Number int | Text string | Nothing

definition view_fields :: "view \<Rightarrow> (string \<times> query_value) list" where
  "view_fields v =
     [(''watch'', Number (vw_watch v)), (''state'', Text (vw_state v)), (''facet'', Text (vw_facet v)),
      (''tier'', Text (vw_tier v)), (''q'', Text (vw_q v)), (''kind'', Text (vw_kind v)),
      (''outcome'', Text (vw_outcome v)), (''sort'', Text (vw_sort v)), (''focus'', Text (vw_focus v)),
      (''available'', Number (vw_available v)), (''page'', Number (vw_page v)), (''drv'', Text (vw_drv v)),
      (''follow'', Number (vw_follow v)), (''wrap'', Number (vw_wrap v)), (''size'', Number (vw_size v)),
      (''transport'', Text (vw_transport v))]"

section \<open>Addresses\<close>

record resource =
  rc_path :: string
  rc_carries :: "string list"

text \<open>A placeholder \<^verbatim>\<open>{name}\<close> or \<^verbatim>\<open>{name:converter}\<close> after its opening brace: the name and the rest.\<close>

definition placeholder :: "string \<Rightarrow> (string \<times> string) option" where
  "placeholder s =
     (let name = takeWhile is_word s; rest = drop (length name) s;
          conv = (if starts_with '':'' rest then takeWhile is_word (tl rest) else []);
          close = (if conv = [] then rest else drop (Suc (length conv)) rest)
      in if name \<noteq> [] \<and> starts_with ''}'' close then Some (name, tl close) else None)"

lemma placeholder_shorter: "placeholder s = Some (name, rest) \<Longrightarrow> length rest < length s"
  by (cases "s = []") (auto simp: placeholder_def Let_def starts_with_def intro!: diff_less split: if_splits)

definition plain_char :: "char \<Rightarrow> bool" where
  "plain_char c \<longleftrightarrow> url_safe c \<and> c \<noteq> CHR ''/''"

definition percent :: "char \<Rightarrow> string" where
  "percent c = concat (map (\<lambda>n. [CHR ''%'', upper_hex (n div 16), upper_hex (n mod 16)]) (utf8 c))"

text \<open>\<^verbatim>\<open>quote(s, safe="")\<close> and \<^verbatim>\<open>quote_plus(s)\<close>.\<close>

definition quote_all :: "string \<Rightarrow> string" where
  "quote_all s = concat (map (\<lambda>c. if plain_char c then [c] else percent c) s)"

definition quote_plus :: "string \<Rightarrow> string" where
  "quote_plus s = concat (map (\<lambda>c. if c = CHR '' '' then ''+'' else if plain_char c then [c] else percent c) s)"

fun value_text :: "query_value \<Rightarrow> string" where
  "value_text (Number n) = encode_int n"
| "value_text (Text s) = s"
| "value_text Nothing = ''None''"

definition drop_key :: "string \<Rightarrow> (string \<times> 'v) list \<Rightarrow> (string \<times> 'v) list" where
  "drop_key k kvs = filter (\<lambda>(k', v). k' \<noteq> k) kvs"

text \<open>The path with its placeholders replaced; each replacement takes its parameter.\<close>

function fill :: "string \<Rightarrow> (string \<times> query_value) list \<Rightarrow> (string \<times> (string \<times> query_value) list) result" where
  "fill [] params = Inr ([], params)"
| "fill (c # s) params =
     (case (if c = CHR ''{'' then placeholder s else None) of
        Some (name, rest) \<Rightarrow>
          (case map_of params name of
             None \<Rightarrow> Inl (KeyError name)
           | Some v \<Rightarrow> bindr (fill rest (drop_key name params)) (\<lambda>(t, ps). Inr (quote_all (value_text v) @ t, ps)))
      | None \<Rightarrow> bindr (fill s params) (\<lambda>(t, ps). Inr (c # t, ps)))"
  by pat_completeness auto
termination
  by (relation "measure (length \<circ> fst)")
    (auto dest!: placeholder_shorter split: if_splits)

definition carried :: "resource \<Rightarrow> view \<Rightarrow> (string \<times> query_value) list" where
  "carried r v = map (\<lambda>k. (k, the (map_of (view_fields v) k))) (rc_carries r)"

definition query_of :: "resource \<Rightarrow> view option \<Rightarrow> (string \<times> query_value) list \<Rightarrow> (string \<times> query_value) list" where
  "query_of r v params =
     (let query = fold (\<lambda>(k, x). dict_set k x) params (case v of None \<Rightarrow> [] | Some v \<Rightarrow> carried r v);
          renamed = (if map_of query ''state'' = Some (Text ''available'') then dict_set ''state'' (Text ''built'') query else query)
      in filter (\<lambda>(k, x). x \<noteq> Nothing \<and> x \<noteq> Text []) renamed)"

definition urlencode :: "(string \<times> query_value) list \<Rightarrow> string" where
  "urlencode query = join_on ''&'' (map (\<lambda>(k, x). quote_plus k @ ''='' @ quote_plus (value_text x)) query)"

definition url :: "resource \<Rightarrow> view option \<Rightarrow> (string \<times> query_value) list \<Rightarrow> string result" where
  "url r v params =
     bindr (fill (rc_path r) params) (\<lambda>(path, rest).
     let query = query_of r v rest in
     Inr (path @ (if query = [] then [] else ''?'' @ urlencode query)))"

section \<open>The resources\<close>

definition BASE :: string where
  "BASE = ''/campaigns/{cid}''"

definition resource :: "string \<Rightarrow> string list \<Rightarrow> resource" where
  "resource suffix carries = \<lparr>rc_path = BASE @ suffix, rc_carries = carries\<rparr>"

definition LOG_CARRIES :: "string list" where
  "LOG_CARRIES = [''drv'', ''follow'', ''wrap'', ''size'', ''q'', ''transport'']"

definition RESOURCES :: "(string \<times> resource) list" where
  "RESOURCES =
     [(''ACTIVITY'', resource [] [''watch'', ''transport'']),
      (''ACTIVITY_FEED'', resource ''/activity'' [''watch'', ''transport'']),
      (''SUMMARY'', resource ''/summary'' [''transport'']),
      (''EVENTS'', resource ''/events'' []),
      (''PACKAGES'', resource ''/packages'' [''state'', ''facet'', ''page'', ''transport'']),
      (''PACKAGE'', resource ''/packages/{pid:int}'' [''transport'']),
      (''SHOWCASE'', resource ''/showcase'' [''state'', ''facet'', ''tier'', ''q'', ''page'', ''transport'']),
      (''BATCHES'', resource ''/batches'' [''q'', ''kind'', ''outcome'', ''sort'', ''page'', ''transport'']),
      (''BATCH'', resource ''/batches/{aid}'' [''transport'']),
      (''BATCH_STATUS'', resource ''/batches/{aid}/status'' [''transport'']),
      (''BLOCKERS'', resource ''/blockers'' [''page'', ''transport'']),
      (''GRAPH'', resource ''/dependencies'' [''focus'', ''available'', ''page'', ''transport'']),
      (''GRAPH_REGION'', resource ''/dependencies/region'' [''focus'', ''available'', ''page'', ''transport'']),
      (''LOG'', resource ''/batches/{aid}/log'' LOG_CARRIES),
      (''LOG_STATUS'', resource ''/batches/{aid}/log/status'' LOG_CARRIES),
      (''LIVE_LOG'', resource ''/log'' LOG_CARRIES),
      (''UPDATES'', resource ''/updates'' [''transport'']),
      (''HEARTBEAT'', resource ''/heartbeat'' [''transport'']),
      (''CSV'', resource ''/packages.csv'' [''state'', ''facet''])]"

section \<open>Reading the options of a request\<close>

definition bad_request :: "string \<Rightarrow> py_error" where
  "bad_request m = HTTPException 400 m"

definition integer :: "string \<Rightarrow> int \<Rightarrow> int \<Rightarrow> int result" where
  "integer value low high =
     (case int_arg value of
        Inl _ \<Rightarrow> Inl (bad_request ''Expected an integer'')
      | Inr n \<Rightarrow> bindr (guardr (low \<le> n \<and> n \<le> high) (bad_request ''Number outside the supported range'')) (\<lambda>_. Inr n))"

type_synonym query = "(string \<times> string) list"

text \<open>\<^verbatim>\<open>p.get(key, default)\<close> of the parsed query, where the last pair of a name counts.\<close>

definition param :: "query \<Rightarrow> string \<Rightarrow> string \<Rightarrow> string" where
  "param p key dflt = (case map_of (rev p) key of None \<Rightarrow> dflt | Some v \<Rightarrow> v)"

definition int_option :: "query \<Rightarrow> string \<Rightarrow> int \<Rightarrow> int \<Rightarrow> int \<Rightarrow> int result" where
  "int_option p key dflt low high =
     (case map_of (rev p) key of None \<Rightarrow> Inr dflt | Some s \<Rightarrow> integer s low high)"

definition PACKAGE_STATES :: "string list" where
  "PACKAGE_STATES = [''built'', ''tested'', ''failed'', ''failures'', ''evaluation-error'', ''blocked'', ''tried'', ''all'']"

definition TIERS :: "string list" where
  "TIERS = the (map_of DEFINITIONS ''showcase'')"

definition allowed_choices :: "view \<Rightarrow> bool" where
  "allowed_choices v \<longleftrightarrow>
     List.member PACKAGE_STATES (vw_state v)
     \<and> List.member [[], ''build'', ''plan''] (vw_kind v)
     \<and> List.member [[], ''active'', ''error'', ''complete''] (vw_outcome v)
     \<and> List.member [''recent'', ''oldest'', ''longest''] (vw_sort v)
     \<and> List.member [''sse'', ''poll''] (vw_transport v)
     \<and> List.member ([] # ''unclassified'' # TIERS) (vw_tier v)
     \<and> List.member [12, 14, 16] (vw_size v)"

definition valid_facet :: "string \<Rightarrow> bool" where
  "valid_facet s \<longleftrightarrow>
     (let kind = takeWhile (\<lambda>c. c \<noteq> CHR '':'') s in
      List.member (map fst DEFINITIONS) kind \<and> drop (Suc (length kind)) s \<noteq> [])"

definition short_options :: "view \<Rightarrow> bool" where
  "short_options v \<longleftrightarrow> int (length (vw_q v)) \<le> 200 \<and> int (length (vw_drv v)) \<le> 1024
     \<and> int (length (vw_focus v)) \<le> 1024 \<and> int (length (vw_facet v)) \<le> 1024"

definition checked_view :: "view \<Rightarrow> view result" where
  "checked_view v =
     bindr (guardr (allowed_choices v) (bad_request ''Invalid reading options'')) (\<lambda>_.
     bindr (guardr (vw_facet v = [] \<or> valid_facet (vw_facet v)) (bad_request ''Invalid semantic facet'')) (\<lambda>_.
     bindr (guardr (short_options v) (bad_request ''Reading option is too long'')) (\<lambda>_. Inr v)))"

definition read_view :: "query \<Rightarrow> int \<Rightarrow> int \<Rightarrow> int \<Rightarrow> int \<Rightarrow> int \<Rightarrow> int \<Rightarrow> view" where
  "read_view p foll wrap available watch page font =
     (let d = default_view; state = param p ''state'' (vw_state d) in
      \<lparr>vw_watch = watch, vw_state = (if state = ''available'' then ''built'' else state),
       vw_facet = param p ''facet'' (vw_facet d), vw_tier = param p ''tier'' (vw_tier d), vw_q = param p ''q'' (vw_q d),
       vw_kind = param p ''kind'' (vw_kind d), vw_outcome = param p ''outcome'' (vw_outcome d),
       vw_sort = param p ''sort'' (vw_sort d), vw_focus = param p ''focus'' (vw_focus d), vw_available = available,
       vw_page = page, vw_drv = param p ''drv'' (vw_drv d), vw_follow = foll, vw_wrap = wrap, vw_size = font,
       vw_transport = param p ''transport'' (vw_transport d)\<rparr>)"

definition options :: "query \<Rightarrow> view result" where
  "options p =
     (let d = default_view in
      bindr (int_option p ''follow'' (vw_follow d) 0 1) (\<lambda>foll.
      bindr (int_option p ''wrap'' (vw_wrap d) 0 1) (\<lambda>wrap.
      bindr (int_option p ''available'' (vw_available d) 0 1) (\<lambda>available.
      bindr (int_option p ''watch'' (vw_watch d) 0 1) (\<lambda>watch.
      bindr (int_option p ''page'' (vw_page d) 0 1000000) (\<lambda>page.
      bindr (int_option p ''size'' (vw_size d) 12 16) (\<lambda>font.
      checked_view (read_view p foll wrap available watch page font))))))))"

end
