(* ===== verification/DashboardData.thy ===== *)
theory DashboardData
  imports Resources
begin

text \<open>
  What the pages of the dashboard show (\<^verbatim>\<open>experiment/dashboard/data.py\<close>): campaigns, the summary
  with its bounded cache of build locations, the forest of running builds, packages and their
  showcase, the ledger, one batch, one package, logs and blockers. The ranking and the log
  files are arguments, as for the other views.
\<close>

section \<open>Campaigns\<close>

definition campaigns_desc :: "database \<Rightarrow> campaign list" where
  "campaigns_desc db = sort_key (\<lambda>c. - cp_created c) (campaigns db)"

definition default_campaign :: "database \<Rightarrow> string result" where
  "default_campaign db =
     (case campaigns_desc db of
        [] \<Rightarrow> Inl (HTTPException 404 ''No campaigns have been imported'')
      | c # cs \<Rightarrow> Inr (cp_id (case find (\<lambda>r. cp_mode r = Running_mode) (c # cs) of Some r \<Rightarrow> r | None \<Rightarrow> c)))"

definition dash_campaign :: "database \<Rightarrow> string \<Rightarrow> campaign result" where
  "dash_campaign db cid = (case find_campaign db cid of None \<Rightarrow> Inl (HTTPException 404 ''Campaign not found'') | Some c \<Rightarrow> Inr c)"

definition revision :: "database \<Rightarrow> string \<Rightarrow> int" where
  "revision db cid = fold max (map ev_seq (filter (\<lambda>e. ev_campaign e = cid) (events db))) 0"

definition pending :: "candidate \<Rightarrow> bool" where
  "pending c \<longleftrightarrow> List.member [Unplanned, Queued, Running] (c_state c)"

definition waiting_candidates :: "database \<Rightarrow> string \<Rightarrow> bool" where
  "waiting_candidates db cid \<longleftrightarrow> list_ex (\<lambda>c. c_campaign c = cid \<and> pending c) (candidates db)"

definition unfinished :: "database \<Rightarrow> string \<Rightarrow> attempt list" where
  "unfinished db cid = filter (\<lambda>a. at_campaign a = cid \<and> at_state a \<noteq> Finished) (attempts db)"

definition finished_campaign :: "database \<Rightarrow> string \<Rightarrow> bool" where
  "finished_campaign db cid \<longleftrightarrow> \<not> waiting_candidates db cid \<and> unfinished db cid = []"

section \<open>The cache of build locations\<close>

type_synonym locations = "(string \<times> string) list"

definition LOCATIONS :: nat where
  "LOCATIONS = 128"

definition build_location :: "database \<Rightarrow> string \<Rightarrow> (locations, string) op" where
  "build_location db aid cache =
     (case map_of cache aid of
        Some l \<Rightarrow> (Inr l, cache)
      | None \<Rightarrow> (case find_attempt db aid of
          None \<Rightarrow> (Inl (TypeError ''NoneType object is not subscriptable''), cache)
        | Some a \<Rightarrow>
            let l = text_or (sp_build_location (at_spec a)) ''mixed'';
                kept = (if length cache \<ge> LOCATIONS then tl cache else cache)
            in (Inr l, kept @ [(aid, l)])))"

section \<open>The forest of running builds\<close>

record observed_build =
  ob_drv :: string
  ob_phase :: "string option"
  ob_stopped :: bool
  ob_started :: "timestamp option"
  ob_finished :: "timestamp option"

definition observed_build_of :: "database \<Rightarrow> activity \<Rightarrow> observed_build option" where
  "observed_build_of db v =
     (case av_drv v of None \<Rightarrow> None
      | Some d \<Rightarrow> let t = activity_time db v in
          Some \<lparr>ob_drv = d, ob_phase = av_phase v, ob_stopped = av_stopped v,
            ob_started = map_option bt_started t, ob_finished = Option.bind t bt_finished\<rparr>)"

text \<open>The 25 rows of the query, the first row of a derivation counting.\<close>

definition observed_builds :: "database \<Rightarrow> string \<Rightarrow> observed_build list" where
  "observed_builds db aid =
     (let rows = take 25 (sort_key av_stopped (rev (filter (\<lambda>v. av_attempt v = aid \<and> av_kind v = Some ''build'' \<and> av_drv v \<noteq> None) (activities db))))
      in fold (\<lambda>ob acc. insert_or_ignore ob_drv ob acc) (List.map_filter (observed_build_of db) rows) [])"

definition settled :: "observed_build \<Rightarrow> bool" where
  "settled ob \<longleftrightarrow> ob_stopped ob \<or> ob_finished ob \<noteq> None"

record forest_node =
  fn_drv :: string
  fn_name :: string
  fn_state :: string
  fn_phase :: "string option"
  fn_elapsed :: "timestamp option"

definition forest_state :: "derivation option \<Rightarrow> observed_build option \<Rightarrow> string" where
  "forest_state rec ob =
     (case ob of
        Some b \<Rightarrow> if settled b then ''awaiting-result'' else ''building''
      | None \<Rightarrow> (case rec of
          None \<Rightarrow> ''waiting''
        | Some d \<Rightarrow> if text_or (d_exclusion d) [] \<noteq> [] then ''excluded''
            else if d_available d then ''available''
            else if text_or (d_failure d) [] \<noteq> [] then ''failed'' else ''waiting''))"

definition elapsed_of :: "timestamp \<Rightarrow> observed_build option \<Rightarrow> timestamp option" where
  "elapsed_of now ob = Option.bind ob (\<lambda>b. map_option
     (\<lambda>st. max 0 ((case ob_finished b of Some e \<Rightarrow> e | None \<Rightarrow> now) - st)) (ob_started b))"

type_synonym roots = "(string \<times> string) list"

definition forest_node_of :: "database \<Rightarrow> timestamp \<Rightarrow> roots \<Rightarrow> observed_build list \<Rightarrow> string \<Rightarrow> forest_node" where
  "forest_node_of db now roots obs drv =
     (let ob = find_row ob_drv drv obs; rec = find_drv db drv in
      \<lparr>fn_drv = drv, fn_name = text_or (map_of roots drv) (text_or (map_option d_name rec) (drv_basename drv)),
       fn_state = forest_state rec ob, fn_phase = Option.bind ob ob_phase, fn_elapsed = elapsed_of now ob\<rparr>)"

text \<open>The parents of a node inside the evaluated scope, looked up at most 256 times in all.\<close>

definition scoped_parents :: "database \<Rightarrow> string list \<Rightarrow> string \<Rightarrow> string list" where
  "scoped_parents db scope drv =
     filter (List.member scope) (take 33 (sort (map e_parent (filter (\<lambda>e. e_child e = drv) (edges db)))))"

type_synonym lookups = "nat \<times> (string \<times> string list) list"

definition known_parents :: "(string \<Rightarrow> string list) \<Rightarrow> string \<Rightarrow> lookups \<Rightarrow> (string list \<times> lookups) option" where
  "known_parents look drv lk =
     (case map_of (snd lk) drv of
        Some ps \<Rightarrow> Some (ps, lk)
      | None \<Rightarrow> if fst lk = 0 then None else Some (look drv, (fst lk - 1, snd lk @ [(drv, look drv)])))"

text \<open>Breadth-first search from an observed build to a placed node or a requested root; the chain
  leads from the build to the current node.\<close>

definition unseen_parents :: "string list \<Rightarrow> string list \<Rightarrow> string list" where
  "unseen_parents ps seen = dedup (filter (\<lambda>p. \<not> List.member seen p) (take 32 ps))"

type_synonym placements = "(string \<times> string list) list"

definition todo_weight :: "(string \<times> string list) list \<Rightarrow> nat" where
  "todo_weight todo = (\<Sum>(c, chain)\<leftarrow>todo. 33 ^ (8 - length chain))"

lemma length_unseen: "length (unseen_parents ps seen) \<le> 32"
proof -
  have "length (dedup xs) \<le> length xs" for xs :: "string list"
    by (metis card_length distinct_card distinct_dedup set_dedup)
  then have "length (unseen_parents ps seen) \<le> length (filter (\<lambda>p. \<not> List.member seen p) (take 32 ps))"
    unfolding unseen_parents_def .
  also have "\<dots> \<le> 32" by (rule order.trans [OF length_filter_le]) simp
  finally show ?thesis .
qed

lemma weight_decreases:
  assumes "length chain < 8" and "length new \<le> 32"
  shows "todo_weight (todo @ map (\<lambda>p. (p, chain @ [p])) new) < todo_weight ((c, chain) # todo)"
proof -
  let ?w = "33 ^ (7 - length chain) :: nat"
  have "todo_weight (map (\<lambda>p. (p, chain @ [p])) new) = length new * ?w"
    by (simp add: todo_weight_def comp_def sum_list_triv)
  also have "\<dots> \<le> 32 * ?w" using assms(2) by simp
  also have "\<dots> < 33 * ?w" by simp
  also have "\<dots> = 33 ^ (8 - length chain)" using assms(1) by (simp flip: power_Suc add: Suc_diff_le [symmetric])
  finally show ?thesis by (simp add: todo_weight_def)
qed

function find_path :: "(string \<Rightarrow> string list) \<Rightarrow> placements \<Rightarrow> roots \<Rightarrow> (string \<times> string list) list \<Rightarrow> string list \<Rightarrow> lookups \<Rightarrow>
    string list option \<times> lookups" where
  "find_path look placed roots [] seen lk = (None, lk)"
| "find_path look placed roots ((current, chain) # todo) seen lk =
     (case map_of placed current of
        Some p \<Rightarrow> (Some (p @ rev (butlast chain)), lk)
      | None \<Rightarrow>
          if map_of roots current \<noteq> None then (Some (rev chain), lk)
          else if 8 \<le> length chain then find_path look placed roots todo seen lk
          else (case known_parents look current lk of
              None \<Rightarrow> (None, lk)
            | Some (ps, lk') \<Rightarrow>
                find_path look placed roots (todo @ map (\<lambda>p. (p, chain @ [p])) (unseen_parents ps seen))
                  (seen @ unseen_parents ps seen) lk'))"
  by pat_completeness auto
termination
  by (relation "measure (\<lambda>(look, placed, roots, todo, seen, lk). todo_weight todo)")
    (simp_all add: weight_decreases length_unseen, simp add: todo_weight_def)

datatype forest = Forest "(string \<times> forest) list"

fun branches :: "forest \<Rightarrow> (string \<times> forest) list" where
  "branches (Forest bs) = bs"

fun plant :: "string list \<Rightarrow> forest \<Rightarrow> forest" where
  "plant [] t = t"
| "plant (x # xs) t =
     Forest (dict_set x (plant xs (case map_of (branches t) x of None \<Rightarrow> Forest [] | Some b \<Rightarrow> b)) (branches t))"

record growth =
  gw_tree :: forest
  gw_detached :: "string list"
  gw_nodes :: "string list"
  gw_placed :: placements
  gw_lookups :: lookups

definition add_node :: "string \<Rightarrow> string list \<Rightarrow> string list" where
  "add_node = insert_or_ignore id"

definition place_prefixes :: "string list \<Rightarrow> placements \<Rightarrow> placements" where
  "place_prefixes path placed = fold (\<lambda>i. dict_set (path ! i) (take (Suc i) path)) [0..<length path] placed"

definition grow :: "(string \<Rightarrow> string list) \<Rightarrow> roots \<Rightarrow> observed_build \<Rightarrow> growth \<Rightarrow> growth" where
  "grow look roots ob g =
     (if settled ob then g
      else let (path, lk) = find_path look (gw_placed g) roots [(ob_drv ob, [ob_drv ob])] [ob_drv ob] (gw_lookups g); g1 = g\<lparr>gw_lookups := lk\<rparr> in
        case path of
          Some p \<Rightarrow> if length p \<le> 8
            then g1\<lparr>gw_tree := plant p (gw_tree g), gw_nodes := fold add_node p (gw_nodes g), gw_placed := place_prefixes p (gw_placed g)\<rparr>
            else g1\<lparr>gw_detached := gw_detached g @ [ob_drv ob], gw_nodes := add_node (ob_drv ob) (gw_nodes g)\<rparr>
        | None \<Rightarrow> g1\<lparr>gw_detached := gw_detached g @ [ob_drv ob], gw_nodes := add_node (ob_drv ob) (gw_nodes g)\<rparr>)"

record forest_group =
  fg_request :: attempt_view
  fg_tree :: forest
  fg_detached :: "forest_node list"
  fg_settling :: "forest_node list"
  fg_nodes :: "forest_node list"
  fg_hidden_roots :: "(string \<times> string) list"
  fg_partial :: bool

definition request_roots :: "attempt_view \<Rightarrow> roots result" where
  "request_roots r =
     bindr (map_res (\<lambda>t. case t of PlanTarget i l \<Rightarrow> Inl (KeyError ''drv'') | BuildTarget d l al \<Rightarrow> Inr (d, l)) (aw_targets r))
       (\<lambda>pairs. Inr (fold (\<lambda>(d, l). dict_set d l) pairs []))"

definition grown :: "database \<Rightarrow> string list \<Rightarrow> roots \<Rightarrow> observed_build list \<Rightarrow> lookups \<Rightarrow> growth" where
  "grown db scope roots obs lk =
     fold (grow (scoped_parents db scope) roots) (take 24 obs)
       \<lparr>gw_tree = Forest [], gw_detached = [], gw_nodes = [], gw_placed = [], gw_lookups = lk\<rparr>"

definition forest_group_of :: "database \<Rightarrow> timestamp \<Rightarrow> roots \<Rightarrow> observed_build list \<Rightarrow> attempt_view \<Rightarrow> growth \<Rightarrow> forest_group" where
  "forest_group_of db now roots obs r g =
     (let view = forest_node_of db now roots obs;
          nodes = (if length roots = 1 then add_node (fst (hd roots)) (gw_nodes g) else gw_nodes g);
          settling = filter (\<lambda>d. \<not> List.member nodes d) (map ob_drv (filter settled (take 24 obs)))
      in \<lparr>fg_request = r, fg_tree = gw_tree g, fg_detached = map view (gw_detached g), fg_settling = map view settling,
          fg_nodes = map view (nodes @ settling),
          fg_hidden_roots = filter (\<lambda>(d, n). \<not> List.member (map fst (branches (gw_tree g))) d) roots,
          fg_partial = (24 < length obs \<or> gw_detached g \<noteq> [])\<rparr>)"

definition forest_step :: "database \<Rightarrow> string list \<Rightarrow> timestamp \<Rightarrow> attempt_view \<Rightarrow> forest_group list \<times> lookups \<Rightarrow> (forest_group list \<times> lookups) result" where
  "forest_step db scope now r acc =
     bindr (request_roots r) (\<lambda>roots.
     let obs = observed_builds db (at_id (aw_attempt r)); g = grown db scope roots obs (snd acc) in
     Inr (fst acc @ [forest_group_of db now roots obs r g], gw_lookups g))"

definition PARENT_BUDGET :: nat where
  "PARENT_BUDGET = 256"

definition build_forest :: "database \<Rightarrow> attempt_view list \<Rightarrow> string list \<Rightarrow> timestamp \<Rightarrow> forest_group list result" where
  "build_forest db active scope now =
     bindr (foldr_res (forest_step db scope now) (filter (\<lambda>r. is_build (aw_attempt r)) active) ([], (PARENT_BUDGET, [])))
       (\<lambda>(groups, lk). Inr groups)"

end
