(* ===== verification/DashboardPages.thy ===== *)
theory DashboardPages
  imports DashboardData
begin

text \<open>
  The pages that list rows (\<^verbatim>\<open>experiment/dashboard/data.py\<close>): the summary, packages with their
  facets, the showcase, the ledger, one batch, one package, the log with its search backwards,
  and the blockers.
\<close>

section \<open>The summary\<close>

record summary_view =
  sm_campaign :: campaign
  sm_counts :: "(cstate \<times> nat) list"
  sm_tested :: nat
  sm_active :: "(attempt_view \<times> string option) list"
  sm_monitor :: "forest_group list"
  sm_total :: nat
  sm_done :: bool
  sm_now :: timestamp
  sm_revision :: int
  sm_blockers :: "ranking_row list"

definition tested_available :: "database \<Rightarrow> string \<Rightarrow> string list" where
  "tested_available db cid = dedup (List.map_filter c_drv (filter (\<lambda>c. c_state c = Available \<and>
     list_ex (\<lambda>t. Some (t_drv t) = c_drv c \<and> list_ex (\<lambda>a. at_id a = t_attempt t \<and> at_campaign a = cid) (attempts db)) (tests db))
     (of_campaign db cid)))"

fun located :: "database \<Rightarrow> attempt list \<Rightarrow> (locations, (attempt_view \<times> string option) list) op" where
  "located db [] = returnM []"
| "located db (a # as) =
     bindM (if is_build a then bindM (build_location db (at_id a)) (\<lambda>l. returnM (Some l)) else returnM None) (\<lambda>l.
     bindM (located db as) (\<lambda>rest. returnM ((item db a, l) # rest)))"

definition summary :: "timestamp \<Rightarrow> (string \<Rightarrow> ranking) \<Rightarrow> database \<Rightarrow> string \<Rightarrow> (locations, summary_view) op" where
  "summary now rank db cid =
     bindM (liftM (\<lambda>_. dash_campaign db cid)) (\<lambda>c.
     bindM (located db (sort_key at_created (unfinished db cid))) (\<lambda>active.
     bindM (liftM (\<lambda>_. build_forest db (map fst active) (rg_scope (rank cid)) now)) (\<lambda>monitor.
     returnM \<lparr>sm_campaign = c, sm_counts = candidate_counts db cid, sm_tested = length (tested_available db cid),
       sm_active = active, sm_monitor = monitor, sm_total = sum_list (map snd (candidate_counts db cid)),
       sm_done = (active = [] \<and> \<not> list_ex (\<lambda>st. (case map_of (candidate_counts db cid) st of None \<Rightarrow> 0 | Some n \<Rightarrow> n) \<noteq> 0) [Unplanned, Queued, Running]),
       sm_now = now, sm_revision = revision db cid, sm_blockers = take 5 (rg_rows (rank cid))\<rparr>)))"

section \<open>Packages\<close>

record 'a page =
  pg_rows :: "'a list"
  pg_total :: nat
  pg_page :: nat
  pg_size :: nat

definition paginate :: "'a list \<Rightarrow> nat \<Rightarrow> nat \<Rightarrow> 'a page" where
  "paginate rows n size' =
     (let k = min n ((length rows - 1) div size') in
      \<lparr>pg_rows = take size' (drop (k * size') rows), pg_total = length rows, pg_page = k, pg_size = size'\<rparr>)"

definition row_state :: "catalog_row \<Rightarrow> cstate" where
  "row_state r = c_state (cr_candidate r)"

definition selected :: "catalog_row \<Rightarrow> string \<Rightarrow> bool result" where
  "selected r state =
     (case map_of [(''all'', True), (''built'', row_state r = Available), (''tested'', row_state r = Available \<and> cr_checks r \<noteq> []),
        (''failed'', row_state r = Failed), (''failures'', List.member [Failed, Evaluation_error, Inconclusive] (row_state r)),
        (''blocked'', row_state r = Blocked), (''evaluation-error'', row_state r = Evaluation_error),
        (''tried'', \<not> List.member [Unplanned, Queued] (row_state r))] state of
        None \<Rightarrow> Inl (KeyError state) | Some b \<Rightarrow> Inr b)"

fun filter_res :: "('a \<Rightarrow> bool result) \<Rightarrow> 'a list \<Rightarrow> 'a list result" where
  "filter_res f [] = Inr []"
| "filter_res f (x # xs) = bindr (f x) (\<lambda>b. bindr (filter_res f xs) (\<lambda>ys. Inr (if b then x # ys else ys)))"

fun number_of :: "json \<Rightarrow> rat result" where
  "number_of (JInt n) = Inr (of_int n)"
| "number_of (JFloat x) = Inr x"
| "number_of (JBool b) = Inr (if b then 1 else 0)"
| "number_of _ = Inl (TypeError ''not supported between instances'')"

text \<open>The labels that annotations suggest: a probability of at least 0.8.\<close>

definition suggested_by :: "classification \<Rightarrow> string list result" where
  "suggested_by r =
     bindr (jitems (cl_probabilities r)) (\<lambda>items.
     bindr (filter_res (\<lambda>(label, p). bindr (number_of p) (\<lambda>x. Inr (4 / 5 \<le> x))) items) (\<lambda>chosen.
     Inr (map (\<lambda>(label, p). cl_kind r @ '':'' @ label) chosen)))"

definition suggested :: "classification list \<Rightarrow> string list result" where
  "suggested rs = bindr (map_res suggested_by rs) (\<lambda>fs. Inr (dedup (concat fs)))"

definition facet_counts :: "string list list \<Rightarrow> (string \<times> nat) list" where
  "facet_counts sugs = map (\<lambda>f. (f, length (filter (\<lambda>s. List.member s f) sugs))) (sort (dedup (concat sugs)))"

record packages_view =
  pa_rows :: "catalog_row list"
  pa_facets :: "(string \<times> nat) list"
  pa_revision :: int
  pa_sampled :: int
  pa_done :: bool

definition packages :: "runtime \<Rightarrow> timestamp \<Rightarrow> database \<Rightarrow> string \<Rightarrow> view \<Rightarrow> packages_view result" where
  "packages rt now db cid v =
     bindr (catalog rt now db cid) (\<lambda>c.
     bindr (filter_res (\<lambda>r. selected r (vw_state v)) (cv_rows c)) (\<lambda>rows.
     bindr (map_res (\<lambda>r. bindr (suggested (map fst (cr_classifications r))) (\<lambda>s. Inr (r, s))) rows) (\<lambda>pairs.
     Inr \<lparr>pa_rows = map fst (filter (\<lambda>(r, s). vw_facet v = [] \<or> List.member s (vw_facet v)) pairs),
       pa_facets = facet_counts (map snd pairs), pa_revision = revision db cid, pa_sampled = floor now,
       pa_done = finished_campaign db cid\<rparr>)))"

definition packages_page :: "runtime \<Rightarrow> timestamp \<Rightarrow> database \<Rightarrow> string \<Rightarrow> view \<Rightarrow> (packages_view \<times> catalog_row page) result" where
  "packages_page rt now db cid v = bindr (packages rt now db cid v) (\<lambda>p. Inr (p, paginate (pa_rows p) (nat (vw_page v)) 100))"

section \<open>The showcase\<close>

definition lower_text :: "string \<Rightarrow> string" where
  "lower_text = map (\<lambda>c. if in_range 65 90 c \<or> (in_range 192 222 c \<and> of_char c \<noteq> (215 :: nat)) then char_of (of_char c + 32 :: nat) else c)"

text \<open>\<^verbatim>\<open>max(labels, key=..)\<close>: the first label with the greatest value.\<close>

fun first_max :: "('a \<times> rat) \<Rightarrow> ('a \<times> rat) list \<Rightarrow> 'a" where
  "first_max best [] = fst best"
| "first_max best (x # xs) = first_max (if snd best < snd x then x else best) xs"

definition showcase_annotation :: "classification list \<Rightarrow> classification option" where
  "showcase_annotation jev = find (\<lambda>a. cl_kind a = ''showcase'' \<and> Some (cl_model a) = map_of MODELS ''jev''
     \<and> Some (cl_question_version a) = map_of QUESTION_VERSIONS ''showcase'') jev"

definition label_value :: "json \<Rightarrow> string \<Rightarrow> (string \<times> rat) result" where
  "label_value probabilities label =
     bindr (jget label probabilities) (\<lambda>p. bindr (number_of (case p of None \<Rightarrow> JNull | Some j \<Rightarrow> j)) (\<lambda>x. Inr (label, x)))"

definition tier_of :: "classification option \<Rightarrow> string result" where
  "tier_of a =
     (case a of
        None \<Rightarrow> Inr ''unclassified''
      | Some a \<Rightarrow> bindr (map_res (label_value (cl_probabilities a)) TIERS) (\<lambda>ps. Inr (first_max (hd ps) (tl ps))))"

record showcase_row =
  sr_row :: catalog_row
  sr_annotation :: "classification option"
  sr_tier :: string
  sr_suggested :: "string list"
  sr_text :: string

definition showcase_row_of :: "catalog_row \<Rightarrow> showcase_row result" where
  "showcase_row_of r =
     (let jev = filter (\<lambda>a. cl_provider a = ''jev'') (map fst (cr_classifications r)) in
      bindr (suggested (filter (\<lambda>a. cl_kind a \<noteq> ''showcase'') jev)) (\<lambda>s.
      bindr (tier_of (showcase_annotation jev)) (\<lambda>tier.
      Inr \<lparr>sr_row = r, sr_annotation = showcase_annotation jev, sr_tier = tier, sr_suggested = s,
        sr_text = c_label (cr_candidate r) @ '' '' @ (case cr_description r of JStr d \<Rightarrow> d | _ \<Rightarrow> [])\<rparr>)))"

definition described :: "catalog_row \<Rightarrow> unit result" where
  "described r = (case cr_description r of JStr d \<Rightarrow> Inr () | _ \<Rightarrow> Inl (TypeError ''can only concatenate str''))"

text \<open>A row passes the facet first; only then is its description read.\<close>

definition showcase_passes :: "view \<Rightarrow> showcase_row \<Rightarrow> bool result" where
  "showcase_passes v s =
     (if vw_facet v \<noteq> [] \<and> \<not> List.member (sr_suggested s) (vw_facet v) then Inr False
      else bindr (described (sr_row s)) (\<lambda>_. Inr (contains (lower_text (vw_q v)) (lower_text (sr_text s)))))"

record showcase_view =
  sv_rows :: "showcase_row list"
  sv_tiers :: "(string \<times> nat) list"
  sv_facets :: "(string \<times> nat) list"
  sv_classified :: nat
  sv_scope :: nat

definition tier_names :: "string list" where
  "tier_names = TIERS @ [''unclassified'']"

definition index_of :: "string list \<Rightarrow> string \<Rightarrow> nat" where
  "index_of xs x = length (takeWhile (\<lambda>y. y \<noteq> x) xs)"

definition showcase :: "runtime \<Rightarrow> timestamp \<Rightarrow> database \<Rightarrow> string \<Rightarrow> view \<Rightarrow> (showcase_view \<times> showcase_row page) result" where
  "showcase rt now db cid v =
     bindr (packages rt now db cid (v\<lparr>vw_facet := []\<rparr>)) (\<lambda>p.
     bindr (map_res showcase_row_of (pa_rows p)) (\<lambda>all.
     bindr (filter_res (showcase_passes v) all) (\<lambda>passing.
     bindr (guardr (list_all (\<lambda>s. List.member tier_names (sr_tier s)) passing) (KeyError ''tier'')) (\<lambda>_.
     let tiers = map (\<lambda>t. (t, length (filter (\<lambda>s. sr_tier s = t) passing))) tier_names;
         rows = sort_key (\<lambda>s. (index_of tier_names (sr_tier s), c_label (cr_candidate (sr_row s))))
           (filter (\<lambda>s. vw_tier v = [] \<or> vw_tier v = sr_tier s) passing);
         scope = sum_list (map snd tiers)
     in Inr (\<lparr>sv_rows = rows, sv_tiers = tiers, sv_facets = facet_counts (map sr_suggested all),
          sv_classified = scope - (case map_of tiers ''unclassified'' of None \<Rightarrow> 0 | Some n \<Rightarrow> n), sv_scope = scope\<rparr>,
        paginate rows (nat (vw_page v)) 100)))))"

section \<open>The ledger\<close>

definition ledger_matches :: "view \<Rightarrow> ledger_row \<Rightarrow> bool" where
  "ledger_matches v r \<longleftrightarrow>
     (vw_kind v = [] \<or> kind_text (at_kind (lr_attempt r)) = vw_kind v) \<and> (vw_outcome v = [] \<or> lr_outcome r = vw_outcome v)
     \<and> (vw_q v = [] \<or> contains (lower_text (vw_q v)) (at_id (lr_attempt r))
        \<or> list_ex (\<lambda>n. contains (lower_text (vw_q v)) (lower_text n)) (lr_names r))"

definition reverse_sort :: "('a \<Rightarrow> 'k :: linorder) \<Rightarrow> 'a list \<Rightarrow> 'a list" where
  "reverse_sort key xs = rev (sort_key key (rev xs))"

definition ledger_order :: "view \<Rightarrow> ledger_row list \<Rightarrow> ledger_row list" where
  "ledger_order v rows =
     (if vw_sort v = ''longest'' then
        reverse_sort (\<lambda>r. (case lr_duration r of None \<Rightarrow> -1 | Some d \<Rightarrow> d, at_created (lr_attempt r), at_id (lr_attempt r))) rows
      else if vw_sort v = ''oldest'' then sort_key (\<lambda>r. (at_created (lr_attempt r), at_id (lr_attempt r))) rows
      else reverse_sort (\<lambda>r. (at_created (lr_attempt r), at_id (lr_attempt r))) rows)"

definition ledger_rows :: "timestamp \<Rightarrow> database \<Rightarrow> string \<Rightarrow> view \<Rightarrow> bool \<Rightarrow> ledger_row list result" where
  "ledger_rows now db cid v recent =
     bindr (batches now db cid recent) (\<lambda>b. Inr (ledger_order v (filter (ledger_matches v) (lg_rows b))))"

definition ledger_page :: "timestamp \<Rightarrow> database \<Rightarrow> string \<Rightarrow> view \<Rightarrow> (ledger_row page \<times> bool) result" where
  "ledger_page now db cid v =
     bindr (ledger_rows now db cid v False) (\<lambda>rows. Inr (paginate rows (nat (vw_page v)) 50, finished_campaign db cid))"

section \<open>One batch\<close>

type_synonym times = "timestamp option \<times> timestamp option"

definition batch_times :: "database \<Rightarrow> string \<Rightarrow> (string option \<times> times) list" where
  "batch_times db aid = map (\<lambda>v. (av_drv v, let t = activity_time db v in (map_option bt_started t, Option.bind t bt_finished)))
     (rev (sort_key av_stopped (filter (\<lambda>v. av_attempt v = aid \<and> av_kind v = Some ''build'') (activities db))))"

definition timed_activity :: "database \<Rightarrow> string \<Rightarrow> activity_view \<Rightarrow> (activity_view \<times> times) result" where
  "timed_activity db aid a =
     (case map_of (rev (batch_times db aid)) (aq_drv a) of
        None \<Rightarrow> Inl (KeyError (text_or (aq_drv a) ''None'')) | Some t \<Rightarrow> Inr (a, t))"

definition target_drv :: "database \<Rightarrow> string \<Rightarrow> target_view \<Rightarrow> target_view \<times> string option" where
  "target_drv db cid t =
     (t, case t of PlanTarget i l \<Rightarrow> Option.bind (find (\<lambda>c. c_campaign c = cid \<and> c_id c = i) (candidates db)) c_drv
         | BuildTarget d l al \<Rightarrow> Some d)"

record batch_view =
  bv_attempt :: attempt_view
  bv_activities :: "(activity_view \<times> times) list"
  bv_counts :: "(string \<times> nat) list"
  bv_targets :: "(target_view \<times> string option) list"

definition batch :: "database \<Rightarrow> string \<Rightarrow> string \<Rightarrow> batch_view result" where
  "batch db cid aid =
     bindr (guardr (list_ex (\<lambda>a. at_campaign a = cid \<and> at_id a = aid) (attempts db)) (HTTPException 404 ''Batch not found in this campaign'')) (\<lambda>_.
     bindr (attempt_detail db cid aid) (\<lambda>(view, acts, cnts).
     bindr (map_res (timed_activity db aid) acts) (\<lambda>timed.
     Inr \<lparr>bv_attempt = view, bv_activities = timed, bv_counts = cnts, bv_targets = map (target_drv db cid) (aw_targets view)\<rparr>)))"

section \<open>One package\<close>

record package_page =
  pp_detail :: package_view
  pp_annotations :: "(classification \<times> string) list"
  pp_done :: bool
  pp_sampled :: timestamp
  pp_log :: "evidence option"
  pp_plan :: "evidence option"
  pp_blockers :: "(blocker \<times> evidence option) list"

definition last_build :: "database \<Rightarrow> string \<Rightarrow> string \<Rightarrow> attempt option" where
  "last_build db cid drv =
     (case sort_key (\<lambda>a. - at_created a) (concat (map (\<lambda>v. filter (\<lambda>a. at_id a = av_attempt v \<and> at_campaign a = cid) (attempts db))
        (filter (\<lambda>v. av_drv v = Some drv \<and> av_kind v = Some ''build'') (activities db)))) of [] \<Rightarrow> None | a # _ \<Rightarrow> Some a)"

definition last_plan :: "database \<Rightarrow> string \<Rightarrow> int \<Rightarrow> attempt option" where
  "last_plan db cid i =
     (case sort_key (\<lambda>a. - at_created a) (filter (\<lambda>a. at_campaign a = cid \<and> at_kind a = Plan \<and> list_ex (plans_candidate i) (at_targets a)) (attempts db))
      of [] \<Rightarrow> None | a # _ \<Rightarrow> Some a)"

definition package_log :: "database \<Rightarrow> string \<Rightarrow> candidate \<Rightarrow> evidence option" where
  "package_log db cid c =
     (let built = Option.bind (c_drv c) (\<lambda>d. Option.bind (last_build db cid d) (\<lambda>a. attempt_evidence db (at_id a) d)) in
      if c_state c = Failed then
        (case Option.bind (c_drv c) (failure_evidence db) of Some e \<Rightarrow> Some e | None \<Rightarrow> built)
      else built)"

definition package :: "runtime \<Rightarrow> timestamp \<Rightarrow> database \<Rightarrow> string \<Rightarrow> int \<Rightarrow> package_page result" where
  "package rt now db cid pid =
     bindr (bound_int pid) (\<lambda>i.
     bindr (guardr (list_ex (\<lambda>c. c_campaign c = cid \<and> c_id c = i) (candidates db)) (HTTPException 404 ''Package not found in this campaign'')) (\<lambda>_.
     bindr (detail rt db i) (\<lambda>d.
     bindr (annotations rt db cid i) (\<lambda>ann.
     Inr \<lparr>pp_detail = d, pp_annotations = ann, pp_done = finished_campaign db cid, pp_sampled = now,
       pp_log = package_log db cid (pk_row d),
       pp_plan = Option.bind (last_plan db cid i) (\<lambda>a. attempt_evidence db (at_id a) []),
       pp_blockers = map (\<lambda>b. (b, failure_evidence db (b_drv b))) (filter (\<lambda>b. Some (b_drv b) \<noteq> c_drv (pk_row d)) (pk_blockers d))\<rparr>))))"

section \<open>Logs and blockers\<close>

text \<open>The search backwards: at most seven further windows while nothing was found.\<close>

fun search_back :: "(int \<Rightarrow> log_view result) \<Rightarrow> nat \<Rightarrow> log_view \<Rightarrow> log_view result" where
  "search_back earlier 0 v = Inr v"
| "search_back earlier (Suc n) v =
     (if lv_entries v \<noteq> [] \<or> \<not> lv_before v then Inr v
      else bindr (earlier (lv_start v)) (search_back earlier n))"

definition log_page :: "log_world \<Rightarrow> database \<Rightarrow> (string \<Rightarrow> string option) \<Rightarrow> string \<Rightarrow> string \<Rightarrow> view \<Rightarrow> string \<Rightarrow> int \<Rightarrow>
    (log_view \<times> bool) result" where
  "log_page w db stderr cid aid v direction cursor =
     bindr (guardr (list_ex (\<lambda>a. at_campaign a = cid \<and> at_id a = aid) (attempts db)) (HTTPException 404 ''Log not found in this campaign'')) (\<lambda>_.
     bindr (build_log w db stderr aid direction cursor (vw_drv v)) (\<lambda>r.
     if List.member [''tail'', ''before''] direction \<and> vw_drv v \<noteq> [] \<and> \<not> lv_reset r then
       let seen = list_ex (\<lambda>(s, n). av_drv s = Some (vw_drv v)) (lv_sources r) in
       bindr (if seen then search_back (\<lambda>start. build_log w db stderr aid ''before'' start (vw_drv v)) 7 r else Inr r) (\<lambda>r'.
       Inr (r', seen \<and> lv_entries r' = [] \<and> lv_before r'))
     else Inr (r, False)))"

definition latest_attempt :: "database \<Rightarrow> string \<Rightarrow> string option" where
  "latest_attempt db cid =
     (case rev (sort_key (\<lambda>a. (at_state a \<noteq> Finished, at_kind a = Build, at_created a, at_id a)) (filter (\<lambda>a. at_campaign a = cid) (attempts db))) of
        [] \<Rightarrow> None | a # _ \<Rightarrow> Some (at_id a))"

record blockers_view =
  bl_rows :: "(ranking_row \<times> evidence option) list"
  bl_total :: nat
  bl_page :: nat
  bl_most :: nat

definition blockers_page :: "(string \<Rightarrow> ranking) \<Rightarrow> database \<Rightarrow> string \<Rightarrow> view \<Rightarrow> blockers_view" where
  "blockers_page rank db cid v =
     (let rows = rg_rows (rank cid); k = nat (vw_page v) in
      \<lparr>bl_rows = map (\<lambda>r. (r, failure_evidence db (rk_drv r))) (take 50 (drop (k * 50) rows)),
       bl_total = length rows, bl_page = k, bl_most = fold max (map rk_blocks rows) 0\<rparr>)"

end
