(* ===== verification/DashboardApp.thy ===== *)
theory DashboardApp
  imports DashboardPages
begin

text \<open>
  The handlers of the dashboard that decide something (\<^verbatim>\<open>experiment/dashboard/app.py\<close>): the old
  addresses redirected to resources, the log reader with its bound on displayed lines, the
  export as CSV, the stream of notifications, and the status and text of an error page. The
  HTML that the handlers build from the answers is not modelled.
\<close>

section \<open>Redirects\<close>

definition named :: "string \<Rightarrow> resource" where
  "named n = the (map_of RESOURCES n)"

definition query_nonempty :: "query \<Rightarrow> string \<Rightarrow> string option" where
  "query_nonempty p k = nonempty (param p k [])"

definition MAXIMUM :: int where
  "MAXIMUM = 10 ^ 12"

definition home_url :: "query \<Rightarrow> string \<Rightarrow> string result" where
  "home_url p cid =
     (let v = default_view\<lparr>vw_transport := param p ''transport'' ''sse''\<rparr>; c = (''cid'', Text cid) in
      case query_nonempty p ''package'' of
        Some pid \<Rightarrow> bindr (integer pid 1 MAXIMUM) (\<lambda>n. url (named ''PACKAGE'') (Some v) [c, (''pid'', Number n)])
      | None \<Rightarrow> (case query_nonempty p ''log'' of
          Some aid \<Rightarrow> url (named ''LOG'')
            (Some (v\<lparr>vw_drv := param p ''logDrv'' [], vw_follow := (if List.member [''1'', ''true''] (param p ''follow'' ''0'') then 1 else 0)\<rparr>))
            [c, (''aid'', Text aid)]
        | None \<Rightarrow> (case query_nonempty p ''attempt'' of
            Some aid \<Rightarrow> url (named ''BATCH'') (Some v) [c, (''aid'', Text aid)]
          | None \<Rightarrow> (case query_nonempty p ''derivation'' of
              Some d \<Rightarrow> url (named ''GRAPH'') (Some (v\<lparr>vw_focus := d\<rparr>)) [c]
            | None \<Rightarrow> (case query_nonempty p ''focus'' of
                Some f \<Rightarrow> url (named ''GRAPH'') (Some (v\<lparr>vw_focus := f\<rparr>)) [c]
              | None \<Rightarrow> url (named ''ACTIVITY'') (Some v) [c])))))"

definition home :: "database \<Rightarrow> query \<Rightarrow> string result" where
  "home db p =
     bindr (case query_nonempty p ''campaign'' of Some cid \<Rightarrow> Inr cid | None \<Rightarrow> default_campaign db) (\<lambda>cid.
     bindr (dash_campaign db cid) (\<lambda>_. home_url p cid))"

text \<open>The reading options of a page; the showcase shows all packages unless a state is asked for.\<close>

definition page_view :: "query \<Rightarrow> bool \<Rightarrow> view result" where
  "page_view p showcase_page =
     bindr (options p) (\<lambda>v. Inr (if showcase_page \<and> map_of (rev p) ''state'' = None then v\<lparr>vw_state := ''all''\<rparr> else v))"

definition updates :: "database \<Rightarrow> string \<Rightarrow> query \<Rightarrow> (view \<times> int \<times> int \<times> string \<times> bool) result" where
  "updates db cid p =
     bindr (options p) (\<lambda>v.
     bindr (integer (param p ''seen'' ''0'') 0 MAXIMUM) (\<lambda>seen.
     let target = param p ''target'' ''activity'' in
     bindr (guardr (List.member [''activity'', ''packages'', ''batches'', ''showcase''] target) (bad_request ''Unknown update resource'')) (\<lambda>_.
     bindr (dash_campaign db cid) (\<lambda>_.
     Inr (v, seen, revision db cid, target, finished_campaign db cid)))))"

section \<open>The log reader\<close>

definition LIMIT :: nat where
  "LIMIT = 2000"

record log_reply =
  ly_view :: log_view
  ly_searching :: bool
  ly_live :: bool
  ly_count :: nat
  ly_recovery :: bool

datatype log_answer = Waiting | Log_reply string log_reply

text \<open>At most \<open>LIMIT\<close> lines are displayed: the last ones are kept.\<close>

definition trimmed :: "log_view \<Rightarrow> log_view" where
  "trimmed v =
     (if length (lv_entries v) > LIMIT then
        let kept = drop (length (lv_entries v) - LIMIT) (lv_entries v) in
        v\<lparr>lv_entries := kept, lv_start := int (le_offset (hd kept)), lv_before := True\<rparr>
      else v)"

definition shown_log :: "database \<Rightarrow> string \<Rightarrow> string option \<Rightarrow> string option" where
  "shown_log db cid aid = (case aid of None \<Rightarrow> latest_attempt db cid | Some a \<Rightarrow> if a = [] then latest_attempt db cid else Some a)"

record log_query =
  lq_view :: view
  lq_direction :: string
  lq_cursor :: int
  lq_count :: nat
  lq_live :: bool

definition log_query_of :: "query \<Rightarrow> bool \<Rightarrow> log_query result" where
  "log_query_of p live =
     bindr (options p) (\<lambda>v.
     let direction = param p ''direction'' ''tail'' in
     bindr (guardr (List.member [''tail'', ''after'', ''before''] direction) (bad_request ''Unknown log direction'')) (\<lambda>_.
     bindr (integer (param p ''cursor'' ''0'') 0 MAXIMUM) (\<lambda>cursor.
     bindr (integer (param p ''count'' ''0'') 0 (int LIMIT)) (\<lambda>count.
     bindr (guardr (List.member [[], ''reader'', ''chunk''] (param p ''part'' [])) (bad_request ''Unknown log representation'')) (\<lambda>_.
     Inr \<lparr>lq_view = v, lq_direction = direction, lq_cursor = cursor, lq_count = nat count,
       lq_live = (live \<or> param p ''live'' [] = ''1'')\<rparr>)))))"

text \<open>The second read is a transaction of its own, on the database \<open>db'\<close>.\<close>

definition reply_of :: "log_world \<Rightarrow> database \<Rightarrow> (string \<Rightarrow> string option) \<Rightarrow> string \<Rightarrow> string \<Rightarrow> log_query \<Rightarrow> bool \<Rightarrow> log_view \<times> bool \<Rightarrow>
    log_reply result" where
  "reply_of w db' stderr cid aid q live first =
     (let recovery = lv_reset (fst first) \<or> lq_count q + length (lv_entries (fst first)) > LIMIT in
      bindr (if lv_reset (fst first) then log_page w db' stderr cid aid (lq_view q) ''tail'' 0 else Inr first) (\<lambda>result.
      let shown = trimmed (fst result) in
      Inr \<lparr>ly_view = shown, ly_searching = snd result, ly_live = live,
        ly_count = (if recovery then 0 else lq_count q) + length (lv_entries shown), ly_recovery = recovery\<rparr>))"

definition log_response :: "log_world \<Rightarrow> database \<Rightarrow> database \<Rightarrow> (string \<Rightarrow> string option) \<Rightarrow> string \<Rightarrow> string option \<Rightarrow> bool \<Rightarrow> query \<Rightarrow>
    log_answer result" where
  "log_response w db db' stderr cid aid live p =
     bindr (log_query_of p live) (\<lambda>q.
     bindr (dash_campaign db cid) (\<lambda>_.
     case shown_log db cid aid of
       None \<Rightarrow> Inr Waiting
     | Some a \<Rightarrow>
         bindr (log_page w db stderr cid a (lq_view q) (lq_direction q) (lq_cursor q)) (\<lambda>result.
         let live' = (lq_live q \<and> (waiting_candidates db cid \<or> \<not> lv_finished (fst result))) in
         bindr (reply_of w db' stderr cid a q live' result) (\<lambda>r. Inr (Log_reply a r)))))"

section \<open>The export\<close>

definition state_label :: "cstate \<Rightarrow> string" where
  "state_label st = (case st of Unplanned \<Rightarrow> ''Not tried'' | Queued \<Rightarrow> ''Queued'' | Running \<Rightarrow> ''Running'' | Available \<Rightarrow> ''Built''
     | Failed \<Rightarrow> ''Failed'' | Blocked \<Rightarrow> ''Blocked'' | Excluded \<Rightarrow> ''Excluded'' | Inconclusive \<Rightarrow> ''Inconclusive''
     | Evaluation_error \<Rightarrow> ''Eval error'')"

definition export_status :: "catalog_row \<Rightarrow> string" where
  "export_status r = (if cr_checks r \<noteq> [] \<and> row_state r = Available then ''Tested'' else state_label (row_state r))"

text \<open>A cell that would start a spreadsheet formula gets an apostrophe in front.\<close>

definition formula_start :: "string \<Rightarrow> bool" where
  "formula_start s \<longleftrightarrow> s \<noteq> [] \<and> List.member ''=+-@'' (hd s)"

definition guarded :: "string \<Rightarrow> string" where
  "guarded s = (if formula_start s then CHR 0x27 # s else s)"

definition export_values :: "runtime \<Rightarrow> catalog_row \<Rightarrow> string list" where
  "export_values rt r = [c_label (cr_candidate r), py_str rt (cr_version r), py_str rt (cr_description r), export_status r,
     py_str rt (cr_source r), cr_reason r]"

text \<open>\<^verbatim>\<open>csv.writer\<close>: a field is quoted when it holds a comma, a quote or a line break.\<close>

definition csv_special :: "char \<Rightarrow> bool" where
  "csv_special c \<longleftrightarrow> c = CHR '','' \<or> c = CHR 0x22 \<or> c = CHR 0x0D \<or> c = CHR 0x0A"

definition csv_field :: "string \<Rightarrow> string" where
  "csv_field s =
     (if list_ex csv_special s then [CHR 0x22] @ concat (map (\<lambda>c. if c = CHR 0x22 then [c, c] else [c]) s) @ [CHR 0x22] else s)"

definition csv_row :: "string list \<Rightarrow> string" where
  "csv_row cells = join_on '','' (map csv_field cells) @ [CHR 0x0D, CHR 0x0A]"

definition EXPORT_HEADER :: "string list" where
  "EXPORT_HEADER = [''package'', ''version'', ''description'', ''result'', ''source'', ''diagnostic'']"

definition export :: "runtime \<Rightarrow> timestamp \<Rightarrow> database \<Rightarrow> string \<Rightarrow> query \<Rightarrow> string result" where
  "export rt now db cid p =
     bindr (options p) (\<lambda>v.
     bindr (dash_campaign db cid) (\<lambda>_.
     bindr (packages rt now db cid v) (\<lambda>pk.
     Inr (csv_row EXPORT_HEADER @ concat (map (\<lambda>r. csv_row (map guarded (export_values rt r))) (pa_rows pk))))))"

section \<open>Notifications\<close>

definition notification_snapshot :: "database \<Rightarrow> string \<Rightarrow> (int \<times> bool) result" where
  "notification_snapshot db cid =
     bindr (dash_campaign db cid) (\<lambda>_. Inr (revision db cid, \<not> waiting_candidates db cid \<and> unfinished db cid = []))"

datatype notice = Changed int | Completed | Heartbeat

text \<open>One turn per snapshot; the stream ends after the campaign has completed.\<close>

fun notifications :: "int option \<Rightarrow> nat \<Rightarrow> (int \<times> bool) list \<Rightarrow> notice list" where
  "notifications previous ticks [] = []"
| "notifications previous ticks ((current, done) # rest) =
     (if previous \<noteq> Some current then [Changed current] else [])
     @ (if done then [Completed]
        else (if ticks mod 10 = 0 then [Heartbeat] else []) @ notifications (Some current) (Suc ticks) rest)"

definition notice_text :: "notice \<Rightarrow> string" where
  "notice_text n = (case n of
      Changed r \<Rightarrow> ''id: '' @ encode_int r @ [NL] @ ''event: campaign-changed'' @ [NL] @ ''data: '' @ encode_int r @ [NL, NL]
    | Completed \<Rightarrow> ''event: campaign-complete'' @ [NL] @ ''data: complete'' @ [NL, NL]
    | Heartbeat \<Rightarrow> '': heartbeat'' @ [NL, NL])"

section \<open>Error pages\<close>

text \<open>The status and message of the page for an exception that a handler is registered for; others
  end as an internal error of the server.\<close>

definition error_page :: "py_error \<Rightarrow> (int \<times> string) option" where
  "error_page e =
     (case e of
        HTTPException n m \<Rightarrow> Some (n, m)
      | ValueError m \<Rightarrow> Some (400, m)
      | OSError m \<Rightarrow> Some (503, ''Campaign data is temporarily unavailable. Please retry.'')
      | IntegrityError m \<Rightarrow> Some (503, ''Campaign data is temporarily unavailable. Please retry.'')
      | _ \<Rightarrow> None)"

end
