(* ===== verification/WebGuarantees.thy ===== *)
theory WebGuarantees
  imports Resources "HOL-Library.Multiset"
begin

text \<open>
  Properties of the HTTP interface: methods, the stream of events, the pages and counts of a
  snapshot, the details of a package, and what an identifier of more than 64 bits does.
\<close>

section \<open>Methods\<close>

lemma download_method:
  "download w (rq\<lparr>rq_method := ''HEAD''\<rparr>) aid = bindr (download w (rq\<lparr>rq_method := ''GET''\<rparr>) aid) (\<lambda>r. Inr (r\<lparr>rs_body := []\<rparr>))"
  by (cases "ww_db w") (auto simp: download_def bindr_def split: sum.splits option.splits)

lemma json_response_method:
  "json_response w (rq\<lparr>rq_method := ''HEAD''\<rparr>) sp = (json_response w (rq\<lparr>rq_method := ''GET''\<rparr>) sp)\<lparr>rs_body := []\<rparr>"
  by (simp add: json_response_def negotiate_def Let_def split: prod.split)

text \<open>C40. A HEAD request gets the status and the headers of the GET request, and no body.\<close>

theorem head_matches_get:
  "app w (rq\<lparr>rq_method := ''HEAD''\<rparr>) = bindr (app w (rq\<lparr>rq_method := ''GET''\<rparr>)) (\<lambda>r. Inr (r\<lparr>rs_body := []\<rparr>))"
proof (cases "rq_path rq = ''/api/log/download''")
  case True
  let ?aid = "get_arg (parse_qs (lg_decode (ww_log w)) (rq_query rq)) ''attempt'' []"
  show ?thesis
  proof (cases "download w (rq\<lparr>rq_method := ''GET''\<rparr>) ?aid")
    case (Inl e)
    with True show ?thesis
      by (cases "error_response e") (simp_all add: app_def download_method json_response_method)
  next
    case (Inr r)
    with True show ?thesis by (simp add: app_def download_method)
  qed
next
  case False
  let ?r = "caught_by_app (route w (rq_path rq) (parse_qs (lg_decode (ww_log w)) (rq_query rq)))"
  from False show ?thesis by (cases ?r) (simp_all add: app_def json_response_method)
qed

section \<open>Events\<close>

definition cursor_at :: "event_row list \<Rightarrow> nat \<Rightarrow> int" where
  "cursor_at es p = (if p = 0 then 0 else ev_seq (es ! (p - 1)))"

definition numbered_events :: "event_row list \<Rightarrow> bool" where
  "numbered_events es \<longleftrightarrow> sorted_wrt (<) (map ev_seq es) \<and> (\<forall>e \<in> set es. 0 < ev_seq e \<and> ev_seq e < 2 ^ 63)"

lemma sorted_drop:
  assumes "sorted_wrt (<) (map f xs)" and "p \<le> length xs" and "\<And>x. x \<in> set (take p xs) \<Longrightarrow> f x \<le> n"
    and "\<And>x. x \<in> set (drop p xs) \<Longrightarrow> n < f x"
  shows "filter (\<lambda>x. n < (f x :: int)) xs = drop p xs"
proof -
  have "filter (\<lambda>x. n < f x) xs = filter (\<lambda>x. n < f x) (take p xs) @ filter (\<lambda>x. n < f x) (drop p xs)"
    by (metis append_take_drop_id filter_append)
  moreover have "filter (\<lambda>x. n < f x) (take p xs) = []" using assms(3) by (force simp: filter_empty_conv)
  moreover have "filter (\<lambda>x. n < f x) (drop p xs) = drop p xs" using assms(4) by (simp add: filter_id_conv)
  ultimately show ?thesis by simp
qed

lemma nth_less: "sorted_wrt (<) (map ev_seq es) \<Longrightarrow> i < j \<Longrightarrow> j < length es \<Longrightarrow> ev_seq (es ! i) < ev_seq (es ! j)"
  by (auto simp: sorted_wrt_iff_nth_less)

lemma filter_cursor:
  assumes "numbered_events es" and "p \<le> length es"
  shows "filter (\<lambda>e. cursor_at es p < ev_seq e) es = drop p es"
proof (rule sorted_drop [OF _ assms(2)])
  show "sorted_wrt (<) (map ev_seq es)" using assms by (simp add: numbered_events_def)
next
  fix e assume "e \<in> set (take p es)"
  then obtain i where i: "i < p" "e = es ! i" using assms(2) by (auto simp: in_set_conv_nth)
  show "ev_seq e \<le> cursor_at es p"
  proof (cases "i = p - 1")
    case True with i show ?thesis by (simp add: cursor_at_def)
  next
    case False
    with i assms have "ev_seq (es ! i) < ev_seq (es ! (p - 1))"
      by (intro nth_less) (auto simp: numbered_events_def)
    with i show ?thesis by (simp add: cursor_at_def)
  qed
next
  fix e assume "e \<in> set (drop p es)"
  then obtain i where i: "i < length es - p" "e = es ! (p + i)" by (auto simp: in_set_conv_nth)
  then show "cursor_at es p < ev_seq e"
    using assms by (auto simp: cursor_at_def numbered_events_def intro!: nth_less)
qed

lemma sort_key_sorted: "sorted_wrt (<) (map f xs) \<Longrightarrow> sort_key (f :: 'a \<Rightarrow> int) xs = xs"
  by (rule sort_key_id_if_sorted) (auto intro: sorted_wrt_mono_rel [rotated])

lemma cursor_bound:
  assumes "numbered_events es" and "p \<le> length es"
  shows "0 \<le> cursor_at es p" and "cursor_at es p < 2 ^ 63"
  using assms by (auto simp: cursor_at_def numbered_events_def less_imp_le)

lemma events_page:
  assumes "numbered_events (events db)" and "p \<le> length (events db)"
  shows "events_view db (cursor_at (events db) p) =
    Inr (Events (take 100 (drop p (events db))) (cursor_at (events db) (min (p + 100) (length (events db)))))"
proof -
  let ?es = "events db"
  have sorted: "sorted_wrt (<) (map ev_seq (drop p ?es))"
    using assms by (simp add: numbered_events_def drop_map [symmetric] sorted_wrt_drop)
  have rows: "events_after db (cursor_at ?es p) = take 100 (drop p ?es)"
    by (simp add: events_after_def filter_cursor [OF assms] sort_key_sorted [OF sorted])
  have last: "ev_seq (last (take 100 (drop p ?es))) = cursor_at ?es (min (p + 100) (length ?es))" if "drop p ?es \<noteq> []"
  proof -
    have p: "p < length ?es" using that by simp
    then have "last (take 100 (drop p ?es)) = ?es ! (p + (min 100 (length ?es - p) - 1))"
      by (simp add: last_conv_nth min.commute)
    moreover have "p + (min 100 (length ?es - p) - 1) = min (p + 100) (length ?es) - 1" using p by auto
    ultimately have "last (take 100 (drop p ?es)) = ?es ! (min (p + 100) (length ?es) - 1)" by simp
    then show ?thesis using p by (auto simp: cursor_at_def min_def)
  qed
  have empty: "drop p ?es = [] \<Longrightarrow> min (p + 100) (length ?es) = p" using assms(2) by simp
  show ?thesis
    using cursor_bound [OF assms] rows last empty
    by (auto simp: events_view_def bound_int_def guardr_def Let_def max_def)
qed

text \<open>A client polls growing databases, each time with the cursor of the last answer.\<close>

fun polls :: "database list \<Rightarrow> int \<Rightarrow> event_row list" where
  "polls [] n = []"
| "polls (db # dbs) n = (case events_view db n of Inr (Events rows n') \<Rightarrow> rows @ polls dbs n' | _ \<Rightarrow> [])"

lemma numbered_prefix: "numbered_events (es @ fs) \<Longrightarrow> numbered_events es"
  by (auto simp: numbered_events_def sorted_wrt_append)

lemma cursor_prefix: "p \<le> length es \<Longrightarrow> cursor_at (es @ fs) p = cursor_at es p"
  by (auto simp: cursor_at_def nth_append)


definition later :: "database \<Rightarrow> database \<Rightarrow> bool" where
  "later a b \<longleftrightarrow> (\<exists>new. events b = events a @ new)"

lemma polls_step:
  assumes "numbered_events (events db)" and "p \<le> length (events db)"
  shows "polls (db # dbs) (cursor_at (events db) p) =
    take 100 (drop p (events db)) @ polls dbs (cursor_at (events db) (min (p + 100) (length (events db))))"
  by (simp add: events_page [OF assms])

lemma take_slices:
  assumes "p \<le> m" and "m \<le> q"
  shows "take (m - p) (drop p xs) @ take (q - m) (drop m xs) = take (q - p) (drop p xs)"
proof -
  obtain i j where "m = p + i" and "q = p + i + j" using assms by (metis add_diff_inverse_nat not_less)
  then show ?thesis by (simp add: take_add add.commute)
qed

lemma polls_growing:
  assumes "sorted_wrt later (dbs @ [db])" and "numbered_events (events db)" and "p \<le> length (events (hd (dbs @ [db])))"
  shows "\<exists>q. p \<le> q \<and> q \<le> length (events db) \<and>
    (\<forall>more. polls (dbs @ more) (cursor_at (events db) p) = take (q - p) (drop p (events db)) @ polls more (cursor_at (events db) q))"
  using assms
proof (induction dbs arbitrary: p)
  case Nil
  then show ?case by (intro exI [of _ p]) simp
next
  case (Cons a dbs)
  obtain new where new: "events db = events a @ new" using Cons.prems(1) by (auto simp: later_def)
  have num: "numbered_events (events a)" using Cons.prems(2) new numbered_prefix by metis
  have p: "p \<le> length (events a)" using Cons.prems(3) by simp
  let ?m = "min (p + 100) (length (events a))"
  have "?m \<le> length (events (hd (dbs @ [db])))"
    using Cons.prems(1) by (cases dbs) (auto simp: later_def)
  then obtain q where q: "?m \<le> q" "q \<le> length (events db)"
    and rest: "\<And>more. polls (dbs @ more) (cursor_at (events db) ?m) = take (q - ?m) (drop ?m (events db)) @ polls more (cursor_at (events db) q)"
    using Cons.IH [of ?m] Cons.prems by auto
  have "take 100 (drop p (events a)) = take (?m - p) (drop p (events db))"
    using p by (simp add: new min_def)
  moreover have "take (?m - p) (drop p (events db)) @ take (q - ?m) (drop ?m (events db)) = take (q - p) (drop p (events db))"
    using q p by (intro take_slices) auto
  ultimately have "polls ((a # dbs) @ more) (cursor_at (events db) p) = take (q - p) (drop p (events db)) @ polls more (cursor_at (events db) q)" for more
    using polls_step [OF num p, of "dbs @ more"] rest [of more] p
    by (simp add: new cursor_prefix flip: append_assoc)
  then show ?case using q p by (intro exI [of _ q]) auto
qed

lemma polls_still:
  assumes "numbered_events (events db)" and "p \<le> length (events db)"
  shows "polls (replicate k db) (cursor_at (events db) p) = take (100 * k) (drop p (events db))"
  using assms(2)
proof (induction k arbitrary: p)
  case (Suc k)
  let ?m = "min (p + 100) (length (events db))"
  have "polls (replicate (Suc k) db) (cursor_at (events db) p) = take 100 (drop p (events db)) @ take (100 * k) (drop ?m (events db))"
    using polls_step [OF assms(1) Suc.prems] Suc.IH [of ?m] by simp
  also have "drop ?m (events db) = drop 100 (drop p (events db))" by (simp add: min_def add.commute)
  finally show ?case by (simp add: take_add)
qed simp

text \<open>C35. A client that polls the events with the cursor of the last answer, while the log of events
  grows, receives a prefix of the log in order without gaps or repetitions, and once the log
  no longer grows receives all of it.\<close>

theorem events_followed:
  assumes "sorted_wrt later (dbs @ [db])" and "numbered_events (events db)"
  shows "(\<exists>rest. events db = polls dbs 0 @ rest) \<and>
    (length (events db) \<le> 100 * k \<longrightarrow> polls (dbs @ replicate k db) 0 = events db)"
proof -
  have start: "cursor_at (events db) 0 = 0" by (simp add: cursor_at_def)
  obtain q where q: "q \<le> length (events db)"
    and all: "\<And>more. polls (dbs @ more) 0 = take q (events db) @ polls more (cursor_at (events db) q)"
    using polls_growing [OF assms, of 0] by (auto simp: start)
  have "events db = polls dbs 0 @ drop q (events db)" using all [of "[]"] by simp
  moreover have "polls (dbs @ replicate k db) 0 = take q (events db) @ take (100 * k) (drop q (events db))"
    using all [of "replicate k db"] polls_still [OF assms(2) q] by simp
  ultimately show ?thesis by auto
qed

section \<open>The snapshot\<close>

lemma map_res_images:
  assumes "map_res f xs = Inr ys" and "\<And>x y. f x = Inr y \<Longrightarrow> g y = h x"
  shows "map g ys = map h xs"
  using assms(1) by (induction xs arbitrary: ys) (auto simp: bindr_eq_Inr assms(2))

lemma brief_ids: "candidate_brief_of c = Inr b \<Longrightarrow> (cc_id b, cc_label b) = (c_id c, c_label c)"
  by (auto simp: candidate_brief_of_def bindr_eq_Inr)

lemma snapshot_page:
  assumes "snapshot now slice rank db wanted search state offset = Inr (Some v)"
  shows "map (\<lambda>b. (cc_id b, cc_label b)) (ss_candidates v) =
      map (\<lambda>c. (c_id c, c_label c)) (take 50 (drop offset (selected_candidates db (shown_campaign (sorted_campaigns db) wanted) search state)))"
    and "ss_filtered v = length (selected_candidates db (shown_campaign (sorted_campaigns db) wanted) search state)"
    and "ss_counts v = candidate_counts db (shown_campaign (sorted_campaigns db) wanted)"
    and "cb_id (ss_campaign v) = shown_campaign (sorted_campaigns db) wanted"
  using assms
  by (auto simp: snapshot_def Let_def bindr_eq_Inr brief_of_def find_campaign_def split: if_splits option.splits
      dest: map_res_images [OF _ brief_ids] find_row_Some_set)

lemma concat_pages: "0 < m \<Longrightarrow> concat (map (\<lambda>k. take m (drop (m * k) xs)) [0..<n]) = take (m * n) xs"
  by (induction n) (simp_all add: take_add add.commute [of m])

lemma concat_map_pages: "0 < m \<Longrightarrow> concat (map (\<lambda>k. map f (take m (drop (m * k) xs))) [0..<n]) = map f (take (m * n) xs)"
  using arg_cong [OF concat_pages, of m "map f" xs n] by (simp add: map_concat comp_def)

text \<open>C38. Turning the pages of a snapshot lists every candidate of the campaign that matches the
  search and the state exactly once, in the order of the labels.\<close>

theorem snapshot_pages:
  assumes "\<And>k. k < n \<Longrightarrow> snapshot now slice rank db wanted search state (50 * k) = Inr (Some (v k))"
    and "0 < n" and "ss_filtered (v 0) \<le> 50 * n"
  shows "mset (map cc_id (concat (map (\<lambda>k. ss_candidates (v k)) [0..<n]))) =
      mset (map c_id (filter (\<lambda>c. c_campaign c = cb_id (ss_campaign (v 0)) \<and> snapshot_selects search state c) (candidates db)))
    \<and> sorted (map cc_label (concat (map (\<lambda>k. ss_candidates (v k)) [0..<n])))"
proof -
  let ?cid = "shown_campaign (sorted_campaigns db) wanted"
  let ?all = "selected_candidates db ?cid search state" and ?pages = "concat (map (\<lambda>k. ss_candidates (v k)) [0..<n])"
  have cid: "cb_id (ss_campaign (v 0)) = ?cid" and total: "length ?all \<le> 50 * n"
    using assms snapshot_page(2,4) [OF assms(1) [of 0]] by auto
  have "map (\<lambda>b. (cc_id b, cc_label b)) ?pages =
      concat (map (\<lambda>k. map (\<lambda>b. (cc_id b, cc_label b)) (ss_candidates (v k))) [0..<n])"
    by (simp add: map_concat comp_def)
  also have "\<dots> = concat (map (\<lambda>k. map (\<lambda>c. (c_id c, c_label c)) (take 50 (drop (50 * k) ?all))) [0..<n])"
    using snapshot_page(1) [OF assms(1)] by (intro arg_cong [of _ _ concat] map_cong) auto
  also have "\<dots> = map (\<lambda>c. (c_id c, c_label c)) ?all"
    using total by (simp add: concat_map_pages)
  finally have pairs: "map (\<lambda>b. (cc_id b, cc_label b)) ?pages = map (\<lambda>c. (c_id c, c_label c)) ?all" .
  have ids: "map cc_id ?pages = map c_id ?all" using arg_cong [OF pairs, of "map fst"] by (simp add: comp_def)
  have labels: "map cc_label ?pages = map c_label ?all" using arg_cong [OF pairs, of "map snd"] by (simp add: comp_def)
  show ?thesis
    unfolding ids labels cid by (simp add: selected_candidates_def of_campaign_def conj_commute)
qed

text \<open>The groups of \<^verbatim>\<open>GROUP BY\<close> partition the rows.\<close>

lemma sum_groups: "distinct ks \<Longrightarrow> f ` set xs \<subseteq> set ks \<Longrightarrow> (\<Sum>k\<leftarrow>ks. length (filter (\<lambda>x. f x = k) xs)) = length xs"
proof (induction xs)
  case (Cons x xs)
  have "(\<Sum>k\<leftarrow>ks. length (filter (\<lambda>y. f y = k) (x # xs))) =
      (\<Sum>k\<leftarrow>ks. (if k = f x then 1 else 0) + length (filter (\<lambda>y. f y = k) xs))"
    by (intro arg_cong [of _ _ sum_list] map_cong) auto
  also have "\<dots> = (\<Sum>k\<leftarrow>ks. if k = f x then 1 else 0) + length xs"
    using Cons by (simp add: sum_list_addf)
  also have "(\<Sum>k\<leftarrow>ks. if k = f x then 1 else 0) = (1 :: nat)"
    using Cons.prems by (simp add: sum_list_distinct_conv_sum_set)
  finally show ?case by simp
qed simp

text \<open>The counts of a snapshot add up to the candidates of the campaign.\<close>

theorem snapshot_counts:
  assumes "snapshot now slice rank db wanted search state offset = Inr (Some v)"
  shows "(\<Sum>(st, n)\<leftarrow>ss_counts v. n) = length (filter (\<lambda>c. c_campaign c = cb_id (ss_campaign v)) (candidates db))"
  using snapshot_page(3,4) [OF assms]
    sum_groups [of "sort_key state_text (dedup (map c_state (of_campaign db (cb_id (ss_campaign v)))))" c_state "of_campaign db (cb_id (ss_campaign v))"]
  by (simp add: candidate_counts_def comp_def of_campaign_def)

section \<open>Details\<close>

lemma set_ancestors: "p \<in> set (ancestors es d) \<longleftrightarrow> (p, d) \<in> (set es)\<^sup>+"
proof -
  have "p \<in> set (ancestors es d) \<longleftrightarrow> (\<exists>c. (c, d) \<in> set es \<and> c \<in> reach es {p})"
    by (auto simp: ancestors_def reach_flip_set)
  also have "\<dots> \<longleftrightarrow> (p, d) \<in> (set es)\<^sup>+"
    by (auto simp: reach_def dest: rtrancl_into_trancl1 elim: tranclE intro: trancl_into_rtrancl)
  finally show ?thesis .
qed

lemma in_drvs_iff: "in_drvs ds c \<longleftrightarrow> (\<exists>d. c_drv c = Some d \<and> d \<in> set ds)"
  by (simp add: in_drvs_def split: option.split)

lemma take_all_below: "length (take n xs) < n \<Longrightarrow> take n xs = xs"
  by simp

text \<open>While fewer than a hundred are listed, the dependents of a package are exactly the
  candidates of its campaign whose derivation reaches the derivation of the package over one
  or more recorded edges.\<close>

theorem package_dependents_exact:
  assumes "detail rt db i = Inr v" and "c_drv (pk_row v) = Some d" and "length (pk_dependents v) < 100"
  shows "set (pk_dependents v) = {c \<in> set (candidates db). c_campaign c = c_campaign (pk_row v) \<and>
    (\<exists>p. c_drv c = Some p \<and> (p, d) \<in> (set (edge_pairs (edges db)))\<^sup>+)}"
proof -
  have "pk_dependents v = package_dependents db (c_campaign (pk_row v)) (c_drv (pk_row v))"
    using assms(1) unfolding detail_def Let_def
    by (elim bindr_InrE) (simp split: option.split_asm; elim bindr_InrE; simp split: option.split_asm; elim bindr_InrE; auto)
  with assms(2,3) show ?thesis
    by (auto simp: package_dependents_def in_drvs_iff set_ancestors of_campaign_def)
qed

text \<open>An identifier of more than 64 bits is not answered with an error status: the exception
  leaves the application.\<close>

lemma wide_identifier_escapes:
  assumes "rq_method rq = ''GET''" and "rq_path rq = ''/api/package''" and "ww_db w = Inr db"
    and "int_arg (get_arg (parse_qs (lg_decode (ww_log w)) (rq_query rq)) ''id'' []) = Inr n" and "2 ^ 63 \<le> n"
  shows "app w rq = Inl (OverflowError ''Python int too large to convert to SQLite INTEGER'')"
  using assms by (simp add: app_def route_def caught_by_app_def detail_def bound_int_def guardr_def)

text \<open>The controller counts as alive exactly when a campaign has a heartbeat of the last 30 seconds.\<close>

lemma fold_max_greater: "(t :: 'a :: linorder) < fold max hs h \<longleftrightarrow> t < h \<or> (\<exists>x \<in> set hs. t < x)"
  by (induction hs arbitrary: h) (auto simp: less_max_iff_disj)

lemma diff_swap: "now - t < 30 \<longleftrightarrow> now - 30 < (t :: rat)"
  by linarith

theorem health_exact: "health now db \<longleftrightarrow> (\<exists>c \<in> set (campaigns db). \<exists>h. cp_heartbeat c = Some h \<and> now - h < 30)"
proof -
  have "health now db \<longleftrightarrow> (\<exists>h \<in> set (List.map_filter cp_heartbeat (campaigns db)). now - 30 < h)"
    by (simp add: health_def last_heartbeat_def fold_max_greater diff_swap split: list.split)
  then show ?thesis by (force simp: List.map_filter_def algebra_simps)
qed

end
