(* ===== verification/ResourceGuarantees.thy ===== *)
theory ResourceGuarantees
  imports WebGuarantees Samples
begin

text \<open>
  The addresses of the dashboard read back: encoding and decoding of text, of queries and of
  reading options.
\<close>

section \<open>Numbers read back\<close>

lemma parse_digits_fold: "list_all is_digit s \<Longrightarrow> parse_digits a s = Some (foldl (\<lambda>n c. 10 * n + digit_val c) a s)"
  by (induction s arbitrary: a) simp_all

lemma digits_value: "foldl (\<lambda>n c. 10 * n + digit_val c) 0 (decimal n) = int n"
proof (induction n rule: decimal.induct)
  case (1 n)
  have "digit_val (char_of (48 + k)) = int k" if "k < 10" for k :: nat using that by (simp add: digit_val_def)
  with 1 show ?case by (subst decimal.simps) (auto simp: zmod_int zdiv_int)
qed

lemma digit_not_space: "is_digit c \<Longrightarrow> \<not> is_space c"
  by (auto simp: is_digit_def is_space_def)

lemma dropWhile_stop: "xs \<noteq> [] \<Longrightarrow> \<not> P (hd xs) \<Longrightarrow> dropWhile P xs = xs"
  by (cases xs) auto

lemma strip_plain: "s \<noteq> [] \<Longrightarrow> \<not> is_space (hd s) \<Longrightarrow> \<not> is_space (last s) \<Longrightarrow> strip s = s"
  by (simp add: strip_def strip_left_def dropWhile_stop hd_rev)

lemma py_int_decimal: "py_int (decimal n) = Some (int n)"
proof -
  obtain c s where cs: "decimal n = c # s" using decimal_not_Nil [of n] by (cases "decimal n") auto
  have digits: "list_all is_digit (c # s)" using decimal_digits [of n] by (simp add: cs)
  then have "strip (decimal n) = decimal n"
    by (intro strip_plain) (auto simp: cs list_all_iff digit_not_space)
  moreover have "c \<noteq> CHR ''-''" "c \<noteq> CHR ''+''" using digits by (auto simp: is_digit_def)
  ultimately show ?thesis
    using digits digits_value [of n] by (simp add: py_int_def cs parse_nat_def parse_digits_fold)
qed

lemma decimal_length: "n < 10 ^ Suc k \<Longrightarrow> length (decimal n) \<le> Suc k"
proof (induction k arbitrary: n)
  case 0
  then show ?case by (subst decimal.simps) simp
next
  case (Suc k)
  then have "n div 10 < 10 ^ Suc k" by (simp add: div_less_iff_less_mult)
  with Suc.IH show ?case by (subst decimal.simps) simp
qed

lemma integer_encoded:
  assumes "low \<le> n" and "n \<le> high" and "0 \<le> n" and "n \<le> 1000000"
  shows "integer (encode_int n) low high = Inr n"
proof -
  have "length (decimal (nat n)) \<le> Suc 6" using assms by (intro decimal_length) (simp add: nat_less_iff)
  then have "int (length (filter is_digit (decimal (nat n)))) \<le> 4300"
    using length_filter_le [of is_digit "decimal (nat n)"] by linarith
  then have "int_arg (encode_int n) = Inr n"
    using assms by (simp add: int_arg_def encode_int_def py_int_decimal)
  then show ?thesis using assms by (simp add: integer_def guardr_def)
qed

section \<open>Quoted text reads back\<close>

text \<open>The bytes of the UTF-8 encoding of a text.\<close>

definition utf8_bytes :: "string \<Rightarrow> string" where
  "utf8_bytes s = concat (map (\<lambda>c. map char_of (utf8 c)) s)"

lemma hex_round: "n < 16 \<Longrightarrow> is_hex_digit (upper_hex n) \<and> hex_value (upper_hex n) = n"
proof -
  assume "n < 16"
  then consider "n < 10" | "10 \<le> n" "n < 16" by linarith
  then show ?thesis by cases (auto simp: upper_hex_def is_hex_digit_def hex_value_def in_range_def Let_def)
qed

lemma unquote_percent_byte:
  assumes "n < 256"
  shows "unquote_bytes (CHR ''%'' # upper_hex (n div 16) # upper_hex (n mod 16) # s) = char_of n # unquote_bytes s"
proof -
  have "n div 16 < 16" using assms by (simp add: div_less_iff_less_mult)
  then show ?thesis using hex_round [of "n div 16"] hex_round [of "n mod 16"] by simp
qed

lemma unquote_percent: "unquote_bytes (percent c @ s) = map char_of (utf8 c) @ unquote_bytes s"
proof -
  have "unquote_bytes (concat (map (\<lambda>n. [CHR ''%'', upper_hex (n div 16), upper_hex (n mod 16)]) ns) @ s)
      = map char_of ns @ unquote_bytes s" if "\<forall>n \<in> set ns. n < 256" for ns
    using that by (induction ns) (simp_all add: unquote_percent_byte del: unquote_bytes.simps)
  then show ?thesis using utf8_byte by (simp add: percent_def)
qed

lemma unquote_plain: "c \<noteq> CHR ''%'' \<Longrightarrow> unquote_bytes (c # s) = c # unquote_bytes s"
  by (cases s; cases "tl s") auto

definition spaced :: "char \<Rightarrow> string" where
  "spaced c = (if c = CHR '' '' \<or> plain_char c then [c] else percent c)"

lemma ascii_utf8: "plain_char c \<or> c = CHR '' '' \<Longrightarrow> map char_of (utf8 c) = [c]"
  by (auto simp: plain_char_def url_safe_def utf8_def Let_def)

lemma unquote_spaced: "unquote_bytes (concat (map spaced s)) = utf8_bytes s"
proof (induction s)
  case (Cons c s)
  have "plain_char c \<Longrightarrow> c \<noteq> CHR ''%''" by (auto simp: plain_char_def url_safe_def)
  with Cons show ?case
    by (auto simp: spaced_def utf8_bytes_def unquote_percent unquote_plain ascii_utf8)
qed (simp add: utf8_bytes_def)

lemma percent_hd: "\<exists>s. percent c = CHR ''%'' # s"
  by (simp add: percent_def utf8_def Let_def)

lemma percent_text: "d \<in> set (percent c) \<Longrightarrow> plain_char d \<or> d = CHR ''%''"
proof -
  assume "d \<in> set (percent c)"
  then have "\<exists>n \<in> set (utf8 c). d = CHR ''%'' \<or> d = upper_hex (n div 16) \<or> d = upper_hex (n mod 16)"
    by (cases "utf8 c") (auto simp: percent_def split: if_splits)
  then obtain n where n: "n \<in> set (utf8 c)" "d = CHR ''%'' \<or> d = upper_hex (n div 16) \<or> d = upper_hex (n mod 16)"
    by blast
  have "n div 16 < 16" using utf8_byte [OF n(1)] by (simp add: div_less_iff_less_mult)
  moreover have "plain_char (upper_hex k)" if "k < 16" for k
    using that hex_round [OF that] upper_hex_safe [OF that] by (auto simp: plain_char_def is_hex_digit_def in_range_def)
  ultimately show ?thesis using n(2) by auto
qed

lemma quote_plus_spaced: "map (\<lambda>c. if c = CHR ''+'' then CHR '' '' else c) (quote_plus s) = concat (map spaced s)"
proof (induction s)
  case (Cons c s)
  have "plain_char d \<Longrightarrow> d \<noteq> CHR ''+''" for d by (auto simp: plain_char_def url_safe_def)
  moreover have "map (\<lambda>d. if d = CHR ''+'' then CHR '' '' else d) (percent c) = percent c"
    using percent_text [of _ c] calculation by (intro map_idI) (auto dest!: percent_text)
  ultimately show ?case using Cons by (auto simp: quote_plus_def spaced_def)
qed (simp add: quote_plus_def)

lemma unquote_quote:
  assumes "\<And>t. decode (utf8_bytes t) = t"
  shows "unquote_plus decode (quote_plus s) = s"
proof (cases "List.member (concat (map spaced s)) CHR ''%''")
  case True
  then show ?thesis using assms by (simp add: unquote_plus_def unquote_def quote_plus_spaced unquote_spaced)
next
  case False
  have "spaced c = [c]" if "c \<in> set s" for c
  proof -
    obtain t where "percent c = CHR ''%'' # t" using percent_hd by auto
    moreover have "CHR ''%'' \<notin> set (spaced c)" using False that by auto
    ultimately show ?thesis by (auto simp: spaced_def split: if_splits)
  qed
  then have "concat (map spaced s) = s" by (induction s) auto
  with False show ?thesis by (simp add: unquote_plus_def unquote_def quote_plus_spaced)
qed

lemma quote_plus_text: "c \<in> set (quote_plus s) \<Longrightarrow> plain_char c \<or> c = CHR ''%'' \<or> c = CHR ''+''"
  by (auto simp: quote_plus_def split: if_splits dest: percent_text)

lemma quote_all_text: "c \<in> set (quote_all s) \<Longrightarrow> plain_char c \<or> c = CHR ''%''"
  by (auto simp: quote_all_def split: if_splits dest: percent_text)

lemma plain_not_special: "plain_char c \<Longrightarrow> c \<noteq> CHR ''&'' \<and> c \<noteq> CHR ''='' \<and> c \<noteq> CHR ''?'' \<and> c \<noteq> CHR ''/''"
  by (auto simp: plain_char_def url_safe_def)

section \<open>Addresses read back\<close>

text \<open>\<^verbatim>\<open>parse_qsl(query, keep_blank_values=True)\<close>, the pairs of a request.\<close>

definition request_pair :: "(string \<Rightarrow> string) \<Rightarrow> string \<Rightarrow> (string \<times> string) option" where
  "request_pair decode field =
     (if field = [] then None
      else let name = takeWhile (\<lambda>c. c \<noteq> CHR ''='') field
        in Some (unquote_plus decode name, unquote_plus decode (drop (Suc (length name)) field)))"

definition request_query :: "(string \<Rightarrow> string) \<Rightarrow> string \<Rightarrow> query" where
  "request_query decode s = List.map_filter (request_pair decode) (split_on CHR ''&'' s)"

definition query_part :: "string \<Rightarrow> string" where
  "query_part u = tl (dropWhile (\<lambda>c. c \<noteq> CHR ''?'') u)"

definition query_field :: "string \<times> query_value \<Rightarrow> string" where
  "query_field = (\<lambda>(k, x). quote_plus k @ ''='' @ quote_plus (value_text x))"

lemma urlencode_fields: "urlencode q = join_on ''&'' (map query_field q)"
  by (simp add: urlencode_def query_field_def)

lemma field_no_amp: "CHR ''&'' \<notin> set (query_field kx)"
  by (auto simp: query_field_def split: prod.splits dest!: quote_plus_text plain_not_special)

lemma request_pair_field:
  assumes "\<And>t. decode (utf8_bytes t) = t"
  shows "request_pair decode (query_field (k, x)) = Some (k, value_text x)"
proof -
  have "CHR ''='' \<notin> set (quote_plus k)" by (auto dest!: quote_plus_text plain_not_special)
  then have "takeWhile (\<lambda>c. c \<noteq> CHR ''='') (quote_plus k @ CHR ''='' # quote_plus (value_text x)) = quote_plus k"
    by (subst takeWhile_append2) auto
  then show ?thesis by (simp add: request_pair_def query_field_def unquote_quote [OF assms])
qed

lemma request_query_encoded:
  assumes "\<And>t. decode (utf8_bytes t) = t"
  shows "request_query decode (urlencode q) = map (\<lambda>(k, x). (k, value_text x)) q"
proof (induction q)
  case Nil
  then show ?case by (simp add: request_query_def urlencode_def request_pair_def List.map_filter_def)
next
  case (Cons kx q)
  obtain k x where kx: "kx = (k, x)" by (cases kx)
  have single: "split_on CHR ''&'' (query_field kx) = [query_field kx]"
    by (intro split_on_single field_no_amp)
  have pair: "request_pair decode (query_field kx) = Some (k, value_text x)"
    by (simp add: kx request_pair_field [OF assms])
  show ?case
  proof (cases "q = []")
    case True
    then show ?thesis by (simp add: request_query_def urlencode_fields single [unfolded kx] pair [unfolded kx] kx List.map_filter_def)
  next
    case False
    have "split_on CHR ''&'' (urlencode (kx # q)) = query_field kx # split_on CHR ''&'' (urlencode q)"
      using False split_on_append_sep [OF field_no_amp, of kx "urlencode q"]
      by (simp add: urlencode_fields join_on_Cons)
    then show ?thesis using Cons pair by (simp add: request_query_def kx List.map_filter_def)
  qed
qed

text \<open>The view that an address of a resource keeps.\<close>

definition kept_view :: "resource \<Rightarrow> view \<Rightarrow> view" where
  "kept_view r v =
     (let on = List.member (rc_carries r); d = default_view in
      \<lparr>vw_watch = (if on ''watch'' then vw_watch v else vw_watch d),
       vw_state = (if on ''state'' then vw_state v else vw_state d),
       vw_facet = (if on ''facet'' then vw_facet v else vw_facet d),
       vw_tier = (if on ''tier'' then vw_tier v else vw_tier d),
       vw_q = (if on ''q'' then vw_q v else vw_q d),
       vw_kind = (if on ''kind'' then vw_kind v else vw_kind d),
       vw_outcome = (if on ''outcome'' then vw_outcome v else vw_outcome d),
       vw_sort = (if on ''sort'' then vw_sort v else vw_sort d),
       vw_focus = (if on ''focus'' then vw_focus v else vw_focus d),
       vw_available = (if on ''available'' then vw_available v else vw_available d),
       vw_page = (if on ''page'' then vw_page v else vw_page d),
       vw_drv = (if on ''drv'' then vw_drv v else vw_drv d),
       vw_follow = (if on ''follow'' then vw_follow v else vw_follow d),
       vw_wrap = (if on ''wrap'' then vw_wrap v else vw_wrap d),
       vw_size = (if on ''size'' then vw_size v else vw_size d),
       vw_transport = (if on ''transport'' then vw_transport v else vw_transport d)\<rparr>)"

lemma fill_text: "fill s params = Inr (t, ps) \<Longrightarrow> CHR ''?'' \<notin> set s \<Longrightarrow> CHR ''?'' \<notin> set t \<and> set ps \<subseteq> set params"
proof (induction s params arbitrary: t ps rule: fill.induct)
  case (2 c s params)
  show ?case
  proof (cases "if c = CHR ''{'' then placeholder s else None")
    case None
    with 2 show ?thesis by (fastforce simp: bindr_eq_Inr)
  next
    case (Some x)
    obtain name rest where x: "x = (name, rest)" by (cases x)
    have rest: "set rest \<subseteq> set s"
      using Some x by (auto simp: placeholder_def Let_def starts_with_def split: if_splits dest!: in_set_dropD list.set_sel(2) [rotated])
    from 2(3) Some x obtain v t' where v: "map_of params name = Some v"
      and t': "fill rest (drop_key name params) = Inr (t', ps)" "t = quote_all (value_text v) @ t'"
      by (auto simp: bindr_eq_Inr split: option.splits)
    have "CHR ''?'' \<notin> set t' \<and> set ps \<subseteq> set (drop_key name params)"
      using 2(2) [OF Some x [symmetric] v t'(1)] rest 2(4) by auto
    then show ?thesis
      using t'(2) by (auto simp: drop_key_def dest!: quote_all_text plain_not_special)
  qed
qed simp

lemma query_part_url:
  assumes "url r v params = Inr u" and "CHR ''?'' \<notin> set (rc_path r)"
  obtains rest where "query_part u = urlencode (query_of r v rest)" and "set rest \<subseteq> set params"
proof -
  from assms(1) obtain path rest where fill: "fill (rc_path r) params = Inr (path, rest)"
    and u: "u = path @ (if query_of r v rest = [] then [] else ''?'' @ urlencode (query_of r v rest))"
    by (auto simp: url_def bindr_eq_Inr Let_def)
  have path: "CHR ''?'' \<notin> set path" and rest: "set rest \<subseteq> set params" using fill_text [OF fill assms(2)] by auto
  have "dropWhile (\<lambda>c. c \<noteq> CHR ''?'') (path @ s) = dropWhile (\<lambda>c. c \<noteq> CHR ''?'') s" for s
    using path by (intro dropWhile_append2) auto
  then have "query_part u = urlencode (query_of r v rest)"
    by (auto simp: query_part_def u urlencode_def path)
  then show ?thesis using rest by (rule that)
qed


section \<open>The options of a written query\<close>

definition field_names :: "string list" where
  "field_names = map fst (view_fields default_view)"

lemma field_names_view: "map fst (view_fields v) = field_names"
  by (simp add: field_names_def view_fields_def)

lemma map_of_filter: "distinct (map fst q) \<Longrightarrow>
    map_of (filter (\<lambda>(k, x). P x) q) k = (case map_of q k of None \<Rightarrow> None | Some x \<Rightarrow> if P x then Some x else None)"
proof (induction q)
  case (Cons kx q)
  then have "map_of q (fst kx) = None" by (simp add: map_of_eq_None_iff)
  with Cons show ?case by (auto split: option.splits)
qed simp

lemma fold_dict_set:
  "k \<notin> fst ` set params \<Longrightarrow> map_of (fold (\<lambda>(k, x). dict_set k x) params base) k = map_of base k"
  by (induction params arbitrary: base) (auto split: prod.splits)

lemma fold_dict_set_distinct:
  "distinct (map fst base) \<Longrightarrow> distinct (map fst (fold (\<lambda>(k, x). dict_set k x) params base))"
  by (induction params arbitrary: base) (auto intro: distinct_dict_set split: prod.splits)

lemma map_of_tabulate: "map_of (map (\<lambda>k. (k, f k)) ks) k = (if k \<in> set ks then Some (f k) else None)"
  by (induction ks) auto

lemma view_value: "k \<in> set field_names \<Longrightarrow> \<exists>x. map_of (view_fields v) k = Some x \<and> x \<noteq> Nothing"
  by (auto simp: field_names_def view_fields_def)

lemma renamed_query:
  assumes "vw_state v \<noteq> ''available''" and "fst ` set params \<inter> set field_names = {}"
  shows "query_of r (Some v) params =
    filter (\<lambda>(k, x). x \<noteq> Nothing \<and> x \<noteq> Text []) (fold (\<lambda>(k, x). dict_set k x) params (carried r v))"
proof -
  have "''state'' \<in> set field_names" by (simp add: field_names_def view_fields_def)
  then have "''state'' \<notin> fst ` set params" using assms(2) by blast
  then have "map_of (fold (\<lambda>(k, x). dict_set k x) params (carried r v)) ''state'' = map_of (carried r v) ''state''"
    by (rule fold_dict_set)
  moreover have "the (map_of (view_fields v) ''state'') = Text (vw_state v)" by (simp add: view_fields_def)
  ultimately have "map_of (fold (\<lambda>(k, x). dict_set k x) params (carried r v)) ''state'' \<noteq> Some (Text ''available'')"
    using assms(1) by (simp add: carried_def map_of_tabulate)
  then show ?thesis unfolding query_of_def by (simp only: option.case Let_def if_False)
qed

lemma query_keys:
  assumes "distinct (rc_carries r)" and "vw_state v \<noteq> ''available''" and "fst ` set params \<inter> set field_names = {}"
  shows "distinct (map fst (query_of r (Some v) params))"
proof -
  have "distinct (map fst (carried r v))" using assms(1) by (simp add: carried_def comp_def)
  then have "distinct (map fst (fold (\<lambda>(k, x). dict_set k x) params (carried r v)))" by (rule fold_dict_set_distinct)
  then show ?thesis by (simp add: renamed_query [OF assms(2,3)] distinct_map_filter)
qed

lemma query_lookup:
  assumes "distinct (rc_carries r)" and "vw_state v \<noteq> ''available''" and "fst ` set params \<inter> set field_names = {}"
    and "map_of (view_fields v) k = Some x"
  shows "map_of (query_of r (Some v) params) k = (if k \<in> set (rc_carries r) \<and> x \<noteq> Text [] then Some x else None)"
proof -
  have k: "k \<in> set field_names" using assms(4) by (metis field_names_view image_eqI fst_conv map_of_SomeD set_map)
  have "distinct (map fst (carried r v))" using assms(1) by (simp add: carried_def comp_def)
  then have "distinct (map fst (fold (\<lambda>(k, x). dict_set k x) params (carried r v)))" by (rule fold_dict_set_distinct)
  moreover have "map_of (fold (\<lambda>(k, x). dict_set k x) params (carried r v)) k = map_of (carried r v) k"
    using assms(3) k by (intro fold_dict_set) auto
  moreover have "x \<noteq> Nothing" using view_value [OF k, of v] assms(4) by auto
  ultimately show ?thesis
    by (simp add: renamed_query [OF assms(2,3)] map_of_filter carried_def map_of_tabulate assms(4))
qed

section \<open>The options survive\<close>

lemma map_of_values: "map_of (map (\<lambda>(k, x). (k, value_text x)) q) k = map_option value_text (map_of q k)"
  by (induction q) auto

lemma map_of_rev: "distinct (map fst q) \<Longrightarrow> map_of (rev q) = map_of q"
  by (subst map_of_inject_set) (simp_all add: rev_map [symmetric])


lemma int_option_range:
  "int_option p k d low high = Inr n \<Longrightarrow> low \<le> d \<Longrightarrow> d \<le> high \<Longrightarrow> low \<le> n \<and> n \<le> high"
  by (auto simp: int_option_def integer_def guardr_def split: option.splits sum.splits if_splits)

definition in_ranges :: "view \<Rightarrow> bool" where
  "in_ranges v \<longleftrightarrow> 0 \<le> vw_follow v \<and> vw_follow v \<le> 1 \<and> 0 \<le> vw_wrap v \<and> vw_wrap v \<le> 1 \<and>
     0 \<le> vw_available v \<and> vw_available v \<le> 1 \<and> 0 \<le> vw_watch v \<and> vw_watch v \<le> 1 \<and>
     0 \<le> vw_page v \<and> vw_page v \<le> 1000000 \<and> 12 \<le> vw_size v \<and> vw_size v \<le> 16"

lemma checked_viewD: "checked_view x = Inr v \<Longrightarrow> x = v"
  by (auto simp: checked_view_def bindr_eq_Inr)

lemma options_checked:
  assumes "options p = Inr v"
  shows "checked_view v = Inr v \<and> in_ranges v"
  using assms unfolding options_def Let_def
proof (elim bindr_InrE)
  fix foll wrap available watch page font
  assume nums: "int_option p ''follow'' (vw_follow default_view) 0 1 = Inr foll"
      "int_option p ''wrap'' (vw_wrap default_view) 0 1 = Inr wrap"
      "int_option p ''available'' (vw_available default_view) 0 1 = Inr available"
      "int_option p ''watch'' (vw_watch default_view) 0 1 = Inr watch"
      "int_option p ''page'' (vw_page default_view) 0 1000000 = Inr page"
      "int_option p ''size'' (vw_size default_view) 12 16 = Inr font"
    and checked: "checked_view (read_view p foll wrap available watch page font) = Inr v"
  have "in_ranges (read_view p foll wrap available watch page font)"
    using nums [THEN int_option_range] by (simp add: in_ranges_def read_view_def Let_def default_view_def)
  then show ?thesis using checked checked_viewD [OF checked] by simp
qed

lemma kept_fine:
  assumes "checked_view v = Inr v" and "in_ranges v"
  shows "checked_view (kept_view r v) = Inr (kept_view r v)"
proof -
  have "allowed_choices v" "vw_facet v = [] \<or> valid_facet (vw_facet v)" "short_options v"
    using assms(1) by (auto simp: checked_view_def bindr_eq_Inr guardr_def split: if_splits)
  moreover have "allowed_choices default_view" "vw_facet default_view = []" "short_options default_view"
    by (simp_all add: allowed_choices_def short_options_def default_view_def PACKAGE_STATES_def)
  ultimately have "allowed_choices (kept_view r v)" "vw_facet (kept_view r v) = [] \<or> valid_facet (vw_facet (kept_view r v))" "short_options (kept_view r v)"
    by (simp_all add: allowed_choices_def short_options_def kept_view_def Let_def)
  then show ?thesis by (simp add: checked_view_def guardr_def)
qed

definition written :: "resource \<Rightarrow> view \<Rightarrow> (string \<times> query_value) list \<Rightarrow> query" where
  "written r v params = map (\<lambda>(k, x). (k, value_text x)) (query_of r (Some v) params)"

definition carries_clean :: "resource \<Rightarrow> view \<Rightarrow> (string \<times> query_value) list \<Rightarrow> bool" where
  "carries_clean r v params \<longleftrightarrow>
     distinct (rc_carries r) \<and> vw_state v \<noteq> ''available'' \<and> fst ` set params \<inter> set field_names = {}"

lemma map_of_written:
  assumes "carries_clean r v params" and "map_of (view_fields v) k = Some x"
  shows "map_of (rev (written r v params)) k = (if k \<in> set (rc_carries r) \<and> x \<noteq> Text [] then Some (value_text x) else None)"
proof -
  have c: "distinct (rc_carries r)" "vw_state v \<noteq> ''available''" "fst ` set params \<inter> set field_names = {}"
    using assms(1) by (auto simp: carries_clean_def)
  have "distinct (map fst (written r v params))"
    using query_keys [OF c] by (simp add: written_def comp_def split_def)
  then show ?thesis
    by (subst map_of_rev) (simp_all add: written_def map_of_values query_lookup [OF c assms(2)])
qed

lemma param_written:
  assumes "carries_clean r v params" and "map_of (view_fields v) k = Some (Text s)" and "s \<noteq> [] \<or> d = []"
  shows "param (written r v params) k d = (if List.member (rc_carries r) k then s else d)"
  using assms(3) by (auto simp: param_def map_of_written [OF assms(1,2)])

lemma int_option_written:
  assumes "carries_clean r v params" and "map_of (view_fields v) k = Some (Number n)"
    and "0 \<le> n" "n \<le> 1000000" "low \<le> n" "n \<le> high"
  shows "int_option (written r v params) k d low high = Inr (if List.member (rc_carries r) k then n else d)"
  using integer_encoded [of low n high] assms(3-) by (simp add: int_option_def map_of_written [OF assms(1,2)])

lemma text_fields:
  shows "map_of (view_fields v) ''state'' = Some (Text (vw_state v))"
    "map_of (view_fields v) ''facet'' = Some (Text (vw_facet v))"
    "map_of (view_fields v) ''tier'' = Some (Text (vw_tier v))"
    "map_of (view_fields v) ''q'' = Some (Text (vw_q v))"
    "map_of (view_fields v) ''kind'' = Some (Text (vw_kind v))"
    "map_of (view_fields v) ''outcome'' = Some (Text (vw_outcome v))"
    "map_of (view_fields v) ''sort'' = Some (Text (vw_sort v))"
    "map_of (view_fields v) ''focus'' = Some (Text (vw_focus v))"
    "map_of (view_fields v) ''drv'' = Some (Text (vw_drv v))"
    "map_of (view_fields v) ''transport'' = Some (Text (vw_transport v))"
  by (simp_all add: view_fields_def)

lemma number_fields:
  shows "map_of (view_fields v) ''follow'' = Some (Number (vw_follow v))"
    "map_of (view_fields v) ''wrap'' = Some (Number (vw_wrap v))"
    "map_of (view_fields v) ''available'' = Some (Number (vw_available v))"
    "map_of (view_fields v) ''watch'' = Some (Number (vw_watch v))"
    "map_of (view_fields v) ''page'' = Some (Number (vw_page v))"
    "map_of (view_fields v) ''size'' = Some (Number (vw_size v))"
  by (simp_all add: view_fields_def)

lemma checked_texts:
  assumes "checked_view v = Inr v"
  shows "vw_state v \<noteq> []" "vw_sort v \<noteq> []" "vw_transport v \<noteq> []" "vw_state v \<noteq> ''available''"
proof -
  have "allowed_choices v" using assms by (simp add: checked_view_def bindr_eq_Inr guardr_def split: if_splits)
  then have "vw_state v \<in> set PACKAGE_STATES" "vw_sort v \<in> {''recent'', ''oldest'', ''longest''}" "vw_transport v \<in> {''sse'', ''poll''}"
    unfolding allowed_choices_def by simp_all
  then show "vw_state v \<noteq> []" "vw_sort v \<noteq> []" "vw_transport v \<noteq> []" "vw_state v \<noteq> ''available''"
    by (auto simp: PACKAGE_STATES_def)
qed

lemma read_written:
  assumes "carries_clean r v params" and "checked_view v = Inr v"
  shows "read_view (written r v params) (vw_follow (kept_view r v)) (vw_wrap (kept_view r v)) (vw_available (kept_view r v))
     (vw_watch (kept_view r v)) (vw_page (kept_view r v)) (vw_size (kept_view r v)) = kept_view r v"
proof -
  have nonempty: "vw_state v \<noteq> []" "vw_sort v \<noteq> []" "vw_transport v \<noteq> []" and state: "vw_state v \<noteq> ''available''"
    using checked_texts [OF assms(2)] by simp_all
  note written = text_fields [THEN param_written [OF assms(1)]]
  have texts: "param (written r v params) ''state'' ''built'' = (if List.member (rc_carries r) ''state'' then vw_state v else ''built'')"
    "param (written r v params) ''sort'' ''recent'' = (if List.member (rc_carries r) ''sort'' then vw_sort v else ''recent'')"
    "param (written r v params) ''transport'' ''sse'' = (if List.member (rc_carries r) ''transport'' then vw_transport v else ''sse'')"
    using nonempty by (simp_all only: written simp_thms)
  have "(if param (written r v params) ''state'' ''built'' = ''available'' then ''built'' else param (written r v params) ''state'' ''built'')
      = (if List.member (rc_carries r) ''state'' then vw_state v else ''built'')"
    using state by (simp add: texts)
  moreover have "param (written r v params) ''facet'' [] = (if List.member (rc_carries r) ''facet'' then vw_facet v else [])"
    "param (written r v params) ''tier'' [] = (if List.member (rc_carries r) ''tier'' then vw_tier v else [])"
    "param (written r v params) ''q'' [] = (if List.member (rc_carries r) ''q'' then vw_q v else [])"
    "param (written r v params) ''kind'' [] = (if List.member (rc_carries r) ''kind'' then vw_kind v else [])"
    "param (written r v params) ''outcome'' [] = (if List.member (rc_carries r) ''outcome'' then vw_outcome v else [])"
    "param (written r v params) ''focus'' [] = (if List.member (rc_carries r) ''focus'' then vw_focus v else [])"
    "param (written r v params) ''drv'' [] = (if List.member (rc_carries r) ''drv'' then vw_drv v else [])"
    by (simp_all only: written simp_thms)
  ultimately show ?thesis
    unfolding read_view_def kept_view_def Let_def default_view_def view.select_convs texts by (simp only:)
qed

lemma options_written:
  assumes "carries_clean r v params" and "checked_view v = Inr v" and "in_ranges v"
  shows "options (written r v params) = Inr (kept_view r v)"
proof -
  let ?p = "written r v params" and ?d = default_view
  have r: "0 \<le> vw_follow v" "vw_follow v \<le> 1" "0 \<le> vw_wrap v" "vw_wrap v \<le> 1" "0 \<le> vw_available v" "vw_available v \<le> 1"
    "0 \<le> vw_watch v" "vw_watch v \<le> 1" "0 \<le> vw_page v" "vw_page v \<le> 1000000" "12 \<le> vw_size v" "vw_size v \<le> 16"
    using assms(3) by (auto simp: in_ranges_def)
  have "int_option ?p ''follow'' (vw_follow ?d) 0 1 = Inr (vw_follow (kept_view r v))"
    "int_option ?p ''wrap'' (vw_wrap ?d) 0 1 = Inr (vw_wrap (kept_view r v))"
    "int_option ?p ''available'' (vw_available ?d) 0 1 = Inr (vw_available (kept_view r v))"
    "int_option ?p ''watch'' (vw_watch ?d) 0 1 = Inr (vw_watch (kept_view r v))"
    "int_option ?p ''page'' (vw_page ?d) 0 1000000 = Inr (vw_page (kept_view r v))"
    "int_option ?p ''size'' (vw_size ?d) 12 16 = Inr (vw_size (kept_view r v))"
    using r by (simp_all add: kept_view_def Let_def number_fields [THEN int_option_written [OF assms(1)]] split del: if_split)
  then show ?thesis
    by (simp add: options_def Let_def read_written [OF assms(1,2)] kept_fine [OF assms(2,3)])
qed

lemma named_resources:
  assumes "(name, r) \<in> set RESOURCES"
  shows "distinct (rc_carries r) \<and> CHR ''?'' \<notin> set (rc_path r)"
proof -
  have "list_all (\<lambda>(name, r). distinct (rc_carries r) \<and> \<not> List.member (rc_path r) CHR ''?'') RESOURCES" by code_simp
  then show ?thesis using assms by (force simp: list_all_iff)
qed


text \<open>A decoder of UTF-8 on the characters of the model.\<close>

fun latin_decode :: "string \<Rightarrow> string" where
  "latin_decode (a # b # s) =
     (if 192 \<le> (of_char a :: nat) then char_of (64 * (of_char a - 192) + (of_char b - 128) :: nat) # latin_decode s
      else a # latin_decode (b # s))"
| "latin_decode s = s"

lemma latin_decode_utf8: "latin_decode (utf8_bytes t) = t"
proof (induction t)
  case (Cons c t)
  have c: "of_char c < (256 :: nat)" by (metis of_char_mod_256 mod_less_divisor zero_less_numeral)
  show ?case
  proof (cases "of_char c < (128 :: nat)")
    case True
    then have "utf8_bytes (c # t) = c # utf8_bytes t" by (simp add: utf8_bytes_def utf8_def)
    with True Cons show ?thesis by (cases "utf8_bytes t") auto
  next
    case False
    let ?n = "of_char c :: nat"
    have "?n div 64 < 4" using c by (simp add: div_less_iff_less_mult)
    then have "192 + ?n div 64 < 256" "128 + ?n mod 64 < 256" by auto
    then have "utf8_bytes (c # t) = char_of (192 + ?n div 64) # char_of (128 + ?n mod 64) # utf8_bytes t"
      and "of_char (char_of (192 + ?n div 64) :: char) = 192 + ?n div 64" "of_char (char_of (128 + ?n mod 64) :: char) = 128 + ?n mod 64"
      using False by (simp_all add: utf8_bytes_def utf8_def Let_def)
    then show ?thesis using Cons by simp
  qed
qed (simp add: utf8_bytes_def)

definition sample_query :: query where
  "sample_query = [(''q'', ''c++ & more''), (''page'', ''3''), (''state'', ''available'')]"


end
