(* ===== verification/ForestGuarantees.thy ===== *)
theory ForestGuarantees
  imports DashboardApp ResourceGuarantees
begin

text \<open>
  The forest of running builds: what the lookups of parents keep, what a path found is, and
  that every group shows recorded edges only.
\<close>

section \<open>The forest shows recorded edges only\<close>

text \<open>A path from a root down to a build: every node is among the looked-up parents of the next.\<close>

fun linked :: "(string \<Rightarrow> string list) \<Rightarrow> string list \<Rightarrow> bool" where
  "linked look (a # b # xs) \<longleftrightarrow> a \<in> set (look b) \<and> linked look (b # xs)"
| "linked look _ \<longleftrightarrow> True"

lemma linked_append:
  "linked look (xs @ ys) \<longleftrightarrow> linked look xs \<and> linked look ys \<and> (xs = [] \<or> ys = [] \<or> last xs \<in> set (look (hd ys)))"
proof (induction xs rule: induct_list012)
  case (2 x)
  then show ?case by (cases ys) auto
qed auto

definition rooted_path :: "(string \<Rightarrow> string list) \<Rightarrow> roots \<Rightarrow> string \<Rightarrow> string list \<Rightarrow> bool" where
  "rooted_path look roots d p \<longleftrightarrow> p \<noteq> [] \<and> hd p \<in> fst ` set roots \<and> last p = d \<and> linked look p"

definition true_lookups :: "(string \<Rightarrow> string list) \<Rightarrow> lookups \<Rightarrow> bool" where
  "true_lookups look lk \<longleftrightarrow> (\<forall>(d, ps) \<in> set (snd lk). ps = look d)"

definition true_placements :: "(string \<Rightarrow> string list) \<Rightarrow> roots \<Rightarrow> placements \<Rightarrow> bool" where
  "true_placements look roots placed \<longleftrightarrow> (\<forall>(d, p) \<in> set placed. rooted_path look roots d p)"

definition open_chain :: "(string \<Rightarrow> string list) \<Rightarrow> string \<Rightarrow> string \<times> string list \<Rightarrow> bool" where
  "open_chain look start x \<longleftrightarrow> snd x \<noteq> [] \<and> hd (snd x) = start \<and> last (snd x) = fst x \<and> linked look (rev (snd x))"

lemma known_parents_true:
  assumes "known_parents look d lk = Some (ps, lk')" and "true_lookups look lk"
  shows "ps = look d \<and> true_lookups look lk'"
  using assms by (auto simp: known_parents_def true_lookups_def split: option.splits if_splits dest!: map_of_SomeD)

lemma rev_butlast: "xs \<noteq> [] \<Longrightarrow> rev xs = last xs # rev (butlast xs)"
  by (metis append_butlast_last_id rev.simps(2) rev_append rev_rev_ident append_Cons append_Nil)

lemma join_placed:
  assumes "open_chain look start (current, chain)" and "rooted_path look roots current p"
  shows "rooted_path look roots start (p @ rev (butlast chain))"
proof -
  have whole: "rev chain = current # rev (butlast chain)" using assms(1) by (auto simp: open_chain_def intro: rev_butlast)
  have "linked look (rev chain)" using assms(1) by (simp add: open_chain_def)
  then have linked: "linked look (current # rev (butlast chain))" by (simp only: whole)
  have chain: "chain \<noteq> []" "hd chain = start" "last chain = current" using assms(1) by (auto simp: open_chain_def)
  have p: "p \<noteq> []" "hd p \<in> fst ` set roots" "last p = current" "linked look p" using assms(2) by (auto simp: rooted_path_def)
  show ?thesis
  proof (cases "butlast chain = []")
    case True
    then have "start = current" using chain by (metis append_butlast_last_id append_Nil list.sel(1))
    with True p show ?thesis by (simp add: rooted_path_def)
  next
    case False
    have "linked look (p @ rev (butlast chain))"
      using linked p False by (cases "rev (butlast chain)") (auto simp: linked_append simp del: rev_is_Nil_conv)
    moreover have "last (rev (butlast chain)) = start"
      using False chain by (metis append_butlast_last_id hd_append2 last_rev)
    ultimately show ?thesis using p False by (simp add: rooted_path_def)
  qed
qed

lemma find_path_sound:
  assumes "find_path look placed roots todo seen lk = (r, lk')"
    and "true_placements look roots placed" and "true_lookups look lk" and "\<forall>x \<in> set todo. open_chain look start x"
  shows "(\<forall>p. r = Some p \<longrightarrow> rooted_path look roots start p) \<and> true_lookups look lk'"
  using assms
proof (induction look placed roots todo seen lk arbitrary: r lk' rule: find_path.induct)
  case (1 look placed roots seen lk)
  then show ?case by auto
next
  case (2 look placed roots current chain todo seen lk)
  have here: "open_chain look start (current, chain)" and rest: "\<forall>x \<in> set todo. open_chain look start x" using 2(6) by auto
  show ?case
  proof (cases "map_of placed current")
    case (Some p)
    then have "rooted_path look roots current p"
      using 2(4) by (auto simp: true_placements_def dest!: map_of_SomeD)
    with Some 2(3,5) show ?thesis using join_placed [OF here] by auto
  next
    case none: None
    show ?thesis
    proof (cases "map_of roots current")
      case (Some l)
      then have "current \<in> fst ` set roots" by (force dest: map_of_SomeD)
      then have "rooted_path look roots start (rev chain)"
        using here by (simp add: open_chain_def rooted_path_def hd_rev last_rev)
      with Some none 2(3,5) show ?thesis by auto
    next
      case no_root: None
      show ?thesis
      proof (cases "8 \<le> length chain")
        case True
        with none no_root 2 rest show ?thesis by auto
      next
        case short: False
        show ?thesis
        proof (cases "known_parents look current lk")
          case None
          with none no_root short 2(3,5) show ?thesis by auto
        next
          case (Some x)
          obtain ps lk1 where x: "x = (ps, lk1)" by (cases x)
          have ps: "ps = look current" and lk1: "true_lookups look lk1"
            using known_parents_true [OF Some [unfolded x] 2(5)] by auto
          have "open_chain look start (p, chain @ [p])" if "p \<in> set (unseen_parents ps seen)" for p
          proof -
            have "p \<in> set (look current)" using that ps by (auto simp: unseen_parents_def dest: in_set_takeD)
            then show ?thesis
              using here by (cases "rev chain") (auto simp: open_chain_def hd_append)
          qed
          then have "\<forall>y \<in> set (todo @ map (\<lambda>p. (p, chain @ [p])) (unseen_parents ps seen)). open_chain look start y"
            using rest by auto
          then show ?thesis
            using 2(2) [OF none _ short Some x [symmetric], of r lk'] 2(3,4) lk1 none no_root short Some x by simp
        qed
      qed
    qed
  qed
qed

section \<open>Each node is shown once\<close>

fun tree_nodes :: "forest \<Rightarrow> string list" where
  "tree_nodes (Forest bs) = concat (map (\<lambda>(x, t). x # tree_nodes t) bs)"

fun tree_links :: "forest \<Rightarrow> (string \<times> string) list" where
  "tree_links (Forest bs) = concat (map (\<lambda>(x, t). map (\<lambda>y. (x, y)) (map fst (branches t)) @ tree_links t) bs)"

fun has_path :: "string list \<Rightarrow> forest \<Rightarrow> bool" where
  "has_path [] t \<longleftrightarrow> True"
| "has_path (x # xs) t \<longleftrightarrow> (case map_of (branches t) x of None \<Rightarrow> False | Some s \<Rightarrow> has_path xs s)"

lemma set_dict_set: "set (dict_set k v kvs) \<subseteq> insert (k, v) (set kvs)"
  by (induction k v kvs rule: dict_set.induct) auto

definition fresh_chain :: "placements \<Rightarrow> string list \<Rightarrow> string \<times> string list \<Rightarrow> bool" where
  "fresh_chain placed seen x \<longleftrightarrow> snd x \<noteq> [] \<and> last (snd x) = fst x \<and> set (snd x) \<subseteq> set seen \<and> distinct (snd x)
     \<and> set (butlast (snd x)) \<inter> fst ` set placed = {}"

text \<open>A found path continues a placed one with nodes that are not placed, or consists of such nodes.\<close>

definition extends_placed :: "placements \<Rightarrow> string list \<Rightarrow> bool" where
  "extends_placed placed path \<longleftrightarrow> (\<exists>p rest. path = p @ rest \<and> (p = [] \<or> map_of placed (last p) = Some p)
     \<and> set rest \<inter> fst ` set placed = {} \<and> distinct rest)"

lemma set_butlast: "xs \<noteq> [] \<Longrightarrow> set xs = insert (last xs) (set (butlast xs))"
  by (metis append_butlast_last_id Un_insert_right set_append list.simps(15) empty_set sup_bot_right)

lemma find_path_extends:
  assumes "find_path look placed roots todo seen lk = (Some path, lk')" and "\<forall>x \<in> set todo. fresh_chain placed seen x"
    and "\<forall>(d, p) \<in> set placed. last p = d"
  shows "extends_placed placed path"
  using assms
proof (induction look placed roots todo seen lk arbitrary: lk' rule: find_path.induct)
  case (2 look placed roots current chain todo seen lk)
  have here: "fresh_chain placed seen (current, chain)" and rest: "\<forall>x \<in> set todo. fresh_chain placed seen x" using 2(4) by auto
  show ?case
  proof (cases "map_of placed current")
    case (Some p)
    then have "last p = current" using 2(5) by (auto dest!: map_of_SomeD)
    moreover have "path = p @ rev (butlast chain)" using Some 2(3) by simp
    ultimately show ?thesis using Some here unfolding extends_placed_def
      by (intro exI [of _ p] exI [of _ "rev (butlast chain)"]) (auto simp: fresh_chain_def distinct_butlast)
  next
    case none: None
    then have "current \<notin> fst ` set placed" by (simp add: map_of_eq_None_iff)
    then have unplaced: "set chain \<inter> fst ` set placed = {}"
      using here set_butlast [of chain] by (auto simp: fresh_chain_def)
    show ?thesis
    proof (cases "map_of roots current")
      case (Some l)
      with none 2(3) have "path = rev chain" by simp
      with here unplaced show ?thesis unfolding extends_placed_def
        by (intro exI [of _ "[]"] exI [of _ "rev chain"]) (auto simp: fresh_chain_def)
    next
      case no_root: None
      show ?thesis
      proof (cases "8 \<le> length chain")
        case True
        with none no_root 2 rest show ?thesis by auto
      next
        case short: False
        show ?thesis
        proof (cases "known_parents look current lk")
          case None
          with none no_root short 2(3) show ?thesis by auto
        next
          case (Some x)
          obtain ps lk1 where x: "x = (ps, lk1)" by (cases x)
          let ?new = "unseen_parents ps seen"
          have "fresh_chain placed (seen @ ?new) (p, chain @ [p])" if "p \<in> set ?new" for p
            using that here unplaced by (auto simp: fresh_chain_def unseen_parents_def)
          moreover have "fresh_chain placed (seen @ ?new) y" if "y \<in> set todo" for y
            using that rest by (auto simp: fresh_chain_def)
          ultimately have "\<forall>y \<in> set (todo @ map (\<lambda>p. (p, chain @ [p])) ?new). fresh_chain placed (seen @ ?new) y" by auto
          then show ?thesis
            using 2(2) [OF none _ short Some x [symmetric], of lk'] 2(3,5) none no_root short Some x by simp
        qed
      qed
    qed
  qed
qed simp

lemma concat_dict_set_new: "map_of bs x = None \<Longrightarrow> dict_set x v bs = bs @ [(x, v)]"
  by (induction bs) auto

lemma concat_dict_set:
  "map_of bs x = Some s \<Longrightarrow> mset (concat (map (\<lambda>(y, t). y # tree_nodes t) (dict_set x s' bs))) + mset (tree_nodes s) =
    mset (concat (map (\<lambda>(y, t). y # tree_nodes t) bs)) + mset (tree_nodes s')"
  by (induction bs) auto

lemma plant_fresh: "set path \<inter> set (tree_nodes t) = {} \<Longrightarrow> mset (tree_nodes (plant path t)) = mset (tree_nodes t) + mset path"
proof (induction path t rule: plant.induct)
  case (2 x xs t)
  obtain bs where t: "t = Forest bs" by (cases t)
  have "map_of bs x = None" using 2(2) by (force simp: t map_of_eq_None_iff)
  with 2(1) show ?case by (simp add: t concat_dict_set_new)
qed simp

lemma plant_extends:
  assumes "has_path q t" and "set rest \<inter> set (tree_nodes t) = {}"
  shows "mset (tree_nodes (plant (q @ rest) t)) = mset (tree_nodes t) + mset rest"
  using assms
proof (induction q arbitrary: t)
  case Nil
  then show ?case by (simp add: plant_fresh)
next
  case (Cons x q)
  obtain bs where t: "t = Forest bs" by (cases t)
  obtain s where s: "map_of bs x = Some s" "has_path q s" using Cons.prems(1) by (auto simp: t split: option.splits)
  have "set (tree_nodes s) \<subseteq> set (tree_nodes t)" using map_of_SomeD [OF s(1)] by (force simp: t)
  then have "mset (tree_nodes (plant (q @ rest) s)) = mset (tree_nodes s) + mset rest" using Cons s(2) by blast
  then show ?case using concat_dict_set [OF s(1), of "plant (q @ rest) s"] by (simp add: t s)
qed

lemma has_path_plant: "has_path p t \<Longrightarrow> has_path p (plant q t)"
proof (induction q t arbitrary: p rule: plant.induct)
  case (2 x xs t)
  then show ?case by (cases p) (auto split: option.splits)
qed simp

lemma has_path_planted: "has_path (take k q) (plant q t)"
proof (induction q t arbitrary: k rule: plant.induct)
  case (2 x xs t)
  then show ?case by (cases k) auto
qed simp

lemma tops_plant: "fst ` set (branches (plant p t)) \<subseteq> fst ` set (branches t) \<union> set (take 1 p)"
  by (cases p) (auto simp: keys_dict_set)

lemma set_tree_links:
  "set (tree_links (Forest bs)) = (\<Union>(y, t) \<in> set bs. (\<lambda>z. (y, z)) ` fst ` set (branches t) \<union> set (tree_links t))"
  by auto

lemma links_plant: "set (tree_links (plant p t)) \<subseteq> set (tree_links t) \<union> set (zip p (tl p))"
proof (induction p t rule: plant.induct)
  case (2 x xs t)
  obtain bs where t: "t = Forest bs" by (cases t)
  define s v where "s = (case map_of bs x of None \<Rightarrow> Forest [] | Some b \<Rightarrow> b)" and "v = plant xs s"
  have sub: "set (tree_links s) \<subseteq> set (tree_links t)" "(\<lambda>y. (x, y)) ` fst ` set (branches s) \<subseteq> set (tree_links t)"
  proof -
    have "(\<lambda>y. (x, y)) ` fst ` set (branches s) \<union> set (tree_links s) \<subseteq> set (tree_links t)"
    proof (cases "map_of bs x")
      case (Some b)
      then show ?thesis
        using UN_upper [OF map_of_SomeD [OF Some], of "\<lambda>(y, t). (\<lambda>z. (y, z)) ` fst ` set (branches t) \<union> set (tree_links t)"]
        unfolding t set_tree_links s_def by simp
    qed (simp add: s_def)
    then show "set (tree_links s) \<subseteq> set (tree_links t)" "(\<lambda>y. (x, y)) ` fst ` set (branches s) \<subseteq> set (tree_links t)" by auto
  qed
  have "set (tree_links (plant (x # xs) t)) = set (tree_links (Forest (dict_set x v bs)))" by (simp add: t s_def v_def)
  also have "\<dots> \<subseteq> (\<Union>(y, t) \<in> insert (x, v) (set bs). (\<lambda>z. (y, z)) ` fst ` set (branches t) \<union> set (tree_links t))"
    unfolding set_tree_links by (intro UN_mono set_dict_set subset_refl)
  also have "\<dots> = (\<lambda>y. (x, y)) ` fst ` set (branches v) \<union> set (tree_links v) \<union> set (tree_links t)"
    by (simp only: UN_insert t set_tree_links split)
  also have "\<dots> \<subseteq> (\<lambda>y. (x, y)) ` set (take 1 xs) \<union> set (tree_links t) \<union> set (zip xs (tl xs))"
  proof -
    have "(\<lambda>y. (x, y)) ` fst ` set (branches v) \<subseteq> (\<lambda>y. (x, y)) ` (fst ` set (branches s) \<union> set (take 1 xs))"
      unfolding v_def by (intro image_mono tops_plant)
    moreover have "set (tree_links v) \<subseteq> set (tree_links s) \<union> set (zip xs (tl xs))" using 2 by (simp add: t s_def v_def)
    ultimately show ?thesis using sub by (simp add: image_Un) blast
  qed
  also have "\<dots> \<subseteq> set (tree_links t) \<union> set (zip (x # xs) (tl (x # xs)))" by (cases xs) auto
  finally show ?case .
qed simp

lemma linked_zip: "linked look p \<Longrightarrow> (a, b) \<in> set (zip p (tl p)) \<Longrightarrow> a \<in> set (look b)"
  by (induction look p rule: linked.induct) auto

lemma linked_take: "linked look p \<Longrightarrow> linked look (take k p)"
  by (metis append_take_drop_id linked_append)

section \<open>What growing the forest keeps\<close>

definition grown_ok :: "(string \<Rightarrow> string list) \<Rightarrow> roots \<Rightarrow> growth \<Rightarrow> bool" where
  "grown_ok look roots g \<longleftrightarrow>
     true_lookups look (gw_lookups g) \<and> true_placements look roots (gw_placed g)
     \<and> (\<forall>(a, b) \<in> set (tree_links (gw_tree g)). a \<in> set (look b))
     \<and> fst ` set (branches (gw_tree g)) \<subseteq> fst ` set roots
     \<and> distinct (tree_nodes (gw_tree g)) \<and> fst ` set (gw_placed g) = set (tree_nodes (gw_tree g))
     \<and> (\<forall>(d, p) \<in> set (gw_placed g). has_path p (gw_tree g))"

lemma prefixes_fold:
  "set (fold (\<lambda>i. dict_set (f i) (h i)) is placed) \<subseteq> set placed \<union> (\<lambda>i. (f i, h i)) ` set is"
proof (induction "is" arbitrary: placed)
  case (Cons i js)
  have "set (fold (\<lambda>i. dict_set (f i) (h i)) js (dict_set (f i) (h i) placed)) \<subseteq>
      set (dict_set (f i) (h i) placed) \<union> (\<lambda>i. (f i, h i)) ` set js" by (rule Cons)
  then show ?case using set_dict_set [of "f i" "h i" placed] by auto
qed simp

lemma prefixes_keys: "fst ` set (fold (\<lambda>i. dict_set (f i) (h i)) is placed) = fst ` set placed \<union> f ` set is"
  by (induction "is" arbitrary: placed) (auto simp: keys_dict_set)

lemma place_prefixes_set:
  "set (place_prefixes path placed) \<subseteq> set placed \<union> {(path ! i, take (Suc i) path) | i. i < length path}"
  using prefixes_fold [of "\<lambda>i. path ! i" "\<lambda>i. take (Suc i) path" "[0..<length path]" placed]
  by (fastforce simp: place_prefixes_def)

lemma place_prefixes_keys: "fst ` set (place_prefixes path placed) = fst ` set placed \<union> set path"
  by (simp add: place_prefixes_def prefixes_keys) (auto simp: set_conv_nth)

lemma rooted_prefix:
  assumes "rooted_path look roots d p" and "i < length p"
  shows "rooted_path look roots (p ! i) (take (Suc i) p)"
proof -
  have p: "p \<noteq> []" "hd p \<in> fst ` set roots" "linked look p" using assms(1) by (auto simp: rooted_path_def)
  have "hd (take (Suc i) p) = hd p" using p(1) by (cases p) auto
  moreover have "last (take (Suc i) p) = p ! i" using assms(2) by (simp add: take_Suc_conv_app_nth)
  ultimately show ?thesis using p linked_take [OF p(3)] by (simp add: rooted_path_def)
qed

lemma has_path_nodes: "has_path p t \<Longrightarrow> set p \<subseteq> set (tree_nodes t)"
proof (induction p arbitrary: t)
  case (Cons x p)
  obtain bs where t: "t = Forest bs" by (cases t)
  obtain s where "map_of bs x = Some s" "has_path p s" using Cons.prems by (auto simp: t split: option.splits)
  then show ?case using Cons.IH [of s] by (force simp: t dest!: map_of_SomeD)
qed simp

lemma planted_nodes:
  assumes "extends_placed placed path" and "fst ` set placed = set (tree_nodes t)" and "distinct (tree_nodes t)"
    and "\<forall>(d, p) \<in> set placed. has_path p t"
  shows "distinct (tree_nodes (plant path t)) \<and> set (tree_nodes (plant path t)) = set (tree_nodes t) \<union> set path"
proof -
  obtain p rest where path: "path = p @ rest" and p: "p = [] \<or> map_of placed (last p) = Some p"
    and rest: "set rest \<inter> set (tree_nodes t) = {}" "distinct rest"
    using assms(1,2) by (auto simp: extends_placed_def)
  have "has_path p t" using p assms(4) by (auto dest!: map_of_SomeD)
  then have "mset (tree_nodes (plant path t)) = mset (tree_nodes t @ rest)" and "set p \<subseteq> set (tree_nodes t)"
    using plant_extends rest has_path_nodes by (auto simp: path)
  moreover have "distinct (tree_nodes t @ rest)" using rest assms(3) by auto
  ultimately show ?thesis
    by (metis mset_eq_imp_distinct_iff mset_eq_setD path set_append sup.absorb_iff1 sup_assoc)
qed

lemma plant_ok:
  assumes ok: "grown_ok look roots g" and rooted: "rooted_path look roots d path"
    and extends: "extends_placed (gw_placed g) path" and lookups: "true_lookups look lk"
  shows "grown_ok look roots (g\<lparr>gw_lookups := lk, gw_tree := plant path (gw_tree g), gw_nodes := ns,
     gw_placed := place_prefixes path (gw_placed g)\<rparr>)"
proof -
  have nodes: "distinct (tree_nodes (plant path (gw_tree g)))"
      "set (tree_nodes (plant path (gw_tree g))) = set (tree_nodes (gw_tree g)) \<union> set path"
    using planted_nodes [OF extends] ok by (auto simp: grown_ok_def)
  have placed: "rooted_path look roots e p \<and> has_path p (plant path (gw_tree g))"
    if mem: "(e, p) \<in> set (place_prefixes path (gw_placed g))" for e p
  proof -
    consider "(e, p) \<in> set (gw_placed g)" | i where "i < length path" "e = path ! i" "p = take (Suc i) path"
      using mem place_prefixes_set [of path "gw_placed g"] by blast
    then show ?thesis
    proof cases
      case 1
      then show ?thesis using ok by (auto simp: grown_ok_def true_placements_def has_path_plant)
    next
      case 2
      then show ?thesis using rooted_prefix [OF rooted] has_path_planted by auto
    qed
  qed
  moreover have "\<forall>(a, b) \<in> set (tree_links (plant path (gw_tree g))). a \<in> set (look b)"
    using ok rooted links_plant [of path "gw_tree g"] linked_zip [of look path]
    by (fastforce simp: grown_ok_def rooted_path_def)
  moreover have "fst ` set (branches (plant path (gw_tree g))) \<subseteq> fst ` set roots"
  proof (rule order.trans [OF tops_plant])
    have "set (take 1 path) = {hd path}" using rooted by (cases path) (auto simp: rooted_path_def)
    then show "fst ` set (branches (gw_tree g)) \<union> set (take 1 path) \<subseteq> fst ` set roots"
      using ok rooted by (simp add: grown_ok_def rooted_path_def)
  qed
  ultimately show ?thesis
    using ok lookups nodes unfolding grown_ok_def true_placements_def
    by (simp add: place_prefixes_keys) (auto dest: placed)
qed

text \<open>The builds that are shown: in the tree or beside it.\<close>

definition shown_builds :: "growth \<Rightarrow> string set" where
  "shown_builds g = set (tree_nodes (gw_tree g)) \<union> set (gw_detached g)"

lemma grow_step:
  assumes "grown_ok look roots g"
  shows "grown_ok look roots (grow look roots ob g) \<and> shown_builds g \<subseteq> shown_builds (grow look roots ob g)
    \<and> (\<not> settled ob \<longrightarrow> ob_drv ob \<in> shown_builds (grow look roots ob g))"
proof (cases "settled ob")
  case True
  then show ?thesis using assms by (simp add: grow_def)
next
  case False
  let ?d = "ob_drv ob"
  obtain r lk where found: "find_path look (gw_placed g) roots [(?d, [?d])] [?d] (gw_lookups g) = (r, lk)" by (rule prod.exhaust)
  have sound: "\<forall>p. r = Some p \<longrightarrow> rooted_path look roots ?d p" "true_lookups look lk"
    using find_path_sound [OF found, of ?d] assms by (auto simp: grown_ok_def open_chain_def)
  have detached: "grown_ok look roots (g\<lparr>gw_lookups := lk, gw_detached := ds, gw_nodes := ns\<rparr>)" for ds ns
    using assms sound(2) by (simp add: grown_ok_def)
  show ?thesis
  proof (cases "\<exists>p. r = Some p \<and> length p \<le> 8")
    case True
    then obtain p where p: "r = Some p" "length p \<le> 8" by auto
    have rooted: "rooted_path look roots ?d p" using sound(1) p(1) by simp
    have extends: "extends_placed (gw_placed g) p"
      using find_path_extends [OF found [unfolded p(1)]] assms
      by (auto simp: fresh_chain_def grown_ok_def true_placements_def rooted_path_def)
    have nodes: "set (tree_nodes (plant p (gw_tree g))) = set (tree_nodes (gw_tree g)) \<union> set p"
      using planted_nodes [OF extends] assms by (auto simp: grown_ok_def)
    have "?d \<in> set p" using rooted by (metis rooted_path_def last_in_set)
    then show ?thesis
      using plant_ok [OF assms rooted extends sound(2)] nodes False found p
      by (auto simp: grow_def shown_builds_def simp del: find_path.simps)
  next
    case no: False
    then show ?thesis using False found detached by (cases r) (auto simp: grow_def shown_builds_def simp del: find_path.simps)
  qed
qed

lemma grow_all:
  assumes "grown_ok look roots g"
  shows "grown_ok look roots (fold (grow look roots) obs g) \<and> shown_builds g \<subseteq> shown_builds (fold (grow look roots) obs g)
    \<and> (\<forall>ob \<in> set obs. \<not> settled ob \<longrightarrow> ob_drv ob \<in> shown_builds (fold (grow look roots) obs g))"
  using assms
proof (induction obs arbitrary: g)
  case (Cons ob obs)
  have "grown_ok look roots (grow look roots ob g)" using grow_step [OF Cons.prems] by blast
  from Cons.IH [OF this] grow_step [OF Cons.prems, of ob] show ?case by auto
qed simp


section \<open>The forest of the summary\<close>

definition requested :: "attempt_view \<Rightarrow> string set" where
  "requested r = {d. \<exists>l al. BuildTarget d l al \<in> set (aw_targets r)}"

definition faithful_group :: "database \<Rightarrow> string list \<Rightarrow> forest_group \<Rightarrow> bool" where
  "faithful_group db scope g \<longleftrightarrow>
     (\<forall>(a, b) \<in> set (tree_links (fg_tree g)). (a, b) \<in> set (edge_pairs (edges db)) \<and> a \<in> set scope)
     \<and> fst ` set (branches (fg_tree g)) \<subseteq> requested (fg_request g) \<and> distinct (tree_nodes (fg_tree g))
     \<and> (\<forall>ob \<in> set (take 24 (observed_builds db (at_id (aw_attempt (fg_request g))))). \<not> settled ob \<longrightarrow>
          ob_drv ob \<in> set (tree_nodes (fg_tree g)) \<union> fn_drv ` set (fg_detached g))"

lemma target_roots:
  assumes "map_res (\<lambda>t. case t of PlanTarget i l \<Rightarrow> Inl (KeyError ''drv'') | BuildTarget d l al \<Rightarrow> Inr (d, l)) ts = Inr ps"
    and "d \<in> fst ` set ps"
  shows "\<exists>l al. BuildTarget d l al \<in> set ts"
  using assms
proof (induction ts arbitrary: ps)
  case (Cons t ts)
  show ?case
  proof (cases t)
    case (BuildTarget e l al)
    then obtain ps' where ps': "map_res (\<lambda>t. case t of PlanTarget i l \<Rightarrow> Inl (KeyError ''drv'') | BuildTarget d l al \<Rightarrow> Inr (d, l)) ts = Inr ps'"
      and ps: "ps = (e, l) # ps'"
      using Cons.prems(1) by (auto simp: bindr_eq_Inr)
    show ?thesis
    proof (cases "d = e")
      case False
      then have "d \<in> fst ` set ps'" using Cons.prems(2) by (simp add: ps)
      from Cons.IH [OF ps' this] show ?thesis by auto
    qed (use BuildTarget in auto)
  qed (use Cons.prems in simp)
qed simp

lemma request_roots_requested:
  assumes "request_roots r = Inr roots"
  shows "fst ` set roots \<subseteq> requested r"
proof -
  obtain pairs where pairs: "map_res (\<lambda>t. case t of PlanTarget i l \<Rightarrow> Inl (KeyError ''drv'') | BuildTarget d l al \<Rightarrow> Inr (d, l)) (aw_targets r) = Inr pairs"
    and roots: "roots = fold (\<lambda>(d, l). dict_set d l) pairs []"
    using assms by (auto simp: request_roots_def bindr_eq_Inr)
  have "fst ` set (fold (\<lambda>(d, l). dict_set d l) ps acc) = fst ` set acc \<union> fst ` set ps" for ps and acc :: roots
    by (induction ps arbitrary: acc) (auto simp: keys_dict_set split: prod.splits)
  then have "fst ` set roots = fst ` set pairs" by (simp add: roots)
  then show ?thesis using target_roots [OF pairs] unfolding requested_def by blast
qed

lemma forest_node_drv [simp]: "fn_drv (forest_node_of db now roots obs d) = d"
  by (simp add: forest_node_of_def Let_def)

lemma grown_start: "true_lookups look lk \<Longrightarrow>
    grown_ok look roots \<lparr>gw_tree = Forest [], gw_detached = [], gw_nodes = [], gw_placed = [], gw_lookups = lk\<rparr>"
  by (simp add: grown_ok_def true_placements_def)

lemma forest_step_faithful:
  assumes "forest_step db scope now r (groups, lk) = Inr (groups', lk')"
    and "true_lookups (scoped_parents db scope) lk" and "\<forall>g \<in> set groups. faithful_group db scope g"
  shows "true_lookups (scoped_parents db scope) lk' \<and> (\<forall>g \<in> set groups'. faithful_group db scope g)"
proof -
  let ?look = "scoped_parents db scope" and ?obs = "observed_builds db (at_id (aw_attempt r))"
  from assms(1) obtain roots where roots: "request_roots r = Inr roots"
    and groups': "groups' = groups @ [forest_group_of db now roots ?obs r (grown db scope roots ?obs lk)]"
    and lk': "lk' = gw_lookups (grown db scope roots ?obs lk)"
    by (auto simp: forest_step_def bindr_eq_Inr Let_def)
  let ?g = "grown db scope roots ?obs lk"
  have ok: "grown_ok ?look roots ?g" and shown: "\<forall>ob \<in> set (take 24 ?obs). \<not> settled ob \<longrightarrow> ob_drv ob \<in> shown_builds ?g"
    using grow_all [OF grown_start [OF assms(2)]] unfolding grown_def by blast+
  have look: "a \<in> set (?look b) \<Longrightarrow> (a, b) \<in> set (edge_pairs (edges db)) \<and> a \<in> set scope" for a b
    by (force simp: scoped_parents_def edge_pairs_def dest: in_set_takeD)
  have "faithful_group db scope (forest_group_of db now roots ?obs r ?g)"
    unfolding faithful_group_def
  proof (intro conjI)
    let ?f = "forest_group_of db now roots ?obs r ?g"
    have f: "fg_tree ?f = gw_tree ?g" "fg_request ?f = r" "fn_drv ` set (fg_detached ?f) = set (gw_detached ?g)"
      by (simp_all add: forest_group_of_def Let_def image_image)
    have g: "\<forall>(a, b) \<in> set (tree_links (gw_tree ?g)). a \<in> set (?look b)" "fst ` set (branches (gw_tree ?g)) \<subseteq> fst ` set roots"
      "distinct (tree_nodes (gw_tree ?g))"
      using ok by (simp_all add: grown_ok_def)
    show "\<forall>(a, b) \<in> set (tree_links (fg_tree ?f)). (a, b) \<in> set (edge_pairs (edges db)) \<and> a \<in> set scope"
      using g(1) look unfolding f by blast
    show "fst ` set (branches (fg_tree ?f)) \<subseteq> requested (fg_request ?f)"
      unfolding f by (rule order.trans [OF g(2) request_roots_requested [OF roots]])
    show "distinct (tree_nodes (fg_tree ?f))" unfolding f by (rule g(3))
    show "\<forall>ob \<in> set (take 24 (observed_builds db (at_id (aw_attempt (fg_request ?f))))). \<not> settled ob \<longrightarrow>
        ob_drv ob \<in> set (tree_nodes (fg_tree ?f)) \<union> fn_drv ` set (fg_detached ?f)"
      using shown unfolding f shown_builds_def .
  qed
  then show ?thesis using assms(3) ok by (auto simp: groups' lk' grown_ok_def)
qed


end
