(* ===== verification/DashboardGuarantees.thy ===== *)
theory DashboardGuarantees
  imports ForestGuarantees
begin

text \<open>
  The cache of build locations, the log reader, the notifications, the export and the showcase.
\<close>

section \<open>The cache of locations\<close>

definition location_of_spec :: "attempt \<Rightarrow> string" where
  "location_of_spec a = text_or (sp_build_location (at_spec a)) ''mixed''"

definition direct_location :: "database \<Rightarrow> string \<Rightarrow> string result" where
  "direct_location db aid =
     (case find_attempt db aid of None \<Rightarrow> Inl (TypeError ''NoneType object is not subscriptable'') | Some a \<Rightarrow> Inr (location_of_spec a))"

definition locations_ok :: "database \<Rightarrow> locations \<Rightarrow> bool" where
  "locations_ok db cache \<longleftrightarrow> length cache \<le> LOCATIONS \<and> (\<forall>(aid, l) \<in> set cache. direct_location db aid = Inr l)"

definition specs_kept :: "database \<Rightarrow> database \<Rightarrow> bool" where
  "specs_kept old db \<longleftrightarrow> (\<forall>aid a. find_attempt old aid = Some a \<longrightarrow> (\<exists>a'. find_attempt db aid = Some a' \<and> at_spec a' = at_spec a))"

lemma locations_later: "locations_ok old cache \<Longrightarrow> specs_kept old db \<Longrightarrow> locations_ok db cache"
  by (fastforce simp: locations_ok_def specs_kept_def direct_location_def location_of_spec_def split: option.splits)

text \<open>The bounded cache of build locations is invisible: with entries read from an earlier database
  whose attempts kept their specifications, a lookup answers what reading the current database
  would, and keeps at most 128 entries that are all true of it.\<close>

theorem location_cache_transparent:
  assumes "locations_ok old cache" and "specs_kept old db"
  shows "fst (build_location db aid cache) = direct_location db aid \<and> locations_ok db (snd (build_location db aid cache))"
proof -
  have ok: "locations_ok db cache" by (rule locations_later [OF assms])
  show ?thesis
  proof (cases "map_of cache aid")
    case (Some l)
    then have "direct_location db aid = Inr l" using ok by (auto simp: locations_ok_def dest!: map_of_SomeD)
    with Some ok show ?thesis by (simp add: build_location_def)
  next
    case None
    show ?thesis
    proof (cases "find_attempt db aid")
      case None
      with \<open>map_of cache aid = None\<close> ok show ?thesis by (simp add: build_location_def direct_location_def)
    next
      case (Some a)
      let ?kept = "if length cache \<ge> LOCATIONS then tl cache else cache"
      have kept: "length ?kept < LOCATIONS" "set ?kept \<subseteq> set cache"
        using ok by (auto simp: locations_ok_def LOCATIONS_def dest: list.set_sel(2) [rotated])
      have "direct_location db aid = Inr (location_of_spec a)" using Some by (simp add: direct_location_def)
      then have "locations_ok db (?kept @ [(aid, location_of_spec a)])"
        using kept ok unfolding locations_ok_def by auto
      then show ?thesis
        using \<open>map_of cache aid = None\<close> Some by (simp add: build_location_def direct_location_def location_of_spec_def Let_def)
    qed
  qed
qed

section \<open>The log reader\<close>

lemma trimmed_bounded: "length (lv_entries (trimmed v)) \<le> LIMIT"
  by (simp add: trimmed_def Let_def)

text \<open>The log reader never displays more than 2000 lines: what a reply adds to the lines already on the
  page stays within the bound, or the page starts over with the reply alone.\<close>

theorem log_reader_bounded:
  assumes "log_response w db db' stderr cid aid live p = Inr (Log_reply a r)"
  shows "length (lv_entries (ly_view r)) \<le> ly_count r \<and> ly_count r \<le> LIMIT"
proof -
  obtain q first live' where first: "log_page w db stderr cid a (lq_view q) (lq_direction q) (lq_cursor q) = Inr first"
    and r: "reply_of w db' stderr cid a q live' first = Inr r"
    using assms by (auto simp: log_response_def bindr_eq_Inr Let_def split: option.splits)
  let ?recovery = "lv_reset (fst first) \<or> lq_count q + length (lv_entries (fst first)) > LIMIT"
  obtain result where result: "(if lv_reset (fst first) then log_page w db' stderr cid a (lq_view q) ''tail'' 0 else Inr first) = Inr result"
    and shown: "ly_view r = trimmed (fst result)"
      "ly_count r = (if ?recovery then 0 else lq_count q) + length (lv_entries (trimmed (fst result)))"
    using r by (auto simp: reply_of_def bindr_eq_Inr Let_def)
  show ?thesis
  proof (cases ?recovery)
    case True
    then show ?thesis using shown trimmed_bounded by simp
  next
    case False
    then have "result = first" "trimmed (fst first) = fst first" using result by (auto simp: trimmed_def)
    with False shown show ?thesis by simp
  qed
qed

section \<open>Notifications\<close>

fun announced :: "notice \<Rightarrow> int option" where
  "announced (Changed r) = Some r"
| "announced _ = None"

lemma notifications_not_Nil: "notifications q n (seen @ (r, True) # rest) \<noteq> []"
  by (induction seen arbitrary: q n) (auto split: if_splits)

lemma notifications_done:
  assumes "\<forall>x \<in> set seen. \<not> snd x"
  shows "List.map_filter announced (notifications previous n (seen @ (r, True) # rest)) =
      (case previous of None \<Rightarrow> remdups_adj (map fst seen @ [r]) | Some q \<Rightarrow> tl (remdups_adj (q # map fst seen @ [r])))
    \<and> last (notifications previous n (seen @ (r, True) # rest)) = Completed"
  using assms
proof (induction seen arbitrary: previous n)
  case Nil
  then show ?case by (cases previous) (auto simp: List.map_filter_def)
next
  case (Cons x seen)
  obtain s where x: "x = (s, False)" using Cons.prems by (cases x) auto
  have "remdups_adj (s # map fst seen @ [r]) = s # tl (remdups_adj (s # map fst seen @ [r]))"
    by (metis list.collapse list.distinct(1) hd_remdups_adj list.sel(1) remdups_adj_Nil_iff)
  then show ?case
    using Cons.IH [of "Some s" "Suc n"] Cons.prems notifications_not_Nil [of "Some s" "Suc n" seen r rest]
    by (cases previous) (auto simp: x List.map_filter_def)
qed

text \<open>C39. A page that listens to a campaign is told every revision it observes, in order and without
  repetition, up to the revision at which the campaign is complete; then the stream says so
  and ends, whatever later snapshots would be.\<close>

theorem notifications_exact:
  assumes "\<forall>x \<in> set seen. \<not> snd x"
  shows "List.map_filter announced (notifications None 0 (seen @ (r, True) # rest)) = remdups_adj (map fst seen @ [r])
    \<and> last (notifications None 0 (seen @ (r, True) # rest)) = Completed
    \<and> notifications None 0 (seen @ (r, True) # rest) = notifications None 0 (seen @ [(r, True)])"
proof -
  have "notifications q n (seen @ (r, True) # rest) = notifications q n (seen @ [(r, True)])" for q n
    by (induction seen arbitrary: q n) auto
  then show ?thesis using notifications_done [OF assms, of None] by simp
qed

section \<open>The export\<close>

text \<open>A reader of comma-separated values: fields may be quoted, a doubled quote stands for one, a
  record ends at a line feed and an unquoted carriage return is dropped.\<close>

datatype csv_state = Unquoted | Inside | Closing

fun csv_read :: "csv_state \<Rightarrow> string \<Rightarrow> string list \<Rightarrow> string \<Rightarrow> string list list" where
  "csv_read st f cs [] = []"
| "csv_read Unquoted f cs (c # s) =
     (if c = CHR 0x22 \<and> f = [] then csv_read Inside [] cs s
      else if c = CHR '','' then csv_read Unquoted [] (cs @ [f]) s
      else if c = CHR 0x0D then csv_read Unquoted f cs s
      else if c = CHR 0x0A then (cs @ [f]) # csv_read Unquoted [] [] s
      else csv_read Unquoted (f @ [c]) cs s)"
| "csv_read Inside f cs (c # s) =
     (if c = CHR 0x22 then csv_read Closing f cs s else csv_read Inside (f @ [c]) cs s)"
| "csv_read Closing f cs (c # s) =
     (if c = CHR 0x22 then csv_read Inside (f @ [c]) cs s
      else if c = CHR '','' then csv_read Unquoted [] (cs @ [f]) s
      else if c = CHR 0x0D then csv_read Closing f cs s
      else if c = CHR 0x0A then (cs @ [f]) # csv_read Unquoted [] [] s
      else csv_read Unquoted (f @ [c]) cs s)"

lemma csv_plain: "\<not> list_ex csv_special t \<Longrightarrow> csv_read Unquoted f cs (t @ s) = csv_read Unquoted (f @ t) cs s"
  by (induction t arbitrary: f) (auto simp: csv_special_def)

lemma csv_inside:
  "csv_read Inside f cs (concat (map (\<lambda>c. if c = CHR 0x22 then [c, c] else [c]) t) @ [CHR 0x22] @ s) = csv_read Closing (f @ t) cs s"
  by (induction t arbitrary: f) auto

lemma csv_cell:
  "csv_read Unquoted [] cs (csv_field t @ CHR '','' # s) = csv_read Unquoted [] (cs @ [t]) s"
  "csv_read Unquoted [] cs (csv_field t @ [CHR 0x0D, CHR 0x0A] @ s) = (cs @ [t]) # csv_read Unquoted [] [] s"
  using csv_inside [of "[]" cs t "CHR '','' # s"] csv_inside [of "[]" cs t "[CHR 0x0D, CHR 0x0A] @ s"]
  by (auto simp: csv_field_def csv_plain)

lemma csv_row_read: "cells \<noteq> [] \<Longrightarrow> csv_read Unquoted [] cs (csv_row cells @ s) = (cs @ cells) # csv_read Unquoted [] [] s"
proof (induction cells arbitrary: cs)
  case (Cons t cells)
  then show ?case
    using csv_cell(2) [of cs t s] csv_cell(1) [of cs t "csv_row cells @ s"]
    by (cases cells) (auto simp: csv_row_def)
qed simp

lemma csv_file_read: "\<forall>r \<in> set rows. r \<noteq> [] \<Longrightarrow> csv_read Unquoted [] [] (concat (map csv_row rows)) = rows"
  by (induction rows) (simp_all add: csv_row_read)

lemma guarded_safe: "\<not> formula_start (guarded s)"
  by (simp add: guarded_def) (simp add: formula_start_def)

text \<open>C37. A spreadsheet that opens the export reads back one record per listed package, with the six cells
  the exporter meant, whatever commas, quotes or line breaks they hold, and none of them
  starts a formula.\<close>

theorem export_reads_back:
  assumes "export rt now db cid p = Inr s" and "options p = Inr v" and "packages rt now db cid v = Inr pk"
  shows "csv_read Unquoted [] [] s = EXPORT_HEADER # map (\<lambda>r. map guarded (export_values rt r)) (pa_rows pk)
    \<and> (\<forall>row \<in> set (tl (csv_read Unquoted [] [] s)). \<forall>cell \<in> set row. \<not> formula_start cell)"
proof -
  let ?rows = "EXPORT_HEADER # map (\<lambda>r. map guarded (export_values rt r)) (pa_rows pk)"
  have "s = concat (map csv_row ?rows)"
    using assms by (auto simp: export_def bindr_eq_Inr comp_def)
  moreover have "\<forall>r \<in> set ?rows. r \<noteq> []" by (auto simp: EXPORT_HEADER_def export_values_def)
  ultimately have "csv_read Unquoted [] [] s = ?rows" by (simp only: csv_file_read)
  then show ?thesis by (auto simp: guarded_safe)
qed

section \<open>The showcase\<close>

lemma filter_res_set: "filter_res f xs = Inr ys \<Longrightarrow> set ys \<subseteq> set xs"
  by (induction xs arbitrary: ys) (auto simp: bindr_eq_Inr split: if_splits; blast)+

text \<open>The tiers of the showcase partition its packages: the counts add up to the packages in scope, and the
  rows listed for a tier are as many as its count.\<close>

theorem showcase_partition:
  assumes "showcase rt now db cid v = Inr (sv, pg)"
  shows "sum_list (map snd (sv_tiers sv)) = sv_scope sv
    \<and> length (sv_rows sv) = (if vw_tier v = [] then sv_scope sv else
        (case map_of (sv_tiers sv) (vw_tier v) of None \<Rightarrow> 0 | Some n \<Rightarrow> n))
    \<and> pg_total pg = length (sv_rows sv)"
proof -
  obtain passing where tiers: "list_all (\<lambda>s. List.member tier_names (sr_tier s)) passing"
    and sv: "sv_tiers sv = map (\<lambda>t. (t, length (filter (\<lambda>s. sr_tier s = t) passing))) tier_names"
      "sv_rows sv = sort_key (\<lambda>s. (index_of tier_names (sr_tier s), c_label (cr_candidate (sr_row s))))
         (filter (\<lambda>s. vw_tier v = [] \<or> vw_tier v = sr_tier s) passing)"
      "sv_scope sv = sum_list (map snd (sv_tiers sv))" "pg = paginate (sv_rows sv) (nat (vw_page v)) 100"
    using assms by (auto simp: showcase_def bindr_eq_Inr guardr_def Let_def split: if_splits)
  have names: "distinct tier_names" by code_simp
  have all: "sum_list (map snd (sv_tiers sv)) = length passing"
    using sum_groups [OF names, of sr_tier passing] tiers by (auto simp: sv(1) comp_def list_all_iff)
  have "length (sv_rows sv) = (case map_of (sv_tiers sv) (vw_tier v) of None \<Rightarrow> 0 | Some n \<Rightarrow> n)" if "vw_tier v \<noteq> []"
  proof -
    have rows: "length (sv_rows sv) = length (filter (\<lambda>s. sr_tier s = vw_tier v) passing)"
      using that by (simp add: sv(2) eq_commute [of "vw_tier v"])
    show ?thesis
    proof (cases "vw_tier v \<in> set tier_names")
      case True
      then show ?thesis by (simp add: rows sv(1) map_of_tabulate)
    next
      case False
      then have "filter (\<lambda>s. sr_tier s = vw_tier v) passing = []" using tiers by (auto simp: filter_empty_conv list_all_iff)
      with False show ?thesis by (simp add: rows sv(1) map_of_tabulate)
    qed
  qed
  then show ?thesis using all sv(3) by (auto simp: sv(2,4) paginate_def Let_def)
qed

end
