(* ===== verification/DashboardSamples.thy ===== *)
theory DashboardSamples
  imports DashboardGuarantees Samples
begin

text \<open>
  The theorems on the pages of the dashboard at a small campaign.
\<close>

definition page_db :: database where
  "page_db = empty_db\<lparr>campaigns := [sample_campaign\<lparr>cp_manifest := JObj []\<rparr>],
     candidates := [(sample_candidate 1 Available (Some ''d1''))\<lparr>c_label := ''a,b''\<rparr>, (sample_candidate 2 Unplanned None)\<lparr>c_label := ''=c''\<rparr>],
     derivations := [new_derivation ''d1'' ''n1'' [(''out'', Some ''o1'')], new_derivation ''d2'' ''n2'' [(''out'', Some ''o2'')]],
     edges := [sample_edge],
     events := map (\<lambda>k. \<lparr>ev_seq = k, ev_time = 1, ev_campaign = ''c1'', ev_kind = ''x'', ev_payload = JNull\<rparr>) [1, 2]\<rparr>"

lemma events_followed_witness:
  "polls ([empty_db] @ replicate 1 page_db) 0 = events page_db \<and> events page_db \<noteq> []"
proof -
  have "sorted_wrt later ([empty_db] @ [page_db])" by (simp add: later_def empty_db_def)
  moreover have "numbered_events (events page_db)" by (simp add: numbered_events_def page_db_def)
  moreover have "events page_db \<noteq> []" "length (events page_db) \<le> 100 * 1" by (simp_all add: page_db_def)
  ultimately show ?thesis using events_followed [of "[empty_db]" page_db 1] by blast
qed

lemma notifications_exact_witness:
  "List.map_filter announced (notifications None 0 ([(1, False), (1, False), (2, False)] @ (2, True) # [(9, False)])) = [1, 2]"
  using notifications_exact [of "[(1, False), (1, False), (2, False)]" 2 "[(9, False)]"] by simp

definition empty_ranking :: "string \<Rightarrow> ranking" where
  "empty_ranking cid = \<lparr>rg_rows = [], rg_blocked = 0, rg_multiple = 0, rg_computed = 9, rg_scope = [], rg_bad = []\<rparr>"

lemma snapshot_pages_witness:
  "\<exists>v. snapshot 9 (Inl ''x'') empty_ranking page_db None [] [] 0 = Inr (Some v)
     \<and> mset (map cc_id (ss_candidates v)) = {#1, 2#} \<and> sorted (map cc_label (ss_candidates v))"
proof -
  have "case snapshot 9 (Inl ''x'') empty_ranking page_db None [] [] 0 of Inr (Some v) \<Rightarrow> ss_filtered v \<le> 50 \<and> cb_id (ss_campaign v) = ''c1'' | _ \<Rightarrow> False" by code_simp
  then obtain v where v: "snapshot 9 (Inl ''x'') empty_ranking page_db None [] [] 0 = Inr (Some v)" "ss_filtered v \<le> 50" "cb_id (ss_campaign v) = ''c1''"
    by (auto split: sum.splits option.splits)
  show ?thesis
    using snapshot_pages [of 1 9 "Inl ''x''" empty_ranking page_db None "[]" "[]" "\<lambda>_. v"] v
    by (simp add: page_db_def sample_candidate_def snapshot_selects_def)
qed

lemma export_reads_back_witness:
  "\<exists>s. export sample_runtime 9 page_db ''c1'' [(''state'', ''all'')] = Inr s \<and> length (csv_read Unquoted [] [] s) = 3"
proof -
  have v: "options [(''state'', ''all'')] = Inr (default_view\<lparr>vw_state := ''all''\<rparr>)" by code_simp
  have "case packages sample_runtime 9 page_db ''c1'' (default_view\<lparr>vw_state := ''all''\<rparr>) of Inl _ \<Rightarrow> False | Inr pk \<Rightarrow> length (pa_rows pk) = 2" by code_simp
  then obtain pk where pk: "packages sample_runtime 9 page_db ''c1'' (default_view\<lparr>vw_state := ''all''\<rparr>) = Inr pk" "length (pa_rows pk) = 2"
    by (auto split: sum.splits)
  have "dash_campaign page_db ''c1'' = Inr (sample_campaign\<lparr>cp_manifest := JObj []\<rparr>)"
    by (simp add: dash_campaign_def find_campaign_def find_row_def page_db_def sample_campaign_def)
  then obtain s where s: "export sample_runtime 9 page_db ''c1'' [(''state'', ''all'')] = Inr s"
    by (simp add: export_def v pk)
  from export_reads_back [OF s v pk(1)] show ?thesis using s pk(2) by simp
qed

lemma showcase_partition_witness:
  "\<exists>sv pg. showcase sample_runtime 9 page_db ''c1'' (default_view\<lparr>vw_state := ''all''\<rparr>) = Inr (sv, pg) \<and> sv_scope sv = 2
    \<and> sum_list (map snd (sv_tiers sv)) = 2"
proof -
  have "case showcase sample_runtime 9 page_db ''c1'' (default_view\<lparr>vw_state := ''all''\<rparr>) of Inl _ \<Rightarrow> False | Inr (sv, pg) \<Rightarrow> sv_scope sv = 2" by code_simp
  then obtain sv pg where s: "showcase sample_runtime 9 page_db ''c1'' (default_view\<lparr>vw_state := ''all''\<rparr>) = Inr (sv, pg)" "sv_scope sv = 2"
    by (auto split: sum.splits)
  from showcase_partition [OF s(1)] show ?thesis using s by simp
qed

definition built_attempt :: attempt where
  "built_attempt = (new_attempt 1 ''00000000-0000-4000-8000-000000000001'' sample_campaign Build [TBuild ''d1'']
     (make_spec sample_campaign Build [TBuild ''d1''] sample_policy no_extra))\<lparr>at_state := At_running\<rparr>"

definition built_db :: database where
  "built_db = page_db\<lparr>
     candidates := [sample_candidate 1 Running (Some ''d1''), sample_candidate 2 Running (Some ''d2'')], attempts := [built_attempt],
     activities := [\<lparr>av_attempt = at_id built_attempt, av_activity = ''7'', av_drv = Some ''d2'', av_kind = Some ''build'', av_phase = None,
       av_checks = [], av_stopped = False\<rparr>]\<rparr>"


lemma location_cache_transparent_witness:
  "fst (build_location built_db (at_id built_attempt) []) = direct_location built_db (at_id built_attempt)"
proof -
  have "locations_ok built_db []" "specs_kept built_db built_db" by (simp_all add: locations_ok_def specs_kept_def LOCATIONS_def)
  from location_cache_transparent [OF this] show ?thesis by simp
qed

lemma package_dependents_exact_witness:
  "\<exists>v. detail sample_runtime built_db 2 = Inr v \<and> sample_candidate 1 Running (Some ''d1'') \<in> set (pk_dependents v)"
proof -
  have "case detail sample_runtime built_db 2 of Inl _ \<Rightarrow> False | Inr v \<Rightarrow> c_drv (pk_row v) = Some ''d2'' \<and> c_campaign (pk_row v) = ''c1'' \<and> length (pk_dependents v) < 100" by code_simp
  then obtain v where v: "detail sample_runtime built_db 2 = Inr v" "c_drv (pk_row v) = Some ''d2''" "c_campaign (pk_row v) = ''c1''" "length (pk_dependents v) < 100"
    by (auto split: sum.splits)
  have "(''d1'', ''d2'') \<in> set (edge_pairs (edges built_db))" by (simp add: built_db_def page_db_def edge_pairs_def sample_edge_def)
  then show ?thesis
    using package_dependents_exact [OF v(1,2,4)] v(1,3)
    by (auto simp: built_db_def sample_candidate_def)
qed

end
