(* ===== verification/Analytics.thy ===== *)
theory Analytics
  imports Logs Effects
begin

text \<open>
  The analytics publisher (\<^verbatim>\<open>experiment/analytics.py\<close>): it compares a snapshot of the source
  database and the captured logs with what it published before, writes the differences as
  immutable objects, and advances one pointer by a conditional write. A checkpoint database
  makes a generation survive a crash at any place.

  \<^item> A text that \<^verbatim>\<open>_json\<close> prints is represented by the value it denotes, a Parquet file by
    the rows it holds (\<open>body\<close>); the digests of bodies, the entity tags and the printer of floats are
    arguments. \<^verbatim>\<open>json.loads\<close> of a printed text is its value; other files are not JSON.
  \<^item> What pyarrow refuses to convert, the free space of the disk, fresh identifiers, the clock and
    the lock are observations (record \<open>analytics_world\<close>); a column that pyarrow accepts
    keeps its values.
  \<^item> The backends are records of operations on a state of their own. The local one may fail or
    be interrupted at every write; the S3 one calls a client, whose answers are arguments.
\<close>

section \<open>Values, keys and rows\<close>

datatype sqlv = SNull | SInt int | SReal rat | SText string | SBlob string

definition hex :: "string \<Rightarrow> string" where
  "hex s = concat (map (\<lambda>c. [hex_digit (of_char c div 16), hex_digit (of_char c mod 16)]) s)"

definition nibble :: "char \<Rightarrow> nat option" where
  "nibble c =
     (let n = of_char c :: nat in
      if 48 \<le> n \<and> n \<le> 57 then Some (n - 48) else if 97 \<le> n \<and> n \<le> 102 then Some (n - 87)
      else if 65 \<le> n \<and> n \<le> 70 then Some (n - 55) else None)"

text \<open>\<^verbatim>\<open>bytes.fromhex\<close>: white space is allowed between the pairs of digits.\<close>

fun fromhex :: "string \<Rightarrow> string option" where
  "fromhex [] = Some []"
| "fromhex [c] = (if is_space c then Some [] else None)"
| "fromhex (c # d # s) =
     (if is_space c then fromhex (d # s)
      else (case (nibble c, nibble d) of
              (Some m, Some n) \<Rightarrow> map_option (\<lambda>r. char_of (16 * m + n) # r) (fromhex s)
            | _ \<Rightarrow> None))"

fun pack :: "sqlv \<Rightarrow> json" where
  "pack SNull = JNull"
| "pack (SInt n) = JInt n"
| "pack (SReal x) = JFloat x"
| "pack (SText s) = JStr s"
| "pack (SBlob b) = JObj [(''$bytes'', JStr (hex b))]"

text \<open>Other values come back as they are; no column holds them.\<close>

fun unpack :: "json \<Rightarrow> sqlv result" where
  "unpack JNull = Inr SNull"
| "unpack (JInt n) = Inr (SInt n)"
| "unpack (JFloat x) = Inr (SReal x)"
| "unpack (JStr s) = Inr (SText s)"
| "unpack (JObj kvs) =
     (if fst ` set kvs = {''$bytes''} then
        (case map_of kvs ''$bytes'' of
           Some (JStr h) \<Rightarrow> (case fromhex h of None \<Rightarrow> Inl (ValueError ''non-hexadecimal number found in fromhex() arg'') | Some b \<Rightarrow> Inr (SBlob b))
         | _ \<Rightarrow> Inl (TypeError ''fromhex() argument must be str''))
      else Inl (TypeError ''not a column value''))"
| "unpack _ = Inl (TypeError ''not a column value'')"

definition row_text :: "sqlv list \<Rightarrow> json" where
  "row_text vals = JArr (map pack vals)"

text \<open>The text of \<^verbatim>\<open>_json\<close>, of which the code uses the length and compares identities.\<close>

definition raw_escape :: "char \<Rightarrow> string" where
  "raw_escape c = (if 126 < (of_char c :: nat) then [c] else escape_char c)"

definition raw_string :: "string \<Rightarrow> string" where
  "raw_string s = CHR 0x22 # concat (map raw_escape s) @ [CHR 0x22]"

fun json_text :: "(rat \<Rightarrow> string) \<Rightarrow> json \<Rightarrow> string" where
  "json_text fl JNull = ''null''"
| "json_text fl (JBool b) = (if b then ''true'' else ''false'')"
| "json_text fl (JInt n) = encode_int n"
| "json_text fl (JFloat x) = fl x"
| "json_text fl (JStr s) = raw_string s"
| "json_text fl (JArr xs) = ''['' @ join_on '','' (map (json_text fl) xs) @ '']''"
| "json_text fl (JObj kvs) =
     CHR 0x7B # join_on '','' (map (\<lambda>(k, e). raw_string k @ '':'' @ e)
       (sort_key fst (map (\<lambda>(k, v). (k, json_text fl v)) kvs))) @ [CHR 0x7D]"

definition utf8_length :: "string \<Rightarrow> nat" where
  "utf8_length s = sum_list (map (\<lambda>c. if (of_char c :: nat) < 128 then 1 else 2) s)"

section \<open>Schemas\<close>

definition TABLES :: "string list" where
  "TABLES = [''campaigns'', ''candidates'', ''derivations'', ''edges'', ''roles'', ''attempts'', ''activities'', ''tests'',
     ''events'', ''build_times'', ''replans'', ''classifications'']"

definition BATCH :: nat where
  "BATCH = 4096"

definition FRAGMENT :: nat where
  "FRAGMENT = 1024 * 1024"

definition PART_BYTES :: nat where
  "PART_BYTES = 8 * 1024 ^ 2"

record column =
  cl_name :: string
  cl_type :: string
  cl_pk :: nat

record source_table =
  tb_columns :: "column list"
  tb_rows :: "sqlv list list"

text \<open>The source: the version, the tables, and the captured logs by attempt and stream.\<close>

record source =
  so_version :: int
  so_tables :: "(string \<times> source_table) list"
  so_log :: "string \<Rightarrow> string \<Rightarrow> string option"

definition source_info :: "source \<Rightarrow> string \<Rightarrow> column list" where
  "source_info src table = (case map_of (so_tables src) table of None \<Rightarrow> [] | Some t \<Rightarrow> tb_columns t)"

definition source_rows :: "source \<Rightarrow> string \<Rightarrow> sqlv list list" where
  "source_rows src table = (case map_of (so_tables src) table of None \<Rightarrow> [] | Some t \<Rightarrow> tb_rows t)"

definition schema_keys :: "column list \<Rightarrow> string list" where
  "schema_keys info = map cl_name (sort_key cl_pk (filter (\<lambda>c. cl_pk c \<noteq> 0) info))"

definition schema_of :: "source \<Rightarrow> string \<Rightarrow> (column list \<times> string list) result" where
  "schema_of src table =
     (let info = source_info src table; keys = schema_keys info in
      if keys = [] then Inl (ValueError (''table '' @ table @ '' has no primary key'')) else Inr (info, keys))"

definition col_index :: "column list \<Rightarrow> string \<Rightarrow> nat" where
  "col_index info n = length (takeWhile (\<lambda>c. cl_name c \<noteq> n) info)"

definition cell :: "column list \<Rightarrow> string \<Rightarrow> sqlv list \<Rightarrow> sqlv" where
  "cell info n row = (if col_index info n < length row then row ! col_index info n else SNull)"

fun int_of :: "sqlv \<Rightarrow> int" where
  "int_of (SInt n) = n"
| "int_of _ = 0"

fun text_of :: "sqlv \<Rightarrow> string" where
  "text_of (SText s) = s"
| "text_of _ = []"

definition key_of :: "column list \<Rightarrow> string list \<Rightarrow> sqlv list \<Rightarrow> json" where
  "key_of info keys row = row_text (map (\<lambda>k. cell info k row) keys)"

datatype arrow = Int64 | Float64 | Binary | Utf8 | Boolean

definition upper :: "string \<Rightarrow> string" where
  "upper = map (\<lambda>c. if in_range 97 122 c then char_of (of_char c - 32 :: nat) else c)"

definition arrow_type :: "string \<Rightarrow> arrow" where
  "arrow_type declared =
     (let d = upper declared in
      if contains ''INT'' d then Int64
      else if list_ex (\<lambda>x. contains x d) [''REAL'', ''FLOA'', ''DOUB''] then Float64
      else if contains ''BLOB'' d then Binary
      else Utf8)"

text \<open>Name, type and whether null is allowed.\<close>

definition arrow_schema :: "column list \<Rightarrow> bool \<Rightarrow> (string \<times> arrow \<times> bool) list" where
  "arrow_schema info metadata =
     map (\<lambda>c. (cl_name c, arrow_type (cl_type c), True)) info @
     (if metadata then [(''_revision'', Int64, False), (''_observed_at'', Float64, False), (''_source_key'', Utf8, False),
        (''_deleted'', Boolean, False)] else [])"

definition LOG_SCHEMA :: "(string \<times> arrow) list" where
  "LOG_SCHEMA = [(''attempt'', Utf8), (''campaign'', Utf8), (''stream'', Utf8), (''start'', Int64), (''end'', Int64), (''raw'', Binary),
     (''text'', Utf8), (''activity'', Utf8), (''derivation'', Utf8), (''kind'', Utf8), (''fragment'', Boolean), (''_revision'', Int64),
     (''_observed_at'', Float64)]"

section \<open>Files\<close>

record observation =
  ob_values :: "sqlv list"
  ob_revision :: int
  ob_at :: timestamp
  ob_key :: json
  ob_deleted :: bool

record log_row =
  fz_attempt :: string
  fz_campaign :: string
  fz_stream :: string
  fz_start :: nat
  fz_end :: nat
  fz_raw :: string
  fz_text :: string
  fz_activity :: "string option"
  fz_derivation :: "string option"
  fz_kind :: "string option"
  fz_fragment :: bool
  fz_revision :: int
  fz_at :: timestamp

datatype body =
    Json_text json
  | Row_file "(string \<times> arrow \<times> bool) list" "observation list"
  | Log_file "log_row list"
  | Plain_text string

fun loads_body :: "body \<Rightarrow> json result" where
  "loads_body (Json_text j) = Inr j"
| "loads_body _ = Inl (ValueError ''Expecting value'')"

record analytics_world =
  aw_log :: log_world
  aw_sha256 :: "body \<Rightarrow> string"
  aw_md5 :: "body \<Rightarrow> string"
  aw_length :: "body \<Rightarrow> nat"
  aw_now :: timestamp
  aw_uuid :: "nat \<Rightarrow> string"
  aw_free :: "nat \<Rightarrow> int"
  aw_array :: "arrow \<Rightarrow> sqlv list \<Rightarrow> unit result"
  aw_locked :: bool

section \<open>Backends\<close>

record 's backend =
  bk_identity :: string
  bk_get :: "'s \<Rightarrow> string \<Rightarrow> (body \<times> string) option result"
  bk_put_immutable :: "string \<Rightarrow> body \<Rightarrow> ('s, unit) op"
  bk_copy_immutable :: "string \<Rightarrow> string \<Rightarrow> string \<Rightarrow> ('s, unit) op"
  bk_publish :: "string \<Rightarrow> body \<Rightarrow> string option \<Rightarrow> ('s, string) op"

definition collision :: "string \<Rightarrow> py_error" where
  "collision key = ValueError (''immutable object collision: '' @ key)"

definition concurrent_writer :: py_error where
  "concurrent_writer = RuntimeError ''remote latest pointer changed; refusing concurrent writer''"

text \<open>The local backend. A write fails before the file is in place, or the process is interrupted
  just after that, as the list of coming troubles says.\<close>

datatype trouble = Fine | Fails | Interrupted

record local =
  lo_files :: "(string \<times> body) list"
  lo_trouble :: "trouble list"

definition local_write :: "string \<Rightarrow> body \<Rightarrow> (local, unit) op" where
  "local_write key data s =
     (let t = s\<lparr>lo_trouble := tl (lo_trouble s)\<rparr>; u = t\<lparr>lo_files := dict_set key data (lo_files s)\<rparr> in
      case lo_trouble s of
        Fails # _ \<Rightarrow> (Inl (OSError ''write failed''), t)
      | Interrupted # _ \<Rightarrow> (Inl (OSError ''interrupted''), u)
      | _ \<Rightarrow> (Inr (), u))"

definition local_get :: "analytics_world \<Rightarrow> local \<Rightarrow> string \<Rightarrow> (body \<times> string) option result" where
  "local_get w s key = Inr (map_option (\<lambda>data. (data, aw_md5 w data)) (map_of (lo_files s) key))"

definition local_put_immutable :: "analytics_world \<Rightarrow> string \<Rightarrow> body \<Rightarrow> (local, unit) op" where
  "local_put_immutable w key data s =
     (case map_of (lo_files s) key of
        Some old \<Rightarrow> if aw_sha256 w old \<noteq> aw_sha256 w data then (Inl (collision key), s) else (Inr (), s)
      | None \<Rightarrow> local_write key data s)"

definition local_copy_immutable :: "analytics_world \<Rightarrow> string \<Rightarrow> string \<Rightarrow> string \<Rightarrow> (local, unit) op" where
  "local_copy_immutable w source key digest s =
     (case map_of (lo_files s) source of
        None \<Rightarrow> (Inl (OSError ''No such file or directory''), s)
      | Some data \<Rightarrow>
          if aw_sha256 w data \<noteq> digest then (Inl (ValueError ''source object checksum mismatch''), s)
          else local_put_immutable w key data s)"

definition local_publish :: "analytics_world \<Rightarrow> string \<Rightarrow> body \<Rightarrow> string option \<Rightarrow> (local, string) op" where
  "local_publish w key data expected =
     bindM (liftM (\<lambda>s. local_get w s key)) (\<lambda>old.
     bindM (whenM (map_option snd old \<noteq> expected) (raiseM concurrent_writer)) (\<lambda>_.
     bindM (local_write key data) (\<lambda>_. returnM (aw_md5 w data))))"

definition local_backend :: "analytics_world \<Rightarrow> string \<Rightarrow> local backend" where
  "local_backend w folder = \<lparr>bk_identity = folder, bk_get = local_get w, bk_put_immutable = local_put_immutable w,
     bk_copy_immutable = local_copy_immutable w, bk_publish = local_publish w\<rparr>"

text \<open>The S3 backend. A call of the client answers, reports an error code of the service, or raises.\<close>

datatype 'a reply = Done 'a | Code string | Raises py_error

record put_request =
  pr_key :: string
  pr_body :: body
  pr_if_none_match :: bool
  pr_if_match :: "string option"
  pr_sha256 :: "string option"

record object_head =
  oh_sha256 :: "string option"
  oh_length :: nat
  oh_etag :: string

record 's s3_client =
  sc_get :: "'s \<Rightarrow> string \<Rightarrow> (body \<times> string) reply"
  sc_head :: "'s \<Rightarrow> string \<Rightarrow> object_head reply"
  sc_put :: "put_request \<Rightarrow> 's \<Rightarrow> string reply \<times> 's"
  sc_copy :: "string \<Rightarrow> string \<Rightarrow> string \<Rightarrow> string \<Rightarrow> 's \<Rightarrow> unit reply \<times> 's"

fun answer :: "'a reply \<Rightarrow> 'a result" where
  "answer (Done x) = Inr x"
| "answer (Code c) = Inl (OSError c)"
| "answer (Raises e) = Inl e"

definition strip_quotes :: "string \<Rightarrow> string" where
  "strip_quotes s = rev (dropWhile (\<lambda>c. c = CHR 0x22) (rev (dropWhile (\<lambda>c. c = CHR 0x22) s)))"

definition s3_get :: "'s s3_client \<Rightarrow> 's \<Rightarrow> string \<Rightarrow> (body \<times> string) option result" where
  "s3_get c s key =
     (case sc_get c s key of
        Done (data, etag) \<Rightarrow> Inr (Some (data, strip_quotes etag))
      | Code e \<Rightarrow> if e = ''404'' \<or> e = ''NoSuchKey'' then Inr None else Inl (OSError e)
      | Raises e \<Rightarrow> Inl e)"

definition s3_put_immutable :: "analytics_world \<Rightarrow> 's s3_client \<Rightarrow> string \<Rightarrow> body \<Rightarrow> ('s, unit) op" where
  "s3_put_immutable w c key data s =
     (let digest = aw_sha256 w data in
      case sc_put c \<lparr>pr_key = key, pr_body = data, pr_if_none_match = True, pr_if_match = None, pr_sha256 = Some digest\<rparr> s of
        (Done _, t) \<Rightarrow> (Inr (), t)
      | (Raises e, t) \<Rightarrow> (Inl e, t)
      | (Code e, t) \<Rightarrow>
          if e \<noteq> ''412'' \<and> e \<noteq> ''PreconditionFailed'' then (Inl (OSError e), t)
          else (bindr (answer (sc_head c t key)) (\<lambda>h.
                  if oh_sha256 h \<noteq> Some digest \<or> oh_length h \<noteq> aw_length w data then Inl (collision key) else Inr ()), t))"

definition s3_copy_immutable :: "'s s3_client \<Rightarrow> string \<Rightarrow> string \<Rightarrow> string \<Rightarrow> ('s, unit) op" where
  "s3_copy_immutable c source key digest s =
     (case answer (sc_head c s source) of
        Inl e \<Rightarrow> (Inl e, s)
      | Inr original \<Rightarrow>
          if oh_sha256 original \<noteq> Some digest then (Inl (ValueError ''source object checksum mismatch''), s)
          else (case sc_head c s key of
                  Raises e \<Rightarrow> (Inl e, s)
                | Done existing \<Rightarrow>
                    if oh_sha256 existing \<noteq> Some digest \<or> oh_length existing \<noteq> oh_length original
                    then (Inl (ValueError ''immutable share object collision''), s) else (Inr (), s)
                | Code e \<Rightarrow>
                    if e \<noteq> ''404'' \<and> e \<noteq> ''NoSuchKey'' then (Inl (OSError e), s)
                    else (case sc_copy c source key (oh_etag original) digest s of (r, t) \<Rightarrow> (answer r, t))))"

definition s3_publish :: "'s s3_client \<Rightarrow> string \<Rightarrow> body \<Rightarrow> string option \<Rightarrow> ('s, string) op" where
  "s3_publish c key data expected s =
     (case sc_put c \<lparr>pr_key = key, pr_body = data, pr_if_none_match = (expected = None), pr_if_match = expected, pr_sha256 = None\<rparr> s of
        (Done etag, t) \<Rightarrow> (Inr (strip_quotes etag), t)
      | (Raises e, t) \<Rightarrow> (Inl e, t)
      | (Code e, t) \<Rightarrow>
          (Inl (if List.member [''412'', ''PreconditionFailed'', ''ConditionalRequestConflict'', ''409''] e
                then concurrent_writer else OSError e), t))"

definition s3_backend :: "analytics_world \<Rightarrow> 's s3_client \<Rightarrow> string \<Rightarrow> 's backend" where
  "s3_backend w c bucket = \<lparr>bk_identity = ''s3://'' @ bucket, bk_get = s3_get c, bk_put_immutable = s3_put_immutable w c,
     bk_copy_immutable = s3_copy_immutable c, bk_publish = s3_publish c\<rparr>"

end
