(* ===== verification/AnalyticsScan.thy ===== *)
theory AnalyticsScan
  imports Analytics
begin

text \<open>
  What the analytics publisher finds to publish (\<^verbatim>\<open>experiment/analytics.py\<close>, \<^verbatim>\<open>_write\<close> to
  \<^verbatim>\<open>_logpart\<close>): the state of the publisher with its checkpoint, the staging of one file, the
  comparison of a table with the index of published rows, and the fragments of the logs. Reading has
  no effect on the state, so the rows of a table or stream are computed first and then staged
  in the same groups and order as in the loops of the code.
\<close>

section \<open>State\<close>

text \<open>\<^verbatim>\<open>INSERT OR REPLACE\<close> into a table of keys and values.\<close>

fun upsert :: "'k \<Rightarrow> 'v \<Rightarrow> ('k \<times> 'v) list \<Rightarrow> ('k \<times> 'v) list" where
  "upsert k v [] = [(k, v)]"
| "upsert k v ((k', v') # rows) = (if k' = k then (k, v) # rows else (k', v') # upsert k v rows)"

lemma map_of_upsert [simp]: "map_of (upsert k v rows) = (map_of rows)(k \<mapsto> v)"
  by (induction k v rows rule: upsert.induct) auto

lemma keys_upsert: "fst ` set (upsert k v rows) = insert k (fst ` set rows)"
  by (induction k v rows rule: upsert.induct) auto

lemma distinct_upsert: "distinct (map fst rows) \<Longrightarrow> distinct (map fst (upsert k v rows))"
  by (induction k v rows rule: upsert.induct) (auto simp: keys_upsert)

record pending =
  pe_id :: string
  pe_revision :: int
  pe_manifest :: json
  pe_base :: "string option"

text \<open>The tables of the checkpoint; a deleted key of \<^verbatim>\<open>changes\<close> has no hash.\<close>

record checkpoint =
  ck_index :: "((string \<times> json) \<times> string) list"
  ck_cursor :: "((string \<times> string) \<times> nat) list"
  ck_config :: "(string \<times> string) list"
  ck_changes :: "((string \<times> json) \<times> string option) list"
  ck_pending :: "pending list"

definition empty_checkpoint :: checkpoint where
  "empty_checkpoint = \<lparr>ck_index = [], ck_cursor = [], ck_config = [], ck_changes = [], ck_pending = []\<rparr>"

text \<open>A process and what it finds: the checkpoint, the files of the spool, the backend, the identifiers
  used so far, and the two attributes that the constructor reads.\<close>

record 's publisher =
  pb_db :: checkpoint
  pb_spool :: "(string \<times> body) list"
  pb_store :: 's
  pb_uuids :: nat
  pb_pending :: "pending option"
  pb_etag :: "string option"

record analytics_settings =
  se_experiment :: string
  se_prefix :: string
  se_log_bytes :: nat
  se_reserve :: int

definition strip_slashes :: "string \<Rightarrow> string" where
  "strip_slashes s = rev (dropWhile (\<lambda>c. c = CHR ''/'') (rev (dropWhile (\<lambda>c. c = CHR ''/'') s)))"

text \<open>\<^verbatim>\<open>_path\<close>: the prefix is stripped by the constructor.\<close>

definition path_of :: "analytics_settings \<Rightarrow> string \<Rightarrow> string" where
  "path_of se key = join_on ''/'' (filter (\<lambda>x. x \<noteq> []) [strip_slashes (se_prefix se), key])"

definition new_uuid :: "analytics_world \<Rightarrow> ('s publisher, string) op" where
  "new_uuid w = bindM (getsM (\<lambda>s. aw_uuid w (pb_uuids s))) (\<lambda>u.
     bindM (modifyM (\<lambda>s. s\<lparr>pb_uuids := pb_uuids s + 1\<rparr>)) (\<lambda>_. returnM u))"

definition spool_write :: "string \<Rightarrow> body \<Rightarrow> ('s publisher, unit) op" where
  "spool_write name b = modifyM (\<lambda>s. s\<lparr>pb_spool := upsert name b (pb_spool s)\<rparr>)"

definition spool_name :: "string \<Rightarrow> string" where
  "spool_name digest = digest @ ''.parquet''"

section \<open>Staging\<close>

definition item_json :: "analytics_settings \<Rightarrow> string \<Rightarrow> string \<Rightarrow> int \<Rightarrow> string \<Rightarrow> json" where
  "item_json se table folder count digest =
     JObj [(''key'', JStr (path_of se (''objects/table='' @ table @ ''/'' @ folder @ digest @ ''.parquet''))), (''rows'', JInt count),
       (''sha256'', JStr digest), (''table'', JStr table)]"

text \<open>\<^verbatim>\<open>_part\<close> moves a staged file to the name of its digest and describes it.\<close>

definition part :: "analytics_world \<Rightarrow> analytics_settings \<Rightarrow> string \<Rightarrow> string \<Rightarrow> int \<Rightarrow> string \<Rightarrow> ('s publisher, json) op" where
  "part w se path table count folder =
     bindM (getsM (\<lambda>s. aw_free w (pb_uuids s))) (\<lambda>free.
     bindM (whenM (free < se_reserve se) (raiseM (OSError ''analytics staging reached its disk reserve; publication deferred''))) (\<lambda>_.
     bindM (liftM (\<lambda>s. case map_of (pb_spool s) path of None \<Rightarrow> Inl (OSError ''No such file or directory'') | Some b \<Rightarrow> Inr b)) (\<lambda>b.
     let digest = aw_sha256 w b in
     bindM (modifyM (\<lambda>s. s\<lparr>pb_spool := upsert (spool_name digest) b (filter (\<lambda>e. fst e \<noteq> path) (pb_spool s))\<rparr>)) (\<lambda>_.
     returnM (item_json se table folder count digest)))))"

definition observe :: "analytics_world \<Rightarrow> int \<Rightarrow> bool \<Rightarrow> json \<times> sqlv list \<Rightarrow> observation" where
  "observe w rv deleted = (\<lambda>(k, vals). \<lparr>ob_values = vals, ob_revision = rv, ob_at = aw_now w, ob_key = k, ob_deleted = deleted\<rparr>)"

text \<open>The columns are converted one after the other, as far as the schema reaches.\<close>

definition convert :: "analytics_world \<Rightarrow> column list \<Rightarrow> (json \<times> sqlv list) list \<Rightarrow> unit result" where
  "convert w info records =
     foldr_res (\<lambda>i _. aw_array w (arrow_type (cl_type (info ! i))) (map (\<lambda>r. if i < length (snd r) then snd r ! i else SNull) records))
       [0..<length info] ()"

text \<open>\<^verbatim>\<open>_write\<close> for a nonempty list of records; an empty list writes nothing.\<close>

definition write_part ::
  "analytics_world \<Rightarrow> analytics_settings \<Rightarrow> string \<Rightarrow> column list \<Rightarrow> int \<Rightarrow> bool \<Rightarrow> (json \<times> sqlv list) list \<Rightarrow> ('s publisher, json) op" where
  "write_part w se table info rv deleted records =
     bindM (new_uuid w) (\<lambda>u.
     let path = table @ ''-'' @ u @ ''.parquet'' in
     bindM (liftM (\<lambda>_. convert w info records)) (\<lambda>_.
     bindM (spool_write path (Row_file (arrow_schema info True) (map (observe w rv deleted) records))) (\<lambda>_.
     part w se path table (int (length records)) [])))"

definition log_part :: "analytics_world \<Rightarrow> analytics_settings \<Rightarrow> log_row list \<Rightarrow> ('s publisher, json) op" where
  "log_part w se rows =
     bindM (new_uuid w) (\<lambda>u.
     let path = ''logs-'' @ u @ ''.parquet'' in
     bindM (spool_write path (Log_file rows)) (\<lambda>_.
     part w se path ''logs'' (int (length rows))
       (''attempt='' @ fz_attempt (hd rows) @ ''/stream='' @ fz_stream (hd rows) @ ''/'')))"

text \<open>The groups in which sized records are staged: a group is closed before a record that would
  make it too long or too large.\<close>

fun batches :: "('a \<times> nat) list \<Rightarrow> 'a list \<Rightarrow> nat \<Rightarrow> 'a list list" where
  "batches [] batch bytes = (if batch = [] then [] else [batch])"
| "batches ((x, n) # xs) batch bytes =
     (if batch \<noteq> [] \<and> (length batch \<ge> BATCH \<or> bytes + n > PART_BYTES) then batch # batches xs [x] n
      else batches xs (batch @ [x]) (bytes + n))"

definition stage :: "('a list \<Rightarrow> ('s publisher, json) op) \<Rightarrow> 'a list list \<Rightarrow> json list \<Rightarrow> ('s publisher, json list) op" where
  "stage f = foldM (\<lambda>b acc. bindM (f b) (\<lambda>i. returnM (acc @ [i])))"

section \<open>Tables\<close>

definition config_of :: "checkpoint \<Rightarrow> string \<Rightarrow> string option" where
  "config_of db k = map_of (ck_config db) k"

definition set_config :: "string \<Rightarrow> string \<Rightarrow> checkpoint \<Rightarrow> checkpoint" where
  "set_config k v db = db\<lparr>ck_config := upsert k v (ck_config db)\<rparr>"

text \<open>\<^verbatim>\<open>int(v)\<close> of a stored number, 0 when it is absent.\<close>

definition config_int :: "checkpoint \<Rightarrow> string \<Rightarrow> int result" where
  "config_int db k =
     (case config_of db k of None \<Rightarrow> Inr 0
      | Some v \<Rightarrow> (case py_int v of None \<Rightarrow> Inl (ValueError ''invalid literal for int()'') | Some n \<Rightarrow> Inr n))"

definition max_seq :: "source \<Rightarrow> int" where
  "max_seq src = fold (\<lambda>r m. max m (int_of (cell (source_info src ''events'') ''seq'' r))) (source_rows src ''events'') 0"

text \<open>The rows a scan reads: of the events only those after the stored position.\<close>

definition scan_rows :: "source \<Rightarrow> string \<Rightarrow> checkpoint \<Rightarrow> sqlv list list result" where
  "scan_rows src name db =
     (if name = ''events'' then
        bindr (config_int db ''events_seq'') (\<lambda>position.
        bindr (guardr (\<not> max_seq src < position) (ValueError ''source event cursor rewound; use a new dataset/checkpoint'')) (\<lambda>_.
        let seq = (\<lambda>r. int_of (cell (source_info src name) ''seq'' r)) in
        Inr (sort_key seq (filter (\<lambda>r. seq r > position) (source_rows src name)))))
      else Inr (source_rows src name))"

definition row_hash :: "analytics_world \<Rightarrow> sqlv list \<Rightarrow> string" where
  "row_hash w vals = aw_sha256 w (Json_text (row_text vals))"

definition row_size :: "analytics_world \<Rightarrow> sqlv list \<Rightarrow> nat" where
  "row_size w vals = utf8_length (json_text (rt_float (lg_rt (aw_log w))) (row_text vals))"

definition changed_rows ::
  "analytics_world \<Rightarrow> checkpoint \<Rightarrow> string \<Rightarrow> column list \<Rightarrow> string list \<Rightarrow> sqlv list list \<Rightarrow> (json \<times> sqlv list) list" where
  "changed_rows w db name info keys rows =
     filter (\<lambda>(k, vals). map_of (ck_index db) (name, k) \<noteq> Some (row_hash w vals)) (map (\<lambda>r. (key_of info keys r, r)) rows)"

definition gone_keys :: "checkpoint \<Rightarrow> string \<Rightarrow> column list \<Rightarrow> string list \<Rightarrow> sqlv list list \<Rightarrow> json list" where
  "gone_keys db name info keys rows =
     filter (\<lambda>k. \<not> List.member (map (key_of info keys) rows) k) (map (snd \<circ> fst) (filter (\<lambda>e. fst (fst e) = name) (ck_index db)))"

definition note_changes :: "string \<Rightarrow> (json \<times> string option) list \<Rightarrow> checkpoint \<Rightarrow> checkpoint" where
  "note_changes name cs db = db\<lparr>ck_changes := fold (\<lambda>(k, h). upsert (name, k) h) cs (ck_changes db)\<rparr>"

text \<open>A deleted row keeps the values of its key.\<close>

definition tombstone :: "column list \<Rightarrow> string list \<Rightarrow> json \<Rightarrow> sqlv list result" where
  "tombstone info keys k =
     (case k of
        JArr js \<Rightarrow> bindr (map_res unpack js) (\<lambda>values.
          Inr (fold (\<lambda>(col, v) row. row[col_index info col := v]) (zip keys values) (replicate (length info) SNull)))
      | _ \<Rightarrow> Inl (TypeError ''object is not iterable''))"

definition scan_table ::
  "analytics_world \<Rightarrow> analytics_settings \<Rightarrow> source \<Rightarrow> int \<Rightarrow> string \<Rightarrow> json list \<Rightarrow> ('s publisher, json list) op" where
  "scan_table w se src rv name output =
     bindM (liftM (\<lambda>_. schema_of src name)) (\<lambda>(info, keys).
     bindM (liftM (\<lambda>s. scan_rows src name (pb_db s))) (\<lambda>rows.
     bindM (getsM (\<lambda>s. (changed_rows w (pb_db s) name info keys rows, gone_keys (pb_db s) name info keys rows))) (\<lambda>(changed, gone).
     bindM (modifyM (\<lambda>s. s\<lparr>pb_db := note_changes name (map (\<lambda>(k, vals). (k, Some (row_hash w vals))) changed) (pb_db s)\<rparr>)) (\<lambda>_.
     bindM (stage (write_part w se name info rv False) (batches (map (\<lambda>r. (r, row_size w (snd r))) changed) [] 0) output) (\<lambda>output.
     if name = ''events'' then
       (let maxseq = fold (\<lambda>r m. max m (int_of (cell info (hd keys) r))) rows 0 in
        bindM (whenM (maxseq \<noteq> 0) (modifyM (\<lambda>s. s\<lparr>pb_db := set_config ''events_seq'' (encode_int maxseq) (pb_db s)\<rparr>))) (\<lambda>_.
        returnM output))
     else
       bindM (modifyM (\<lambda>s. s\<lparr>pb_db := note_changes name (map (\<lambda>k. (k, None)) gone) (pb_db s)\<rparr>)) (\<lambda>_.
       bindM (liftM (\<lambda>_. map_res (\<lambda>k. bindr (tombstone info keys k) (\<lambda>row. Inr (k, row))) gone)) (\<lambda>graves.
       stage (write_part w se name info rv True) (batches (map (\<lambda>g. (g, 0)) graves) [] 0) output)))))))"

section \<open>Logs\<close>

text \<open>The end of the line that holds a position, when its break lies before the limit.\<close>

function find_break :: "string \<Rightarrow> nat \<Rightarrow> nat \<Rightarrow> nat option" where
  "find_break bytes limit scan =
     (if \<not> scan < limit then None
      else let probe = readline bytes scan (min FRAGMENT (limit - scan)) in
        if probe = [] then None
        else if complete_line probe then Some (scan + length probe)
        else find_break bytes limit (scan + length probe))"
  by pat_completeness auto
termination by (relation "measure (\<lambda>(bytes, limit, scan). limit - scan)") (auto intro!: diff_less_mono2)

declare find_break.simps [simp del]

definition event_activity :: "runtime \<Rightarrow> string \<Rightarrow> string option" where
  "event_activity rt raw =
     (if starts_with ''@nix '' raw then
        (case rt_loads rt (drop 5 raw) of
           Some (JObj kvs) \<Rightarrow> (case map_of kvs ''id'' of None \<Rightarrow> None | Some JNull \<Rightarrow> None | Some j \<Rightarrow> Some (py_str rt j))
         | _ \<Rightarrow> None)
      else None)"

record reader =
  rd_attempt :: string
  rd_campaign :: string
  rd_stream :: string
  rd_bytes :: string
  rd_limit :: nat
  rd_live :: bool
  rd_budget :: nat
  rd_revision :: int

text \<open>One turn of the loop: the fragment at a position, unless the line it belongs to is still being
  written; with it the end of the committed line.\<close>

definition next_fragment :: "reader \<Rightarrow> nat \<Rightarrow> nat \<Rightarrow> nat \<Rightarrow> (string \<times> nat) option" where
  "next_fragment rd pos processed committed =
     (let raw = readline (rd_bytes rd) pos (min FRAGMENT (min (rd_limit rd - pos) (rd_budget rd - processed))) in
      if raw = [] then None
      else if rd_live rd \<and> \<not> complete_line raw \<and> pos + length raw > committed then
        map_option (\<lambda>e. (raw, e)) (find_break (rd_bytes rd) (rd_limit rd) (pos + length raw))
      else Some (raw, committed))"

definition fragment_row :: "analytics_world \<Rightarrow> reader \<Rightarrow> nat \<Rightarrow> string \<Rightarrow> activity_map \<Rightarrow> log_row \<times> activity_map" where
  "fragment_row w rd pos raw acts =
     (let continuation = pos > 0 \<and> (pos \<le> length (rd_bytes rd) \<longrightarrow> rd_bytes rd ! (pos - 1) \<noteq> NL);
          fragment = continuation \<or> \<not> complete_line raw;
          (acts', parsed) = (if fragment then (acts, None) else decode_line (aw_log w) raw pos acts)
      in (\<lparr>fz_attempt = rd_attempt rd, fz_campaign = rd_campaign rd, fz_stream = rd_stream rd, fz_start = pos, fz_end = pos + length raw,
            fz_raw = raw, fz_text = (case parsed of Some e \<Rightarrow> le_text e | None \<Rightarrow> lg_decode (aw_log w) raw),
            fz_activity = (if fragment then None else event_activity (lg_rt (aw_log w)) raw),
            fz_derivation = (case parsed of Some e \<Rightarrow> le_drv e | None \<Rightarrow> None), fz_kind = map_option le_kind parsed,
            fz_fragment = fragment, fz_revision = rd_revision rd, fz_at = aw_now w\<rparr>, acts'))"

lemma next_fragment_advances: "next_fragment rd pos processed committed = Some (raw, e) \<Longrightarrow> raw \<noteq> []"
  by (auto simp: next_fragment_def Let_def split: if_splits)

function read_stream ::
  "analytics_world \<Rightarrow> reader \<Rightarrow> nat \<Rightarrow> nat \<Rightarrow> nat \<Rightarrow> activity_map \<Rightarrow> log_row list \<times> nat \<times> nat \<times> activity_map" where
  "read_stream w rd pos processed committed acts =
     (if pos < rd_limit rd \<and> processed < rd_budget rd then
        (case next_fragment rd pos processed committed of
           None \<Rightarrow> ([], pos, processed, acts)
         | Some (raw, e) \<Rightarrow>
             let (row, acts') = fragment_row w rd pos raw acts;
                 (rows, p, q, acts'') = read_stream w rd (pos + length raw) (processed + length raw) e acts'
             in (row # rows, p, q, acts''))
      else ([], pos, processed, acts))"
  by pat_completeness auto
termination
  by (relation "measure (\<lambda>(w, rd, pos, _). rd_limit rd - pos)") (auto dest: next_fragment_advances intro!: diff_less_mono2)

declare read_stream.simps [simp del]

record log_attempt =
  la_id :: string
  la_campaign :: string
  la_state :: string
  la_offset :: nat
  la_activities :: activity_map

text \<open>\<^verbatim>\<open>SELECT id,campaign,state,offset FROM attempts ORDER BY id\<close> with the activities of each.\<close>

definition source_activities :: "source \<Rightarrow> string \<Rightarrow> activity_map" where
  "source_activities src aid =
     (let info = source_info src ''activities'' in
      fold (\<lambda>r. dict_set
          (case cell info ''activity'' r of SInt n \<Rightarrow> encode_int n | v \<Rightarrow> text_of v)
          (case cell info ''drv'' r of SText d \<Rightarrow> Some d | _ \<Rightarrow> None))
        (filter (\<lambda>r. cell info ''attempt'' r = SText aid) (source_rows src ''activities'')) [])"

definition log_attempts :: "source \<Rightarrow> log_attempt list" where
  "log_attempts src =
     (let info = source_info src ''attempts'' in
      map (\<lambda>r. let aid = text_of (cell info ''id'' r) in
          \<lparr>la_id = aid, la_campaign = text_of (cell info ''campaign'' r), la_state = text_of (cell info ''state'' r),
           la_offset = nat (int_of (cell info ''offset'' r)), la_activities = source_activities src aid\<rparr>)
        (sort_key (\<lambda>r. text_of (cell info ''id'' r)) (source_rows src ''attempts'')))"

definition cursor_of :: "checkpoint \<Rightarrow> string \<Rightarrow> string \<Rightarrow> nat" where
  "cursor_of db aid stream = (case map_of (ck_cursor db) (aid, stream) of None \<Rightarrow> 0 | Some n \<Rightarrow> n)"

definition log_reader :: "analytics_settings \<Rightarrow> int \<Rightarrow> log_attempt \<Rightarrow> string \<Rightarrow> string \<Rightarrow> reader" where
  "log_reader se rv a stream bytes =
     (let live = List.member [''running'', ''intended''] (la_state a) in
      \<lparr>rd_attempt = la_id a, rd_campaign = la_campaign a, rd_stream = stream, rd_bytes = bytes,
       rd_limit = (if stream = ''stderr'' \<and> live then min (length bytes) (la_offset a) else length bytes),
       rd_live = live, rd_budget = se_log_bytes se, rd_revision = rv\<rparr>)"

text \<open>The streams of all attempts until the budget is used up; the activities of an attempt are shared by
  its two streams.\<close>

definition scan_stream ::
  "analytics_world \<Rightarrow> analytics_settings \<Rightarrow> source \<Rightarrow> int \<Rightarrow> log_attempt \<Rightarrow> string \<Rightarrow> activity_map \<times> nat \<times> json list
    \<Rightarrow> ('s publisher, activity_map \<times> nat \<times> json list) op" where
  "scan_stream w se src rv a stream = (\<lambda>(acts, processed, output).
     case so_log src (la_id a) stream of
       None \<Rightarrow> returnM (acts, processed, output)
     | Some bytes \<Rightarrow>
         bindM (getsM (\<lambda>s. cursor_of (pb_db s) (la_id a) stream)) (\<lambda>pos.
         bindM (whenM (length bytes < pos) (raiseM (ValueError (''captured log shrank: '' @ la_id a @ ''/'' @ stream)))) (\<lambda>_.
         let (rows, pos', processed', acts') = read_stream w (log_reader se rv a stream bytes) pos processed 0 acts in
         bindM (stage (log_part w se) (batches (map (\<lambda>r. (r, length (fz_raw r))) rows) [] 0) output) (\<lambda>output'.
         bindM (modifyM (\<lambda>s. s\<lparr>pb_db := (pb_db s)\<lparr>ck_cursor := upsert (la_id a, stream) pos' (ck_cursor (pb_db s))\<rparr>\<rparr>)) (\<lambda>_.
         returnM (acts', processed', output'))))))"

fun scan_logs ::
  "analytics_world \<Rightarrow> analytics_settings \<Rightarrow> source \<Rightarrow> int \<Rightarrow> log_attempt list \<Rightarrow> nat \<Rightarrow> json list \<Rightarrow> ('s publisher, nat \<times> json list) op" where
  "scan_logs w se src rv [] processed output = returnM (processed, output)"
| "scan_logs w se src rv (a # as) processed output =
     bindM (scan_stream w se src rv a ''stdout'' (la_activities a, processed, output)) (\<lambda>(acts, p1, o1).
     if so_log src (la_id a) ''stdout'' \<noteq> None \<and> p1 \<ge> se_log_bytes se then returnM (p1, o1)
     else bindM (scan_stream w se src rv a ''stderr'' (acts, p1, o1)) (\<lambda>(_, p2, o2).
       if so_log src (la_id a) ''stderr'' \<noteq> None \<and> p2 \<ge> se_log_bytes se then returnM (p2, o2)
       else scan_logs w se src rv as p2 o2))"

end
