(* ===== verification/AnalyticsPublisher.thy ===== *)
theory AnalyticsPublisher
  imports AnalyticsScan
begin

text \<open>
  The publisher of the analytics dataset (\<^verbatim>\<open>experiment/analytics.py\<close>, \<^verbatim>\<open>Publisher.__init__\<close>,
  \<^verbatim>\<open>publish\<close>, \<^verbatim>\<open>_finalize\<close> and \<^verbatim>\<open>load_chain\<close>): opening the checkpoint against the remote pointer,
  one publication with its pending record, and reading the chain of manifests back. Every
  operation also says what it leaves behind when it raises, so a process that stops at any
  write is a run in which that write raises.
\<close>

section \<open>Opening\<close>

definition latest_key :: "analytics_settings \<Rightarrow> string" where
  "latest_key se = path_of se ''latest.json''"

text \<open>\<^verbatim>\<open>json.loads(remote).get("generation") if remote else None\<close>.\<close>

definition generation_of :: "(body \<times> string) option \<Rightarrow> json result" where
  "generation_of remote =
     (case remote of None \<Rightarrow> Inr JNull
      | Some (data, _) \<Rightarrow> bindr (loads_body data) (\<lambda>j. bindr (jget ''generation'' j) (\<lambda>g. Inr (case g of None \<Rightarrow> JNull | Some v \<Rightarrow> v))))"

definition identity_of :: "analytics_world \<Rightarrow> analytics_settings \<Rightarrow> string \<Rightarrow> string" where
  "identity_of w se backend =
     json_text (rt_float (lg_rt (aw_log w))) (JArr [JStr (se_experiment se), JStr backend, JStr (strip_slashes (se_prefix se))])"

definition first_pending :: "checkpoint \<Rightarrow> pending option" where
  "first_pending db = (case ck_pending db of [] \<Rightarrow> None | p # _ \<Rightarrow> Some p)"

text \<open>What the constructor checks after it has recorded its identity.\<close>

definition check_remote :: "checkpoint \<Rightarrow> bool \<Rightarrow> json \<Rightarrow> unit result" where
  "check_remote db remote generation =
     (let committed = config_of db ''generation''; pend = map_option (JStr \<circ> pe_id) (first_pending db) in
      bindr (guardr (\<not> (committed \<noteq> None \<and> \<not> remote)) (ValueError ''remote latest pointer is missing; refusing incomplete dataset'')) (\<lambda>_.
      bindr (guardr (\<not> (remote \<and> committed \<noteq> None \<and> map_option JStr committed \<noteq> Some generation \<and> pend \<noteq> Some generation))
        (ValueError ''remote latest pointer has an unexpected parent; refusing to continue'')) (\<lambda>_.
      guardr (\<not> (remote \<and> pend = None \<and> config_of db ''remote_seen'' = None))
        (ValueError ''remote dataset exists but local checkpoint is missing; refusing overwrite''))))"

definition open_publisher :: "analytics_world \<Rightarrow> 's backend \<Rightarrow> analytics_settings \<Rightarrow> ('s publisher, unit) op" where
  "open_publisher w bk se =
     bindM (liftM (\<lambda>s. bk_get bk (pb_store s) (latest_key se))) (\<lambda>remote.
     bindM (liftM (\<lambda>_. generation_of remote)) (\<lambda>generation.
     let who = identity_of w se (bk_identity bk) in
     bindM (liftM (\<lambda>s. guardr (config_of (pb_db s) ''identity'' \<in> {None, Some who})
        (ValueError ''analytics checkpoint belongs to a different source/destination/prefix''))) (\<lambda>_.
     bindM (modifyM (\<lambda>s. s\<lparr>pb_db := set_config ''identity'' who (pb_db s)\<rparr>)) (\<lambda>_.
     bindM (liftM (\<lambda>s. check_remote (pb_db s) (remote \<noteq> None) generation)) (\<lambda>_.
     modifyM (\<lambda>s. s\<lparr>pb_pending := first_pending (pb_db s), pb_etag := map_option snd remote\<rparr>))))))"

section \<open>Publishing\<close>

definition apply_change :: "(string \<times> json) \<times> string option \<Rightarrow> ((string \<times> json) \<times> string) list \<Rightarrow> ((string \<times> json) \<times> string) list" where
  "apply_change = (\<lambda>(k, h) index. case h of None \<Rightarrow> filter (\<lambda>e. fst e \<noteq> k) index | Some x \<Rightarrow> upsert k x index)"

text \<open>\<^verbatim>\<open>_finalize\<close>: the changes become the index in one transaction, then the spool is emptied.\<close>

definition finalized :: "string \<Rightarrow> checkpoint \<Rightarrow> checkpoint" where
  "finalized pid db =
     set_config ''generation'' pid (set_config ''remote_seen'' ''1''
       (db\<lparr>ck_index := fold apply_change (ck_changes db) (ck_index db), ck_changes := [], ck_pending := []\<rparr>))"

definition finalize :: "('s publisher, unit) op" where
  "finalize =
     bindM (liftM (\<lambda>s. case pb_pending s of None \<Rightarrow> Inl (TypeError ''cannot unpack non-iterable NoneType object'') | Some p \<Rightarrow> Inr p)) (\<lambda>p.
     modifyM (\<lambda>s. s\<lparr>pb_db := finalized (pe_id p) (pb_db s), pb_pending := None, pb_spool := []\<rparr>))"

definition jentry :: "string \<Rightarrow> json \<Rightarrow> string result" where
  "jentry k j = bindr (jindex k j) jstring"

definition manifest_files :: "json \<Rightarrow> json list result" where
  "manifest_files m = bindr (jindex ''files'' m) (\<lambda>fs. case fs of JArr is \<Rightarrow> Inr is | _ \<Rightarrow> Inl (TypeError ''object is not iterable''))"

text \<open>A staged object is checked and put; objects are named by their content, so this may be repeated.\<close>

definition upload :: "analytics_world \<Rightarrow> 's backend \<Rightarrow> json \<Rightarrow> ('s publisher, unit) op" where
  "upload w bk item =
     bindM (liftM (\<lambda>_. jentry ''sha256'' item)) (\<lambda>digest.
     bindM (liftM (\<lambda>s. case map_of (pb_spool s) (spool_name digest) of
         None \<Rightarrow> Inl (RuntimeError ''pending object spool is missing; refusing incomplete publication'')
       | Some b \<Rightarrow> bindr (guardr (aw_sha256 w b = digest) (ValueError ''pending object checksum mismatch; refusing publication'')) (\<lambda>_. Inr b))) (\<lambda>b.
     bindM (liftM (\<lambda>_. jentry ''key'' item)) (\<lambda>key.
     \<lambda>s. case bk_put_immutable bk key b (pb_store s) of (r, t) \<Rightarrow> (r, s\<lparr>pb_store := t\<rparr>))))"

definition manifest_key :: "analytics_settings \<Rightarrow> string \<Rightarrow> string" where
  "manifest_key se pid = path_of se (''manifests/'' @ pid @ ''.json'')"

definition pointer_json :: "analytics_settings \<Rightarrow> string \<Rightarrow> int \<Rightarrow> json" where
  "pointer_json se pid rv = JObj [(''generation'', JStr pid), (''manifest'', JStr (manifest_key se pid)), (''revision'', JInt rv)]"

text \<open>The second half of \<^verbatim>\<open>publish\<close>: objects, manifest, pointer, checkpoint.\<close>

definition release :: "analytics_world \<Rightarrow> 's backend \<Rightarrow> analytics_settings \<Rightarrow> string \<Rightarrow> int \<Rightarrow> json \<Rightarrow> string option \<Rightarrow> ('s publisher, json) op" where
  "release w bk se pid rv manifest base =
     bindM (liftM (\<lambda>_. manifest_files manifest)) (\<lambda>files.
     bindM (foreachM (upload w bk) files) (\<lambda>_.
     bindM (spool_write (pid @ ''.json'') (Json_text manifest)) (\<lambda>_.
     bindM (\<lambda>s. case bk_put_immutable bk (manifest_key se pid) (Json_text manifest) (pb_store s) of (r, t) \<Rightarrow> (r, s\<lparr>pb_store := t\<rparr>)) (\<lambda>_.
     bindM (\<lambda>s. case bk_publish bk (latest_key se) (Json_text (pointer_json se pid rv)) base (pb_store s) of
         (Inl e, t) \<Rightarrow> (Inl e, s\<lparr>pb_store := t\<rparr>)
       | (Inr etag, t) \<Rightarrow> (Inr (), s\<lparr>pb_store := t, pb_etag := Some etag\<rparr>)) (\<lambda>_.
     bindM finalize (\<lambda>_. returnM manifest))))))"

definition table_json :: "source \<Rightarrow> string \<Rightarrow> json result" where
  "table_json src table =
     bindr (schema_of src table) (\<lambda>(info, keys).
       Inr (JObj [(''columns'', JArr (map (\<lambda>c. JObj [(''name'', JStr (cl_name c)), (''type'', JStr (cl_type c))]) info)),
                  (''primary_key'', JArr (map JStr keys))]))"

definition manifest_json ::
  "analytics_world \<Rightarrow> string \<Rightarrow> int \<Rightarrow> source \<Rightarrow> (string \<times> json) list \<Rightarrow> nat \<Rightarrow> json \<Rightarrow> json list \<Rightarrow> json" where
  "manifest_json w pid rv src tables log_bytes parent files =
     JObj [(''events_seq'', JInt (max_seq src)), (''files'', JArr files), (''format'', JStr ''filnix-analytics-v1''), (''generation'', JStr pid),
       (''log_bytes'', JInt (int log_bytes)), (''observed_at'', JFloat (aw_now w)), (''parent'', parent), (''revision'', JInt rv),
       (''source_version'', JInt (so_version src)), (''tables'', JObj tables)]"

definition scan_tables :: "analytics_world \<Rightarrow> analytics_settings \<Rightarrow> source \<Rightarrow> int \<Rightarrow> ('s publisher, json list) op" where
  "scan_tables w se src rv = foldM (scan_table w se src rv) TABLES []"

definition SOURCE_VERSION :: int where
  "SOURCE_VERSION = 6"

definition table_schemas :: "source \<Rightarrow> (string \<times> json) list result" where
  "table_schemas src =
     bindr (guardr (so_version src = SOURCE_VERSION) (ValueError (''unsupported source database version: '' @ encode_int (so_version src)))) (\<lambda>_.
     map_res (\<lambda>t. bindr (table_json src t) (\<lambda>j. Inr (t, j))) TABLES)"

text \<open>Whether the pointer is still the one this publisher saw last; its generation is the parent.\<close>

definition parent_of :: "'s backend \<Rightarrow> analytics_settings \<Rightarrow> 's publisher \<Rightarrow> ((body \<times> string) option \<times> json) result" where
  "parent_of bk se s =
     bindr (bk_get bk (pb_store s) (latest_key se)) (\<lambda>remote.
     bindr (guardr (map_option snd remote = pb_etag s) concurrent_writer) (\<lambda>_.
     bindr (guardr (\<not> (remote \<noteq> None \<and> config_of (pb_db s) ''remote_seen'' = None))
        (ValueError ''remote dataset exists but local checkpoint is missing; refusing overwrite'')) (\<lambda>_.
     bindr (generation_of remote) (\<lambda>parent. Inr (remote, parent)))))"

text \<open>The scan, in one transaction of the checkpoint that ends with the pending record or leaves the
  checkpoint as it was. None when nothing changed.\<close>

definition scan ::
  "analytics_world \<Rightarrow> 's backend \<Rightarrow> analytics_settings \<Rightarrow> source \<Rightarrow> int \<Rightarrow> string \<Rightarrow> ('s publisher, pending option) op" where
  "scan w bk se src rv pid =
     bindM (liftM (\<lambda>_. table_schemas src)) (\<lambda>tables.
     atomicallyM pb_db (\<lambda>db s. s\<lparr>pb_db := db\<rparr>)
       (bindM (getsM pb_db) (\<lambda>before.
        bindM (scan_tables w se src rv) (\<lambda>parts.
        bindM (scan_logs w se src rv (log_attempts src) 0 parts) (\<lambda>(log_bytes, files).
        if files = [] then bindM (modifyM (\<lambda>s. s\<lparr>pb_db := before\<rparr>)) (\<lambda>_. returnM None)
        else
          bindM (liftM (parent_of bk se)) (\<lambda>(remote, parent).
          let manifest = manifest_json w pid rv src tables log_bytes parent files;
              p = \<lparr>pe_id = pid, pe_revision = rv, pe_manifest = manifest, pe_base = map_option snd remote\<rparr> in
          bindM (modifyM (\<lambda>s. s\<lparr>pb_db := set_config ''revision'' (encode_int rv)
              ((pb_db s)\<lparr>ck_pending := ck_pending (pb_db s) @ [p]\<rparr>)\<rparr>)) (\<lambda>_. returnM (Some p))))))))"

definition no_change :: "int \<Rightarrow> json" where
  "no_change rv = JObj [(''files'', JArr []), (''generation'', JNull), (''revision'', JInt (rv - 1))]"

definition publish :: "analytics_world \<Rightarrow> 's backend \<Rightarrow> analytics_settings \<Rightarrow> source \<Rightarrow> ('s publisher, json) op" where
  "publish w bk se src =
     bindM (whenM (aw_locked w) (raiseM (RuntimeError ''another analytics publisher is active''))) (\<lambda>_.
     bindM (getsM pb_pending) (\<lambda>pend.
     case pend of
       Some p \<Rightarrow>
         bindM (liftM (\<lambda>s. bk_get bk (pb_store s) (latest_key se))) (\<lambda>remote.
         bindM (liftM (\<lambda>_. generation_of remote)) (\<lambda>generation.
         if remote \<noteq> None \<and> generation = JStr (pe_id p) then
           bindM (modifyM (\<lambda>s. s\<lparr>pb_etag := map_option snd remote\<rparr>)) (\<lambda>_.
           bindM finalize (\<lambda>_. returnM (pe_manifest p)))
         else
           bindM (whenM (map_option snd remote \<noteq> pe_base p) (raiseM concurrent_writer)) (\<lambda>_.
           release w bk se (pe_id p) (pe_revision p) (pe_manifest p) (pe_base p))))
     | None \<Rightarrow>
         bindM (modifyM (\<lambda>s. s\<lparr>pb_spool := filter (\<lambda>e. \<not> ends_with ''.parquet'' (fst e)) (pb_spool s)\<rparr>)) (\<lambda>_.
         bindM (liftM (\<lambda>s. config_int (pb_db s) ''revision'')) (\<lambda>revision.
         let rv = revision + 1 in
         bindM (new_uuid w) (\<lambda>pid.
         bindM (scan w bk se src rv pid) (\<lambda>found.
         case found of
           None \<Rightarrow> returnM (no_change rv)
         | Some p \<Rightarrow>
             bindM (modifyM (\<lambda>s. s\<lparr>pb_pending := Some p\<rparr>)) (\<lambda>_.
             release w bk se pid rv (pe_manifest p) (pe_base p))))))))"

text \<open>One run of the command: a new process opens the checkpoint and publishes.\<close>

definition session :: "analytics_world \<Rightarrow> 's backend \<Rightarrow> analytics_settings \<Rightarrow> source \<Rightarrow> ('s publisher, json) op" where
  "session w bk se src = bindM (open_publisher w bk se) (\<lambda>_. publish w bk se src)"

section \<open>Reading the chain\<close>

text \<open>The loop of \<^verbatim>\<open>load_chain\<close>, newest manifest first; the first argument bounds its turns, and None says
  that they did not suffice.\<close>

definition chain_path :: "string \<Rightarrow> string \<Rightarrow> string" where
  "chain_path prefix key = (if prefix = [] then key else prefix @ ''/'' @ key)"

definition read_manifest :: "'s backend \<Rightarrow> 's \<Rightarrow> string \<Rightarrow> string \<Rightarrow> json result" where
  "read_manifest bk s prefix generation =
     bindr (bk_get bk s (chain_path prefix (''manifests/'' @ generation @ ''.json''))) (\<lambda>found.
     case found of
       None \<Rightarrow> Inl (ValueError (''committed manifest is missing: '' @ generation))
     | Some (data, _) \<Rightarrow>
         bindr (loads_body data) (\<lambda>m.
         bindr (jindex ''format'' m) (\<lambda>format.
         if format \<noteq> JStr ''filnix-analytics-v1'' then Inl (ValueError ''unsupported or inconsistent manifest'')
         else bindr (jindex ''generation'' m) (\<lambda>g.
           if g \<noteq> JStr generation then Inl (ValueError ''unsupported or inconsistent manifest'') else Inr m))))"

fun chain_loop :: "nat \<Rightarrow> 's backend \<Rightarrow> 's \<Rightarrow> string \<Rightarrow> string list \<Rightarrow> json \<Rightarrow> json list result option" where
  "chain_loop n bk s prefix seen generation =
     (if \<not> truthy generation then Some (Inr [])
      else case generation of
        JStr g \<Rightarrow>
          (if List.member seen g then Some (Inl (ValueError ''manifest parent cycle''))
           else case n of 0 \<Rightarrow> None
           | Suc k \<Rightarrow>
               (case read_manifest bk s prefix g of
                  Inl e \<Rightarrow> Some (Inl e)
                | Inr m \<Rightarrow>
                    (case jindex ''parent'' m of
                       Inl e \<Rightarrow> Some (Inl e)
                     | Inr parent \<Rightarrow> map_option (\<lambda>r. bindr r (\<lambda>ms. Inr (m # ms))) (chain_loop k bk s prefix (g # seen) parent))))
      | _ \<Rightarrow> Some (Inl (ValueError ''unsupported or inconsistent manifest'')))"

declare chain_loop.simps [simp del]

definition load_chain :: "nat \<Rightarrow> 's backend \<Rightarrow> 's \<Rightarrow> string \<Rightarrow> json list result option" where
  "load_chain n bk s prefix =
     (let prefix = strip_slashes prefix in
      case bk_get bk s (chain_path prefix ''latest.json'') of
        Inl e \<Rightarrow> Some (Inl e)
      | Inr None \<Rightarrow> Some (Inl (ValueError ''dataset has not been published yet''))
      | Inr (Some (data, _)) \<Rightarrow>
          (case bindr (loads_body data) (jindex ''generation'') of
             Inl e \<Rightarrow> Some (Inl e)
           | Inr generation \<Rightarrow> map_option (\<lambda>r. bindr r (\<lambda>ms. Inr (rev ms))) (chain_loop n bk s prefix [] generation)))"

end
