(* ===== verification/AnalyticsStore.thy ===== *)
theory AnalyticsStore
  imports AnalyticsPublisher
begin

text \<open>
  What the publisher relies on and what it stages: the contract of a backend as a locale with the
  local backend as its interpretation, the current rows of a history of observations, and what
  the scan of the tables and of the logs puts into the spool and into the checkpoint.
\<close>

section \<open>What a backend promises\<close>

text \<open>
  The contract of a backend towards the publisher: reading tells the truth, an immutable write adds
  at most the given object at a free key, and the pointer is replaced at most by the given
  body when its tag is the expected one. An operation that raises may have had its effect or not.
\<close>

locale object_store =
  fixes bk :: "'s backend"
    and contents :: "'s \<Rightarrow> string \<Rightarrow> body option"
    and tag :: "body \<Rightarrow> string"
    and digest :: "body \<Rightarrow> string"
  assumes get_true: "bk_get bk s key = Inr found \<Longrightarrow> found = map_option (\<lambda>b. (b, tag b)) (contents s key)"
    and put_adds: "contents (snd (bk_put_immutable bk key b s)) \<in> {contents s} \<union> (if contents s key = None then {(contents s)(key \<mapsto> b)} else {})"
    and put_done: "bk_put_immutable bk key b s = (Inr u, t) \<Longrightarrow> \<exists>b'. contents t key = Some b' \<and> digest b' = digest b"
    and copy_adds: "contents (snd (bk_copy_immutable bk source key d s)) \<in> {contents s} \<union>
      {(contents s)(key \<mapsto> b) | b. contents s key = None \<and> contents s source = Some b \<and> digest b = d}"
    and copy_done: "bk_copy_immutable bk source key d s = (Inr u, t) \<Longrightarrow> \<exists>b. contents t key = Some b \<and> digest b = d"
    and publish_replaces: "contents (snd (bk_publish bk key b expected s)) \<in> {contents s} \<union>
      (if map_option tag (contents s key) = expected then {(contents s)(key \<mapsto> b)} else {})"
    and publish_done: "bk_publish bk key b expected s = (Inr etag, t) \<Longrightarrow> contents t = (contents s)(key \<mapsto> b) \<and> etag = tag b"
begin

lemma put_keeps: "bk_put_immutable bk key b s = (r, t) \<Longrightarrow> contents s k = Some x \<Longrightarrow> contents t k = Some x"
  using put_adds [of key b s] by (auto split: if_splits)

lemma put_other: "bk_put_immutable bk key b s = (r, t) \<Longrightarrow> k \<noteq> key \<Longrightarrow> contents t k = contents s k"
  using put_adds [of key b s] by (auto split: if_splits)

lemma copy_keeps: "bk_copy_immutable bk source key d s = (r, t) \<Longrightarrow> contents s k = Some x \<Longrightarrow> contents t k = Some x"
  using copy_adds [of source key d s] by auto

lemma copy_other: "bk_copy_immutable bk source key d s = (r, t) \<Longrightarrow> k \<noteq> key \<Longrightarrow> contents t k = contents s k"
  using copy_adds [of source key d s] by auto

lemma publish_other: "bk_publish bk key b expected s = (r, t) \<Longrightarrow> k \<noteq> key \<Longrightarrow> contents t k = contents s k"
  using publish_replaces [of key b expected s] by (auto split: if_splits)

end

definition local_contents :: "local \<Rightarrow> string \<Rightarrow> body option" where
  "local_contents s = map_of (lo_files s)"

lemma local_write_contents:
  "local_contents (snd (local_write key b s)) \<in> {local_contents s, (local_contents s)(key \<mapsto> b)}"
  "local_write key b s = (Inr u, t) \<Longrightarrow> local_contents t = (local_contents s)(key \<mapsto> b)"
  by (auto simp: local_write_def local_contents_def Let_def split: list.splits trouble.splits)

interpretation lb: object_store "local_backend w folder" local_contents "aw_md5 w" "aw_sha256 w"
proof
  fix s key found
  assume "bk_get (local_backend w folder) s key = Inr found"
  then show "found = map_option (\<lambda>b. (b, aw_md5 w b)) (local_contents s key)"
    by (simp add: local_backend_def local_get_def local_contents_def)
next
  fix key b s
  show "local_contents (snd (bk_put_immutable (local_backend w folder) key b s))
      \<in> {local_contents s} \<union> (if local_contents s key = None then {(local_contents s)(key \<mapsto> b)} else {})"
    using local_write_contents(1) [of key b s]
    by (auto simp: local_backend_def local_put_immutable_def local_contents_def split: option.split)
next
  fix key b s u t
  assume "bk_put_immutable (local_backend w folder) key b s = (Inr u, t)"
  then show "\<exists>b'. local_contents t key = Some b' \<and> aw_sha256 w b' = aw_sha256 w b"
    using local_write_contents(2) [of key b s]
    by (auto simp: local_backend_def local_put_immutable_def local_contents_def split: option.splits if_splits)
next
  fix source key d s
  show "local_contents (snd (bk_copy_immutable (local_backend w folder) source key d s)) \<in> {local_contents s} \<union>
      {(local_contents s)(key \<mapsto> b) | b. local_contents s key = None \<and> local_contents s source = Some b \<and> aw_sha256 w b = d}"
    using local_write_contents(1) [of key _ s]
    by (auto simp: local_backend_def local_copy_immutable_def local_put_immutable_def local_contents_def split: option.split)
next
  fix source key d s u t
  assume "bk_copy_immutable (local_backend w folder) source key d s = (Inr u, t)"
  then show "\<exists>b. local_contents t key = Some b \<and> aw_sha256 w b = d"
    using local_write_contents(2) [of key _ s]
    by (auto simp: local_backend_def local_copy_immutable_def local_put_immutable_def local_contents_def split: option.splits if_splits)
next
  fix key b expected s
  show "local_contents (snd (bk_publish (local_backend w folder) key b expected s)) \<in> {local_contents s} \<union>
      (if map_option (aw_md5 w) (local_contents s key) = expected then {(local_contents s)(key \<mapsto> b)} else {})"
    using local_write_contents(1) [of key b s]
    by (auto simp: local_backend_def local_publish_def bindM_def liftM_def whenM_def raiseM_def returnM_def local_get_def local_contents_def
        option.map_comp comp_def split: prod.splits sum.splits)
next
  fix key b expected s etag t
  assume "bk_publish (local_backend w folder) key b expected s = (Inr etag, t)"
  then show "local_contents t = (local_contents s)(key \<mapsto> b) \<and> etag = aw_md5 w b"
    using local_write_contents(2) [of key b s]
    by (auto simp: local_backend_def local_publish_def bindM_def liftM_def whenM_def raiseM_def returnM_def
        split: prod.splits sum.splits if_splits)
qed

section \<open>The latest observations\<close>

text \<open>What \<^verbatim>\<open>row_number() OVER (PARTITION BY _source_key ORDER BY _revision DESC)\<close> may choose for each key,
  without the deleted ones.\<close>

definition current :: "observation list \<Rightarrow> (json \<times> sqlv list) list" where
  "current obs = map (\<lambda>x. (ob_key x, ob_values x))
     (filter (\<lambda>x. \<not> ob_deleted x \<and> list_all (\<lambda>y. ob_key y = ob_key x \<longrightarrow> ob_revision y \<le> ob_revision x) obs) obs)"

lemma set_current:
  "(k, v) \<in> set (current obs) \<longleftrightarrow> (\<exists>x \<in> set obs. ob_key x = k \<and> ob_values x = v \<and> \<not> ob_deleted x \<and>
     (\<forall>y \<in> set obs. ob_key y = k \<longrightarrow> ob_revision y \<le> ob_revision x))"
  by (auto simp: current_def list_all_iff)

lemma current_append:
  assumes "\<forall>x \<in> set obs. ob_revision x < rv" and "\<forall>x \<in> set new. ob_revision x = rv"
  shows "(k, v) \<in> set (current (obs @ new)) \<longleftrightarrow>
    (if k \<in> ob_key ` set new then \<exists>x \<in> set new. ob_key x = k \<and> ob_values x = v \<and> \<not> ob_deleted x else (k, v) \<in> set (current obs))"
proof (cases "k \<in> ob_key ` set new")
  case True
  then obtain y where y: "y \<in> set new" "ob_key y = k" by auto
  have "ob_revision x < ob_revision y" if "x \<in> set obs" for x using that y assms by auto
  then have old: "\<not> (\<forall>y \<in> set (obs @ new). ob_key y = k \<longrightarrow> ob_revision y \<le> ob_revision x)" if "x \<in> set obs" for x
    using that y by fastforce
  have "\<forall>y \<in> set (obs @ new). ob_revision y \<le> ob_revision x" if "x \<in> set new" for x
    using that assms by fastforce
  with True old show ?thesis unfolding set_current by auto
next
  case False
  then have "\<forall>y \<in> set new. ob_key y \<noteq> k" by auto
  with False show ?thesis unfolding set_current by (simp add: bex_Un ball_Un)
qed

section \<open>Groups and changes\<close>

lemma concat_batches: "concat (batches xs b n) = b @ map fst xs"
  by (induction xs b n rule: batches.induct) auto

lemma batches_nonempty: "b \<in> set (batches xs b0 n) \<Longrightarrow> b \<noteq> []"
  by (induction xs b0 n rule: batches.induct) (auto split: if_splits)

lemma map_of_filter_key: "map_of (filter (\<lambda>e. fst e \<noteq> k) xs) j = (if j = k then None else map_of xs j)"
  by (induction xs) auto

lemma map_of_apply_change:
  "map_of (apply_change (k, h) index) j = (if j = k then h else map_of index j)"
  by (simp add: apply_change_def map_of_filter_key split: option.split)

lemma map_of_apply_changes:
  "distinct (map fst cs) \<Longrightarrow> map_of (fold apply_change cs index) j = (case map_of cs j of None \<Rightarrow> map_of index j | Some h \<Rightarrow> h)"
proof (induction cs arbitrary: index)
  case (Cons c cs)
  obtain k h where c: "c = (k, h)" by (rule prod.exhaust)
  have "map_of cs k = None" using Cons.prems by (simp add: c map_of_eq_None_iff)
  with Cons show ?case by (auto simp: c map_of_apply_change split: option.split)
qed simp

lemma changes_noted:
  "map_of (ck_changes (note_changes name cs db)) (t, k) =
     (if t = name then (case map_of (rev cs) k of None \<Rightarrow> map_of (ck_changes db) (t, k) | Some h \<Rightarrow> Some h) else map_of (ck_changes db) (t, k))"
proof -
  have "map_of (fold (\<lambda>(k, h). upsert (name, k) h) cs m) (t, k) =
     (if t = name then (case map_of (rev cs) k of None \<Rightarrow> map_of m (t, k) | Some h \<Rightarrow> Some h) else map_of m (t, k))" for m
    by (induction cs arbitrary: m) (auto simp: map_add_def split: option.splits)
  then show ?thesis by (simp add: note_changes_def)
qed

lemma note_changes_distinct: "distinct (map fst (ck_changes db)) \<Longrightarrow> distinct (map fst (ck_changes (note_changes name cs db)))"
proof -
  have "distinct (map fst m) \<Longrightarrow> distinct (map fst (fold (\<lambda>(k, h). upsert (name, k) h) cs m))" for m :: "((string \<times> json) \<times> string option) list"
    by (induction cs arbitrary: m) (auto simp: distinct_upsert)
  then show "distinct (map fst (ck_changes db)) \<Longrightarrow> ?thesis" by (simp add: note_changes_def)
qed

lemma note_changes_simps [simp]:
  "ck_index (note_changes name cs db) = ck_index db" "ck_config (note_changes name cs db) = ck_config db"
  "ck_pending (note_changes name cs db) = ck_pending db" "ck_cursor (note_changes name cs db) = ck_cursor db"
  by (simp_all add: note_changes_def)

lemma set_config_simps [simp]:
  "ck_index (set_config k v db) = ck_index db" "ck_changes (set_config k v db) = ck_changes db"
  "ck_pending (set_config k v db) = ck_pending db" "ck_cursor (set_config k v db) = ck_cursor db"
  "config_of (set_config k v db) j = (if j = k then Some v else config_of db j)"
  by (simp_all add: set_config_def config_of_def)

section \<open>What staging produces\<close>

text \<open>An entry describes a staged body of a table.\<close>

definition describes :: "analytics_world \<Rightarrow> analytics_settings \<Rightarrow> string \<Rightarrow> json \<Rightarrow> body \<Rightarrow> bool" where
  "describes w se t entry b \<longleftrightarrow> (\<exists>folder n. entry = item_json se t folder n (aw_sha256 w b))"

text \<open>Items with the bodies they describe and the tables they belong to.\<close>

type_synonym staged = "(string \<times> body) list"

definition staged_as :: "analytics_world \<Rightarrow> analytics_settings \<Rightarrow> json list \<Rightarrow> staged \<Rightarrow> bool" where
  "staged_as w se = list_all2 (\<lambda>entry (t, b). describes w se t entry b)"

fun rows_of :: "body \<Rightarrow> observation list" where
  "rows_of (Row_file sch obs) = obs"
| "rows_of _ = []"

definition staged_rows :: "staged \<Rightarrow> string \<Rightarrow> observation list" where
  "staged_rows st t = concat (map (\<lambda>(t', b). if t' = t then rows_of b else []) st)"

lemma staged_rows_simps [simp]:
  "staged_rows [] t = []"
  "staged_rows ((t', b) # st) t = (if t' = t then rows_of b else []) @ staged_rows st t"
  "staged_rows (st @ st') t = staged_rows st t @ staged_rows st' t"
  by (simp_all add: staged_rows_def)

lemma staged_as_append: "staged_as w se is st \<Longrightarrow> staged_as w se js st' \<Longrightarrow> staged_as w se (is @ js) (st @ st')"
  by (simp add: staged_as_def list_all2_appendI)

text \<open>Staging touches the spool and the supply of identifiers only.\<close>

definition same_but_spool :: "'s publisher \<Rightarrow> 's publisher \<Rightarrow> bool" where
  "same_but_spool s t \<longleftrightarrow> pb_db t = pb_db s \<and> pb_store t = pb_store s \<and> pb_pending t = pb_pending s \<and> pb_etag t = pb_etag s
     \<and> pb_uuids s \<le> pb_uuids t"

lemma same_but_spool_refl [simp]: "same_but_spool s s"
  by (simp add: same_but_spool_def)

lemma same_but_spool_trans: "same_but_spool s t \<Longrightarrow> same_but_spool t u \<Longrightarrow> same_but_spool s u"
  by (auto simp: same_but_spool_def)

lemma wp_new_uuid: "(Q (aw_uuid w (pb_uuids s)) (s\<lparr>pb_uuids := pb_uuids s + 1\<rparr>)) \<Longrightarrow> wp (new_uuid w) Q E s"
  by (simp add: new_uuid_def)

lemma wp_part:
  assumes "map_of (pb_spool s) path = Some b"
  shows "wp (part w se path t n folder) (\<lambda>entry u. same_but_spool s u \<and> describes w se t entry b) (same_but_spool s) s"
  using assms by (auto simp: part_def Let_def same_but_spool_def describes_def)

lemma wp_write_part:
  "wp (write_part w se t info rv deleted records)
     (\<lambda>entry u. same_but_spool s u \<and> describes w se t entry (Row_file (arrow_schema info True) (map (observe w rv deleted) records)))
     (same_but_spool s) s"
proof -
  have "wp (part w se path t n []) (\<lambda>entry u. same_but_spool s u \<and> describes w se t entry b) (same_but_spool s)
      (s\<lparr>pb_uuids := pb_uuids s + 1, pb_spool := upsert path b (pb_spool s)\<rparr>)" for path n b
    by (rule wp_mono [OF wp_part [where b = b]]) (auto simp: same_but_spool_def)
  then show ?thesis
    by (simp add: write_part_def new_uuid_def spool_write_def Let_def split: sum.split) (simp add: same_but_spool_def)
qed

lemma wp_log_part:
  "wp (log_part w se rows) (\<lambda>entry u. same_but_spool s u \<and> describes w se ''logs'' entry (Log_file rows)) (same_but_spool s) s"
proof -
  have "wp (part w se path t n folder) (\<lambda>entry u. same_but_spool s u \<and> describes w se t entry b) (same_but_spool s)
      (s\<lparr>pb_uuids := pb_uuids s + 1, pb_spool := upsert path b (pb_spool s)\<rparr>)" for path t n b folder
    by (rule wp_mono [OF wp_part [where b = b]]) (auto simp: same_but_spool_def)
  then show ?thesis by (simp add: log_part_def new_uuid_def spool_write_def Let_def)
qed

lemma wp_stage:
  assumes "\<And>g s. wp (f g) (\<lambda>entry u. same_but_spool s u \<and> describes w se t entry (body_for g)) (same_but_spool s) s"
  shows "wp (stage f gs acc) (\<lambda>out u. same_but_spool s u \<and> (\<exists>is. out = acc @ is \<and> staged_as w se is (map (\<lambda>g. (t, body_for g)) gs)))
    (same_but_spool s) s"
proof (induction gs arbitrary: acc s)
  case Nil
  show ?case by (simp add: stage_def staged_as_def)
next
  case (Cons g gs)
  have "wp (stage f gs (acc @ [entry])) (\<lambda>out u. same_but_spool s u \<and> (\<exists>is. out = acc @ is \<and> staged_as w se is (map (\<lambda>g. (t, body_for g)) (g # gs))))
      (same_but_spool s) s'" if "same_but_spool s s'" "describes w se t entry (body_for g)" for entry s'
    by (rule wp_mono [OF Cons.IH]) (use that same_but_spool_trans in \<open>auto simp: staged_as_def intro!: exI [of _ "entry # _"]\<close>)
  then show ?case
    unfolding stage_def foldM.simps wp_bind wp_simps
    by (intro wp_mono [OF assms]) (auto simp: stage_def)
qed

section \<open>One table\<close>

lemma rows_of_groups:
  "staged_rows (map (\<lambda>g. (t, Row_file sch (map f g))) gs) t' = (if t' = t then map f (concat gs) else [])"
  by (induction gs) auto

text \<open>What a scan observes of a table, against an index.\<close>

definition scanned_rows :: "analytics_world \<Rightarrow> checkpoint \<Rightarrow> source \<Rightarrow> string \<Rightarrow> (json \<times> sqlv list) list" where
  "scanned_rows w db src t = changed_rows w db t (source_info src t) (schema_keys (source_info src t)) (source_rows src t)"

definition scanned_gone :: "checkpoint \<Rightarrow> source \<Rightarrow> string \<Rightarrow> json list" where
  "scanned_gone db src t = gone_keys db t (source_info src t) (schema_keys (source_info src t)) (source_rows src t)"

text \<open>The new observations of a table and the changes noted for them agree.\<close>

definition table_scanned :: "analytics_world \<Rightarrow> checkpoint \<Rightarrow> source \<Rightarrow> int \<Rightarrow> string \<Rightarrow> observation list \<Rightarrow> (json \<Rightarrow> string option option) \<Rightarrow> bool" where
  "table_scanned w db src rv t obs change \<longleftrightarrow>
     (\<exists>graves. obs = map (observe w rv False) (scanned_rows w db src t) @ map (observe w rv True) graves
       \<and> map fst graves = scanned_gone db src t)
     \<and> (\<forall>k. change k = (if k \<in> set (scanned_gone db src t) then Some None
          else map_option (\<lambda>v. Some (row_hash w v)) (map_of (rev (scanned_rows w db src t)) k)))"

lemma map_res_pairs: "map_res (\<lambda>k. bindr (f k) (\<lambda>r. Inr (k, r))) ks = Inr ps \<Longrightarrow> map fst ps = ks"
  by (induction ks arbitrary: ps) (auto simp: bindr_eq_Inr)

definition scan_frame :: "'s publisher \<Rightarrow> 's publisher \<Rightarrow> bool" where
  "scan_frame s u \<longleftrightarrow> pb_store u = pb_store s \<and> pb_pending u = pb_pending s \<and> pb_etag u = pb_etag s \<and> pb_uuids s \<le> pb_uuids u
     \<and> ck_index (pb_db u) = ck_index (pb_db s) \<and> ck_pending (pb_db u) = ck_pending (pb_db s)
     \<and> (\<forall>k. k \<noteq> ''events_seq'' \<longrightarrow> config_of (pb_db u) k = config_of (pb_db s) k)
     \<and> (distinct (map fst (ck_changes (pb_db s))) \<longrightarrow> distinct (map fst (ck_changes (pb_db u))))"

text \<open>What an operation that raises half way leaves of everything but the checkpoint.\<close>

definition kept_outside :: "'s publisher \<Rightarrow> 's publisher \<Rightarrow> bool" where
  "kept_outside s u \<longleftrightarrow> pb_store u = pb_store s \<and> pb_pending u = pb_pending s \<and> pb_etag u = pb_etag s \<and> pb_uuids s \<le> pb_uuids u"

lemma scan_frame_refl [simp]: "scan_frame s s"
  by (simp add: scan_frame_def)

lemma scan_frame_trans: "scan_frame s t \<Longrightarrow> scan_frame t u \<Longrightarrow> scan_frame s u"
  by (auto simp: scan_frame_def)

lemma scan_frame_outside: "scan_frame s u \<Longrightarrow> kept_outside s u"
  by (simp add: scan_frame_def kept_outside_def)

lemma same_but_spool_frame: "same_but_spool s u \<Longrightarrow> scan_frame s u"
  by (simp add: scan_frame_def same_but_spool_def)

lemma kept_outside_trans: "kept_outside s t \<Longrightarrow> kept_outside t u \<Longrightarrow> kept_outside s u"
  by (auto simp: kept_outside_def)

lemma same_outside: "same_but_spool s u \<Longrightarrow> kept_outside s u"
  by (simp add: kept_outside_def same_but_spool_def)

lemma kept_outside_db [simp]: "kept_outside s (u\<lparr>pb_db := db\<rparr>) = kept_outside s u" "kept_outside (s\<lparr>pb_db := db\<rparr>) u = kept_outside s u"
  by (simp_all add: kept_outside_def)

definition scan_post :: "analytics_world \<Rightarrow> analytics_settings \<Rightarrow> source \<Rightarrow> int \<Rightarrow> string \<Rightarrow> json list \<Rightarrow> 's publisher \<Rightarrow> json list \<Rightarrow> 's publisher \<Rightarrow> bool" where
  "scan_post w se src rv t acc s out u \<longleftrightarrow> scan_frame s u \<and>
     (\<exists>is st. out = acc @ is \<and> staged_as w se is st \<and> (\<forall>t'. t' \<noteq> t \<longrightarrow> staged_rows st t' = []) \<and>
       (\<forall>t' k. t' \<noteq> t \<longrightarrow> map_of (ck_changes (pb_db u)) (t', k) = map_of (ck_changes (pb_db s)) (t', k)) \<and>
       (t \<noteq> ''events'' \<and> (\<forall>k. map_of (ck_changes (pb_db s)) (t, k) = None) \<longrightarrow>
          table_scanned w (pb_db s) src rv t (staged_rows st t) (\<lambda>k. map_of (ck_changes (pb_db u)) (t, k))) \<and>
       (\<forall>x \<in> set (staged_rows st t). ob_revision x = rv))"

lemma wp_stage_rows:
  assumes "concat gs = xs"
  shows "wp (stage (write_part w se t info rv deleted) gs acc)
     (\<lambda>out u. same_but_spool s u \<and> (\<exists>is st. out = acc @ is \<and> staged_as w se is st \<and>
        (\<forall>t'. staged_rows st t' = (if t' = t then map (observe w rv deleted) xs else []))))
     (same_but_spool s) s"
  by (rule wp_mono [OF wp_stage [where body_for = "\<lambda>g. Row_file (arrow_schema info True) (map (observe w rv deleted) g)", OF wp_write_part]])
    (use rows_of_groups assms in blast)+

lemma observe_revision [simp]: "ob_revision (observe w rv deleted r) = rv"
  by (cases r) (simp add: observe_def)

lemma frame_notes: "scan_frame s u \<Longrightarrow> scan_frame s (u\<lparr>pb_db := note_changes t cs (pb_db u)\<rparr>)"
  by (simp add: scan_frame_def note_changes_distinct) (simp add: config_of_def)

lemma frame_events: "scan_frame s u \<Longrightarrow> scan_frame s (u\<lparr>pb_db := set_config ''events_seq'' v (pb_db u)\<rparr>)"
  by (simp add: scan_frame_def)

lemma map_of_rev_pairs: "map_of (rev (map (\<lambda>(k, v). (k, Some (h v))) xs)) k = map_option (\<lambda>v. Some (h v)) (map_of (rev xs) k)"
proof -
  have "map_of (map (\<lambda>(k, v). (k, Some (h v))) ys) k = map_option (\<lambda>v. Some (h v)) (map_of ys k)" for ys
    by (induction ys) auto
  then show ?thesis by (simp add: rev_map)
qed

lemma map_of_rev_const: "map_of (rev (map (\<lambda>k. (k, c)) ks)) k = (if k \<in> set ks then Some c else None)"
proof -
  have "map_of (map (\<lambda>k. (k, c)) xs) k = (if k \<in> set xs then Some c else None)" for xs by (induction xs) auto
  then show ?thesis by (simp add: rev_map)
qed

text \<open>The scan of one table; the premises give the intermediate states of its three stages.\<close>

lemma wp_scan_table: "wp (scan_table w se src rv t acc) (scan_post w se src rv t acc s) (kept_outside s) s"
proof -
  define info where "info = source_info src t"
  define keys where "keys = schema_keys info"
  have schema: "schema_of src t = (if keys = [] then Inl (ValueError (''table '' @ t @ '' has no primary key'')) else Inr (info, keys))"
    by (simp add: schema_of_def info_def keys_def Let_def)
  define changed where "changed rows = changed_rows w (pb_db s) t info keys rows" for rows
  define gone where "gone rows = gone_keys (pb_db s) t info keys rows" for rows
  define s1 where "s1 rows = s\<lparr>pb_db := note_changes t (map (\<lambda>(k, vals). (k, Some (row_hash w vals))) (changed rows)) (pb_db s)\<rparr>" for rows
  have s1: "scan_frame s (s1 rows)" for rows
    unfolding s1_def by (rule frame_notes) simp
  have s1_changes: "map_of (ck_changes (pb_db (s1 rows))) (t', k) =
      (if t' = t then (case map_option (\<lambda>v. Some (row_hash w v)) (map_of (rev (changed rows)) k) of None \<Rightarrow> map_of (ck_changes (pb_db s)) (t, k) | Some h \<Rightarrow> Some h)
       else map_of (ck_changes (pb_db s)) (t', k))" for rows t' k
    by (simp add: s1_def changes_noted map_of_rev_pairs split: option.split)
  have written: "wp (stage (write_part w se t info rv False) (batches (map (\<lambda>r. (r, row_size w (snd r))) (changed rows)) [] 0) acc)
      (\<lambda>out u. same_but_spool (s1 rows) u \<and> (\<exists>is st. out = acc @ is \<and> staged_as w se is st \<and>
        (\<forall>t'. staged_rows st t' = (if t' = t then map (observe w rv False) (changed rows) else []))))
      (same_but_spool (s1 rows)) (s1 rows)" for rows
    by (rule wp_stage_rows) (simp add: concat_batches comp_def)
  have graves: "wp (stage (write_part w se t info rv True) (batches (map (\<lambda>g. (g, 0)) gs) [] 0) out)
      (\<lambda>out' v. same_but_spool u v \<and> (\<exists>is st. out' = out @ is \<and> staged_as w se is st \<and>
        (\<forall>t'. staged_rows st t' = (if t' = t then map (observe w rv True) gs else []))))
      (same_but_spool u) u" for gs out u
    by (rule wp_stage_rows) (simp add: concat_batches comp_def)
  have events: "scan_post w se src rv t acc s out v"
    if "t = ''events''" "same_but_spool (s1 rows) u" "scan_frame u v" "ck_changes (pb_db v) = ck_changes (pb_db u)"
      "out = acc @ is" "staged_as w se is st"
      "\<forall>t'. staged_rows st t' = (if t' = t then map (observe w rv False) (changed rows) else [])" for rows u v out "is" st
  proof -
    have "scan_frame s v" using scan_frame_trans [OF s1 scan_frame_trans [OF same_but_spool_frame]] that(2,3) by blast
    moreover have "ck_changes (pb_db v) = ck_changes (pb_db (s1 rows))" using that(2,4) by (simp add: same_but_spool_def)
    ultimately show ?thesis unfolding scan_post_def using that(1,5,6,7) s1_changes [of rows]
      by (intro conjI exI [of _ "is"] exI [of _ st]) auto
  qed
  have tables: "scan_post w se src rv t acc s out' v"
    if "t \<noteq> ''events''" "rows = source_rows src t" "same_but_spool (s1 rows) u"
      "out = acc @ is" "staged_as w se is st" "\<forall>t'. staged_rows st t' = (if t' = t then map (observe w rv False) (changed rows) else [])"
      "map fst gs = gone rows"
      "same_but_spool (u\<lparr>pb_db := note_changes t (map (\<lambda>k. (k, None)) (gone rows)) (pb_db u)\<rparr>) v"
      "out' = out @ is'" "staged_as w se is' st'" "\<forall>t'. staged_rows st' t' = (if t' = t then map (observe w rv True) gs else [])"
    for rows u v out out' "is" st is' st' gs
  proof -
    let ?u = "u\<lparr>pb_db := note_changes t (map (\<lambda>k. (k, None)) (gone rows)) (pb_db u)\<rparr>"
    have frame: "scan_frame s v"
      using scan_frame_trans [OF frame_notes [OF scan_frame_trans [OF s1 same_but_spool_frame]] same_but_spool_frame] that(3,8) by blast
    have db: "pb_db v = note_changes t (map (\<lambda>k. (k, None)) (gone rows)) (pb_db (s1 rows))"
      using that(3,8) by (simp add: same_but_spool_def)
    have changes: "map_of (ck_changes (pb_db v)) (t', k) = (if t' = t \<and> k \<in> set (gone rows) then Some None else map_of (ck_changes (pb_db (s1 rows))) (t', k))" for t' k
      by (simp add: db changes_noted map_of_rev_const)
    have here: "changed rows = scanned_rows w (pb_db s) src t" "gone rows = scanned_gone (pb_db s) src t"
      using that(2) by (simp_all add: changed_def gone_def scanned_rows_def scanned_gone_def info_def keys_def)
    have "table_scanned w (pb_db s) src rv t (staged_rows (st @ st') t) (\<lambda>k. map_of (ck_changes (pb_db v)) (t, k))"
      if "\<forall>k. map_of (ck_changes (pb_db s)) (t, k) = None"
    proof -
      have "staged_rows (st @ st') t = map (observe w rv False) (scanned_rows w (pb_db s) src t) @ map (observe w rv True) gs"
        using \<open>\<forall>t'. staged_rows st t' = _ t'\<close> \<open>\<forall>t'. staged_rows st' t' = _ t'\<close> by (simp add: here)
      then show ?thesis unfolding table_scanned_def changes s1_changes here
        using that \<open>map fst gs = gone rows\<close> here by (auto split: option.split)
    qed
    then show ?thesis unfolding scan_post_def using frame that(4,5,6,9,10,11) changes s1_changes [of rows] staged_as_append
      by (intro conjI exI [of _ "is @ is'"] exI [of _ "st @ st'"]) auto
  qed
  show ?thesis
  proof (cases "keys = []")
    case True
    then show ?thesis by (simp add: scan_table_def schema scan_frame_outside)
  next
    case keyed: False
    show ?thesis
    proof (cases "scan_rows src t (pb_db s)")
      case (Inl e)
      then show ?thesis using keyed by (simp add: scan_table_def schema scan_frame_outside)
    next
      case (Inr rows)
      have out: "kept_outside s v" if "same_but_spool (s1 rows) v" for v
        using scan_frame_outside [OF scan_frame_trans [OF s1 same_but_spool_frame [OF that]]] .
      have rows: "rows = source_rows src t" if "t \<noteq> ''events''" using Inr that by (simp add: scan_rows_def)
      show ?thesis
        unfolding scan_table_def wp_bind wp_lift schema if_not_P [OF keyed] sum.case prod.case Inr wp_simps wp_modify
          s1_def [symmetric] changed_def [symmetric] gone_def [symmetric]
      proof (rule wp_mono [OF written], goal_cases)
        case (1 staging u)
        then obtain "is" st where staged: "same_but_spool (s1 rows) u" "staging = acc @ is" "staged_as w se is st"
          "\<forall>t'. staged_rows st t' = (if t' = t then map (observe w rv False) (changed rows) else [])" by blast
        show ?case
        proof (cases "t = ''events''")
          case True
          note post = events [OF True staged(1) _ _ staged(2,3,4)]
          show ?thesis unfolding if_P [OF True] Let_def wp_bind wp_when wp_modify wp_simps
            by (auto intro!: post simp: frame_events)
        next
          case False
          let ?u = "u\<lparr>pb_db := note_changes t (map (\<lambda>k. (k, None)) (gone rows)) (pb_db u)\<rparr>"
          have u: "kept_outside s ?u" using out [OF staged(1)] by simp
          show ?thesis
          proof (cases "map_res (\<lambda>k. bindr (tombstone info keys k) (\<lambda>row. Inr (k, row))) (gone rows)")
            case (Inl e)
            show ?thesis unfolding if_not_P [OF False] wp_bind wp_lift wp_modify Inl sum.case by (rule u)
          next
            case (Inr gs)
            show ?thesis unfolding if_not_P [OF False] wp_bind wp_lift wp_modify Inr sum.case
              by (rule wp_mono [OF graves])
                (use tables [OF False rows [OF False] staged map_res_pairs [OF Inr]] kept_outside_trans [OF u same_outside] in blast)+
          qed
        qed
      qed (use out in blast)
    qed
  qed
qed

section \<open>All tables\<close>

lemma table_scanned_index:
  "ck_index db' = ck_index db \<Longrightarrow> table_scanned w db' src rv t obs c = table_scanned w db src rv t obs c"
  by (simp add: table_scanned_def scanned_rows_def scanned_gone_def changed_rows_def gone_keys_def)

definition tables_post ::
  "analytics_world \<Rightarrow> analytics_settings \<Rightarrow> source \<Rightarrow> int \<Rightarrow> string set \<Rightarrow> json list \<Rightarrow> 's publisher \<Rightarrow> json list \<Rightarrow> 's publisher \<Rightarrow> bool" where
  "tables_post w se src rv T acc s out u \<longleftrightarrow> scan_frame s u \<and>
     (\<exists>is st. out = acc @ is \<and> staged_as w se is st \<and> (\<forall>t. t \<notin> T \<longrightarrow> staged_rows st t = []) \<and>
       (\<forall>t k. t \<notin> T \<longrightarrow> map_of (ck_changes (pb_db u)) (t, k) = map_of (ck_changes (pb_db s)) (t, k)) \<and>
       (\<forall>t \<in> T - {''events''}. (\<forall>k. map_of (ck_changes (pb_db s)) (t, k) = None) \<longrightarrow>
          table_scanned w (pb_db s) src rv t (staged_rows st t) (\<lambda>k. map_of (ck_changes (pb_db u)) (t, k))) \<and>
       (\<forall>t. \<forall>x \<in> set (staged_rows st t). ob_revision x = rv))"

lemma scan_post_one: "scan_post w se src rv t acc s out u \<Longrightarrow> tables_post w se src rv {t} acc s out u"
proof -
  assume "scan_post w se src rv t acc s out u"
  then obtain "is" st where *: "scan_frame s u" "out = acc @ is" "staged_as w se is st" "\<forall>t'. t' \<noteq> t \<longrightarrow> staged_rows st t' = []"
    "\<forall>t' k. t' \<noteq> t \<longrightarrow> map_of (ck_changes (pb_db u)) (t', k) = map_of (ck_changes (pb_db s)) (t', k)"
    "t \<noteq> ''events'' \<and> (\<forall>k. map_of (ck_changes (pb_db s)) (t, k) = None) \<longrightarrow>
          table_scanned w (pb_db s) src rv t (staged_rows st t) (\<lambda>k. map_of (ck_changes (pb_db u)) (t, k))"
    "\<forall>x \<in> set (staged_rows st t). ob_revision x = rv" unfolding scan_post_def by blast
  have "ob_revision x = rv" if "x \<in> set (staged_rows st t')" for x t'
    using that *(4,7) by (cases "t' = t") auto
  with * show ?thesis unfolding tables_post_def by (intro conjI exI [of _ "is"] exI [of _ st]) auto
qed

lemma tables_post_trans:
  assumes "tables_post w se src rv T acc s out u" and "tables_post w se src rv T' out u out' v" and "T \<inter> T' = {}"
  shows "tables_post w se src rv (T \<union> T') acc s out' v"
proof -
  from assms(1) obtain "is" st where a: "scan_frame s u" "out = acc @ is" "staged_as w se is st" "\<forall>t. t \<notin> T \<longrightarrow> staged_rows st t = []"
    "\<forall>t k. t \<notin> T \<longrightarrow> map_of (ck_changes (pb_db u)) (t, k) = map_of (ck_changes (pb_db s)) (t, k)"
    "\<forall>t \<in> T - {''events''}. (\<forall>k. map_of (ck_changes (pb_db s)) (t, k) = None) \<longrightarrow>
          table_scanned w (pb_db s) src rv t (staged_rows st t) (\<lambda>k. map_of (ck_changes (pb_db u)) (t, k))"
    "\<forall>t. \<forall>x \<in> set (staged_rows st t). ob_revision x = rv" unfolding tables_post_def by blast
  from assms(2) obtain is' st' where b: "scan_frame u v" "out' = out @ is'" "staged_as w se is' st'" "\<forall>t. t \<notin> T' \<longrightarrow> staged_rows st' t = []"
    "\<forall>t k. t \<notin> T' \<longrightarrow> map_of (ck_changes (pb_db v)) (t, k) = map_of (ck_changes (pb_db u)) (t, k)"
    "\<forall>t \<in> T' - {''events''}. (\<forall>k. map_of (ck_changes (pb_db u)) (t, k) = None) \<longrightarrow>
          table_scanned w (pb_db u) src rv t (staged_rows st' t) (\<lambda>k. map_of (ck_changes (pb_db v)) (t, k))"
    "\<forall>t. \<forall>x \<in> set (staged_rows st' t). ob_revision x = rv" unfolding tables_post_def by blast
  have ix: "ck_index (pb_db u) = ck_index (pb_db s)" using a(1) by (simp add: scan_frame_def)
  have "table_scanned w (pb_db s) src rv t (staged_rows (st @ st') t) (\<lambda>k. map_of (ck_changes (pb_db v)) (t, k))"
    if "t \<in> (T \<union> T') - {''events''}" "\<forall>k. map_of (ck_changes (pb_db s)) (t, k) = None" for t
  proof (cases "t \<in> T")
    case True
    then have "t \<notin> T'" using assms(3) by blast
    then show ?thesis using a(6) b(4,5) that True by auto
  next
    case False
    then have "t \<in> T'" "staged_rows st t = []" "\<forall>k. map_of (ck_changes (pb_db u)) (t, k) = None" using that a(4,5) by auto
    then show ?thesis using b(6) that by (auto simp: table_scanned_index [OF ix])
  qed
  moreover have "ob_revision x = rv" if "x \<in> set (staged_rows (st @ st') t)" for x t using that a(7) b(7) by auto
  ultimately show ?thesis unfolding tables_post_def
    using scan_frame_trans [OF a(1) b(1)] a(2,4,5) b(2,4,5) staged_as_append [OF a(3) b(3)]
    by (intro conjI exI [of _ "is @ is'"] exI [of _ "st @ st'"]) auto
qed

lemma tables_post_frame: "tables_post w se src rv T acc s out u \<Longrightarrow> scan_frame s u"
  by (auto simp: tables_post_def)

lemma wp_scan_all:
  "distinct ts \<Longrightarrow> wp (foldM (scan_table w se src rv) ts acc) (tables_post w se src rv (set ts) acc s) (kept_outside s) s"
proof (induction ts arbitrary: acc s)
  case Nil
  show ?case by (auto simp: tables_post_def staged_as_def intro!: exI [of _ "[]"])
next
  case (Cons t ts)
  have "wp (foldM (scan_table w se src rv) ts out) (tables_post w se src rv (set (t # ts)) acc s) (kept_outside s) u"
    if "scan_post w se src rv t acc s out u" for out u
  proof (rule wp_mono [OF Cons.IH])
    show "distinct ts" using Cons.prems by simp
    fix out' v
    assume "tables_post w se src rv (set ts) out u out' v"
    from tables_post_trans [OF scan_post_one [OF that] this] Cons.prems
    show "tables_post w se src rv (set (t # ts)) acc s out' v" by simp
  next
    fix v
    assume "kept_outside u v"
    then show "kept_outside s v"
      using kept_outside_trans [OF scan_frame_outside [OF tables_post_frame [OF scan_post_one [OF that]]]] by blast
  qed
  then show ?case unfolding foldM.simps wp_bind by (intro wp_mono [OF wp_scan_table]) auto
qed

lemma TABLES_distinct: "distinct TABLES"
  by code_simp

lemma wp_scan_tables: "wp (scan_tables w se src rv) (tables_post w se src rv (set TABLES) [] s) (kept_outside s) s"
  unfolding scan_tables_def by (rule wp_scan_all [OF TABLES_distinct])

section \<open>The logs\<close>

definition logs_post :: "analytics_world \<Rightarrow> analytics_settings \<Rightarrow> json list \<Rightarrow> 's publisher \<Rightarrow> json list \<Rightarrow> 's publisher \<Rightarrow> bool" where
  "logs_post w se acc s out u \<longleftrightarrow> scan_frame s u \<and> ck_changes (pb_db u) = ck_changes (pb_db s) \<and>
     (\<exists>is st. out = acc @ is \<and> staged_as w se is st \<and> (\<forall>(t, b) \<in> set st. t = ''logs'' \<and> rows_of b = []))"

lemma logs_post_trans: "logs_post w se acc s out u \<Longrightarrow> logs_post w se out u out' v \<Longrightarrow> logs_post w se acc s out' v"
proof -
  assume a: "logs_post w se acc s out u" and b: "logs_post w se out u out' v"
  from a obtain "is" st where "out = acc @ is" "staged_as w se is st" "\<forall>(t, b) \<in> set st. t = ''logs'' \<and> rows_of b = []"
    unfolding logs_post_def by blast
  moreover from b obtain is' st' where "out' = out @ is'" "staged_as w se is' st'" "\<forall>(t, b) \<in> set st'. t = ''logs'' \<and> rows_of b = []"
    unfolding logs_post_def by blast
  ultimately have "out' = acc @ (is @ is')" "staged_as w se (is @ is') (st @ st')" "\<forall>(t, b) \<in> set (st @ st'). t = ''logs'' \<and> rows_of b = []"
    using staged_as_append by auto
  moreover have "scan_frame s v" "ck_changes (pb_db v) = ck_changes (pb_db s)"
    using a b scan_frame_trans unfolding logs_post_def by (blast, metis)
  ultimately show ?thesis unfolding logs_post_def by blast
qed

lemma logs_post_refl: "logs_post w se acc s acc s"
  by (auto simp: logs_post_def staged_as_def intro!: exI [of _ "[]"])

lemma logs_post_outside: "logs_post w se acc s out u \<Longrightarrow> kept_outside s u"
  by (simp add: logs_post_def scan_frame_outside)

lemma wp_scan_stream:
  "wp (scan_stream w se src rv a stream (acts, processed, acc)) (\<lambda>x. logs_post w se acc s (snd (snd x))) (kept_outside s) s"
proof (cases "so_log src (la_id a) stream")
  case None
  then show ?thesis by (simp add: scan_stream_def logs_post_refl)
next
  case (Some bytes)
  have staged: "logs_post w se acc s out (u\<lparr>pb_db := (pb_db u)\<lparr>ck_cursor := c\<rparr>\<rparr>)"
    if "same_but_spool s u \<and> (\<exists>is. out = acc @ is \<and> staged_as w se is (map (\<lambda>g. (''logs'', Log_file g)) gs))" for out u c gs
    using that same_but_spool_frame [of s u] unfolding logs_post_def
    by (auto simp: scan_frame_def config_of_def same_but_spool_def intro!: exI [of _ "map (\<lambda>g. (''logs'', Log_file g)) gs"])
  show ?thesis
    unfolding scan_stream_def Some prod.case option.case wp_bind wp_simps wp_when Let_def
    by (auto simp: kept_outside_def split: prod.split)
      (rule wp_mono [OF wp_stage [where body_for = Log_file, OF wp_log_part]], auto intro!: staged dest: same_outside)
qed

lemma wp_logs_after:
  assumes "\<And>acc s. wp (m acc) (\<lambda>x. logs_post w se acc s (f x)) (kept_outside s) s" and "logs_post w se acc s out u"
  shows "wp (m out) (\<lambda>x. logs_post w se acc s (f x)) (kept_outside s) u"
  by (rule wp_mono [OF assms(1)]) (use assms(2) logs_post_trans kept_outside_trans logs_post_outside in blast)+

lemma wp_scan_logs:
  "wp (scan_logs w se src rv as processed acc) (\<lambda>x. logs_post w se acc s (snd x)) (kept_outside s) s"
proof (induction as arbitrary: processed acc s)
  case Nil
  show ?case by (simp add: logs_post_refl)
next
  case (Cons a as)
  have second: "wp (scan_stream w se src rv a ''stderr'' (acts, p1, o1))
      (\<lambda>x u. logs_post w se acc s (snd (snd x)) u) (kept_outside s) u" if "logs_post w se acc s o1 u" for acts p1 o1 u
    by (rule wp_logs_after [where f = "\<lambda>x. snd (snd x)", OF wp_scan_stream that])
  have rest: "wp (scan_logs w se src rv as p2 o2) (\<lambda>x. logs_post w se acc s (snd x)) (kept_outside s) v"
    if "logs_post w se acc s o2 v" for p2 o2 v
    by (rule wp_logs_after [where f = snd, OF Cons.IH that])
  show ?case unfolding scan_logs.simps wp_bind
  proof (rule wp_mono [OF wp_scan_stream], goal_cases)
    case (1 x u)
    obtain acts p1 o1 where x: "x = (acts, p1, o1)" by (cases x) auto
    have "wp (if so_log src (la_id a) ''stderr'' \<noteq> None \<and> p2 \<ge> se_log_bytes se then returnM (p2, o2) else scan_logs w se src rv as p2 o2)
        (\<lambda>x. logs_post w se acc s (snd x)) (kept_outside s) v" if "logs_post w se acc s o2 v" for p2 o2 v
      using rest [OF that] that by simp
    moreover have u: "logs_post w se acc s o1 u" using 1 by (simp add: x)
    ultimately show ?case
      unfolding x prod.case wp_if wp_bind wp_simps snd_conv
      by (cases "so_log src (la_id a) ''stdout'' \<noteq> None \<and> se_log_bytes se \<le> p1")
        (simp_all only: if_True if_False simp_thms, rule wp_mono [OF second [OF u]], simp_all add: split_beta)
  qed
qed

section \<open>A scan turns the published rows into the scanned ones\<close>

definition keyed :: "source \<Rightarrow> string \<Rightarrow> (json \<times> sqlv list) list" where
  "keyed src t = map (\<lambda>r. (key_of (source_info src t) (schema_keys (source_info src t)) r, r)) (source_rows src t)"

definition matches :: "analytics_world \<Rightarrow> (json \<Rightarrow> string option) \<Rightarrow> (json \<times> sqlv list) set \<Rightarrow> bool" where
  "matches w index rows \<longleftrightarrow> (\<forall>k h. index k = Some h \<longleftrightarrow> (\<exists>v. (k, v) \<in> rows \<and> h = row_hash w v))"

lemma json_pack_inj: "pack a = pack b \<Longrightarrow> a = b"
proof -
  have hex: "hex x = hex y \<Longrightarrow> x = y" for x y
  proof (induction x arbitrary: y)
    case (Cons c x)
    then obtain d y' where y: "y = d # y'" by (cases y) (auto simp: hex_def)
    have "(of_char c :: nat) div 16 < 16" "(of_char d :: nat) div 16 < 16"
      using nat_of_char_less_256 [of c] nat_of_char_less_256 [of d] by (simp_all add: less_mult_imp_div_less)
    then have "(of_char c :: nat) div 16 = of_char d div 16" "(of_char c :: nat) mod 16 = of_char d mod 16"
      using Cons.prems hex_digit_inj by (auto simp: y hex_def)
    then have "(of_char c :: nat) = of_char d" by (metis div_mult_mod_eq)
    then have "c = d" by (rule char_nat_eq)
    moreover have "hex x = hex y'" using Cons.prems by (simp add: y hex_def)
    ultimately show ?case using Cons.IH y by simp
  qed (simp add: hex_def split: list.splits)
  assume "pack a = pack b"
  then show ?thesis using hex by (cases a; cases b) auto
qed

lemma row_text_inj: "row_text a = row_text b \<Longrightarrow> a = b"
  unfolding row_text_def json.inject
  by (erule map_injective) (simp add: inj_def json_pack_inj)

lemma row_hash_inj: "inj (aw_sha256 w) \<Longrightarrow> row_hash w a = row_hash w b \<Longrightarrow> a = b"
  unfolding row_hash_def by (auto dest: injD intro: row_text_inj)

lemma scan_result:
  assumes old: "matches w (\<lambda>k. map_of (ck_index db) (t, k)) (set (current obs))"
    and scanned: "table_scanned w db src rv t new change"
    and keys: "distinct (map fst (keyed src t))" and inj: "inj (aw_sha256 w)"
    and revs: "\<forall>x \<in> set obs. ob_revision x < rv" "\<forall>x \<in> set new. ob_revision x = rv"
  shows "set (current (obs @ new)) = set (keyed src t)"
    and "matches w (\<lambda>k. case change k of None \<Rightarrow> map_of (ck_index db) (t, k) | Some h \<Rightarrow> h) (set (keyed src t))"
proof -
  let ?key = "key_of (source_info src t) (schema_keys (source_info src t))"
  obtain graves where new: "new = map (observe w rv False) (scanned_rows w db src t) @ map (observe w rv True) graves"
    and graves: "map fst graves = scanned_gone db src t"
    and change: "\<And>k. change k = (if k \<in> set (scanned_gone db src t) then Some None
          else map_option (\<lambda>v. Some (row_hash w v)) (map_of (rev (scanned_rows w db src t)) k))"
    using scanned unfolding table_scanned_def by blast
  have scan: "scanned_rows w db src t = filter (\<lambda>(k, v). map_of (ck_index db) (t, k) \<noteq> Some (row_hash w v)) (keyed src t)"
    by (simp add: scanned_rows_def changed_rows_def keyed_def)
  have unique: "(k, v) \<in> set (keyed src t) \<Longrightarrow> (k, v') \<in> set (keyed src t) \<Longrightarrow> v = v'" for k v v'
    using keys by (metis map_of_is_SomeI option.inject)
  have "distinct (map fst (rev (scanned_rows w db src t)))"
    using distinct_map_filter [OF keys] by (simp add: scan rev_map [symmetric])
  then have scanned_at: "map_of (rev (scanned_rows w db src t)) k = Some v \<longleftrightarrow>
      (k, v) \<in> set (keyed src t) \<and> map_of (ck_index db) (t, k) \<noteq> Some (row_hash w v)" for k v
    by (auto simp: scan)
  have scanned_key: "k \<in> fst ` set (keyed src t)" if "map_of (rev (scanned_rows w db src t)) k = Some v" for k v
    by (rule image_eqI [of _ _ "(k, v)"]) (use that scanned_at in simp_all)
  have indexed: "k \<in> set (map (snd \<circ> fst) (filter (\<lambda>e. fst (fst e) = t) (ck_index db))) \<longleftrightarrow> map_of (ck_index db) (t, k) \<noteq> None" for k
    by (force simp: map_of_eq_None_iff image_iff)
  have gone: "k \<in> set (scanned_gone db src t) \<longleftrightarrow> map_of (ck_index db) (t, k) \<noteq> None \<and> k \<notin> fst ` set (keyed src t)" for k
  proof -
    have "fst ` set (keyed src t) = set (map ?key (source_rows src t))" by (auto simp: keyed_def image_iff)
    then show ?thesis
      unfolding scanned_gone_def gone_keys_def by (simp only: set_filter mem_Collect_eq indexed List.member_iff)
  qed
  have was: "map_of (ck_index db) (t, k) = Some (row_hash w v) \<longleftrightarrow> (k, v) \<in> set (current obs)" for k v
    using old row_hash_inj [OF inj] unfolding matches_def by blast
  have indexed_row: "(k, v) \<in> set (keyed src t)"
    if "map_of (ck_index db) (t, k) = Some (row_hash w v)" "k \<notin> set (scanned_gone db src t)" "map_of (rev (scanned_rows w db src t)) k = None" for k v
  proof -
    have "k \<in> fst ` set (keyed src t)" using that(1,2) gone [of k] by simp
    then obtain v' where v': "(k, v') \<in> set (keyed src t)" by auto
    then have "row_hash w v' = row_hash w v" using scanned_at [of k v'] that(1,3) by simp
    then show ?thesis using row_hash_inj [OF inj] v' by blast
  qed
  show "matches w (\<lambda>k. case change k of None \<Rightarrow> map_of (ck_index db) (t, k) | Some h \<Rightarrow> h) (set (keyed src t))"
    unfolding matches_def
  proof (intro allI)
    fix k h
    show "(case change k of None \<Rightarrow> map_of (ck_index db) (t, k) | Some h \<Rightarrow> h) = Some h \<longleftrightarrow> (\<exists>v. (k, v) \<in> set (keyed src t) \<and> h = row_hash w v)"
    proof (cases "k \<in> fst ` set (keyed src t)")
      case True
      then obtain v where v: "(k, v) \<in> set (keyed src t)" by auto
      have "map_of (rev (scanned_rows w db src t)) k = (if map_of (ck_index db) (t, k) = Some (row_hash w v) then None else Some v)"
      proof (cases "map_of (rev (scanned_rows w db src t)) k")
        case None
        then show ?thesis using scanned_at [of k v] v by auto
      next
        case (Some a)
        then have "a = v" using scanned_at [of k a] unique v by blast
        then show ?thesis using Some scanned_at [of k v] by simp
      qed
      then have "(case change k of None \<Rightarrow> map_of (ck_index db) (t, k) | Some h \<Rightarrow> h) = Some (row_hash w v)"
        using True gone [of k] by (simp add: change)
      then show ?thesis using v unique by auto
    next
      case False
      then have "map_of (rev (scanned_rows w db src t)) k = None"
        using scanned_key by (cases "map_of (rev (scanned_rows w db src t)) k") blast+
      then have "(case change k of None \<Rightarrow> map_of (ck_index db) (t, k) | Some h \<Rightarrow> h) = None"
        using False gone [of k] by (auto simp: change)
      then show ?thesis using False by force
    qed
  qed
  have newkeys: "k \<in> ob_key ` set new \<longleftrightarrow> k \<in> set (scanned_gone db src t) \<or> (\<exists>v. map_of (rev (scanned_rows w db src t)) k = Some v)" for k
  proof -
    have "ob_key ` set new = set (map fst (scanned_rows w db src t)) \<union> set (map fst graves)"
      by (force simp: new observe_def image_iff)
    moreover have "k \<in> set (map fst (scanned_rows w db src t)) \<longleftrightarrow> (\<exists>v. map_of (rev (scanned_rows w db src t)) k = Some v)"
      using map_of_eq_None_iff [of "rev (scanned_rows w db src t)" k] by (simp add: rev_map [symmetric] flip: not_None_eq)
    ultimately show ?thesis by (simp only: graves) blast
  qed
  have newvals: "(\<exists>x \<in> set new. ob_key x = k \<and> ob_values x = v \<and> \<not> ob_deleted x) \<longleftrightarrow> map_of (rev (scanned_rows w db src t)) k = Some v" for k v
  proof -
    have "(\<exists>x \<in> set new. ob_key x = k \<and> ob_values x = v \<and> \<not> ob_deleted x) \<longleftrightarrow> (k, v) \<in> set (scanned_rows w db src t)"
      by (auto simp: new observe_def bex_Un split: prod.splits)
    also have "\<dots> \<longleftrightarrow> map_of (rev (scanned_rows w db src t)) k = Some v" unfolding scanned_at by (simp add: scan)
    finally show ?thesis .
  qed
  have "(k, v) \<in> set (current (obs @ new)) \<longleftrightarrow> (k, v) \<in> set (keyed src t)" for k v
  proof (cases "k \<in> ob_key ` set new")
    case True
    have "map_of (rev (scanned_rows w db src t)) k = Some v \<longleftrightarrow> (k, v) \<in> set (keyed src t)"
    proof (cases "map_of (rev (scanned_rows w db src t)) k")
      case None
      then have "k \<notin> fst ` set (keyed src t)" using True newkeys [of k] gone [of k] by simp
      then show ?thesis using None by (force intro: rev_image_eqI [of "(k, v)"])
    next
      case (Some a)
      then show ?thesis using scanned_at [of k a] unique by auto
    qed
    then show ?thesis unfolding current_append [OF revs] newvals if_P [OF True] .
  next
    case False
    then have "k \<notin> set (scanned_gone db src t)" "map_of (rev (scanned_rows w db src t)) k = None" using newkeys [of k] by auto
    then have "(k, v) \<in> set (keyed src t) \<longleftrightarrow> map_of (ck_index db) (t, k) = Some (row_hash w v)"
      using gone [of k] scanned_at [of k] indexed_row [of k v] by auto
    then show ?thesis unfolding current_append [OF revs] if_not_P [OF False] was by simp
  qed
  then show "set (current (obs @ new)) = set (keyed src t)" by auto
qed

end
