(* ===== verification/AnalyticsInvariant.thy ===== *)
theory AnalyticsInvariant
  imports AnalyticsStore ResourceGuarantees
begin

text \<open>
  The invariant that ties a checkpoint to the objects of the store: the published generations form
  a chain that the pointer leads to, their rows are those of one scanned source, and a pending
  generation is staged completely. Opening, scanning, releasing and a whole session keep it,
  whichever write fails; proved once for every backend that keeps the contract.
\<close>

section \<open>Keys of objects\<close>

lemma path_of_eq: "k \<noteq> [] \<Longrightarrow> path_of se k = chain_path (strip_slashes (se_prefix se)) k"
  by (simp add: path_of_def chain_path_def)

lemma path_of_inj: "k \<noteq> [] \<Longrightarrow> j \<noteq> [] \<Longrightarrow> path_of se k = path_of se j \<longleftrightarrow> k = j"
  by (simp add: path_of_eq chain_path_def)

lemma latest_is_no_object [simp]:
  "manifest_key se g \<noteq> latest_key se" "path_of se (''objects/'' @ k) \<noteq> latest_key se"
  by (simp_all add: manifest_key_def latest_key_def path_of_inj)

lemma manifest_key_inj: "manifest_key se g = manifest_key se h \<longleftrightarrow> g = h"
  by (simp add: manifest_key_def path_of_inj)

lemma item_fields [simp]:
  "jentry ''sha256'' (item_json se t folder n d) = Inr d" "jentry ''table'' (item_json se t folder n d) = Inr t"
  "\<exists>k. jentry ''key'' (item_json se t folder n d) = Inr (path_of se (''objects/'' @ k))"
  by (auto simp: jentry_def jindex_def item_json_def)

section \<open>What the manifests of a chain hold\<close>

definition manifest_items :: "json \<Rightarrow> json list" where
  "manifest_items m = (case manifest_files m of Inr is \<Rightarrow> is | Inl _ \<Rightarrow> [])"

definition item_rows :: "(string \<Rightarrow> body option) \<Rightarrow> string \<Rightarrow> json \<Rightarrow> observation list" where
  "item_rows f t entry =
     (case (jentry ''table'' entry, jentry ''key'' entry) of
        (Inr t', Inr key) \<Rightarrow> if t' = t then (case f key of None \<Rightarrow> [] | Some b \<Rightarrow> rows_of b) else []
      | _ \<Rightarrow> [])"

text \<open>The rows of \<^verbatim>\<open>temporal_<table>\<close>: the files of the table that the manifests list, in order.\<close>

definition temporal :: "(string \<Rightarrow> body option) \<Rightarrow> json list \<Rightarrow> string \<Rightarrow> observation list" where
  "temporal f ms t = concat (map (item_rows f t) (concat (map manifest_items ms)))"

lemma temporal_simps [simp]:
  "temporal f [] t = []"
  "temporal f (ms @ [m]) t = temporal f ms t @ concat (map (item_rows f t) (manifest_items m))"
  by (simp_all add: temporal_def)

text \<open>The described bodies are at the keys of the items.\<close>

definition in_place :: "(string \<Rightarrow> body option) \<Rightarrow> json list \<Rightarrow> staged \<Rightarrow> bool" where
  "in_place f = list_all2 (\<lambda>entry (t, b). \<forall>key. jentry ''key'' entry = Inr key \<longrightarrow> f key = Some b)"

lemma stored_rows:
  assumes "staged_as w se is st" and "in_place f is st"
  shows "concat (map (item_rows f t) is) = staged_rows st t"
  using assms unfolding staged_as_def in_place_def
proof (induction st arbitrary: "is" rule: list.induct)
  case (Cons p st)
  obtain t' b where p: "p = (t', b)" by (rule prod.exhaust)
  from Cons.prems obtain entry is' where i: "is = entry # is'" "describes w se t' entry b" "\<forall>key. jentry ''key'' entry = Inr key \<longrightarrow> f key = Some b"
    "list_all2 (\<lambda>entry (t, b). describes w se t entry b) is' st" "list_all2 (\<lambda>entry (t, b). \<forall>key. jentry ''key'' entry = Inr key \<longrightarrow> f key = Some b) is' st"
    by (auto simp: p list_all2_Cons2)
  from i(2) obtain folder n where entry: "entry = item_json se t' folder n (aw_sha256 w b)" by (auto simp: describes_def)
  obtain k where "jentry ''key'' entry = Inr (path_of se (''objects/'' @ k))" using item_fields(3) entry by blast
  then have "item_rows f t entry = (if t' = t then rows_of b else [])" using i(3) by (simp add: item_rows_def entry)
  then show ?case using Cons.IH [OF i(4,5)] by (simp add: i(1) p)
qed simp

text \<open>The listed objects exist and none of them is the pointer.\<close>

definition present :: "analytics_settings \<Rightarrow> (string \<Rightarrow> body option) \<Rightarrow> json list \<Rightarrow> bool" where
  "present se f ms \<longleftrightarrow> (\<forall>m \<in> set ms. \<forall>entry \<in> set (manifest_items m). \<forall>key. jentry ''key'' entry = Inr key \<longrightarrow> f key \<noteq> None \<and> key \<noteq> latest_key se)"

definition grows :: "analytics_settings \<Rightarrow> (string \<Rightarrow> body option) \<Rightarrow> (string \<Rightarrow> body option) \<Rightarrow> bool" where
  "grows se f g \<longleftrightarrow> (\<forall>k b. k \<noteq> latest_key se \<longrightarrow> f k = Some b \<longrightarrow> g k = Some b)"

lemma grows_refl [simp]: "grows se f f"
  by (simp add: grows_def)

lemma grows_trans: "grows se f g \<Longrightarrow> grows se g h \<Longrightarrow> grows se f h"
  by (simp add: grows_def)

lemma present_grows: "present se f ms \<Longrightarrow> grows se f g \<Longrightarrow> present se g ms"
  by (fastforce simp: present_def grows_def)

lemma temporal_grows:
  assumes "present se f ms" and "grows se f g"
  shows "temporal g ms t = temporal f ms t"
proof -
  have "item_rows g t entry = item_rows f t entry" if "m \<in> set ms" "entry \<in> set (manifest_items m)" for m entry
    using that assms unfolding item_rows_def present_def grows_def
    by (auto split: sum.split option.split; fastforce)
  then show ?thesis unfolding temporal_def by (intro arg_cong [of _ _ concat] map_cong) auto
qed

lemma stored_present:
  assumes "staged_as w se is st" and "in_place f is st" and "entry \<in> set is" and "jentry ''key'' entry = Inr key"
  shows "f key \<noteq> None \<and> key \<noteq> latest_key se"
proof -
  obtain i where i: "i < length is" "is ! i = entry" using assms(3) by (auto simp: in_set_conv_nth)
  obtain t b where tb: "st ! i = (t, b)" by (rule prod.exhaust)
  have "describes w se t entry b" "f key = Some b"
    using assms i tb by (fastforce simp: staged_as_def in_place_def list_all2_conv_all_nth)+
  then show ?thesis using assms(4) item_fields(3) unfolding describes_def by (metis latest_is_no_object(2) option.distinct(1) sum.inject(2))
qed

text \<open>Manifests linked by their parents, oldest first; every generation is an identifier issued before
  the bound.\<close>

definition links :: "json \<Rightarrow> string \<Rightarrow> json \<Rightarrow> bool" where
  "links m g parent \<longleftrightarrow> jindex ''format'' m = Inr (JStr ''filnix-analytics-v1'') \<and> jindex ''generation'' m = Inr (JStr g) \<and> jindex ''parent'' m = Inr parent"

inductive chain :: "(nat \<Rightarrow> string) \<Rightarrow> analytics_settings \<Rightarrow> (string \<Rightarrow> body option) \<Rightarrow> nat \<Rightarrow> json \<Rightarrow> json list \<Rightarrow> bool"
  for U :: "nat \<Rightarrow> string" and se :: analytics_settings and f :: "string \<Rightarrow> body option" where
  chain_start: "chain U se f n JNull []"
| chain_link: "i < n \<Longrightarrow> f (manifest_key se (U i)) = Some (Json_text m) \<Longrightarrow> links m (U i) parent \<Longrightarrow> chain U se f i parent ms
    \<Longrightarrow> chain U se f n (JStr (U i)) (ms @ [m])"

lemma chain_grows: "chain U se f n g ms \<Longrightarrow> grows se f h \<Longrightarrow> chain U se h n g ms"
  by (induction rule: chain.induct) (auto intro: chain.intros simp: grows_def)

lemma chain_later: "chain U se f n g ms \<Longrightarrow> n \<le> m \<Longrightarrow> chain U se f m g ms"
  by (induction rule: chain.induct) (auto intro: chain.intros)

lemma chain_issued: "chain U se f n g ms \<Longrightarrow> g = JNull \<or> (\<exists>i < n. g = JStr (U i))"
  by (induction rule: chain.induct) auto

lemma chain_null: "chain U se f n JNull ms \<Longrightarrow> ms = []"
  by (auto elim: chain.cases)

section \<open>The invariant of checkpoint and store\<close>

definition mirror_tables :: "string set" where
  "mirror_tables = set TABLES - {''events''}"

definition generation_json :: "checkpoint \<Rightarrow> json" where
  "generation_json db = (case config_of db ''generation'' of None \<Rightarrow> JNull | Some g \<Rightarrow> JStr g)"

text \<open>The pointer names the committed generation.\<close>

definition points_to :: "analytics_settings \<Rightarrow> (string \<Rightarrow> body option) \<Rightarrow> checkpoint \<Rightarrow> bool" where
  "points_to se f db \<longleftrightarrow>
     (case config_of db ''generation'' of
        None \<Rightarrow> f (latest_key se) = None
      | Some g \<Rightarrow> config_of db ''remote_seen'' \<noteq> None \<and> (\<exists>rv. f (latest_key se) = Some (Json_text (pointer_json se g rv))))"

text \<open>Rows that are a snapshot of one of the sources seen.\<close>

definition shows_source :: "source \<Rightarrow> (string \<Rightarrow> observation list) \<Rightarrow> bool" where
  "shows_source src rows \<longleftrightarrow> (\<forall>t \<in> mirror_tables. set (current (rows t)) = set (keyed src t))"

definition shown :: "source set \<Rightarrow> (string \<Rightarrow> body option) \<Rightarrow> json list \<Rightarrow> bool" where
  "shown S f ms \<longleftrightarrow> ms = [] \<or> (\<exists>src \<in> S. shows_source src (temporal f ms))"

definition committed :: "analytics_world \<Rightarrow> analytics_settings \<Rightarrow> (string \<Rightarrow> body option) \<Rightarrow> nat \<Rightarrow> checkpoint \<Rightarrow> json list \<Rightarrow> bool" where
  "committed w se f n db ms \<longleftrightarrow> chain (aw_uuid w) se f n (generation_json db) ms \<and> present se f ms
     \<and> (\<exists>r. config_int db ''revision'' = Inr r \<and> 0 \<le> r \<and> (\<forall>t. \<forall>x \<in> set (temporal f ms t). ob_revision x \<le> r))
     \<and> (\<forall>t \<in> mirror_tables. matches w (\<lambda>k. map_of (ck_index db) (t, k)) (set (current (temporal f ms t))))"

definition idle :: "analytics_world \<Rightarrow> analytics_settings \<Rightarrow> source set \<Rightarrow> (string \<Rightarrow> body option) \<Rightarrow> nat \<Rightarrow> checkpoint \<Rightarrow> json list \<Rightarrow> bool" where
  "idle w se S f n db ms \<longleftrightarrow> ck_pending db = [] \<and> ck_changes db = [] \<and> points_to se f db \<and> committed w se f n db ms
     \<and> shown S f ms"

text \<open>A pending generation: its items describe bodies that, with the committed ones, show a source,
  and the noted changes bring the index there.\<close>

definition pends :: "analytics_world \<Rightarrow> analytics_settings \<Rightarrow> source \<Rightarrow> (string \<Rightarrow> body option) \<Rightarrow> nat \<Rightarrow> checkpoint \<Rightarrow> json list \<Rightarrow> pending \<Rightarrow> staged \<Rightarrow> bool" where
  "pends w se src f n db ms p st \<longleftrightarrow> ck_pending db = [p] \<and> distinct (map fst (ck_changes db)) \<and> committed w se f n db ms
     \<and> (\<exists>i < n. pe_id p = aw_uuid w i \<and> chain (aw_uuid w) se f i (generation_json db) ms)
     \<and> links (pe_manifest p) (pe_id p) (generation_json db)
     \<and> (\<exists>is. manifest_files (pe_manifest p) = Inr is \<and> staged_as w se is st)
     \<and> shows_source src (\<lambda>t. temporal f ms t @ staged_rows st t)
     \<and> (\<forall>t \<in> mirror_tables. matches w (\<lambda>k. map_of (fold apply_change (ck_changes db) (ck_index db)) (t, k)) (set (keyed src t)))
     \<and> (\<exists>r. config_int db ''revision'' = Inr r \<and> (\<forall>t. \<forall>x \<in> set (staged_rows st t). ob_revision x \<le> r))"

text \<open>The pointer already names the pending generation.\<close>

definition released :: "analytics_settings \<Rightarrow> (string \<Rightarrow> body option) \<Rightarrow> pending \<Rightarrow> staged \<Rightarrow> bool" where
  "released se f p st \<longleftrightarrow> (\<exists>rv. f (latest_key se) = Some (Json_text (pointer_json se (pe_id p) rv)))
     \<and> f (manifest_key se (pe_id p)) = Some (Json_text (pe_manifest p)) \<and> in_place f (manifest_items (pe_manifest p)) st"

definition sound :: "analytics_world \<Rightarrow> analytics_settings \<Rightarrow> source set \<Rightarrow> (string \<Rightarrow> body option) \<Rightarrow> nat \<Rightarrow> checkpoint \<Rightarrow> bool" where
  "sound w se S f n db \<longleftrightarrow> (\<exists>ms. idle w se S f n db ms)
     \<or> (\<exists>src \<in> S. \<exists>ms p st. pends w se src f n db ms p st \<and> shown S f ms \<and> (points_to se f db \<or> released se f p st))"

lemma committed_later:
  "committed w se f n db ms \<Longrightarrow> grows se f g \<Longrightarrow> n \<le> m \<Longrightarrow> committed w se g m db ms"
proof -
  assume a: "committed w se f n db ms" "grows se f g" "n \<le> m"
  have "temporal g ms t = temporal f ms t" for t
    using a(1) temporal_grows [OF _ a(2)] by (simp add: committed_def)
  then show ?thesis
    using a(1) chain_later [OF chain_grows [OF _ a(2)] a(3)] present_grows [OF _ a(2)] unfolding committed_def by simp
qed

lemma pends_later: "pends w se src f n db ms p st \<Longrightarrow> grows se f g \<Longrightarrow> n \<le> m \<Longrightarrow> pends w se src g m db ms p st"
proof -
  assume a: "pends w se src f n db ms p st" "grows se f g" "n \<le> m"
  have t: "temporal g ms t = temporal f ms t" for t
    using a(1) temporal_grows [OF _ a(2)] by (auto simp: pends_def committed_def)
  show ?thesis using a chain_grows [OF _ a(2)] committed_later [OF _ a(2,3)]
    unfolding pends_def t by (auto intro: order.strict_trans2 simp: t)
qed

lemma idle_later: "idle w se S f n db ms \<Longrightarrow> n \<le> m \<Longrightarrow> idle w se S f m db ms"
  by (auto simp: idle_def intro: committed_later [OF _ grows_refl])

lemma shown_grows: "shown S f ms \<Longrightarrow> present se f ms \<Longrightarrow> grows se f g \<Longrightarrow> shown S g ms"
proof -
  assume a: "shown S f ms" "present se f ms" "grows se f g"
  have "temporal g ms = temporal f ms" using temporal_grows [OF a(2,3)] by (rule ext)
  then show "shown S g ms" using a(1) by (simp add: shown_def)
qed

lemma pends_present: "pends w se src f n db ms p st \<Longrightarrow> present se f ms"
  by (simp add: pends_def committed_def)

text \<open>Committing the pending generation makes it the shown one.\<close>

lemma config_int_finalized: "config_int (finalized pid db) ''revision'' = config_int db ''revision''"
  by (simp add: config_int_def finalized_def config_of_def set_config_def)

lemma finalized_simps [simp]:
  "ck_index (finalized pid db) = fold apply_change (ck_changes db) (ck_index db)" "ck_changes (finalized pid db) = []"
  "ck_pending (finalized pid db) = []" "config_of (finalized pid db) ''generation'' = Some pid"
  "config_of (finalized pid db) ''remote_seen'' = Some ''1''"
  by (simp_all add: finalized_def)

lemma finalized_idle:
  assumes p: "pends w se src f n db ms p st" and r: "released se f p st"
  shows "idle w se {src} f n (finalized (pe_id p) db) (ms @ [pe_manifest p])"
    and "shows_source src (temporal f (ms @ [pe_manifest p]))"
proof -
  from p obtain "is" where files: "manifest_files (pe_manifest p) = Inr is" "staged_as w se is st" by (auto simp: pends_def)
  have items: "manifest_items (pe_manifest p) = is" using files by (simp add: manifest_items_def)
  have rows: "temporal f (ms @ [pe_manifest p]) t = temporal f ms t @ staged_rows st t" for t
    using stored_rows [OF files(2), of f t] r by (simp add: released_def items)
  show shown: "shows_source src (temporal f (ms @ [pe_manifest p]))"
    using p by (simp add: pends_def shows_source_def rows del: temporal_simps)
  obtain i where i: "i < n" "pe_id p = aw_uuid w i" "chain (aw_uuid w) se f i (generation_json db) ms" using p by (auto simp: pends_def)
  have "chain (aw_uuid w) se f n (JStr (pe_id p)) (ms @ [pe_manifest p])"
    unfolding i(2) by (rule chain_link [OF i(1) _ _ i(3)]) (use p r in \<open>auto simp: pends_def released_def i(2)\<close>)
  moreover have "present se f (ms @ [pe_manifest p])"
    using p r stored_present [OF files(2)] by (auto simp: pends_def committed_def present_def released_def items)
  moreover have "\<exists>r. config_int (finalized (pe_id p) db) ''revision'' = Inr r \<and> 0 \<le> r \<and>
      (\<forall>t. \<forall>x \<in> set (temporal f (ms @ [pe_manifest p]) t). ob_revision x \<le> r)"
    using p unfolding pends_def committed_def rows config_int_finalized by auto
  moreover have "matches w (\<lambda>k. map_of (ck_index (finalized (pe_id p) db)) (t, k)) (set (current (temporal f (ms @ [pe_manifest p]) t)))" if "t \<in> mirror_tables" for t
    using p shown that by (simp add: pends_def shows_source_def del: temporal_simps)
  ultimately show "idle w se {src} f n (finalized (pe_id p) db) (ms @ [pe_manifest p])"
    using r shown unfolding idle_def committed_def points_to_def released_def
    by (simp add: generation_json_def shown_def del: temporal_simps)
qed

section \<open>Opening and scanning keep the invariant\<close>

lemma wp_atomically_put:
  "wp m Q (\<lambda>u. E (put (get s) u)) s \<Longrightarrow> wp (atomicallyM get put m) Q E s"
  by (auto simp: wp_def atomicallyM_def split: prod.splits sum.splits)

lemma identity_ignored [simp]:
  "generation_json (set_config ''identity'' v db) = generation_json db"
  "config_int (set_config ''identity'' v db) ''revision'' = config_int db ''revision''"
  "points_to se f (set_config ''identity'' v db) = points_to se f db"
  by (simp_all add: generation_json_def config_int_def points_to_def split: option.split)

lemma sound_identity: "sound w se S f n (set_config ''identity'' v db) = sound w se S f n db"
  by (simp add: sound_def idle_def pends_def committed_def)

lemma idle_identity: "idle w se S f n (set_config ''identity'' v db) ms = idle w se S f n db ms"
  by (simp add: idle_def committed_def)

lemma first_pending_identity [simp]: "first_pending (set_config k v db) = first_pending db"
  by (simp add: first_pending_def)

text \<open>The state of a publisher whose constructor has run.\<close>

definition opened :: "'s publisher \<Rightarrow> bool" where
  "opened s \<longleftrightarrow> pb_pending s = first_pending (pb_db s)"

lemma wp_open:
  "wp (open_publisher w bk se) (\<lambda>_ u. opened u \<and> pb_store u = pb_store s \<and> pb_uuids u = pb_uuids s \<and> (\<exists>v. pb_db u = set_config ''identity'' v (pb_db s)))
     (\<lambda>u. pb_store u = pb_store s \<and> pb_uuids u = pb_uuids s \<and> (pb_db u = pb_db s \<or> (\<exists>v. pb_db u = set_config ''identity'' v (pb_db s)))) s"
  by (auto simp: open_publisher_def opened_def Let_def split: sum.splits)

lemma generation_of_pointer:
  assumes "points_to se f db"
  shows "generation_of (map_option (\<lambda>b. (b, etg b)) (f (latest_key se))) = Inr (generation_json db)"
  using assms by (auto simp: points_to_def generation_of_def generation_json_def pointer_json_def split: option.splits)

lemma manifest_json_fields [simp]:
  "manifest_files (manifest_json w pid rv src ts n parent files) = Inr files"
  "links (manifest_json w pid rv src ts n parent files) pid parent"
  by (simp_all add: manifest_files_def manifest_json_def jindex_def links_def)

lemma encode_int_back: "0 \<le> n \<Longrightarrow> py_int (encode_int n) = Some n"
  by (simp add: encode_int_def py_int_decimal)

lemma revision_back [simp]: "0 \<le> rv \<Longrightarrow> config_int (set_config ''revision'' (encode_int rv) db) ''revision'' = Inr rv"
  by (simp add: config_int_def encode_int_back)

lemma pending_config [simp]:
  "config_of (db\<lparr>ck_pending := ps\<rparr>) k = config_of db k" "generation_json (db\<lparr>ck_pending := ps\<rparr>) = generation_json db"
  "points_to se f (db\<lparr>ck_pending := ps\<rparr>) = points_to se f db"
  by (simp_all add: config_of_def generation_json_def points_to_def split: option.split)

lemma revision_ignored [simp]:
  "generation_json (set_config ''revision'' v db) = generation_json db" "points_to se f (set_config ''revision'' v db) = points_to se f db"
  by (simp_all add: generation_json_def points_to_def split: option.split)

definition sources_ok :: "source set \<Rightarrow> bool" where
  "sources_ok S \<longleftrightarrow> (\<forall>src \<in> S. \<forall>t \<in> mirror_tables. distinct (map fst (keyed src t)))"

lemma staged_no_rows: "\<forall>(t, b) \<in> set st. t = ''logs'' \<and> rows_of b = [] \<Longrightarrow> staged_rows st t = []"
  by (induction st) auto

text \<open>The outcome of the scan of tables and logs, against the committed state it started from.\<close>

lemma scanned_state:
  assumes committed: "committed w se f n db ms" and idle: "ck_changes db = []" and src: "\<forall>t \<in> mirror_tables. distinct (map fst (keyed src t))"
    and inj: "inj (aw_sha256 w)" and r: "config_int db ''revision'' = Inr r"
    and tables: "tables_post w se src (r + 1) (set TABLES) [] s parts u" and s: "pb_db s = db"
    and logs: "logs_post w se parts u files v"
  obtains st where "staged_as w se files st" and "shows_source src (\<lambda>t. temporal f ms t @ staged_rows st t)"
    and "\<forall>t \<in> mirror_tables. matches w (\<lambda>k. map_of (fold apply_change (ck_changes (pb_db v)) (ck_index (pb_db v))) (t, k)) (set (keyed src t))"
    and "\<forall>t. \<forall>x \<in> set (staged_rows st t). ob_revision x = r + 1" and "distinct (map fst (ck_changes (pb_db v)))" and "scan_frame s v"
proof -
  from tables obtain st1 where a: "scan_frame s u" "staged_as w se parts st1"
    "\<forall>t \<in> set TABLES - {''events''}. (\<forall>k. map_of (ck_changes (pb_db s)) (t, k) = None) \<longrightarrow>
          table_scanned w (pb_db s) src (r + 1) t (staged_rows st1 t) (\<lambda>k. map_of (ck_changes (pb_db u)) (t, k))"
    "\<forall>t. \<forall>x \<in> set (staged_rows st1 t). ob_revision x = r + 1" unfolding tables_post_def by fastforce
  from logs obtain is2 st2 where b: "scan_frame u v" "ck_changes (pb_db v) = ck_changes (pb_db u)" "files = parts @ is2" "staged_as w se is2 st2"
    "\<forall>(t, b) \<in> set st2. t = ''logs'' \<and> rows_of b = []" unfolding logs_post_def by blast
  let ?st = "st1 @ st2"
  have rows: "staged_rows ?st t = staged_rows st1 t" for t using staged_no_rows [OF b(5)] by simp
  have frame: "scan_frame s v" by (rule scan_frame_trans [OF a(1) b(1)])
  have distinct: "distinct (map fst (ck_changes (pb_db v)))" using frame by (simp add: scan_frame_def s idle)
  have index: "ck_index (pb_db v) = ck_index db" using frame by (simp add: scan_frame_def s)
  obtain r' where r': "config_int db ''revision'' = Inr r'" "\<forall>t. \<forall>x \<in> set (temporal f ms t). ob_revision x \<le> r'"
    using committed by (auto simp: committed_def)
  then have old: "\<forall>x \<in> set (temporal f ms t). ob_revision x < r + 1" for t using r by fastforce
  have result: "set (current (temporal f ms t @ staged_rows st1 t)) = set (keyed src t)
      \<and> matches w (\<lambda>k. case map_of (ck_changes (pb_db u)) (t, k) of None \<Rightarrow> map_of (ck_index db) (t, k) | Some h \<Rightarrow> h) (set (keyed src t))"
    if "t \<in> mirror_tables" for t
  proof -
    have m: "matches w (\<lambda>k. map_of (ck_index db) (t, k)) (set (current (temporal f ms t)))"
      using committed that by (simp add: committed_def)
    have ts: "table_scanned w db src (r + 1) t (staged_rows st1 t) (\<lambda>k. map_of (ck_changes (pb_db u)) (t, k))"
      using a(3) that by (simp add: mirror_tables_def s idle)
    have d: "distinct (map fst (keyed src t))" using src that by blast
    show ?thesis using scan_result [OF m ts d inj old] a(4) by blast
  qed
  show thesis
  proof (rule that [of ?st])
    show "staged_as w se files ?st" using staged_as_append [OF a(2) b(4)] by (simp add: b(3))
    show "shows_source src (\<lambda>t. temporal f ms t @ staged_rows ?st t)" unfolding rows shows_source_def using result by blast
    show "\<forall>t \<in> mirror_tables. matches w (\<lambda>k. map_of (fold apply_change (ck_changes (pb_db v)) (ck_index (pb_db v))) (t, k)) (set (keyed src t))"
      unfolding index b(2) map_of_apply_changes [OF distinct [unfolded b(2)]] using result by blast
    show "\<forall>t. \<forall>x \<in> set (staged_rows ?st t). ob_revision x = r + 1" unfolding rows by (rule a(4))
  qed (fact distinct frame)+
qed

section \<open>A publication keeps the invariant\<close>

context object_store begin

text \<open>What the scan leaves: nothing new and the committed rows are the source, or a pending generation.\<close>

definition scan_outcome ::
  "analytics_world \<Rightarrow> analytics_settings \<Rightarrow> source \<Rightarrow> string \<Rightarrow> json list \<Rightarrow> 's publisher \<Rightarrow> pending option \<Rightarrow> 's publisher \<Rightarrow> bool" where
  "scan_outcome w se src pid ms s found u \<longleftrightarrow> pb_store u = pb_store s \<and> pb_uuids s \<le> pb_uuids u \<and> pb_pending u = pb_pending s \<and>
     (case found of
        None \<Rightarrow> pb_db u = pb_db s \<and> shows_source src (temporal (contents (pb_store s)) ms)
      | Some p \<Rightarrow> pe_id p = pid \<and> points_to se (contents (pb_store s)) (pb_db u) \<and>
          (\<exists>st. pends w se src (contents (pb_store s)) (pb_uuids u) (pb_db u) ms p st))"

lemma wp_scan:
  assumes idle: "idle w se S (contents (pb_store s)) (pb_uuids s) (pb_db s) ms"
    and pid: "i < pb_uuids s" "chain (aw_uuid w) se (contents (pb_store s)) i (generation_json (pb_db s)) ms"
    and r: "config_int (pb_db s) ''revision'' = Inr r" and src: "\<forall>t \<in> mirror_tables. distinct (map fst (keyed src t))"
    and inj: "inj (aw_sha256 w)"
  shows "wp (scan w bk se src (r + 1) (aw_uuid w i)) (scan_outcome w se src (aw_uuid w i) ms s) (\<lambda>u. kept_outside s u \<and> pb_db u = pb_db s) s"
proof -
  let ?f = "contents (pb_store s)" and ?E = "\<lambda>u. kept_outside s u \<and> pb_db u = pb_db s"
  have committed: "committed w se ?f (pb_uuids s) (pb_db s) ms" and no: "ck_changes (pb_db s) = []" "ck_pending (pb_db s) = []"
    and points: "points_to se ?f (pb_db s)" using idle by (auto simp: idle_def)
  have r0: "0 \<le> r" using committed r by (auto simp: committed_def)
  have final: "wp (if files = [] then bindM (modifyM (\<lambda>s. s\<lparr>pb_db := pb_db s0\<rparr>)) (\<lambda>_. returnM None)
        else bindM (liftM (parent_of bk se)) (\<lambda>(remote, parent).
          let manifest = manifest_json w (aw_uuid w i) (r + 1) src tables n parent files;
              p = \<lparr>pe_id = aw_uuid w i, pe_revision = r + 1, pe_manifest = manifest, pe_base = map_option snd remote\<rparr> in
          bindM (modifyM (\<lambda>s. s\<lparr>pb_db := set_config ''revision'' (encode_int (r + 1))
              ((pb_db s)\<lparr>ck_pending := ck_pending (pb_db s) @ [p]\<rparr>)\<rparr>)) (\<lambda>_. returnM (Some p))))
      (scan_outcome w se src (aw_uuid w i) ms s) (\<lambda>u. ?E (u\<lparr>pb_db := pb_db s\<rparr>)) v"
    if s0: "s0 = s" and tables: "tables_post w se src (r + 1) (set TABLES) [] s parts u" and logs: "logs_post w se parts u files v" for s0 :: "'s publisher" and parts u files v n tables
  proof -
    obtain st where st: "staged_as w se files st" "shows_source src (\<lambda>t. temporal ?f ms t @ staged_rows st t)"
      "\<forall>t \<in> mirror_tables. matches w (\<lambda>k. map_of (fold apply_change (ck_changes (pb_db v)) (ck_index (pb_db v))) (t, k)) (set (keyed src t))"
      "\<forall>t. \<forall>x \<in> set (staged_rows st t). ob_revision x = r + 1" "distinct (map fst (ck_changes (pb_db v)))" "scan_frame s v"
      by (rule scanned_state [OF committed no(1) src inj r tables refl logs])
    have v: "pb_store v = pb_store s" "pb_uuids s \<le> pb_uuids v" "pb_pending v = pb_pending s" "ck_index (pb_db v) = ck_index (pb_db s)"
      "ck_pending (pb_db v) = []" "\<forall>k. k \<noteq> ''events_seq'' \<longrightarrow> config_of (pb_db v) k = config_of (pb_db s) k"
      using st(6) no by (auto simp: scan_frame_def)
    show ?thesis
    proof (cases "files = []")
      case True
      then have "st = []" using st(1) by (simp add: staged_as_def)
      then show ?thesis using st(2) v True s0 by (simp add: scan_outcome_def)
    next
      case False
      have outcome: "scan_outcome w se src (aw_uuid w i) ms s (Some p) (v\<lparr>pb_db := set_config ''revision'' (encode_int (r + 1)) ((pb_db v)\<lparr>ck_pending := ck_pending (pb_db v) @ [p]\<rparr>)\<rparr>)"
        if p: "p = \<lparr>pe_id = aw_uuid w i, pe_revision = r + 1, pe_manifest = manifest_json w (aw_uuid w i) (r + 1) src tables n parent files, pe_base = base\<rparr>"
          and parent: "parent = generation_json (pb_db s)" for p parent base
      proof -
        let ?db = "set_config ''revision'' (encode_int (r + 1)) ((pb_db v)\<lparr>ck_pending := ck_pending (pb_db v) @ [p]\<rparr>)"
        have gen: "generation_json ?db = generation_json (pb_db s)" using v(6) by (simp add: generation_json_def)
        have pts: "points_to se ?f ?db" using points v(6) by (simp add: points_to_def split: option.splits)
        have com: "committed w se ?f (pb_uuids v) ?db ms"
          using committed_later [OF committed grows_refl v(2)] r r0 v(4) unfolding committed_def gen
          by (auto intro: order.trans [of _ r "r + 1"])
        have "pends w se src ?f (pb_uuids v) ?db ms p st"
          unfolding pends_def gen using com v(2,5) st pid r0
          by (auto simp: p parent intro!: exI [of _ i])
        then show ?thesis using pts v(1,2,3) by (auto simp: scan_outcome_def p)
      qed
      have "wp (liftM (parent_of bk se)) (\<lambda>(remote, parent) u. parent = generation_json (pb_db s) \<and> u = v) (\<lambda>u. u = v) v"
      proof (cases "parent_of bk se v")
        case (Inr y)
        then obtain remote where got: "bk_get bk (pb_store v) (latest_key se) = Inr remote" "generation_of remote = Inr (snd y)"
          by (auto simp: parent_of_def bindr_eq_Inr)
        then have "snd y = generation_json (pb_db s)"
          using get_true [OF got(1)] generation_of_pointer [OF points, of tag] by (simp add: v(1))
        then show ?thesis using Inr by (simp add: split_beta)
      qed simp
      then show ?thesis
        unfolding if_not_P [OF False] wp_bind
        by (rule wp_mono) (use outcome v scan_frame_outside [OF st(6)] in \<open>auto simp: Let_def kept_outside_def split: prod.splits\<close>)
    qed
  qed
  show ?thesis
  proof (cases "table_schemas src")
    case (Inl e)
    then show ?thesis by (simp add: scan_def kept_outside_def)
  next
    case (Inr tables)
    have E: "?E (u\<lparr>pb_db := pb_db s\<rparr>)" if "kept_outside s u" for u using that by simp
    show ?thesis
      unfolding scan_def wp_bind wp_lift Inr sum.case
    proof (rule wp_atomically_put, unfold wp_bind wp_simps, rule wp_mono [OF wp_scan_tables], goal_cases)
      case (1 parts u)
      have u: "kept_outside s u" by (rule scan_frame_outside [OF tables_post_frame [OF 1]])
      show ?case
      proof (rule wp_mono [OF wp_scan_logs], goal_cases)
        case (1 x v)
        obtain n files where x: "x = (n, files)" by (rule prod.exhaust)
        show ?case unfolding x prod.case
          by (rule final [OF refl \<open>tables_post w se src (r + 1) (set TABLES) [] s parts u\<close>]) (use 1 in \<open>simp add: x\<close>)
      qed (use E kept_outside_trans [OF u] in blast)
    qed (use E in blast)
  qed
qed

end

lemma in_place_grows:
  assumes "staged_as w se is st" and "in_place f is st" and "grows se f g"
  shows "in_place g is st"
  unfolding in_place_def list_all2_conv_all_nth
proof (intro conjI allI impI)
  show "length is = length st" using assms(2) by (auto simp: in_place_def list_all2_lengthD)
  fix i assume i: "i < length is"
  obtain t b where tb: "st ! i = (t, b)" by (rule prod.exhaust)
  have "f key = Some b \<and> key \<noteq> latest_key se" if "jentry ''key'' (is ! i) = Inr key" for key
    using assms(2) i tb that stored_present [OF assms(1,2) nth_mem [OF i] that]
    by (auto simp: in_place_def list_all2_conv_all_nth)
  then show "case st ! i of (t, b) \<Rightarrow> \<forall>key. jentry ''key'' (is ! i) = Inr key \<longrightarrow> g key = Some b"
    using assms(3) by (simp add: tb grows_def)
qed

lemma points_to_latest: "g (latest_key se) = f (latest_key se) \<Longrightarrow> points_to se g db = points_to se f db"
  by (simp add: points_to_def split: option.split)

context object_store begin

text \<open>An operation that only adds objects beside the pointer.\<close>

definition fills :: "analytics_settings \<Rightarrow> 's publisher \<Rightarrow> 's publisher \<Rightarrow> bool" where
  "fills se s u \<longleftrightarrow> pb_db u = pb_db s \<and> pb_uuids u = pb_uuids s \<and> pb_pending u = pb_pending s
     \<and> contents (pb_store u) (latest_key se) = contents (pb_store s) (latest_key se)
     \<and> (\<forall>k b. contents (pb_store s) k = Some b \<longrightarrow> contents (pb_store u) k = Some b)"

lemma fills_refl [simp]: "fills se s s"
  by (simp add: fills_def)

lemma fills_trans: "fills se s t \<Longrightarrow> fills se t u \<Longrightarrow> fills se s u"
  by (simp add: fills_def)

lemma fills_grows: "fills se s u \<Longrightarrow> grows se (contents (pb_store s)) (contents (pb_store u))"
  by (simp add: fills_def grows_def)

lemma fills_put:
  assumes "bk_put_immutable bk key b (pb_store s) = (r, t)" and "key \<noteq> latest_key se"
  shows "fills se s (s\<lparr>pb_store := t\<rparr>)"
  using put_keeps [OF assms(1)] put_other [OF assms(1)] assms(2) by (simp add: fills_def)

lemma wp_upload:
  assumes "describes w se t entry b" and "inj (aw_sha256 w)" and "digest = aw_sha256 w"
  shows "wp (upload w bk entry) (\<lambda>_ u. fills se s u \<and> (\<forall>key. jentry ''key'' entry = Inr key \<longrightarrow> contents (pb_store u) key = Some b)) (fills se s) s"
proof -
  obtain folder n where entry: "entry = item_json se t folder n (aw_sha256 w b)" using assms(1) by (auto simp: describes_def)
  obtain k where key: "jentry ''key'' entry = Inr (path_of se (''objects/'' @ k))" using item_fields(3) entry by blast
  have put: "fills se s (s\<lparr>pb_store := v\<rparr>) \<and> (r = Inr () \<longrightarrow> contents v (path_of se (''objects/'' @ k)) = Some b)"
    if "bk_put_immutable bk (path_of se (''objects/'' @ k)) b' (pb_store s) = (r, v)" "aw_sha256 w b' = aw_sha256 w b" for b' r v
    using fills_put [OF that(1) latest_is_no_object(2)] put_done [of "path_of se (''objects/'' @ k)" b' "pb_store s" "()" v] that assms(2,3)
    by (auto simp: inj_def)
  show ?thesis
    unfolding upload_def wp_bind wp_lift key sum.case
    by (auto simp: entry wp_def bindr_def split: option.split sum.split prod.split) (use put in \<open>auto simp: bindr_eq_Inr\<close>)
qed

lemma wp_uploads:
  assumes "staged_as w se is st" and "inj (aw_sha256 w)" and "digest = aw_sha256 w"
  shows "wp (foreachM (upload w bk) is) (\<lambda>_ u. fills se s u \<and> in_place (contents (pb_store u)) is st) (fills se s) s"
  using assms(1)
proof (induction st arbitrary: "is" s rule: list.induct)
  case Nil
  then show ?case by (simp add: staged_as_def in_place_def)
next
  case (Cons p st)
  obtain t b where p: "p = (t, b)" by (rule prod.exhaust)
  from Cons.prems obtain entry is' where i: "is = entry # is'" "describes w se t entry b" "staged_as w se is' st"
    by (auto simp: p staged_as_def list_all2_Cons2)
  show ?case unfolding i(1) foreachM.simps wp_bind
  proof (rule wp_mono [OF wp_upload [OF i(2) assms(2,3)]], goal_cases)
    case (1 x u)
    show ?case
      by (rule wp_mono [OF Cons.IH [OF i(3)]])
        (use 1 fills_trans [of se s u] in \<open>auto simp: p in_place_def fills_def\<close>)
  qed
qed

lemma sound_pending:
  assumes "pends w se src f n db ms p st" and "points_to se f db" and "src \<in> S" and "shown S f ms"
    and "grows se f g" and "g (latest_key se) = f (latest_key se)" and "n \<le> m"
  shows "sound w se S g m db"
  using pends_later [OF assms(1,5,7)] assms(2,3) points_to_latest [of g se f db] assms(6) shown_grows [OF assms(4) pends_present [OF assms(1)] assms(5)]
  unfolding sound_def by blast

lemma wp_release:
  assumes p: "pends w se src (contents (pb_store s)) (pb_uuids s) (pb_db s) ms p st" "points_to se (contents (pb_store s)) (pb_db s)"
    and src: "src \<in> S" "shown S (contents (pb_store s)) ms" and mem: "pb_pending s = Some p" and inj: "inj (aw_sha256 w)" and sha: "digest = aw_sha256 w"
  shows "wp (release w bk se (pe_id p) rv (pe_manifest p) base)
     (\<lambda>m u. idle w se S (contents (pb_store u)) (pb_uuids u) (pb_db u) (ms @ [pe_manifest p]) \<and>
        shows_source src (temporal (contents (pb_store u)) (ms @ [pe_manifest p])))
     (\<lambda>u. sound w se S (contents (pb_store u)) (pb_uuids u) (pb_db u)) s"
proof -
  let ?sound = "\<lambda>u. sound w se S (contents (pb_store u)) (pb_uuids u) (pb_db u)"
  obtain "is" where files: "manifest_files (pe_manifest p) = Inr is" "staged_as w se is st" using p(1) by (auto simp: pends_def)
  have items: "manifest_items (pe_manifest p) = is" by (simp add: manifest_items_def files(1))
  have filled: "?sound u" if "fills se s u" for u
    using sound_pending [OF p src fills_grows [OF that]] that by (simp add: fills_def)
  have ended: "idle w se S f n (finalized (pe_id p) db) (ms @ [pe_manifest p])
      \<and> shows_source src (temporal f (ms @ [pe_manifest p]))"
    if "pends w se src f n db ms p st" "released se f p st" for f n db
    using finalized_idle [OF that] src unfolding idle_def shown_def by blast
  have pointer: "wp (\<lambda>s. case bk_publish bk (latest_key se) (Json_text (pointer_json se (pe_id p) rv)) base (pb_store s) of
         (Inl e, t) \<Rightarrow> (Inl e, s\<lparr>pb_store := t\<rparr>) | (Inr etag, t) \<Rightarrow> (Inr (), s\<lparr>pb_store := t, pb_etag := Some etag\<rparr>))
      (\<lambda>_ v. pb_db v = pb_db u \<and> pb_uuids v = pb_uuids u \<and> pb_pending v = pb_pending u \<and>
         pends w se src (contents (pb_store v)) (pb_uuids v) (pb_db v) ms p st \<and> released se (contents (pb_store v)) p st) ?sound u"
    if u: "fills se s u" "in_place (contents (pb_store u)) is st" "contents (pb_store u) (manifest_key se (pe_id p)) = Some (Json_text (pe_manifest p))" for u
  proof -
    let ?f = "contents (pb_store u)" and ?g = "(contents (pb_store u))(latest_key se \<mapsto> Json_text (pointer_json se (pe_id p) rv))"
    have pu: "pends w se src ?f (pb_uuids u) (pb_db u) ms p st" "points_to se ?f (pb_db u)"
      using pends_later [OF p(1) fills_grows [OF u(1)], of "pb_uuids u"] u(1) p(2) points_to_latest [of ?f se] by (auto simp: fills_def)
    have g: "grows se ?f ?g" by (simp add: grows_def)
    have after: "pends w se src ?g (pb_uuids u) (pb_db u) ms p st" "released se ?g p st"
      using pends_later [OF pu(1) g, of "pb_uuids u"] in_place_grows [OF files(2) u(2) g] u(3) by (auto simp: released_def items)
    have shown: "shown S ?f ms" "shown S ?g ms"
      using shown_grows [OF src(2) pends_present [OF p(1)] fills_grows [OF u(1)]] shown_grows [OF _ pends_present [OF pu(1)] g] by blast+
    have sound_u: "sound w se S g (pb_uuids u) (pb_db u)" if "g \<in> {?f, ?g}" for g
      using that pu after src(1) shown unfolding sound_def by blast
    obtain r t where pub: "bk_publish bk (latest_key se) (Json_text (pointer_json se (pe_id p) rv)) base (pb_store u) = (r, t)" by (rule prod.exhaust)
    then have "contents t \<in> {?f, ?g}"
      using publish_replaces [of "latest_key se" "Json_text (pointer_json se (pe_id p) rv)" base "pb_store u"] by (auto split: if_splits)
    moreover have "r = Inr etag \<Longrightarrow> contents t = ?g" for etag using publish_done pub by blast
    ultimately show ?thesis using sound_u after by (auto simp: wp_def pub split: sum.split)
  qed
  have manifest: "wp (\<lambda>s. case bk_put_immutable bk (manifest_key se (pe_id p)) (Json_text (pe_manifest p)) (pb_store s) of (r, t) \<Rightarrow> (r, s\<lparr>pb_store := t\<rparr>))
      (\<lambda>_ v. fills se u v \<and> contents (pb_store v) (manifest_key se (pe_id p)) = Some (Json_text (pe_manifest p))) (fills se u) u" for u
    using fills_put [of _ _ u _ _ se] put_done [of "manifest_key se (pe_id p)" "Json_text (pe_manifest p)" "pb_store u"] inj sha
    by (auto simp: wp_def inj_def split: prod.split sum.split)
  have spool: "fills se s (u\<lparr>pb_spool := sp\<rparr>) = fills se s u" for u sp by (simp add: fills_def)
  show ?thesis
    unfolding release_def wp_bind wp_lift files(1) sum.case
  proof (rule wp_mono [OF wp_uploads [OF files(2) inj sha]], goal_cases)
    case (1 x u)
    show ?case unfolding spool_write_def wp_modify
    proof (rule wp_mono [OF manifest], goal_cases)
      case (1 y v)
      let ?u = "u\<lparr>pb_spool := upsert (pe_id p @ ''.json'') (Json_text (pe_manifest p)) (pb_spool u)\<rparr>"
      have "fills se s v" "in_place (contents (pb_store v)) is st"
        using fills_trans [of se s ?u v] in_place_grows [OF files(2) _ fills_grows [of se ?u v]]
          1 \<open>fills se s u \<and> in_place (contents (pb_store u)) is st\<close> by (auto simp: spool)
      then have v: "fills se s v" "in_place (contents (pb_store v)) is st"
        "contents (pb_store v) (manifest_key se (pe_id p)) = Some (Json_text (pe_manifest p))" using 1 by auto
      then have "pb_pending v = Some p" using mem by (simp add: fills_def)
      then show ?case
        by (intro wp_mono [OF pointer [OF v]]) (auto simp: finalize_def ended)
    qed (use 1 filled fills_trans [of se s] spool in blast)
  qed (use filled in blast)
qed

end

context object_store begin

definition published_as :: "analytics_world \<Rightarrow> analytics_settings \<Rightarrow> source set \<Rightarrow> source set \<Rightarrow> 's publisher \<Rightarrow> bool" where
  "published_as w se S T u \<longleftrightarrow> (\<exists>ms. idle w se S (contents (pb_store u)) (pb_uuids u) (pb_db u) ms
     \<and> (\<exists>src \<in> T. shows_source src (temporal (contents (pb_store u)) ms)))"

abbreviation safe :: "analytics_world \<Rightarrow> analytics_settings \<Rightarrow> source set \<Rightarrow> 's publisher \<Rightarrow> bool" where
  "safe w se S u \<equiv> sound w se S (contents (pb_store u)) (pb_uuids u) (pb_db u)"

lemma published_safe: "published_as w se S T u \<Longrightarrow> safe w se S u"
  by (auto simp: published_as_def sound_def)

lemma wp_resume:
  assumes p: "pends w se src0 (contents (pb_store s)) (pb_uuids s) (pb_db s) ms p st"
    and place: "points_to se (contents (pb_store s)) (pb_db s) \<or> released se (contents (pb_store s)) p st" and src: "src0 \<in> S" "shown S (contents (pb_store s)) ms"
    and mem: "pb_pending s = Some p" and inj: "inj (aw_sha256 w)" "inj (aw_uuid w)" and sha: "digest = aw_sha256 w"
  shows "wp (publish w bk se src) (\<lambda>_. published_as w se S S) (safe w se S) s"
proof -
  let ?f = "contents (pb_store s)"
  have safe: "safe w se S s" using p place src unfolding sound_def by blast
  show ?thesis
  proof (cases "bk_get bk (pb_store s) (latest_key se)")
    case (Inl e)
    then show ?thesis using safe mem by (simp add: publish_def)
  next
    case (Inr remote)
    have remote: "remote = map_option (\<lambda>b. (b, tag b)) (?f (latest_key se))" by (rule get_true [OF Inr])
    obtain i where i: "pe_id p = aw_uuid w i" "chain (aw_uuid w) se ?f i (generation_json (pb_db s)) ms" using p by (auto simp: pends_def)
    have other: "generation_json (pb_db s) \<noteq> JStr (pe_id p)" using chain_issued [OF i(2)] i(1) by (auto simp: inj_eq [OF inj(2)])
    show ?thesis
    proof (cases "points_to se ?f (pb_db s)")
      case True
      have gen: "generation_of remote = Inr (generation_json (pb_db s))" unfolding remote by (rule generation_of_pointer [OF True])
      have "wp (release w bk se (pe_id p) (pe_revision p) (pe_manifest p) (pe_base p)) (\<lambda>_. published_as w se S S) (safe w se S) s"
        by (rule wp_mono [OF wp_release [OF p True src mem inj(1) sha]]) (use src in \<open>auto simp: published_as_def\<close>)
      then show ?thesis using safe by (simp add: publish_def mem Inr gen other)
    next
      case False
      then have rel: "released se ?f p st" using place by blast
      then have gen: "generation_of remote = Inr (JStr (pe_id p))" and some: "remote \<noteq> None"
        by (auto simp: remote released_def generation_of_def pointer_json_def)
      have "idle w se S ?f (pb_uuids s) (finalized (pe_id p) (pb_db s)) (ms @ [pe_manifest p]) \<and> shows_source src0 (temporal ?f (ms @ [pe_manifest p]))"
        using finalized_idle [OF p rel] src unfolding idle_def shown_def by blast
      then have "published_as w se S S (s\<lparr>pb_etag := e, pb_db := finalized (pe_id p) (pb_db s), pb_pending := None, pb_spool := []\<rparr>)" for e
        using src unfolding published_as_def by (auto simp del: temporal_simps)
      then show ?thesis using safe some by (simp add: publish_def mem Inr gen finalize_def)
    qed
  qed
qed

lemma wp_fresh:
  assumes idle: "idle w se S (contents (pb_store s)) (pb_uuids s) (pb_db s) ms" and mem: "pb_pending s = None"
    and src: "src \<in> S" "sources_ok S" and inj: "inj (aw_sha256 w)" and sha: "digest = aw_sha256 w"
  shows "wp (publish w bk se src) (\<lambda>_. published_as w se S {src}) (safe w se S) s"
proof -
  let ?f = "contents (pb_store s)" and ?i = "pb_uuids s"
  have safe: "safe w se S u" if "pb_store u = pb_store s" "pb_uuids s \<le> pb_uuids u" "pb_db u = pb_db s" for u
    using idle_later [OF idle that(2)] that(1,3) unfolding sound_def by auto
  have com: "committed w se ?f ?i (pb_db s) ms" using idle by (simp add: idle_def)
  then obtain r where r: "config_int (pb_db s) ''revision'' = Inr r" by (auto simp: committed_def)
  let ?s = "s\<lparr>pb_spool := filter (\<lambda>e. \<not> ends_with ''.parquet'' (fst e)) (pb_spool s), pb_uuids := pb_uuids s + 1\<rparr>"
  have scan: "wp (scan w bk se src (r + 1) (aw_uuid w ?i)) (scan_outcome w se src (aw_uuid w ?i) ms ?s) (\<lambda>u. kept_outside ?s u \<and> pb_db u = pb_db ?s) ?s"
    by (rule wp_scan [where S = S, OF _ _ _ _ _ inj]) (use idle_later [OF idle] com r src in \<open>auto simp: committed_def sources_ok_def\<close>)
  have rest: "wp (case found of None \<Rightarrow> returnM (no_change (r + 1))
         | Some p \<Rightarrow> bindM (modifyM (\<lambda>s. s\<lparr>pb_pending := Some p\<rparr>)) (\<lambda>_. release w bk se (aw_uuid w ?i) (r + 1) (pe_manifest p) (pe_base p)))
      (\<lambda>_. published_as w se S {src}) (safe w se S) u" if out: "scan_outcome w se src (aw_uuid w ?i) ms ?s found u" for found u
  proof (cases found)
    case None
    then have "pb_store u = pb_store s" "pb_uuids s \<le> pb_uuids u" "pb_db u = pb_db s" "shows_source src (temporal ?f ms)"
      using out by (auto simp: scan_outcome_def)
    then show ?thesis using None idle_later [OF idle] by (auto simp: published_as_def)
  next
    case (Some p)
    then obtain st where p: "pe_id p = aw_uuid w ?i" "points_to se ?f (pb_db u)" "pends w se src ?f (pb_uuids u) (pb_db u) ms p st"
      and u: "pb_store u = pb_store s" using out by (auto simp: scan_outcome_def)
    have "wp (release w bk se (pe_id p) (r + 1) (pe_manifest p) (pe_base p)) (\<lambda>_. published_as w se S {src}) (safe w se S) (u\<lparr>pb_pending := Some p\<rparr>)"
      by (rule wp_mono [OF wp_release [OF _ _ src(1) _ _ inj sha]]) (use p u idle in \<open>auto simp: published_as_def idle_def simp del: temporal_simps\<close>)
    then show ?thesis by (simp add: Some p(1))
  qed
  have "wp (bindM (scan w bk se src (r + 1) (aw_uuid w ?i)) (\<lambda>found. case found of None \<Rightarrow> returnM (no_change (r + 1))
         | Some p \<Rightarrow> bindM (modifyM (\<lambda>s. s\<lparr>pb_pending := Some p\<rparr>)) (\<lambda>_. release w bk se (aw_uuid w ?i) (r + 1) (pe_manifest p) (pe_base p))))
      (\<lambda>_. published_as w se S {src}) (safe w se S) ?s"
    unfolding wp_bind by (rule wp_mono [OF scan]) (use rest safe in \<open>auto simp: kept_outside_def\<close>)
  then show ?thesis using safe [of s]
    by (simp add: publish_def mem r new_uuid_def Let_def)
qed

lemma wp_session:
  assumes sound: "safe w se S s" and src: "src \<in> S" "sources_ok S"
    and inj: "inj (aw_sha256 w)" "inj (aw_uuid w)" and sha: "digest = aw_sha256 w"
  shows "wp (session w bk se src) (\<lambda>_. published_as w se S (if ck_pending (pb_db s) = [] then {src} else S)) (safe w se S) s"
  unfolding session_def wp_bind
proof (rule wp_mono [OF wp_open], goal_cases)
  case (1 x u)
  then obtain v where u: "opened u" "pb_store u = pb_store s" "pb_uuids u = pb_uuids s" "pb_db u = set_config ''identity'' v (pb_db s)" by blast
  have su: "safe w se S u" using sound u by (simp add: sound_identity)
  show ?case
  proof (cases "ck_pending (pb_db s)")
    case Nil
    then have none: "pb_pending u = None" using u by (simp add: opened_def first_pending_def)
    obtain ms where "idle w se S (contents (pb_store u)) (pb_uuids u) (pb_db u) ms"
      using su Nil u(4) by (auto simp: sound_def pends_def)
    from wp_fresh [OF this none src inj(1) sha] show ?thesis using Nil by simp
  next
    case (Cons p ps)
    then obtain ms st src0 where p: "src0 \<in> S" "shown S (contents (pb_store u)) ms" "pends w se src0 (contents (pb_store u)) (pb_uuids u) (pb_db u) ms p st"
        "points_to se (contents (pb_store u)) (pb_db u) \<or> released se (contents (pb_store u)) p st"
      using su u(4) by (auto simp: sound_def idle_def pends_def)
    have "pb_pending u = Some p" using u Cons by (simp add: opened_def first_pending_def)
    from wp_resume [OF p(3,4,1,2) this inj sha] show ?thesis using Cons by simp
  qed
next
  case (2 u)
  then show ?case using sound by (auto simp: sound_identity)
qed

end

end
