(* ===== verification/AnalyticsShare.thy ===== *)
theory AnalyticsShare
  imports AnalyticsPublisher
begin

text \<open>
  The views over the published files (\<^verbatim>\<open>latest_sql\<close> in \<^verbatim>\<open>experiment/analytics.py\<close>) and the mirror of the
  committed objects under a shared prefix (\<^verbatim>\<open>experiment/analytics_share.py\<close>). The copies run in a pool
  of threads; the model makes them one after the other, in the order of the list. An
  \<^verbatim>\<open>IndexError\<close> is a \<^verbatim>\<open>KeyError\<close> here: both are lookup errors.
\<close>

section \<open>Views\<close>

definition quote_path :: "string \<Rightarrow> string" where
  "quote_path s = CHR 0x27 # concat (map (\<lambda>c. if c = CHR 0x27 then [c, c] else [c]) s) @ [CHR 0x27]"

definition cast_name :: "arrow \<Rightarrow> string" where
  "cast_name a = (case a of Int64 \<Rightarrow> ''BIGINT'' | Float64 \<Rightarrow> ''DOUBLE'' | Binary \<Rightarrow> ''BLOB'' | Boolean \<Rightarrow> ''BOOLEAN'' | Utf8 \<Rightarrow> ''VARCHAR'')"

definition null_field :: "string \<Rightarrow> string \<Rightarrow> string" where
  "null_field typ name = ''NULL::'' @ typ @ '' AS '' @ [CHR 0x22] @ name @ [CHR 0x22]"

definition items_of :: "json list \<Rightarrow> json list result" where
  "items_of ms = bindr (map_res manifest_files ms) (\<lambda>iss. Inr (concat iss))"

text \<open>\<^verbatim>\<open>files[item["table"]].append(..)\<close> for all items.\<close>

definition table_files :: "(string \<Rightarrow> string) \<Rightarrow> json list \<Rightarrow> (string \<times> string list) list result" where
  "table_files resolve ms =
     bindr (items_of ms) (\<lambda>is.
     foldr_res (\<lambda>i acc.
         bindr (jentry ''key'' i) (\<lambda>key.
         bindr (jentry ''table'' i) (\<lambda>t.
         case map_of acc t of None \<Rightarrow> Inl (KeyError t) | Some fs \<Rightarrow> Inr (dict_set t (fs @ [quote_path (resolve key)]) acc)))) is
       (map (\<lambda>t. (t, [])) (TABLES @ [''logs''])))"

definition null_columns :: "json list \<Rightarrow> string \<Rightarrow> string list result" where
  "null_columns ms table =
     (if ms = [] then Inl (KeyError ''list index out of range'')
      else bindr (jindex ''tables'' (last ms)) (\<lambda>ts. bindr (jindex table ts) (\<lambda>t. bindr (jindex ''columns'' t) (\<lambda>cs.
        case cs of
          JArr js \<Rightarrow> map_res (\<lambda>c. bindr (jentry ''type'' c) (\<lambda>typ. bindr (jentry ''name'' c) (\<lambda>name.
              Inr (null_field (cast_name (arrow_type typ)) name)))) js
        | _ \<Rightarrow> Inl (TypeError ''object is not iterable'')))))"

definition temporal_sql :: "json list \<Rightarrow> (string \<times> string list) list \<Rightarrow> string \<Rightarrow> string result" where
  "temporal_sql ms files table =
     (case map_of files table of
        Some (f # fs) \<Rightarrow> Inr (''CREATE OR REPLACE VIEW temporal_'' @ table @ '' AS SELECT * FROM read_parquet(['' @ join_on '','' (f # fs)
            @ ''], hive_partitioning=false);'')
      | _ \<Rightarrow> bindr (null_columns ms table) (\<lambda>cols.
          Inr (''CREATE OR REPLACE VIEW temporal_'' @ table @ '' AS SELECT ''
            @ join_on '','' (cols @ [''NULL::BIGINT AS _revision'', ''NULL::DOUBLE AS _observed_at'', ''NULL::VARCHAR AS _source_key'', ''NULL::BOOLEAN AS _deleted''])
            @ '' WHERE false;'')))"

definition current_sql :: "string \<Rightarrow> string" where
  "current_sql table = ''CREATE OR REPLACE VIEW '' @ table @ '' AS'' @ [NL] @ ''SELECT * EXCLUDE (_rn, _deleted) FROM ('' @ [NL]
     @ '' SELECT *, row_number() OVER (PARTITION BY _source_key ORDER BY _revision DESC) _rn'' @ [NL]
     @ '' FROM temporal_'' @ table @ '') WHERE _rn=1 AND NOT _deleted;''"

definition logs_sql :: "(string \<times> string list) list \<Rightarrow> string" where
  "logs_sql files =
     (case map_of files ''logs'' of
        Some (f # fs) \<Rightarrow> ''CREATE OR REPLACE VIEW build_logs AS SELECT * FROM read_parquet(['' @ join_on '','' (f # fs) @ ''], hive_partitioning=true);''
      | _ \<Rightarrow> ''CREATE OR REPLACE VIEW build_logs AS SELECT '' @ join_on '','' (map (\<lambda>(n, a). null_field (cast_name a) n) LOG_SCHEMA) @ '' WHERE false;'')"

definition latest_sql :: "(string \<Rightarrow> string) \<Rightarrow> json list \<Rightarrow> string result" where
  "latest_sql resolve ms =
     bindr (table_files resolve ms) (\<lambda>files.
     bindr (map_res (\<lambda>t. bindr (temporal_sql ms files t) (\<lambda>v. Inr (v @ [NL] @ current_sql t))) TABLES) (\<lambda>views.
     Inr (join_on [NL] (views @ [logs_sql files]))))"

section \<open>Sharing\<close>

definition share_prefix_ok :: "string \<Rightarrow> bool" where
  "share_prefix_ok s \<longleftrightarrow> length s = 25 \<and> starts_with ''share/'' s
     \<and> list_all (\<lambda>c. in_range 97 122 c \<or> in_range 50 55 c) (take 16 (drop 6 s)) \<and> drop 22 s = ''/v1''"

text \<open>One entry of the inventory: its new key, the entry with that key, and the copy that is needed, if any.\<close>

fun add_shared ::
  "string \<Rightarrow> string \<Rightarrow> (string \<times> json) list \<Rightarrow> json \<Rightarrow> (string \<times> json) list \<times> (string \<times> string \<times> string) list
    \<Rightarrow> ((string \<times> json) list \<times> (string \<times> string \<times> string) list) result" where
  "add_shared source share known (JObj kvs) (files, copies) =
     bindr (jentry ''key'' (JObj kvs)) (\<lambda>key.
     if \<not> starts_with (source @ ''/objects/'') key then Inl (ValueError ''manifest object is outside the private dataset'')
     else
       let dest = share @ drop (length source) key; shared = JObj (dict_set ''key'' (JStr dest) kvs) in
       case map_of files dest of
         Some old \<Rightarrow> if old \<noteq> shared then Inl (ValueError ''conflicting file inventory'') else Inr (files, copies)
       | None \<Rightarrow>
           bindr (jindex ''sha256'' (JObj kvs)) (\<lambda>sha.
           case map_of known dest of
             Some d \<Rightarrow> if d \<noteq> sha then Inl (ValueError ''share inventory checksum collision'') else Inr (files @ [(dest, shared)], copies)
           | None \<Rightarrow> bindr (jstring sha) (\<lambda>digest. Inr (files @ [(dest, shared)], copies @ [(key, dest, digest)]))))"
| "add_shared source share known _ acc = Inl (TypeError ''indices'')"

definition known_files :: "json option \<Rightarrow> 's backend \<Rightarrow> 's \<Rightarrow> (string \<times> json) list result" where
  "known_files previous bk s =
     (case previous of None \<Rightarrow> Inr []
      | Some p \<Rightarrow>
          bindr (jentry ''manifest'' p) (\<lambda>key.
          bindr (bk_get bk s key) (\<lambda>found.
          case found of
            None \<Rightarrow> Inl (ValueError ''previous share inventory is missing'')
          | Some (data, _) \<Rightarrow>
              bindr (loads_body data) (\<lambda>m. bindr (manifest_files m) (\<lambda>is.
              foldr_res (\<lambda>i acc. bindr (jentry ''key'' i) (\<lambda>k. bindr (jindex ''sha256'' i) (\<lambda>d. Inr (dict_set k d acc)))) is [])))))"

text \<open>\<^verbatim>\<open>{**current, "parent": None, "files": files}\<close>.\<close>

fun inventory_of :: "json \<Rightarrow> json list \<Rightarrow> json result" where
  "inventory_of (JObj kvs) files = Inr (JObj (dict_set ''files'' (JArr files) (dict_set ''parent'' JNull kvs)))"
| "inventory_of _ files = Inl (TypeError ''not a mapping'')"

definition archived_bytes :: "json list \<Rightarrow> int result" where
  "archived_bytes ms = bindr (map_res (\<lambda>m. bindr (jindex ''log_bytes'' m) (\<lambda>n. case n of JInt k \<Rightarrow> Inr k | _ \<Rightarrow> Inl (TypeError ''unsupported operand''))) ms)
     (\<lambda>ns. Inr (sum_list ns))"

definition without_slash :: "string \<Rightarrow> string" where
  "without_slash s = rev (dropWhile (\<lambda>c. c = CHR ''/'') (rev s))"

definition loaded :: "json list result option \<Rightarrow> json list result" where
  "loaded r = (case r of None \<Rightarrow> Inl (ValueError ''out of fuel'') | Some x \<Rightarrow> x)"

text \<open>What a run decides from the store before it writes: nothing to do, or the chain and the copies.\<close>

record share_plan =
  sp_chain :: "json list"
  sp_generation :: string
  sp_files :: "json list"
  sp_copies :: "(string \<times> string \<times> string) list"
  sp_etag :: "string option"

definition plan_share :: "nat \<Rightarrow> 's backend \<Rightarrow> string \<Rightarrow> string \<Rightarrow> 's \<Rightarrow> share_plan option result" where
  "plan_share fuel bk source share s =
     bindr (guardr (share_prefix_ok share) (ValueError ''share prefix must contain a 16-character base32 code'')) (\<lambda>_.
     bindr (guardr (source \<noteq> [] \<and> \<not> starts_with ''share/'' source) (ValueError ''share source must be a separate private prefix'')) (\<lambda>_.
     bindr (loaded (load_chain fuel bk s source)) (\<lambda>ms.
     bindr (guardr (ms \<noteq> []) (KeyError ''list index out of range'')) (\<lambda>_.
     bindr (bk_get bk s (share @ ''/index.json'')) (\<lambda>found.
     bindr (case found of None \<Rightarrow> Inr None | Some (data, _) \<Rightarrow> bindr (loads_body data) (\<lambda>j. Inr (if truthy j then Some j else None))) (\<lambda>previous.
     bindr (case previous of None \<Rightarrow> Inr () | Some p \<Rightarrow> bindr (jindex ''source_prefix'' p) (\<lambda>x.
         guardr (x = JStr source) (ValueError ''share belongs to a different source''))) (\<lambda>_.
     bindr (jentry ''generation'' (last ms)) (\<lambda>generation.
     bindr (case previous of None \<Rightarrow> Inr False | Some p \<Rightarrow> bindr (jindex ''generation'' p) (\<lambda>g. Inr (g = JStr generation))) (\<lambda>unchanged.
     if unchanged then Inr None
     else
       bindr (known_files previous bk s) (\<lambda>known.
       bindr (items_of ms) (\<lambda>is.
       bindr (foldr_res (add_shared source share known) is ([], [])) (\<lambda>(files, copies).
       Inr (Some \<lparr>sp_chain = ms, sp_generation = generation, sp_files = map snd files, sp_copies = copies, sp_etag = map_option snd found\<rparr>)))))))))))))"

definition share_index :: "string \<Rightarrow> string \<Rightarrow> share_plan \<Rightarrow> json result" where
  "share_index source share p =
     bindr (jindex ''revision'' (last (sp_chain p))) (\<lambda>revision.
     bindr (archived_bytes (sp_chain p)) (\<lambda>archived.
     Inr (JObj [(''archived_log_bytes'', JInt archived), (''format'', JStr ''filnix-analytics-share-v1''), (''generation'', JStr (sp_generation p)),
       (''manifest'', JStr (share @ ''/manifests/'' @ sp_generation p @ ''.json'')), (''objects'', JInt (int (length (sp_files p)))), (''revision'', revision),
       (''source_prefix'', JStr source), (''sql'', JStr (share @ ''/views/'' @ sp_generation p @ ''.sql''))])))"

definition publish_share :: "nat \<Rightarrow> 's backend \<Rightarrow> string \<Rightarrow> string \<Rightarrow> string \<Rightarrow> ('s, json) op" where
  "publish_share fuel bk source0 share base_url =
     (let source = strip_slashes source0 in
      bindM (liftM (plan_share fuel bk source share)) (\<lambda>found.
      case found of
        None \<Rightarrow> returnM (JObj [(''copied'', JInt 0), (''unchanged'', JBool True)])
      | Some p \<Rightarrow>
          bindM (foreachM (\<lambda>(key, dest, digest). bk_copy_immutable bk key dest digest) (sp_copies p)) (\<lambda>_.
          bindM (liftM (\<lambda>_. inventory_of (last (sp_chain p)) (sp_files p))) (\<lambda>inventory.
          bindM (liftM (\<lambda>_. latest_sql (\<lambda>key. without_slash base_url @ ''/'' @ key) [inventory])) (\<lambda>sql.
          bindM (bk_put_immutable bk (share @ ''/manifests/'' @ sp_generation p @ ''.json'') (Json_text inventory)) (\<lambda>_.
          bindM (bk_put_immutable bk (share @ ''/views/'' @ sp_generation p @ ''.sql'') (Plain_text sql)) (\<lambda>_.
          bindM (liftM (\<lambda>_. share_index source share p)) (\<lambda>index.
          bindM (bk_publish bk (share @ ''/index.json'') (Json_text index) (sp_etag p)) (\<lambda>_.
          returnM (JObj [(''copied'', JInt (int (length (sp_copies p)))), (''objects'', JInt (int (length (sp_files p)))), (''unchanged'', JBool False)]))))))))))"

end
