(* ===== verification/AnalyticsGuarantees.thy ===== *)
theory AnalyticsGuarantees
  imports AnalyticsInvariant AnalyticsShare
begin

text \<open>
  What the readers of the published dataset can rely on: reading the chain back, snapshots,
  publication, immutable objects, the fragments of the logs and the share.
\<close>

section \<open>Reading the chain back\<close>

lemma chain_length: "chain U se f n g ms \<Longrightarrow> length ms \<le> n"
  by (induction rule: chain.induct) auto

lemma read_linked:
  assumes "\<And>key. bk_get bk s key = Inr (map_option (\<lambda>b. (b, etg b)) (f key))"
    and "f (manifest_key se g) = Some (Json_text m)" and "links m g parent"
  shows "read_manifest bk s (strip_slashes (se_prefix se)) g = Inr m"
  using assms(2,3) by (simp add: read_manifest_def assms(1) manifest_key_def path_of_eq links_def)

lemma chain_read:
  assumes get: "\<And>key. bk_get bk s key = Inr (map_option (\<lambda>b. (b, etg b)) (f key))"
    and U: "inj U" "\<And>i. U i \<noteq> []"
    and "chain U se f n g ms" and "length ms \<le> k" and "\<forall>x \<in> set seen. \<exists>j \<ge> n. x = U j"
  shows "chain_loop k bk s (strip_slashes (se_prefix se)) seen g = Some (Inr (rev ms))"
  using assms(4-6)
proof (induction arbitrary: k seen rule: chain.induct)
  case (chain_start n)
  show ?case by (subst chain_loop.simps) simp
next
  case (chain_link i n m parent ms)
  obtain k' where k: "k = Suc k'" "length ms \<le> k'" using chain_link.prems(1) by (cases k) auto
  have new: "\<not> List.member seen (U i)"
    using chain_link.prems(2) chain_link.hyps(1) by (auto simp: List.member_iff inj_eq [OF U(1)])
  have "\<exists>j \<ge> i. x = U j" if "x \<in> set seen" for x
    using chain_link.prems(2) chain_link.hyps(1) that by (meson less_imp_le order.trans)
  then have "chain_loop k' bk s (strip_slashes (se_prefix se)) (U i # seen) parent = Some (Inr (rev ms))"
    by (intro chain_link.IH [OF k(2)]) auto
  then show ?case
    using read_linked [OF get chain_link.hyps(2,3)] chain_link.hyps(3) new U(2)
    by (subst chain_loop.simps) (simp add: k(1) links_def)
qed

lemma load_committed:
  assumes get: "\<And>key. bk_get bk s key = Inr (map_option (\<lambda>b. (b, etg b)) (f key))"
    and U: "inj U" "\<And>i. U i \<noteq> []"
    and ch: "chain U se f n (generation_json db) ms" and pts: "points_to se f db" and k: "length ms \<le> k"
  shows "load_chain k bk s (se_prefix se) = Some (Inr ms) \<or> (ms = [] \<and> f (latest_key se) = None)"
proof (cases "f (latest_key se)")
  case None
  then have "generation_json db = JNull" using pts by (auto simp: points_to_def generation_json_def split: option.splits)
  then show ?thesis using None ch chain_null by simp
next
  case (Some b)
  then obtain g rv where g: "config_of db ''generation'' = Some g" "b = Json_text (pointer_json se g rv)"
    using pts by (auto simp: points_to_def split: option.splits)
  have "chain_loop k bk s (strip_slashes (se_prefix se)) [] (JStr g) = Some (Inr (rev ms))"
    using chain_read [OF get U ch k, of "[]"] g by (simp add: generation_json_def)
  then show ?thesis
    using Some by (simp add: load_chain_def get latest_key_def path_of_eq [symmetric] g pointer_json_def jindex_def)
qed

text \<open>Reading never runs longer than there are objects, whatever these hold.\<close>

lemma chain_loop_ends:
  assumes "\<And>key found. bk_get bk s key = Inr (Some found) \<Longrightarrow> key \<in> set keys"
    and "distinct seen" and "(\<lambda>g. chain_path prefix (''manifests/'' @ g @ ''.json'')) ` set seen \<subseteq> set keys"
    and "length keys < k + length seen"
  shows "chain_loop k bk s prefix seen g \<noteq> None"
  using assms(2-4)
proof (induction k arbitrary: seen g)
  case 0
  have "inj_on (\<lambda>g. chain_path prefix (''manifests/'' @ g @ ''.json'')) (set seen)"
    by (auto simp: inj_on_def chain_path_def)
  then have "card (set seen) \<le> card (set keys)" using 0(2) by (rule card_inj_on_le) simp
  then have "length seen \<le> length keys" using 0(1) card_length [of keys] by (simp add: distinct_card)
  then show ?case using 0(3) by simp
next
  case (Suc k)
  show ?case
  proof (cases "\<exists>h. g = JStr h \<and> h \<noteq> [] \<and> h \<notin> set seen \<and> (\<exists>m. read_manifest bk s prefix h = Inr m)")
    case False
    show ?thesis
    proof (cases g)
      case (JStr h)
      then consider (empty) "h = []" | (cycle) "h \<in> set seen" | (broken) e where "h \<noteq> []" "h \<notin> set seen" "read_manifest bk s prefix h = Inl e"
        using False by (cases "read_manifest bk s prefix h") blast+
      then show ?thesis
        by cases (subst chain_loop.simps, simp add: JStr List.member_iff)+
    qed (subst chain_loop.simps; simp)+
  next
    case True
    then obtain h m where h: "g = JStr h" "h \<noteq> []" "h \<notin> set seen" "read_manifest bk s prefix h = Inr m" by blast
    then have "chain_path prefix (''manifests/'' @ h @ ''.json'') \<in> set keys"
      using assms(1) by (fastforce simp: read_manifest_def bindr_eq_Inr split: option.splits)
    then have "chain_loop k bk s prefix (h # seen) p \<noteq> None" for p
      using Suc.IH [of "h # seen" p] Suc.prems h(3) by simp
    then show ?thesis using h by (subst chain_loop.simps) (auto simp: List.member_iff split: sum.split)
  qed
qed

section \<open>All runs\<close>

definition fresh_publisher :: "trouble list \<Rightarrow> local publisher" where
  "fresh_publisher ts = \<lparr>pb_db = empty_checkpoint, pb_spool = [], pb_store = \<lparr>lo_files = [], lo_trouble = ts\<rparr>, pb_uuids = 0,
     pb_pending = None, pb_etag = None\<rparr>"

text \<open>Worlds that differ in what is observed but not in digests and identifiers.\<close>

definition same_ids :: "analytics_world \<Rightarrow> analytics_world \<Rightarrow> bool" where
  "same_ids w w' \<longleftrightarrow> aw_sha256 w' = aw_sha256 w \<and> aw_uuid w' = aw_uuid w"

text \<open>Whatever happens to one checkpoint and one store: sessions on any of the sources, with writes that
  fail or are interrupted, and crashes that leave anything in the spool and use up identifiers.\<close>

inductive analytics_runs :: "analytics_world \<Rightarrow> string \<Rightarrow> analytics_settings \<Rightarrow> source set \<Rightarrow> local publisher \<Rightarrow> bool"
  for w0 :: analytics_world and folder :: string and se :: analytics_settings and S :: "source set" where
  runs_start: "analytics_runs w0 folder se S (fresh_publisher ts)"
| runs_session: "analytics_runs w0 folder se S s \<Longrightarrow> same_ids w0 w \<Longrightarrow> src \<in> S
    \<Longrightarrow> analytics_runs w0 folder se S (snd (session w (local_backend w folder) se src s))"
| runs_crash: "analytics_runs w0 folder se S s \<Longrightarrow> pb_uuids s \<le> n
    \<Longrightarrow> analytics_runs w0 folder se S (s\<lparr>pb_spool := spool, pb_uuids := n, pb_store := (pb_store s)\<lparr>lo_trouble := ts\<rparr>\<rparr>)"

lemma same_ids_simps:
  "same_ids w w' \<Longrightarrow> row_hash w' = row_hash w" "same_ids w w' \<Longrightarrow> matches w' = matches w"
  "same_ids w w' \<Longrightarrow> describes w' = describes w" "same_ids w w' \<Longrightarrow> staged_as w' = staged_as w"
  by (intro ext; simp add: same_ids_def row_hash_def matches_def describes_def staged_as_def)+

lemma sound_same: "same_ids w w' \<Longrightarrow> sound w' se S f n db = sound w se S f n db"
proof -
  assume a: "same_ids w w'"
  have "aw_uuid w' = aw_uuid w" using a by (simp add: same_ids_def)
  then show ?thesis unfolding sound_def idle_def pends_def committed_def same_ids_simps [OF a] by simp
qed

lemma fresh_sound: "sound w se S (local_contents (pb_store (fresh_publisher ts))) (pb_uuids (fresh_publisher ts)) (pb_db (fresh_publisher ts))"
proof -
  have "idle w se S (local_contents \<lparr>lo_files = [], lo_trouble = ts\<rparr>) 0 empty_checkpoint []"
    by (auto simp: idle_def committed_def empty_checkpoint_def points_to_def shown_def generation_json_def config_of_def config_int_def
        present_def matches_def current_def local_contents_def intro: chain_start)
  then show ?thesis by (auto simp: sound_def fresh_publisher_def)
qed

lemma runs_sound:
  assumes "analytics_runs w0 folder se S s" and "sources_ok S" and "inj (aw_sha256 w0)" and "inj (aw_uuid w0)"
  shows "sound w0 se S (local_contents (pb_store s)) (pb_uuids s) (pb_db s)"
  using assms
proof (induction rule: analytics_runs.induct)
  case (runs_start ts)
  show ?case by (rule fresh_sound)
next
  case (runs_session s w src)
  have inj: "inj (aw_sha256 w)" "inj (aw_uuid w)" using runs_session by (simp_all add: same_ids_def)
  have "sound w se S (local_contents (pb_store s)) (pb_uuids s) (pb_db s)"
    using runs_session by (simp add: sound_same [OF runs_session.hyps(2)])
  then have "wp (session w (local_backend w folder) se src) (\<lambda>_. lb.safe w se S) (lb.safe w se S) s"
    by (intro wp_mono [OF lb.wp_session [OF _ runs_session.hyps(3) runs_session.prems(1) inj refl]]) (auto intro: lb.published_safe)
  from wp_outcome [OF this] show ?case by (simp add: sound_same [OF runs_session.hyps(2)])
next
  case (runs_crash s n ts spool)
  let ?f = "local_contents (pb_store s)"
  have same: "local_contents ((pb_store s)\<lparr>lo_trouble := ts\<rparr>) = ?f" by (simp add: local_contents_def)
  have "sound w0 se S ?f (pb_uuids s) (pb_db s)" using runs_crash by blast
  then have "sound w0 se S ?f n (pb_db s)"
    using idle_later [OF _ runs_crash.hyps(2)] pends_later [OF _ grows_refl runs_crash.hyps(2)] unfolding sound_def by blast
  then show ?case by (simp add: same)
qed

section \<open>The dataset is a snapshot\<close>

definition dataset_shows :: "local \<Rightarrow> json list \<Rightarrow> source \<Rightarrow> bool" where
  "dataset_shows s ms src \<longleftrightarrow> (\<forall>t \<in> mirror_tables. set (current (temporal (local_contents s) ms t)) = set (keyed src t))"

lemma local_get_total: "bk_get (local_backend w folder) s key = Inr (map_option (\<lambda>b. (b, aw_md5 w b)) (local_contents s key))"
  by (simp add: local_backend_def local_get_def local_contents_def)

lemma load_idle:
  assumes "idle w0 se S (local_contents (pb_store s)) n (pb_db s) ms" and "inj (aw_uuid w0)" and "\<forall>i. aw_uuid w0 i \<noteq> []" and "n \<le> k"
  shows "load_chain k (local_backend w folder) (pb_store s) (se_prefix se) = Some (Inr ms)
    \<or> (ms = [] \<and> local_contents (pb_store s) (latest_key se) = None)"
proof -
  have c: "chain (aw_uuid w0) se (local_contents (pb_store s)) n (generation_json (pb_db s)) ms" "points_to se (local_contents (pb_store s)) (pb_db s)"
    using assms(1) by (auto simp: idle_def committed_def)
  show ?thesis
    by (rule load_committed [OF local_get_total assms(2) _ c]) (use assms(3,4) chain_length [OF c(1)] in auto)
qed

text \<open>C11. Whatever sessions, failed or interrupted writes and crashes came before, a reader who loads the
  dataset at any moment sees, in every table but the events, exactly the rows of one of the
  sources that were ever scanned, or nothing when nothing was published; nothing of a generation
  whose publication did not come to its pointer is visible.\<close>

theorem reader_sees_snapshot:
  assumes "analytics_runs w0 folder se S s" and "sources_ok S" and "inj (aw_sha256 w0)"
    and "inj (aw_uuid w0)" and "\<forall>i. aw_uuid w0 i \<noteq> []"
  shows "\<exists>ms. (load_chain (pb_uuids s) (local_backend w folder) (pb_store s) (se_prefix se) = Some (Inr ms)
        \<or> ms = [] \<and> local_contents (pb_store s) (latest_key se) = None)
     \<and> (ms = [] \<or> (\<exists>src \<in> S. dataset_shows (pb_store s) ms src))"
proof -
  let ?f = "local_contents (pb_store s)"
  have read: ?thesis if "idle w0 se T (local_contents (pb_store t)) (pb_uuids s) (pb_db t) ms" "T \<subseteq> S" "pb_store t = pb_store s" for T t ms
    using load_idle [OF that(1) assms(4,5) order.refl, of w folder] that unfolding idle_def shown_def shows_source_def dataset_shows_def
    by (intro exI [of _ ms]) (auto simp: that(3))
  from runs_sound [OF assms(1-4)] consider (idle) ms where "idle w0 se S ?f (pb_uuids s) (pb_db s) ms"
    | (pending) src ms p st where "src \<in> S" "pends w0 se src ?f (pb_uuids s) (pb_db s) ms p st" "shown S ?f ms" "points_to se ?f (pb_db s)"
    | (released) src ms p st where "src \<in> S" "pends w0 se src ?f (pb_uuids s) (pb_db s) ms p st" "released se ?f p st"
    unfolding sound_def by blast
  then show ?thesis
  proof cases
    case idle
    then show ?thesis by (rule read) simp_all
  next
    case pending
    then have c: "chain (aw_uuid w0) se ?f (pb_uuids s) (generation_json (pb_db s)) ms" by (simp add: pends_def committed_def)
    have "load_chain (pb_uuids s) (local_backend w folder) (pb_store s) (se_prefix se) = Some (Inr ms) \<or> (ms = [] \<and> ?f (latest_key se) = None)"
      by (rule load_committed [OF local_get_total assms(4) _ c pending(4)]) (use assms(5) chain_length [OF c] in auto)
    then show ?thesis using pending(3) unfolding shown_def shows_source_def dataset_shows_def by blast
  next
    case released
    have "idle w0 se {src} (local_contents (pb_store (s\<lparr>pb_db := finalized (pe_id p) (pb_db s)\<rparr>))) (pb_uuids s)
        (pb_db (s\<lparr>pb_db := finalized (pe_id p) (pb_db s)\<rparr>)) (ms @ [pe_manifest p])"
      using finalized_idle(1) [OF released(2,3)] by simp
    then show ?thesis by (rule read) (use released(1) in auto)
  qed
qed


text \<open>C32. Loading the dataset ends whatever the objects hold: after as many turns as there are objects it has
  found the chain, a cycle or an error.\<close>

theorem load_chain_returns:
  "load_chain (Suc (length (lo_files s))) (local_backend w folder) s prefix \<noteq> None"
proof -
  have "chain_loop (Suc (length (lo_files s))) (local_backend w folder) s (strip_slashes prefix) [] g \<noteq> None" for g
    by (rule chain_loop_ends [where keys = "map fst (lo_files s)"])
      (auto simp: local_get_total local_contents_def image_iff dest!: map_of_SomeD, force)
  then show ?thesis by (auto simp: load_chain_def Let_def split: sum.split option.split)
qed

section \<open>Published objects do not change\<close>

lemma keeps_atomically_db:
  assumes "keeps P m" and "\<And>s db. P (s\<lparr>pb_db := db\<rparr>) = P s"
  shows "keeps P (atomicallyM pb_db (\<lambda>db s. s\<lparr>pb_db := db\<rparr>) m)"
  using assms unfolding keeps_wp by (auto intro: wp_atomically_put)

lemma keeps_same_store:
  assumes "\<And>s. wp m (\<lambda>_ u. pb_store u = pb_store s) (\<lambda>u. pb_store u = pb_store s) s"
  shows "keeps (\<lambda>s. Q (pb_store s)) m"
  unfolding keeps_wp by (auto intro: wp_mono [OF assms])

lemma keeps_scans:
  "keeps (\<lambda>s. Q (pb_store s)) (scan_tables w se src rv)" "keeps (\<lambda>s. Q (pb_store s)) (scan_logs w se src rv as n acc)"
  by (rule keeps_same_store, rule wp_mono [OF wp_scan_tables], auto simp: kept_outside_def scan_frame_def dest: tables_post_frame)
    (rule keeps_same_store, rule wp_mono [OF wp_scan_logs], auto simp: kept_outside_def scan_frame_def logs_post_def)

lemma keeps_unstored: "(\<And>s. pb_store (g s) = pb_store s) \<Longrightarrow> keeps (\<lambda>s. Q (pb_store s)) (modifyM g)"
  by (rule keeps_modify) simp

lemma object_kept:
  assumes "local_contents (pb_store s) key = Some b" and "key \<noteq> latest_key se"
  shows "local_contents (pb_store (snd (session w (local_backend w folder) se src s))) key = Some b"
proof -
  let ?Q = "\<lambda>t. local_contents t key = Some b"
  let ?P = "\<lambda>s :: local publisher. ?Q (pb_store s)"
  note basics = keeps_intros keeps_unstored [of _ ?Q]
  have put: "keeps ?P (\<lambda>s. case bk_put_immutable (local_backend w folder) k x (pb_store s) of (r, t) \<Rightarrow> (r, s\<lparr>pb_store := t\<rparr>))" for k x
    using lb.put_keeps [of w folder k x] assms(2) by (auto simp: keeps_def split: prod.split)
  have pointer: "keeps ?P (\<lambda>s. case bk_publish (local_backend w folder) (latest_key se) x base (pb_store s) of
         (Inl e, t) \<Rightarrow> (Inl e, s\<lparr>pb_store := t\<rparr>) | (Inr etag, t) \<Rightarrow> (Inr (), s\<lparr>pb_store := t, pb_etag := Some etag\<rparr>))" for x base
    using lb.publish_other [of w folder "latest_key se" x base _ _ _ key] assms(2) by (auto simp: keeps_def split: prod.split sum.split)
  have upload: "keeps ?P (upload w (local_backend w folder) entry)" for entry
    unfolding upload_def by (intro basics put)
  have finalize: "keeps ?P finalize"
    unfolding finalize_def by (intro basics) simp
  have release: "keeps ?P (release w (local_backend w folder) se pid rv m base)" for pid rv m base
    unfolding release_def spool_write_def by (intro basics put pointer upload finalize) simp
  have scan: "keeps ?P (scan w (local_backend w folder) se src rv pid)" for rv pid
    unfolding scan_def Let_def by (intro basics keeps_atomically_db keeps_scans [of ?Q]) simp_all
  have "keeps ?P (open_publisher w (local_backend w folder) se)"
    unfolding open_publisher_def Let_def by (intro basics) simp_all
  moreover have "keeps ?P (publish w (local_backend w folder) se src)"
    unfolding publish_def new_uuid_def Let_def by (intro basics finalize release scan) simp_all
  ultimately have "keeps ?P (session w (local_backend w folder) se src)"
    unfolding session_def by (intro basics)
  then show ?thesis using assms(1) unfolding keeps_def by blast
qed

text \<open>C30. Except for the pointer, no session changes or removes an object that is there, also when it
  fails half way.\<close>

theorem objects_immutable:
  "{key. local_contents (pb_store s) key \<noteq> None
     \<and> local_contents (pb_store (snd (session w (local_backend w folder) se src s))) key \<noteq> local_contents (pb_store s) key} \<subseteq> {latest_key se}"
  using object_kept [of s _ _ se w folder src] by fastforce

section \<open>Log fragments\<close>

lemma readline_prefix: "readline bytes pos n = take (length (readline bytes pos n)) (drop pos bytes)"
  unfolding readline_def by (rule line_take_prefix)

lemma readline_length: "length (readline bytes pos n) \<le> n" "length (readline bytes pos n) \<le> length bytes - pos"
proof -
  show "length (readline bytes pos n) \<le> n" unfolding readline_def by (rule line_take_length)
  show "length (readline bytes pos n) \<le> length bytes - pos"
    using arg_cong [OF readline_prefix, of length bytes pos n] by simp
qed

lemma complete_end:
  assumes "complete_line (readline bytes pos n)" and "raw = readline bytes pos n"
  shows "bytes ! (pos + length raw - 1) = NL" and "raw \<noteq> []"
proof -
  show ne: "raw \<noteq> []" using assms by (simp add: complete_line_def)
  have "last raw = drop pos bytes ! (length raw - 1)"
    using readline_prefix [of bytes pos n] ne unfolding assms(2) [symmetric] by (metis last_conv_nth diff_less length_greater_0_conv nth_take zero_less_one)
  moreover have "0 < length raw" using ne by simp
  moreover have "pos < length bytes" using \<open>0 < length raw\<close> readline_length(2) [of bytes pos n] unfolding assms(2) by linarith
  ultimately show "bytes ! (pos + length raw - 1) = NL"
    using assms by (simp add: complete_line_def add_diff_assoc Suc_le_eq)
qed

lemma find_break_spec: "find_break bytes limit at0 = Some e \<Longrightarrow> limit \<le> length bytes \<Longrightarrow> at0 < e \<and> e \<le> limit \<and> bytes ! (e - 1) = NL"
proof (induction bytes limit at0 rule: find_break.induct)
  case (1 bytes limit at0)
  define probe where "probe = readline bytes at0 (min FRAGMENT (limit - at0))"
  have found: "at0 < limit" "probe \<noteq> []"
    "(if complete_line probe then Some (at0 + length probe) else find_break bytes limit (at0 + length probe)) = Some e"
    using 1(2) by (subst (asm) find_break.simps; simp add: probe_def [symmetric] Let_def split: if_splits)+
  have len: "length probe \<le> limit - at0" using readline_length(1) [of bytes at0 "min FRAGMENT (limit - at0)"] by (simp add: probe_def)
  show ?case
  proof (cases "complete_line probe")
    case True
    then show ?thesis using found len complete_end [of bytes at0 _ probe] by (auto simp: probe_def)
  next
    case False
    then show ?thesis using 1(1) [OF _ probe_def] found 1(3) by auto
  qed
qed

definition line_end :: "reader \<Rightarrow> nat \<Rightarrow> bool" where
  "line_end rd p \<longleftrightarrow> (\<exists>e. p \<le> e \<and> 0 < e \<and> e \<le> rd_limit rd \<and> rd_bytes rd ! (e - 1) = NL)"

lemma next_fragment_spec:
  assumes "next_fragment rd pos n c = Some (raw, e)" and "pos < rd_limit rd" and "rd_limit rd \<le> length (rd_bytes rd)"
    and "c = 0 \<or> c \<le> rd_limit rd \<and> rd_bytes rd ! (c - 1) = NL"
  shows "raw = take (length raw) (drop pos (rd_bytes rd))" and "raw \<noteq> []" and "length raw \<le> FRAGMENT"
    and "pos + length raw \<le> rd_limit rd" and "length raw \<le> rd_budget rd - n"
    and "e = 0 \<or> e \<le> rd_limit rd \<and> rd_bytes rd ! (e - 1) = NL" and "rd_live rd \<Longrightarrow> line_end rd (pos + length raw)"
proof -
  let ?r = "readline (rd_bytes rd) pos (min FRAGMENT (min (rd_limit rd - pos) (rd_budget rd - n)))"
  have raw: "raw = ?r" using assms(1) by (auto simp: next_fragment_def Let_def split: if_splits)
  show "raw = take (length raw) (drop pos (rd_bytes rd))" unfolding raw by (rule readline_prefix)
  show "raw \<noteq> []" by (rule next_fragment_advances [OF assms(1)])
  have len: "length raw \<le> min FRAGMENT (min (rd_limit rd - pos) (rd_budget rd - n))" unfolding raw by (rule readline_length)
  then show "length raw \<le> FRAGMENT" "pos + length raw \<le> rd_limit rd" "length raw \<le> rd_budget rd - n" using assms(2) by auto
  have br: "find_break (rd_bytes rd) (rd_limit rd) (pos + length raw) = Some x \<Longrightarrow>
      pos + length raw < x \<and> x \<le> rd_limit rd \<and> rd_bytes rd ! (x - 1) = NL" for x
    by (rule find_break_spec [OF _ assms(3)])
  have e: "e = c \<and> \<not> (rd_live rd \<and> \<not> complete_line raw \<and> pos + length raw > c) \<or>
      find_break (rd_bytes rd) (rd_limit rd) (pos + length raw) = Some e"
    using assms(1) unfolding next_fragment_def Let_def raw [symmetric] by (auto split: if_splits)
  then show "e = 0 \<or> e \<le> rd_limit rd \<and> rd_bytes rd ! (e - 1) = NL" using br assms(4) by auto
  assume live: "rd_live rd"
  show "line_end rd (pos + length raw)"
  proof (cases "complete_line raw")
    case True
    have "rd_bytes rd ! (pos + length raw - 1) = NL"
      by (rule complete_end(1) [OF _ raw]) (use True raw in simp)
    then show ?thesis using \<open>raw \<noteq> []\<close> len assms(2) unfolding line_end_def
      by (intro exI [of _ "pos + length raw"]) auto
  next
    case False
    have "pos + length raw \<le> e" using e br [of e] live False by auto
    moreover have "0 < length raw" using \<open>raw \<noteq> []\<close> by simp
    ultimately have "0 < e" by linarith
    with \<open>pos + length raw \<le> e\<close> show ?thesis using \<open>e = 0 \<or> _\<close> unfolding line_end_def by blast
  qed
qed

lemma fragment_row_fields:
  assumes "fragment_row w rd pos raw acts = (row, acts')"
  shows "fz_raw row = raw" "fz_start row = pos" "fz_end row = pos + length raw" "fz_stream row = rd_stream rd" "fz_attempt row = rd_attempt rd"
  using assms by (auto simp: fragment_row_def Let_def split: prod.splits)

text \<open>C31. The fragments of a stream cover it byte by byte from the position where the last publication stopped: each is
  at most a mebibyte and carries its exact offsets, together they stay in the captured part
  and in the byte budget, and of a log still being written nothing after the last committed
  line break is taken.\<close>

theorem fragments_tile:
  assumes "read_stream w rd pos n c acts = (rows, p, q, acts')" and "pos \<le> rd_limit rd" and "rd_limit rd \<le> length (rd_bytes rd)"
    and "n \<le> rd_budget rd" and "c = 0"
  shows "concat (map fz_raw rows) = take (p - pos) (drop pos (rd_bytes rd)) \<and> pos \<le> p \<and> p \<le> rd_limit rd
     \<and> q = n + (p - pos) \<and> q \<le> rd_budget rd \<and> tiles pos (map (\<lambda>r. (fz_start r, fz_raw r)) rows) p
     \<and> list_all (\<lambda>r. length (fz_raw r) \<le> FRAGMENT \<and> fz_end r = fz_start r + length (fz_raw r)) rows
     \<and> (rd_live rd \<and> rows \<noteq> [] \<longrightarrow> line_end rd p)"
proof -
  have "c = 0 \<or> c \<le> rd_limit rd \<and> rd_bytes rd ! (c - 1) = NL" using assms(5) by simp
  then show ?thesis
    using assms(1-4)
  proof (induction w rd pos n c acts arbitrary: rows p q acts' rule: read_stream.induct)
    case (1 w rd pos n c acts)
    show ?case
    proof (cases "pos < rd_limit rd \<and> n < rd_budget rd \<and> next_fragment rd pos n c \<noteq> None")
      case False
      then have "read_stream w rd pos n c acts = ([], pos, n, acts)" by (subst read_stream.simps) (auto split: option.split)
      then have "rows = []" "p = pos" "q = n" using 1(3) by simp_all
      then show ?thesis using 1(4-6) by simp
    next
      case True
      then obtain raw e where nf: "next_fragment rd pos n c = Some (raw, e)" by auto
      obtain row acts1 where fr: "fragment_row w rd pos raw acts = (row, acts1)" by (rule prod.exhaust)
      obtain rows' p' q' acts2 where rec: "read_stream w rd (pos + length raw) (n + length raw) e acts1 = (rows', p', q', acts2)"
        by (cases "read_stream w rd (pos + length raw) (n + length raw) e acts1") auto
      have "read_stream w rd pos n c acts = (row # rows', p', q', acts2)"
        using True by (subst read_stream.simps) (simp add: nf fr rec)
      then have eq: "rows = row # rows'" "p = p'" "q = q'" using 1(3) by simp_all
      have pos: "pos < rd_limit rd" using True by simp
      note spec = next_fragment_spec [OF nf pos 1(5) 1(2)]
      note row = fragment_row_fields [OF fr]
      have IH: "concat (map fz_raw rows') = take (p' - (pos + length raw)) (drop (pos + length raw) (rd_bytes rd)) \<and> pos + length raw \<le> p' \<and> p' \<le> rd_limit rd
         \<and> q' = n + length raw + (p' - (pos + length raw)) \<and> q' \<le> rd_budget rd \<and> tiles (pos + length raw) (map (\<lambda>r. (fz_start r, fz_raw r)) rows') p'
         \<and> list_all (\<lambda>r. length (fz_raw r) \<le> FRAGMENT \<and> fz_end r = fz_start r + length (fz_raw r)) rows'
         \<and> (rd_live rd \<and> rows' \<noteq> [] \<longrightarrow> line_end rd p')"
        by (rule 1(1) [OF _ nf refl fr [symmetric] refl spec(6) rec spec(4) 1(5)]) (use True spec(5) in auto)
      have stop: "p' = pos + length raw" if "rows' = []" using IH that by simp
      have "take (p' - pos) (drop pos (rd_bytes rd)) = raw @ take (p' - (pos + length raw)) (drop (pos + length raw) (rd_bytes rd))"
      proof -
        have "p' - pos = length raw + (p' - (pos + length raw))" using IH by simp
        then show ?thesis using spec(1) by (simp only: take_add) (simp add: add.commute)
      qed
      then show ?thesis using IH row spec(3,7) stop by (auto simp: eq)
    qed
  qed
qed

section \<open>Sharing\<close>

lemma added_inside:
  assumes "add_shared source share known entry (files, copies) = Inr (files', copies')"
    and "\<forall>(key, dest, digest) \<in> set copies. starts_with (share @ ''/'') dest \<and> dest \<noteq> share @ ''/index.json''"
  shows "\<forall>(key, dest, digest) \<in> set copies'. starts_with (share @ ''/'') dest \<and> dest \<noteq> share @ ''/index.json''"
proof -
  have dest: "starts_with (share @ ''/'') (share @ drop (length source) key) \<and> share @ drop (length source) key \<noteq> share @ ''/index.json''"
    if "starts_with (source @ ''/objects/'') key" for key
  proof -
    define n where "n = length (source @ ''/objects/'')"
    have "take n key @ drop n key = key" by (rule append_take_drop_id)
    moreover have "take n key = source @ ''/objects/''" using that unfolding starts_with_def n_def .
    ultimately have "key = source @ ''/objects/'' @ drop n key" by simp
    then have "drop (length source) key = ''/objects/'' @ drop n key" by (rule ssubst) simp
    then show ?thesis unfolding starts_with_def by (simp only:) simp
  qed
  obtain kvs where entry: "entry = JObj kvs" using assms(1) by (cases entry) simp_all
  obtain key where key: "jentry ''key'' entry = Inr key" "starts_with (source @ ''/objects/'') key"
    using assms(1) unfolding entry add_shared.simps by (elim bindr_InrE) (simp split: if_split_asm)
  have "copies' = copies \<or> (\<exists>digest. copies' = copies @ [(key, share @ drop (length source) key, digest)])"
    using assms(1) key unfolding entry add_shared.simps Let_def
    by (simp split: option.split_asm if_split_asm) (elim bindr_InrE; simp split: option.split_asm if_split_asm; elim bindr_InrE; auto)+
  then show ?thesis using assms(2) dest [OF key(2)] by auto
qed

lemma copies_inside:
  assumes "plan_share fuel bk source share s = Inr (Some p)"
  shows "\<forall>(key, dest, digest) \<in> set (sp_copies p). starts_with (share @ ''/'') dest \<and> dest \<noteq> share @ ''/index.json''"
proof -
  obtain known "is" files copies where adds: "foldr_res (add_shared source share known) is ([], []) = Inr (files, copies)" and p: "sp_copies p = copies"
    using assms unfolding plan_share_def by (auto simp: bindr_eq_Inr split: if_splits prod.splits)
  let ?P = "\<lambda>acc. \<forall>(key, dest, digest) \<in> set (snd acc). starts_with (share @ ''/'') dest \<and> dest \<noteq> share @ ''/index.json''"
  have "?P (files, copies)"
  proof (rule foldr_res_invariant [OF adds])
    fix entry acc acc'
    assume "?P acc" "add_shared source share known entry acc = Inr acc'"
    then show "?P acc'" using added_inside [of source share known entry "fst acc" "snd acc" "fst acc'" "snd acc'"] by simp
  qed simp
  then show ?thesis by (simp add: p)
qed

context object_store begin

lemma share_keeps:
  assumes kept: "\<And>k b s. starts_with (share @ ''/'') k \<Longrightarrow> k \<noteq> share @ ''/index.json'' \<Longrightarrow> P s \<Longrightarrow> P (snd (bk_put_immutable bk k b s))"
    and copied: "\<And>k src d s. starts_with (share @ ''/'') k \<Longrightarrow> k \<noteq> share @ ''/index.json'' \<Longrightarrow> P s \<Longrightarrow> P (snd (bk_copy_immutable bk src k d s))"
    and index: "\<And>b e s. P s \<Longrightarrow> P (snd (bk_publish bk (share @ ''/index.json'') b e s))"
  shows "keeps P (publish_share fuel bk source share base)"
proof -
  have inside: "starts_with (share @ ''/'') (share @ CHR ''/'' # x)" for x by (simp add: starts_with_def)
  have put: "keeps P (bk_put_immutable bk (share @ CHR ''/'' # x) b)" if "x \<noteq> ''index.json''" for x b
    using kept [OF inside] that by (simp add: keeps_def)
  have planned: "wp (liftM (plan_share fuel bk (strip_slashes source) share)) (\<lambda>found t. P t \<and> (\<forall>p. found = Some p \<longrightarrow>
      (\<forall>(key, dest, digest) \<in> set (sp_copies p). starts_with (share @ ''/'') dest \<and> dest \<noteq> share @ ''/index.json''))) P t" if "P t" for t
    using that copies_inside by (fastforce split: sum.split)
  have release: "keeps P (bindM (foreachM (\<lambda>(key, dest, digest). bk_copy_immutable bk key dest digest) (sp_copies p)) (\<lambda>_.
      bindM (liftM (\<lambda>_. inventory_of (last (sp_chain p)) (sp_files p))) (\<lambda>inventory.
      bindM (liftM (\<lambda>_. latest_sql (\<lambda>key. without_slash base @ ''/'' @ key) [inventory])) (\<lambda>sql.
      bindM (bk_put_immutable bk (share @ ''/manifests/'' @ sp_generation p @ ''.json'') (Json_text inventory)) (\<lambda>_.
      bindM (bk_put_immutable bk (share @ ''/views/'' @ sp_generation p @ ''.sql'') (Plain_text sql)) (\<lambda>_.
      bindM (liftM (\<lambda>_. share_index (strip_slashes source) share p)) (\<lambda>index.
      bindM (bk_publish bk (share @ ''/index.json'') (Json_text index) (sp_etag p)) (\<lambda>_.
      returnM (JObj [(''copied'', JInt (int (length (sp_copies p)))), (''objects'', JInt (int (length (sp_files p)))), (''unchanged'', JBool False)])))))))))"
    if "\<forall>(key, dest, digest) \<in> set (sp_copies p). starts_with (share @ ''/'') dest \<and> dest \<noteq> share @ ''/index.json''" for p
  proof -
    have copies: "keeps P (foreachM (\<lambda>(key, dest, digest). bk_copy_immutable bk key dest digest) (sp_copies p))"
      by (intro keeps_intros) (use that copied in \<open>fastforce simp: keeps_def\<close>)
    have "keeps P (bk_publish bk (share @ ''/index.json'') b e)" for b e using index by (simp add: keeps_def)
    then show ?thesis by (intro keeps_bind [OF copies]) (intro keeps_intros put; simp add: put)
  qed
  show ?thesis
    unfolding keeps_wp
  proof (intro allI impI)
    fix t assume "P t"
    show "wp (publish_share fuel bk source share base) (\<lambda>_. P) P t"
      unfolding publish_share_def Let_def wp_bind
    proof (rule wp_mono [OF planned [OF \<open>P t\<close>]], goal_cases)
      case (1 found u)
      show ?case
      proof (cases found)
        case (Some p)
        then show ?thesis using keepsD [OF release, of p u] 1 by simp
      qed (use 1 in simp)
    qed
  qed
qed

end

text \<open>C33. Sharing writes only under the share prefix, and there it changes no object that exists, except
  the index: the private dataset and what readers of the share already use stay as they are,
  also when the run fails half way.\<close>

theorem share_confined:
  "{key. local_contents (snd (publish_share n (local_backend w folder) source share base s)) key \<noteq> local_contents s key}
     \<subseteq> {share @ ''/index.json''} \<union> {key. starts_with (share @ ''/'') key \<and> local_contents s key = None}"
proof
  let ?after = "local_contents (snd (publish_share n (local_backend w folder) source share base s))"
  fix key
  assume changed: "key \<in> {key. ?after key \<noteq> local_contents s key}"
  have same: "?after key = local_contents s key" if "key \<noteq> share @ ''/index.json''" "\<not> starts_with (share @ ''/'') key \<or> local_contents s key \<noteq> None"
  proof -
    have "keeps (\<lambda>t. local_contents t key = local_contents s key) (publish_share n (local_backend w folder) source share base)"
    proof (rule lb.share_keeps)
      fix k b t
      assume "starts_with (share @ ''/'') k" "local_contents t key = local_contents s key"
      then show "local_contents (snd (bk_put_immutable (local_backend w folder) k b t)) key = local_contents s key"
        using that lb.put_other [of w folder k b t _ _ key] lb.put_keeps [of w folder k b t _ _ key]
        by (cases "bk_put_immutable (local_backend w folder) k b t"; cases "k = key") auto
    next
      fix k src d t
      assume "starts_with (share @ ''/'') k" "local_contents t key = local_contents s key"
      then show "local_contents (snd (bk_copy_immutable (local_backend w folder) src k d t)) key = local_contents s key"
        using that lb.copy_other [of w folder src k d t _ _ key] lb.copy_keeps [of w folder src k d t _ _ key]
        by (cases "bk_copy_immutable (local_backend w folder) src k d t"; cases "k = key") auto
    next
      fix b e t
      assume "local_contents t key = local_contents s key"
      then show "local_contents (snd (bk_publish (local_backend w folder) (share @ ''/index.json'') b e t)) key = local_contents s key"
        using that(1) lb.publish_other [of w folder "share @ ''/index.json''" b e t _ _ key]
        by (cases "bk_publish (local_backend w folder) (share @ ''/index.json'') b e t") auto
    qed
    then show ?thesis by (simp add: keeps_def)
  qed
  then show "key \<in> {share @ ''/index.json''} \<union> {key. starts_with (share @ ''/'') key \<and> local_contents s key = None}" using changed by blast
qed

section \<open>Two publishers\<close>

text \<open>The constructor reads the pending record before \<^verbatim>\<open>publish\<close> takes the lock. A process that holds the
  record of a generation which another one has meanwhile finished takes the changes of the
  generation that is pending now for its own: they count as published, and their record is gone.\<close>

lemma stale_process_drops_pending:
  assumes "pb_pending s = Some p" and "local_contents (pb_store s) (latest_key se) = Some (Json_text (pointer_json se (pe_id p) rv))"
    and "\<not> aw_locked w"
  shows "\<exists>u. publish w (local_backend w folder) se src s = (Inr (pe_manifest p), u) \<and> ck_pending (pb_db u) = []
     \<and> ck_index (pb_db u) = fold apply_change (ck_changes (pb_db s)) (ck_index (pb_db s)) \<and> pb_spool u = []"
  using assms
  by (simp add: publish_def bindM_def whenM_def returnM_def getsM_def liftM_def modifyM_def local_get_total generation_of_def pointer_json_def finalize_def)

end
