(* ===== verification/AnalyticsSamples.thy ===== *)
theory AnalyticsSamples
  imports AnalyticsGuarantees Samples "HOL-Library.Countable"
begin

text \<open>
  A first session on a source with one row, run step by step, with a digest that has no
  collisions; the theorems on the published dataset are instantiated on it.
\<close>

section \<open>A digest without collisions\<close>

instance sqlv :: countable by countable_datatype
instance json :: countable by countable_datatype
instance arrow :: countable by countable_datatype

instance observation_ext :: (countable) countable
proof
  show "\<exists>to_nat :: 'a observation_scheme \<Rightarrow> nat. inj to_nat"
    by (rule exI [of _ "\<lambda>x. to_nat (ob_values x, ob_revision x, ob_at x, ob_key x, ob_deleted x, observation.more x)"]) (simp add: inj_def)
qed

instance log_row_ext :: (countable) countable
proof
  show "\<exists>to_nat :: 'a log_row_scheme \<Rightarrow> nat. inj to_nat"
    by (rule exI [of _ "\<lambda>x. to_nat ((fz_attempt x, fz_campaign x, fz_stream x, fz_start x, fz_end x, fz_raw x, fz_text x), fz_activity x, fz_derivation x,
      fz_kind x, fz_fragment x, fz_revision x, fz_at x, log_row.more x)"]) (simp add: inj_def)
qed

instance body :: countable by countable_datatype

definition sample_digest :: "body \<Rightarrow> string" where
  "sample_digest b = ''h'' @ decimal (to_nat b)"

lemma sample_digest_inj: "inj sample_digest"
  by (auto simp: inj_def sample_digest_def dest: decimal_inj)

section \<open>A source, a world and a session\<close>

definition sample_table :: "string \<Rightarrow> source_table" where
  "sample_table t = \<lparr>tb_columns = [\<lparr>cl_name = ''id'', cl_type = ''INTEGER'', cl_pk = 1\<rparr>], tb_rows = (if t = ''candidates'' then [[SInt 1]] else [])\<rparr>"

definition sample_source :: source where
  "sample_source = \<lparr>so_version = 6, so_tables = map (\<lambda>t. (t, sample_table t)) TABLES, so_log = (\<lambda>_ _. None)\<rparr>"

definition sample_analytics :: analytics_world where
  "sample_analytics = \<lparr>aw_log = \<lparr>lg_rt = sample_runtime, lg_decode = (\<lambda>s. s), lg_arrow = ''>''\<rparr>, aw_sha256 = sample_digest, aw_md5 = sample_digest,
     aw_length = (\<lambda>_. 0), aw_now = 5, aw_uuid = (\<lambda>n. ''u'' @ decimal n), aw_free = (\<lambda>_. 10), aw_array = (\<lambda>_ _. Inr ()), aw_locked = False\<rparr>"

definition sample_settings :: analytics_settings where
  "sample_settings = \<lparr>se_experiment = ''x'', se_prefix = [], se_log_bytes = 100, se_reserve = 0\<rparr>"

lemma sample_info: "t \<in> set TABLES \<Longrightarrow> source_info sample_source t = tb_columns (sample_table t)"
  "t \<in> set TABLES \<Longrightarrow> source_rows sample_source t = tb_rows (sample_table t)"
  by (auto simp: source_info_def source_rows_def sample_source_def TABLES_def)

lemma run_simps: "bindM m f s = (case m s of (Inl e, s') \<Rightarrow> (Inl e, s') | (Inr x, s') \<Rightarrow> f x s')"
  "returnM x s = (Inr x, s)" "raiseM e s = (Inl e, s)" "getsM g s = (Inr (g s), s)" "modifyM h s = (Inr (), h s)" "liftM k s = (k s, s)"
  "whenM b n s = (if b then n s else (Inr (), s))"
  by (simp_all add: bindM_def returnM_def raiseM_def getsM_def modifyM_def liftM_def whenM_def)

lemma sample_schema: "t \<in> set TABLES \<Longrightarrow> schema_of sample_source t = Inr (tb_columns (sample_table t), [''id''])"
  by (simp add: schema_of_def sample_info schema_keys_def sample_table_def)

lemma sample_events: "source_rows sample_source ''events'' = []"
proof -
  have "''events'' \<in> set TABLES" by (simp add: TABLES_def)
  then show ?thesis by (simp add: sample_info sample_table_def)
qed

lemma sample_max: "max_seq sample_source = 0"
  by (simp add: max_seq_def sample_events)

lemma scan_nothing:
  assumes "t \<in> set TABLES" "t \<noteq> ''candidates''" "ck_index (pb_db s) = []" "config_int (pb_db s) ''events_seq'' = Inr 0"
  shows "scan_table sample_analytics sample_settings sample_source rv t out s = (Inr out, s)"
  using assms sample_events by (simp add: scan_table_def run_simps sample_schema scan_rows_def sample_info sample_table_def changed_rows_def gone_keys_def
      note_changes_def stage_def sample_max Let_def)

definition sample_key :: json where
  "sample_key = JArr [JInt 1]"

definition sample_file :: "int \<Rightarrow> body" where
  "sample_file rv = Row_file (arrow_schema (tb_columns (sample_table ''candidates'')) True) [observe sample_analytics rv False (sample_key, [SInt 1])]"

definition sample_item :: "int \<Rightarrow> json" where
  "sample_item rv = item_json sample_settings ''candidates'' [] 1 (sample_digest (sample_file rv))"

lemma sample_fields [simp]:
  "aw_sha256 sample_analytics = sample_digest" "aw_md5 sample_analytics = sample_digest" "aw_now sample_analytics = 5"
  "aw_uuid sample_analytics n = ''u'' @ decimal n" "aw_free sample_analytics n = 10" "aw_array sample_analytics a vs = Inr ()"
  "aw_locked sample_analytics = False" "se_reserve sample_settings = 0" "se_log_bytes sample_settings = 100" "se_prefix sample_settings = []"
  by (simp_all add: sample_analytics_def sample_settings_def)

lemma write_one:
  assumes "pb_spool s = []"
  shows "write_part sample_analytics sample_settings ''candidates'' (tb_columns (sample_table ''candidates'')) rv False [(sample_key, [SInt 1])] s =
    (Inr (sample_item rv), s\<lparr>pb_spool := [(spool_name (sample_digest (sample_file rv)), sample_file rv)], pb_uuids := pb_uuids s + 1\<rparr>)"
  using assms
  by (simp add: write_part_def run_simps new_uuid_def convert_def spool_write_def AnalyticsScan.part_def Let_def sample_item_def sample_file_def sample_table_def)

definition staged_state :: "int \<Rightarrow> 's publisher \<Rightarrow> 's publisher" where
  "staged_state rv s = s\<lparr>pb_db := (pb_db s)\<lparr>ck_changes := [((''candidates'', sample_key), Some (row_hash sample_analytics [SInt 1]))]\<rparr>,
       pb_spool := [(spool_name (sample_digest (sample_file rv)), sample_file rv)], pb_uuids := pb_uuids s + 1\<rparr>"

lemma scan_one:
  assumes "ck_index (pb_db s) = []" and "pb_spool s = []" and "ck_changes (pb_db s) = []"
  shows "scan_table sample_analytics sample_settings sample_source rv ''candidates'' [] s =
    (Inr [sample_item rv], staged_state rv s)"
proof -
  have c: "''candidates'' \<in> set TABLES" by (simp add: TABLES_def)
  have rows: "source_rows sample_source ''candidates'' = [[SInt 1]]" using c by (simp add: sample_info sample_table_def)
  have key: "key_of (tb_columns (sample_table ''candidates'')) [''id''] [SInt 1] = sample_key"
    by (simp add: key_of_def cell_def col_index_def sample_table_def row_text_def sample_key_def)
  show ?thesis
    using assms
    by (simp add: scan_table_def run_simps sample_schema [OF c] scan_rows_def rows changed_rows_def gone_keys_def key
      note_changes_def stage_def Let_def write_one staged_state_def)
qed

lemma scan_rest:
  assumes "set ts \<subseteq> set TABLES - {''candidates''}" and "ck_index (pb_db s) = []" and "config_int (pb_db s) ''events_seq'' = Inr 0"
  shows "foldM (scan_table sample_analytics sample_settings sample_source rv) ts out s = (Inr out, s)"
  using assms(1) by (induction ts) (simp_all add: run_simps scan_nothing assms(2,3))

lemma scan_all_sample:
  assumes "ck_index (pb_db s) = []" and "config_int (pb_db s) ''events_seq'' = Inr 0" and "pb_spool s = []" and "ck_changes (pb_db s) = []"
  shows "scan_tables sample_analytics sample_settings sample_source rv s = (Inr [sample_item rv], staged_state rv s)"
proof -
  have tables: "TABLES = ''campaigns'' # ''candidates'' # drop 2 TABLES" by (simp add: TABLES_def)
  have rest: "set (drop 2 TABLES) \<subseteq> set TABLES - {''candidates''}" by (simp add: TABLES_def)
  have first: "scan_table sample_analytics sample_settings sample_source rv ''campaigns'' [] s = (Inr [], s)"
    by (rule scan_nothing) (simp_all add: TABLES_def assms)
  have "ck_index (pb_db (staged_state rv s)) = []" "config_int (pb_db (staged_state rv s)) ''events_seq'' = Inr 0"
    using assms by (simp_all add: staged_state_def config_int_def config_of_def)
  from scan_rest [OF rest this] have last: "foldM (scan_table sample_analytics sample_settings sample_source rv) (drop 2 TABLES) [sample_item rv] (staged_state rv s)
      = (Inr [sample_item rv], staged_state rv s)" .
  show ?thesis
    unfolding scan_tables_def
    by (subst tables) (simp add: run_simps first scan_one assms(1,3,4) last)
qed

lemma sample_attempts: "log_attempts sample_source = []"
proof -
  have "''attempts'' \<in> set TABLES" by (simp add: TABLES_def)
  then show ?thesis by (simp add: log_attempts_def sample_info sample_table_def Let_def)
qed

lemma sample_schemas: "\<exists>ts. table_schemas sample_source = Inr ts"
proof -
  have "\<exists>ts. map_res (\<lambda>t. bindr (table_json sample_source t) (\<lambda>j. Inr (t, j))) xs = Inr ts" if "set xs \<subseteq> set TABLES" for xs
    using that by (induction xs) (auto simp: table_json_def sample_schema)
  then show ?thesis by (simp add: table_schemas_def sample_source_def SOURCE_VERSION_def)
qed

abbreviation sample_store :: "local backend" where
  "sample_store \<equiv> local_backend sample_analytics ''/d''"

definition opened_state :: "local publisher" where
  "opened_state = (fresh_publisher [])\<lparr>pb_db := set_config ''identity'' (identity_of sample_analytics sample_settings ''/d'') empty_checkpoint\<rparr>"

lemma sample_open: "open_publisher sample_analytics sample_store sample_settings (fresh_publisher []) = (Inr (), opened_state)"
  by (simp add: open_publisher_def run_simps opened_state_def fresh_publisher_def local_get_total local_contents_def generation_of_def
      local_backend_def [THEN arg_cong, of bk_identity] config_of_def empty_checkpoint_def check_remote_def first_pending_def set_config_def Let_def)

definition untouched :: "local publisher \<Rightarrow> bool" where
  "untouched s \<longleftrightarrow> ck_index (pb_db s) = [] \<and> config_int (pb_db s) ''events_seq'' = Inr 0 \<and> pb_spool s = [] \<and> ck_changes (pb_db s) = []
     \<and> pb_store s = \<lparr>lo_files = [], lo_trouble = []\<rparr> \<and> pb_etag s = None \<and> config_int (pb_db s) ''revision'' = Inr 0 \<and> pb_pending s = None"

definition sample_pending :: "(string \<times> json) list \<Rightarrow> pending" where
  "sample_pending ts = \<lparr>pe_id = ''u0'', pe_revision = 1, pe_manifest = manifest_json sample_analytics ''u0'' 1 sample_source ts 0 JNull [sample_item 1],
     pe_base = None\<rparr>"

lemma sample_scan:
  assumes "untouched s"
  shows "\<exists>ts u. scan sample_analytics sample_store sample_settings sample_source 1 ''u0'' s = (Inr (Some (sample_pending ts)), u)
     \<and> pb_store u = \<lparr>lo_files = [], lo_trouble = []\<rparr> \<and> pb_spool u = [(spool_name (sample_digest (sample_file 1)), sample_file 1)]"
proof -
  obtain ts where ts: "table_schemas sample_source = Inr ts" using sample_schemas by blast
  have tables: "scan_tables sample_analytics sample_settings sample_source 1 s = (Inr [sample_item 1], staged_state 1 s)"
    by (rule scan_all_sample) (use assms in \<open>simp_all add: untouched_def\<close>)
  have parent: "parent_of sample_store sample_settings (staged_state 1 s) = Inr (None, JNull)"
    using assms by (simp add: parent_of_def local_get_total staged_state_def untouched_def local_contents_def generation_of_def)
  show ?thesis
    using assms
    by (simp add: scan_def run_simps ts atomicallyM_def tables sample_attempts parent Let_def sample_pending_def)
      (auto simp: staged_state_def untouched_def)
qed

lemma sample_upload:
  assumes "pb_store s = \<lparr>lo_files = fs, lo_trouble = []\<rparr>" and "pb_spool s = [(spool_name (sample_digest (sample_file 1)), sample_file 1)]" and "fs = []"
  shows "\<exists>gs. upload sample_analytics sample_store (sample_item 1) s = (Inr (), s\<lparr>pb_store := \<lparr>lo_files = gs, lo_trouble = []\<rparr>\<rparr>)
     \<and> map fst gs = [path_of sample_settings (''objects/table=candidates/'' @ sample_digest (sample_file 1) @ ''.parquet'')]"
proof -
  have item: "jentry ''sha256'' (sample_item 1) = Inr (sample_digest (sample_file 1))"
    "jentry ''key'' (sample_item 1) = Inr (path_of sample_settings (''objects/table=candidates/'' @ sample_digest (sample_file 1) @ ''.parquet''))"
    by (simp_all add: sample_item_def item_json_def jentry_def jindex_def)
  show ?thesis
    using assms
    by (intro exI [of _ "[(path_of sample_settings (''objects/table=candidates/'' @ sample_digest (sample_file 1) @ ''.parquet''), sample_file 1)]"])
      (simp add: upload_def run_simps item local_backend_def local_put_immutable_def local_write_def)
qed

lemma sample_store_operations: "bk_put_immutable sample_store = local_put_immutable sample_analytics" "bk_publish sample_store = local_publish sample_analytics"
  "bk_get sample_store = local_get sample_analytics"
  by (simp_all add: local_backend_def)

lemma sample_release:
  assumes "pb_store s = \<lparr>lo_files = [], lo_trouble = []\<rparr>" and "pb_spool s = [(spool_name (sample_digest (sample_file 1)), sample_file 1)]"
    and "pb_pending s = Some p"
  shows "\<exists>m u. release sample_analytics sample_store sample_settings ''u0'' 1 (pe_manifest (sample_pending ts)) None s = (Inr m, u)"
proof -
  obtain gs where gs: "upload sample_analytics sample_store (sample_item 1) s = (Inr (), s\<lparr>pb_store := \<lparr>lo_files = gs, lo_trouble = []\<rparr>\<rparr>)"
    and keys: "map fst gs = [path_of sample_settings (''objects/table=candidates/'' @ sample_digest (sample_file 1) @ ''.parquet'')]"
    using sample_upload [OF assms(1,2) refl] by (elim exE conjE)
  have free: "map_of gs (manifest_key sample_settings ''u0'') = None" "map_of gs (latest_key sample_settings) = None"
    unfolding map_of_eq_None_iff set_map [symmetric] keys list.set manifest_key_def latest_key_def
    by (simp_all add: path_of_inj)
  have files: "manifest_files (pe_manifest (sample_pending ts)) = Inr [sample_item 1]" by (simp add: sample_pending_def)
  have other: "latest_key sample_settings \<noteq> manifest_key sample_settings ''u0''" by (rule latest_is_no_object(1) [THEN not_sym])
  show ?thesis
    by (simp add: release_def run_simps files gs spool_write_def sample_store_operations local_put_immutable_def local_write_def local_publish_def
        local_get_def free other finalize_def assms(3))
qed

lemma sample_session: "\<exists>m u. session sample_analytics sample_store sample_settings sample_source (fresh_publisher []) = (Inr m, u)"
proof -
  have "untouched (opened_state\<lparr>pb_uuids := pb_uuids opened_state + 1\<rparr>)"
    by (simp add: untouched_def opened_state_def fresh_publisher_def empty_checkpoint_def set_config_def config_int_def config_of_def)
  from sample_scan [OF this] obtain ts u where
    found: "scan sample_analytics sample_store sample_settings sample_source 1 ''u0'' (opened_state\<lparr>pb_uuids := pb_uuids opened_state + 1\<rparr>) = (Inr (Some (sample_pending ts)), u)"
    and u: "pb_store u = \<lparr>lo_files = [], lo_trouble = []\<rparr>" "pb_spool u = [(spool_name (sample_digest (sample_file 1)), sample_file 1)]" by blast
  have "decimal 0 = ''0''" by code_simp
  then have start: "pb_pending opened_state = None" "pb_spool opened_state = []" "''u'' @ decimal (pb_uuids opened_state) = ''u0''"
    "config_int (pb_db opened_state) ''revision'' = Inr 0"
    by (simp_all add: opened_state_def fresh_publisher_def empty_checkpoint_def set_config_def config_int_def config_of_def)
  have swept: "opened_state\<lparr>pb_spool := [], pb_uuids := k\<rparr> = opened_state\<lparr>pb_uuids := k\<rparr>" for k
    by (simp add: opened_state_def fresh_publisher_def)
  have base: "pe_base (sample_pending ts) = None" by (simp add: sample_pending_def)
  obtain m v where "release sample_analytics sample_store sample_settings ''u0'' 1 (pe_manifest (sample_pending ts)) None (u\<lparr>pb_pending := Some (sample_pending ts)\<rparr>) = (Inr m, v)"
    using sample_release [of "u\<lparr>pb_pending := Some (sample_pending ts)\<rparr>" "sample_pending ts" ts] u by auto
  then show ?thesis
    using start found base by (simp add: swept session_def run_simps sample_open publish_def new_uuid_def Let_def)
qed

lemma sample_keyed: "t \<in> set TABLES \<Longrightarrow> keyed sample_source t = (if t = ''candidates'' then [(sample_key, [SInt 1])] else [])"
  by (simp add: keyed_def sample_info sample_table_def schema_keys_def key_of_def cell_def col_index_def row_text_def sample_key_def)

lemma sample_sources: "sources_ok {sample_source}"
  by (simp add: sources_ok_def mirror_tables_def sample_keyed)

lemma sample_ids: "inj (aw_sha256 sample_analytics)" "inj (aw_uuid sample_analytics)" "\<forall>i. aw_uuid sample_analytics i \<noteq> []"
  "same_ids sample_analytics sample_analytics"
  by (simp add: sample_digest_inj, auto simp: inj_def same_ids_def dest: decimal_inj)

lemma sample_start: "analytics_runs sample_analytics ''/d'' sample_settings {sample_source} (fresh_publisher [])"
  by (rule runs_start)

lemma sample_not_empty: "\<not> dataset_shows s [] sample_source"
proof -
  have c: "''candidates'' \<in> set TABLES" by (simp add: TABLES_def)
  moreover have "''candidates'' \<in> mirror_tables" using c by (simp add: mirror_tables_def)
  ultimately show ?thesis
    unfolding dataset_shows_def by (auto simp: sample_keyed current_def intro!: bexI [of _ "''candidates''"])
qed


lemma reader_sees_snapshot_witness:
  "\<exists>u ms. snd (session sample_analytics sample_store sample_settings sample_source (fresh_publisher [])) = u
     \<and> (load_chain (pb_uuids u) sample_store (pb_store u) [] = Some (Inr ms)
        \<or> ms = [] \<and> local_contents (pb_store u) (latest_key sample_settings) = None)
     \<and> (ms = [] \<or> dataset_shows (pb_store u) ms sample_source)"
proof -
  have "analytics_runs sample_analytics ''/d'' sample_settings {sample_source}
      (snd (session sample_analytics sample_store sample_settings sample_source (fresh_publisher [])))"
    by (rule runs_session [OF sample_start sample_ids(4)]) simp
  from reader_sees_snapshot [OF this sample_sources sample_ids(1,2,3)] show ?thesis by simp
qed

definition sample_reader :: reader where
  "sample_reader = \<lparr>rd_attempt = ''a'', rd_campaign = ''c'', rd_stream = ''stdout'', rd_bytes = [CHR ''a'', NL, CHR ''b''], rd_limit = 3, rd_live = True,
     rd_budget = 10, rd_revision = 1\<rparr>"

lemma sample_fragments:
  "next_fragment sample_reader 0 0 0 = Some ([CHR ''a'', NL], 0)" "next_fragment sample_reader 2 2 0 = None"
proof -
  have breaks: "find_break [CHR ''a'', NL, CHR ''b''] 3 3 = None" by (simp add: find_break.simps)
  show "next_fragment sample_reader 0 0 0 = Some ([CHR ''a'', NL], 0)"
    by (simp add: next_fragment_def sample_reader_def readline_def FRAGMENT_def NL_def complete_line_def numeral_2_eq_2 numeral_3_eq_3)
  show "next_fragment sample_reader 2 2 0 = None"
    using breaks by (simp add: next_fragment_def sample_reader_def readline_def FRAGMENT_def NL_def complete_line_def numeral_2_eq_2 numeral_3_eq_3)
qed

lemma fragments_tile_witness:
  "\<exists>rows acts. read_stream sample_analytics sample_reader 0 0 0 [] = (rows, 2, 2, acts) \<and> concat (map fz_raw rows) = [CHR ''a'', NL]
     \<and> line_end sample_reader 2"
proof -
  have fields: "rd_limit sample_reader = 3" "rd_budget sample_reader = 10" "rd_live sample_reader" "rd_bytes sample_reader = [CHR ''a'', NL, CHR ''b'']"
    by (simp_all add: sample_reader_def)
  obtain row acts where row: "fragment_row sample_analytics sample_reader 0 [CHR ''a'', NL] [] = (row, acts)" by (rule prod.exhaust)
  have rest: "read_stream sample_analytics sample_reader 2 2 0 acts = ([], 2, 2, acts)"
    by (subst read_stream.simps) (simp add: sample_fragments)
  have run: "read_stream sample_analytics sample_reader 0 0 0 [] = ([row], 2, 2, acts)"
    by (subst read_stream.simps) (simp add: sample_fragments fields row, simp add: numeral_2_eq_2 [symmetric] rest)
  from fragments_tile [OF run] show ?thesis using run by (auto simp: fields take_Cons' numeral_2_eq_2)
qed

end
