(* ===== verification/Spec2Isabelle.thy ===== *)
theory Spec2Isabelle
  imports Scenario GraphGuarantees ControllerGuarantees WorkerGuarantees RecordGuarantees ViewGuarantees PublisherGuarantees CatalogGuarantees ClassifierGuarantees
    DashboardSamples AnalyticsSamples
begin

text \<open>
  \<^bold>\<open>What the program is.\<close> The repository builds packages with the memory-safe Fil-C
  toolchain. Its \<^verbatim>\<open>src/experiment/\<close> package runs large build campaigns: a controller keeps the
  facts in one SQLite database, starts planner and build workers as separate processes, reads
  their logs, and decides from the state of the Nix store what succeeded. Read-only views show
  the facts, a publisher (\<^verbatim>\<open>src/scripts/publish-cache.py\<close>) copies finished outputs to
  binary caches. This development models that system.

  \<^bold>\<open>How the parts interact.\<close> A command or a timer calls the controller. It reconciles
  finished workers with the store (\<^verbatim>\<open>reconcile\<close>), refreshes the candidates of the campaign
  (\<^verbatim>\<open>model.py\<close>), plans or admits a batch within the CPU budget (\<^verbatim>\<open>scheduling.py\<close>) and records
  an intent before the worker starts. The worker (\<^verbatim>\<open>attempt.py\<close>) runs Nix, filters its log
  (\<^verbatim>\<open>capture.py\<close>) and leaves one exit record. The next tick reads log and record back.

  \<^bold>\<open>The theories\<close>, in the order of the code they model:

  \<^item> \<open>Prelude\<close>, \<open>Effects\<close>, \<open>Walk\<close>, \<open>Regex\<close>, \<open>Json\<close>: exceptions as values, stateful
    operations that may raise with their weakest preconditions, transactions (the locale
    \<open>stored\<close>), graph walks by work list, regular expressions by derivatives, JSON values and
    their printer. These carry the component proofs.
  \<^item> \<open>Scope\<close> (\<^verbatim>\<open>scope.py\<close>): which derivations are out of scope.
  \<^item> \<open>Model\<close> (\<^verbatim>\<open>model.py\<close>): the tables as lists of records in rowid order, import of a
    campaign, closures, blockers, refreshing of the candidate states.
  \<^item> \<open>NixAdapter\<close> (\<^verbatim>\<open>nix.py\<close>): graphs, store validity, build machines, log events.
  \<^item> \<open>Scheduling\<close> (\<^verbatim>\<open>scheduling.py\<close>): needed dependencies and reservations of CPUs.
  \<^item> \<open>Capture\<close> (\<^verbatim>\<open>capture.py\<close>, \<^verbatim>\<open>timing.py\<close>): the log filter and the activity clock.
  \<^item> \<open>Outcomes\<close>, \<open>Classifications\<close> (\<^verbatim>\<open>outcomes.py\<close>, \<^verbatim>\<open>classifications.py\<close>): what a batch
    records about its derivations; annotations and their validation.
  \<^item> \<open>Controller\<close>, \<open>Reconcile\<close>, \<open>Admission\<close>, \<open>Commands\<close> (\<^verbatim>\<open>controller.py\<close>): intents; reading
    logs and finishing attempts; admission and the tick; commands and the request handler.
    The state \<open>ctl\<close> is the database, the folders of the workers, the known build machines,
    the garbage-collector roots and the calls to systemd; the record \<open>world\<close> is what one
    operation observes of clock, store and processes.
  \<^item> \<open>AttemptWorker\<close> (\<^verbatim>\<open>attempt.py\<close>): planning, the build loop with its watchdog, the run of
    one attempt.
  \<^item> \<open>Logs\<close>, \<open>Ranking\<close>, \<open>LiveGraph\<close>, \<open>History\<close> (\<^verbatim>\<open>logs.py\<close>, \<^verbatim>\<open>blockers.py\<close>, \<^verbatim>\<open>graph.py\<close> and
    \<^verbatim>\<open>evidence.py\<close>, \<^verbatim>\<open>history.py\<close> and \<^verbatim>\<open>batches.py\<close>): the read-only views.
  \<^item> \<open>Urls\<close>, \<open>Publisher\<close> (\<^verbatim>\<open>scripts/publish-cache.py\<close>): discovery of outputs, the queue with
    its receipts, pushing in batches that split down to single paths, checking of what the
    cache still holds. \<open>PublisherGuarantees\<close> shows what a run keeps of the queue and that a
    path that cannot be pushed does not hold up the others.
  \<^item> \<open>Catalog\<close> (\<^verbatim>\<open>catalog.py\<close>, \<^verbatim>\<open>diagnostics.py\<close>, \<^verbatim>\<open>retention.py\<close>): the inventory of packages,
    summaries of evaluation errors, removal of consumed planner graphs.
  \<^item> \<open>ClassifierWorker\<close> (second half of \<^verbatim>\<open>classifications.py\<close>): collecting evidence, asking a
    provider once per request, checking the answer and submitting it to the controller.

  \<^item> \<open>Web\<close> (\<^verbatim>\<open>web.py\<close>): the snapshot of a campaign, details of packages and derivations, and the
    WSGI application from a request to its response. The views of the other theories are
    called as they are modelled there.
  \<^item> \<open>Resources\<close>, \<open>DashboardData\<close>, \<open>DashboardPages\<close>, \<open>DashboardApp\<close> (\<^verbatim>\<open>dashboard/\<close>): the addresses
    with the reading options they carry, the facts that the pages show (among them the
    forest of running builds), and the handlers that decide something: redirects, the log
    reader, the export, the notifications.
  \<^item> \<open>Analytics\<close>, \<open>AnalyticsScan\<close>, \<open>AnalyticsPublisher\<close>, \<open>AnalyticsShare\<close> (\<^verbatim>\<open>analytics.py\<close>,
    \<^verbatim>\<open>analytics_share.py\<close>): the two backends, the comparison of the source with the published
    rows, staging, a publication that survives a stop at any write, reading the chain of
    manifests, and the share. The state \<open>publisher\<close> is the checkpoint database, the spool, the
    store and what the process holds in memory.

  \<^bold>\<open>What is shown.\<close> \<open>Invariants\<close>, \<open>Lifecycle\<close>, \<open>Safety\<close> and \<open>Ownership\<close> show that every
  controller operation keeps the invariant \<open>consistent\<close> of the database also when it raises
  half way. This theory defines no new operations: it states the properties of every state
  that ticks, commands, restarts and worker writes reach (\<open>reachable_from\<close> in \<open>Commands\<close>,
  an inductive relation). The theories named \<open>\<dots>Guarantees\<close> hold the properties of single
  components. \<open>AnalyticsStore\<close> states what the publisher relies on as the locale \<open>object_store\<close>,
  interpreted by the local backend; \<open>AnalyticsInvariant\<close> shows in it that opening, scanning and
  publishing keep the invariant that ties the checkpoint to the published chain, whichever write
  fails. \<open>Samples\<close>, \<open>Scenario\<close>, \<open>DashboardSamples\<close> and \<open>AnalyticsSamples\<close> hold the concrete
  campaigns and runs that the witnesses evaluate.

  \<^bold>\<open>Parameters.\<close> What the sources do not contain is an argument of the definitions that use
  it: the printer of floats and the SHA-256 function (record \<open>runtime\<close>), the clock, the answers
  of the Nix store, subprocess results, file contents, HTTP answers. Files and processes are
  observed values; what the code relies on (for instance that the printer of floats writes
  no line break) is a named hypothesis of the theorem that needs it.

  \<^bold>\<open>Bounds and fuel.\<close> Loops over work lists terminate by a measure on the nodes not yet
  seen. The build loop of a worker and the following of a log consume a list of observations,
  one per turn, so they are structurally recursive. Page-by-page reading has a fuel argument,
  and the theorems show that as much fuel as there are rows (or bytes) is enough; reading the
  published chain needs one turn per object (\<open>load_chain_returns\<close>). The search for a path in
  the forest of builds ends because chains have at most eight links and 32 parents each.
  Timestamps are rationals: the code only compares, adds and subtracts them.

  \<^bold>\<open>Not modelled.\<close> The HTML that \<^verbatim>\<open>dashboard/views.py\<close>, \<^verbatim>\<open>base.py\<close> and \<^verbatim>\<open>logview.py\<close> write
  from the modelled facts, and the table of routes. Argument parsing and the start of servers
  (\<^verbatim>\<open>__main__.py\<close>), sockets, locks and threads: handlers run one after the other, the pool of
  copies of the share in list order. The contents of Parquet files beyond their rows, the
  conversion of columns by pyarrow, DuckDB. The transport of HTTP requests to the
  classifier providers, caches and S3, whose answers are arguments. Set-up of the SQLite
  connection and schema migration. Benchmarks, demonstrations and packaging scripts, which
  share no state with the experiment.
\<close>

section \<open>Properties of the running system\<close>

text \<open>C1. Whatever ticks, commands (malformed ones included), restarts and workers do, in any
  order: all active attempts belong to one campaign and at most one of them is a planner.\<close>

theorem reachable_single_campaign:
  assumes "reachable_from s0 s" and "consistent (k_db s0)"
  shows "(\<forall>a \<in> set (active_attempts (k_db s)). \<forall>b \<in> set (active_attempts (k_db s)). at_campaign a = at_campaign b)
     \<and> length (filter is_plan (active_attempts (k_db s))) \<le> 1"
  using reachable_consistent [OF assms] unfolding consistent_def attempts_ok_def one_campaign_def one_planner_def by blast

theorem reachable_single_campaign_witness:
  "length (active_attempts (k_db sample_run)) = 2 \<and> length (filter is_plan (active_attempts (k_db sample_run))) \<le> 1"
  using reachable_single_campaign [OF sample_reachable sample_consistent] sample_run_active by simp

text \<open>C2. In every reachable state the local builds that are active together reserve, as the
  product of jobs and cores in their immutable specifications, at most the number of CPUs that
  the policy of their campaign names, and each reserves at least one.\<close>

theorem reachable_cpu_budget:
  assumes "reachable_from s0 s" and "consistent (k_db s0)"
    and "p \<in> set (campaigns (k_db s))" and "cpu_set (p_cpus (cp_policy p)) = Inr cpus"
    and "a \<in> set (active_builds (k_db s))" and "at_campaign a = cp_id p"
  shows "cpu_load (local_builds (active_builds (k_db s))) \<le> int (card cpus)
     \<and> (\<forall>b \<in> set (local_builds (active_builds (k_db s))). 1 \<le> limit_jobs b * limit_cores b)"
proof -
  have ok: "attempts_ok (k_db s)" using reachable_consistent [OF assms(1,2)] by (simp add: consistent_def)
  have sub: "b \<in> set (active_builds (k_db s)) \<Longrightarrow> b \<in> set (active_attempts (k_db s))" for b
    by (simp add: active_builds_def)
  have "\<forall>b \<in> set (active_builds (k_db s)). at_campaign b = cp_id p"
    using ok assms(5,6) sub unfolding attempts_ok_def one_campaign_def by metis
  moreover have "active_builds (k_db s) \<noteq> []" using assms(5) by auto
  ultimately have "local_load (k_db s) \<le> int (card cpus)"
    using ok assms(3,4) unfolding attempts_ok_def within_budget_def by blast
  moreover have "1 \<le> limit_jobs b * limit_cores b" if "b \<in> set (local_builds (active_builds (k_db s)))" for b
    using ok that mult_mono [of 1 "limit_jobs b" 1 "limit_cores b"] by (auto simp: attempts_ok_def positive_limits_def)
  ultimately show ?thesis by (simp add: local_load_def)
qed

theorem reachable_cpu_budget_witness:
  "cpu_load (local_builds (active_builds (k_db sample_run))) \<le> 4"
proof -
  have "cpu_load (local_builds (active_builds (k_db sample_run))) \<le> int (card {0..3 :: int})"
    by (rule conjunct1 [OF reachable_cpu_budget [OF sample_reachable sample_consistent sample_run_campaign]])
      (fact sample_run_build)+
  then show ?thesis by simp
qed

text \<open>C3. In every reachable state a candidate marked running is a root of an active build of its
  own campaign, and a candidate in any state past planning has a derivation.\<close>

theorem reachable_candidates_backed:
  assumes "reachable_from s0 s" and "consistent (k_db s0)" and "c \<in> set (candidates (k_db s))"
  shows "(c_state c = Running \<longrightarrow> (\<exists>a \<in> set (active_builds (k_db s)). \<exists>d. at_campaign a = c_campaign c
            \<and> c_drv c = Some d \<and> TBuild d \<in> set (at_targets a)))
     \<and> (c_state c \<notin> {Unplanned, Excluded, Evaluation_error} \<longrightarrow> c_drv c \<noteq> None)"
proof -
  have "candidate_ok (running_roots (k_db s)) c"
    using reachable_consistent [OF assms(1,2)] assms(3) by (auto simp: consistent_def candidates_ok_def list_all_iff)
  then show ?thesis
    by (fastforce simp: candidate_ok_def running_roots_def drv_in_def build_roots_iff split: option.splits)
qed

theorem reachable_candidates_backed_witness:
  "\<exists>a \<in> set (active_builds (k_db sample_run)). TBuild ''d1'' \<in> set (at_targets a)"
  using reachable_candidates_backed [OF sample_reachable sample_consistent sample_run_candidate] sample_run_candidate_facts by auto

text \<open>C4. Attempts are never deleted, reordered or rewritten: in every reachable state each earlier
  attempt is still at its place with the same identity, campaign, kind, targets and specification, and
  one that had finished is still finished.\<close>

theorem reachable_history:
  assumes "reachable_from s0 s" and "consistent (k_db s0)" and "i < length (attempts (k_db s0))"
  shows "i < length (attempts (k_db s))
     \<and> (let a = attempts (k_db s0) ! i; b = attempts (k_db s) ! i in
          at_id b = at_id a \<and> at_campaign b = at_campaign a \<and> at_kind b = at_kind a \<and> at_targets b = at_targets a
        \<and> at_spec b = at_spec a \<and> (at_state a = Finished \<longrightarrow> at_state b = Finished))"
proof -
  have "evolved (k_db s0) (k_db s)"
    using good_reachable [OF assms(1), of "k_db s0"] assms(2) by (simp add: good_def)
  then show ?thesis
    using assms(3) by (cases "at_state (attempts (k_db s) ! i)") (auto simp: evolved_def advances_def static_def is_active_def Let_def)
qed

theorem reachable_history_witness:
  "at_spec (attempts (k_db sample_run) ! 0) = at_spec (attempts (k_db ticked) ! 0)"
  using reachable_history [OF ticked_reachable ticked_consistent, of 0] by (simp add: Let_def)
end
